(* ===== verification/Go_Strings.thy ===== *)
theory Go_Strings
  imports Main "HOL-Library.List_Lexorder" "HOL-Library.Char_ord" "HOL-Library.AList"
    "HOL-Library.Multiset"
begin

text \<open>
  The prelude. A Go string is a byte sequence and is modelled by \<^typ>\<open>string\<close>, every
  \<^typ>\<open>char\<close> being one byte. This theory models what the sources use of the packages
  \<open>strings\<close>, \<open>strconv\<close>, \<open>sort\<close> and \<open>slices\<close>, and the Go map. A Go map is an association list
  with distinct keys whose order is the order in which one iteration enumerates the map: Go leaves
  that order open, so a definition that ranges over a map takes the enumeration as it comes, and
  the theorems hold for every enumeration.

  \<open>strings.ToUpper\<close>, \<open>strings.ToLower\<close> and \<open>strings.EqualFold\<close> are modelled on the ASCII letters
  and on the non-ASCII letters whose case mapping lands in ASCII (dotless i, dotted I, long s, Kelvin
  sign); other non-ASCII letters are left alone. The sources compare the results with ASCII
  text, for which the model is exact.
\<close>

named_theorems go_simps \<open>evaluation of the string library\<close>
named_theorems dollar \<open>facts about text without a dollar sign\<close>

type_synonym 'v gmap = "(string \<times> 'v) list"

section \<open>strings\<close>

definition hasPrefix :: "string \<Rightarrow> string \<Rightarrow> bool" where
  "hasPrefix s p = (take (length p) s = p)"

definition hasSuffix :: "string \<Rightarrow> string \<Rightarrow> bool" where
  "hasSuffix s t = (length t \<le> length s \<and> drop (length s - length t) s = t)"

definition trimPrefix :: "string \<Rightarrow> string \<Rightarrow> string" where
  "trimPrefix s p = (if hasPrefix s p then drop (length p) s else s)"

definition trimSuffix :: "string \<Rightarrow> string \<Rightarrow> string" where
  "trimSuffix s t = (if hasSuffix s t then take (length s - length t) s else s)"

fun strIndex :: "string \<Rightarrow> string \<Rightarrow> nat option" where
  "strIndex [] t = (if t = [] then Some 0 else None)"
| "strIndex (c # cs) t =
     (if hasPrefix (c # cs) t then Some 0 else map_option Suc (strIndex cs t))"

definition strContains :: "string \<Rightarrow> string \<Rightarrow> bool" where
  "strContains s t = (strIndex s t \<noteq> None)"

fun strSplit :: "string \<Rightarrow> char \<Rightarrow> string list" where
  "strSplit [] c = [[]]"
| "strSplit (x # xs) c =
     (if x = c then [] # strSplit xs c
      else (x # hd (strSplit xs c)) # tl (strSplit xs c))"

text \<open>The same with the part read so far, for evaluation in one pass.\<close>

fun strSplitAcc :: "char \<Rightarrow> string \<Rightarrow> string \<Rightarrow> string list" where
  "strSplitAcc c acc [] = [rev acc]"
| "strSplitAcc c acc (x # xs) = (if x = c then rev acc # strSplitAcc c [] xs else strSplitAcc c (x # acc) xs)"

lemma strSplitAcc_split: "strSplitAcc c acc xs = (rev acc @ hd (strSplit xs c)) # tl (strSplit xs c)"
proof (induction xs arbitrary: acc)
  case (Cons x xs)
  show ?case
  proof (cases "x = c")
    case True
    have "strSplit xs c \<noteq> []" by (cases xs) auto
    with True Cons.IH [of "[]"] show ?thesis by simp
  qed (use Cons.IH in simp)
qed simp

lemma strSplit_code [code]: "strSplit s c = strSplitAcc c [] s"
proof -
  have "strSplit s c \<noteq> []" by (cases s) auto
  then show ?thesis by (simp add: strSplitAcc_split)
qed

fun strJoin :: "string list \<Rightarrow> string \<Rightarrow> string" where
  "strJoin [] sep = []"
| "strJoin [x] sep = x"
| "strJoin (x # y # r) sep = x @ sep @ strJoin (y # r) sep"

definition replaceAll :: "string \<Rightarrow> char \<Rightarrow> string \<Rightarrow> string" where
  "replaceAll s old new = concat (map (\<lambda>c. if c = old then new else [c]) s)"

text \<open>The UTF-8 encodings of the code points that \<open>unicode.IsSpace\<close> accepts.\<close>

definition goSpaces :: "string list" where
  "goSpaces =
     [[CHR 0x09], [CHR 0x0A], [CHR 0x0B], [CHR 0x0C], [CHR 0x0D], [CHR 0x20],
      [CHR 0xC2, CHR 0x85], [CHR 0xC2, CHR 0xA0], [CHR 0xE1, CHR 0x9A, CHR 0x80],
      [CHR 0xE2, CHR 0x80, CHR 0x80], [CHR 0xE2, CHR 0x80, CHR 0x81], [CHR 0xE2, CHR 0x80, CHR 0x82],
      [CHR 0xE2, CHR 0x80, CHR 0x83], [CHR 0xE2, CHR 0x80, CHR 0x84], [CHR 0xE2, CHR 0x80, CHR 0x85],
      [CHR 0xE2, CHR 0x80, CHR 0x86], [CHR 0xE2, CHR 0x80, CHR 0x87], [CHR 0xE2, CHR 0x80, CHR 0x88],
      [CHR 0xE2, CHR 0x80, CHR 0x89], [CHR 0xE2, CHR 0x80, CHR 0x8A], [CHR 0xE2, CHR 0x80, CHR 0xA8],
      [CHR 0xE2, CHR 0x80, CHR 0xA9], [CHR 0xE2, CHR 0x80, CHR 0xAF], [CHR 0xE2, CHR 0x81, CHR 0x9F],
      [CHR 0xE3, CHR 0x80, CHR 0x80]]"

fun trimLeftN :: "nat \<Rightarrow> string \<Rightarrow> string" where
  "trimLeftN 0 s = s"
| "trimLeftN (Suc n) s =
     (case find (hasPrefix s) goSpaces of None \<Rightarrow> s | Some w \<Rightarrow> trimLeftN n (drop (length w) s))"

fun trimRightN :: "nat \<Rightarrow> string \<Rightarrow> string" where
  "trimRightN 0 s = s"
| "trimRightN (Suc n) s =
     (case find (hasSuffix s) goSpaces of None \<Rightarrow> s
      | Some w \<Rightarrow> trimRightN n (take (length s - length w) s))"

text \<open>Each round removes at least one byte, so as many rounds as there are bytes are enough.\<close>

definition trimSpace :: "string \<Rightarrow> string" where
  "trimSpace s = (let l = trimLeftN (length s) s in trimRightN (length l) l)"

definition asciiUpper :: "char \<Rightarrow> char" where
  "asciiUpper c = (if 97 \<le> (of_char c :: nat) \<and> (of_char c :: nat) \<le> 122 then char_of (of_char c - 32 :: nat) else c)"

definition asciiLower :: "char \<Rightarrow> char" where
  "asciiLower c = (if 65 \<le> (of_char c :: nat) \<and> (of_char c :: nat) \<le> 90 then char_of (of_char c + 32 :: nat) else c)"

fun toUpper :: "string \<Rightarrow> string" where
  "toUpper [] = []"
| "toUpper (c # cs) =
     (if c = CHR 0xC4 \<and> hasPrefix cs [CHR 0xB1] then CHR ''I'' # toUpper (tl cs)
      else if c = CHR 0xC5 \<and> hasPrefix cs [CHR 0xBF] then CHR ''S'' # toUpper (tl cs)
      else asciiUpper c # toUpper cs)"

fun toLower :: "string \<Rightarrow> string" where
  "toLower [] = []"
| "toLower (c # cs) =
     (if c = CHR 0xC4 \<and> hasPrefix cs [CHR 0xB0] then CHR ''i'' # toLower (tl cs)
      else if c = CHR 0xE2 \<and> hasPrefix cs [CHR 0x84, CHR 0xAA] then CHR ''k'' # toLower (tl (tl cs))
      else asciiLower c # toLower cs)"

text \<open>Simple case folding: the long s folds with \<open>s\<close>, the Kelvin sign with \<open>k\<close>.\<close>

fun foldCase :: "string \<Rightarrow> string" where
  "foldCase [] = []"
| "foldCase (c # cs) =
     (if c = CHR 0xC5 \<and> hasPrefix cs [CHR 0xBF] then CHR ''s'' # foldCase (tl cs)
      else if c = CHR 0xE2 \<and> hasPrefix cs [CHR 0x84, CHR 0xAA] then CHR ''k'' # foldCase (tl (tl cs))
      else asciiLower c # foldCase cs)"

definition equalFold :: "string \<Rightarrow> string \<Rightarrow> bool" where
  "equalFold a b = (foldCase a = foldCase b)"

section \<open>strconv\<close>

definition isDigit :: "char \<Rightarrow> bool" where
  "isDigit c = (48 \<le> (of_char c :: nat) \<and> (of_char c :: nat) \<le> 57)"

definition isAlpha :: "char \<Rightarrow> bool" where
  "isAlpha c = ((65 \<le> (of_char c :: nat) \<and> (of_char c :: nat) \<le> 90) \<or>
                (97 \<le> (of_char c :: nat) \<and> (of_char c :: nat) \<le> 122))"

definition isWord :: "char \<Rightarrow> bool" where
  "isWord c = (isAlpha c \<or> isDigit c \<or> c = CHR ''_'')"

definition digitChar :: "nat \<Rightarrow> char" where
  "digitChar d = char_of (48 + d)"

fun itoa :: "nat \<Rightarrow> string" where
  "itoa n = (if n < 10 then [digitChar n] else itoa (n div 10) @ [digitChar (n mod 10)])"

declare itoa.simps [simp del]

definition itoaInt :: "int \<Rightarrow> string" where
  "itoaInt i = (if i < 0 then CHR ''-'' # itoa (nat (- i)) else itoa (nat i))"

definition readNat :: "string \<Rightarrow> nat" where
  "readNat ds = foldl (\<lambda>a c. 10 * a + (of_char c - 48)) 0 ds"

text \<open>\<open>strconv.Atoi\<close> on a 64-bit platform: sign, digits, range.\<close>

definition atoi :: "string \<Rightarrow> int option" where
  "atoi s =
     (let neg = hasPrefix s ''-'';
          ds = (if neg \<or> hasPrefix s ''+'' then tl s else s);
          v = (if neg then - int (readNat ds) else int (readNat ds))
      in if ds = [] \<or> \<not> list_all isDigit ds \<or> v < - (2 ^ 63) \<or> 2 ^ 63 \<le> v then None else Some v)"

text \<open>\<open>^[A-Za-z_][A-Za-z0-9_]*$\<close>, the regular expression \<open>identRe\<close> of the sources.\<close>

definition identRe :: "string \<Rightarrow> bool" where
  "identRe s = (s \<noteq> [] \<and> (isAlpha (hd s) \<or> hd s = CHR ''_'') \<and> list_all isWord s)"

section \<open>Errors, loops with an early return, maps\<close>

text \<open>A loop that calls \<open>f\<close> on each element and returns at the first error.\<close>

fun traverse :: "('a \<Rightarrow> 'e + 'b) \<Rightarrow> 'a list \<Rightarrow> 'e + 'b list" where
  "traverse f [] = Inr []"
| "traverse f (x # xs) =
     (case f x of Inl e \<Rightarrow> Inl e
      | Inr y \<Rightarrow> (case traverse f xs of Inl e \<Rightarrow> Inl e | Inr ys \<Rightarrow> Inr (y # ys)))"

text \<open>A loop of checks: the first error, if there is one.\<close>

fun firstErr :: "('a \<Rightarrow> 'e option) \<Rightarrow> 'a list \<Rightarrow> 'e option" where
  "firstErr f [] = None"
| "firstErr f (x # xs) = (case f x of Some e \<Rightarrow> Some e | None \<Rightarrow> firstErr f xs)"

definition sortedKeys :: "'v gmap \<Rightarrow> string list" where
  "sortedKeys m = sort (map fst m)"

definition mapHas :: "'v gmap \<Rightarrow> string \<Rightarrow> bool" where
  "mapHas m k = (map_of m k \<noteq> None)"

definition wfMap :: "'v gmap \<Rightarrow> bool" where
  "wfMap m = distinct (map fst m)"

section \<open>Lemmas: evaluation of characters\<close>

lemma char_of_numeral [simp]:
  "char_of (numeral k :: nat) =
     Char (odd (numeral k :: nat)) (odd (numeral k div 2 :: nat)) (odd (numeral k div 4 :: nat))
       (odd (numeral k div 8 :: nat)) (odd (numeral k div 16 :: nat)) (odd (numeral k div 32 :: nat))
       (odd (numeral k div 64 :: nat)) (odd (numeral k div 128 :: nat))"
  unfolding char_of_def bit_iff_odd by simp

section \<open>Lemmas: prefixes and suffixes\<close>

lemma hasPrefix_Nil [simp]: "hasPrefix s []"
  by (simp add: hasPrefix_def)

lemma hasPrefix_append [simp]: "hasPrefix (p @ s) p"
  by (simp add: hasPrefix_def)

lemma hasPrefix_Cons [simp]: "hasPrefix (c # s) (d # p) = (c = d \<and> hasPrefix s p)"
  by (auto simp: hasPrefix_def)

lemma hasPrefix_Nil_iff [simp]: "hasPrefix [] p = (p = [])"
  by (auto simp: hasPrefix_def)

lemma hasPrefix_iff: "hasPrefix s p \<longleftrightarrow> (\<exists>r. s = p @ r)"
  by (auto simp: hasPrefix_def) (metis append_take_drop_id)

lemma hasSuffix_append [simp]: "hasSuffix (s @ t) t"
  by (simp add: hasSuffix_def)

lemma hasSuffix_iff: "hasSuffix s t \<longleftrightarrow> (\<exists>r. s = r @ t)"
  by (auto simp: hasSuffix_def) (metis append_take_drop_id)

lemma hasSuffix_snoc [simp]: "hasSuffix (s @ [c]) [d] = (c = d)"
  by (auto simp: hasSuffix_def)

lemma hasSuffix_single: "hasSuffix s [d] = (s \<noteq> [] \<and> last s = d)"
  by (cases s rule: rev_cases) (auto simp: hasSuffix_def)

lemma trimPrefix_append [simp]: "trimPrefix (p @ s) p = s"
  by (simp add: trimPrefix_def)

lemma trimSuffix_append [simp]: "trimSuffix (s @ t) t = s"
  by (simp add: trimSuffix_def)

lemma length_trimSuffix: "hasSuffix s t \<Longrightarrow> t \<noteq> [] \<Longrightarrow> length (trimSuffix s t) < length s"
  unfolding trimSuffix_def hasSuffix_def by (cases t) (auto simp: min_def)

lemma length_trimPrefix_le: "length (trimPrefix s t) \<le> length s"
  by (auto simp: trimPrefix_def)

lemma set_trimPrefix: "set (trimPrefix s t) \<subseteq> set s"
  by (auto simp: trimPrefix_def dest: in_set_dropD)

lemma set_trimSuffix: "set (trimSuffix s t) \<subseteq> set s"
  by (auto simp: trimSuffix_def dest: in_set_takeD)

section \<open>Lemmas: search, split, join\<close>

lemma strIndex_Some: "strIndex s t = Some i \<Longrightarrow> i + length t \<le> length s \<and> take (length t) (drop i s) = t"
  by (induction s t arbitrary: i rule: strIndex.induct)
    (auto simp: hasPrefix_def split: if_splits dest: arg_cong [of _ _ length])

lemma strIndex_single: "strIndex s [c] = (if c \<in> set s then Some (length (takeWhile (\<lambda>x. x \<noteq> c) s)) else None)"
  by (induction s) auto

lemma strIndex_first: "c \<notin> set p \<Longrightarrow> strIndex (p @ c # s) [c] = Some (length p)"
  by (induction p) auto

lemma hasSuffix_rev: "hasSuffix s t = hasPrefix (rev s) (rev t)"
  by (auto simp: hasSuffix_iff hasPrefix_iff) (metis rev_append rev_rev_ident)

lemma strContains_single [simp]: "strContains s [c] = (c \<in> set s)"
  by (simp add: strContains_def strIndex_single)

lemma strIndex_split:
  "strIndex s t = Some i \<Longrightarrow> s = take i s @ t @ drop (i + length t) s"
proof -
  assume "strIndex s t = Some i"
  from strIndex_Some [OF this] have "take (length t) (drop i s) = t" by simp
  then have "drop i s = t @ drop (length t) (drop i s)"
    by (metis append_take_drop_id)
  then have "drop i s = t @ drop (i + length t) s" by (simp add: add.commute)
  then show ?thesis by (metis append_take_drop_id)
qed

lemma strSplit_ne [simp]: "strSplit s c \<noteq> []"
  by (induction s) auto

lemma strSplit_no_sep: "p \<in> set (strSplit s c) \<Longrightarrow> c \<notin> set p"
proof (induction s arbitrary: p)
  case (Cons x xs)
  then show ?case by (cases "strSplit xs c") (auto split: if_splits)
qed auto

lemma strJoin_Cons: "ps \<noteq> [] \<Longrightarrow> strJoin (p # ps) sep = p @ sep @ strJoin ps sep"
  by (cases ps) auto

lemma strJoin_strSplit: "strJoin (strSplit s c) [c] = s"
proof (induction s)
  case (Cons x xs)
  then show ?case
    by (cases "strSplit xs c"; cases "tl (strSplit xs c)") (auto simp: strJoin_Cons)
qed auto

lemma strSplit_append_sep: "c \<notin> set p \<Longrightarrow> strSplit (p @ c # s) c = p # strSplit s c"
  by (induction p) auto

lemma strSplit_id: "c \<notin> set p \<Longrightarrow> strSplit p c = [p]"
  by (induction p) auto

lemma strSplit_strJoin:
  "ps \<noteq> [] \<Longrightarrow> \<forall>p \<in> set ps. c \<notin> set p \<Longrightarrow> strSplit (strJoin ps [c]) c = ps"
  by (induction ps "[c]" rule: strJoin.induct) (auto simp: strSplit_append_sep strSplit_id)

lemma length_strSplit: "p \<in> set (strSplit s c) \<Longrightarrow> length p \<le> length s"
proof (induction s arbitrary: p)
  case (Cons x xs)
  have "hd (strSplit xs c) \<in> set (strSplit xs c)" by simp
  with Cons.IH have "length (hd (strSplit xs c)) \<le> length xs" by blast
  moreover have "set (tl (strSplit xs c)) \<subseteq> set (strSplit xs c)"
    by (cases "strSplit xs c") auto
  ultimately show ?case using Cons by (auto split: if_splits) (meson le_SucI subsetD)+
qed auto

lemma set_strSplit: "p \<in> set (strSplit s c) \<Longrightarrow> set p \<subseteq> set s"
proof (induction s arbitrary: p)
  case (Cons x xs)
  have "hd (strSplit xs c) \<in> set (strSplit xs c)" by simp
  with Cons.IH have h: "set (hd (strSplit xs c)) \<subseteq> set xs" by blast
  have t: "set (tl (strSplit xs c)) \<subseteq> set (strSplit xs c)"
    by (cases "strSplit xs c") auto
  from Cons.prems consider "p = []" | "p = x # hd (strSplit xs c)" | "p \<in> set (strSplit xs c)"
    using t by (auto split: if_splits)
  then show ?case using h Cons.IH [of p] by cases auto
qed auto

lemma set_strJoin: "set (strJoin ps sep) \<subseteq> \<Union> (set ` set ps) \<union> set sep"
  by (induction ps sep rule: strJoin.induct) auto

lemma strJoin_map_append: "xs \<noteq> [] \<Longrightarrow> ys \<noteq> [] \<Longrightarrow> strJoin (xs @ ys) sep = strJoin xs sep @ sep @ strJoin ys sep"
  by (induction xs sep rule: strJoin.induct) (auto simp: strJoin_Cons)


section \<open>Lemmas: white space\<close>

definition graphic :: "char \<Rightarrow> bool" where
  "graphic c = (33 \<le> (of_char c :: nat) \<and> (of_char c :: nat) \<le> 126)"

lemma goSpaces_graphic: "w \<in> set goSpaces \<Longrightarrow> w \<noteq> [] \<and> \<not> graphic (hd w) \<and> \<not> graphic (last w)"
proof -
  have "list_all (\<lambda>w. w \<noteq> [] \<and> \<not> graphic (hd w) \<and> \<not> graphic (last w)) goSpaces"
    by (simp add: goSpaces_def graphic_def)
  then show "w \<in> set goSpaces \<Longrightarrow> w \<noteq> [] \<and> \<not> graphic (hd w) \<and> \<not> graphic (last w)"
    by (simp add: list_all_iff)
qed

lemma length_trimLeftN: "length (trimLeftN n s) \<le> length s"
  by (induction n s rule: trimLeftN.induct) (auto split: option.splits intro: le_trans)

lemma length_trimRightN: "length (trimRightN n s) \<le> length s"
  by (induction n s rule: trimRightN.induct) (auto split: option.splits intro: le_trans)

lemma set_trimLeftN: "set (trimLeftN n s) \<subseteq> set s"
  by (induction n s rule: trimLeftN.induct) (auto split: option.splits dest: in_set_dropD)

lemma set_trimRightN: "set (trimRightN n s) \<subseteq> set s"
  by (induction n s rule: trimRightN.induct) (auto split: option.splits dest: in_set_takeD)

lemma length_trimSpace: "length (trimSpace s) \<le> length s"
  unfolding trimSpace_def Let_def
  using length_trimRightN length_trimLeftN le_trans by blast

lemma set_trimSpace: "set (trimSpace s) \<subseteq> set s"
  unfolding trimSpace_def Let_def
  using set_trimRightN set_trimLeftN by blast

lemma trimLeftN_graphic: "s = [] \<or> graphic (hd s) \<Longrightarrow> trimLeftN n s = s"
proof (cases n)
  case (Suc m)
  assume g: "s = [] \<or> graphic (hd s)"
  have "find (hasPrefix s) goSpaces = None"
    using g goSpaces_graphic by (fastforce simp: find_None_iff hasPrefix_iff hd_append)
  with Suc show ?thesis by simp
qed simp

lemma trimRightN_graphic: "s = [] \<or> graphic (last s) \<Longrightarrow> trimRightN n s = s"
proof (cases n)
  case (Suc m)
  assume g: "s = [] \<or> graphic (last s)"
  have "find (hasSuffix s) goSpaces = None"
    using g goSpaces_graphic by (fastforce simp: find_None_iff hasSuffix_iff)
  with Suc show ?thesis by simp
qed simp

lemma trimSpace_graphic: "s = [] \<or> graphic (hd s) \<and> graphic (last s) \<Longrightarrow> trimSpace s = s"
  by (auto simp: trimSpace_def Let_def trimLeftN_graphic trimRightN_graphic)

section \<open>Lemmas: numbers and identifiers\<close>

lemma of_char_digitChar [simp]: "d < 10 \<Longrightarrow> (of_char (digitChar d) :: nat) = 48 + d"
  by (simp add: digitChar_def)

lemma isDigit_digitChar [simp]: "d < 10 \<Longrightarrow> isDigit (digitChar d)"
  by (simp add: isDigit_def)

lemma itoa_digits: "list_all isDigit (itoa n)"
proof (induction n rule: itoa.induct)
  case (1 n)
  then show ?case by (subst itoa.simps) simp
qed

lemma itoa_ne [simp]: "itoa n \<noteq> []"
  by (subst itoa.simps) simp

lemma readNat_snoc: "readNat (ds @ [c]) = 10 * readNat ds + (of_char c - 48)"
  by (simp add: readNat_def)

lemma readNat_itoa [simp]: "readNat (itoa n) = n"
proof (induction n rule: itoa.induct)
  case (1 n)
  show ?case
  proof (cases "n < 10")
    case True
    then show ?thesis by (simp add: itoa.simps [of n] readNat_def)
  next
    case False
    with 1 show ?thesis by (subst itoa.simps) (simp add: readNat_snoc)
  qed
qed

lemma itoa_inject [simp]: "itoa a = itoa b \<longleftrightarrow> a = b"
  by (metis readNat_itoa)

lemma takeWhile_itoa: "ys = [] \<or> \<not> isDigit (hd ys) \<Longrightarrow> takeWhile isDigit (itoa n @ ys) = itoa n"
  using itoa_digits [of n] by (cases ys) (auto simp: list_all_iff takeWhile_append2)

lemma isWord_graphic: "isWord c \<Longrightarrow> graphic c"
  by (auto simp: isWord_def isAlpha_def isDigit_def graphic_def)

lemma isDigit_isWord: "isDigit c \<Longrightarrow> isWord c"
  by (simp add: isWord_def)

lemma identRe_word: "identRe s \<Longrightarrow> list_all isWord s"
  by (simp add: identRe_def)

lemma identRe_not_digits: "identRe s \<Longrightarrow> \<not> isDigit (hd s)"
  by (auto simp: identRe_def isAlpha_def isDigit_def)

lemma identRe_ne [simp]: "identRe s \<Longrightarrow> s \<noteq> []"
  by (simp add: identRe_def)

lemma word_notin: "list_all isWord s \<Longrightarrow> \<not> isWord c \<Longrightarrow> c \<notin> set s"
  by (auto simp: list_all_iff)

lemma isWord_punct [simp]:
  "\<not> isWord (CHR ''-'')" "\<not> isWord (CHR ''>'')" "\<not> isWord (CHR ''$'')" "\<not> isWord (CHR ''.'')"
  "\<not> isWord (CHR '','')" "\<not> isWord (CHR ''('')" "\<not> isWord (CHR '')'')" "\<not> isWord (CHR '':'')"
  "\<not> isWord (CHR '' '')" "\<not> isWord (CHR 0x27)" "\<not> isWord (CHR 0x22)" "\<not> isWord (CHR ''!'')"
  "\<not> isWord (CHR ''*'')"
  by (simp_all add: isWord_def isAlpha_def isDigit_def)

section \<open>Lemmas: loops with an early return, maps\<close>

lemma traverse_cong [fundef_cong]:
  "xs = ys \<Longrightarrow> (\<And>x. x \<in> set ys \<Longrightarrow> f x = g x) \<Longrightarrow> traverse f xs = traverse g ys"
  by (induction xs arbitrary: ys) (auto split: sum.splits)

lemma firstErr_cong [fundef_cong]:
  "xs = ys \<Longrightarrow> (\<And>x. x \<in> set ys \<Longrightarrow> f x = g x) \<Longrightarrow> firstErr f xs = firstErr g ys"
  by (induction xs arbitrary: ys) (auto split: option.splits)

lemma traverse_Inr: "traverse f xs = Inr ys \<longleftrightarrow> list_all2 (\<lambda>x y. f x = Inr y) xs ys"
proof (induction xs arbitrary: ys)
  case Nil
  then show ?case by auto
next
  case (Cons x xs)
  show ?case by (auto simp: list_all2_Cons1 Cons.IH [symmetric] split: sum.splits)
qed

lemma traverse_Inl: "traverse f xs = Inl e \<Longrightarrow> \<exists>x \<in> set xs. f x = Inl e"
  by (induction xs) (auto split: sum.splits)

lemma traverse_set: "traverse f xs = Inr ys \<Longrightarrow> y \<in> set ys \<Longrightarrow> \<exists>x \<in> set xs. f x = Inr y"
  by (auto simp: traverse_Inr list_all2_conv_all_nth in_set_conv_nth) (metis nth_mem)

lemma traverse_map: "\<forall>x \<in> set xs. f (g x) = Inr x \<Longrightarrow> traverse f (map g xs) = Inr xs"
  by (induction xs) auto

lemma firstErr_None: "firstErr f xs = None \<longleftrightarrow> (\<forall>x \<in> set xs. f x = None)"
  by (induction xs) (auto split: option.splits)

lemma firstErr_Some: "firstErr f xs = Some e \<Longrightarrow> \<exists>x \<in> set xs. f x = Some e"
  by (induction xs) (auto split: option.splits)

lemma set_sortedKeys [simp]: "set (sortedKeys m) = fst ` set m"
  by (simp add: sortedKeys_def)

lemma distinct_sortedKeys: "wfMap m \<Longrightarrow> distinct (sortedKeys m)"
  by (simp add: sortedKeys_def wfMap_def)

lemma sorted_sortedKeys: "sorted (sortedKeys m)"
  by (simp add: sortedKeys_def)

lemma mapHas_iff: "mapHas m k \<longleftrightarrow> k \<in> fst ` set m"
  by (metis mapHas_def map_of_eq_None_iff)

lemma sortedKeys_enumeration:
  "mset m = mset m' \<Longrightarrow> sortedKeys m = sortedKeys m'"
  unfolding sortedKeys_def by (rule properties_for_sort) (auto simp: mset_map)

end
