(* ===== verification/Sql_Text.thy ===== *)
theory Sql_Text
  imports Go_Strings
begin

text \<open>
  SQL text with numbered placeholders, shared by every query builder. A builder takes the next free
  placeholder number and returns the text, the arguments it binds and the next free number.
  \<open>placeholders\<close> reads the numbers back from the text, as the server does. The locale \<open>sql_fragment\<close>
  is the contract between a builder and the builders that embed its output.
\<close>

definition ph :: "nat \<Rightarrow> string" where
  "ph n = CHR ''$'' # itoa n"

primrec placeholders :: "string \<Rightarrow> nat list" where
  "placeholders [] = []"
| "placeholders (c # cs) =
     (if c = CHR ''$'' then [readNat (takeWhile isDigit cs)] else []) @ placeholders cs"

definition dollarFree :: "string \<Rightarrow> bool" where
  "dollarFree s = (CHR ''$'' \<notin> set s)"

text \<open>Text that cannot prolong a placeholder number that it follows.\<close>

definition closes :: "string \<Rightarrow> bool" where
  "closes s = (s = [] \<or> \<not> isDigit (hd s))"

lemma closes_simps [simp]: "closes []" "closes (c # s) = (\<not> isDigit c)"
  by (simp_all add: closes_def)

lemma dollarFree_simps [simp, dollar]:
  "dollarFree []" "dollarFree (c # s) = (c \<noteq> CHR ''$'' \<and> dollarFree s)"
  "dollarFree (s @ t) = (dollarFree s \<and> dollarFree t)"
  by (auto simp: dollarFree_def)

lemma dollarFree_if [simp]:
  "dollarFree (if b then s else t) = (if b then dollarFree s else dollarFree t)"
  by simp

lemma isDigit_dollar [simp]: "\<not> isDigit (CHR ''$'')"
  by (simp add: isDigit_def)

lemma dollarFree_itoa [simp, dollar]: "dollarFree (itoa n)"
  using itoa_digits [of n] by (auto simp: dollarFree_def list_all_iff)

lemma dollarFree_itoaInt [simp, dollar]: "dollarFree (itoaInt i)"
  by (simp add: itoaInt_def)

lemma dollarFree_word [dollar]: "list_all isWord s \<Longrightarrow> dollarFree s"
  using isWord_punct(3) by (auto simp: dollarFree_def list_all_iff)

lemma dollarFree_ident [dollar]: "identRe s \<Longrightarrow> dollarFree s"
  by (simp add: identRe_word dollarFree_word)

lemma dollarFree_strJoin [dollar]:
  "dollarFree sep \<Longrightarrow> \<forall>p \<in> set ps. dollarFree p \<Longrightarrow> dollarFree (strJoin ps sep)"
  using set_strJoin [of ps sep] by (auto simp: dollarFree_def)

lemma dollarFree_subset: "set s \<subseteq> set t \<Longrightarrow> dollarFree t \<Longrightarrow> dollarFree s"
  by (auto simp: dollarFree_def)

lemma dollarFree_replaceAll [dollar]: "dollarFree s \<Longrightarrow> dollarFree t \<Longrightarrow> dollarFree (replaceAll s c t)"
  by (auto simp: dollarFree_def replaceAll_def split: if_splits)

lemma placeholders_free: "dollarFree s \<Longrightarrow> placeholders s = []"
  by (induction s) auto

lemma placeholders_free_append [simp]: "dollarFree s \<Longrightarrow> placeholders (s @ t) = placeholders t"
  by (induction s) auto

lemma takeWhile_closes: "closes t \<Longrightarrow> takeWhile isDigit (s @ t) = takeWhile isDigit s"
  by (induction s) (cases t; auto)+

lemma placeholders_append: "closes t \<Longrightarrow> placeholders (s @ t) = placeholders s @ placeholders t"
  by (induction s) (auto simp: takeWhile_closes)

lemma placeholders_ph [simp]: "placeholders (ph n) = [n]"
  using takeWhile_itoa [of "[]" n] by (simp add: ph_def placeholders_free del: takeWhile_eq_all_conv)

lemma placeholders_ph_append [simp]: "closes t \<Longrightarrow> placeholders (ph n @ t) = n # placeholders t"
  by (simp add: placeholders_append)

lemma placeholders_strJoin:
  assumes "sep \<noteq> []" and "closes sep" and "dollarFree sep"
  shows "placeholders (strJoin ps sep) = concat (map placeholders ps)"
proof -
  have c: "closes (sep @ t)" for t using assms by (cases sep) auto
  show ?thesis
  proof (induction ps)
    case (Cons p ps)
    then show ?case using assms c by (cases "ps = []") (auto simp: strJoin_Cons placeholders_append)
  qed simp
qed

lemma concat_placeholders_ph [simp]: "concat (map (placeholders \<circ> ph) ns) = ns"
  by (induction ns) auto

text \<open>The builders of a placeholder list number consecutively.\<close>

definition phs :: "nat \<Rightarrow> nat \<Rightarrow> string list" where
  "phs i n = map ph [i..<i + n]"

lemma length_phs [simp]: "length (phs i n) = n"
  by (simp add: phs_def)

lemma placeholders_phs: "placeholders (strJoin (phs i n) '', '') = [i..<i + n]"
  by (subst placeholders_strJoin) (auto simp: phs_def isDigit_def)

section \<open>The contract of a query builder\<close>

text \<open>
  \<open>numbered i (s, args, j)\<close>: the text mentions exactly the placeholders \<open>i, \<dots>, j - 1\<close>, in this
  order and each once, and there is one argument for each of them.
\<close>

definition numbered :: "nat \<Rightarrow> string \<times> 'v list \<times> nat \<Rightarrow> bool" where
  "numbered i r = (case r of (s, args, j) \<Rightarrow> j = i + length args \<and> placeholders s = [i..<j])"

lemma numberedI: "j = i + length args \<Longrightarrow> placeholders s = [i..<j] \<Longrightarrow> numbered i (s, args, j)"
  by (simp add: numbered_def)

lemma numberedD: "numbered i (s, args, j) \<Longrightarrow> j = i + length args \<and> placeholders s = [i..<j]"
  by (simp add: numbered_def)

lemma numbered_free: "dollarFree s \<Longrightarrow> numbered i (s, [], i)"
  by (simp add: numbered_def placeholders_free)

lemma upt_split: "i \<le> j \<Longrightarrow> j \<le> k \<Longrightarrow> [i..<j] @ [j..<k] = [i..<k]"
  by (metis le_Suc_ex upt_add_eq_append)

lemma numbered_seq:
  assumes "numbered i (s, a, j)" and "numbered j (t, b, k)" and "closes t"
  shows "numbered i (s @ t, a @ b, k)"
  using assms by (auto simp: numbered_def placeholders_append upt_split)

lemma numbered_prefix: "dollarFree p \<Longrightarrow> numbered i (p @ s, a, j) = numbered i (s, a, j)"
  by (simp add: numbered_def)

lemma numbered_suffix: "dollarFree q \<Longrightarrow> closes q \<Longrightarrow> numbered i (s @ q, a, j) = numbered i (s, a, j)"
  by (simp add: numbered_def placeholders_append placeholders_free)

text \<open>The same for a list of texts that is joined later.\<close>

definition numberedList :: "nat \<Rightarrow> string list \<times> 'v list \<times> nat \<Rightarrow> bool" where
  "numberedList i r =
     (case r of (ss, args, j) \<Rightarrow> j = i + length args \<and> concat (map placeholders ss) = [i..<j])"

lemma numberedList_Nil [simp]: "numberedList i ([], [], i)"
  by (simp add: numberedList_def)

lemma numberedList_Cons:
  "numbered i (s, a, j) \<Longrightarrow> numberedList j (ss, b, k) \<Longrightarrow> numberedList i (s # ss, a @ b, k)"
  by (auto simp: numberedList_def numbered_def upt_split)

lemma numberedList_append:
  "numberedList i (ss, a, j) \<Longrightarrow> numberedList j (ts, b, k) \<Longrightarrow> numberedList i (ss @ ts, a @ b, k)"
  by (auto simp: numberedList_def upt_split)

lemma numberedList_join:
  "numberedList i (ss, a, j) \<Longrightarrow> sep \<noteq> [] \<Longrightarrow> closes sep \<Longrightarrow> dollarFree sep \<Longrightarrow>
     numbered i (strJoin ss sep, a, j)"
  by (simp add: numberedList_def numbered_def placeholders_strJoin)

lemma numberedList_free: "\<forall>s \<in> set ss. dollarFree s \<Longrightarrow> numberedList i (ss, [], i)"
  by (induction ss) (auto simp: numberedList_def placeholders_free)

text \<open>
  The loop \<open>for _, c := range xs { s, a, next := build(c, argIdx); \<dots>; argIdx = next }\<close>, and the step
  \<open>if clauseSQL != "" { sub += " AND " + clauseSQL; \<dots> }\<close> the builders repeat.
\<close>

fun threadArgs :: "('a \<Rightarrow> nat \<Rightarrow> string \<times> 'v list \<times> nat) \<Rightarrow> 'a list \<Rightarrow> nat \<Rightarrow> string list \<times> 'v list \<times> nat" where
  "threadArgs build [] i = ([], [], i)"
| "threadArgs build (x # xs) i =
     (let (s, a, j) = build x i; (ss, b, k) = threadArgs build xs j in (s # ss, a @ b, k))"

lemma threadArgs_cong [fundef_cong]:
  "xs = ys \<Longrightarrow> i = j \<Longrightarrow> (\<And>x k. x \<in> set ys \<Longrightarrow> f x k = g x k) \<Longrightarrow> threadArgs f xs i = threadArgs g ys j"
  by (induction xs arbitrary: i j ys) (auto split: prod.splits)

definition andClause :: "(nat \<Rightarrow> string \<times> 'v list \<times> nat) \<Rightarrow> nat \<Rightarrow> string \<times> 'v list \<times> nat" where
  "andClause build i = (let (s, a, j) = build i in if s = [] then ([], [], i) else ('' AND '' @ s, a, j))"

lemma threadArgs_numbered:
  "(\<And>x k. x \<in> set xs \<Longrightarrow> numbered k (f x k)) \<Longrightarrow> numberedList i (threadArgs f xs i)"
proof (induction xs arbitrary: i)
  case (Cons x xs)
  obtain s a j where b: "f x i = (s, a, j)" by (cases "f x i") auto
  obtain ss c k where t: "threadArgs f xs j = (ss, c, k)" by (cases "threadArgs f xs j") auto
  have "numbered i (s, a, j)" using Cons.prems [of x i] b by simp
  moreover have "numberedList j (ss, c, k)" using Cons.IH [of j] t Cons.prems by simp
  ultimately show ?case by (simp add: b t numberedList_Cons)
qed simp

locale sql_fragment =
  fixes build :: "'a \<Rightarrow> nat \<Rightarrow> string \<times> 'v list \<times> nat"
    and ok :: "'a \<Rightarrow> bool"
  assumes build_numbered: "ok x \<Longrightarrow> numbered i (build x i)"
begin

lemma thread_numbered:
  "\<forall>x \<in> set xs. ok x \<Longrightarrow> numberedList i (threadArgs build xs i)"
  by (rule threadArgs_numbered) (blast intro: build_numbered)

lemma and_numbered: "ok x \<Longrightarrow> numbered i (andClause (build x) i)"
  using build_numbered [of x i]
  by (auto simp: andClause_def numbered_def split: prod.splits)

lemma next_index: "ok x \<Longrightarrow> build x i = (s, a, j) \<Longrightarrow> j = i + length a"
  using build_numbered [of x i] by (simp add: numbered_def)

end

lemma closes_andClause: "andClause b i = (s, a, j) \<Longrightarrow> closes s"
  by (auto simp: andClause_def isDigit_def split: prod.splits if_splits)

end
