(* ===== verification/Domain_Schema.thy ===== *)
theory Domain_Schema
  imports Go_Strings
begin

text \<open>
  The configuration data model of \<open>internal/domain/schema.go\<close> and the type inference over it. A Go
  pointer that may be nil is an \<open>option\<close>, a slice a list, a map a \<^typ>\<open>'v gmap\<close>; \<open>any\<close> is \<^term>\<open>None\<close> for
  nil, else a \<open>gval\<close>. A \<open>float64\<close> is its \<open>%g\<close> text, the only thing the modelled code does with one.
\<close>

section \<open>Data\<close>

type_synonym float64 = string

datatype gval =
    GString string | GBool bool | GInt int | GInt64 int | GFloat float64
  | GOther string string \<comment> \<open>any other dynamic type: its name (\<open>%T\<close>) and its \<open>%v\<close> text\<close>

record ValidationError =
  ve_Path :: string
  ve_Message :: string
  ve_Line :: int
  ve_Column :: int
  ve_Suggestion :: string

record ProjectCloud =
  pc_ProjectID :: string

record Project =
  prj_Name :: string
  prj_Description :: string
  prj_Cloud :: "ProjectCloud option"

record CORS =
  cors_Origins :: "string list"

record Timeouts =
  to_Request :: string
  to_DBQuery :: string
  to_Upload :: string
  to_Shutdown :: string

record Server =
  srv_Port :: int
  srv_CORS :: CORS
  srv_Timeouts :: Timeouts
  srv_MaxBodySize :: string
  srv_MaxLimit :: int

record PoolConfig =
  pool_Max :: int
  pool_Min :: int
  pool_IdleTimeout :: string

record DatabaseConfig =
  db_Pool :: PoolConfig

record EmailProvider =
  ep_Type :: string
  ep_APIKey :: string
  ep_DefaultFromEmail :: string

record StorageProvider =
  sp_Type :: string
  sp_Bucket :: string
  sp_Region :: string
  sp_AccessKeyID :: string
  sp_SecretAccessKey :: string
  sp_Endpoint :: string
  sp_Path :: string

record Providers =
  prov_Email :: "EmailProvider option"
  prov_Storage :: "StorageProvider option"

record EmailTemplate =
  et_Subject :: string
  et_Body :: string
  et_BodyFile :: string

record AuthEmail =
  ae_VerifyEmail :: bool
  ae_Templates :: "EmailTemplate gmap"

record OAuthProvider =
  oa_ClientID :: string
  oa_ClientSecret :: string
  oa_RedirectURL :: string

record Auth =
  auth_JWTExpiry :: string
  auth_RefreshTokens :: "bool option"
  auth_RefreshTokenExpiry :: string
  auth_AllowSignup :: "bool option"
  auth_AllowAnonymous :: "bool option"
  auth_RedirectURLs :: "string list"
  auth_Email :: "AuthEmail option"
  auth_OAuth :: "(OAuthProvider option) gmap"

record ForeignKey =
  fk_References :: string
  fk_OnDelete :: string

record Field =
  fld_Name :: string
  fld_Type :: string
  fld_PrimaryKey :: bool
  fld_Required :: bool
  fld_Unique :: bool
  fld_Default :: "gval option"
  fld_Enum :: "string list"
  fld_Pattern :: string
  fld_Min :: "float64 option"
  fld_Max :: "float64 option"
  fld_Check :: string
  fld_ForeignKey :: "ForeignKey option"
  fld_Ref :: string
  fld_OnDelete :: string
  fld_AutoUpdatedAt :: bool
  fld_Immutable :: bool
  fld_RenamedFrom :: string

record Index =
  ix_Columns :: "string list"
  ix_Unique :: bool
  ix_Where :: string
  ix_Method :: string

record RLSPolicy =
  rls_Operations :: "string list"
  rls_Using :: string
  rls_WithCheck :: string
  rls_Type :: string
  rls_Owner :: string

record Table =
  tbl_Schema :: string
  tbl_Fields :: "Field list"
  tbl_Indexes :: "Index list"
  tbl_RLSEnabled :: "bool option"
  tbl_RLS :: "RLSPolicy list"
  tbl_Timestamps :: bool
  tbl_RenamedFrom :: string

record Bucket =
  bkt_MaxSize :: string
  bkt_Types :: "string list"
  bkt_Public :: bool
  bkt_RLS :: "RLSPolicy list"

record FuncReturn =
  fr_Type :: string

record FuncArg =
  arg_Name :: string
  arg_Type :: string
  arg_Default :: "gval option"
  arg_Required :: bool

record Function =
  fn_Description :: string
  fn_AuthRequired :: bool
  fn_Language :: string
  fn_Volatility :: string
  fn_Security :: string
  fn_Set :: "string gmap"
  fn_Args :: "FuncArg list"
  fn_Body :: string
  fn_Returns :: FuncReturn
  fn_ReturnCategory :: string

record CodeFunction =
  cf_Runtime :: string
  cf_File :: string
  cf_AuthRequired :: bool
  cf_Timeout :: string
  cf_Env :: "string gmap"

record Config =
  cfg_Version :: int
  cfg_Project :: Project
  cfg_Database :: DatabaseConfig
  cfg_Server :: Server
  cfg_Providers :: Providers
  cfg_Auth :: "Auth option"
  cfg_Tables :: "Table gmap"
  cfg_Storage :: "Bucket gmap"
  cfg_RPC :: "Function gmap"
  cfg_Functions :: "CodeFunction gmap"
  cfg_FunctionsBundle :: string
  cfg_Include :: "string list"
  cfg_UnknownKeys :: "ValidationError list"
  cfg_ExpandErrors :: "ValidationError list"

record Session =
  ses_UserID :: string
  ses_Role :: string
  ses_Email :: string
  ses_JWT :: string
  ses_IsAuthenticated :: bool

record Migration =
  mig_Checksum :: string
  mig_ConfigJSON :: string

text \<open>The zero values of \<open>Table\<close> and \<open>Field\<close>, which a lookup of a missing key returns.\<close>

definition zeroTable :: Table where
  "zeroTable = \<lparr>tbl_Schema = [], tbl_Fields = [], tbl_Indexes = [], tbl_RLSEnabled = None,
     tbl_RLS = [], tbl_Timestamps = False, tbl_RenamedFrom = []\<rparr>"

definition zeroField :: Field where
  "zeroField = \<lparr>fld_Name = [], fld_Type = [], fld_PrimaryKey = False, fld_Required = False,
     fld_Unique = False, fld_Default = None, fld_Enum = [], fld_Pattern = [], fld_Min = None,
     fld_Max = None, fld_Check = [], fld_ForeignKey = None, fld_Ref = [], fld_OnDelete = [],
     fld_AutoUpdatedAt = False, fld_Immutable = False, fld_RenamedFrom = []\<rparr>"

section \<open>Accessors\<close>

text \<open>The methods on \<open>*Auth\<close> accept a nil receiver.\<close>

definition SignupAllowed :: "Auth option \<Rightarrow> bool" where
  "SignupAllowed a =
     (case a of None \<Rightarrow> True
      | Some x \<Rightarrow> (case auth_AllowSignup x of None \<Rightarrow> True | Some b \<Rightarrow> b))"

definition AnonymousAllowed :: "Auth option \<Rightarrow> bool" where
  "AnonymousAllowed a =
     (case a of None \<Rightarrow> False
      | Some x \<Rightarrow> (case auth_AllowAnonymous x of None \<Rightarrow> False | Some b \<Rightarrow> b))"

definition EffectiveSchema :: "Table \<Rightarrow> string" where
  "EffectiveSchema t = (if tbl_Schema t = [] then ''public'' else tbl_Schema t)"

definition EffectiveRLSEnabled :: "Table \<Rightarrow> bool" where
  "EffectiveRLSEnabled t = (case tbl_RLSEnabled t of Some b \<Rightarrow> b | None \<Rightarrow> tbl_RLS t \<noteq> [])"

definition PrimaryKeyColumns :: "Table \<Rightarrow> string list" where
  "PrimaryKeyColumns t = map fld_Name (filter fld_PrimaryKey (tbl_Fields t))"

definition FKConstraintName :: "string \<Rightarrow> string \<Rightarrow> string" where
  "FKConstraintName table col = table @ ''_'' @ col @ ''_fkey''"

definition GetField :: "Table \<Rightarrow> string \<Rightarrow> Field option" where
  "GetField t name = find (\<lambda>f. fld_Name f = name) (tbl_Fields t)"

definition FieldMap :: "Table \<Rightarrow> Field gmap" where
  "FieldMap t = fold (\<lambda>f m. AList.update (fld_Name f) f m) (tbl_Fields t) []"

datatype fk_error = InvalidReference string

definition ParseFKReference :: "string \<Rightarrow> fk_error + (string \<times> string \<times> string)" where
  "ParseFKReference ref =
     (case strSplit ref (CHR ''.'') of
        [t, c] \<Rightarrow> Inr (''public'', t, c)
      | [s, t, c] \<Rightarrow> Inr (s, t, c)
      | _ \<Rightarrow> Inl (InvalidReference ref))"

definition IndexMethods :: "string list" where
  "IndexMethods = [''btree'', ''hash'', ''gin'', ''gist'', ''brin'', ''spgist'']"

definition EffectiveMethod :: "Index \<Rightarrow> string" where
  "EffectiveMethod i = (if ix_Method i = [] then ''btree'' else ix_Method i)"

definition SameIndex :: "Index \<Rightarrow> Index \<Rightarrow> bool" where
  "SameIndex i q = (ix_Unique i = ix_Unique q \<and> ix_Where i = ix_Where q \<and>
     EffectiveMethod i = EffectiveMethod q \<and> ix_Columns i = ix_Columns q)"

definition GuardedFields :: "Table \<Rightarrow> string list \<times> string list" where
  "GuardedFields t =
     (map fld_Name (filter fld_AutoUpdatedAt (tbl_Fields t)),
      map fld_Name (filter fld_Immutable (tbl_Fields t)))"

definition HasGuards :: "Table \<Rightarrow> bool" where
  "HasGuards t = list_ex (\<lambda>f. fld_AutoUpdatedAt f \<or> fld_Immutable f) (tbl_Fields t)"

section \<open>SQL types and foreign-key inference\<close>

definition Normalize :: "string \<Rightarrow> string" where
  "Normalize t0 =
     (let t = toLower t0 in
      if t = ''bigserial'' then ''bigint''
      else if t = ''serial'' then ''integer''
      else if hasPrefix t ''varchar'' then ''varchar''
      else if t = ''bool'' then ''boolean''
      else if t = ''timestamptz'' then ''timestamptz''
      else if t = ''int'' then ''integer''
      else t)"

definition integerClass :: "string \<Rightarrow> bool" where
  "integerClass t = (Normalize t \<in> {''bigint'', ''integer'', ''smallint''})"

definition typeClass :: "string \<Rightarrow> string" where
  "typeClass t = (if integerClass t then ''integer'' else Normalize t)"

definition FKCompatible :: "string \<Rightarrow> string \<Rightarrow> bool" where
  "FKCompatible a b = (typeClass a = typeClass b)"

text \<open>
  A \<open>FieldResolver\<close> is only ever built by \<open>ResolverOver\<close>, from a table map.
\<close>

definition ResolverOver :: "Table gmap \<Rightarrow> string \<Rightarrow> string \<Rightarrow> Field option" where
  "ResolverOver tables table col =
     (case map_of tables table of None \<Rightarrow> None | Some t \<Rightarrow> map_of (FieldMap t) col)"

text \<open>
  The recursion follows foreign keys; \<open>seen\<close> grows by the reference followed, and every reference
  followed after the first is one of a field of the tables, so it stops.
\<close>

definition fieldRefs :: "Field \<Rightarrow> string list" where
  "fieldRefs f = (case fld_ForeignKey f of None \<Rightarrow> [] | Some k \<Rightarrow> [fk_References k])"

definition tableRefs :: "Table gmap \<Rightarrow> string set" where
  "tableRefs tables = (\<Union>(_, t) \<in> set tables. \<Union>f \<in> set (tbl_Fields t). set (fieldRefs f))"

lemma finite_tableRefs [simp]: "finite (tableRefs tables)"
  by (auto simp: tableRefs_def)

lemma FieldMap_values: "map_of (FieldMap t) c = Some f \<Longrightarrow> f \<in> set (tbl_Fields t) \<and> fld_Name f = c"
proof -
  have "map_of (fold (\<lambda>f m. AList.update (fld_Name f) f m) fs m0) c = Some f \<Longrightarrow>
      (f \<in> set fs \<and> fld_Name f = c) \<or> map_of m0 c = Some f" for fs m0
    by (induction fs arbitrary: m0) (fastforce simp: update_conv' split: if_splits)+
  from this [of "tbl_Fields t" "[]"]
  show "map_of (FieldMap t) c = Some f \<Longrightarrow> f \<in> set (tbl_Fields t) \<and> fld_Name f = c"
    by (auto simp: FieldMap_def)
qed

lemma ResolverOver_refs:
  "ResolverOver tables t c = Some f \<Longrightarrow> set (fieldRefs f) \<subseteq> tableRefs tables"
  by (fastforce simp: ResolverOver_def tableRefs_def dest: map_of_SomeD FieldMap_values split: option.splits)

function effectiveType :: "Table gmap \<Rightarrow> Field \<Rightarrow> string list \<Rightarrow> string" where
  "effectiveType tables f seen =
     (if fld_Type f \<noteq> [] then fld_Type f
      else case fld_ForeignKey f of
        None \<Rightarrow> fld_Type f
      | Some k \<Rightarrow>
          if equalFold (fk_References k) ''auth.users.id'' then ''UUID''
          else if fk_References k \<in> set seen then ''BIGINT''
          else (case ParseFKReference (fk_References k) of
                  Inl _ \<Rightarrow> ''BIGINT''
                | Inr (_, table, col) \<Rightarrow>
                    (case ResolverOver tables table col of
                       None \<Rightarrow> ''BIGINT''
                     | Some rf \<Rightarrow>
                         let rt = effectiveType tables rf (fk_References k # seen)
                         in if integerClass rt then ''BIGINT'' else Normalize rt)))"
  by pat_completeness auto
termination
proof (relation "measure (\<lambda>(tables, f, seen). card ((tableRefs tables \<union> set (fieldRefs f)) - set seen))", goal_cases)
  case (2 tables f seen k u s v table col rf)
  let ?r = "fk_References k"
  have sub: "tableRefs tables \<union> set (fieldRefs rf) - set (?r # seen) \<subset>
        tableRefs tables \<union> set (fieldRefs f) - set seen"
    using 2 ResolverOver_refs [of tables table col rf] by (auto simp: fieldRefs_def)
  have "finite (tableRefs tables \<union> set (fieldRefs f) - set seen)" by simp
  from psubset_card_mono [OF this sub] show ?case by simp
qed simp

declare effectiveType.simps [simp del]

definition EffectiveType :: "Field \<Rightarrow> Table gmap \<Rightarrow> string" where
  "EffectiveType f tables = effectiveType tables f []"


section \<open>Field lookup\<close>

lemma GetField_Some: "GetField t n = Some f \<Longrightarrow> f \<in> set (tbl_Fields t) \<and> fld_Name f = n"
  by (auto simp: GetField_def find_Some_iff)

lemma GetField_None: "GetField t n = None \<longleftrightarrow> n \<notin> fld_Name ` set (tbl_Fields t)"
  by (auto simp: GetField_def find_None_iff)

lemma FieldMap_None: "map_of (FieldMap t) c = None \<longleftrightarrow> c \<notin> fld_Name ` set (tbl_Fields t)"
proof -
  have "map_of (fold (\<lambda>f m. AList.update (fld_Name f) f m) fs m0) c = None \<longleftrightarrow>
      c \<notin> fld_Name ` set fs \<and> map_of m0 c = None" for fs m0
    by (induction fs arbitrary: m0) (auto simp: update_conv')
  from this [of "tbl_Fields t" "[]"] show ?thesis by (simp add: FieldMap_def)
qed

lemma FieldMap_GetField:
  assumes "distinct (map fld_Name (tbl_Fields t))"
  shows "map_of (FieldMap t) c = GetField t c"
proof (cases "GetField t c")
  case None
  then have "c \<notin> fld_Name ` set (tbl_Fields t)" using GetField_None by blast
  then have "map_of (FieldMap t) c = None" using FieldMap_None by blast
  with None show ?thesis by simp
next
  case (Some f)
  then have f: "f \<in> set (tbl_Fields t)" "fld_Name f = c" by (auto dest: GetField_Some)
  then have "map_of (FieldMap t) c \<noteq> None" by (auto simp: FieldMap_None)
  then obtain g where g: "map_of (FieldMap t) c = Some g" by auto
  from FieldMap_values [OF this] f assms have "g = f"
    by (auto simp: distinct_map inj_on_def)
  with g Some show ?thesis by simp
qed

lemma mapHas_FieldMap: "mapHas (FieldMap t) c \<longleftrightarrow> c \<in> fld_Name ` set (tbl_Fields t)"
  using FieldMap_None [of t c] by (auto simp: mapHas_def)

section \<open>Normalisation\<close>

lemma asciiLower_idem [simp]: "asciiLower (asciiLower c) = asciiLower c"
  by (auto simp: asciiLower_def)

lemma asciiLower_high: "128 \<le> (of_char b :: nat) \<Longrightarrow> asciiLower c = b \<longleftrightarrow> c = b"
  by (auto simp: asciiLower_def split: if_splits)

lemma asciiLower_lower: "97 \<le> (of_char c :: nat) \<Longrightarrow> asciiLower c = c"
  by (simp add: asciiLower_def)

lemma toLower_prefix1:
  "128 \<le> (of_char b :: nat) \<Longrightarrow> hasPrefix (toLower s) [b] \<Longrightarrow> hasPrefix s [b]"
  by (cases s) (auto simp: asciiLower_high split: if_splits)

lemma toLower_prefix2:
  assumes "128 \<le> (of_char b :: nat)" and "128 \<le> (of_char d :: nat)" and "hasPrefix (toLower s) [b, d]"
    and "b \<notin> {CHR 0xC4, CHR 0xE2}"
  shows "hasPrefix s [b, d]"
  using assms toLower_prefix1 [of d "tl s"] by (cases s) (auto simp: asciiLower_high split: if_splits)

lemma toLower_idem [simp]: "toLower (toLower s) = toLower s"
proof (induction s rule: toLower.induct)
  case (2 c cs)
  then show ?case
    using toLower_prefix1 [of "CHR 0xB0" cs] toLower_prefix2 [of "CHR 0x84" "CHR 0xAA" cs]
    by (cases "c = CHR 0xC4"; cases "c = CHR 0xE2") (auto simp: asciiLower_high asciiLower_lower)
qed simp

lemma Normalize_Normalize: "Normalize (Normalize t) = Normalize t"
proof -
  have "Normalize t = toLower t \<or> Normalize t \<in>
      {''bigint'', ''integer'', ''varchar'', ''boolean'', ''timestamptz''}"
    by (simp add: Normalize_def Let_def)
  then show ?thesis
  proof
    assume h: "Normalize t = toLower t"
    have "Normalize (toLower t) = Normalize t" by (simp add: Normalize_def)
    with h show ?thesis by simp
  next
    assume "Normalize t \<in> {''bigint'', ''integer'', ''varchar'', ''boolean'', ''timestamptz''}"
    then show ?thesis by (auto simp: Normalize_def asciiLower_def)
  qed
qed

lemma integerClass_BIGINT [simp]: "integerClass ''BIGINT''"
  by (simp add: integerClass_def Normalize_def asciiLower_def)

lemma integerClass_Normalize [simp]: "integerClass (Normalize t) = integerClass t"
  by (simp add: integerClass_def Normalize_Normalize)

lemma typeClass_Normalize [simp]: "typeClass (Normalize t) = typeClass t"
  by (simp add: typeClass_def Normalize_Normalize)

lemma typeClass_BIGINT [simp]: "typeClass ''BIGINT'' = ''integer''"
  by (simp add: typeClass_def)

section \<open>Inference of an untyped foreign key\<close>

text \<open>
  What the inference is meant to compute, with no bookkeeping: the type a column has when its chain
  of foreign keys ends. The number is the length of the chain.
\<close>

definition fkStep :: "Table gmap \<Rightarrow> Field \<Rightarrow> (string \<times> Field) option" where
  "fkStep tables f =
     (if fld_Type f \<noteq> [] then None
      else case fld_ForeignKey f of
        None \<Rightarrow> None
      | Some k \<Rightarrow>
          if equalFold (fk_References k) ''auth.users.id'' then None
          else (case ParseFKReference (fk_References k) of
                  Inl _ \<Rightarrow> None
                | Inr (_, table, col) \<Rightarrow>
                    map_option (\<lambda>rf. (fk_References k, rf)) (ResolverOver tables table col)))"

definition chainEnd :: "Field \<Rightarrow> string" where
  "chainEnd f =
     (if fld_Type f \<noteq> [] then fld_Type f
      else case fld_ForeignKey f of
        None \<Rightarrow> []
      | Some k \<Rightarrow> if equalFold (fk_References k) ''auth.users.id'' then ''UUID'' else ''BIGINT'')"

inductive chainType :: "Table gmap \<Rightarrow> Field \<Rightarrow> nat \<Rightarrow> string \<Rightarrow> bool" for tables where
  stop: "fkStep tables f = None \<Longrightarrow> chainType tables f 0 (chainEnd f)"
| follow: "fkStep tables f = Some (r, g) \<Longrightarrow> chainType tables g n t \<Longrightarrow>
     chainType tables f (Suc n) (if integerClass t then ''BIGINT'' else Normalize t)"

inductive_cases chainType_0: "chainType tables f 0 t"
inductive_cases chainType_Suc: "chainType tables f (Suc n) t"

lemma chainType_det:
  "chainType tables f n t \<Longrightarrow> chainType tables f m u \<Longrightarrow> n = m \<and> t = u"
proof (induction arbitrary: m u rule: chainType.induct)
  case (stop f)
  then show ?case by (auto elim: chainType.cases)
next
  case (follow f r g n t)
  from follow.prems follow.hyps(1) obtain m' t' where
    "m = Suc m'" "chainType tables g m' t'" "u = (if integerClass t' then ''BIGINT'' else Normalize t')"
    by (cases rule: chainType.cases) auto
  with follow.IH show ?case by auto
qed

lemma fkStep_ref: "fkStep tables f = Some (r, g) \<Longrightarrow> fkStep tables f' = Some (r, g') \<Longrightarrow> g' = g"
  by (auto simp: fkStep_def split: if_splits option.splits sum.splits prod.splits)

lemma chainType_follow_inv:
  "chainType tables f n t \<Longrightarrow> fkStep tables f = Some (r, g) \<Longrightarrow> \<exists>m u. chainType tables g m u"
  by (cases rule: chainType.cases) (auto, blast)

lemma effectiveType_stop: "fkStep tables f = None \<Longrightarrow> effectiveType tables f seen = chainEnd f"
  by (subst effectiveType.simps)
    (auto simp: fkStep_def chainEnd_def split: if_splits option.splits sum.splits prod.splits)

lemma effectiveType_follow:
  "fkStep tables f = Some (r, g) \<Longrightarrow>
     effectiveType tables f seen =
       (if r \<in> set seen then ''BIGINT''
        else let t = effectiveType tables g (r # seen) in if integerClass t then ''BIGINT'' else Normalize t)"
  by (subst effectiveType.simps)
    (auto simp: fkStep_def split: if_splits option.splits sum.splits prod.splits)

text \<open>A chain that ends never meets its own references again, so \<open>seen\<close> does not cut it.\<close>

lemma effectiveType_chain:
  assumes "chainType tables f n t"
    and "\<And>r g h m u. r \<in> set seen \<Longrightarrow> fkStep tables g = Some (r, h) \<Longrightarrow> chainType tables h m u \<Longrightarrow> n \<le> m"
  shows "effectiveType tables f seen = t"
  using assms
proof (induction arbitrary: seen rule: chainType.induct)
  case (stop f)
  then show ?case by (simp add: effectiveType_stop)
next
  case (follow f r g n t)
  have new: "r \<notin> set seen" using follow.prems [OF _ follow.hyps(1,2)] by auto
  have "effectiveType tables g (r # seen) = t"
  proof (rule follow.IH)
    fix r' g' h m u
    assume a: "r' \<in> set (r # seen)" "fkStep tables g' = Some (r', h)" "chainType tables h m u"
    show "n \<le> m"
    proof (cases "r' = r")
      case True
      with a follow.hyps fkStep_ref chainType_det show ?thesis by (metis order_refl)
    next
      case False
      with a have "r' \<in> set seen" by simp
      from follow.prems [OF this a(2,3)] show ?thesis by simp
    qed
  qed
  with new show ?case by (simp add: effectiveType_follow [OF follow.hyps(1)] Let_def)
qed

lemma effectiveType_cycle:
  "\<nexists>n t. chainType tables f n t \<Longrightarrow> effectiveType tables f seen = ''BIGINT''"
proof (induction tables f seen rule: effectiveType.induct)
  case (1 tables f seen)
  obtain r g where s: "fkStep tables f = Some (r, g)"
    using 1(2) chainType.stop by fastforce
  have nc: "\<nexists>n t. chainType tables g n t" using 1(2) chainType.follow [OF s] by blast
  show ?case
  proof (cases "r \<in> set seen")
    case False
    have "effectiveType tables g (r # seen) = ''BIGINT''"
      using s False nc 1(1)
      by (auto simp: fkStep_def split: if_splits option.splits sum.splits prod.splits)
    with False show ?thesis by (simp add: effectiveType_follow [OF s])
  qed (simp add: effectiveType_follow [OF s])
qed

text \<open>The type inference of an untyped foreign-key column follows the chain of references and
  returns the type at its end (an integer type as BIGINT, any other normalised); when the chain is a
  cycle it stops and falls back to BIGINT.\<close>

lemma EffectiveType_spec:
  "EffectiveType f tables = t \<longleftrightarrow>
     (\<exists>n. chainType tables f n t) \<or> (t = ''BIGINT'' \<and> (\<nexists>n u. chainType tables f n u))"
proof (cases "\<exists>n t. chainType tables f n t")
  case True
  then obtain n u where c: "chainType tables f n u" by blast
  have "EffectiveType f tables = u"
    unfolding EffectiveType_def by (rule effectiveType_chain [OF c]) simp
  with c chainType_det show ?thesis by metis
next
  case False
  then show ?thesis by (auto simp: EffectiveType_def effectiveType_cycle)
qed

lemma EffectiveType_follow:
  assumes s: "fkStep tables f = Some (r, g)"
  shows "EffectiveType f tables =
    (if integerClass (EffectiveType g tables) then ''BIGINT'' else Normalize (EffectiveType g tables))"
proof (cases "\<exists>n t. chainType tables g n t")
  case True
  then obtain n t where c: "chainType tables g n t" by blast
  have "EffectiveType g tables = t"
    unfolding EffectiveType_def by (rule effectiveType_chain [OF c]) simp
  moreover have "EffectiveType f tables = (if integerClass t then ''BIGINT'' else Normalize t)"
    unfolding EffectiveType_def by (rule effectiveType_chain [OF chainType.follow [OF s c]]) simp
  ultimately show ?thesis by simp
next
  case False
  then have "\<not> chainType tables f n t" for n t
    using s by (blast elim: chainType.cases dest: chainType_follow_inv)
  with False show ?thesis by (simp add: EffectiveType_def effectiveType_cycle)
qed

text \<open>A foreign-key column with no declared type gets a type that may reference the column it
  names: the two types are FK-compatible, whatever chain or cycle of references stands behind them.\<close>

lemma inferred_fk_compatible:
  assumes "fld_Type f = []" and "fld_ForeignKey f = Some k"
    and "\<not> equalFold (fk_References k) ''auth.users.id''"
    and "ParseFKReference (fk_References k) = Inr (schema, table, col)"
    and "ResolverOver tables table col = Some g"
  shows "FKCompatible (EffectiveType f tables) (EffectiveType g tables)"
proof -
  have "fkStep tables f = Some (fk_References k, g)"
    using assms by (simp add: fkStep_def)
  note e = EffectiveType_follow [OF this]
  show ?thesis
  proof (cases "integerClass (EffectiveType g tables)")
    case True
    with e have "EffectiveType f tables = ''BIGINT''" by simp
    moreover have "typeClass (EffectiveType g tables) = ''integer''" using True by (simp add: typeClass_def)
    ultimately show ?thesis by (simp add: FKCompatible_def)
  next
    case False
    with e have "EffectiveType f tables = Normalize (EffectiveType g tables)" by simp
    then show ?thesis by (simp add: FKCompatible_def)
  qed
qed


text \<open>A configuration with two tables whose untyped keys refer to each other, and a chain that ends.\<close>

definition exampleField :: "string \<Rightarrow> string \<Rightarrow> string \<Rightarrow> Field" where
  "exampleField name typ ref = zeroField\<lparr>fld_Name := name, fld_Type := typ,
     fld_ForeignKey := (if ref = [] then None else Some \<lparr>fk_References = ref, fk_OnDelete = []\<rparr>)\<rparr>"

definition exampleTables :: "Table gmap" where
  "exampleTables =
     [(''a'', zeroTable\<lparr>tbl_Fields := [exampleField ''x'' [] ''b.y'', exampleField ''u'' [] ''c.k'']\<rparr>),
      (''b'', zeroTable\<lparr>tbl_Fields := [exampleField ''y'' [] ''a.x'']\<rparr>),
      (''c'', zeroTable\<lparr>tbl_Fields := [exampleField ''k'' ''Varchar(20)'' []]\<rparr>)]"

lemma example_follow: "fkStep exampleTables (exampleField ''u'' [] ''c.k'') =
    Some (''c.k'', exampleField ''k'' ''Varchar(20)'' [])"
  by code_simp

lemma example_stop: "fkStep exampleTables (exampleField ''k'' ''Varchar(20)'' []) = None"
  by code_simp

theorem EffectiveType_spec_witness:
  "EffectiveType (exampleField ''u'' [] ''c.k'') exampleTables = ''varchar''"
proof -
  have "chainType exampleTables (exampleField ''u'' [] ''c.k'') (Suc 0) ''varchar''"
    using chainType.follow [OF example_follow chainType.stop [OF example_stop]]
    by (simp add: chainEnd_def exampleField_def Normalize_def integerClass_def asciiLower_def)
  then show ?thesis using EffectiveType_spec by blast
qed

theorem inferred_fk_compatible_witness:
  "FKCompatible (EffectiveType (exampleField ''x'' [] ''b.y'') exampleTables)
     (EffectiveType (exampleField ''y'' [] ''a.x'') exampleTables)"
proof (rule inferred_fk_compatible)
  show "fld_Type (exampleField ''x'' [] ''b.y'') = []" by code_simp
  show "fld_ForeignKey (exampleField ''x'' [] ''b.y'') = Some \<lparr>fk_References = ''b.y'', fk_OnDelete = []\<rparr>"
    by code_simp
  show "\<not> equalFold (fk_References \<lparr>fk_References = ''b.y'', fk_OnDelete = []\<rparr>) ''auth.users.id''"
    by code_simp
  show "ParseFKReference (fk_References \<lparr>fk_References = ''b.y'', fk_OnDelete = []\<rparr>) = Inr (''public'', ''b'', ''y'')"
    by code_simp
  show "ResolverOver exampleTables ''b'' ''y'' = Some (exampleField ''y'' [] ''a.x'')" by code_simp
qed

end
