(* ===== verification/Postgrest_Where.thy ===== *)
theory Postgrest_Where
  imports Sql_Text Domain_Schema
begin

text \<open>
  The filter engine of \<open>internal/adapter/http/postgrest\<close>: the data types of \<open>types.go\<close> and
  \<open>where.go\<close> (column paths, operators, the parser of filter trees, the SQL they render to). An error
  value is the format and the arguments of its \<open>fmt.Errorf\<close>.
\<close>

section \<open>Errors\<close>

text \<open>
  \<open>fmt.Errorf(format, args)\<close>, with the wrapped error when the format ends in \<open>%w\<close>, and the one error
  of the package that is a type of its own, \<open>AmbiguousEmbedError\<close> (parent, target, details as
  (cardinality, embedding, relationship), hints).
\<close>

datatype pg_error =
    Errorf string "string list"
  | Errorw string "string list" pg_error
  | AmbiguousEmbedError string string "(string \<times> string \<times> string) list" "string list"

section \<open>types.go: filters, order terms, column paths\<close>

record Filter =
  flt_Column :: string
  flt_Operator :: string
  flt_Value :: string
  flt_Config :: string

text \<open>
  \<open>*WhereNode\<close>: a leaf ignores \<open>Op\<close> and \<open>Children\<close>, an inner node has no leaf; a nil pointer is the
  \<^term>\<open>None\<close> of a \<open>WhereNode option\<close>. The children of a node are never nil in the sources.
\<close>

datatype WhereNode = WLeaf bool Filter | WNode string bool "WhereNode list"

record OrderClause =
  oc_Column :: string
  oc_Desc :: bool
  oc_Nulls :: string
  oc_IsAlias :: bool

record jsonPathStep =
  st_op :: string
  st_key :: string
  st_isInt :: bool

type_synonym ColValidator = "string \<Rightarrow> pg_error option"

definition AndLeaves :: "Filter list \<Rightarrow> WhereNode option" where
  "AndLeaves filters = (if filters = [] then None else Some (WNode ''and'' False (map (WLeaf False) filters)))"

section \<open>where.go: column paths\<close>

definition isAllDigits :: "string \<Rightarrow> bool" where
  "isAllDigits s = (s \<noteq> [] \<and> list_all isDigit s)"

text \<open>\<open>^[A-Za-z0-9_]+$\<close>\<close>

definition jsonKeyRe :: "string \<Rightarrow> bool" where
  "jsonKeyRe s = (s \<noteq> [] \<and> list_all isWord s)"

text \<open>The loop over \<open>rest\<close>: each round takes \<open>->\<close> or \<open>->>\<close> and the key up to the next \<open>->\<close>.\<close>

function jsonSteps :: "string \<Rightarrow> jsonPathStep list" where
  "jsonSteps rest =
     (if \<not> hasPrefix rest ''->'' then []
      else let wide = hasPrefix rest ''->>'';
               op = (if wide then ''->>'' else ''->'');
               tail = drop (length op) rest
           in case strIndex tail ''->'' of
                None \<Rightarrow> [\<lparr>st_op = op, st_key = tail, st_isInt = isAllDigits tail\<rparr>]
              | Some next \<Rightarrow>
                  \<lparr>st_op = op, st_key = take next tail, st_isInt = isAllDigits (take next tail)\<rparr>
                    # jsonSteps (drop next tail))"
  by pat_completeness auto
termination
  by (relation "measure length") (auto simp: hasPrefix_iff)

declare jsonSteps.simps [simp del]

definition splitJSONBPath :: "string \<Rightarrow> string \<times> jsonPathStep list" where
  "splitJSONBPath col =
     (case strIndex col ''->'' of
        None \<Rightarrow> (col, [])
      | Some idx \<Rightarrow> (take idx col, jsonSteps (drop idx col)))"

definition renderJSONBSuffix :: "jsonPathStep list \<Rightarrow> string" where
  "renderJSONBSuffix steps =
     concat (map (\<lambda>s. st_op s @ (if st_isInt s then st_key s
                                  else [CHR 0x27] @ st_key s @ [CHR 0x27])) steps)"

definition lastJSONBOp :: "jsonPathStep list \<Rightarrow> string" where
  "lastJSONBOp steps = (if steps = [] then [] else st_op (last steps))"

definition checkIdentPath :: "string \<Rightarrow> pg_error + string" where
  "checkIdentPath col =
     (let (base, steps) = splitJSONBPath col in
      if \<not> identRe base then Inl (Errorf ''invalid column %q'' [col])
      else case firstErr (\<lambda>s. if st_key s = [] then Some (Errorf ''empty JSONB key in %q'' [col])
                              else if \<not> st_isInt s \<and> \<not> jsonKeyRe (st_key s)
                              then Some (Errorf ''invalid JSONB key %q'' [st_key s]) else None) steps of
             Some e \<Rightarrow> Inl e
           | None \<Rightarrow> Inr base)"

definition ValidateIdentPath :: ColValidator where
  "ValidateIdentPath col = (case checkIdentPath col of Inl e \<Rightarrow> Some e | Inr _ \<Rightarrow> None)"

definition ValidateColumn :: "Table \<Rightarrow> ColValidator" where
  "ValidateColumn table col =
     (if col = [] then Some (Errorf ''empty column name'' [])
      else case checkIdentPath col of
             Inl e \<Rightarrow> Some e
           | Inr base \<Rightarrow> (case GetField table base of None \<Rightarrow> Some (Errorf ''unknown column %q'' [base]) | Some _ \<Rightarrow> None))"

section \<open>where.go: operators\<close>

definition reservedParams :: "string list" where
  "reservedParams = [''select'', ''order'', ''limit'', ''offset'', ''having'']"

definition validOps :: "string gmap" where
  "validOps =
     [(''eq'', ''=''), (''neq'', ''!=''), (''gt'', ''>''), (''gte'', ''>=''), (''lt'', ''<''),
      (''lte'', ''<=''), (''like'', ''LIKE''), (''ilike'', ''ILIKE''), (''match'', ''~''),
      (''imatch'', ''~*''), (''is'', ''IS''), (''isdistinct'', ''IS DISTINCT FROM''), (''in'', ''IN''),
      (''cs'', ''@>''), (''cd'', ''<@''), (''ov'', ''&&''), (''fts'', ''@@''), (''plfts'', ''@@''),
      (''phfts'', ''@@''), (''wfts'', ''@@''), (''sl'', ''<<''), (''sr'', ''>>''), (''nxl'', ''&>''),
      (''nxr'', ''&<''), (''adj'', ''-|-''), (''like(all)'', ''LIKE''), (''like(any)'', ''LIKE''),
      (''ilike(all)'', ''ILIKE''), (''ilike(any)'', ''ILIKE'')]"

text \<open>The value of a Go map at a key, the zero value when the key is missing.\<close>

definition sqlOpOf :: "string \<Rightarrow> string" where
  "sqlOpOf op = (case map_of validOps op of None \<Rightarrow> [] | Some s \<Rightarrow> s)"

definition ftsOps :: "string list" where
  "ftsOps = [''fts'', ''plfts'', ''phfts'', ''wfts'']"

definition ftsFunction :: "string \<Rightarrow> string" where
  "ftsFunction op =
     (if op = ''fts'' then ''to_tsquery'' else if op = ''plfts'' then ''plainto_tsquery''
      else if op = ''phfts'' then ''phraseto_tsquery'' else if op = ''wfts'' then ''websearch_to_tsquery''
      else [])"

definition parseFilterValue :: "string \<Rightarrow> pg_error + (string \<times> string \<times> string)" where
  "parseFilterValue val =
     (case strIndex val ''.'' of
        None \<Rightarrow> Inl (Errorf ''expected operator.value format, got %q'' [val])
      | Some idx \<Rightarrow>
          let op0 = take idx val; operand = drop (idx + 1) val;
              opcfg =
                (case strIndex op0 ''('' of
                   None \<Rightarrow> Inr (op0, [])
                 | Some lp \<Rightarrow>
                     if \<not> hasSuffix op0 '')'' then Inl (Errorf ''malformed operator %q'' [op0])
                     else let config = take (length op0 - 1 - (lp + 1)) (drop (lp + 1) op0) in
                          if config = [] then Inl (Errorf ''empty config in operator %q'' [op0])
                          else if \<not> identRe config then Inl (Errorf ''invalid config %q'' [config])
                          else Inr (take lp op0, config))
          in case opcfg of
               Inl e \<Rightarrow> Inl e
             | Inr (op, config) \<Rightarrow>
                 if map_of validOps op = None then Inl (Errorf ''unknown operator %q'' [op])
                 else if op = ''is'' \<and>
                    toLower (trimSpace operand) \<notin> {''null'', ''true'', ''false'', ''unknown''}
                 then Inl (Errorf (''operator '' @ [CHR 0x22] @ ''is'' @ [CHR 0x22] @ '' only accepts null, true, false, or unknown'') [])
                 else Inr (op, operand, config))"

definition parsePatternList :: "string \<Rightarrow> string list" where
  "parsePatternList raw =
     (let s0 = trimSpace raw;
          s = (if 2 \<le> length s0 \<and>
                  ((hd s0 = CHR ''{'' \<and> last s0 = CHR ''}'') \<or> (hd s0 = CHR ''('' \<and> last s0 = CHR '')''))
               then butlast (tl s0) else s0)
      in if s = [] then [[]] else map trimSpace (strSplit s (CHR '','')))"

section \<open>where.go: SQL of a filter tree\<close>

text \<open>A Go map literal indexed by the operator, a \<open>switch\<close> on the operator with its quantifier.\<close>

definition switchOp :: "Filter \<Rightarrow> string" where
  "switchOp f =
     (if flt_Config f = ''all'' \<or> flt_Config f = ''any''
      then flt_Operator f @ ''('' @ flt_Config f @ '')'' else flt_Operator f)"

definition columnExpr :: "string \<Rightarrow> string" where
  "columnExpr column =
     (let (base, steps) = splitJSONBPath column in
      if steps = [] then column else base @ renderJSONBSuffix steps)"

definition inValues :: "string \<Rightarrow> string list" where
  "inValues v = map trimSpace (strSplit (trimSuffix (trimPrefix v ''('') '')'') (CHR '',''))"

definition buildFilterCondition :: "Filter \<Rightarrow> nat \<Rightarrow> string \<times> string list \<times> nat" where
  "buildFilterCondition f i =
     (let col = columnExpr (flt_Column f); op = switchOp f; v = flt_Value f in
      if op = ''is'' then
        (let isVal = toUpper (trimSpace v) in
         if isVal \<in> {''NULL'', ''TRUE'', ''FALSE'', ''UNKNOWN''}
         then (col @ '' IS '' @ isVal, [], i)
         else (col @ '' IS NOT DISTINCT FROM '' @ ph i, [v], i + 1))
      else if op = ''isdistinct'' then
        (let val = toUpper v in
         if val \<in> {''NULL'', ''TRUE'', ''FALSE''}
         then (col @ '' IS DISTINCT FROM '' @ val, [], i)
         else (col @ '' IS DISTINCT FROM '' @ ph i, [v], i + 1))
      else if op = ''in'' then
        (let vals = inValues v; n = length vals in
         (col @ '' IN ('' @ strJoin (phs i n) '', '' @ '')'', vals, i + n))
      else if op \<in> {''fts'', ''plfts'', ''phfts'', ''wfts''} then
        (let fn = ftsFunction (flt_Operator f) in
         if flt_Config f \<noteq> []
         then (col @ '' @@ '' @ fn @ [CHR ''('', CHR 0x27] @ flt_Config f @ [CHR 0x27] @ '', '' @ ph i @ '')'',
               [v], i + 1)
         else (col @ '' @@ '' @ fn @ ''('' @ ph i @ '')'', [v], i + 1))
      else if op = ''cs'' then (col @ '' @> '' @ ph i, [v], i + 1)
      else if op = ''cd'' then (col @ '' <@ '' @ ph i, [v], i + 1)
      else if op = ''ov'' then (col @ '' && '' @ ph i, [v], i + 1)
      else if op \<in> {''sl'', ''sr'', ''nxl'', ''nxr'', ''adj''} then
        (col @ '' '' @ sqlOpOf (flt_Operator f) @ '' '' @ ph i, [v], i + 1)
      else if op \<in> {''like(all)'', ''like(any)'', ''ilike(all)'', ''ilike(any)''} then
        (let sqlOp = (if hasPrefix op ''ilike'' then ''ILIKE'' else ''LIKE'');
             quant = (if hasSuffix op ''(any)'' then ''ANY'' else ''ALL'');
             patterns = parsePatternList v; n = length patterns in
         (col @ '' '' @ sqlOp @ '' '' @ quant @ ''(ARRAY['' @ strJoin (phs i n) '', '' @ ''])'', patterns, i + n))
      else (col @ '' '' @ sqlOpOf (flt_Operator f) @ '' '' @ ph i, [v], i + 1))"

fun buildNode :: "WhereNode \<Rightarrow> nat \<Rightarrow> string \<times> string list \<times> nat"
  and buildChildren :: "WhereNode list \<Rightarrow> nat \<Rightarrow> string list \<times> string list \<times> nat" where
  "buildNode (WLeaf neg f) i =
     (let (sql, args, next) = buildFilterCondition f i
      in (if neg then ''NOT ('' @ sql @ '')'' else sql, args, next))"
| "buildNode (WNode op neg children) i =
     (let (parts, args, next) = buildChildren children i in
      if parts = [] then ([], [], next)
      else let sep = (if op = ''or'' then '' OR '' else '' AND '');
               sql = strJoin parts sep;
               sql1 = (if 1 < length parts then ''('' @ sql @ '')'' else sql)
           in (if neg then ''NOT '' @ sql1 else sql1, args, next))"
| "buildChildren [] i = ([], [], i)"
| "buildChildren (c # cs) i =
     (let (s, a, next) = buildNode c i in
      if s = [] then buildChildren cs i
      else let (ss, b, k) = buildChildren cs next in (s # ss, a @ b, k))"

definition BuildSQL :: "WhereNode option \<Rightarrow> nat \<Rightarrow> string \<times> string list \<times> nat" where
  "BuildSQL n i = (case n of None \<Rightarrow> ([], [], i) | Some t \<Rightarrow> buildNode t i)"


section \<open>where.go: full-text search needs a text column\<close>

definition isFTSCompatibleType :: "string \<Rightarrow> bool" where
  "isFTSCompatibleType t =
     (let s0 = toLower (trimSpace t);
          s = (case strIndex s0 ''('' of None \<Rightarrow> s0 | Some idx \<Rightarrow> trimSpace (take idx s0))
      in s \<in> {''text'', ''citext'', ''tsvector'', ''varchar'', ''character varying'', ''char'',
               ''character'', ''bpchar''})"

fun validateFTSNode :: "Table \<Rightarrow> WhereNode \<Rightarrow> pg_error option" where
  "validateFTSNode table (WLeaf neg f) =
     (if flt_Operator f \<notin> set ftsOps then None
      else let (base, steps) = splitJSONBPath (flt_Column f); last = lastJSONBOp steps in
           if last = ''->>'' then None
           else if last = ''->'' then
             Some (Errorf ''operator %q requires a text or tsvector column; %q yields jsonb''
                     [flt_Operator f, flt_Column f])
           else (case GetField table base of
                   None \<Rightarrow> Some (Errorf ''unknown column %q'' [base])
                 | Some field \<Rightarrow>
                     if \<not> isFTSCompatibleType (fld_Type field) then
                       Some (Errorf ''operator %q requires a text or tsvector column; %q is %q''
                               [flt_Operator f, base, fld_Type field])
                     else None))"
| "validateFTSNode table (WNode op neg children) = firstErr (validateFTSNode table) children"

definition validateFTSLeaves :: "Table \<Rightarrow> WhereNode option \<Rightarrow> pg_error option" where
  "validateFTSLeaves table n = (case n of None \<Rightarrow> None | Some t \<Rightarrow> validateFTSNode table t)"

section \<open>where.go: select entries\<close>

record SelectItem =
  si_Alias :: string
  si_Col :: string
  si_Cast :: string
  si_Agg :: string

definition aggNames :: "string list" where
  "aggNames = [''count'', ''sum'', ''avg'', ''min'', ''max'']"

text \<open>The first \<open>:\<close> separates an alias, unless it begins a \<open>::\<close> cast.\<close>

definition stripAlias :: "string \<Rightarrow> string \<times> string" where
  "stripAlias s =
     (case strIndex s '':'' of
        None \<Rightarrow> ([], s)
      | Some i \<Rightarrow> if hasPrefix (drop (i + 1) s) '':'' then ([], s) else (take i s, drop (i + 1) s))"

definition stripCast :: "string \<Rightarrow> string \<times> string" where
  "stripCast s =
     (case strIndex s ''::'' of None \<Rightarrow> ([], s) | Some idx \<Rightarrow> (drop (idx + 2) s, take idx s))"

fun stripAgg :: "string list \<Rightarrow> string \<Rightarrow> string \<times> string" where
  "stripAgg [] s = ([], s)"
| "stripAgg (agg # aggs) s =
     (let suffix = ''.'' @ agg @ ''()'' in
      if hasSuffix s suffix then (agg, take (length s - length suffix) s)
      else if s = agg @ ''()'' then (agg, [])
      else stripAgg aggs s)"

definition parseSelectItemInternal :: "string \<Rightarrow> SelectItem" where
  "parseSelectItemInternal s0 =
     (let (alias, s1) = stripAlias s0; (cast, s2) = stripCast s1; (agg, col) = stripAgg aggNames s2
      in \<lparr>si_Alias = alias, si_Col = col, si_Cast = cast, si_Agg = agg\<rparr>)"

definition isAggSelectEntryInternal :: "string \<Rightarrow> bool" where
  "isAggSelectEntryInternal raw =
     (let s = snd (stripCast (snd (stripAlias raw)))
      in list_ex (\<lambda>agg. s = agg @ ''()'' \<or> hasSuffix s (''.'' @ agg @ ''()'')) aggNames)"

section \<open>where.go: splitting at the top level\<close>

fun splitTopLevelLoop :: "char \<Rightarrow> nat \<Rightarrow> string \<Rightarrow> string \<Rightarrow> pg_error + string list" where
  "splitTopLevelLoop sep depth part [] =
     (if depth \<noteq> 0 then Inl (Errorf ''unbalanced parentheses'' []) else Inr [part])"
| "splitTopLevelLoop sep depth part (r # rest) =
     (if r = CHR ''('' then splitTopLevelLoop sep (depth + 1) (part @ [r]) rest
      else if r = CHR '')'' then
        (if depth = 0 then Inl (Errorf ''unbalanced parentheses'' [])
         else splitTopLevelLoop sep (depth - 1) (part @ [r]) rest)
      else if r = sep \<and> depth = 0 then
        (case splitTopLevelLoop sep 0 [] rest of Inl e \<Rightarrow> Inl e | Inr parts \<Rightarrow> Inr (part # parts))
      else splitTopLevelLoop sep depth (part @ [r]) rest)"

definition splitTopLevel :: "string \<Rightarrow> char \<Rightarrow> pg_error + string list" where
  "splitTopLevel s sep = splitTopLevelLoop sep 0 [] s"

lemma splitTopLevelLoop_length:
  "splitTopLevelLoop sep d part s = Inr ps \<Longrightarrow> p \<in> set ps \<Longrightarrow> length p \<le> length part + length s"
  by (induction sep d part s arbitrary: ps p rule: splitTopLevelLoop.induct)
    (force split: if_splits sum.splits)+

lemma splitTopLevel_length: "splitTopLevel s sep = Inr ps \<Longrightarrow> p \<in> set ps \<Longrightarrow> length p \<le> length s"
  using splitTopLevelLoop_length [of sep 0 "[]" s ps p] by (simp add: splitTopLevel_def)

section \<open>where.go: parsing filters\<close>

definition parseLeafValue :: "string \<Rightarrow> string \<Rightarrow> pg_error + WhereNode" where
  "parseLeafValue col val =
     (let neg = hasPrefix val ''not.'' in
      case parseFilterValue (trimPrefix val ''not.'') of
        Inl e \<Rightarrow> Inl e
      | Inr (op, operand, config) \<Rightarrow>
          Inr (WLeaf neg \<lparr>flt_Column = col, flt_Operator = op, flt_Value = operand, flt_Config = config\<rparr>))"

definition parseLogicLeafWith :: "ColValidator \<Rightarrow> string \<Rightarrow> pg_error + WhereNode" where
  "parseLogicLeafWith validate item =
     (case strIndex item ''.'' of
        None \<Rightarrow> Inl (Errorf ''expected col.op.val, got %q'' [item])
      | Some firstDot \<Rightarrow>
          let col = take firstDot item; rest = drop (firstDot + 1) item in
          case validate col of
            Some e \<Rightarrow> Inl e
          | None \<Rightarrow>
              let neg = hasPrefix rest ''not.'' in
              case parseFilterValue (trimPrefix rest ''not.'') of
                Inl e \<Rightarrow> Inl e
              | Inr (op, val, config) \<Rightarrow>
                  Inr (WLeaf neg \<lparr>flt_Column = col, flt_Operator = op, flt_Value = val, flt_Config = config\<rparr>))"

definition isGroup :: "string \<Rightarrow> bool" where
  "isGroup item = (hasPrefix item ''and('' \<or> hasPrefix item ''or('')"

text \<open>\<open>not.\<close> is taken off only in front of a group; in front of a leaf it belongs to the leaf.\<close>

definition groupNegated :: "string \<Rightarrow> bool" where
  "groupNegated item = (hasPrefix item ''not.'' \<and> isGroup (trimPrefix item ''not.''))"

definition groupItem :: "string \<Rightarrow> string" where
  "groupItem item = (if groupNegated item then trimPrefix item ''not.'' else item)"

definition groupOp :: "string \<Rightarrow> string" where
  "groupOp item = (if hasPrefix item ''or('' then ''or'' else ''and'')"

definition groupInner :: "string \<Rightarrow> string" where
  "groupInner item = butlast (drop (length (groupOp item) + 1) item)"

lemma length_groupItem: "length (groupItem item) \<le> length item"
  by (simp add: groupItem_def length_trimPrefix_le)

lemma length_groupInner: "isGroup item \<Longrightarrow> length (groupInner item) < length item"
  by (cases item) (auto simp: groupInner_def isGroup_def groupOp_def)

lemma logic_sub_length:
  assumes "isGroup (groupItem item)" and "splitTopLevel (groupInner (groupItem item)) c = Inr parts"
    and "sub \<in> set parts"
  shows "length (trimSpace sub) < length item"
  using assms length_groupItem [of item] length_groupInner [of "groupItem item"] splitTopLevel_length
    length_trimSpace [of sub]
  by (meson le_less_trans less_le_trans)

function parseLogicItemWith :: "ColValidator \<Rightarrow> string \<Rightarrow> pg_error + WhereNode" where
  "parseLogicItemWith validate item0 =
     (let item = groupItem item0 in
      if isGroup item then
        (if \<not> hasSuffix item '')'' then Inl (Errorf ''unclosed %s group'' [groupOp item])
         else case splitTopLevel (groupInner item) (CHR '','') of
                Inl e \<Rightarrow> Inl e
              | Inr list \<Rightarrow>
                  (case traverse (\<lambda>sub. parseLogicItemWith validate sub) (map trimSpace list) of
                     Inl e \<Rightarrow> Inl e
                   | Inr children \<Rightarrow>
                       if children = [] then Inl (Errorf ''empty %s group'' [groupOp item])
                       else Inr (WNode (groupOp item) (groupNegated item0) children)))
      else parseLogicLeafWith validate item)"
  by pat_completeness auto
termination
  by (relation "measure (\<lambda>(v, item). length item)") (auto intro: logic_sub_length)

declare parseLogicItemWith.simps [simp del]

definition parseLogicEntry :: "ColValidator \<Rightarrow> string \<Rightarrow> pg_error + WhereNode" where
  "parseLogicEntry validate item0 =
     (let item = trimSpace item0 in
      if item = [] then Inl (Errorf ''empty item in logic list'' []) else parseLogicItemWith validate item)"

definition parseLogicListWith :: "string \<Rightarrow> string \<Rightarrow> ColValidator \<Rightarrow> pg_error + WhereNode" where
  "parseLogicListWith op raw0 validate =
     (let raw = trimSpace raw0 in
      if \<not> hasPrefix raw ''('' \<or> \<not> hasSuffix raw '')'' then
        Inl (Errorf ''expected parenthesized list, got %q'' [raw])
      else case splitTopLevel (butlast (tl raw)) (CHR '','') of
             Inl e \<Rightarrow> Inl e
           | Inr items \<Rightarrow>
               (case traverse (parseLogicEntry validate) items of
                  Inl e \<Rightarrow> Inl e
                | Inr children \<Rightarrow>
                    if children = [] then Inl (Errorf ''empty %s list'' [op])
                    else Inr (WNode op False children)))"

text \<open>One value of a logic parameter, one value of a column filter, one query parameter of
  \<open>ParseWhereWith\<close> with the nodes it adds to the root.\<close>

definition logicParam :: "ColValidator \<Rightarrow> string \<Rightarrow> string \<Rightarrow> pg_error + WhereNode" where
  "logicParam validate key v =
     (case parseLogicListWith key v validate of Inl e \<Rightarrow> Inl (Errorw ''invalid %s: %w'' [key] e) | Inr n \<Rightarrow> Inr n)"

definition columnParam :: "string \<Rightarrow> string \<Rightarrow> pg_error + WhereNode" where
  "columnParam key v =
     (case parseLeafValue key v of Inl e \<Rightarrow> Inl (Errorw ''invalid filter on %q: %w'' [key] e) | Inr n \<Rightarrow> Inr n)"

definition whereParam ::
  "ColValidator \<Rightarrow> string list \<Rightarrow> string list \<Rightarrow> string \<times> string list \<Rightarrow> pg_error + WhereNode list" where
  "whereParam validate skipPrefixes skipKeys entry =
     (let (key, values) = entry in
      if key \<in> set reservedParams then Inr []
      else if key \<in> set skipKeys then Inr []
      else if list_ex (\<lambda>p. hasPrefix key (p @ ''.'')) skipPrefixes then Inr []
      else if key = ''or'' \<or> key = ''and'' then
        traverse (logicParam validate key) values
      else case validate key of
             Some e \<Rightarrow> Inl (Errorw ''invalid filter on %q: %w'' [key] e)
           | None \<Rightarrow>
               traverse (columnParam key) values)"

definition ParseWhereWith ::
  "(string list) gmap \<Rightarrow> ColValidator \<Rightarrow> string list \<Rightarrow> string list \<Rightarrow> pg_error + WhereNode option" where
  "ParseWhereWith vals validate skipPrefixes skipKeys =
     (case traverse (whereParam validate skipPrefixes skipKeys) vals of
        Inl e \<Rightarrow> Inl e
      | Inr nodes \<Rightarrow>
          if concat nodes = [] then Inr None else Inr (Some (WNode ''and'' False (concat nodes))))"

definition ParseWhereSkip ::
  "(string list) gmap \<Rightarrow> Table \<Rightarrow> string list \<Rightarrow> pg_error + WhereNode option" where
  "ParseWhereSkip vals table skipPrefixes =
     (case ParseWhereWith vals (ValidateColumn table) skipPrefixes [] of
        Inl e \<Rightarrow> Inl e
      | Inr tree \<Rightarrow> (case validateFTSLeaves table tree of Some e \<Rightarrow> Inl e | None \<Rightarrow> Inr tree))"

definition ParseWhere :: "(string list) gmap \<Rightarrow> Table \<Rightarrow> pg_error + WhereNode option" where
  "ParseWhere vals table = ParseWhereSkip vals table []"

section \<open>where.go: HAVING\<close>

definition aggExpr :: "string \<Rightarrow> SelectItem \<Rightarrow> string" where
  "aggExpr tableName item =
     (let expr = (if si_Agg item \<noteq> [] \<and> si_Col item = [] then ''COUNT(*)''
                  else let (base, steps) = splitJSONBPath (si_Col item);
                           e0 = tableName @ ''.'' @ base;
                           e1 = (if steps \<noteq> [] then e0 @ renderJSONBSuffix steps else e0)
                       in toUpper (si_Agg item) @ ''('' @ e1 @ '')'')
      in if si_Cast item \<noteq> [] then ''('' @ expr @ '')::'' @ si_Cast item else expr)"

definition aggAlias :: "SelectItem \<Rightarrow> string" where
  "aggAlias item = (if si_Alias item = [] \<and> si_Agg item \<noteq> [] then si_Agg item else si_Alias item)"

definition aggAliasExprs :: "string \<Rightarrow> string list \<Rightarrow> string gmap" where
  "aggAliasExprs tableName selectItems =
     fold (\<lambda>s m. if \<not> isAggSelectEntryInternal s then m
                 else let item = parseSelectItemInternal s in
                      if aggAlias item = [] then m
                      else AList.update (aggAlias item) (aggExpr tableName item) m) selectItems []"

definition havingColumn :: "string gmap \<Rightarrow> string \<Rightarrow> string \<Rightarrow> string" where
  "havingColumn exprs tableName col =
     (case map_of exprs col of Some expr \<Rightarrow> expr | None \<Rightarrow> tableName @ ''.'' @ col)"

fun rewriteHavingLeaf :: "string gmap \<Rightarrow> string \<Rightarrow> WhereNode \<Rightarrow> WhereNode" where
  "rewriteHavingLeaf exprs tableName (WLeaf neg f) =
     WLeaf neg (f\<lparr>flt_Column := havingColumn exprs tableName (flt_Column f)\<rparr>)"
| "rewriteHavingLeaf exprs tableName (WNode op neg children) = WNode op neg children"

definition havingValidator :: "string gmap \<Rightarrow> Table \<Rightarrow> ColValidator" where
  "havingValidator exprs table col =
     (if map_of exprs col \<noteq> None then None
      else if ValidateColumn table col = None then None
      else Some (Errorf ''column %q is not a valid aggregate alias or table column'' [col]))"

definition havingItem :: "string gmap \<Rightarrow> string \<Rightarrow> Table \<Rightarrow> string \<Rightarrow> pg_error + WhereNode" where
  "havingItem exprs tableName table item =
     (case parseLogicLeafWith (havingValidator exprs table) item of
        Inl e \<Rightarrow> Inl e | Inr leaf \<Rightarrow> Inr (rewriteHavingLeaf exprs tableName leaf))"

definition ParseHavingParam ::
  "string \<Rightarrow> string \<Rightarrow> Table \<Rightarrow> string list \<Rightarrow> pg_error + WhereNode option" where
  "ParseHavingParam raw tableName table selectItems =
     (let exprs = aggAliasExprs tableName selectItems in
      case splitTopLevel raw (CHR '','') of
        Inl e \<Rightarrow> Inl e
      | Inr items \<Rightarrow>
          (case traverse (havingItem exprs tableName table)
                  (filter (\<lambda>item. item \<noteq> []) (map trimSpace items)) of
             Inl e \<Rightarrow> Inl e
           | Inr children \<Rightarrow>
               if children = [] then Inr None else Inr (Some (WNode ''and'' False children))))"

end
