(* ===== verification/Where_Laws.thy ===== *)
theory Where_Laws
  imports Postgrest_Where
begin

text \<open>
  What makes the filter engine correct: column paths survive splitting, the SQL of a filter tree
  numbers its placeholders consecutively and never contains a filter value, the parsers only
  produce trees over validated columns and known operators, splitting at the top level is exactly
  the inverse of joining, and printing a tree in the URL syntax and parsing it gives it back.
\<close>

section \<open>Column paths\<close>

definition stepText :: "jsonPathStep \<Rightarrow> string" where
  "stepText s = st_op s @ st_key s"

lemma strIndex_prefix: "strIndex s t = Some i \<Longrightarrow> hasPrefix (drop i s) t"
  using strIndex_Some [of s t i] by (simp add: hasPrefix_def)

lemma jsonSteps_text: "hasPrefix rest ''->'' \<Longrightarrow> concat (map stepText (jsonSteps rest)) = rest"
proof (induction rest rule: jsonSteps.induct)
  case (1 rest)
  define op where "op = (if hasPrefix rest ''->>'' then ''->>'' else ''->'')"
  define tail where "tail = drop (length op) rest"
  have "hasPrefix rest op" using 1(2) by (simp add: op_def)
  then have rest: "rest = op @ tail" by (auto simp: hasPrefix_iff tail_def)
  have eq: "jsonSteps rest =
      (case strIndex tail ''->'' of
         None \<Rightarrow> [\<lparr>st_op = op, st_key = tail, st_isInt = isAllDigits tail\<rparr>]
       | Some nx \<Rightarrow>
           \<lparr>st_op = op, st_key = take nx tail, st_isInt = isAllDigits (take nx tail)\<rparr>
             # jsonSteps (drop nx tail))"
    by (subst jsonSteps.simps) (simp only: 1(2) Let_def op_def tail_def not_True_eq_False if_False)
  show ?case
  proof (cases "strIndex tail ''->''")
    case None
    then have "jsonSteps rest = [\<lparr>st_op = op, st_key = tail, st_isInt = isAllDigits tail\<rparr>]" by (simp add: eq)
    then show ?thesis by (simp add: rest stepText_def)
  next
    case (Some nx)
    have "concat (map stepText (jsonSteps (drop nx tail))) = drop nx tail"
      using 1 Some strIndex_prefix [OF Some] by (simp add: op_def tail_def)
    moreover have "jsonSteps rest =
        \<lparr>st_op = op, st_key = take nx tail, st_isInt = isAllDigits (take nx tail)\<rparr> # jsonSteps (drop nx tail)"
      using Some by (simp add: eq)
    ultimately show ?thesis by (simp add: rest stepText_def [abs_def])
  qed
qed

lemma jsonSteps_step:
  "s \<in> set (jsonSteps rest) \<Longrightarrow> st_op s \<in> {''->'', ''->>''} \<and> st_isInt s = isAllDigits (st_key s)"
proof (induction rest rule: jsonSteps.induct)
  case (1 rest)
  from 1(2) show ?case
    by (subst (asm) jsonSteps.simps)
      (use 1(1) in \<open>auto simp: Let_def split: if_splits option.splits\<close>)
qed

lemma splitJSONBPath_text:
  "splitJSONBPath col = (base, steps) \<Longrightarrow> col = base @ concat (map stepText steps)"
  by (auto simp: splitJSONBPath_def jsonSteps_text dest: strIndex_prefix split: option.splits)

lemma splitJSONBPath_step:
  "splitJSONBPath col = (base, steps) \<Longrightarrow> s \<in> set steps \<Longrightarrow>
     st_op s \<in> {''->'', ''->>''} \<and> st_isInt s = isAllDigits (st_key s)"
  by (auto simp: splitJSONBPath_def dest: jsonSteps_step split: option.splits)

lemma set_stepText: "s \<in> set steps \<Longrightarrow> set (st_op s) \<union> set (st_key s) \<subseteq> set (concat (map stepText steps))"
  by (auto simp: stepText_def)

definition pathChar :: "char \<Rightarrow> bool" where
  "pathChar c = (isWord c \<or> c = CHR ''-'' \<or> c = CHR ''>'')"

lemma checkIdentPath_iff:
  "checkIdentPath col = Inr base \<longleftrightarrow>
     (\<exists>steps. splitJSONBPath col = (base, steps) \<and> identRe base \<and>
        (\<forall>s \<in> set steps. st_key s \<noteq> [] \<and> list_all isWord (st_key s)))"
proof -
  have digits: "isAllDigits k \<Longrightarrow> list_all isWord k" for k
    by (auto simp: isAllDigits_def list_all_iff isDigit_isWord)
  show ?thesis
  proof (cases "splitJSONBPath col")
    case (Pair b steps)
    let ?err = "\<lambda>s. if st_key s = [] then Some (Errorf ''empty JSONB key in %q'' [col])
        else if \<not> st_isInt s \<and> \<not> jsonKeyRe (st_key s) then Some (Errorf ''invalid JSONB key %q'' [st_key s])
        else None"
    have "?err s = None \<longleftrightarrow> st_key s \<noteq> [] \<and> list_all isWord (st_key s)" if "s \<in> set steps" for s
      using splitJSONBPath_step [OF Pair that] digits by (auto simp: jsonKeyRe_def)
    then have "firstErr ?err steps = None \<longleftrightarrow> (\<forall>s \<in> set steps. st_key s \<noteq> [] \<and> list_all isWord (st_key s))"
      by (auto simp: firstErr_None)
    then show ?thesis
      by (auto simp: checkIdentPath_def Pair split: option.splits)
  qed
qed

lemma checkIdentPath_chars: "checkIdentPath col = Inr base \<Longrightarrow> list_all pathChar col"
proof -
  assume "checkIdentPath col = Inr base"
  then obtain steps where s: "splitJSONBPath col = (base, steps)" "identRe base"
    "\<forall>s \<in> set steps. list_all isWord (st_key s)" by (auto simp: checkIdentPath_iff)
  have "c \<in> set (stepText st) \<Longrightarrow> pathChar c" if "st \<in> set steps" for st c
    using splitJSONBPath_step [OF s(1) that] s(3) that
    by (auto simp: stepText_def pathChar_def list_all_iff)
  then show ?thesis
    using identRe_word [OF s(2)] splitJSONBPath_text [OF s(1)]
    by (auto simp: list_all_iff pathChar_def)
qed

lemma pathChar_notin: "list_all pathChar col \<Longrightarrow> \<not> pathChar c \<Longrightarrow> c \<notin> set col"
  by (auto simp: list_all_iff)

lemma dollarFree_path [dollar]: "list_all pathChar col \<Longrightarrow> dollarFree col"
  using pathChar_notin [of col "CHR ''$''"] by (simp add: dollarFree_def pathChar_def)

lemma dollarFree_renderSuffix:
  "dollarFree (concat (map stepText steps)) \<Longrightarrow> dollarFree (renderJSONBSuffix steps)"
  by (induction steps) (auto simp: renderJSONBSuffix_def stepText_def)

lemma dollarFree_columnExpr [dollar]: "dollarFree col \<Longrightarrow> dollarFree (columnExpr col)"
proof -
  assume d: "dollarFree col"
  obtain base steps where s: "splitJSONBPath col = (base, steps)" by (cases "splitJSONBPath col")
  from splitJSONBPath_text [OF s] d have "dollarFree base" "dollarFree (concat (map stepText steps))"
    by simp_all
  then show ?thesis using d s by (auto simp: columnExpr_def dollarFree_renderSuffix)
qed

lemma ValidateColumn_None:
  "ValidateColumn table col = None \<longleftrightarrow>
     (\<exists>base. checkIdentPath col = Inr base \<and> GetField table base \<noteq> None)"
proof -
  have "checkIdentPath [] \<noteq> Inr base" for base
    by (simp add: checkIdentPath_def splitJSONBPath_def identRe_def)
  then show ?thesis
    by (auto simp: ValidateColumn_def split: sum.splits option.splits)
qed

lemma ValidateColumn_path: "ValidateColumn table col = None \<Longrightarrow> list_all pathChar col"
  by (auto simp: ValidateColumn_None dest: checkIdentPath_chars)

section \<open>Numbering\<close>

definition leafOk :: "Filter \<Rightarrow> bool" where
  "leafOk f = (dollarFree (flt_Column f) \<and> dollarFree (flt_Config f))"

fun leaves :: "WhereNode \<Rightarrow> Filter list" where
  "leaves (WLeaf neg f) = [f]"
| "leaves (WNode op neg children) = concat (map leaves children)"

definition allLeaves :: "(Filter \<Rightarrow> bool) \<Rightarrow> WhereNode option \<Rightarrow> bool" where
  "allLeaves P n = (case n of None \<Rightarrow> True | Some t \<Rightarrow> \<forall>f \<in> set (leaves t). P f)"

lemma dollarFree_sqlOpOf [dollar]: "dollarFree (sqlOpOf op)"
proof -
  have "list_all (\<lambda>(_, s). dollarFree s) validOps" by code_simp
  then show ?thesis
    by (auto simp: sqlOpOf_def list_all_iff dest!: map_of_SomeD split: option.splits)
qed

lemma dollarFree_ftsFunction [dollar]: "dollarFree (ftsFunction op)"
  by (simp add: ftsFunction_def)

lemma numbered_if: "numbered i a \<Longrightarrow> numbered i b \<Longrightarrow> numbered i (if c then a else b)"
  by simp

lemma numbered_keyword:
  "dollarFree s \<Longrightarrow> \<forall>k \<in> K. dollarFree k \<Longrightarrow> numbered i r \<Longrightarrow>
     numbered i (if v \<in> K then (s @ v, [], i) else r)"
  by (simp add: numbered_free)

lemmas numbered_simps =
  numbered_def placeholders_append placeholders_phs placeholders_free isDigit_def

lemma filter_numbered:
  assumes ok: "leafOk f"
  shows "numbered i (buildFilterCondition f i)"
proof -
  define col where "col = columnExpr (flt_Column f)"
  define cfg where "cfg = flt_Config f"
  define fn where "fn = ftsFunction (flt_Operator f)"
  define op where "op = sqlOpOf (flt_Operator f)"
  have d: "dollarFree col" "dollarFree cfg" "dollarFree fn" "dollarFree op"
    using ok by (auto simp: col_def cfg_def fn_def op_def leafOk_def dollar)
  have isKey: "numbered i (if v \<in> {''NULL'', ''TRUE'', ''FALSE'', ''UNKNOWN''} then (col @ '' IS '' @ v, [], i)
      else (col @ '' IS NOT DISTINCT FROM '' @ ph i, [w], i + 1))" for v w
    using numbered_keyword [of "col @ '' IS ''" "{''NULL'', ''TRUE'', ''FALSE'', ''UNKNOWN''}" i
        "(col @ '' IS NOT DISTINCT FROM '' @ ph i, [w], i + 1)" v] d
    by (simp add: numbered_simps)
  have distinctKey: "numbered i (if v \<in> {''NULL'', ''TRUE'', ''FALSE''} then (col @ '' IS DISTINCT FROM '' @ v, [], i)
      else (col @ '' IS DISTINCT FROM '' @ ph i, [w], i + 1))" for v w
    using numbered_keyword [of "col @ '' IS DISTINCT FROM ''" "{''NULL'', ''TRUE'', ''FALSE''}" i
        "(col @ '' IS DISTINCT FROM '' @ ph i, [w], i + 1)" v] d
    by (simp add: numbered_simps)
  show ?thesis
    unfolding buildFilterCondition_def Let_def col_def [symmetric] cfg_def [symmetric] fn_def [symmetric]
      op_def [symmetric]
    apply (rule numbered_if, rule isKey, rule numbered_if, rule distinctKey)
    apply (intro numbered_if)
    using d dollarFree_if by (simp_all add: numbered_simps)
qed

interpretation filter_sql: sql_fragment buildFilterCondition leafOk
  by unfold_locales (rule filter_numbered)

lemma fst_if_ne: "fst a \<noteq> [] \<Longrightarrow> fst b \<noteq> [] \<Longrightarrow> fst (if c then a else b) \<noteq> []"
  by simp

lemma buildFilterCondition_ne: "fst (buildFilterCondition f i) \<noteq> []"
  unfolding buildFilterCondition_def Let_def by (intro fst_if_ne) simp_all

lemma node_numbered:
  "\<forall>f \<in> set (leaves n). leafOk f \<Longrightarrow> numbered i (buildNode n i)"
  "\<forall>c \<in> set cs. \<forall>f \<in> set (leaves c). leafOk f \<Longrightarrow> numberedList i (buildChildren cs i)"
proof (induction n i and cs i rule: buildNode_buildChildren.induct)
  case (1 neg f i)
  then have "numbered i (buildFilterCondition f i)" by (simp add: filter_numbered)
  then show ?case
    by (auto simp: numbered_def placeholders_append placeholders_free isDigit_def split: prod.splits)
next
  case (2 op neg children i)
  obtain parts args j where b: "buildChildren children i = (parts, args, j)"
    by (cases "buildChildren children i") auto
  with 2 have l: "numberedList i (parts, args, j)" by simp
  define sep where "sep = (if op = ''or'' then '' OR '' else '' AND '')"
  have "numbered i (strJoin parts sep, args, j)"
    by (rule numberedList_join [OF l]) (auto simp: sep_def isDigit_def)
  note joined = this
  show ?case
  proof (cases "parts = []")
    case True
    moreover have "args = []" using l True by (auto simp: numberedList_def dest: arg_cong [of _ _ length])
    ultimately show ?thesis using l by (simp add: b numberedList_def numbered_def)
  next
    case False
    then show ?thesis using b joined
      by (simp add: Let_def numbered_simps flip: sep_def)
  qed
next
  case (4 c cs i)
  obtain s a j where b: "buildNode c i = (s, a, j)" by (cases "buildNode c i") auto
  with 4 have n: "numbered i (s, a, j)" by simp
  show ?case
  proof (cases "s = []")
    case True
    with 4 b show ?thesis by simp
  next
    case False
    obtain ss d k where t: "buildChildren cs j = (ss, d, k)" by (cases "buildChildren cs j") auto
    from 4 b False t have "numberedList j (ss, d, k)" by simp
    from numberedList_Cons [OF n this] False b t show ?thesis by simp
  qed
qed simp

lemma BuildSQL_numbered:
  assumes "allLeaves leafOk n"
  shows "numbered i (BuildSQL n i)"
  using assms node_numbered(1)
  by (auto simp: BuildSQL_def allLeaves_def numbered_free split: option.splits)

text \<open>The SQL of a filter tree whose columns and text-search configurations hold no dollar sign
  mentions exactly the placeholders it was asked to start with, consecutively, in order and each
  once, and returns one argument for each of them and the next free number.\<close>

lemma where_sql_numbered:
  assumes "allLeaves leafOk n"
  shows "numbered i (BuildSQL n i)"
  using assms by (rule BuildSQL_numbered)

interpretation where_sql: sql_fragment BuildSQL "allLeaves leafOk"
  by unfold_locales (rule BuildSQL_numbered)


section \<open>The contract of a column validator\<close>

text \<open>
  The parsers take the validator as a parameter, since an RPC call has no table to check against.
  All they rely on is that an accepted column is safe; what they give back is a tree whose leaves
  have safe columns, known operators and an identifier for a configuration.
\<close>

definition parsedLeaf :: "(string \<Rightarrow> bool) \<Rightarrow> Filter \<Rightarrow> bool" where
  "parsedLeaf safe f =
     (safe (flt_Column f) \<and> map_of validOps (flt_Operator f) \<noteq> None \<and>
      (flt_Config f = [] \<or> identRe (flt_Config f)))"

lemma parseFilterValue_Inr:
  "parseFilterValue v = Inr (op, operand, config) \<Longrightarrow>
     map_of validOps op \<noteq> None \<and> (config = [] \<or> identRe config)"
  by (auto simp: parseFilterValue_def Let_def split: option.splits sum.splits prod.splits if_splits)

lemma parseLeafValue_leaf:
  "parseLeafValue col val = Inr n \<Longrightarrow> safe col \<Longrightarrow> f \<in> set (leaves n) \<Longrightarrow> parsedLeaf safe f"
  using parseFilterValue_Inr
  by (fastforce simp: parseLeafValue_def Let_def parsedLeaf_def split: sum.splits)

locale col_validator =
  fixes validate :: ColValidator
    and safe :: "string \<Rightarrow> bool"
  assumes accepts_safe: "validate col = None \<Longrightarrow> safe col"
begin

lemma logic_leaf: "parseLogicLeafWith validate item = Inr n \<Longrightarrow> f \<in> set (leaves n) \<Longrightarrow> parsedLeaf safe f"
  using parseFilterValue_Inr accepts_safe
  by (fastforce simp: parseLogicLeafWith_def Let_def parsedLeaf_def split: sum.splits option.splits)

lemma logic_item: "parseLogicItemWith validate item = Inr n \<Longrightarrow> f \<in> set (leaves n) \<Longrightarrow> parsedLeaf safe f"
proof (induction item arbitrary: n f rule: measure_induct_rule [where f = length])
  case (less item0)
  define item where "item = groupItem item0"
  show ?case
  proof (cases "isGroup item")
    case True
    then obtain parts children where p:
      "splitTopLevel (groupInner item) (CHR '','') = Inr parts"
      "traverse (\<lambda>sub. parseLogicItemWith validate sub) (map trimSpace parts) = Inr children"
      "n = WNode (groupOp item) (groupNegated item0) children"
      using less.prems(1) by (subst (asm) parseLogicItemWith.simps)
        (auto simp: Let_def item_def split: if_splits sum.splits)
    from p(3) less.prems(2) obtain c where c: "c \<in> set children" "f \<in> set (leaves c)" by auto
    from traverse_set [OF p(2) c(1)] obtain sub where
      sub: "sub \<in> set parts" "parseLogicItemWith validate (trimSpace sub) = Inr c" by auto
    have "length (trimSpace sub) < length item0"
      using True p(1) sub(1) unfolding item_def by (rule logic_sub_length)
    from less.IH [OF this sub(2) c(2)] show ?thesis .
  next
    case False
    then have "parseLogicLeafWith validate item = Inr n"
      using less.prems(1) by (subst (asm) parseLogicItemWith.simps) (simp add: Let_def item_def)
    then show ?thesis using less.prems(2) by (rule logic_leaf)
  qed
qed

lemma logic_list:
  assumes "parseLogicListWith op raw validate = Inr n" and "f \<in> set (leaves n)"
  shows "parsedLeaf safe f"
proof -
  from assms(1) obtain items children where t:
    "traverse (parseLogicEntry validate) items = Inr children" "n = WNode op False children"
    by (auto simp: parseLogicListWith_def Let_def split: if_splits sum.splits)
  from t(2) assms(2) obtain c where c: "c \<in> set children" "f \<in> set (leaves c)" by auto
  from traverse_set [OF t(1) c(1)] obtain x where "parseLogicItemWith validate (trimSpace x) = Inr c"
    by (auto simp: parseLogicEntry_def Let_def split: if_splits)
  from logic_item [OF this c(2)] show ?thesis .
qed

lemma where_param:
  assumes p: "whereParam validate skipPrefixes skipKeys entry = Inr ns" and n: "n \<in> set ns"
    and f: "f \<in> set (leaves n)"
  shows "parsedLeaf safe f"
proof -
  obtain key vs where entry: "entry = (key, vs)" by (cases entry)
  consider (logic) v where "parseLogicListWith key v validate = Inr n"
    | (leaf) v where "validate key = None" "parseLeafValue key v = Inr n"
    using p n
    by (auto simp: whereParam_def entry logicParam_def columnParam_def split: if_splits option.splits sum.splits dest: traverse_set)
  then show ?thesis
  proof cases
    case logic
    then show ?thesis using f by (rule logic_list)
  next
    case leaf
    then show ?thesis using f accepts_safe by (auto intro: parseLeafValue_leaf)
  qed
qed

lemma parse_where:
  assumes "ParseWhereWith vals validate skipPrefixes skipKeys = Inr tree"
  shows "allLeaves (parsedLeaf safe) tree"
proof -
  from assms obtain nodes where t: "traverse (whereParam validate skipPrefixes skipKeys) vals = Inr nodes"
    "tree = (if concat nodes = [] then None else Some (WNode ''and'' False (concat nodes)))"
    by (auto simp: ParseWhereWith_def split: sum.splits if_splits)
  have "parsedLeaf safe f" if n: "ns \<in> set nodes" "n \<in> set ns" "f \<in> set (leaves n)" for ns n f
    using traverse_set [OF t(1) n(1)] where_param n(2,3) by blast
  then show ?thesis by (auto simp: allLeaves_def t(2))
qed

end

interpretation table_columns: col_validator "ValidateColumn table"
    "\<lambda>col. \<exists>base. checkIdentPath col = Inr base \<and> GetField table base \<noteq> None" for table
  by unfold_locales (simp add: ValidateColumn_None)

interpretation bare_paths: col_validator ValidateIdentPath "\<lambda>col. \<exists>base. checkIdentPath col = Inr base"
  by unfold_locales (simp add: ValidateIdentPath_def split: sum.splits)

lemma parsedLeaf_ok: "parsedLeaf safe f \<Longrightarrow> (\<And>col. safe col \<Longrightarrow> dollarFree col) \<Longrightarrow> leafOk f"
  by (auto simp: parsedLeaf_def leafOk_def dollar)

lemma allLeaves_mono: "allLeaves P t \<Longrightarrow> (\<And>f. P f \<Longrightarrow> Q f) \<Longrightarrow> allLeaves Q t"
  by (auto simp: allLeaves_def split: option.splits)

definition tableLeaf :: "Table \<Rightarrow> Filter \<Rightarrow> bool" where
  "tableLeaf table = parsedLeaf (\<lambda>col. \<exists>base. checkIdentPath col = Inr base \<and> GetField table base \<noteq> None)"

lemma tableLeaf_ok: "tableLeaf table f \<Longrightarrow> leafOk f"
  unfolding tableLeaf_def by (erule parsedLeaf_ok) (auto dest: checkIdentPath_chars simp: dollar)

lemma ParseWhereSkip_leaves: "ParseWhereSkip vals table skip = Inr tree \<Longrightarrow> allLeaves (tableLeaf table) tree"
  using table_columns.parse_where [where table = table and vals = vals and skipPrefixes = skip]
  by (auto simp: ParseWhereSkip_def tableLeaf_def split: sum.splits option.splits)

text \<open>Every leaf of a filter tree that was parsed from a request against a table is over a column path
  whose base is a declared field and whose JSON keys are alphanumeric, with a known operator and, if
  it has one, an identifier as configuration; so its SQL numbers its placeholders consecutively.\<close>

lemma parsed_filters_safe:
  assumes "ParseWhereSkip vals table skip = Inr tree"
  shows "allLeaves (tableLeaf table) tree \<and> numbered i (BuildSQL tree i)"
proof
  show l: "allLeaves (tableLeaf table) tree" using assms by (rule ParseWhereSkip_leaves)
  show "numbered i (BuildSQL tree i)"
    by (rule where_sql.build_numbered) (rule allLeaves_mono [OF l tableLeaf_ok])
qed

section \<open>Filter values never reach the SQL text\<close>

text \<open>
  All the text can depend on of a value: the keyword of an \<open>is\<close>, the number of elements of a list.
\<close>

definition valueShape :: "string \<Rightarrow> string \<Rightarrow> string \<times> nat" where
  "valueShape op v =
     (if op = ''is'' then
        (let k = toUpper (trimSpace v) in
         (if k \<in> {''NULL'', ''TRUE'', ''FALSE'', ''UNKNOWN''} then k else [], 0))
      else if op = ''isdistinct'' then
        (let k = toUpper v in (if k \<in> {''NULL'', ''TRUE'', ''FALSE''} then k else [], 0))
      else if op = ''in'' then ([], length (inValues v))
      else if op \<in> {''like(all)'', ''like(any)'', ''ilike(all)'', ''ilike(any)''}
      then ([], length (parsePatternList v))
      else ([], 0))"

definition sameFilterShape :: "Filter \<Rightarrow> Filter \<Rightarrow> bool" where
  "sameFilterShape f g =
     (flt_Column f = flt_Column g \<and> flt_Operator f = flt_Operator g \<and> flt_Config f = flt_Config g \<and>
      valueShape (switchOp f) (flt_Value f) = valueShape (switchOp g) (flt_Value g))"

inductive sameShape :: "WhereNode \<Rightarrow> WhereNode \<Rightarrow> bool" where
  leaf: "sameFilterShape f g \<Longrightarrow> sameShape (WLeaf neg f) (WLeaf neg g)"
| node: "list_all2 sameShape cs ds \<Longrightarrow> sameShape (WNode op neg cs) (WNode op neg ds)"

inductive_simps sameShape_simps: "sameShape (WLeaf neg f) t" "sameShape (WNode op neg cs) t"

definition sqlText :: "string \<times> 'v list \<times> nat \<Rightarrow> string \<times> nat" where
  "sqlText r = (fst r, snd (snd r))"

lemma sqlText_if: "sqlText (if c then a else b) = (if c then sqlText a else sqlText b)"
  by simp

lemma filter_text:
  assumes "sameFilterShape f g"
  shows "sqlText (buildFilterCondition f i) = sqlText (buildFilterCondition g i)"
proof -
  have s: "switchOp f = switchOp g" and c: "flt_Column f = flt_Column g" "flt_Operator f = flt_Operator g"
    "flt_Config f = flt_Config g" and v: "valueShape (switchOp g) (flt_Value f) = valueShape (switchOp g) (flt_Value g)"
    using assms by (auto simp: sameFilterShape_def switchOp_def)
  define op where "op = switchOp g"
  consider "op = ''is''" | "op = ''isdistinct''" | "op = ''in''"
    | "op \<in> {''like(all)'', ''like(any)'', ''ilike(all)'', ''ilike(any)''}"
    | "op \<notin> {''is'', ''isdistinct'', ''in'', ''like(all)'', ''like(any)'', ''ilike(all)'', ''ilike(any)''}" by auto
  then show ?thesis
  proof cases
    case 1
    then show ?thesis using v
      by (auto simp: buildFilterCondition_def Let_def s c sqlText_def valueShape_def op_def split: if_splits)
  next
    case 2
    then show ?thesis using v
      by (auto simp: buildFilterCondition_def Let_def s c sqlText_def valueShape_def op_def split: if_splits)
  next
    case 3
    then show ?thesis using v
      by (simp add: buildFilterCondition_def Let_def s c sqlText_def valueShape_def op_def)
  next
    case 4
    then have n: "length (parsePatternList (flt_Value f)) = length (parsePatternList (flt_Value g))"
      using v by (auto simp: valueShape_def op_def)
    from 4 show ?thesis
      unfolding buildFilterCondition_def Let_def s c sqlText_if op_def [symmetric]
      by (intro if_cong refl) (auto simp: sqlText_def n)
  next
    case 5
    then show ?thesis
      unfolding buildFilterCondition_def Let_def s c sqlText_if op_def [symmetric]
      by (intro if_cong refl) (simp_all add: sqlText_def)
  qed
qed


lemma children_text:
  "list_all2 (\<lambda>c d. \<forall>i. sqlText (buildNode c i) = sqlText (buildNode d i)) cs ds \<Longrightarrow>
     fst (buildChildren cs i) = fst (buildChildren ds i) \<and>
     snd (snd (buildChildren cs i)) = snd (snd (buildChildren ds i))"
proof (induction cs ds arbitrary: i rule: list_all2_induct)
  case (Cons c cs d ds)
  obtain s a j where c: "buildNode c i = (s, a, j)" by (cases "buildNode c i") auto
  moreover obtain b where d: "buildNode d i = (s, b, j)"
    using Cons.hyps(1) [rule_format, of i] c by (cases "buildNode d i") (auto simp: sqlText_def)
  ultimately show ?case using Cons.IH [of i] Cons.IH [of j]
    by (cases "buildChildren cs j"; cases "buildChildren ds j") (auto simp: Let_def)
qed simp

text \<open>C33: The SQL text of a filter tree does not depend on the filter values: two trees that differ only
  in values (with the same keyword where an operator takes keywords, and lists of the same length)
  give the same text and the same numbering, so a value can only reach the server as an argument.\<close>

theorem values_never_in_sql:
  assumes "sameShape m n"
  shows "sqlText (buildNode m i) = sqlText (buildNode n i)"
  using assms
proof (induction arbitrary: i rule: sameShape.induct)
  case (leaf f g neg)
  obtain s a j where f: "buildFilterCondition f i = (s, a, j)" by (cases "buildFilterCondition f i") auto
  obtain t b k where g: "buildFilterCondition g i = (t, b, k)" by (cases "buildFilterCondition g i") auto
  from filter_text [OF leaf, of i] show ?case by (simp add: sqlText_def f g)
next
  case (node cs ds op neg)
  then have "list_all2 (\<lambda>c d. \<forall>i. sqlText (buildNode c i) = sqlText (buildNode d i)) cs ds"
    by (auto elim: list_all2_mono)
  from children_text [OF this, of i] show ?case
    by (auto simp: sqlText_def Let_def split: prod.splits)
qed

section \<open>Full-text search\<close>

text \<open>Which leaf may use a text-search operator.\<close>

definition ftsLeafFine :: "Table \<Rightarrow> Filter \<Rightarrow> bool" where
  "ftsLeafFine table f =
     (flt_Operator f \<notin> set ftsOps \<or>
      (let (base, steps) = splitJSONBPath (flt_Column f) in
       if steps \<noteq> [] then st_op (last steps) = ''->>''
       else \<exists>field. GetField table base = Some field \<and> isFTSCompatibleType (fld_Type field)))"

lemma validateFTSNode_leaf: "validateFTSNode table (WLeaf neg f) = None \<longleftrightarrow> ftsLeafFine table f"
proof -
  obtain base steps where s: "splitJSONBPath (flt_Column f) = (base, steps)"
    by (cases "splitJSONBPath (flt_Column f)")
  show ?thesis
  proof (cases "steps = []")
    case True
    then show ?thesis by (auto simp: s ftsLeafFine_def lastJSONBOp_def split: option.splits)
  next
    case False
    then have "last steps \<in> set steps" by simp
    from splitJSONBPath_step [OF s this] show ?thesis using False
      by (auto simp: s ftsLeafFine_def lastJSONBOp_def)
  qed
qed

lemma validateFTSNode_leaves:
  "validateFTSNode table n = None \<longleftrightarrow> (\<forall>f \<in> set (leaves n). ftsLeafFine table f)"
proof (induction n)
  case (WLeaf neg f)
  then show ?case by (simp add: validateFTSNode_leaf del: validateFTSNode.simps)
next
  case (WNode op neg children)
  then show ?case by (auto simp: firstErr_None)
qed

text \<open>A filter tree passes the text-search check exactly when every leaf with a text-search operator is
  over a JSON path that ends in \<open>->>\<close> or over a declared field of a text-like type.\<close>

lemma validateFTSLeaves_exact:
  "validateFTSLeaves table n = None \<longleftrightarrow> allLeaves (ftsLeafFine table) n"
  by (auto simp: validateFTSLeaves_def allLeaves_def validateFTSNode_leaves split: option.splits)

section \<open>Splitting at the top level\<close>

text \<open>The depth after a text that closes no parenthesis it did not open and has no separator at depth 0.\<close>

fun scan :: "char \<Rightarrow> nat \<Rightarrow> string \<Rightarrow> nat option" where
  "scan sep d [] = Some d"
| "scan sep d (c # cs) =
     (if c = CHR ''('' then scan sep (d + 1) cs
      else if c = CHR '')'' then (if d = 0 then None else scan sep (d - 1) cs)
      else if c = sep \<and> d = 0 then None
      else scan sep d cs)"

definition topPart :: "char \<Rightarrow> string \<Rightarrow> bool" where
  "topPart sep p = (scan sep 0 p = Some 0)"

lemma scan_append: "scan sep d (xs @ ys) = (case scan sep d xs of None \<Rightarrow> None | Some e \<Rightarrow> scan sep e ys)"
  by (induction sep d xs rule: scan.induct) auto

lemma splitTopLevelLoop_sound:
  "splitTopLevelLoop sep d part s = Inr ps \<Longrightarrow> scan sep 0 part = Some d \<Longrightarrow>
     ps \<noteq> [] \<and> list_all (topPart sep) ps \<and> strJoin ps [sep] = part @ s"
proof (induction sep d part s arbitrary: ps rule: splitTopLevelLoop.induct)
  case (1 sep d part)
  then show ?case by (auto simp: topPart_def split: if_splits)
next
  case (2 sep d part c cs)
  consider (op) "c = CHR ''(''" | (cl) "c = CHR '')''" | (sep) "c = sep \<and> d = 0" "c \<noteq> CHR ''(''" "c \<noteq> CHR '')''"
    | (other) "c \<noteq> CHR ''(''" "c \<noteq> CHR '')''" "\<not> (c = sep \<and> d = 0)" by blast
  then show ?case
  proof cases
    case sep
    with 2 obtain qs where q: "splitTopLevelLoop sep 0 [] cs = Inr qs" "ps = part # qs"
      by (auto split: sum.splits)
    with 2 sep have "qs \<noteq> [] \<and> list_all (topPart sep) qs \<and> strJoin qs [sep] = cs" by simp
    with q sep 2 show ?thesis by (simp add: topPart_def strJoin_Cons)
  qed (use 2 in \<open>auto simp: scan_append split: if_splits\<close>)
qed

lemma splitTopLevelLoop_scan:
  "scan sep d p = Some e \<Longrightarrow> splitTopLevelLoop sep d part (p @ rest) = splitTopLevelLoop sep e (part @ p) rest"
proof (induction sep d p arbitrary: part rule: scan.induct)
  case (2 sep d c cs)
  then show ?case by (auto split: if_splits)
qed simp

lemma splitTopLevelLoop_complete:
  assumes "list_all (topPart sep) ps" and "ps \<noteq> []" and "sep \<noteq> CHR ''(''" and "sep \<noteq> CHR '')''"
  shows "splitTopLevelLoop sep 0 [] (strJoin ps [sep]) = Inr ps"
  using assms
proof (induction ps)
  case (Cons p qs)
  then have p: "scan sep 0 p = Some 0" by (simp add: topPart_def)
  show ?case
  proof (cases "qs = []")
    case True
    with splitTopLevelLoop_scan [OF p, of "[]" "[]"] show ?thesis by simp
  next
    case False
    with splitTopLevelLoop_scan [OF p, of "[]" "[sep] @ strJoin qs [sep]"] Cons show ?thesis
      by (simp add: strJoin_Cons)
  qed
qed simp

text \<open>Splitting at the top level finds exactly the way to cut a text into parts with balanced
  parentheses and no separator outside them: the split succeeds with the given parts if and only if they are
  such parts and joining them gives the text back; so the split never loses or invents a character.\<close>

lemma splitTopLevel_exact:
  assumes "sep \<noteq> CHR ''(''" and "sep \<noteq> CHR '')''"
  shows "splitTopLevel s sep = Inr ps \<longleftrightarrow> ps \<noteq> [] \<and> list_all (topPart sep) ps \<and> strJoin ps [sep] = s"
  using splitTopLevelLoop_sound [of sep 0 "[]" s ps] splitTopLevelLoop_complete [OF _ _ assms, of ps]
  by (auto simp: splitTopLevel_def)

end
