(* ===== verification/Postgrest_Select.thy ===== *)
theory Postgrest_Select
  imports Where_Laws
begin

text \<open>
  The select list and the order list of a request (\<open>internal/adapter/http/postgrest/select.go\<close>):
  parsing, validation and SQL of a column or aggregate entry, the hints of an embed name, the order
  clauses. The laws: printing an entry and parsing it gives it back, an entry is an aggregate
  exactly when its parse has an aggregate, an accepted entry has safe parts and its SQL has no
  placeholder, and a HAVING condition numbers its placeholders.
\<close>

section \<open>Select entries\<close>

definition ParseSelectItem :: "string \<Rightarrow> SelectItem" where
  "ParseSelectItem s0 =
     (let (alias, s1) = stripAlias s0; (cast, s2) = stripCast s1; (agg, col) = stripAgg aggNames s2
      in \<lparr>si_Alias = alias, si_Col = col, si_Cast = cast, si_Agg = agg\<rparr>)"

definition ValidateSelectItem :: "Table \<Rightarrow> SelectItem \<Rightarrow> pg_error option" where
  "ValidateSelectItem table item =
     (if si_Alias item \<noteq> [] \<and> \<not> identRe (si_Alias item) then Some (Errorf ''invalid alias %q'' [si_Alias item])
      else if si_Cast item \<noteq> [] \<and> \<not> identRe (si_Cast item) then Some (Errorf ''invalid cast %q'' [si_Cast item])
      else if si_Col item = ''*'' then
        (if si_Alias item \<noteq> [] \<or> si_Cast item \<noteq> [] \<or> si_Agg item \<noteq> []
         then Some (Errorf ''cannot alias, cast, or aggregate *'' []) else None)
      else if si_Agg item \<noteq> [] \<and> si_Col item = [] then
        (if si_Agg item \<noteq> ''count'' then Some (Errorf ''aggregate %q requires a column'' [si_Agg item]) else None)
      else ValidateColumn table (si_Col item))"

text \<open>The column of an entry, qualified, with its JSON path.\<close>

definition qualifiedPath :: "string \<Rightarrow> string \<Rightarrow> string" where
  "qualifiedPath tableName col =
     (let (base, steps) = splitJSONBPath col; expr = tableName @ ''.'' @ base
      in if steps \<noteq> [] then expr @ renderJSONBSuffix steps else expr)"

definition castWrap :: "string \<Rightarrow> string \<Rightarrow> string" where
  "castWrap cast expr = (if cast \<noteq> [] then ''('' @ expr @ '')::'' @ cast else expr)"

definition RenderSelectItem :: "string \<Rightarrow> SelectItem \<Rightarrow> string" where
  "RenderSelectItem tableName item =
     (if si_Col item = ''*'' then tableName @ ''.*''
      else let expr0 = (if si_Agg item \<noteq> [] \<and> si_Col item = [] then ''COUNT(*)''
                        else let e = qualifiedPath tableName (si_Col item) in
                             if si_Agg item \<noteq> [] then toUpper (si_Agg item) @ ''('' @ e @ '')'' else e);
               expr = castWrap (si_Cast item) expr0;
               alias = (if si_Alias item = [] \<and> si_Agg item \<noteq> [] then si_Agg item else si_Alias item)
           in if alias \<noteq> [] then expr @ '' AS '' @ alias else expr)"

definition RenderSelectItemGroupByExpr :: "string \<Rightarrow> SelectItem \<Rightarrow> string" where
  "RenderSelectItemGroupByExpr tableName item =
     (if si_Col item = ''*'' \<or> si_Agg item \<noteq> [] then []
      else castWrap (si_Cast item) (qualifiedPath tableName (si_Col item)))"

definition IsAggSelectEntry :: "string \<Rightarrow> bool" where
  "IsAggSelectEntry raw =
     (let s = snd (stripCast (snd (stripAlias raw)))
      in list_ex (\<lambda>agg. s = agg @ ''()'' \<or> hasSuffix s (''.'' @ agg @ ''()'')) aggNames)"

definition CheckStarWithAggregate :: "string list \<Rightarrow> pg_error option" where
  "CheckStarWithAggregate entries =
     (let items = map ParseSelectItem (filter (\<lambda>e. \<not> (strContains e ''('' \<and> \<not> IsAggSelectEntry e)) entries);
          star = list_ex (\<lambda>item. si_Col item = ''*'') items;
          agg = list_ex (\<lambda>item. si_Agg item \<noteq> []) items
      in if star \<and> agg
         then Some (Errorf (''select can'' @ [CHR 0x27] @ ''t combine * with an aggregate; list the columns to group by'') [])
         else None)"

section \<open>Embed names\<close>

definition SplitEmbedAlias :: "string \<Rightarrow> string \<times> string" where
  "SplitEmbedAlias s =
     (case strIndex s '':'' of
        None \<Rightarrow> ([], s)
      | Some i \<Rightarrow> if hasPrefix (drop (i + 1) s) '':'' then ([], s) else (take i s, drop (i + 1) s))"

fun hintParts :: "string list \<Rightarrow> bool \<times> string \<Rightarrow> bool \<times> string" where
  "hintParts [] st = st"
| "hintParts (p # ps) (inner, fkHint) =
     (if p = ''inner'' then hintParts ps (True, fkHint)
      else if p = ''left'' then hintParts ps (inner, fkHint)
      else hintParts ps (inner, p))"

definition ParseEmbedHint :: "string \<Rightarrow> string \<times> bool \<times> string" where
  "ParseEmbedHint raw =
     (let parts = strSplit raw (CHR ''!''); (inner, fkHint) = hintParts (tl parts) (False, [])
      in (hd parts, inner, fkHint))"

section \<open>Order clauses\<close>

text \<open>The set of output names of a select list, as the list of its keys.\<close>

definition CollectSelectAliases :: "string list \<Rightarrow> string list" where
  "CollectSelectAliases selectItems =
     concat (map (\<lambda>s. if strContains s ''('' \<and> \<not> IsAggSelectEntry s then []
                      else let item = ParseSelectItem s in
                           if si_Alias item \<noteq> [] then [si_Alias item]
                           else if si_Agg item \<noteq> [] then [si_Agg item] else []) selectItems)"

text \<open>The loop that strips modifiers from the right.\<close>

function stripModifiers :: "string \<Rightarrow> OrderClause \<Rightarrow> OrderClause" where
  "stripModifiers part oc =
     (if hasSuffix part ''.nullsfirst'' then
        stripModifiers (trimSuffix part ''.nullsfirst'') (oc\<lparr>oc_Nulls := ''first''\<rparr>)
      else if hasSuffix part ''.nullslast'' then
        stripModifiers (trimSuffix part ''.nullslast'') (oc\<lparr>oc_Nulls := ''last''\<rparr>)
      else if hasSuffix part ''.desc'' then
        stripModifiers (trimSuffix part ''.desc'') (oc\<lparr>oc_Desc := True\<rparr>)
      else if hasSuffix part ''.asc'' then stripModifiers (trimSuffix part ''.asc'') oc
      else oc\<lparr>oc_Column := part\<rparr>)"
  by pat_completeness auto
termination
  by (relation "measure (\<lambda>(part, oc). length part)") (auto simp: length_trimSuffix)

declare stripModifiers.simps [simp del]

definition zeroOrder :: OrderClause where
  "zeroOrder = \<lparr>oc_Column = [], oc_Desc = False, oc_Nulls = [], oc_IsAlias = False\<rparr>"

definition parseOrderTerm :: "ColValidator \<Rightarrow> string \<Rightarrow> pg_error + OrderClause" where
  "parseOrderTerm validate part =
     (let oc = stripModifiers (trimSpace part) zeroOrder in
      case validate (oc_Column oc) of Some e \<Rightarrow> Inl e | None \<Rightarrow> Inr oc)"

definition ParseOrderValueWith :: "string \<Rightarrow> ColValidator \<Rightarrow> pg_error + OrderClause list" where
  "ParseOrderValueWith val validate =
     traverse (parseOrderTerm validate) (strSplit val (CHR '',''))"

definition ParseOrderValueWithSelect ::
  "string \<Rightarrow> Table \<Rightarrow> string list \<Rightarrow> pg_error + OrderClause list" where
  "ParseOrderValueWithSelect val table selectItems =
     (let aliases = CollectSelectAliases selectItems;
          validate = (\<lambda>col. if col \<in> set aliases then None else ValidateColumn table col)
      in case ParseOrderValueWith val validate of
           Inl e \<Rightarrow> Inl e
         | Inr clauses \<Rightarrow>
             Inr (map (\<lambda>oc. if oc_Column oc \<in> set aliases then oc\<lparr>oc_IsAlias := True\<rparr> else oc) clauses))"

section \<open>Printing and parsing select entries\<close>

definition print_item :: "SelectItem \<Rightarrow> string" where
  "print_item item =
     (if si_Alias item = [] then [] else si_Alias item @ '':'') @
     (if si_Agg item = [] then si_Col item
      else if si_Col item = [] then si_Agg item @ ''()'' else si_Col item @ ''.'' @ si_Agg item @ ''()'') @
     (if si_Cast item = [] then [] else ''::'' @ si_Cast item)"

definition colText :: "string \<Rightarrow> bool" where
  "colText c = list_all (\<lambda>x. x \<noteq> CHR '':'' \<and> x \<noteq> CHR ''.'' \<and> x \<noteq> CHR ''('' \<and> x \<noteq> CHR '')'') c"

definition wfItem :: "SelectItem \<Rightarrow> bool" where
  "wfItem item =
     (CHR '':'' \<notin> set (si_Alias item) \<and> colText (si_Col item) \<and>
      (si_Agg item = [] \<or> si_Agg item \<in> set aggNames) \<and> (si_Agg item = [] \<longrightarrow> si_Col item \<noteq> []))"

lemma aggNames_nonempty: "[] \<notin> set aggNames"
  by (simp add: aggNames_def)

lemma stripAgg_agg: "fst (stripAgg aggs s) \<noteq> [] \<Longrightarrow> fst (stripAgg aggs s) \<in> set aggs"
  by (induction aggs) (auto simp: Let_def)

lemma stripAgg_iff:
  "[] \<notin> set aggs \<Longrightarrow>
     fst (stripAgg aggs s) \<noteq> [] \<longleftrightarrow> list_ex (\<lambda>agg. s = agg @ ''()'' \<or> hasSuffix s (''.'' @ agg @ ''()'')) aggs"
  by (induction aggs) (auto simp: Let_def)

text \<open>A select entry is treated as an aggregate (and not as an embed) exactly when parsing it as a column
  entry finds one of the five aggregates.\<close>

lemma IsAggSelectEntry_parse:
  "IsAggSelectEntry raw \<longleftrightarrow> si_Agg (ParseSelectItem raw) \<in> set aggNames"
proof -
  let ?s = "snd (stripCast (snd (stripAlias raw)))"
  have "si_Agg (ParseSelectItem raw) = fst (stripAgg aggNames ?s)"
    by (simp add: ParseSelectItem_def split: prod.split)
  then show ?thesis
    using stripAgg_iff [OF aggNames_nonempty, of ?s] stripAgg_agg [of aggNames ?s] aggNames_nonempty
    by (auto simp: IsAggSelectEntry_def Let_def)
qed

lemma colText_last: "colText c \<Longrightarrow> \<not> hasSuffix c (t @ ''()'')"
  by (cases c rule: rev_cases) (auto simp: hasSuffix_rev colText_def)

lemma stripAgg_col: "colText c \<Longrightarrow> stripAgg aggs c = ([], c)"
proof (induction aggs)
  case (Cons agg aggs)
  then have "\<not> hasSuffix c (''.'' @ agg @ ''()'')" using colText_last [of c "''.'' @ agg"] by simp
  moreover have "c \<noteq> agg @ ''()''" using Cons.prems by (auto simp: colText_def)
  ultimately show ?case using Cons by (simp add: Let_def)
qed simp

lemma stripAgg_print:
  assumes "agg \<in> set aggNames" and "colText c"
  shows "stripAgg aggNames (if c = [] then agg @ ''()'' else c @ ''.'' @ agg @ ''()'') = (agg, c)"
proof -
  from assms(1) consider "agg = ''count''" | "agg = ''sum''" | "agg = ''avg''" | "agg = ''min''" | "agg = ''max''"
    by (auto simp: aggNames_def)
  then show ?thesis
    by cases (simp_all add: aggNames_def hasSuffix_rev Let_def)
qed

lemma stripAlias_print:
  assumes "CHR '':'' \<notin> set a" and "t = [] \<or> hd t \<noteq> CHR '':'' \<or> a = []" and "a \<noteq> []"
  shows "stripAlias (a @ CHR '':'' # t) = (a, t)"
  using assms by (cases t) (auto simp: stripAlias_def strIndex_first)

lemma strIndex_cast: "CHR '':'' \<notin> set p \<Longrightarrow> strIndex (p @ CHR '':'' # CHR '':'' # s) ''::'' = Some (length p)"
  by (induction p) auto

lemma strIndex_none: "CHR '':'' \<notin> set p \<Longrightarrow> strIndex p ''::'' = None"
  by (induction p) auto

lemma print_item_body:
  assumes "wfItem item"
  shows "CHR '':'' \<notin> set (print_item (item\<lparr>si_Alias := [], si_Cast := []\<rparr>))"
    and "print_item (item\<lparr>si_Alias := [], si_Cast := []\<rparr>) \<noteq> []"
    and "stripAgg aggNames (print_item (item\<lparr>si_Alias := [], si_Cast := []\<rparr>)) = (si_Agg item, si_Col item)"
proof -
  have a: "si_Agg item \<in> set aggNames \<Longrightarrow> CHR '':'' \<notin> set (si_Agg item)" by (auto simp: aggNames_def)
  show "CHR '':'' \<notin> set (print_item (item\<lparr>si_Alias := [], si_Cast := []\<rparr>))"
    using assms a by (auto simp: wfItem_def print_item_def colText_def list_all_iff)
  show "print_item (item\<lparr>si_Alias := [], si_Cast := []\<rparr>) \<noteq> []"
    using assms by (auto simp: wfItem_def print_item_def)
  show "stripAgg aggNames (print_item (item\<lparr>si_Alias := [], si_Cast := []\<rparr>)) = (si_Agg item, si_Col item)"
    using assms stripAgg_print [of "si_Agg item" "si_Col item"] aggNames_nonempty
    by (auto simp: wfItem_def print_item_def stripAgg_col)
qed

text \<open>Writing a select entry with its alias, aggregate and cast in the URL syntax and parsing it gives the
  entry back.\<close>

lemma select_item_roundtrip:
  assumes "wfItem item"
  shows "ParseSelectItem (print_item item) = item"
proof -
  define body where "body = print_item (item\<lparr>si_Alias := [], si_Cast := []\<rparr>)"
  define cast where "cast = (if si_Cast item = [] then [] else ''::'' @ si_Cast item)"
  note b = print_item_body [OF assms, folded body_def]
  have p: "print_item item = (if si_Alias item = [] then [] else si_Alias item @ '':'') @ body @ cast"
    by (simp add: print_item_def body_def cast_def)
  have al: "stripAlias (print_item item) = (si_Alias item, body @ cast)"
  proof (cases "si_Alias item = []")
    case True
    have "strIndex (body @ ''::'' @ si_Cast item) '':'' = Some (length body)"
      using b(1) strIndex_first [of "CHR '':''" body] by simp
    with True show ?thesis using b(1)
      by (cases "si_Cast item = []") (simp_all add: p cast_def stripAlias_def strIndex_single)
  next
    case False
    have "hd (body @ cast) \<noteq> CHR '':''" using b(1,2) by (cases body) auto
    with False assms show ?thesis by (simp add: p stripAlias_print wfItem_def)
  qed
  have "stripCast (body @ cast) = (si_Cast item, body)"
    using b(1) by (simp add: cast_def stripCast_def strIndex_cast strIndex_none)
  with al b(3) show ?thesis by (simp add: ParseSelectItem_def)
qed

lemma select_item_roundtrip_witness:
  "ParseSelectItem ''total:id.count()::int'' =
     \<lparr>si_Alias = ''total'', si_Col = ''id'', si_Cast = ''int'', si_Agg = ''count''\<rparr>"
proof -
  let ?i = "\<lparr>si_Alias = ''total'', si_Col = ''id'', si_Cast = ''int'', si_Agg = ''count''\<rparr>"
  have "wfItem ?i" by code_simp
  moreover have "print_item ?i = ''total:id.count()::int''" by code_simp
  ultimately show ?thesis using select_item_roundtrip [of ?i] by simp
qed

section \<open>Accepted entries are safe to render\<close>

lemma qualifiedPath_columnExpr: "qualifiedPath tableName col = tableName @ ''.'' @ columnExpr col"
  using splitJSONBPath_text [of col]
  by (auto simp: qualifiedPath_def columnExpr_def Let_def split: prod.split)

lemma dollarFree_aggName [dollar]: "agg \<in> set aggNames \<Longrightarrow> dollarFree agg \<and> dollarFree (toUpper agg)"
  by (auto simp: aggNames_def asciiUpper_def)

text \<open>
  What a validated entry may hold. A cast with parentheses in it is not one; a column is a path over the
  table's fields.
\<close>

definition safeItem :: "Table \<Rightarrow> SelectItem \<Rightarrow> bool" where
  "safeItem table item =
     ((si_Alias item = [] \<or> identRe (si_Alias item)) \<and> (si_Cast item = [] \<or> identRe (si_Cast item)) \<and>
      (si_Agg item = [] \<or> si_Agg item \<in> set aggNames) \<and>
      (si_Col item = ''*'' \<or> si_Col item = [] \<and> si_Agg item = ''count'' \<or>
       ValidateColumn table (si_Col item) = None))"

lemma parsed_agg: "si_Agg (ParseSelectItem s) = [] \<or> si_Agg (ParseSelectItem s) \<in> set aggNames"
  using stripAgg_agg [of aggNames]
  by (auto simp: ParseSelectItem_def split: prod.splits) (metis fst_conv)

lemma ValidateSelectItem_safe:
  "ValidateSelectItem table (ParseSelectItem s) = None \<Longrightarrow> safeItem table (ParseSelectItem s)"
  using parsed_agg [of s] by (auto simp: ValidateSelectItem_def safeItem_def split: if_splits)

lemma dollarFree_qualified:
  "ValidateColumn table col = None \<Longrightarrow> dollarFree t \<Longrightarrow> dollarFree (qualifiedPath t col)"
  by (auto simp: qualifiedPath_columnExpr dollar dest: ValidateColumn_path)

lemma dollarFree_castWrap: "cast = [] \<or> identRe cast \<Longrightarrow> dollarFree e \<Longrightarrow> dollarFree (castWrap cast e)"
  by (auto simp: castWrap_def dollar)

lemma safeItem_render:
  assumes s: "safeItem table item" and t: "dollarFree t"
  shows "dollarFree (RenderSelectItem t item)"
proof (cases "si_Col item = ''*''")
  case True
  then show ?thesis using t by (simp add: RenderSelectItem_def)
next
  case False
  define expr0 where "expr0 = (if si_Agg item \<noteq> [] \<and> si_Col item = [] then ''COUNT(*)''
                        else let e = qualifiedPath t (si_Col item) in
                             if si_Agg item \<noteq> [] then toUpper (si_Agg item) @ ''('' @ e @ '')'' else e)"
  have agg: "dollarFree (si_Agg item)" "dollarFree (toUpper (si_Agg item))"
    using s dollarFree_aggName [of "si_Agg item"] by (cases "si_Agg item = []"; simp add: safeItem_def)+
  have col: "si_Col item = [] \<and> si_Agg item = ''count'' \<or> ValidateColumn table (si_Col item) = None"
    and al: "dollarFree (si_Alias item)" and cast: "si_Cast item = [] \<or> identRe (si_Cast item)"
    using s False by (auto simp: safeItem_def dollarFree_ident)
  from col agg t have "dollarFree expr0"
    by (auto simp: expr0_def Let_def dollarFree_qualified)
  then have "dollarFree (castWrap (si_Cast item) expr0)" using cast by (intro dollarFree_castWrap)
  moreover have "RenderSelectItem t item =
      (let alias = (if si_Alias item = [] \<and> si_Agg item \<noteq> [] then si_Agg item else si_Alias item)
       in if alias \<noteq> [] then castWrap (si_Cast item) expr0 @ '' AS '' @ alias else castWrap (si_Cast item) expr0)"
    using False by (simp add: RenderSelectItem_def expr0_def Let_def)
  ultimately show ?thesis using agg al by (simp add: Let_def)
qed

lemma safeItem_groupBy:
  assumes "safeItem table item" and "dollarFree t"
  shows "dollarFree (RenderSelectItemGroupByExpr t item)"
  using assms dollarFree_castWrap dollarFree_qualified
  by (auto simp: RenderSelectItemGroupByExpr_def safeItem_def)

section \<open>Order lists\<close>

text \<open>What a client writes for an order clause.\<close>

definition print_order :: "OrderClause \<Rightarrow> string" where
  "print_order oc =
     oc_Column oc @ (if oc_Desc oc then ''.desc'' else []) @
     (if oc_Nulls oc = ''first'' then ''.nullsfirst'' else if oc_Nulls oc = ''last'' then ''.nullslast'' else [])"

definition wfOrder :: "OrderClause \<Rightarrow> bool" where
  "wfOrder oc =
     (oc_Column oc \<noteq> [] \<and> list_all (\<lambda>c. pathChar c \<or> c = CHR ''.'') (oc_Column oc) \<and>
      \<not> list_ex (hasSuffix (oc_Column oc)) [''.nullsfirst'', ''.nullslast'', ''.desc'', ''.asc''] \<and>
      oc_Nulls oc \<in> {[], ''first'', ''last''} \<and> \<not> oc_IsAlias oc)"

lemma stripModifiers_stop:
  "\<not> list_ex (hasSuffix part) [''.nullsfirst'', ''.nullslast'', ''.desc'', ''.asc''] \<Longrightarrow>
     stripModifiers part oc = oc\<lparr>oc_Column := part\<rparr>"
  by (subst stripModifiers.simps) simp

lemma stripModifiers_nullsfirst:
  "stripModifiers (part @ ''.nullsfirst'') oc = stripModifiers part (oc\<lparr>oc_Nulls := ''first''\<rparr>)"
  by (subst stripModifiers.simps) (simp del: append.simps)

lemma stripModifiers_nullslast:
  "stripModifiers (part @ ''.nullslast'') oc = stripModifiers part (oc\<lparr>oc_Nulls := ''last''\<rparr>)"
  by (subst stripModifiers.simps) (simp add: trimSuffix_def hasSuffix_rev)

lemma stripModifiers_desc:
  "stripModifiers (part @ ''.desc'') oc = stripModifiers part (oc\<lparr>oc_Desc := True\<rparr>)"
  by (subst stripModifiers.simps) (simp add: trimSuffix_def hasSuffix_rev)

lemmas stripModifiers_step = stripModifiers_nullsfirst stripModifiers_nullslast stripModifiers_desc

lemma stripModifiers_print: "wfOrder oc \<Longrightarrow> stripModifiers (print_order oc) zeroOrder = oc"
proof -
  assume w: "wfOrder oc"
  then have stop: "stripModifiers (oc_Column oc) c = c\<lparr>oc_Column := oc_Column oc\<rparr>" for c
    by (intro stripModifiers_stop) (simp add: wfOrder_def)
  have "stripModifiers (print_order oc) zeroOrder =
      stripModifiers (oc_Column oc) (zeroOrder\<lparr>oc_Nulls := oc_Nulls oc, oc_Desc := oc_Desc oc\<rparr>)"
    using w stripModifiers_step [of "oc_Column oc"] stripModifiers_step [of "oc_Column oc @ ''.desc''"]
    by (auto simp: print_order_def wfOrder_def zeroOrder_def)
  then show ?thesis using w by (simp add: stop zeroOrder_def wfOrder_def)
qed

lemma print_order_chars:
  "wfOrder oc \<Longrightarrow> print_order oc \<noteq> [] \<and> list_all (\<lambda>c. pathChar c \<or> c = CHR ''.'') (print_order oc)"
  by (auto simp: wfOrder_def print_order_def pathChar_def isWord_def isAlpha_def)

lemma print_order_trim: "wfOrder oc \<Longrightarrow> trimSpace (print_order oc) = print_order oc"
proof (rule trimSpace_graphic)
  assume "wfOrder oc"
  note p = print_order_chars [OF this]
  have g: "pathChar c \<or> c = CHR ''.'' \<Longrightarrow> graphic c" for c
    using isWord_graphic [of c] by (auto simp: pathChar_def graphic_def)
  from p have "hd (print_order oc) \<in> set (print_order oc)" "last (print_order oc) \<in> set (print_order oc)" by simp_all
  with p g show "print_order oc = [] \<or> graphic (hd (print_order oc)) \<and> graphic (last (print_order oc))"
    by (auto simp: list_all_iff)
qed

text \<open>Writing a list of order clauses in the URL syntax and parsing it gives the clauses back, for every
  validator that accepts their columns.\<close>

lemma order_roundtrip:
  assumes "list_all wfOrder ocs" and "ocs \<noteq> []" and "\<forall>oc \<in> set ocs. validate (oc_Column oc) = None"
  shows "ParseOrderValueWith (strJoin (map print_order ocs) '','') validate = Inr ocs"
proof -
  have "\<forall>p \<in> set (map print_order ocs). CHR '','' \<notin> set p"
    using assms(1) print_order_chars by (fastforce simp: list_all_iff pathChar_def)
  then have "strSplit (strJoin (map print_order ocs) '','') (CHR '','') = map print_order ocs"
    using assms(2) by (intro strSplit_strJoin) auto
  then show ?thesis using assms(1,3)
    by (auto simp: ParseOrderValueWith_def parseOrderTerm_def list_all_iff print_order_trim stripModifiers_print intro!: traverse_map)
qed

lemma order_roundtrip_witness:
  "ParseOrderValueWith ''age.desc.nullslast,data->>k'' ValidateIdentPath =
     Inr [\<lparr>oc_Column = ''age'', oc_Desc = True, oc_Nulls = ''last'', oc_IsAlias = False\<rparr>,
          \<lparr>oc_Column = ''data->>k'', oc_Desc = False, oc_Nulls = [], oc_IsAlias = False\<rparr>]"
proof -
  let ?ocs = "[\<lparr>oc_Column = ''age'', oc_Desc = True, oc_Nulls = ''last'', oc_IsAlias = False\<rparr>,
          \<lparr>oc_Column = ''data->>k'', oc_Desc = False, oc_Nulls = [], oc_IsAlias = False\<rparr>]"
  have "list_all wfOrder ?ocs" by code_simp
  moreover have "\<forall>oc \<in> set ?ocs. ValidateIdentPath (oc_Column oc) = None" by code_simp
  moreover have "strJoin (map print_order ?ocs) '','' = ''age.desc.nullslast,data->>k''" by code_simp
  ultimately show ?thesis using order_roundtrip [of ?ocs ValidateIdentPath] by simp
qed

text \<open>Every clause that a table request yields is over a column of the table or over an output name.\<close>

lemma ParseOrderValueWith_valid:
  "ParseOrderValueWith val validate = Inr ocs \<Longrightarrow> oc \<in> set ocs \<Longrightarrow> validate (oc_Column oc) = None"
  by (auto simp: ParseOrderValueWith_def parseOrderTerm_def Let_def dest!: traverse_set split: option.splits)

lemma stripModifiers_alias: "oc_IsAlias (stripModifiers part oc) = oc_IsAlias oc"
  by (induction part oc rule: stripModifiers.induct) (subst stripModifiers.simps, simp)

lemma ParseOrderValueWith_alias: "ParseOrderValueWith val validate = Inr ocs \<Longrightarrow> oc \<in> set ocs \<Longrightarrow> \<not> oc_IsAlias oc"
  by (auto simp: ParseOrderValueWith_def parseOrderTerm_def Let_def stripModifiers_alias zeroOrder_def dest!: traverse_set
      split: option.splits)

lemma order_select_valid:
  assumes "ParseOrderValueWithSelect val table selectItems = Inr ocs" and "oc \<in> set ocs"
  shows "(oc_IsAlias oc \<longleftrightarrow> oc_Column oc \<in> set (CollectSelectAliases selectItems)) \<and>
    (oc_IsAlias oc \<or> ValidateColumn table (oc_Column oc) = None)"
proof -
  define al where "al = set (CollectSelectAliases selectItems)"
  from assms obtain cs c where cs: "ParseOrderValueWith val
      (\<lambda>col. if col \<in> al then None else ValidateColumn table col) = Inr cs" and "c \<in> set cs"
    and oc: "oc = (if oc_Column c \<in> al then c\<lparr>oc_IsAlias := True\<rparr> else c)"
    by (auto simp: ParseOrderValueWithSelect_def Let_def al_def split: sum.splits)
  with ParseOrderValueWith_valid [OF cs \<open>c \<in> set cs\<close>] ParseOrderValueWith_alias [OF cs \<open>c \<in> set cs\<close>]
  show ?thesis by (auto simp: al_def split: if_splits)
qed

text \<open>An order clause accepted for a table and a select list is marked as an output name exactly when its
  column is one of the names the select list gives out; every other clause is over a valid column path of
  the table.\<close>

lemma order_with_select_resolved:
  assumes "ParseOrderValueWithSelect val table selectItems = Inr ocs"
  shows "\<forall>oc \<in> set ocs. (oc_IsAlias oc \<longleftrightarrow> oc_Column oc \<in> set (CollectSelectAliases selectItems)) \<and>
    (oc_IsAlias oc \<or> (\<exists>base. checkIdentPath (oc_Column oc) = Inr base \<and> GetField table base \<noteq> None))"
  using order_select_valid [OF assms] unfolding ValidateColumn_None by blast

section \<open>HAVING\<close>

lemma stripAlias_chars: "stripAlias s = (a, t) \<Longrightarrow> set a \<subseteq> set s \<and> set t \<subseteq> set s"
  by (auto simp: stripAlias_def split: option.splits if_splits dest: in_set_takeD in_set_dropD)

lemma stripCast_chars: "stripCast s = (a, t) \<Longrightarrow> set a \<subseteq> set s \<and> set t \<subseteq> set s"
  by (auto simp: stripCast_def split: option.splits if_splits dest: in_set_takeD in_set_dropD)

lemma stripAgg_chars: "stripAgg aggs s = (a, t) \<Longrightarrow> set t \<subseteq> set s"
  by (induction aggs) (auto simp: Let_def split: if_splits dest: in_set_takeD)

lemma ParseSelectItem_internal: "parseSelectItemInternal s = ParseSelectItem s"
  by (simp add: parseSelectItemInternal_def ParseSelectItem_def)

lemma ParseSelectItem_chars:
  "set (si_Alias (ParseSelectItem s)) \<subseteq> set s" "set (si_Cast (ParseSelectItem s)) \<subseteq> set s"
  "set (si_Col (ParseSelectItem s)) \<subseteq> set s"
proof -
  obtain a s1 where 1: "stripAlias s = (a, s1)" by (cases "stripAlias s")
  obtain c s2 where 2: "stripCast s1 = (c, s2)" by (cases "stripCast s1")
  obtain g col where 3: "stripAgg aggNames s2 = (g, col)" by (cases "stripAgg aggNames s2")
  note chars = stripAlias_chars [OF 1] stripCast_chars [OF 2] stripAgg_chars [OF 3]
  show "set (si_Alias (ParseSelectItem s)) \<subseteq> set s" "set (si_Cast (ParseSelectItem s)) \<subseteq> set s"
    "set (si_Col (ParseSelectItem s)) \<subseteq> set s"
    using chars by (auto simp: ParseSelectItem_def 1 2 3)
qed

lemma dollarFree_aggExpr:
  assumes s: "safeItem table item" and t: "dollarFree tableName"
  shows "dollarFree (aggExpr tableName item)"
proof -
  have col: "dollarFree (columnExpr (si_Col item))" and cast: "dollarFree (si_Cast item)"
    using s by (auto simp: safeItem_def dollarFree_ident intro!: dollarFree_columnExpr dest: ValidateColumn_path dollarFree_path)
  have agg: "dollarFree (toUpper (si_Agg item))"
    using s dollarFree_aggName [of "si_Agg item"] by (cases "si_Agg item = []") (auto simp: safeItem_def simp del: toUpper.simps(2))
  have "aggExpr tableName item =
      castWrap (si_Cast item) (if si_Agg item \<noteq> [] \<and> si_Col item = [] then ''COUNT(*)''
        else toUpper (si_Agg item) @ ''('' @ qualifiedPath tableName (si_Col item) @ '')'')"
    by (auto simp: aggExpr_def castWrap_def qualifiedPath_def Let_def split: prod.split)
  then show ?thesis using col cast agg t by (simp add: qualifiedPath_columnExpr castWrap_def)
qed

definition aggSafe :: "Table \<Rightarrow> string list \<Rightarrow> bool" where
  "aggSafe table sel = list_all (\<lambda>s. IsAggSelectEntry s \<longrightarrow> safeItem table (ParseSelectItem s)) sel"

lemma isAgg_internal: "isAggSelectEntryInternal s = IsAggSelectEntry s"
  by (simp add: isAggSelectEntryInternal_def IsAggSelectEntry_def)

definition aggFree :: "string \<Rightarrow> string list \<Rightarrow> bool" where
  "aggFree tableName sel = list_all (\<lambda>s. IsAggSelectEntry s \<longrightarrow> dollarFree (aggExpr tableName (ParseSelectItem s))) sel"

lemma aggSafe_free: "aggSafe table sel \<Longrightarrow> dollarFree tableName \<Longrightarrow> aggFree tableName sel"
  using dollarFree_aggExpr by (auto simp: aggSafe_def aggFree_def list_all_iff)

lemma aggAliasExprs_free:
  assumes "aggFree tableName sel" and "map_of (aggAliasExprs tableName sel) k = Some e"
  shows "dollarFree e"
proof -
  define step where "step s m = (if \<not> isAggSelectEntryInternal s then m
                 else let item = parseSelectItemInternal s in
                      if aggAlias item = [] then m
                      else AList.update (aggAlias item) (aggExpr tableName item) m)" for s m
  have "map_of (fold step sel m) k = Some e \<Longrightarrow> (\<forall>k e. map_of m k = Some e \<longrightarrow> dollarFree e) \<Longrightarrow> dollarFree e" for m
    using assms(1)
  proof (induction sel arbitrary: m)
    case (Cons s sel)
    have "\<forall>k e. map_of (step s m) k = Some e \<longrightarrow> dollarFree e"
      using Cons.prems(2,3)
      by (auto simp: step_def Let_def update_conv' ParseSelectItem_internal isAgg_internal aggFree_def split: if_splits)
    with Cons show ?case by (auto simp: aggFree_def)
  qed auto
  then show ?thesis using assms(2) by (simp add: aggAliasExprs_def step_def [abs_def])
qed

lemma having_free:
  assumes p: "ParseHavingParam raw tableName table sel = Inr tree"
    and t: "dollarFree tableName" and s: "aggFree tableName sel"
  shows "allLeaves leafOk tree"
proof -
  define exprs where "exprs = aggAliasExprs tableName sel"
  have col: "dollarFree (havingColumn exprs tableName c)" if "havingValidator exprs table c = None" for c
  proof (cases "map_of exprs c")
    case None
    then have "ValidateColumn table c = None" using that by (simp add: havingValidator_def split: if_splits)
    then show ?thesis using None t by (simp add: havingColumn_def dollarFree_path ValidateColumn_path)
  next
    case (Some e)
    then show ?thesis using aggAliasExprs_free [OF s] by (auto simp: havingColumn_def exprs_def)
  qed
  have leaf: "\<exists>neg f. n = WLeaf neg f \<and> leafOk f"
    if leaf: "parseLogicLeafWith (havingValidator exprs table) item = Inr m"
      and n: "n = rewriteHavingLeaf exprs tableName m" for item m n
  proof -
    have "\<exists>neg f. m = WLeaf neg f \<and> havingValidator exprs table (flt_Column f) = None \<and>
        (flt_Config f = [] \<or> identRe (flt_Config f))"
      using leaf parseFilterValue_Inr
      by (fastforce simp: parseLogicLeafWith_def Let_def split: sum.splits option.splits)
    then show ?thesis using n col by (auto simp: leafOk_def dollarFree_ident)
  qed
  from p obtain items children where c: "traverse (havingItem exprs tableName table) items = Inr children"
    and tree: "tree = (if children = [] then None else Some (WNode ''and'' False children))"
    unfolding ParseHavingParam_def Let_def exprs_def [symmetric] by (auto split: sum.splits if_splits)
  have "\<forall>f \<in> set (leaves n). leafOk f" if "n \<in> set children" for n
    using traverse_set [OF c that] leaf by (fastforce simp: havingItem_def split: sum.splits)
  then show "allLeaves leafOk tree" by (simp add: allLeaves_def tree)
qed

lemma having_safe:
  "ParseHavingParam raw tableName table sel = Inr tree \<Longrightarrow> dollarFree tableName \<Longrightarrow> aggSafe table sel \<Longrightarrow> allLeaves leafOk tree"
  using having_free aggSafe_free by blast

text \<open>A HAVING condition accepted for a table and a select list whose aggregates were validated numbers its
  placeholders consecutively from the number it is given, one argument each.\<close>

lemma having_numbered:
  assumes "ParseHavingParam raw tableName table sel = Inr tree"
    and "dollarFree tableName" and "aggSafe table sel"
  shows "numbered i (BuildSQL tree i)"
  by (rule where_sql.build_numbered) (rule having_safe [OF assms])

end
