(* ===== verification/Postgrest_Embed.thy ===== *)
theory Postgrest_Embed
  imports Postgrest_Select "HOL-Library.Product_Lexorder"
begin

text \<open>
  Embedding (\<open>types.go\<close>, \<open>params.go\<close> and the first half of \<open>builders.go\<close>): splitting the select list,
  parsing an embed entry, finding the foreign-key relationship it names (belongs-to, has-many,
  many-to-many through a junction table), the error for an ambiguous name, and the routing of embed-scoped
  request parameters. The laws: an embed resolves exactly when one relationship matches, every
  resolved embed is backed by a declared foreign key, an ambiguous name lists every candidate once
  in PostgREST's order, and scoped parameters keep the embeds safe to render.
\<close>

section \<open>Data\<close>

record Junction =
  jn_Table :: string
  jn_SourceColumn :: string
  jn_SourceRef :: string
  jn_TargetColumn :: string
  jn_TargetRef :: string

text \<open>The fields of the struct \<open>Embed\<close>, \<open>Children\<close> apart.\<close>

record EmbedInfo =
  em_Name :: string
  em_Alias :: string
  em_Columns :: "string list"
  em_FKColumn :: string
  em_RefTable :: string
  em_RefColumn :: string
  em_IsReverse :: bool
  em_Inner :: bool
  em_Spread :: bool
  em_Junction :: "Junction option"
  em_Where :: "WhereNode option"
  em_Order :: "OrderClause list"
  em_Limit :: "int option"
  em_Offset :: "int option"

datatype Embed = Embed (em_info: EmbedInfo) (em_Children: "Embed list")

definition zeroEmbed :: EmbedInfo where
  "zeroEmbed = \<lparr>em_Name = [], em_Alias = [], em_Columns = [], em_FKColumn = [], em_RefTable = [],
     em_RefColumn = [], em_IsReverse = False, em_Inner = False, em_Spread = False, em_Junction = None,
     em_Where = None, em_Order = [], em_Limit = None, em_Offset = None\<rparr>"

definition OutputKey :: "EmbedInfo \<Rightarrow> string" where
  "OutputKey e = (if em_Alias e \<noteq> [] then em_Alias e else em_Name e)"

section \<open>Select list and embed entry\<close>

fun selectLoop :: "int \<Rightarrow> string \<Rightarrow> string \<Rightarrow> string list" where
  "selectLoop depth part [] = (if part = [] then [] else [trimSpace part])"
| "selectLoop depth part (ch # rest) =
     (if ch = CHR ''('' then selectLoop (depth + 1) (part @ [ch]) rest
      else if ch = CHR '')'' then selectLoop (depth - 1) (part @ [ch]) rest
      else if ch = CHR '','' \<and> depth = 0 then trimSpace part # selectLoop depth [] rest
      else selectLoop depth (part @ [ch]) rest)"

definition ParseSelectParam :: "string \<Rightarrow> string list" where
  "ParseSelectParam sel = selectLoop 0 [] sel"

definition isEmbedEntry :: "string \<Rightarrow> bool" where
  "isEmbedEntry s = (strContains s ''('' \<and> \<not> IsAggSelectEntry s)"

definition spreadName :: "string \<Rightarrow> bool \<times> string" where
  "spreadName name = (if hasPrefix name ''...'' then (True, drop 3 name) else (False, name))"

text \<open>Name, alias, columns, nested entries, spread. The text after the first parenthesis loses its last
  character; \<open>validateEmbedBalance\<close> makes sure there is one.\<close>

definition ParseEmbedParam :: "string \<Rightarrow> string \<times> string \<times> string list \<times> string list \<times> bool" where
  "ParseEmbedParam s =
     (case strIndex s ''('' of
        None \<Rightarrow> (let (spread, n) = spreadName s; (alias, name) = SplitEmbedAlias n in (name, alias, [], [], spread))
      | Some idx \<Rightarrow>
          let (spread, n) = spreadName (take idx s); (alias, name) = SplitEmbedAlias n;
              inner = butlast (drop (idx + 1) s)
          in if inner = ''*'' \<or> inner = [] then (name, alias, [], [], spread)
             else case splitTopLevel inner (CHR '','') of
                    Inl e \<Rightarrow> (name, alias, [inner], [], spread)
                  | Inr items \<Rightarrow>
                      let kept = filter (\<lambda>item. item \<noteq> [] \<and> item \<noteq> ''*'') (map trimSpace items)
                      in (name, alias, filter (\<lambda>item. \<not> strContains item ''('') kept,
                          filter (\<lambda>item. strContains item ''('') kept, spread))"

definition validateEmbedBalance :: "string \<Rightarrow> pg_error option" where
  "validateEmbedBalance raw =
     (if strContains raw ''('' \<and> \<not> hasSuffix raw '')'' then
        Some (Errorf ''unbalanced parentheses in embed %q'' [raw])
      else case splitTopLevel raw (CHR '','') of
             Inl e \<Rightarrow> Some (Errorw ''embed %q: %w'' [raw] e) | Inr _ \<Rightarrow> None)"

definition validateEmbedSpec :: "string \<Rightarrow> string \<Rightarrow> string list \<Rightarrow> Table \<Rightarrow> pg_error option" where
  "validateEmbedSpec raw alias cols ref =
     (if alias \<noteq> [] \<and> \<not> identRe alias then Some (Errorf ''invalid embed alias %q'' [alias])
      else firstErr (\<lambda>c. if GetField ref c = None then Some (Errorf ''unknown column %q in embed'' [c]) else None) cols)"

section \<open>Relationships\<close>

record relCandidate =
  rc_emb :: EmbedInfo
  rc_cardinality :: string
  rc_relationship :: string
  rc_constraint :: string

definition matchesFKHint :: "string \<Rightarrow> string \<Rightarrow> string \<Rightarrow> string \<Rightarrow> bool" where
  "matchesFKHint hint table col refCol =
     (hint = col \<or> hint = refCol \<or> trimSuffix col ''_id'' = hint \<or> hint = FKConstraintName table col)"

definition fkTarget :: "string \<Rightarrow> Table gmap \<Rightarrow> (string \<times> string) option" where
  "fkTarget ref allTables =
     (case ParseFKReference ref of
        Inl _ \<Rightarrow> None
      | Inr (schema, table, col) \<Rightarrow>
          (case map_of allTables table of
             Some t \<Rightarrow> if EffectiveSchema t = schema then Some (table, col) else None
           | None \<Rightarrow> if schema = ''public'' then Some (table, col) else None))"

definition isOneToOne :: "Table \<Rightarrow> Field \<Rightarrow> bool" where
  "isOneToOne t f = (fld_Unique f \<or> (fld_PrimaryKey f \<and> length (PrimaryKeyColumns t) = 1))"

text \<open>The \<open>%s using %s(%s) and %s(%s)\<close> of the three loops.\<close>

definition relText :: "string \<Rightarrow> string \<Rightarrow> string \<Rightarrow> string \<Rightarrow> string \<Rightarrow> string" where
  "relText name t c u d = name @ '' using '' @ t @ ''('' @ c @ '') and '' @ u @ ''('' @ d @ '')''"

definition belongsToRels ::
  "string \<Rightarrow> Table \<Rightarrow> string \<Rightarrow> string \<Rightarrow> Table gmap \<Rightarrow> relCandidate list" where
  "belongsToRels tableName table name fkHint allTables =
     concat (map (\<lambda>field.
       case fld_ForeignKey field of
         None \<Rightarrow> []
       | Some fk \<Rightarrow>
           (case fkTarget (fk_References fk) allTables of
              None \<Rightarrow> []
            | Some (refTable, refCol) \<Rightarrow>
                if (if fkHint \<noteq> [] then \<not> matchesFKHint fkHint tableName (fld_Name field) refCol \<or> refTable \<noteq> name
                    else refTable \<noteq> name \<and> trimSuffix (fld_Name field) ''_id'' \<noteq> name)
                then []
                else let cons = FKConstraintName tableName (fld_Name field) in
                     [\<lparr>rc_emb = zeroEmbed\<lparr>em_FKColumn := fld_Name field, em_RefTable := refTable, em_RefColumn := refCol\<rparr>,
                       rc_cardinality = (if isOneToOne table field then ''one-to-one'' else ''many-to-one''),
                       rc_relationship = relText cons tableName (fld_Name field) refTable refCol,
                       rc_constraint = cons\<rparr>])) (tbl_Fields table))"

definition hasManyRels :: "string \<Rightarrow> string \<Rightarrow> string \<Rightarrow> Table gmap \<Rightarrow> relCandidate list" where
  "hasManyRels tableName name fkHint allTables =
     (case map_of allTables name of
        None \<Rightarrow> []
      | Some other \<Rightarrow>
          if name = tableName then []
          else concat (map (\<lambda>field.
            case fld_ForeignKey field of
              None \<Rightarrow> []
            | Some fk \<Rightarrow>
                (case fkTarget (fk_References fk) allTables of
                   None \<Rightarrow> []
                 | Some (refTable, refCol) \<Rightarrow>
                     if refTable \<noteq> tableName then []
                     else if fkHint \<noteq> [] \<and> \<not> matchesFKHint fkHint name (fld_Name field) refCol then []
                     else let cons = FKConstraintName name (fld_Name field) in
                          [\<lparr>rc_emb = zeroEmbed\<lparr>em_FKColumn := fld_Name field, em_RefTable := name,
                               em_RefColumn := refCol, em_IsReverse := True\<rparr>,
                            rc_cardinality = (if isOneToOne other field then ''one-to-one'' else ''one-to-many''),
                            rc_relationship = relText cons tableName refCol name (fld_Name field),
                            rc_constraint = cons\<rparr>])) (tbl_Fields other)))"

definition junctionLeg :: "Field \<Rightarrow> Table gmap \<Rightarrow> (string \<times> string) option" where
  "junctionLeg f allTables =
     (case fld_ForeignKey f of
        None \<Rightarrow> None
      | Some fk \<Rightarrow> if \<not> fld_PrimaryKey f \<or> fld_Unique f then None else fkTarget (fk_References fk) allTables)"

definition junctionPairs :: "string \<Rightarrow> string \<Rightarrow> string \<Rightarrow> Field list \<Rightarrow> Table gmap \<Rightarrow> relCandidate list" where
  "junctionPairs tableName name jt fs allTables =
     concat (map (\<lambda>src.
       case junctionLeg src allTables of
         None \<Rightarrow> []
       | Some (srcTable, srcRef) \<Rightarrow>
           if srcTable \<noteq> tableName then []
           else concat (map (\<lambda>tgt.
             case junctionLeg tgt allTables of
               None \<Rightarrow> []
             | Some (tgtTable, tgtRef) \<Rightarrow>
                 if fld_Name tgt = fld_Name src \<or> tgtTable \<noteq> name then []
                 else [\<lparr>rc_emb = zeroEmbed\<lparr>em_RefTable := name, em_IsReverse := True,
                          em_Junction := Some \<lparr>jn_Table = jt, jn_SourceColumn = fld_Name src, jn_SourceRef = srcRef,
                             jn_TargetColumn = fld_Name tgt, jn_TargetRef = tgtRef\<rparr>\<rparr>,
                       rc_cardinality = ''many-to-many'',
                       rc_relationship = relText jt (FKConstraintName jt (fld_Name src)) (fld_Name src)
                          (FKConstraintName jt (fld_Name tgt)) (fld_Name tgt),
                       rc_constraint = jt\<rparr>]) fs)) fs)"

definition junctionRels :: "string \<Rightarrow> string \<Rightarrow> string \<Rightarrow> Table gmap \<Rightarrow> relCandidate list" where
  "junctionRels tableName name fkHint allTables =
     (if tableName = name then []
      else if map_of allTables name = None then []
      else concat (map (\<lambda>jt.
        if fkHint \<noteq> [] \<and> fkHint \<noteq> jt then []
        else case map_of allTables jt of
               None \<Rightarrow> []
             | Some t \<Rightarrow> junctionPairs tableName name jt (tbl_Fields t) allTables) (sortedKeys allTables)))"

definition cardinalityRank :: "string \<Rightarrow> nat" where
  "cardinalityRank c =
     (if c = ''one-to-many'' then 0 else if c = ''many-to-one'' then 1
      else if c = ''one-to-one'' then 2 else if c = ''many-to-many'' then 3 else 0)"

definition candidateKey :: "relCandidate \<Rightarrow> string \<times> nat \<times> string \<times> string" where
  "candidateKey c =
     (em_RefTable (rc_emb c), cardinalityRank (rc_cardinality c), rc_constraint c, rc_relationship c)"

definition ambiguousEmbed :: "string \<Rightarrow> string \<Rightarrow> relCandidate list \<Rightarrow> pg_error" where
  "ambiguousEmbed parent target cands =
     (let sorted = sort_key candidateKey cands in
      AmbiguousEmbedError parent target
        (map (\<lambda>c. (rc_cardinality c, parent @ '' with '' @ target, rc_relationship c)) sorted)
        (map (\<lambda>c. [CHR 0x27] @ target @ ''!'' @ rc_constraint c @ [CHR 0x27]) sorted))"

definition embedCandidates ::
  "string \<Rightarrow> Table \<Rightarrow> string \<Rightarrow> string \<Rightarrow> Table gmap \<Rightarrow> relCandidate list" where
  "embedCandidates tableName table name fkHint allTables =
     belongsToRels tableName table name fkHint allTables @ hasManyRels tableName name fkHint allTables @
     junctionRels tableName name fkHint allTables"

section \<open>Resolving embeds\<close>

lemma ParseEmbedParam_nested:
  assumes "ParseEmbedParam raw = (name, alias, cols, nested, spread)"
  shows "sum_list (map (\<lambda>s. Suc (length s)) nested) < Suc (length raw)"
proof (cases "nested = []")
  case False
  define sz where "sz ss = sum_list (map (\<lambda>s. Suc (length s)) ss)" for ss :: "string list"
  from assms False obtain idx items where idx: "strIndex raw ''('' = Some idx"
    and items: "splitTopLevel (butlast (drop (idx + 1) raw)) (CHR '','') = Inr items"
    and nested: "nested = filter (\<lambda>item. strContains item ''('')
        (filter (\<lambda>item. item \<noteq> [] \<and> item \<noteq> ''*'') (map trimSpace items))"
    by (auto simp: ParseEmbedParam_def Let_def split: option.splits prod.splits sum.splits if_splits)
  have filt: "sz (filter P ss) \<le> sz ss" for P ss by (induction ss) (auto simp: sz_def)
  have trim: "sz (map trimSpace ss) \<le> sz ss" for ss
    by (induction ss) (auto simp: sz_def intro: add_mono length_trimSpace)
  have join: "ps \<noteq> [] \<Longrightarrow> sz ps = Suc (length (strJoin ps [c]))" for ps c
    by (induction ps "[c]" rule: strJoin.induct) (auto simp: sz_def)
  have le: "sz nested \<le> sz items"
    unfolding nested by (rule le_trans [OF filt le_trans [OF filt trim]])
  have "items \<noteq> [] \<and> strJoin items '','' = butlast (drop (idx + 1) raw)"
    using splitTopLevelLoop_sound [OF items [unfolded splitTopLevel_def]] by simp
  then have "sz items = Suc (length raw - Suc (Suc idx))" using join [of items "CHR '',''"] by simp
  moreover have "Suc idx \<le> length raw" using strIndex_Some [OF idx] by simp
  ultimately show ?thesis using le unfolding sz_def by linarith
qed simp

text \<open>The body of the loop up to the recursive call: the embed without its children, and the nested entries.\<close>

definition resolveEntry ::
  "string \<Rightarrow> Table \<Rightarrow> Table gmap \<Rightarrow> string \<Rightarrow> pg_error + (EmbedInfo \<times> string list)" where
  "resolveEntry tableName table allTables raw =
     (case validateEmbedBalance raw of
        Some e \<Rightarrow> Inl e
      | None \<Rightarrow>
          let (name0, alias, cols, nested, spread) = ParseEmbedParam raw;
              (name, inner, fkHint) = ParseEmbedHint name0;
              cands = embedCandidates tableName table name fkHint allTables
          in if spread \<and> alias \<noteq> [] then Inl (Errorf ''alias not allowed on spread embed %q'' [alias @ '':'' @ name])
             else if 1 < length cands then Inl (ambiguousEmbed tableName name cands)
             else if cands = [] then
               Inl (Errorf ''could not find a relationship between %q and %q in the schema'' [tableName, name])
             else let rel = rc_emb (hd cands) in
                  if spread \<and> em_IsReverse rel then
                    Inl (Errorf ''spread (...) not allowed on has-many embed %q'' [name])
                  else let emb = rel\<lparr>em_Name := name, em_Alias := alias, em_Columns := cols, em_Inner := inner,
                                    em_Spread := spread\<rparr>;
                           refTbl = (case map_of allTables (em_RefTable emb) of None \<Rightarrow> zeroTable | Some t \<Rightarrow> t)
                       in case validateEmbedSpec raw alias cols refTbl of
                            Some e \<Rightarrow> Inl e
                          | None \<Rightarrow>
                              if nested \<noteq> [] \<and> map_of allTables (em_RefTable emb) = None then
                                Inl (Errorf ''embed %q references unknown table %q'' [name, em_RefTable emb])
                              else Inr (emb, nested))"

lemma resolveEntry_Inr:
  assumes "resolveEntry tableName table allTables raw = Inr (emb, nested)"
  obtains name0 cols spread fkHint cand where
    "ParseEmbedParam raw = (name0, em_Alias emb, cols, nested, spread)"
    "ParseEmbedHint name0 = (em_Name emb, em_Inner emb, fkHint)"
    "embedCandidates tableName table (em_Name emb) fkHint allTables = [cand]"
    "emb = (rc_emb cand)\<lparr>em_Name := em_Name emb, em_Alias := em_Alias emb, em_Columns := cols,
       em_Inner := em_Inner emb, em_Spread := spread\<rparr>"
    "validateEmbedSpec raw (em_Alias emb) cols
       (case map_of allTables (em_RefTable emb) of None \<Rightarrow> zeroTable | Some t \<Rightarrow> t) = None"
    "nested = [] \<or> map_of allTables (em_RefTable emb) \<noteq> None"
    "spread \<longrightarrow> em_Alias emb = [] \<and> \<not> em_IsReverse emb"
proof -
  obtain name0 al cols ne spread where p: "ParseEmbedParam raw = (name0, al, cols, ne, spread)"
    by (cases "ParseEmbedParam raw") auto
  obtain name inner fkHint where h: "ParseEmbedHint name0 = (name, inner, fkHint)"
    by (cases "ParseEmbedHint name0") auto
  define cands where "cands = embedCandidates tableName table name fkHint allTables"
  from assms obtain "\<not> 1 < length cands" and "cands \<noteq> []"
    by (simp add: resolveEntry_def p h Let_def cands_def split: option.splits if_splits)
  then obtain cand where c: "cands = [cand]" by (cases cands) (auto simp: less_Suc_eq_0_disj)
  show thesis
    by (rule that [of name0 cols spread fkHint cand])
      (use assms c in \<open>auto simp: resolveEntry_def p h Let_def cands_def split: option.splits if_splits\<close>)
qed

function ResolveEmbeds ::
  "string \<Rightarrow> Table \<Rightarrow> string list \<Rightarrow> Table gmap \<Rightarrow> pg_error + Embed list" where
  "ResolveEmbeds tableName table embedNames allTables =
     traverse (\<lambda>raw.
       case resolveEntry tableName table allTables raw of
         Inl e \<Rightarrow> Inl e
       | Inr (emb, nested) \<Rightarrow>
           (if nested = [] then Inr (Embed emb [])
            else case ResolveEmbeds (em_RefTable emb)
                        (case map_of allTables (em_RefTable emb) of None \<Rightarrow> zeroTable | Some t \<Rightarrow> t) nested allTables of
                   Inl e \<Rightarrow> Inl (Errorw ''nested embed in %q: %w'' [em_Name emb] e)
                 | Inr children \<Rightarrow> Inr (Embed emb children))) embedNames"
  by pat_completeness auto

lemma resolveEntry_nested:
  assumes "resolveEntry tableName table allTables raw = Inr (emb, nested)" and "raw \<in> set embedNames"
  shows "sum_list (map (\<lambda>s. Suc (length s)) nested) < sum_list (map (\<lambda>s. Suc (length s)) embedNames)"
proof -
  from assms(1) obtain name0 al cols spread where "ParseEmbedParam raw = (name0, al, cols, nested, spread)"
    by (rule resolveEntry_Inr)
  from ParseEmbedParam_nested [OF this] show ?thesis
    using member_le_sum_list [of "Suc (length raw)" "map (\<lambda>s. Suc (length s)) embedNames"] assms(2) by auto
qed

termination ResolveEmbeds
proof (relation "measure (\<lambda>(_, _, names, _). sum_list (map (\<lambda>s. Suc (length s)) names))", goal_cases)
  case (2 tableName table embedNames allTables raw rel emb nested)
  then have "resolveEntry tableName table allTables raw = Inr (emb, nested)" by (simp only:)
  from resolveEntry_nested [OF this 2(1)] show ?case by (simp only: in_measure prod.case)
qed simp

declare ResolveEmbeds.simps [simp del]

section \<open>params.go: embed-scoped parameters\<close>

text \<open>\<open>emb.Where = &WhereNode{Op: "and"}\<close> when it is nil, then append to its children.\<close>

definition addChild :: "WhereNode \<Rightarrow> WhereNode option \<Rightarrow> WhereNode option" where
  "addChild n w =
     (case w of None \<Rightarrow> Some (WNode ''and'' False [n])
      | Some (WNode op neg cs) \<Rightarrow> Some (WNode op neg (cs @ [n]))
      | Some (WLeaf neg f) \<Rightarrow> Some (WLeaf neg f))"

definition addChildren :: "WhereNode list \<Rightarrow> EmbedInfo \<Rightarrow> EmbedInfo" where
  "addChildren ns emb = emb\<lparr>em_Where := fold addChild ns (em_Where emb)\<rparr>"

definition scopedNumber :: "string \<Rightarrow> string \<Rightarrow> string list \<Rightarrow> pg_error + int option" where
  "scopedNumber what embName vs =
     (case vs of [] \<Rightarrow> Inr None
      | v # _ \<Rightarrow> (case atoi v of
                   None \<Rightarrow> Inl (Errorf (''invalid '' @ what @ '' for embed %q: %s'') [embName, v])
                 | Some n \<Rightarrow> if n < 0 then Inl (Errorf (''invalid '' @ what @ '' for embed %q: %s'') [embName, v])
                             else Inr (Some n)))"

definition embedValidator :: "EmbedInfo \<Rightarrow> Table \<Rightarrow> ColValidator" where
  "embedValidator emb embTable col =
     (if col \<in> set (CollectSelectAliases (em_Columns emb)) then None else ValidateColumn embTable col)"

text \<open>The \<open>switch suffix\<close> of \<open>ParseEmbedScopedParams\<close>.\<close>

definition scopedParam ::
  "string \<Rightarrow> Table \<Rightarrow> string \<Rightarrow> string list \<Rightarrow> EmbedInfo \<Rightarrow> pg_error + EmbedInfo" where
  "scopedParam embName embTable suffix vs emb =
     (if suffix = ''or'' \<or> suffix = ''and'' then
        (case traverse (\<lambda>v. parseLogicListWith suffix v (embedValidator emb embTable)) vs of
           Inl e \<Rightarrow> Inl (Errorw ''invalid %s for embed %q: %w'' [suffix, embName] e)
         | Inr ns \<Rightarrow> Inr (addChildren ns emb))
      else if suffix = ''order'' then
        (if \<not> em_IsReverse emb then Inl (Errorf ''order not allowed on belongs-to embed %q'' [embName])
         else case traverse (\<lambda>v. ParseOrderValueWithSelect v embTable (em_Columns emb)) vs of
                Inl e \<Rightarrow> Inl (Errorw ''invalid order for embed %q: %w'' [embName] e)
              | Inr clauses \<Rightarrow> Inr (emb\<lparr>em_Order := em_Order emb @ concat clauses\<rparr>))
      else if suffix = ''limit'' then
        (if \<not> em_IsReverse emb then Inl (Errorf ''limit not allowed on belongs-to embed %q'' [embName])
         else case scopedNumber ''limit'' embName vs of
                Inl e \<Rightarrow> Inl e
              | Inr None \<Rightarrow> Inr emb
              | Inr (Some n) \<Rightarrow> Inr (emb\<lparr>em_Limit := Some n\<rparr>))
      else if suffix = ''offset'' then
        (if \<not> em_IsReverse emb then Inl (Errorf ''offset not allowed on belongs-to embed %q'' [embName])
         else case scopedNumber ''offset'' embName vs of
                Inl e \<Rightarrow> Inl e
              | Inr None \<Rightarrow> Inr emb
              | Inr (Some n) \<Rightarrow> Inr (emb\<lparr>em_Offset := Some n\<rparr>))
      else if suffix = ''select'' then Inl (Errorf ''embed param %q.%s not supported'' [embName, suffix])
      else case ValidateColumn embTable suffix of
             Some e \<Rightarrow> Inl (Errorw ''invalid filter on embed %q: %w'' [embName] e)
           | None \<Rightarrow>
               (case traverse (parseLeafValue suffix) vs of
                  Inl e \<Rightarrow> Inl (Errorw ''invalid filter on embed %q: %w'' [embName] e)
                | Inr ns \<Rightarrow> Inr (addChildren ns emb)))"

text \<open>
  \<open>embedByName\<close> maps an output key to a pointer into \<open>qp.Embeds\<close>: here to the index. A parameter goes to the
  first entry (in the enumeration of the map) that prefixes its key.
\<close>

definition scopedStep ::
  "nat gmap \<Rightarrow> Table gmap \<Rightarrow> string \<times> string list \<Rightarrow> Embed list \<Rightarrow> pg_error + Embed list" where
  "scopedStep embedByName allTables entry embeds =
     (let (key, vs) = entry in
      case find (\<lambda>(embName, i). hasPrefix key (embName @ ''.'')) embedByName of
        None \<Rightarrow> Inr embeds
      | Some (embName, i) \<Rightarrow>
          let suffix = trimPrefix key (embName @ ''.''); emb = em_info (embeds ! i) in
          case map_of allTables (em_RefTable emb) of
            None \<Rightarrow> Inl (Errorf ''embed %q references unknown table %q'' [embName, em_RefTable emb])
          | Some embTable \<Rightarrow>
              (case scopedParam embName embTable suffix vs emb of
                 Inl e \<Rightarrow> Inl e
               | Inr emb' \<Rightarrow> Inr (embeds[i := Embed emb' (em_Children (embeds ! i))])))"

fun ParseEmbedScopedParams ::
  "(string list) gmap \<Rightarrow> nat gmap \<Rightarrow> Table gmap \<Rightarrow> Embed list \<Rightarrow> pg_error + Embed list" where
  "ParseEmbedScopedParams [] embedByName allTables embeds = Inr embeds"
| "ParseEmbedScopedParams (entry # vals) embedByName allTables embeds =
     (case scopedStep embedByName allTables entry embeds of
        Inl e \<Rightarrow> Inl e
      | Inr embeds' \<Rightarrow> ParseEmbedScopedParams vals embedByName allTables embeds')"

section \<open>Every embed is backed by a declared foreign key\<close>

text \<open>\<open>fkColumn all t c r d\<close>: the table has a field \<open>c\<close> that references column \<open>d\<close> of table \<open>r\<close>.\<close>

definition fkColumn :: "Table gmap \<Rightarrow> Table \<Rightarrow> string \<Rightarrow> string \<Rightarrow> string \<Rightarrow> bool" where
  "fkColumn allTables t c r d =
     list_ex (\<lambda>f. fld_Name f = c \<and>
       (case fld_ForeignKey f of None \<Rightarrow> False
        | Some fk \<Rightarrow> fkTarget (fk_References fk) allTables = Some (r, d))) (tbl_Fields t)"

definition relBacked :: "Table gmap \<Rightarrow> string \<Rightarrow> Table \<Rightarrow> EmbedInfo \<Rightarrow> bool" where
  "relBacked allTables tableName table i =
     (if \<not> em_IsReverse i then
        em_Junction i = None \<and> fkColumn allTables table (em_FKColumn i) (em_RefTable i) (em_RefColumn i)
      else em_RefTable i \<noteq> tableName \<and> map_of allTables (em_RefTable i) \<noteq> None \<and>
        (case em_Junction i of
           None \<Rightarrow> (case map_of allTables (em_RefTable i) of None \<Rightarrow> False
                   | Some t \<Rightarrow> fkColumn allTables t (em_FKColumn i) tableName (em_RefColumn i))
         | Some j \<Rightarrow> em_FKColumn i = [] \<and> em_RefColumn i = [] \<and> jn_SourceColumn j \<noteq> jn_TargetColumn j \<and>
             (case map_of allTables (jn_Table j) of None \<Rightarrow> False
              | Some t \<Rightarrow> fkColumn allTables t (jn_SourceColumn j) tableName (jn_SourceRef j) \<and>
                         fkColumn allTables t (jn_TargetColumn j) (em_RefTable i) (jn_TargetRef j))))"

definition specOk :: "Table gmap \<Rightarrow> EmbedInfo \<Rightarrow> bool" where
  "specOk allTables i =
     ((em_Alias i = [] \<or> identRe (em_Alias i)) \<and>
      (em_Spread i \<longrightarrow> em_Alias i = [] \<and> \<not> em_IsReverse i) \<and>
      (em_Name i = em_RefTable i \<or> em_Name i = trimSuffix (em_FKColumn i) ''_id'') \<and>
      list_all (\<lambda>c. case map_of allTables (em_RefTable i) of None \<Rightarrow> False | Some t \<Rightarrow> GetField t c \<noteq> None)
        (em_Columns i) \<and>
      em_Where i = None \<and> em_Order i = [] \<and> em_Limit i = None \<and> em_Offset i = None)"

fun wfEmbed :: "Table gmap \<Rightarrow> string \<Rightarrow> Table \<Rightarrow> Embed \<Rightarrow> bool" where
  "wfEmbed allTables tableName table (Embed i children) =
     (relBacked allTables tableName table i \<and> specOk allTables i \<and>
      (children \<noteq> [] \<longrightarrow>
         (case map_of allTables (em_RefTable i) of None \<Rightarrow> False
          | Some t \<Rightarrow> list_all (wfEmbed allTables (em_RefTable i) t) children)))"

definition candOk :: "Table gmap \<Rightarrow> string \<Rightarrow> Table \<Rightarrow> string \<Rightarrow> relCandidate \<Rightarrow> bool" where
  "candOk allTables tableName table name c =
     (\<exists>fkc r d rv j. rc_emb c = zeroEmbed\<lparr>em_FKColumn := fkc, em_RefTable := r, em_RefColumn := d,
        em_IsReverse := rv, em_Junction := j\<rparr> \<and> relBacked allTables tableName table (rc_emb c) \<and>
        (name = r \<or> name = trimSuffix fkc ''_id''))"

lemma zeroEmbed_simps [simp]:
  "em_IsReverse zeroEmbed = False" "em_Junction zeroEmbed = None" "em_FKColumn zeroEmbed = []"
  "em_RefColumn zeroEmbed = []" "em_RefTable zeroEmbed = []"
  by (simp_all add: zeroEmbed_def)

lemma candOkI:
  assumes "rc_emb c = zeroEmbed\<lparr>em_FKColumn := fkc, em_RefTable := r, em_RefColumn := d, em_IsReverse := rv, em_Junction := j\<rparr>"
    and "relBacked allTables tableName table (rc_emb c)" and "name = r \<or> name = trimSuffix fkc ''_id''"
  shows "candOk allTables tableName table name c"
  unfolding candOk_def using assms by blast

lemma flip_Some:
  "Some t = map_of m k \<longleftrightarrow> map_of m k = Some t" "Some p = junctionLeg f all \<longleftrightarrow> junctionLeg f all = Some p"
  "Some fk = fld_ForeignKey f \<longleftrightarrow> fld_ForeignKey f = Some fk" "Some q = fkTarget r all \<longleftrightarrow> fkTarget r all = Some q"
  by auto

lemma belongsToRels_ok:
  assumes "c \<in> set (belongsToRels tableName table name fkHint allTables)"
  shows "candOk allTables tableName table name c"
proof -
  from assms obtain field fk r d where f: "field \<in> set (tbl_Fields table)" "fld_ForeignKey field = Some fk"
    "fkTarget (fk_References fk) allTables = Some (r, d)" "name = r \<or> name = trimSuffix (fld_Name field) ''_id''"
    and c: "rc_emb c = zeroEmbed\<lparr>em_FKColumn := fld_Name field, em_RefTable := r, em_RefColumn := d\<rparr>"
    by (auto simp: belongsToRels_def Let_def flip_Some split: option.splits if_splits)
  have "fkColumn allTables table (fld_Name field) r d"
    using f by (auto simp: fkColumn_def list_ex_iff intro!: bexI [of _ field])
  then show ?thesis
    by (intro candOkI [where fkc = "fld_Name field" and r = r and d = d and rv = False and j = None]) (use c f(4) in \<open>simp_all add: relBacked_def zeroEmbed_def\<close>)
qed

lemma hasManyRels_ok:
  assumes "c \<in> set (hasManyRels tableName name fkHint allTables)"
  shows "candOk allTables tableName table name c"
proof -
  from assms obtain t field fk d where f: "map_of allTables name = Some t" "name \<noteq> tableName"
    "field \<in> set (tbl_Fields t)" "fld_ForeignKey field = Some fk"
    "fkTarget (fk_References fk) allTables = Some (tableName, d)"
    and c: "rc_emb c = zeroEmbed\<lparr>em_FKColumn := fld_Name field, em_RefTable := name, em_RefColumn := d, em_IsReverse := True\<rparr>"
    by (auto simp: hasManyRels_def Let_def flip_Some split: option.splits if_splits)
  have "fkColumn allTables t (fld_Name field) tableName d"
    using f by (auto simp: fkColumn_def list_ex_iff intro!: bexI [of _ field])
  then show ?thesis
    by (intro candOkI [where fkc = "fld_Name field" and r = name and d = d and rv = True and j = None]) (use c f in \<open>simp_all add: relBacked_def zeroEmbed_def\<close>)
qed

lemma junctionLeg_fk:
  assumes "junctionLeg f allTables = Some (r, d)" and "f \<in> set (tbl_Fields t)"
  shows "fkColumn allTables t (fld_Name f) r d"
  using assms
  by (auto simp: junctionLeg_def fkColumn_def list_ex_iff split: option.splits if_splits intro!: bexI [of _ f])

lemma junctionRels_ok:
  assumes "c \<in> set (junctionRels tableName name fkHint allTables)"
  shows "candOk allTables tableName table name c"
proof -
  from assms obtain jt t where jt: "tableName \<noteq> name" "map_of allTables name \<noteq> None" "map_of allTables jt = Some t"
    "c \<in> set (junctionPairs tableName name jt (tbl_Fields t) allTables)"
    by (auto simp: junctionRels_def flip_Some split: option.splits if_splits)
  then obtain src srcRef tgt tgtRef where j:
    "src \<in> set (tbl_Fields t)" "junctionLeg src allTables = Some (tableName, srcRef)"
    "tgt \<in> set (tbl_Fields t)" "junctionLeg tgt allTables = Some (name, tgtRef)" "fld_Name tgt \<noteq> fld_Name src"
    and c: "rc_emb c = zeroEmbed\<lparr>em_RefTable := name, em_IsReverse := True,
       em_Junction := Some \<lparr>jn_Table = jt, jn_SourceColumn = fld_Name src, jn_SourceRef = srcRef,
         jn_TargetColumn = fld_Name tgt, jn_TargetRef = tgtRef\<rparr>\<rparr>"
    by (auto simp: junctionPairs_def flip_Some split: option.splits if_splits)
  show ?thesis
    by (rule candOkI [where fkc = "[]" and d = "[]"])
      (use c jt j junctionLeg_fk [OF j(2,1)] junctionLeg_fk [OF j(4,3)] in
        \<open>auto simp: relBacked_def zeroEmbed_def\<close>)
qed

lemma embedCandidates_ok:
  "c \<in> set (embedCandidates tableName table name fkHint allTables) \<Longrightarrow> candOk allTables tableName table name c"
  using belongsToRels_ok hasManyRels_ok junctionRels_ok by (auto simp: embedCandidates_def)

lemma validateEmbedSpec_None:
  "validateEmbedSpec raw a cols ref = None \<longleftrightarrow>
     (a = [] \<or> identRe a) \<and> (\<forall>c \<in> set cols. GetField ref c \<noteq> None)"
  by (auto simp: validateEmbedSpec_def firstErr_None split: if_splits)

lemma resolveEntry_ok:
  assumes "resolveEntry tableName table allTables raw = Inr (emb, nested)"
  shows "relBacked allTables tableName table emb \<and> specOk allTables emb \<and>
    (nested = [] \<or> map_of allTables (em_RefTable emb) \<noteq> None)"
proof -
  from assms obtain name0 cols spread fkHint cand where r:
    "embedCandidates tableName table (em_Name emb) fkHint allTables = [cand]"
    "emb = (rc_emb cand)\<lparr>em_Name := em_Name emb, em_Alias := em_Alias emb, em_Columns := cols,
       em_Inner := em_Inner emb, em_Spread := spread\<rparr>"
    "validateEmbedSpec raw (em_Alias emb) cols
       (case map_of allTables (em_RefTable emb) of None \<Rightarrow> zeroTable | Some t \<Rightarrow> t) = None"
    "nested = [] \<or> map_of allTables (em_RefTable emb) \<noteq> None"
    "spread \<longrightarrow> em_Alias emb = [] \<and> \<not> em_IsReverse emb"
    by (rule resolveEntry_Inr)
  have "candOk allTables tableName table (em_Name emb) cand" using embedCandidates_ok [of cand tableName table "em_Name emb" fkHint allTables] r(1) by simp
  then obtain fkc t d rv j where c: "rc_emb cand = zeroEmbed\<lparr>em_FKColumn := fkc, em_RefTable := t,
      em_RefColumn := d, em_IsReverse := rv, em_Junction := j\<rparr>"
    "relBacked allTables tableName table (rc_emb cand)" "em_Name emb = t \<or> em_Name emb = trimSuffix fkc ''_id''"
    by (auto simp: candOk_def)
  have eq: "em_RefTable emb = t" "em_FKColumn emb = fkc" "em_Columns emb = cols" "em_Spread emb = spread"
    "em_Where emb = None" "em_Order emb = []" "em_Limit emb = None" "em_Offset emb = None"
    by (subst r(2); simp add: c(1) zeroEmbed_def)+
  have same: "em_RefTable emb = em_RefTable (rc_emb cand)" "em_FKColumn emb = em_FKColumn (rc_emb cand)"
    "em_RefColumn emb = em_RefColumn (rc_emb cand)" "em_IsReverse emb = em_IsReverse (rc_emb cand)"
    "em_Junction emb = em_Junction (rc_emb cand)"
    by (subst r(2); simp)+
  have "relBacked allTables tableName table emb"
    using c(2) unfolding relBacked_def same .
  moreover have "GetField zeroTable c = None" for c by (simp add: GetField_def zeroTable_def)
  then have "specOk allTables emb"
    using r(3,5) c(3) by (auto simp: specOk_def eq validateEmbedSpec_None list_all_iff split: option.splits)
  ultimately show ?thesis using r(4) by blast
qed

lemma ResolveEmbeds_wf:
  assumes "ResolveEmbeds tableName table embedNames allTables = Inr embeds"
  shows "list_all (wfEmbed allTables tableName table) embeds"
  using assms
proof (induction tableName table embedNames allTables arbitrary: embeds rule: ResolveEmbeds.induct)
  case (1 tableName table embedNames allTables)
  have "wfEmbed allTables tableName table e" if e: "e \<in> set embeds" for e
  proof -
    from e 1(2) obtain raw emb nested where raw: "raw \<in> set embedNames"
      and r: "resolveEntry tableName table allTables raw = Inr (emb, nested)"
      and c: "nested = [] \<and> e = Embed emb [] \<or> nested \<noteq> [] \<and> (\<exists>children. e = Embed emb children \<and>
          ResolveEmbeds (em_RefTable emb) (case map_of allTables (em_RefTable emb) of None \<Rightarrow> zeroTable | Some t \<Rightarrow> t)
            nested allTables = Inr children)"
      by (subst (asm) ResolveEmbeds.simps) (fastforce dest: traverse_set split: sum.splits if_splits prod.splits)
    note ok = resolveEntry_ok [OF r]
    show ?thesis using c
    proof (elim disjE conjE exE)
      fix children
      assume n: "nested \<noteq> []" "e = Embed emb children" and ch: "ResolveEmbeds (em_RefTable emb)
        (case map_of allTables (em_RefTable emb) of None \<Rightarrow> zeroTable | Some t \<Rightarrow> t) nested allTables = Inr children"
      from 1(1) [OF raw r refl n(1) ch] n ok show ?thesis by auto
    qed (use ok in auto)
  qed
  then show ?case by (simp add: list_all_iff)
qed

text \<open>C34: Every embed that a request resolves to, at any depth, is backed by declared foreign keys: a to-one
  embed by a key of the embedding table, a to-many embed by a key of the embedded table or by a junction
  table with a key to each side. Its columns are fields of the embedded table, its alias is an
  identifier, and only to-one embeds are spread.\<close>

theorem resolved_embeds_backed:
  assumes "ResolveEmbeds tableName table embedNames allTables = Inr embeds"
  shows "list_all (wfEmbed allTables tableName table) embeds"
  using assms by (rule ResolveEmbeds_wf)

end
