(* ===== verification/Embed_Laws.thy ===== *)
theory Embed_Laws
  imports Postgrest_Embed
begin

text \<open>
  Laws of embedding: what an ambiguous name reports, independence of the order in which Go enumerates the
  table map, and the effect of embed-scoped parameters (they touch only the filter, order, limit and offset of
  one embed, never give a to-one embed a limit, and keep every embed safe to render).
\<close>

section \<open>Ambiguous names\<close>

lemma ambiguousEmbed_details:
  "ambiguousEmbed parent target cands = AmbiguousEmbedError parent target details hints \<Longrightarrow>
     mset details = image_mset (\<lambda>c. (rc_cardinality c, parent @ '' with '' @ target, rc_relationship c)) (mset cands) \<and>
     mset hints = image_mset (\<lambda>c. [CHR 0x27] @ target @ ''!'' @ rc_constraint c @ [CHR 0x27]) (mset cands)"
  by (auto simp: ambiguousEmbed_def Let_def mset_map)

text \<open>For a well-formed embed entry the name is reported as ambiguous exactly when more than one relationship
  matches; the report then describes every matching relationship once, in the order of embedded table,
  cardinality rank, constraint and relationship, with one hint for each.\<close>

lemma ambiguous_embed_reported:
  assumes "validateEmbedBalance raw = None" and "ParseEmbedParam raw = (name0, a, cols, nested, spread)"
    and "ParseEmbedHint name0 = (name, inner, fkHint)" and "\<not> (spread \<and> a \<noteq> [])"
    and "cands = embedCandidates tableName table name fkHint allTables"
  shows "(\<exists>details hints. ResolveEmbeds tableName table [raw] allTables = Inl (AmbiguousEmbedError tableName name details hints) \<and>
      mset details = image_mset (\<lambda>c. (rc_cardinality c, tableName @ '' with '' @ name, rc_relationship c)) (mset cands) \<and>
      (\<exists>order. mset order = mset cands \<and> sorted (map candidateKey order) \<and>
         hints = map (\<lambda>c. [CHR 0x27] @ name @ ''!'' @ rc_constraint c @ [CHR 0x27]) order))
    \<longleftrightarrow> 1 < length cands"
proof -
  let ?r = "resolveEntry tableName table allTables raw"
  have amb: "?r = Inl (ambiguousEmbed tableName name cands)" if "1 < length cands"
    using assms that by (auto simp: resolveEntry_def Let_def)
  have "ResolveEmbeds tableName table [raw] allTables \<noteq> Inl (AmbiguousEmbedError p t d h)"
    if n: "\<not> 1 < length cands" for p t d h
  proof
    assume "ResolveEmbeds tableName table [raw] allTables = Inl (AmbiguousEmbedError p t d h)"
    then have "?r = Inl (AmbiguousEmbedError p t d h)"
      by (subst (asm) ResolveEmbeds.simps) (auto split: sum.splits prod.splits if_splits)
    then show False
      using assms n
      by (auto simp: resolveEntry_def Let_def validateEmbedSpec_def split: option.splits if_splits dest!: firstErr_Some)
  qed
  moreover have "ResolveEmbeds tableName table [raw] allTables = Inl (ambiguousEmbed tableName name cands)"
    if "1 < length cands" using amb [OF that] by (subst ResolveEmbeds.simps) simp
  moreover have "\<exists>details hints. ambiguousEmbed tableName name cands = AmbiguousEmbedError tableName name details hints \<and>
      mset details = image_mset (\<lambda>c. (rc_cardinality c, tableName @ '' with '' @ name, rc_relationship c)) (mset cands) \<and>
      (\<exists>order. mset order = mset cands \<and> sorted (map candidateKey order) \<and>
         hints = map (\<lambda>c. [CHR 0x27] @ name @ ''!'' @ rc_constraint c @ [CHR 0x27]) order)"
    by (auto simp: ambiguousEmbed_def Let_def mset_map intro!: exI [of _ "sort_key candidateKey cands"])
  ultimately show ?thesis by (metis (no_types, lifting))
qed

section \<open>The order of the table map does not matter\<close>

lemma map_of_enumeration:
  "mset a = mset b \<Longrightarrow> wfMap a \<Longrightarrow> map_of a = map_of b"
proof -
  assume m: "mset a = mset b" and w: "wfMap a"
  from m have "set a = set b" by (metis set_mset_mset)
  moreover from m have "mset (map fst a) = mset (map fst b)" by simp
  then have "distinct (map fst b)" using w by (metis mset_eq_imp_distinct_iff wfMap_def)
  ultimately show ?thesis using w map_of_inject_set [of a b] by (simp add: wfMap_def)
qed

lemma embedCandidates_enumeration:
  assumes "map_of a = map_of b" and "sortedKeys a = sortedKeys b"
  shows "embedCandidates tableName table name fkHint a = embedCandidates tableName table name fkHint b"
proof -
  have f: "fkTarget r a = fkTarget r b" for r unfolding fkTarget_def assms(1) ..
  have g: "junctionLeg f a = junctionLeg f b" for f unfolding junctionLeg_def f ..
  show ?thesis
    unfolding embedCandidates_def belongsToRels_def hasManyRels_def junctionRels_def junctionPairs_def f g assms ..
qed

lemma resolveEntry_enumeration:
  assumes "map_of a = map_of b" and "sortedKeys a = sortedKeys b"
  shows "resolveEntry tableName table a raw = resolveEntry tableName table b raw"
  unfolding resolveEntry_def embedCandidates_enumeration [OF assms] assms(1) ..

text \<open>Resolving embeds does not depend on the order in which the map of tables is enumerated.\<close>

lemma ResolveEmbeds_enumeration:
  assumes "mset a = mset b" and "wfMap a"
  shows "ResolveEmbeds tableName table embedNames a = ResolveEmbeds tableName table embedNames b"
  using map_of_enumeration [OF assms] sortedKeys_enumeration [OF assms(1)]
proof (induction tableName table embedNames a rule: ResolveEmbeds.induct)
  case (1 tableName table embedNames allTables)
  note e = resolveEntry_enumeration [OF 1(2,3)]
  show ?case
    by (subst (1 2) ResolveEmbeds.simps, intro traverse_cong refl, unfold e)
      (use 1 in \<open>auto simp: e split: sum.splits\<close>)
qed

section \<open>Embed-scoped parameters\<close>

interpretation embed_columns: col_validator "embedValidator emb embTable"
    "\<lambda>col. col \<in> set (CollectSelectAliases (em_Columns emb)) \<or> ValidateColumn embTable col = None" for emb embTable
  by unfold_locales (simp add: embedValidator_def split: if_splits)

definition sameEmbed :: "EmbedInfo \<Rightarrow> EmbedInfo \<Rightarrow> bool" where
  "sameEmbed i j =
     (i\<lparr>em_Where := None, em_Order := [], em_Limit := None, em_Offset := None\<rparr> =
      j\<lparr>em_Where := None, em_Order := [], em_Limit := None, em_Offset := None\<rparr>)"

text \<open>What the renderer needs of the scope of an embed.\<close>

definition scopeOk :: "EmbedInfo \<Rightarrow> bool" where
  "scopeOk i =
     (allLeaves leafOk (em_Where i) \<and> list_all (\<lambda>oc. dollarFree (oc_Column oc)) (em_Order i) \<and>
      (\<not> em_IsReverse i \<longrightarrow> em_Order i = [] \<and> em_Limit i = None \<and> em_Offset i = None) \<and>
      (\<forall>n. em_Limit i = Some n \<longrightarrow> 0 \<le> n) \<and> (\<forall>n. em_Offset i = Some n \<longrightarrow> 0 \<le> n))"

lemma CollectSelectAliases_chars:
  "a \<in> set (CollectSelectAliases sel) \<Longrightarrow> (\<exists>s \<in> set sel. set a \<subseteq> set s) \<or> a \<in> set aggNames"
proof -
  assume "a \<in> set (CollectSelectAliases sel)"
  then obtain s where s: "s \<in> set sel"
    and "a = si_Alias (ParseSelectItem s) \<or> a = si_Agg (ParseSelectItem s) \<and> a \<noteq> []"
    by (auto simp: CollectSelectAliases_def Let_def split: if_splits)
  then show ?thesis using parsed_agg [of s] ParseSelectItem_chars(1) [of s] by auto
qed

lemma CollectSelectAliases_free:
  "a \<in> set (CollectSelectAliases sel) \<Longrightarrow> list_all dollarFree sel \<Longrightarrow> dollarFree a"
  using CollectSelectAliases_chars [of a sel] dollarFree_aggName dollarFree_subset
  by (auto simp: list_all_iff)

lemma scoped_leaf:
  assumes "parsedLeaf (\<lambda>col. col \<in> set (CollectSelectAliases (em_Columns emb)) \<or> ValidateColumn embTable col = None) f"
    and "list_all dollarFree (em_Columns emb)"
  shows "leafOk f"
  using assms(1) by (rule parsedLeaf_ok)
    (auto intro: CollectSelectAliases_free [OF _ assms(2)] dollarFree_path ValidateColumn_path)

lemma addChild_leaves:
  "allLeaves P w \<Longrightarrow> \<forall>f \<in> set (leaves n). P f \<Longrightarrow> allLeaves P (addChild n w)"
  by (auto simp: addChild_def allLeaves_def split: option.splits WhereNode.splits)

lemma addChildren_leaves:
  "allLeaves P (em_Where emb) \<Longrightarrow> \<forall>n \<in> set ns. \<forall>f \<in> set (leaves n). P f \<Longrightarrow>
     allLeaves P (em_Where (addChildren ns emb))"
proof -
  have "allLeaves P w \<Longrightarrow> \<forall>n \<in> set ns. \<forall>f \<in> set (leaves n). P f \<Longrightarrow> allLeaves P (fold addChild ns w)" for w
    by (induction ns arbitrary: w) (auto intro: addChild_leaves)
  then show "allLeaves P (em_Where emb) \<Longrightarrow> \<forall>n \<in> set ns. \<forall>f \<in> set (leaves n). P f \<Longrightarrow>
     allLeaves P (em_Where (addChildren ns emb))" by (simp add: addChildren_def)
qed

lemma addChildren_frame [simp]:
  "em_Order (addChildren ns emb) = em_Order emb" "em_Limit (addChildren ns emb) = em_Limit emb"
  "em_Offset (addChildren ns emb) = em_Offset emb" "em_IsReverse (addChildren ns emb) = em_IsReverse emb"
  "sameEmbed (addChildren ns emb) emb"
  by (simp_all add: addChildren_def sameEmbed_def)

lemma scopedNumber_nonneg: "scopedNumber what n vs = Inr (Some k) \<Longrightarrow> 0 \<le> k"
  by (auto simp: scopedNumber_def split: list.splits option.splits if_splits)

lemma order_scope:
  assumes "ParseOrderValueWithSelect v embTable cols = Inr ocs" and "oc \<in> set ocs" and "list_all dollarFree cols"
  shows "dollarFree (oc_Column oc)"
  using order_select_valid [OF assms(1,2)] CollectSelectAliases_free [OF _ assms(3)]
  by (auto intro: dollarFree_path ValidateColumn_path)

text \<open>What one parameter can do.\<close>

lemma scopedParam_cases:
  assumes p: "scopedParam embName embTable suffix vs emb = Inr emb'"
  obtains
    (logic) ns where "emb' = addChildren ns emb"
      "traverse (\<lambda>v. parseLogicListWith suffix v (embedValidator emb embTable)) vs = Inr ns"
  | (order) cs where "em_IsReverse emb" "emb' = emb\<lparr>em_Order := em_Order emb @ concat cs\<rparr>"
      "traverse (\<lambda>v. ParseOrderValueWithSelect v embTable (em_Columns emb)) vs = Inr cs"
  | (limit) n where "em_IsReverse emb" "emb' = emb\<lparr>em_Limit := Some n\<rparr>" "0 \<le> n"
  | (offset) n where "em_IsReverse emb" "emb' = emb\<lparr>em_Offset := Some n\<rparr>" "0 \<le> n"
  | (none) "emb' = emb"
  | (leaf) ns where "emb' = addChildren ns emb" "ValidateColumn embTable suffix = None"
      "traverse (parseLeafValue suffix) vs = Inr ns"
proof -
  consider "suffix = ''or'' \<or> suffix = ''and''"
    | "\<not> (suffix = ''or'' \<or> suffix = ''and'')" "suffix = ''order''" | "suffix = ''limit''" | "suffix = ''offset''"
    | "\<not> (suffix = ''or'' \<or> suffix = ''and'')" "suffix \<noteq> ''order''" "suffix \<noteq> ''limit''" "suffix \<noteq> ''offset''"
    by blast
  then show thesis
  proof cases
    case 1
    with p show thesis unfolding scopedParam_def if_P [OF 1] by (auto intro: logic split: sum.splits)
  next
    case 2
    with p show thesis by (auto simp: scopedParam_def intro: order split: sum.splits if_splits)
  next
    case 3
    with p show thesis
      by (auto simp: scopedParam_def intro: limit none dest: scopedNumber_nonneg split: sum.splits option.splits if_splits)
  next
    case 4
    with p show thesis
      by (auto simp: scopedParam_def intro: offset none dest: scopedNumber_nonneg split: sum.splits option.splits if_splits)
  next
    case 5
    then have "scopedParam embName embTable suffix vs emb =
        (if suffix = ''select'' then Inl (Errorf ''embed param %q.%s not supported'' [embName, suffix])
         else case ValidateColumn embTable suffix of
             Some e \<Rightarrow> Inl (Errorw ''invalid filter on embed %q: %w'' [embName] e)
           | None \<Rightarrow>
               (case traverse (parseLeafValue suffix) vs of
                  Inl e \<Rightarrow> Inl (Errorw ''invalid filter on embed %q: %w'' [embName] e)
                | Inr ns \<Rightarrow> Inr (addChildren ns emb)))"
      by (simp only: scopedParam_def if_False)
    with p show thesis by (auto intro: leaf split: sum.splits option.splits if_splits)
  qed
qed

text \<open>The frame and the safety of one parameter.\<close>

lemma scopedParam_safe:
  assumes p: "scopedParam embName embTable suffix vs emb = Inr emb'"
    and ok: "scopeOk emb" and cols: "list_all dollarFree (em_Columns emb)"
  shows "scopeOk emb' \<and> sameEmbed emb' emb"
proof -
  have leaf: "leafOk f" if "parseLogicListWith suffix v (embedValidator emb embTable) = Inr n"
    and "f \<in> set (leaves n)" for v n f
    using embed_columns.logic_list [OF that] cols by (rule scoped_leaf)
  have plain: "leafOk f" if "ValidateColumn embTable suffix = None" and "parseLeafValue suffix v = Inr n"
    and "f \<in> set (leaves n)" for v n f
  proof -
    have "parsedLeaf (\<lambda>col. ValidateColumn embTable col = None) f"
      using that by (intro parseLeafValue_leaf [OF that(2)])
    then show ?thesis by (rule parsedLeaf_ok) (auto intro: dollarFree_path ValidateColumn_path)
  qed
  have w: "allLeaves leafOk (em_Where emb)" using ok by (simp add: scopeOk_def)
  from p show ?thesis
  proof (cases rule: scopedParam_cases)
    case (logic ns)
    have "allLeaves leafOk (em_Where emb')"
      using leaf traverse_set [OF logic(2)] by (simp add: logic(1)) (blast intro: addChildren_leaves w)
    then show ?thesis using ok logic(1) by (simp add: scopeOk_def)
  next
    case (order cs)
    have "\<forall>oc \<in> set (concat cs). dollarFree (oc_Column oc)"
      using traverse_set [OF order(3)] order_scope [OF _ _ cols] by fastforce
    then show ?thesis using ok order(1,2) by (auto simp: scopeOk_def sameEmbed_def list_all_iff)
  next
    case (leaf ns)
    have "allLeaves leafOk (em_Where emb')"
      using plain [OF leaf(2)] traverse_set [OF leaf(3)] by (simp add: leaf(1)) (blast intro: addChildren_leaves w)
    then show ?thesis using ok leaf(1) by (simp add: scopeOk_def)
  qed (use ok in \<open>auto simp: scopeOk_def sameEmbed_def\<close>)
qed

text \<open>Two lists of embeds that differ at most in the scope of their entries.\<close>

definition sameEmbeds :: "Embed list \<Rightarrow> Embed list \<Rightarrow> bool" where
  "sameEmbeds = list_all2 (\<lambda>a b. sameEmbed (em_info a) (em_info b) \<and> em_Children a = em_Children b)"

lemma sameEmbeds_refl [simp]: "sameEmbeds es es"
  by (simp add: sameEmbeds_def sameEmbed_def list.rel_refl)

lemma sameEmbeds_trans: "sameEmbeds as bs \<Longrightarrow> sameEmbeds bs cs \<Longrightarrow> sameEmbeds as cs"
  by (simp add: sameEmbeds_def list_all2_conv_all_nth sameEmbed_def)

definition scopeReady :: "Embed \<Rightarrow> bool" where
  "scopeReady e = (scopeOk (em_info e) \<and> list_all dollarFree (em_Columns (em_info e)))"

lemma sameEmbed_Columns: "sameEmbed i j \<Longrightarrow> em_Columns i = em_Columns j"
  unfolding sameEmbed_def by (drule arg_cong [of _ _ em_Columns]) simp

lemma scopedStep_safe:
  assumes s: "scopedStep embedByName allTables entry embeds = Inr embeds'"
    and ok: "list_all scopeReady embeds" and ix: "\<forall>(k, i) \<in> set embedByName. i < length embeds"
  shows "sameEmbeds embeds' embeds \<and> list_all scopeReady embeds'"
proof (cases "find (\<lambda>(embName, i). hasPrefix (fst entry) (embName @ ''.'')) embedByName")
  case None
  with s ok show ?thesis by (cases entry) (auto simp: scopedStep_def)
next
  case (Some hit)
  obtain n i where hit: "hit = (n, i)" by (cases hit)
  with Some have "(n, i) \<in> set embedByName" by (auto simp: find_Some_iff in_set_conv_nth)
  with ix have i: "i < length embeds" by auto
  from s Some hit obtain t emb' where
    p: "scopedParam n t (trimPrefix (fst entry) (n @ ''.'')) (snd entry) (em_info (embeds ! i)) = Inr emb'"
    and e: "embeds' = embeds[i := Embed emb' (em_Children (embeds ! i))]"
    by (cases entry) (auto simp: scopedStep_def Let_def split: option.splits sum.splits)
  have r: "scopeReady (embeds ! i)" using ok i by (simp add: list_all_length)
  then have "scopeOk emb'" and same: "sameEmbed emb' (em_info (embeds ! i))"
    using scopedParam_safe [OF p] by (simp_all add: scopeReady_def)
  then have "scopeReady (Embed emb' (em_Children (embeds ! i)))"
    using r sameEmbed_Columns [OF same] by (simp add: scopeReady_def)
  then have "list_all scopeReady embeds'" using ok i by (auto simp: e list_all_length nth_list_update)
  moreover have "sameEmbeds embeds' embeds"
    using same i by (auto simp: e sameEmbeds_def list_all2_conv_all_nth nth_list_update sameEmbed_def)
  ultimately show ?thesis by simp
qed

lemma scopedParams_safe:
  assumes "ParseEmbedScopedParams vals embedByName allTables embeds = Inr embeds'"
    and "list_all scopeReady embeds" and "\<forall>(k, i) \<in> set embedByName. i < length embeds"
  shows "sameEmbeds embeds' embeds \<and> list_all scopeReady embeds'"
  using assms
proof (induction vals embedByName allTables embeds rule: ParseEmbedScopedParams.induct)
  case (2 entry vals embedByName allTables embeds)
  then obtain es where s: "scopedStep embedByName allTables entry embeds = Inr es"
    and p: "ParseEmbedScopedParams vals embedByName allTables es = Inr embeds'"
    by (auto split: sum.splits)
  note one = scopedStep_safe [OF s 2(3,4)]
  then have "length es = length embeds" by (auto simp: sameEmbeds_def dest: list_all2_lengthD)
  with 2(1) [OF s p] one 2(4) show ?case by (auto intro: sameEmbeds_trans)
qed simp

text \<open>Embed-scoped parameters, accepted for embeds whose columns hold no dollar sign, change nothing but the
  filter, order, limit and offset of embeds; a to-one embed never gets an order, a limit or an offset, limits and
  offsets are never negative, and every filter and order column stays free of dollar signs.\<close>

lemma scoped_params_frame:
  assumes "ParseEmbedScopedParams vals embedByName allTables embeds = Inr embeds'"
    and "list_all scopeReady embeds" and "\<forall>(k, i) \<in> set embedByName. i < length embeds"
  shows "sameEmbeds embeds' embeds \<and> list_all scopeReady embeds'"
  using assms by (rule scopedParams_safe)

section \<open>Embeds that are safe to render\<close>

definition junctionFree :: "Junction \<Rightarrow> bool" where
  "junctionFree j =
     (dollarFree (jn_Table j) \<and> dollarFree (jn_SourceColumn j) \<and> dollarFree (jn_SourceRef j) \<and>
      dollarFree (jn_TargetColumn j) \<and> dollarFree (jn_TargetRef j))"

definition embedFree :: "EmbedInfo \<Rightarrow> bool" where
  "embedFree i =
     (dollarFree (em_Name i) \<and> dollarFree (em_Alias i) \<and> list_all dollarFree (em_Columns i) \<and>
      dollarFree (em_FKColumn i) \<and> dollarFree (em_RefTable i) \<and> dollarFree (em_RefColumn i) \<and>
      (case em_Junction i of None \<Rightarrow> True | Some j \<Rightarrow> junctionFree j))"

fun embedSafe :: "Embed \<Rightarrow> bool" where
  "embedSafe (Embed i children) = (embedFree i \<and> scopeOk i \<and> list_all embedSafe children)"

text \<open>Table, field and reference names without dollar signs; the config validator only admits
  \<open>[a-z][a-z0-9_]*\<close> for names.\<close>

definition tableFree :: "Table \<Rightarrow> bool" where
  "tableFree t = list_all (\<lambda>f. dollarFree (fld_Name f) \<and> list_all dollarFree (fieldRefs f)) (tbl_Fields t)"

definition tablesFree :: "Table gmap \<Rightarrow> bool" where
  "tablesFree m = list_all (\<lambda>(n, t). dollarFree n \<and> tableFree t) m"

lemma tablesFree_map: "tablesFree m \<Longrightarrow> map_of m n = Some t \<Longrightarrow> dollarFree n \<and> tableFree t"
  by (auto simp: tablesFree_def list_all_iff dest!: map_of_SomeD)

lemma fkTarget_free: "fkTarget ref m = Some (t, c) \<Longrightarrow> dollarFree ref \<Longrightarrow> dollarFree t \<and> dollarFree c"
proof -
  assume f: "fkTarget ref m = Some (t, c)" and d: "dollarFree ref"
  from f have "t \<in> set (strSplit ref (CHR ''.''))" "c \<in> set (strSplit ref (CHR ''.''))"
    by (auto simp: fkTarget_def ParseFKReference_def split: sum.splits list.splits option.splits if_splits)
  with d show ?thesis by (meson dollarFree_subset set_strSplit)
qed

lemma fkColumn_free:
  assumes "fkColumn m t c r d" and "tableFree t"
  shows "dollarFree c \<and> dollarFree r \<and> dollarFree d"
  using assms fkTarget_free
  by (auto simp: fkColumn_def tableFree_def list_ex_iff list_all_iff fieldRefs_def split: option.splits)

lemma GetField_free: "tableFree t \<Longrightarrow> GetField t c \<noteq> None \<Longrightarrow> dollarFree c"
  by (auto simp: tableFree_def list_all_iff dest!: GetField_Some)

lemma dollarFree_trimSuffix: "dollarFree s \<Longrightarrow> dollarFree (trimSuffix s t)"
  by (rule dollarFree_subset [OF set_trimSuffix])

lemma relBacked_free:
  assumes b: "relBacked allTables tableName table i" and t: "tableFree table" and a: "tablesFree allTables"
  shows "dollarFree (em_RefTable i)" and "em_Junction i = None \<Longrightarrow> dollarFree (em_FKColumn i) \<and> dollarFree (em_RefColumn i)"
    and "em_Junction i = Some j \<Longrightarrow> junctionFree j"
proof -
  show "dollarFree (em_RefTable i)"
    using b fkColumn_free [OF _ t] tablesFree_map [OF a] by (auto simp: relBacked_def split: if_splits)
  show "em_Junction i = None \<Longrightarrow> dollarFree (em_FKColumn i) \<and> dollarFree (em_RefColumn i)"
    using b fkColumn_free [OF _ t] tablesFree_map [OF a]
    by (auto simp: relBacked_def dest: fkColumn_free split: if_splits option.splits)
  show "em_Junction i = Some j \<Longrightarrow> junctionFree j"
    using b tablesFree_map [OF a]
    by (auto simp: relBacked_def junctionFree_def dest!: fkColumn_free split: if_splits option.splits)
qed

lemma relBacked_keys:
  assumes "relBacked allTables tableName table i" and "tableFree table" and "tablesFree allTables"
  shows "dollarFree (em_FKColumn i) \<and> dollarFree (em_RefColumn i)"
proof (cases "em_Junction i")
  case (Some j)
  with assms(1) have "em_FKColumn i = [] \<and> em_RefColumn i = []" by (auto simp: relBacked_def split: if_splits)
  then show ?thesis by simp
qed (use relBacked_free(2) [OF assms] in simp)

lemma wfEmbed_safe:
  assumes "wfEmbed allTables tableName table e" and "tableFree table" and "tablesFree allTables"
  shows "embedSafe e"
  using assms
proof (induction allTables tableName table e rule: wfEmbed.induct)
  case (1 allTables tableName table i children)
  then have b: "relBacked allTables tableName table i" and o: "specOk allTables i" by simp_all
  note f = relBacked_free [OF b 1(3,4)] relBacked_keys [OF b 1(3,4)]
  have "dollarFree c" if c: "c \<in> set (em_Columns i)" for c
  proof -
    from o have "list_all (\<lambda>c. case map_of allTables (em_RefTable i) of None \<Rightarrow> False | Some t \<Rightarrow> GetField t c \<noteq> None)
        (em_Columns i)" by (simp add: specOk_def)
    with c obtain t where "map_of allTables (em_RefTable i) = Some t" and "GetField t c \<noteq> None"
      by (auto simp: list_all_iff dest: bspec split: option.splits)
    then show ?thesis using tablesFree_map [OF 1(4)] GetField_free by blast
  qed
  then have "list_all dollarFree (em_Columns i)" by (simp add: list_all_iff)
  moreover have "dollarFree (em_Name i)" and "dollarFree (em_Alias i)"
    using o f by (auto simp: specOk_def dollarFree_trimSuffix dollarFree_ident)
  ultimately have "embedFree i" using f by (auto simp: embedFree_def split: option.split)
  moreover have "scopeOk i" using o by (simp add: specOk_def scopeOk_def allLeaves_def)
  moreover have "list_all embedSafe children"
    using 1 tablesFree_map [OF 1(4)] by (cases "children = []") (auto simp: list_all_iff split: option.splits)
  ultimately show ?case by simp
qed

text \<open>The scope of an embed may change under a renderer, nothing else.\<close>

lemma sameEmbed_free: "sameEmbed i j \<Longrightarrow> embedFree i = embedFree j"
proof -
  assume s: "sameEmbed i j"
  have f: "embedFree (i\<lparr>em_Where := None, em_Order := [], em_Limit := None, em_Offset := None\<rparr>) = embedFree i" for i
    by (simp add: embedFree_def)
  from s show ?thesis unfolding sameEmbed_def by (metis f)
qed

lemma sameEmbeds_safe:
  assumes "sameEmbeds es' es" and "list_all embedSafe es" and "list_all scopeReady es'"
  shows "list_all embedSafe es'"
proof -
  have "embedSafe a" if "sameEmbed (em_info a) (em_info b)" "em_Children a = em_Children b" "embedSafe b" "scopeReady a" for a b
    using that sameEmbed_free by (cases a; cases b) (auto simp: scopeReady_def)
  with assms show ?thesis by (auto simp: sameEmbeds_def list_all2_conv_all_nth list_all_length)
qed

end
