(* ===== verification/Postgrest_Query.thy ===== *)
theory Postgrest_Query
  imports Embed_Laws
begin

text \<open>
  The query builders (second half of \<open>builders.go\<close>): the SELECT with its embeds, joins, EXISTS filters, grouping
  and paging, and the INSERT, upsert, UPDATE and DELETE statements. A builder returns the SQL text, the
  arguments and the next free placeholder. A nil table map is the empty map.
\<close>

section \<open>Clauses\<close>

record QueryParams =
  qp_Select :: "string list"
  qp_Embeds :: "Embed list"
  qp_Where :: "WhereNode option"
  qp_Having :: "WhereNode option"
  qp_Order :: "OrderClause list"
  qp_Limit :: int
  qp_Offset :: int

definition quote1 :: "string \<Rightarrow> string" where
  "quote1 s = [CHR 0x27] @ s @ [CHR 0x27]"

definition NullIfNoMatch :: "string \<Rightarrow> string \<Rightarrow> string \<Rightarrow> string" where
  "NullIfNoMatch alias refCol expr =
     ''CASE WHEN '' @ alias @ ''.'' @ refCol @ '' IS NULL THEN NULL ELSE '' @ expr @ '' END''"

definition HasBelongsToJoin :: "Embed list \<Rightarrow> bool" where
  "HasBelongsToJoin embeds = list_ex (\<lambda>e. \<not> em_IsReverse (em_info e)) embeds"

definition QualifyOrderColumns :: "OrderClause list \<Rightarrow> string \<Rightarrow> OrderClause list" where
  "QualifyOrderColumns clauses tableName =
     map (\<lambda>oc. if \<not> oc_IsAlias oc \<and> \<not> strContains (oc_Column oc) ''.''
               then oc\<lparr>oc_Column := tableName @ ''.'' @ oc_Column oc\<rparr> else oc) clauses"

fun aliasNode :: "string \<Rightarrow> WhereNode \<Rightarrow> WhereNode" where
  "aliasNode alias (WLeaf neg f) = WLeaf neg (f\<lparr>flt_Column := alias @ ''.'' @ flt_Column f\<rparr>)"
| "aliasNode alias (WNode op neg children) = WNode op neg (map (aliasNode alias) children)"

definition AliasWhereColumns :: "WhereNode option \<Rightarrow> string \<Rightarrow> WhereNode option" where
  "AliasWhereColumns n alias = map_option (aliasNode alias) n"

definition renderOrderTerm :: "OrderClause \<Rightarrow> string" where
  "renderOrderTerm o1 =
     (let dir = (if oc_Desc o1 then ''DESC'' else ''ASC'');
          col = (if oc_IsAlias o1 then [CHR 0x22] @ replaceAll (oc_Column o1) (CHR 0x22) [CHR 0x22, CHR 0x22] @ [CHR 0x22]
                 else oc_Column o1);
          c = col @ '' '' @ dir
      in if oc_Nulls o1 = ''first'' then c @ '' NULLS FIRST''
         else if oc_Nulls o1 = ''last'' then c @ '' NULLS LAST'' else c)"

definition RenderOrderBy :: "OrderClause list \<Rightarrow> string" where
  "RenderOrderBy clauses = strJoin (map renderOrderTerm clauses) '', ''"

definition orderSuffix :: "OrderClause list \<Rightarrow> string" where
  "orderSuffix order = (if order \<noteq> [] then '' ORDER BY '' @ RenderOrderBy order else [])"

definition numSuffix :: "string \<Rightarrow> int option \<Rightarrow> string" where
  "numSuffix kw n = (case n of None \<Rightarrow> [] | Some k \<Rightarrow> kw @ itoaInt k)"

definition ToManyFrom :: "EmbedInfo \<Rightarrow> string \<Rightarrow> string" where
  "ToManyFrom emb parent =
     (case em_Junction emb of
        Some j \<Rightarrow>
          em_RefTable emb @ '', '' @ jn_Table j @ '' WHERE '' @ em_RefTable emb @ ''.'' @ jn_TargetRef j @ '' = '' @
          jn_Table j @ ''.'' @ jn_TargetColumn j @ '' AND '' @ jn_Table j @ ''.'' @ jn_SourceColumn j @ '' = '' @
          parent @ ''.'' @ jn_SourceRef j
      | None \<Rightarrow>
          em_RefTable emb @ '' WHERE '' @ em_RefTable emb @ ''.'' @ em_FKColumn emb @ '' = '' @ parent @ ''.'' @
          (if em_RefColumn emb \<noteq> [] then em_RefColumn emb else ''id''))"

definition ToManyScope :: "EmbedInfo \<Rightarrow> WhereNode option \<times> OrderClause list" where
  "ToManyScope emb =
     (if em_Junction emb = None then (em_Where emb, em_Order emb)
      else (AliasWhereColumns (em_Where emb) (em_RefTable emb), QualifyOrderColumns (em_Order emb) (em_RefTable emb)))"

section \<open>Embeds\<close>

definition scalarCols :: "EmbedInfo \<Rightarrow> Embed list \<Rightarrow> Table gmap \<Rightarrow> string list" where
  "scalarCols i children allTables =
     (if em_Columns i = [] \<and> children \<noteq> [] then
        (case map_of allTables (em_RefTable i) of None \<Rightarrow> [] | Some t \<Rightarrow> sort (map fld_Name (tbl_Fields t)))
      else em_Columns i)"

definition colEntry :: "string \<Rightarrow> string \<Rightarrow> string" where
  "colEntry src c = quote1 c @ '', '' @ src @ ''.'' @ c"

function BuildEmbedRowExpr :: "Embed \<Rightarrow> string \<Rightarrow> Table gmap \<Rightarrow> nat \<Rightarrow> string \<times> string list \<times> nat"
  and BuildChildEmbedSubselect :: "Embed \<Rightarrow> string \<Rightarrow> Table gmap \<Rightarrow> nat \<Rightarrow> string \<times> string list \<times> nat" where
  "BuildEmbedRowExpr (Embed i children) srcAlias allTables argIdx =
     (if em_Columns i = [] \<and> children = [] then (''row_to_json('' @ srcAlias @ ''.*)'', [], argIdx)
      else let (entries, args, next) =
                 threadArgs (\<lambda>child n.
                   let (expr, a, m) = BuildChildEmbedSubselect child srcAlias allTables n
                   in (quote1 (OutputKey (em_info child)) @ '', '' @ expr, a, m)) children argIdx
           in (''json_build_object('' @
                 strJoin (map (colEntry srcAlias) (scalarCols i children allTables) @ entries) '', '' @ '')'', args, next))"
| "BuildChildEmbedSubselect child parentAlias allTables argIdx =
     (let i = em_info child in
      if em_IsReverse i then
        (let (rowExpr, rowArgs, n) = BuildEmbedRowExpr child (em_RefTable i) allTables argIdx;
             (wh, order) = ToManyScope i;
             (clause, clauseArgs, m) = andClause (BuildSQL wh) n
         in (''(SELECT coalesce(json_agg('' @ rowExpr @ orderSuffix order @ ''), '' @ quote1 ''[]'' @ ''::json) FROM '' @
               ToManyFrom i parentAlias @ clause @ numSuffix '' LIMIT '' (em_Limit i) @ numSuffix '' OFFSET '' (em_Offset i) @
               '')'', rowArgs @ clauseArgs, m))
      else
        (let (rowExpr, rowArgs, n) = BuildEmbedRowExpr child (em_RefTable i) allTables argIdx
         in (''(SELECT '' @ rowExpr @ '' FROM '' @ em_RefTable i @ '' WHERE '' @ em_RefTable i @ ''.'' @ em_RefColumn i @
               '' = '' @ parentAlias @ ''.'' @ em_FKColumn i @ '' LIMIT 1)'', rowArgs, n)))"
  by pat_completeness auto

lemma child_size: "c \<in> set children \<Longrightarrow> size c < size (Embed i children)"
  by (induction children) auto

termination BuildEmbedRowExpr
  by (relation "measure (\<lambda>x. case x of Inl (e, _) \<Rightarrow> 2 * size e | Inr (c, _) \<Rightarrow> 2 * size c + 1)")
    (auto dest: child_size [where i = undefined])

declare BuildEmbedRowExpr.simps [simp del] BuildChildEmbedSubselect.simps [simp del]

section \<open>SELECT\<close>

text \<open>The variables of \<open>BuildSelectQueryFull\<close> that its closures and loops update.\<close>

record SelState =
  ss_parts :: "string list"
  ss_group :: "string list"
  ss_args :: "string list"
  ss_idx :: nat

definition addGroupKey :: "bool \<Rightarrow> string \<Rightarrow> SelState \<Rightarrow> SelState" where
  "addGroupKey hasAgg part st =
     (let parts = ss_parts st @ [part] in
      st\<lparr>ss_parts := parts, ss_group := (if hasAgg then ss_group st @ [itoa (length parts)] else ss_group st)\<rparr>)"

definition addEmbedPart :: "bool \<Rightarrow> string \<Rightarrow> string \<Rightarrow> SelState \<Rightarrow> SelState" where
  "addEmbedPart hasAgg expr key st =
     addGroupKey hasAgg ((if hasAgg then ''('' @ expr @ '')::jsonb'' else expr) @ '' AS '' @ key) st"

definition addArgs :: "string list \<Rightarrow> nat \<Rightarrow> SelState \<Rightarrow> SelState" where
  "addArgs args next st = st\<lparr>ss_args := ss_args st @ args, ss_idx := next\<rparr>"

definition selectItems :: "string list \<Rightarrow> SelectItem list" where
  "selectItems sel = map ParseSelectItem (filter (\<lambda>s. \<not> isEmbedEntry s) sel)"

definition initSelect :: "string \<Rightarrow> string list \<Rightarrow> bool \<times> SelState" where
  "initSelect tableName sel =
     (let items = selectItems sel;
          hasAgg = list_ex (\<lambda>item. si_Agg item \<noteq> []) items;
          parts = map (RenderSelectItem tableName) items;
          group = (if hasAgg then
                     filter (\<lambda>e. e \<noteq> []) (map (RenderSelectItemGroupByExpr tableName)
                       (filter (\<lambda>item. si_Agg item = []) items))
                   else [])
      in (hasAgg, \<lparr>ss_parts = (if parts = [] then [tableName @ ''.*''] else parts), ss_group = group,
                   ss_args = [], ss_idx = 1\<rparr>))"

definition embedAlias :: "EmbedInfo \<Rightarrow> string" where
  "embedAlias i = ''_emb_'' @ OutputKey i"

text \<open>The subselect of a to-many embed; a limit or offset needs an inner subquery, since it must cut the
  rows before they are aggregated.\<close>

definition toManySelect :: "string \<Rightarrow> Table gmap \<Rightarrow> Embed \<Rightarrow> nat \<Rightarrow> string \<times> string list \<times> nat" where
  "toManySelect tableName allTables emb argIdx =
     (let i = em_info emb;
          (rowExpr, rowArgs, n) = BuildEmbedRowExpr emb (em_RefTable i) allTables argIdx;
          (wh, order) = ToManyScope i;
          (clause, clauseArgs, m) = andClause (BuildSQL wh) n;
          args = rowArgs @ clauseArgs
      in if em_Limit i \<noteq> None \<or> em_Offset i \<noteq> None then
           (let cols = (if em_Junction i \<noteq> None then em_RefTable i @ ''.*'' else ''*'');
                inner = ''SELECT '' @ cols @ '' FROM '' @ ToManyFrom i tableName @ clause @ orderSuffix order @
                        numSuffix '' LIMIT '' (em_Limit i) @ numSuffix '' OFFSET '' (em_Offset i)
            in (''(SELECT coalesce(json_agg('' @ rowExpr @ ''), '' @ quote1 ''[]'' @ ''::json) FROM ('' @ inner @ '') '' @
                em_RefTable i @ '')'', args, m))
         else (''(SELECT coalesce(json_agg('' @ rowExpr @ orderSuffix order @ ''), '' @ quote1 ''[]'' @ ''::json) FROM '' @
               ToManyFrom i tableName @ clause @ '')'', args, m))"

definition spreadChild :: "bool \<Rightarrow> string \<Rightarrow> Table gmap \<Rightarrow> Embed \<Rightarrow> SelState \<Rightarrow> SelState" where
  "spreadChild hasAgg alias allTables child st =
     (let (expr, args, next) = BuildChildEmbedSubselect child alias allTables (ss_idx st)
      in addArgs args next (addEmbedPart hasAgg expr (OutputKey (em_info child)) st))"

definition spreadColumns :: "EmbedInfo \<Rightarrow> Table gmap \<Rightarrow> string list" where
  "spreadColumns i allTables =
     (if em_Columns i \<noteq> [] then em_Columns i
      else case map_of allTables (em_RefTable i) of None \<Rightarrow> [] | Some t \<Rightarrow> sort (map fld_Name (tbl_Fields t)))"

definition embedStep :: "string \<Rightarrow> Table gmap \<Rightarrow> bool \<Rightarrow> Embed \<Rightarrow> SelState \<Rightarrow> SelState" where
  "embedStep tableName allTables hasAgg emb st =
     (let i = em_info emb; alias = embedAlias i; key = OutputKey i in
      if em_IsReverse i then
        (let (sub, args, next) = toManySelect tableName allTables emb (ss_idx st)
         in addEmbedPart hasAgg sub key (addArgs args next st))
      else if em_Spread i then
        fold (spreadChild hasAgg alias allTables) (em_Children emb)
          (fold (\<lambda>c. addGroupKey hasAgg (alias @ ''.'' @ c)) (spreadColumns i allTables) st)
      else if em_Children emb \<noteq> [] then
        (let (rowExpr, args, next) = BuildEmbedRowExpr emb alias allTables (ss_idx st)
         in addEmbedPart hasAgg (NullIfNoMatch alias (em_RefColumn i) rowExpr) key (addArgs args next st))
      else if em_Columns i = [] then addEmbedPart hasAgg (''row_to_json('' @ alias @ ''.*)'') key st
      else addEmbedPart hasAgg
             (NullIfNoMatch alias (em_RefColumn i)
                (''json_build_object('' @ strJoin (map (colEntry alias) (em_Columns i)) '', '' @ '')'')) key st)"

definition joinClause :: "string \<Rightarrow> Embed \<Rightarrow> nat \<Rightarrow> string \<times> string list \<times> nat" where
  "joinClause tableName emb argIdx =
     (let i = em_info emb; alias = embedAlias i;
          joinKind = (if em_Inner i then ''INNER JOIN'' else ''LEFT JOIN'');
          (clause, args, next) = andClause (BuildSQL (AliasWhereColumns (em_Where i) alias)) argIdx
      in ('' '' @ joinKind @ '' '' @ em_RefTable i @ '' AS '' @ alias @ '' ON '' @ tableName @ ''.'' @ em_FKColumn i @
          '' = '' @ alias @ ''.'' @ em_RefColumn i @ clause, args, next))"

definition existsClause :: "string \<Rightarrow> Embed \<Rightarrow> nat \<Rightarrow> string \<times> string list \<times> nat" where
  "existsClause parent emb argIdx =
     (let i = em_info emb;
          (clause, args, next) = andClause (BuildSQL (fst (ToManyScope i))) argIdx
      in (''EXISTS (SELECT 1 FROM '' @ ToManyFrom i parent @ clause @ '')'', args, next))"

definition InnerExistsClauses :: "Embed list \<Rightarrow> string \<Rightarrow> nat \<Rightarrow> string list \<times> string list \<times> nat" where
  "InnerExistsClauses embeds parent argIdx =
     threadArgs (existsClause parent)
       (filter (\<lambda>e. em_IsReverse (em_info e) \<and> em_Inner (em_info e)) embeds) argIdx"

definition pageSuffix :: "int \<Rightarrow> int \<Rightarrow> string" where
  "pageSuffix limit offset =
     (if 0 \<le> limit then '' LIMIT '' @ itoaInt limit @ '' OFFSET '' @ itoaInt offset
      else if 0 < offset then '' OFFSET '' @ itoaInt offset else [])"

text \<open>The WHERE list: the filter of the request unless it is empty, then the EXISTS clauses.\<close>

definition whereList :: "string \<Rightarrow> QueryParams \<Rightarrow> nat \<Rightarrow> string list \<times> string list \<times> nat" where
  "whereList tableName qp argIdx =
     (let parentWhere = (if HasBelongsToJoin (qp_Embeds qp) then AliasWhereColumns (qp_Where qp) tableName
                         else qp_Where qp);
          (whereSQL, whereArgs, n) = BuildSQL parentWhere argIdx;
          (existsParts, existsArgs, m) = InnerExistsClauses (qp_Embeds qp) tableName n
      in if whereSQL \<noteq> [] then (whereSQL # existsParts, whereArgs @ existsArgs, m)
         else (existsParts, existsArgs, m))"

definition BuildSelectQueryFull :: "string \<Rightarrow> QueryParams \<Rightarrow> Table \<Rightarrow> Table gmap \<Rightarrow> string \<times> string list" where
  "BuildSelectQueryFull tableName qp table allTables =
     (let (hasAgg, st0) = initSelect tableName (qp_Select qp);
          st = fold (embedStep tableName allTables hasAgg) (qp_Embeds qp) st0;
          (joins, joinArgs, n1) =
             threadArgs (joinClause tableName) (filter (\<lambda>e. \<not> em_IsReverse (em_info e)) (qp_Embeds qp)) (ss_idx st);
          (whereParts, whereArgs, n2) = whereList tableName qp n1;
          (havingSQL, havingArgs, n3) = BuildSQL (qp_Having qp) n2;
          order = (if HasBelongsToJoin (qp_Embeds qp) then QualifyOrderColumns (qp_Order qp) tableName else qp_Order qp)
      in (''SELECT '' @ strJoin (ss_parts st) '', '' @ '' FROM '' @ tableName @ concat joins @
          (if whereParts \<noteq> [] then '' WHERE '' @ strJoin whereParts '' AND '' else []) @
          (if ss_group st \<noteq> [] then '' GROUP BY '' @ strJoin (ss_group st) '', '' else []) @
          (if havingSQL \<noteq> [] then '' HAVING '' @ havingSQL else []) @
          orderSuffix order @ pageSuffix (qp_Limit qp) (qp_Offset qp),
          ss_args st @ joinArgs @ whereArgs @ (if havingSQL \<noteq> [] then havingArgs else [])))"

definition BuildSelectQuery :: "string \<Rightarrow> QueryParams \<Rightarrow> Table \<Rightarrow> string \<times> string list" where
  "BuildSelectQuery tableName qp table = BuildSelectQueryFull tableName qp table []"

section \<open>Records\<close>

text \<open>A record of a request body is a Go map from column to a JSON value of any type.\<close>

definition FindUnknownFields :: "'v gmap \<Rightarrow> Field gmap \<Rightarrow> string list" where
  "FindUnknownFields record fieldMap = sort (filter (\<lambda>k. \<not> mapHas fieldMap k) (map fst record))"

definition RecordsAllEmpty :: "'v gmap list \<Rightarrow> bool" where
  "RecordsAllEmpty records = list_all (\<lambda>r. r = []) records"

definition UnionColumns :: "'v gmap list \<Rightarrow> string list" where
  "UnionColumns records = sort (remdups (concat (map (map fst) records)))"

fun rowParts :: "'v gmap \<Rightarrow> string list \<Rightarrow> nat \<Rightarrow> string list \<times> 'v list \<times> nat" where
  "rowParts rec [] argIdx = ([], [], argIdx)"
| "rowParts rec (col # cols) argIdx =
     (case map_of rec col of
        Some v \<Rightarrow> (let (ps, args, next) = rowParts rec cols (argIdx + 1) in (ph argIdx # ps, v # args, next))
      | None \<Rightarrow> (let (ps, args, next) = rowParts rec cols argIdx in (''DEFAULT'' # ps, args, next)))"

definition rowTuple :: "string list \<Rightarrow> 'v gmap \<Rightarrow> nat \<Rightarrow> string \<times> 'v list \<times> nat" where
  "rowTuple cols rec argIdx =
     (let (ps, args, next) = rowParts rec cols argIdx in (''('' @ strJoin ps '', '' @ '')'', args, next))"

definition RenderRowTuples :: "'v gmap list \<Rightarrow> string list \<Rightarrow> nat \<Rightarrow> 'v list \<times> string list" where
  "RenderRowTuples records cols startArg =
     (let (rowSQLs, args, next) = threadArgs (rowTuple cols) records startArg in (args, rowSQLs))"

definition returningSuffix :: "bool \<Rightarrow> string" where
  "returningSuffix returning = (if returning then '' RETURNING *'' else [])"

definition conflictAction :: "string list \<Rightarrow> string list \<Rightarrow> string \<Rightarrow> string" where
  "conflictAction cols conflictCols resolution =
     (if resolution = ''ignore'' then ''DO NOTHING''
      else let assign = (\<lambda>c. c @ '' = EXCLUDED.'' @ c);
               set1 = map assign (filter (\<lambda>c. c \<notin> set conflictCols) cols);
               set2 = (if set1 = [] then map assign cols else set1)
           in if set2 = [] then ''DO NOTHING'' else ''DO UPDATE SET '' @ strJoin set2 '', '')"

definition BuildBulkInsertQuery :: "string \<Rightarrow> 'v gmap list \<Rightarrow> bool \<Rightarrow> string \<times> 'v list" where
  "BuildBulkInsertQuery tableName records returning =
     (let cols = UnionColumns records; (args, rowSQLs) = RenderRowTuples records cols 1
      in (''INSERT INTO '' @ tableName @ '' ('' @ strJoin cols '', '' @ '') VALUES '' @ strJoin rowSQLs '', '' @
          returningSuffix returning, args))"

definition BuildBulkUpsertQuery ::
  "string \<Rightarrow> 'v gmap list \<Rightarrow> string list \<Rightarrow> string \<Rightarrow> bool \<Rightarrow> string \<times> 'v list" where
  "BuildBulkUpsertQuery tableName records conflictCols resolution returning =
     (let cols = UnionColumns records; (args, rowSQLs) = RenderRowTuples records cols 1
      in (''INSERT INTO '' @ tableName @ '' ('' @ strJoin cols '', '' @ '') VALUES '' @ strJoin rowSQLs '', '' @
          '' ON CONFLICT ('' @ strJoin conflictCols '', '' @ '') '' @ conflictAction cols conflictCols resolution @
          returningSuffix returning, args))"

text \<open>\<open>record[col]\<close> for the sorted keys of the record.\<close>

definition recordArgs :: "'v gmap \<Rightarrow> 'v list" where
  "recordArgs rec = map (\<lambda>c. the (map_of rec c)) (sortedKeys rec)"

definition BuildInsertQuery :: "string \<Rightarrow> 'v gmap \<Rightarrow> bool \<Rightarrow> string \<times> 'v list" where
  "BuildInsertQuery tableName rec returning =
     (let cols = sortedKeys rec in
      (''INSERT INTO '' @ tableName @ '' ('' @ strJoin cols '', '' @ '') VALUES ('' @
       strJoin (phs 1 (length cols)) '', '' @ '')'' @ returningSuffix returning, recordArgs rec))"

definition BuildUpsertQuery :: "string \<Rightarrow> 'v gmap \<Rightarrow> string list \<Rightarrow> string \<Rightarrow> bool \<Rightarrow> string \<times> 'v list" where
  "BuildUpsertQuery tableName rec conflictCols resolution returning =
     (let cols = sortedKeys rec in
      (''INSERT INTO '' @ tableName @ '' ('' @ strJoin cols '', '' @ '') VALUES ('' @
       strJoin (phs 1 (length cols)) '', '' @ '') ON CONFLICT ('' @ strJoin conflictCols '', '' @ '') '' @
       conflictAction cols conflictCols resolution @ returningSuffix returning, recordArgs rec))"

text \<open>The arguments of an UPDATE are the new values and then the filter values (strings).\<close>

definition BuildUpdateQuery ::
  "string \<Rightarrow> 'v gmap \<Rightarrow> WhereNode option \<Rightarrow> bool \<Rightarrow> string \<times> ('v + string) list" where
  "BuildUpdateQuery tableName updates wh returning =
     (let cols = sortedKeys updates;
          setParts = map (\<lambda>(col, i). col @ '' = '' @ ph i) (zip cols [1..<1 + length cols]);
          (whereSQL, whereArgs, next) = BuildSQL wh (1 + length cols)
      in (''UPDATE '' @ tableName @ '' SET '' @ strJoin setParts '', '' @
          (if whereSQL \<noteq> [] then '' WHERE '' @ whereSQL else []) @ returningSuffix returning,
          map Inl (recordArgs updates) @ (if whereSQL \<noteq> [] then map Inr whereArgs else [])))"

definition BuildDeleteQuery :: "string \<Rightarrow> WhereNode option \<Rightarrow> bool \<Rightarrow> string \<times> string list" where
  "BuildDeleteQuery tableName wh returning =
     (let (whereSQL, args, next) = BuildSQL wh 1
      in (''DELETE FROM '' @ tableName @ (if whereSQL \<noteq> [] then '' WHERE '' @ whereSQL else []) @
          returningSuffix returning, args))"

section \<open>Column lists of a request\<close>

definition unquote :: "string \<Rightarrow> string" where
  "unquote c = (if 2 \<le> length c \<and> hd c = CHR 0x22 \<and> last c = CHR 0x22 then butlast (tl c) else c)"

text \<open>The allow-set, as the list of its members; \<open>None\<close> is the nil map (no hint).\<close>

definition ParseColumnsParam :: "string \<Rightarrow> Table \<Rightarrow> pg_error + string list option" where
  "ParseColumnsParam val0 table =
     (let val = trimSpace val0 in
      if val = [] then Inr None
      else case traverse (\<lambda>c0. let c = unquote (trimSpace c0) in
                  if c = [] then Inl (Errorf ''empty column in columns hint'' [])
                  else if GetField table c = None then Inl (Errorf ''unknown column %q in columns hint'' [c])
                  else Inr c) (strSplit val (CHR '','')) of
             Inl e \<Rightarrow> Inl e
           | Inr cols \<Rightarrow> Inr (Some cols))"

definition FilterRecordsByColumns :: "'v gmap list \<Rightarrow> string list option \<Rightarrow> 'v gmap list" where
  "FilterRecordsByColumns records allowed =
     (case allowed of None \<Rightarrow> records
      | Some cols \<Rightarrow> map (filter (\<lambda>(k, v). k \<in> set cols)) records)"

definition ParseOnConflictParam :: "string \<Rightarrow> Table \<Rightarrow> pg_error + string list" where
  "ParseOnConflictParam val0 table =
     (let val = trimSpace val0 in
      if val = [] then Inr []
      else traverse (\<lambda>c0. let c = trimSpace c0 in
             if c = [] then Inl (Errorf ''empty column in on_conflict'' [])
             else case ValidateColumn table c of
                    Some e \<Rightarrow> Inl (Errorw ''invalid on_conflict column: %w'' [] e)
                  | None \<Rightarrow> Inr c) (strSplit val (CHR '','')))"

end
