(* ===== verification/Query_Laws.thy ===== *)
theory Query_Laws
  imports Postgrest_Query
begin

text \<open>
  The builders number their placeholders: whatever a request combines (aggregates, embeds of every kind,
  joins, filters, EXISTS clauses, HAVING), the text mentions \<open>$1 \<dots> $n\<close> consecutively, each once and in the
  order of the arguments. Further laws: output names are quoted so that the quoting can be undone, an upsert
  never assigns a key column, a bulk insert binds each value of each record once, and a column hint keeps
  exactly the listed columns.
\<close>

section \<open>Texts without placeholders\<close>

lemma closes_append: "closes s \<Longrightarrow> closes t \<Longrightarrow> closes (s @ t)"
  by (cases s) auto

lemma dollarFree_quote1 [simp]: "dollarFree (quote1 s) = dollarFree s"
  by (simp add: quote1_def)

lemma dollarFree_orderTerm: "dollarFree (oc_Column oc) \<Longrightarrow> dollarFree (renderOrderTerm oc)"
  by (simp add: renderOrderTerm_def Let_def dollarFree_replaceAll)

lemma dollarFree_orderSuffix: "list_all (\<lambda>oc. dollarFree (oc_Column oc)) ocs \<Longrightarrow> dollarFree (orderSuffix ocs)"
  by (auto simp: orderSuffix_def RenderOrderBy_def list_all_iff intro!: dollarFree_strJoin dollarFree_orderTerm)

lemma closes_orderSuffix [simp]: "closes (orderSuffix ocs)"
  by (simp add: orderSuffix_def isDigit_def)

lemma dollarFree_numSuffix: "dollarFree kw \<Longrightarrow> dollarFree (numSuffix kw n)"
  by (simp add: numSuffix_def split: option.split)

lemma closes_numSuffix: "closes kw \<Longrightarrow> kw \<noteq> [] \<Longrightarrow> closes (numSuffix kw n)"
  by (cases kw) (auto simp: numSuffix_def split: option.split)

lemma dollarFree_pageSuffix: "dollarFree (pageSuffix limit offset)"
  by (simp add: pageSuffix_def)

lemma closes_pageSuffix: "closes (pageSuffix limit offset)"
  by (simp add: pageSuffix_def isDigit_def)

lemma OutputKey_free: "embedFree i \<Longrightarrow> dollarFree (OutputKey i)"
  by (simp add: OutputKey_def embedFree_def)

lemma embedAlias_free: "embedFree i \<Longrightarrow> dollarFree (embedAlias i)"
  by (simp add: embedAlias_def OutputKey_free)

lemma ToManyFrom_free: "embedFree i \<Longrightarrow> dollarFree parent \<Longrightarrow> dollarFree (ToManyFrom i parent)"
  by (auto simp: ToManyFrom_def embedFree_def junctionFree_def split: option.split)

lemma aliasNode_leaves:
  "set (leaves (aliasNode a n)) = (\<lambda>f. f\<lparr>flt_Column := a @ ''.'' @ flt_Column f\<rparr>) ` set (leaves n)"
  by (induction n) (auto simp: image_UN)

lemma AliasWhere_ok: "allLeaves leafOk w \<Longrightarrow> dollarFree a \<Longrightarrow> allLeaves leafOk (AliasWhereColumns w a)"
  by (auto simp: allLeaves_def AliasWhereColumns_def aliasNode_leaves leafOk_def split: option.splits)

lemma QualifyOrder_ok:
  "list_all (\<lambda>oc. dollarFree (oc_Column oc)) ocs \<Longrightarrow> dollarFree t \<Longrightarrow>
     list_all (\<lambda>oc. dollarFree (oc_Column oc)) (QualifyOrderColumns ocs t)"
  by (auto simp: QualifyOrderColumns_def list_all_iff)

lemma ToManyScope_ok:
  assumes "scopeOk i" and "embedFree i"
  shows "allLeaves leafOk (fst (ToManyScope i))" and "dollarFree (orderSuffix (snd (ToManyScope i)))"
  using assms AliasWhere_ok QualifyOrder_ok
  by (auto simp: ToManyScope_def scopeOk_def embedFree_def intro!: dollarFree_orderSuffix)

lemma sorted_fields_free:
  "tablesFree m \<Longrightarrow> map_of m r = Some t \<Longrightarrow> c \<in> set (sort (map fld_Name (tbl_Fields t))) \<Longrightarrow> dollarFree c"
  by (auto simp: tableFree_def list_all_iff dest!: tablesFree_map)

lemma scalarCols_free:
  "embedFree i \<Longrightarrow> tablesFree m \<Longrightarrow> c \<in> set (scalarCols i children m) \<Longrightarrow> dollarFree c"
  by (auto simp: scalarCols_def embedFree_def list_all_iff flip_Some simp del: set_sort dest: sorted_fields_free
      split: if_splits option.splits)

lemma spreadColumns_free:
  "embedFree i \<Longrightarrow> tablesFree m \<Longrightarrow> c \<in> set (spreadColumns i m) \<Longrightarrow> dollarFree c"
  by (auto simp: spreadColumns_def embedFree_def list_all_iff flip_Some simp del: set_sort dest: sorted_fields_free
      split: if_splits option.splits)

lemma colEntry_free: "dollarFree src \<Longrightarrow> dollarFree c \<Longrightarrow> dollarFree (colEntry src c)"
  by (simp add: colEntry_def)

section \<open>Composing numbered texts\<close>

lemma numbered_two:
  assumes "numbered i (s, a, n)" and "numbered n (t, b, m)"
    and "dollarFree p" and "dollarFree q" and "dollarFree r" and "closes q" and "closes t" and "closes r"
  shows "numbered i (p @ s @ q @ t @ r, a @ b, m)"
proof -
  have "closes (q @ t @ r)" and "closes r" using assms closes_append by auto
  with assms show ?thesis
    by (auto simp: numbered_def placeholders_append placeholders_free upt_split)
qed

lemma upt_chain: "a \<le> b \<Longrightarrow> b \<le> c \<Longrightarrow> c \<le> d \<Longrightarrow> d \<le> e \<Longrightarrow> [a..<b] @ [b..<c] @ [c..<d] @ [d..<e] = [a..<e]"
  by (simp add: upt_split)

lemma numbered_empty: "numbered i ([], a, j) \<Longrightarrow> a = [] \<and> j = i"
  by (auto simp: numbered_def dest: arg_cong [of _ _ length])

lemma numbered_wrap:
  assumes "numbered i (s, a, n)" and "dollarFree p" and "dollarFree r" and "closes r"
  shows "numbered i (p @ s @ r, a, n)"
  using assms by (simp add: numbered_def placeholders_append placeholders_free)

lemma and_where:
  assumes "allLeaves leafOk w"
  obtains s a j where "andClause (BuildSQL w) i = (s, a, j)" and "numbered i (s, a, j)" and "closes s"
proof -
  obtain s a j where e: "andClause (BuildSQL w) i = (s, a, j)" by (cases "andClause (BuildSQL w) i") auto
  from where_sql.and_numbered [OF assms, of i] e closes_andClause [OF e] show thesis by (intro that) auto
qed

section \<open>Embeds\<close>

lemma rowExpr_numbered:
  assumes IH: "\<And>c n. c \<in> set children \<Longrightarrow> numbered n (BuildChildEmbedSubselect c src m n)"
    and safe: "embedSafe (Embed i children)" and src: "dollarFree src" and m: "tablesFree m"
  shows "numbered k (BuildEmbedRowExpr (Embed i children) src m k)"
proof (cases "em_Columns i = [] \<and> children = []")
  case True
  then show ?thesis using src by (simp add: BuildEmbedRowExpr.simps numbered_free)
next
  case False
  define child where "child = (\<lambda>c n. let (expr, a, m) = BuildChildEmbedSubselect c src m n
      in (quote1 (OutputKey (em_info c)) @ '', '' @ expr, a, m))"
  have i: "embedFree i" and ch: "\<forall>c \<in> set children. embedFree (em_info c)"
    using safe by (auto simp: list_all_iff) (metis embedSafe.elims(2) Embed.sel(1))
  obtain entries args j where t: "threadArgs child children k = (entries, args, j)"
    by (cases "threadArgs child children k") auto
  have "numbered n (child c n)" if c: "c \<in> set children" for c n
    using IH [OF c, of n] OutputKey_free [of "em_info c"] ch c
    by (auto simp: child_def numbered_def split: prod.split)
  then have e: "numberedList k (entries, args, j)" using threadArgs_numbered [of children child k] t by simp
  have "numberedList k (map (colEntry src) (scalarCols i children m), [] :: string list, k)"
    using scalarCols_free [OF i m] src by (intro numberedList_free) (auto intro: colEntry_free)
  from numberedList_append [OF this e] have
    "numbered k (strJoin (map (colEntry src) (scalarCols i children m) @ entries) '', '', args, j)"
    using numberedList_join [of k _ args j "'', ''"] by (simp add: isDigit_def)
  from numbered_wrap [OF this, of "''json_build_object(''" "'')''"] False t show ?thesis
    by (auto simp: BuildEmbedRowExpr.simps isDigit_def child_def)
qed

lemma child_numbered:
  assumes row: "\<And>n. numbered n (BuildEmbedRowExpr child (em_RefTable (em_info child)) m n)"
    and safe: "embedSafe child" and src: "dollarFree src"
  shows "numbered k (BuildChildEmbedSubselect child src m k)"
proof -
  define i where "i = em_info child"
  obtain s a n where r: "BuildEmbedRowExpr child (em_RefTable i) m k = (s, a, n)"
    by (cases "BuildEmbedRowExpr child (em_RefTable i) m k") auto
  have rn: "numbered k (s, a, n)" using row [of k] r by (simp add: i_def)
  have i: "embedFree i" "scopeOk i" using safe by (cases child; simp add: i_def)+
  have d: "dollarFree (em_RefTable i)" "dollarFree (em_RefColumn i)" "dollarFree (em_FKColumn i)"
    using i by (simp_all add: embedFree_def)
  show ?thesis
  proof (cases "em_IsReverse i")
    case True
    obtain wh order where sc: "ToManyScope i = (wh, order)" by (cases "ToManyScope i")
    then have w: "allLeaves leafOk wh" and o: "dollarFree (orderSuffix order)"
      using ToManyScope_ok [OF i(2,1)] by simp_all
    from and_where [OF w, of n] obtain c b j where c: "andClause (BuildSQL wh) n = (c, b, j)"
      "numbered n (c, b, j)" "closes c" by blast
    have close: "closes (numSuffix '' LIMIT '' (em_Limit i) @ numSuffix '' OFFSET '' (em_Offset i) @ '')'')"
      by (intro closes_append closes_numSuffix) (simp_all add: isDigit_def)
    from numbered_two [OF rn c(2), of "''(SELECT coalesce(json_agg(''"
        "orderSuffix order @ ''), '' @ quote1 ''[]'' @ ''::json) FROM '' @ ToManyFrom i src"
        "numSuffix '' LIMIT '' (em_Limit i) @ numSuffix '' OFFSET '' (em_Offset i) @ '')''"]
    show ?thesis
      using True r c(1,3) sc o src i ToManyFrom_free [OF i(1) src] close
      by (simp add: BuildChildEmbedSubselect.simps i_def [symmetric] dollarFree_numSuffix closes_append isDigit_def)
  next
    case False
    then show ?thesis
      using r numbered_wrap [OF rn, of "''(SELECT ''" "'' FROM '' @ em_RefTable i @ '' WHERE '' @ em_RefTable i @ ''.'' @
          em_RefColumn i @ '' = '' @ src @ ''.'' @ em_FKColumn i @ '' LIMIT 1)''"] d src
      by (simp add: BuildChildEmbedSubselect.simps i_def [symmetric] isDigit_def)
  qed
qed

lemma embed_numbered:
  assumes "tablesFree m"
  shows "embedSafe e \<Longrightarrow> dollarFree src \<Longrightarrow> numbered k (BuildEmbedRowExpr e src m k)"
    and "embedSafe e \<Longrightarrow> dollarFree src \<Longrightarrow> numbered k (BuildChildEmbedSubselect e src m k)"
proof -
  have row: "embedSafe e \<Longrightarrow> dollarFree src \<Longrightarrow> numbered k (BuildEmbedRowExpr e src m k)" for e src k
  proof (induction e arbitrary: src k)
    case (Embed i children)
    have "numbered n (BuildChildEmbedSubselect c src m n)" if c: "c \<in> set children" for c n
    proof (rule child_numbered)
      have s: "embedSafe c" using Embed.prems(1) c by (simp add: list_all_iff)
      then show "embedSafe c" .
      have "dollarFree (em_RefTable (em_info c))" using s by (cases c) (simp add: embedFree_def)
      then show "numbered n (BuildEmbedRowExpr c (em_RefTable (em_info c)) m n)" for n
        using Embed.IH [OF c s] by blast
    qed (rule Embed.prems(2))
    then show ?case using Embed.prems assms by (intro rowExpr_numbered)
  qed
  then show "embedSafe e \<Longrightarrow> dollarFree src \<Longrightarrow> numbered k (BuildEmbedRowExpr e src m k)" .
  show "numbered k (BuildChildEmbedSubselect e src m k)" if s: "embedSafe e" and d: "dollarFree src"
  proof (rule child_numbered [OF _ s d])
    have "dollarFree (em_RefTable (em_info e))" using s by (cases e) (simp add: embedFree_def)
    then show "numbered n (BuildEmbedRowExpr e (em_RefTable (em_info e)) m n)" for n by (rule row [OF s])
  qed
qed

interpretation row_sql: sql_fragment "\<lambda>e. BuildEmbedRowExpr e src m"
    "\<lambda>e. embedSafe e \<and> dollarFree src \<and> tablesFree m" for src m
  by unfold_locales (simp add: embed_numbered)

interpretation child_sql: sql_fragment "\<lambda>e. BuildChildEmbedSubselect e src m"
    "\<lambda>e. embedSafe e \<and> dollarFree src \<and> tablesFree m" for src m
  by unfold_locales (simp add: embed_numbered)

lemma toMany_numbered:
  assumes safe: "embedSafe e" and t: "dollarFree tableName" and m: "tablesFree m"
  shows "numbered k (toManySelect tableName m e k)"
proof -
  define i where "i = em_info e"
  have i: "embedFree i" "scopeOk i" using safe by (cases e; simp add: i_def)+
  have d: "dollarFree (em_RefTable i)" using i by (simp add: embedFree_def)
  obtain s a n where r: "BuildEmbedRowExpr e (em_RefTable i) m k = (s, a, n)"
    by (cases "BuildEmbedRowExpr e (em_RefTable i) m k") auto
  then have rn: "numbered k (s, a, n)" using embed_numbered(1) [OF m safe d, of k] by simp
  obtain wh order where sc: "ToManyScope i = (wh, order)" by (cases "ToManyScope i")
  then have w: "allLeaves leafOk wh" and o: "dollarFree (orderSuffix order)"
    using ToManyScope_ok [OF i(2,1)] by simp_all
  from and_where [OF w, of n] obtain c b j where c: "andClause (BuildSQL wh) n = (c, b, j)"
    "numbered n (c, b, j)" "closes c" by blast
  define from_text where "from_text = ToManyFrom i tableName"
  have f: "dollarFree from_text" unfolding from_text_def by (rule ToManyFrom_free [OF i(1) t])
  define page where "page = numSuffix '' LIMIT '' (em_Limit i) @ numSuffix '' OFFSET '' (em_Offset i)"
  have p: "dollarFree page" "closes (page @ q)" if "closes q" for q
    using that by (auto simp: page_def dollarFree_numSuffix isDigit_def intro!: closes_append closes_numSuffix)
  define cols where "cols = (if em_Junction i \<noteq> None then em_RefTable i @ ''.*'' else ''*'')"
  have cd: "dollarFree cols" using d by (simp add: cols_def)
  define tail1 where "tail1 = orderSuffix order @ page @ '') '' @ em_RefTable i @ '')''"
  have tail: "dollarFree tail1" "closes tail1"
    using o p [of "'') '' @ em_RefTable i @ '')''"] d by (simp_all add: tail1_def closes_append isDigit_def)
  have inner: "numbered k (''(SELECT coalesce(json_agg('' @ s @ ('')'' @ '', '' @ quote1 ''[]'' @ ''::json) FROM ('' @
      ''SELECT '' @ cols @ '' FROM '' @ from_text) @ c @ tail1, a @ b, j)"
    by (rule numbered_two [OF rn c(2)]) (use c(3) f tail cd in \<open>simp_all add: isDigit_def\<close>)
  have flat: "numbered k (''(SELECT coalesce(json_agg('' @ s @ (orderSuffix order @ ''), '' @ quote1 ''[]'' @ ''::json) FROM '' @
      from_text) @ c @ '')'', a @ b, j)"
    by (rule numbered_two [OF rn c(2)]) (use c(3) f o in \<open>simp_all add: closes_append isDigit_def\<close>)
  show ?thesis
  proof (cases "em_Limit i \<noteq> None \<or> em_Offset i \<noteq> None")
    case True
    with inner r sc c(1) show ?thesis
      by (cases "em_Junction i")
        (simp_all add: toManySelect_def i_def [symmetric] from_text_def [symmetric] Let_def tail1_def page_def cols_def)
  next
    case False
    with flat r sc c(1) show ?thesis
      by (simp add: toManySelect_def i_def [symmetric] from_text_def [symmetric] Let_def)
  qed
qed

interpretation toMany_sql: sql_fragment "toManySelect tableName m"
    "\<lambda>e. embedSafe e \<and> dollarFree tableName \<and> tablesFree m" for tableName m
  by unfold_locales (simp add: toMany_numbered)

section \<open>The select list\<close>

definition selOk :: "SelState \<Rightarrow> bool" where
  "selOk st = (numberedList 1 (ss_parts st, ss_args st, ss_idx st) \<and> list_all dollarFree (ss_group st))"

lemma addGroupKey_args:
  "addGroupKey hasAgg part (addArgs args n st) = addArgs args n (addGroupKey hasAgg part st)"
  "addEmbedPart hasAgg expr key (addArgs args n st) = addArgs args n (addEmbedPart hasAgg expr key st)"
  by (simp_all add: addGroupKey_def addEmbedPart_def addArgs_def Let_def)

lemma numberedList_single: "numbered i (s, a, j) \<Longrightarrow> numberedList i ([s], a, j)"
  by (simp add: numberedList_def numbered_def)

lemma addGroupKey_ok:
  assumes "selOk st" and "numbered (ss_idx st) (part, args, n)"
  shows "selOk (addArgs args n (addGroupKey hasAgg part st))"
  using assms numberedList_append [of 1 "ss_parts st" "ss_args st" "ss_idx st" "[part]" args n]
  by (auto simp: selOk_def addGroupKey_def addArgs_def Let_def numberedList_single)

lemma addEmbedPart_ok:
  assumes "selOk st" and "numbered (ss_idx st) (expr, args, n)" and "dollarFree key"
  shows "selOk (addArgs args n (addEmbedPart hasAgg expr key st))"
proof -
  have "numbered (ss_idx st) ((if hasAgg then ''('' @ expr @ '')::jsonb'' else expr) @ '' AS '' @ key, args, n)"
    using assms(2,3) numbered_wrap [OF assms(2), of "''(''" "'')::jsonb AS '' @ key"]
      numbered_wrap [OF assms(2), of "[]" "'' AS '' @ key"] by (simp add: isDigit_def)
  from addGroupKey_ok [OF assms(1) this] show ?thesis by (simp add: addEmbedPart_def)
qed

lemma addArgs_none [simp]: "addArgs [] (ss_idx st) st = st"
  by (simp add: addArgs_def)

lemma idx_simps [simp]:
  "ss_idx (addGroupKey hasAgg part st) = ss_idx st" "ss_idx (addEmbedPart hasAgg expr key st) = ss_idx st"
  by (simp_all add: addGroupKey_def addEmbedPart_def Let_def)

lemma addFree_ok:
  assumes "selOk st" and "dollarFree part"
  shows "selOk (addGroupKey hasAgg part st)"
    and "dollarFree key \<Longrightarrow> selOk (addEmbedPart hasAgg part key st)"
proof -
  have n: "numbered (ss_idx st) (part, [] :: string list, ss_idx st)" using assms(2) by (rule numbered_free)
  from addGroupKey_ok [OF assms(1) n, of hasAgg] show "selOk (addGroupKey hasAgg part st)"
    using addArgs_none [of "addGroupKey hasAgg part st"] by simp
  from addEmbedPart_ok [OF assms(1) n, of key hasAgg] show "dollarFree key \<Longrightarrow> selOk (addEmbedPart hasAgg part key st)"
    using addArgs_none [of "addEmbedPart hasAgg part key st"] by simp
qed

lemma fold_inv: "P st \<Longrightarrow> (\<And>x st. x \<in> set xs \<Longrightarrow> P st \<Longrightarrow> P (f x st)) \<Longrightarrow> P (fold f xs st)"
  by (induction xs arbitrary: st) auto

lemma embedSafe_info: "embedSafe e \<Longrightarrow> embedFree (em_info e) \<and> scopeOk (em_info e) \<and> list_all embedSafe (em_Children e)"
  by (cases e) simp

lemma spreadChild_ok:
  assumes "selOk st" and "embedSafe c" and "dollarFree al" and "tablesFree m"
  shows "selOk (spreadChild hasAgg al m c st)"
proof -
  obtain s a n where r: "BuildChildEmbedSubselect c al m (ss_idx st) = (s, a, n)"
    by (cases "BuildChildEmbedSubselect c al m (ss_idx st)") auto
  with embed_numbered(2) [OF assms(4,2,3), of "ss_idx st"] have "numbered (ss_idx st) (s, a, n)" by simp
  from addEmbedPart_ok [OF assms(1) this] OutputKey_free embedSafe_info [OF assms(2)] r show ?thesis
    by (simp add: spreadChild_def)
qed

lemma embedStep_ok:
  assumes st: "selOk st" and safe: "embedSafe e" and t: "dollarFree tableName" and m: "tablesFree m"
  shows "selOk (embedStep tableName m hasAgg e st)"
proof -
  define i where "i = em_info e"
  define al where "al = embedAlias i"
  note info = embedSafe_info [OF safe, folded i_def]
  have key: "dollarFree (OutputKey i)" and al: "dollarFree al" and ref: "dollarFree (em_RefColumn i)"
    using info by (auto simp: OutputKey_free embedAlias_free al_def embedFree_def)
  have cols: "dollarFree (strJoin (map (colEntry al) (em_Columns i)) '', '')"
    using info al by (intro dollarFree_strJoin) (auto simp: embedFree_def list_all_iff intro: colEntry_free)
  consider (rev) "em_IsReverse i" | (spread) "\<not> em_IsReverse i" "em_Spread i"
    | (row) "\<not> em_IsReverse i" "\<not> em_Spread i" "em_Children e \<noteq> []"
    | (plain) "\<not> em_IsReverse i" "\<not> em_Spread i" "em_Children e = []" by blast
  then show ?thesis
  proof cases
    case rev
    obtain s a n where r: "toManySelect tableName m e (ss_idx st) = (s, a, n)"
      by (cases "toManySelect tableName m e (ss_idx st)") auto
    with toMany_numbered [OF safe t m, of "ss_idx st"] have "numbered (ss_idx st) (s, a, n)" by simp
    from addEmbedPart_ok [OF st this key] rev r show ?thesis
      by (simp add: embedStep_def i_def [symmetric] addGroupKey_args)
  next
    case spread
    have "selOk (fold (\<lambda>c. addGroupKey hasAgg (al @ ''.'' @ c)) (spreadColumns i m) st)"
      using spreadColumns_free [of i m] info m al by (intro fold_inv [of selOk] st addFree_ok) auto
    then have "selOk (fold (spreadChild hasAgg al m) (em_Children e)
        (fold (\<lambda>c. addGroupKey hasAgg (al @ ''.'' @ c)) (spreadColumns i m) st))"
      by (rule fold_inv [of selOk]) (use info in \<open>auto intro: spreadChild_ok al m simp: list_all_iff\<close>)
    then show ?thesis using spread by (simp add: embedStep_def i_def [symmetric] al_def [symmetric])
  next
    case row
    obtain s a n where r: "BuildEmbedRowExpr e al m (ss_idx st) = (s, a, n)"
      by (cases "BuildEmbedRowExpr e al m (ss_idx st)") auto
    with embed_numbered(1) [OF m safe al, of "ss_idx st"] have "numbered (ss_idx st) (s, a, n)" by simp
    from numbered_wrap [OF this, of "''CASE WHEN '' @ al @ ''.'' @ em_RefColumn i @ '' IS NULL THEN NULL ELSE ''" "'' END''"]
    have "numbered (ss_idx st) (NullIfNoMatch al (em_RefColumn i) s, a, n)"
      using al ref by (simp add: NullIfNoMatch_def isDigit_def)
    from addEmbedPart_ok [OF st this key] row r show ?thesis
      by (simp add: embedStep_def i_def [symmetric] al_def [symmetric] addGroupKey_args)
  next
    case plain
    then show ?thesis
      using addFree_ok(2) [OF st _ key] al ref cols
      by (simp add: embedStep_def i_def [symmetric] al_def [symmetric] NullIfNoMatch_def Let_def)
  qed
qed

text \<open>What a query must satisfy: the facts that parsing and validation establish.\<close>

definition queryOk :: "string \<Rightarrow> Table \<Rightarrow> Table gmap \<Rightarrow> QueryParams \<Rightarrow> bool" where
  "queryOk tableName table m qp =
     (dollarFree tableName \<and> tablesFree m \<and> list_all (safeItem table) (selectItems (qp_Select qp)) \<and>
      list_all embedSafe (qp_Embeds qp) \<and> allLeaves leafOk (qp_Where qp) \<and> allLeaves leafOk (qp_Having qp) \<and>
      list_all (\<lambda>oc. dollarFree (oc_Column oc)) (qp_Order qp))"

lemma initSelect_ok:
  assumes "list_all (safeItem table) (selectItems sel)" and "dollarFree tableName"
    and "initSelect tableName sel = (hasAgg, st)"
  shows "selOk st \<and> ss_idx st = 1 \<and> ss_args st = []"
proof -
  have "\<forall>p \<in> set (map (RenderSelectItem tableName) (selectItems sel)). dollarFree p"
    and g: "\<forall>item \<in> set (selectItems sel). dollarFree (RenderSelectItemGroupByExpr tableName item)"
    using assms(1,2) safeItem_render safeItem_groupBy by (auto simp: list_all_iff)
  then have "numberedList 1 (map (RenderSelectItem tableName) (selectItems sel), [] :: string list, 1)"
    by (intro numberedList_free)
  moreover have "numberedList 1 ([tableName @ ''.*''], [] :: string list, 1)"
    using assms(2) by (intro numberedList_free) simp
  ultimately show ?thesis
    using assms(3) g by (auto simp: initSelect_def Let_def selOk_def list_all_iff)
qed

lemma joinClause_numbered:
  assumes safe: "embedSafe e" and t: "dollarFree tableName"
  shows "numbered k (joinClause tableName e k)" and "closes (fst (joinClause tableName e k))"
proof -
  define i where "i = em_info e"
  note info = embedSafe_info [OF safe, folded i_def]
  have al: "dollarFree (embedAlias i)" using info embedAlias_free by blast
  have "allLeaves leafOk (AliasWhereColumns (em_Where i) (embedAlias i))"
    using info al by (intro AliasWhere_ok) (auto simp: scopeOk_def)
  from and_where [OF this, of k] obtain c b j where
    c: "andClause (BuildSQL (AliasWhereColumns (em_Where i) (embedAlias i))) k = (c, b, j)" "numbered k (c, b, j)" by blast
  from c(2) have "numbered k (('' '' @ (if em_Inner i then ''INNER JOIN'' else ''LEFT JOIN'') @ '' '' @ em_RefTable i @
      '' AS '' @ embedAlias i @ '' ON '' @ tableName @ ''.'' @ em_FKColumn i @
          '' = '' @ embedAlias i @ ''.'' @ em_RefColumn i) @ c, b, j)"
    using info t al by (subst numbered_prefix) (auto simp: embedFree_def)
  then show "numbered k (joinClause tableName e k)"
    using c(1) by (simp add: joinClause_def i_def [symmetric] Let_def)
  show "closes (fst (joinClause tableName e k))"
    using c(1) by (simp add: joinClause_def i_def [symmetric] Let_def isDigit_def)
qed

lemma existsClause_numbered:
  assumes safe: "embedSafe e" and t: "dollarFree parent"
  shows "numbered k (existsClause parent e k)"
proof -
  define i where "i = em_info e"
  note info = embedSafe_info [OF safe, folded i_def]
  from and_where [OF ToManyScope_ok(1), of i k] info obtain c b j where
    c: "andClause (BuildSQL (fst (ToManyScope i))) k = (c, b, j)" "numbered k (c, b, j)" by blast
  from numbered_wrap [OF c(2), of "''EXISTS (SELECT 1 FROM '' @ ToManyFrom i parent" "'')''"] c(1) info t
  show ?thesis by (simp add: existsClause_def i_def [symmetric] ToManyFrom_free isDigit_def)
qed

interpretation join_sql: sql_fragment "joinClause tableName" "\<lambda>e. embedSafe e \<and> dollarFree tableName" for tableName
  by unfold_locales (simp add: joinClause_numbered)

interpretation exists_sql: sql_fragment "existsClause parent" "\<lambda>e. embedSafe e \<and> dollarFree parent" for parent
  by unfold_locales (simp add: existsClause_numbered)

lemma whereList_numbered:
  assumes "queryOk tableName table m qp"
  shows "numberedList k (whereList tableName qp k)"
proof -
  define w where "w = (if HasBelongsToJoin (qp_Embeds qp) then AliasWhereColumns (qp_Where qp) tableName else qp_Where qp)"
  have "allLeaves leafOk w" using assms AliasWhere_ok by (auto simp: w_def queryOk_def)
  obtain s a n where b: "BuildSQL w k = (s, a, n)" by (cases "BuildSQL w k") auto
  with where_sql.build_numbered [OF \<open>allLeaves leafOk w\<close>, of k] have s: "numbered k (s, a, n)" by simp
  obtain ss c j where e: "InnerExistsClauses (qp_Embeds qp) tableName n = (ss, c, j)"
    by (cases "InnerExistsClauses (qp_Embeds qp) tableName n") auto
  have "numberedList n (InnerExistsClauses (qp_Embeds qp) tableName n)"
    unfolding InnerExistsClauses_def
    by (rule exists_sql.thread_numbered) (use assms in \<open>auto simp: queryOk_def list_all_iff\<close>)
  then have l: "numberedList n (ss, c, j)" using e by simp
  show ?thesis
  proof (cases "s = []")
    case True
    with numbered_empty s have "n = k" by blast
    with True l b e show ?thesis by (simp add: whereList_def Let_def w_def [symmetric])
  next
    case False
    with numberedList_Cons [OF s l] b e show ?thesis by (simp add: whereList_def Let_def w_def [symmetric])
  qed
qed

lemma numberedList_concat:
  "numberedList i (ss, a, j) \<Longrightarrow> \<forall>s \<in> set ss. closes s \<Longrightarrow> numbered i (concat ss, a, j) \<and> closes (concat ss)"
proof -
  have "\<forall>s \<in> set ss. closes s \<Longrightarrow> placeholders (concat ss) = concat (map placeholders ss) \<and> closes (concat ss)"
    by (induction ss) (auto simp: placeholders_append closes_append)
  then show "numberedList i (ss, a, j) \<Longrightarrow> \<forall>s \<in> set ss. closes s \<Longrightarrow> numbered i (concat ss, a, j) \<and> closes (concat ss)"
    by (simp add: numberedList_def numbered_def)
qed

lemma threadArgs_closes:
  "threadArgs f xs i = (ss, a, j) \<Longrightarrow> (\<And>x k. x \<in> set xs \<Longrightarrow> closes (fst (f x k))) \<Longrightarrow> \<forall>s \<in> set ss. closes s"
proof (induction xs arbitrary: i ss a j)
  case (Cons x xs)
  obtain s b n where f: "f x i = (s, b, n)" by (cases "f x i") auto
  obtain ts c m where t: "threadArgs f xs n = (ts, c, m)" by (cases "threadArgs f xs n") auto
  from Cons.prems(2) [of x i] f have "closes s" by simp
  moreover from Cons.IH [OF t] Cons.prems(2) have "\<forall>s \<in> set ts. closes s" by simp
  ultimately show ?case using Cons.prems(1) f t by auto
qed simp

lemma numbered_option:
  "numbered i (s, a, j) \<Longrightarrow> dollarFree p \<Longrightarrow>
     numbered i (if s \<noteq> [] then p @ s else [], if s \<noteq> [] then a else [], j)"
  using numbered_empty by (cases "s = []") (auto simp: numbered_prefix)

lemma select_numbered:
  assumes ok: "queryOk tableName table m qp" and q: "BuildSelectQueryFull tableName qp table m = (sql, args)"
  shows "placeholders sql = [1..<1 + length args]"
proof -
  have t: "dollarFree tableName" and m: "tablesFree m" and e: "\<forall>e \<in> set (qp_Embeds qp). embedSafe e"
    using ok by (auto simp: queryOk_def list_all_iff)
  obtain hasAgg st0 where i: "initSelect tableName (qp_Select qp) = (hasAgg, st0)" by fastforce
  define st where "st = fold (embedStep tableName m hasAgg) (qp_Embeds qp) st0"
  have "selOk st0" using initSelect_ok [OF _ t i] ok by (auto simp: queryOk_def)
  then have st: "selOk st"
    unfolding st_def by (rule fold_inv [of selOk]) (use e t m embedStep_ok in blast)
  obtain joins ja n1 where j: "threadArgs (joinClause tableName)
      (filter (\<lambda>e. \<not> em_IsReverse (em_info e)) (qp_Embeds qp)) (ss_idx st) = (joins, ja, n1)"
    by (rule prod_cases3)
  have "numberedList (ss_idx st) (joins, ja, n1)"
    unfolding j [symmetric] by (rule join_sql.thread_numbered) (use e t in auto)
  moreover have "\<forall>s \<in> set joins. closes s" by (rule threadArgs_closes [OF j]) (use e t joinClause_numbered in auto)
  ultimately have jn: "numbered (ss_idx st) (concat joins, ja, n1)" "closes (concat joins)"
    using numberedList_concat by blast+
  obtain wp wa n2 where w: "whereList tableName qp n1 = (wp, wa, n2)" by (rule prod_cases3)
  with whereList_numbered [OF ok, of n1] have wl: "numberedList n1 (wp, wa, n2)" by simp
  then have wn: "numbered n1 (strJoin wp '' AND '', wa, n2)" by (rule numberedList_join) (simp_all add: isDigit_def)
  obtain hs ha n3 where h: "BuildSQL (qp_Having qp) n2 = (hs, ha, n3)" by (rule prod_cases3)
  have hn: "numbered n2 (hs, ha, n3)"
    unfolding h [symmetric] by (rule where_sql.build_numbered) (use ok in \<open>simp add: queryOk_def\<close>)
  define tail where "tail = orderSuffix (if HasBelongsToJoin (qp_Embeds qp) then QualifyOrderColumns (qp_Order qp) tableName
      else qp_Order qp) @ pageSuffix (qp_Limit qp) (qp_Offset qp)"
  have tail: "dollarFree tail" "closes tail"
    using ok QualifyOrder_ok [of "qp_Order qp" tableName]
    by (auto simp: tail_def queryOk_def intro!: dollarFree_orderSuffix dollarFree_pageSuffix closes_append closes_pageSuffix)
  define grp where "grp = (if ss_group st \<noteq> [] then '' GROUP BY '' @ strJoin (ss_group st) '', '' else [])"
  have grp: "dollarFree grp" "closes grp"
    using st by (auto simp: grp_def selOk_def list_all_iff isDigit_def intro!: dollarFree_strJoin)
  define hav where "hav = (if hs \<noteq> [] then '' HAVING '' @ hs else [])"
  have hav: "placeholders hav = [n2..<n3]" "closes hav" "n3 = n2 + length (if hs \<noteq> [] then ha else [])"
    using numbered_option [OF hn, of "'' HAVING ''"] hn by (auto simp: hav_def numbered_def isDigit_def)
  define whr where "whr = (if wp \<noteq> [] then '' WHERE '' @ strJoin wp '' AND '' else [])"
  have whr: "placeholders whr = [n1..<n2]" "closes whr" "n2 = n1 + length wa"
    using wn wl by (auto simp: whr_def numbered_def numberedList_def isDigit_def)
  have parts: "numbered 1 (strJoin (ss_parts st) '', '', ss_args st, ss_idx st)"
    using st by (auto simp: selOk_def isDigit_def intro!: numberedList_join)
  have "(sql, args) = (''SELECT '' @ strJoin (ss_parts st) '', '' @ '' FROM '' @ tableName @ concat joins @ whr @ grp @
      hav @ tail, ss_args st @ ja @ wa @ (if hs \<noteq> [] then ha else []))"
    unfolding q [symmetric] BuildSelectQueryFull_def Let_def i prod.case st_def [symmetric] j w h whr_def grp_def
      hav_def tail_def ..
  then have s: "sql = ''SELECT '' @ strJoin (ss_parts st) '', '' @ '' FROM '' @ tableName @ concat joins @ whr @ grp @
      hav @ tail" and a: "args = ss_args st @ ja @ wa @ (if hs \<noteq> [] then ha else [])" by simp_all
  have c: "closes (hav @ tail)" "closes (grp @ hav @ tail)" "closes (whr @ grp @ hav @ tail)"
    using hav(2) grp(2) whr(2) tail(2) closes_append by auto
  have "placeholders sql = [1..<ss_idx st] @ [ss_idx st..<n1] @ [n1..<n2] @ [n2..<n3]"
    using parts jn(1) c tail grp hav(1) whr(1) t
    by (simp add: s placeholders_append placeholders_free numbered_def isDigit_def)
  also have "\<dots> = [1..<n3]"
    by (rule upt_chain) (use parts jn(1) whr(3) hav(3) in \<open>simp_all add: numbered_def\<close>)
  finally have "placeholders sql = [1..<n3]" .
  moreover have "n3 = 1 + length args" using parts jn(1) whr(3) hav(3) by (simp add: a numbered_def)
  ultimately show ?thesis by (simp only:)
qed

text \<open>The SELECT statement of a query that passed validation mentions exactly the placeholders
  \<open>$1, $2, \<dots>\<close>, each once and in the order of its arguments, and there are as many arguments as placeholders,
  whatever combination of aggregates, embeds at any depth, joins, filters, EXISTS clauses and HAVING it has.\<close>

lemma select_query_numbered:
  assumes ok: "queryOk tableName table m qp" and q: "BuildSelectQueryFull tableName qp table m = (sql, args)"
  shows "placeholders sql = [1..<1 + length args]"
  using assms by (rule select_numbered)

end
