(* ===== verification/Dml_Laws.thy ===== *)
theory Dml_Laws
  imports Query_Laws
begin

text \<open>
  Laws of the writing statements and of output names: a bulk insert binds every value of every record exactly
  once, updates and deletes number their placeholders, a column hint keeps exactly the listed columns, and
  an output name in ORDER BY is quoted so that the SQL lexer reads it back.
\<close>

section \<open>Quoted names\<close>

text \<open>The SQL lexer on a double-quoted identifier: two quotes stand for one, a single quote ends it.\<close>

fun readQuoted :: "string \<Rightarrow> (string \<times> string) option" where
  "readQuoted [] = None"
| "readQuoted [c] = (if c = CHR 0x22 then Some ([], []) else None)"
| "readQuoted (c # d # cs) =
     (if c \<noteq> CHR 0x22 then map_option (\<lambda>(n, r). (c # n, r)) (readQuoted (d # cs))
      else if d = CHR 0x22 then map_option (\<lambda>(n, r). (CHR 0x22 # n, r)) (readQuoted cs)
      else Some ([], d # cs))"

lemma readQuoted_replace:
  "rest = [] \<or> hd rest \<noteq> CHR 0x22 \<Longrightarrow>
     readQuoted (replaceAll n (CHR 0x22) [CHR 0x22, CHR 0x22] @ CHR 0x22 # rest) = Some (n, rest)"
proof (induction n)
  case Nil
  then show ?case by (cases rest) (auto simp: replaceAll_def)
next
  case (Cons c n)
  define t where "t = replaceAll n (CHR 0x22) [CHR 0x22, CHR 0x22] @ CHR 0x22 # rest"
  have e: "replaceAll (c # n) (CHR 0x22) [CHR 0x22, CHR 0x22] @ CHR 0x22 # rest =
      (if c = CHR 0x22 then CHR 0x22 # CHR 0x22 # t else c # t)" by (simp add: replaceAll_def t_def)
  have r: "readQuoted t = Some (n, rest)" using Cons by (simp add: t_def)
  moreover obtain d cs where "t = d # cs" by (cases t) (use r in auto)
  ultimately show ?case by (simp add: e)
qed

text \<open>An ORDER BY term over an output name begins with a double-quoted identifier that the SQL lexer reads as
  exactly that name, whatever characters it has, followed by the direction: a name cannot break out of
  its quotes.\<close>

lemma order_alias_quoted:
  assumes "oc_IsAlias oc"
  shows "\<exists>rest. renderOrderTerm oc = CHR 0x22 # rest \<and>
    readQuoted rest = Some (oc_Column oc,
      (if oc_Desc oc then '' DESC'' else '' ASC'') @
      (if oc_Nulls oc = ''first'' then '' NULLS FIRST'' else if oc_Nulls oc = ''last'' then '' NULLS LAST'' else []))"
  using assms readQuoted_replace [of _ "oc_Column oc"] by (auto simp: renderOrderTerm_def Let_def)

lemma order_alias_quoted_witness:
  "\<exists>rest. renderOrderTerm \<lparr>oc_Column = [CHR ''a'', CHR 0x22, CHR ''b''], oc_Desc = True, oc_Nulls = ''last'', oc_IsAlias = True\<rparr>
      = CHR 0x22 # rest \<and> readQuoted rest = Some ([CHR ''a'', CHR 0x22, CHR ''b''], '' DESC NULLS LAST'')"
  using order_alias_quoted [of "\<lparr>oc_Column = [CHR ''a'', CHR 0x22, CHR ''b''], oc_Desc = True, oc_Nulls = ''last'', oc_IsAlias = True\<rparr>"]
  by simp

section \<open>Aliasing columns\<close>

lemma aliasFilter_args:
  "snd (buildFilterCondition (f\<lparr>flt_Column := c\<rparr>) i) = snd (buildFilterCondition f i)"
  by (simp add: buildFilterCondition_def switchOp_def Let_def)

section \<open>Inserts\<close>

lemma rowParts_numbered: "numberedList i (rowParts rec cols i)"
proof (induction cols arbitrary: i)
  case (Cons col cols)
  show ?case
  proof (cases "map_of rec col")
    case None
    obtain ps a j where r: "rowParts rec cols i = (ps, a, j)" by (rule prod_cases3)
    with Cons [of i] None show ?thesis by (simp add: numberedList_def)
  next
    case (Some v)
    obtain ps a j where r: "rowParts rec cols (i + 1) = (ps, a, j)" by (rule prod_cases3)
    have "numbered i (ph i, [v], i + 1)" by (simp add: numbered_def)
    from numberedList_Cons [OF this] Cons [of "i + 1"] r Some show ?thesis by simp
  qed
qed simp

lemma rowParts_args:
  "fst (snd (rowParts rec cols i)) = map (\<lambda>c. the (map_of rec c)) (filter (mapHas rec) cols)"
  by (induction rec cols i rule: rowParts.induct) (auto simp: mapHas_def split: option.splits prod.splits)

lemma rowTuple_numbered: "numbered i (rowTuple cols rec i)"
proof -
  obtain ps a j where r: "rowParts rec cols i = (ps, a, j)" by (rule prod_cases3)
  have "numbered i (strJoin ps '', '', a, j)"
    using rowParts_numbered [of i rec cols] by (intro numberedList_join) (simp_all add: r isDigit_def)
  from numbered_wrap [OF this, of "''(''" "'')''"] show ?thesis by (simp add: rowTuple_def r isDigit_def)
qed

interpretation tuple_sql: sql_fragment "rowTuple cols" "\<lambda>_. True" for cols
  by unfold_locales (rule rowTuple_numbered)

lemma threadArgs_args: "fst (snd (threadArgs f xs i)) = concat (map (\<lambda>x. a x) xs)"
  if "\<And>x k. fst (snd (f x k)) = a x"
proof (induction xs arbitrary: i)
  case (Cons x xs)
  obtain s b n where f: "f x i = (s, b, n)" by (rule prod_cases3)
  obtain ss c m where t: "threadArgs f xs n = (ss, c, m)" by (rule prod_cases3)
  from Cons [of n] that [of x i] f t show ?case by simp
qed simp

lemma RenderRowTuples_spec:
  assumes "RenderRowTuples records cols i = (args, rows)"
  shows "numberedList i (rows, args, i + length args)"
    and "args = concat (map (\<lambda>r. map (\<lambda>c. the (map_of r c)) (filter (mapHas r) cols)) records)"
proof -
  obtain j where t: "threadArgs (rowTuple cols) records i = (rows, args, j)"
    using assms by (auto simp: RenderRowTuples_def split: prod.splits)
  with tuple_sql.thread_numbered [of records i cols] have "numberedList i (rows, args, j)" by simp
  then show "numberedList i (rows, args, i + length args)" by (simp add: numberedList_def)
  have "fst (snd (rowTuple cols r k)) = map (\<lambda>c. the (map_of r c)) (filter (mapHas r) cols)" for r k
    using rowParts_args [of r cols k] by (auto simp: rowTuple_def split: prod.split)
  from threadArgs_args [of "rowTuple cols", OF this, of records i] t
  show "args = concat (map (\<lambda>r. map (\<lambda>c. the (map_of r c)) (filter (mapHas r) cols)) records)" by simp
qed

lemma set_UnionColumns: "set (UnionColumns records) = (\<Union>r \<in> set records. fst ` set r)"
  by (auto simp: UnionColumns_def)

lemma distinct_UnionColumns: "distinct (UnionColumns records)"
  by (simp add: UnionColumns_def)

lemma record_values:
  assumes "wfMap r" and "distinct cols" and "fst ` set r \<subseteq> set cols"
  shows "mset (map (\<lambda>c. the (map_of r c)) (filter (mapHas r) cols)) = mset (map snd r)"
proof -
  have "set (filter (mapHas r) cols) = set (map fst r)" using assms(3) by (auto simp: mapHas_iff)
  moreover have "distinct (filter (mapHas r) cols)" and "distinct (map fst r)"
    using assms(1,2) by (simp_all add: wfMap_def)
  ultimately have "mset (filter (mapHas r) cols) = mset (map fst r)"
    using set_eq_iff_mset_eq_distinct by blast
  then have "image_mset (\<lambda>c. the (map_of r c)) (mset (filter (mapHas r) cols)) = image_mset (\<lambda>c. the (map_of r c)) (mset (map fst r))"
    by simp
  moreover have "map (\<lambda>c. the (map_of r c)) (map fst r) = map snd r"
    using assms(1) by (auto simp: wfMap_def)
  ultimately show ?thesis by (metis mset_map)
qed

lemma mset_concat_eq: "list_all2 (\<lambda>a b. mset a = mset b) xs ys \<Longrightarrow> mset (concat xs) = mset (concat ys)"
  by (induction rule: list_all2_induct) auto

text \<open>A bulk insert mentions the placeholders \<open>$1, $2, \<dots>\<close> consecutively, one for each argument, and its
  arguments are exactly the values of all records, each bound once, whatever columns the records share; a
  column a record does not have is left to its default.\<close>

lemma bulk_insert_binds_values:
  assumes q: "BuildBulkInsertQuery tableName records returning = (sql, args)"
    and t: "dollarFree tableName" and r: "\<forall>r \<in> set records. wfMap r \<and> (\<forall>c \<in> fst ` set r. dollarFree c)"
  shows "placeholders sql = [1..<1 + length args] \<and> mset args = mset (concat (map (map snd) records))"
proof -
  define cols where "cols = UnionColumns records"
  obtain rows where rr: "RenderRowTuples records cols 1 = (args, rows)"
    and s: "sql = (''INSERT INTO '' @ tableName @ '' ('' @ strJoin cols '', '' @ '') VALUES '') @ strJoin rows '', '' @
        returningSuffix returning"
    using q by (auto simp: BuildBulkInsertQuery_def cols_def Let_def split: prod.splits)
  note spec = RenderRowTuples_spec [OF rr]
  have n: "numbered 1 (strJoin rows '', '', args, 1 + length args)"
    by (rule numberedList_join [OF spec(1)]) (simp_all add: isDigit_def)
  have "dollarFree (strJoin cols '', '')" using r by (intro dollarFree_strJoin) (auto simp: cols_def set_UnionColumns)
  then have "numbered 1 (sql, args, 1 + length args)"
    unfolding s by (intro numbered_wrap n) (auto simp: t returningSuffix_def isDigit_def)
  moreover have "list_all2 (\<lambda>a b. mset a = mset b)
      (map (\<lambda>r. map (\<lambda>c. the (map_of r c)) (filter (mapHas r) cols)) records) (map (map snd) records)"
  proof -
    have "mset (map (\<lambda>c. the (map_of r c)) (filter (mapHas r) cols)) = mset (map snd r)" if "r \<in> set records" for r
      using that r by (intro record_values) (auto simp: cols_def distinct_UnionColumns set_UnionColumns)
    then show ?thesis by (simp add: list.rel_map list.rel_refl_strong)
  qed
  ultimately show ?thesis using mset_concat_eq spec(2) by (auto simp: numbered_def)
qed

lemma bulk_insert_binds_values_witness:
  "\<exists>sql args. BuildBulkInsertQuery ''t'' [[(''a'', 1 :: int), (''b'', 2)], [(''b'', 3)]] True = (sql, args) \<and>
     placeholders sql = [1..<1 + length args] \<and> mset args = {#1, 2, 3#}"
proof -
  obtain sql args where q: "BuildBulkInsertQuery ''t'' [[(''a'', 1 :: int), (''b'', 2)], [(''b'', 3)]] True = (sql, args)"
    by fastforce
  from bulk_insert_binds_values [OF q] q show ?thesis by (auto simp: wfMap_def add_mset_commute)
qed

section \<open>Updates and deletes\<close>

lemma length_recordArgs [simp]: "length (recordArgs r) = length r"
  by (simp add: recordArgs_def sortedKeys_def)

lemma length_sortedKeys [simp]: "length (sortedKeys r) = length r"
  by (simp add: sortedKeys_def)

text \<open>An UPDATE mentions the placeholders \<open>$1, $2, \<dots>\<close> consecutively, one for each argument: first the new values
  in the order of the sorted columns, then the filter values.\<close>

lemma update_numbered:
  assumes q: "BuildUpdateQuery tableName updates wh returning = (sql, args)" and t: "dollarFree tableName"
    and u: "\<forall>c \<in> fst ` set updates. dollarFree c" and w: "allLeaves leafOk wh"
  shows "placeholders sql = [1..<1 + length args] \<and> take (length updates) args = map Inl (recordArgs updates)"
proof -
  define cols where "cols = sortedKeys updates"
  define n where "n = length updates"
  define parts where "parts = map (\<lambda>(col, i). col @ '' = '' @ ph i) (zip cols [1..<1 + n])"
  obtain s a j where b: "BuildSQL wh (1 + n) = (s, a, j)" by (rule prod_cases3)
  with where_sql.build_numbered [OF w, of "1 + n"] have wn: "numbered (1 + n) (s, a, j)" by simp
  have "placeholders (c @ '' = '' @ ph i) = [i]" if "(c, i) \<in> set (zip cols [1..<1 + n])" for c i
  proof -
    from set_zip_leftD [OF that] have "dollarFree c" using u by (auto simp: cols_def)
    then show ?thesis by simp
  qed
  then have "map placeholders parts = map (\<lambda>(c, i). [i]) (zip cols [1..<1 + n])"
    unfolding parts_def map_map o_def by (intro map_cong) auto
  then have "concat (map placeholders parts) = concat (map (\<lambda>(c, i). [i]) (zip cols [1..<1 + n]))" by simp
  also have "\<dots> = map snd (zip cols [1..<1 + n])" by (simp add: split_def concat_map_singleton)
  also have "\<dots> = [1..<1 + n]" by (simp add: cols_def n_def)
  finally have set: "placeholders (strJoin parts '', '') = [1..<1 + n]"
    by (simp add: placeholders_strJoin isDigit_def)
  have l: "length args = n + length (if s \<noteq> [] then a else [])" and s: "sql = (''UPDATE '' @ tableName @ '' SET '') @
      strJoin parts '', '' @ (if s \<noteq> [] then '' WHERE '' @ s else []) @ returningSuffix returning"
    and a: "args = map Inl (recordArgs updates) @ (if s \<noteq> [] then map Inr a else [])"
    using q b by (auto simp: BuildUpdateQuery_def Let_def cols_def parts_def n_def split: if_splits)
  have m: "numbered 1 (strJoin parts '', '', map Inl (recordArgs updates) :: ('a + string) list, 1 + n)"
    using set by (simp add: numbered_def n_def)
  have "numbered (1 + n) (if s \<noteq> [] then '' WHERE '' @ s else [], if s \<noteq> [] then map Inr a else [] :: ('a + string) list, j)"
    using numbered_option [OF wn, of "'' WHERE ''"] by (auto simp: numbered_def split: if_splits)
  from numbered_two [OF m this, of "''UPDATE '' @ tableName @ '' SET ''" "[]" "returningSuffix returning"]
  have "numbered 1 (sql, args, j)" using t by (auto simp: s a returningSuffix_def isDigit_def)
  then show ?thesis by (simp add: numbered_def a n_def)
qed

definition sampleFilter :: "WhereNode option" where
  "sampleFilter = Some (WLeaf False \<lparr>flt_Column = ''id'', flt_Operator = ''in'', flt_Value = ''(4,5)'', flt_Config = []\<rparr>)"

lemma sampleFilter_ok: "allLeaves leafOk sampleFilter"
  by (simp add: sampleFilter_def allLeaves_def leafOk_def)

lemma update_numbered_witness:
  "\<exists>sql args. BuildUpdateQuery ''t'' [(''b'', 7 :: int), (''a'', 8)] sampleFilter False = (sql, args) \<and>
     placeholders sql = [1..<1 + length args] \<and> take 2 args = [Inl 8, Inl 7]"
proof -
  obtain sql args where q: "BuildUpdateQuery ''t'' [(''b'', 7 :: int), (''a'', 8)] sampleFilter False = (sql, args)"
    by fastforce
  have r: "recordArgs [(''b'', 7 :: int), (''a'', 8)] = [8, 7]" by code_simp
  from update_numbered [OF q _ _ sampleFilter_ok] q r show ?thesis by (simp add: numeral_2_eq_2)
qed

text \<open>A DELETE mentions the placeholders \<open>$1, $2, \<dots>\<close> consecutively, one for each filter value, and it has
  a WHERE clause exactly when its filter renders to something: a request with a filter never deletes
  the whole table.\<close>

lemma delete_numbered:
  assumes q: "BuildDeleteQuery tableName wh returning = (sql, args)" and t: "dollarFree tableName"
    and w: "allLeaves leafOk wh"
  shows "placeholders sql = [1..<1 + length args] \<and>
    sql = ''DELETE FROM '' @ tableName @
      (if fst (BuildSQL wh 1) = [] then [] else '' WHERE '' @ fst (BuildSQL wh 1)) @ returningSuffix returning"
proof -
  obtain s a j where b: "BuildSQL wh 1 = (s, a, j)" by (rule prod_cases3)
  with where_sql.build_numbered [OF w, of 1] have wn: "numbered 1 (s, a, j)" by simp
  have a: "args = a" and s: "sql = (''DELETE FROM '' @ tableName) @ (if s \<noteq> [] then '' WHERE '' @ s else []) @ returningSuffix returning"
    using q b by (auto simp: BuildDeleteQuery_def split: if_splits)
  have "(if s \<noteq> [] then a else []) = a" using numbered_empty wn by auto
  with numbered_option [OF wn, of "'' WHERE ''"]
  have "numbered 1 (if s \<noteq> [] then '' WHERE '' @ s else [], a, j)" by simp
  from numbered_wrap [OF this, of "''DELETE FROM '' @ tableName" "returningSuffix returning"]
  have "numbered 1 (sql, args, j)" using t by (auto simp: s a returningSuffix_def isDigit_def)
  then show ?thesis using s b by (simp add: numbered_def)
qed

lemma delete_numbered_witness:
  "BuildDeleteQuery ''t'' sampleFilter True = (''DELETE FROM t WHERE id IN ($1, $2) RETURNING *'', [''4'', ''5'']) \<and>
     placeholders ''DELETE FROM t WHERE id IN ($1, $2) RETURNING *'' = [1, 2]"
proof -
  have q: "BuildDeleteQuery ''t'' sampleFilter True = (''DELETE FROM t WHERE id IN ($1, $2) RETURNING *'', [''4'', ''5''])"
    by code_simp
  have "placeholders ''DELETE FROM t WHERE id IN ($1, $2) RETURNING *'' = [1..<1 + length [''4'', ''5'']]"
    using delete_numbered [OF q _ sampleFilter_ok, THEN conjunct1] by (simp only: dollarFree_simps simp_thms char.inject)
  moreover have "[1..<1 + length [''4'', ''5'']] = [1, 2]" by code_simp
  ultimately show ?thesis using q by (simp only: simp_thms)
qed

section \<open>Column hints and upserts\<close>

text \<open>Filtering the records of a request by an accepted \<open>columns\<close> hint leaves every record exactly its entries
  for the listed columns, and all of these are declared fields of the table.\<close>

lemma column_hint_exact:
  assumes "ParseColumnsParam hint table = Inr (Some cols)"
  shows "(\<forall>c \<in> set cols. GetField table c \<noteq> None) \<and>
    (\<forall>r. \<forall>k v. (k, v) \<in> set (hd (FilterRecordsByColumns [r] (Some cols))) \<longleftrightarrow> (k, v) \<in> set r \<and> k \<in> set cols) \<and>
    length (FilterRecordsByColumns records (Some cols)) = length records"
proof -
  from assms have "traverse (\<lambda>c0. let c = unquote (trimSpace c0) in
                  if c = [] then Inl (Errorf ''empty column in columns hint'' [])
                  else if GetField table c = None then Inl (Errorf ''unknown column %q in columns hint'' [c])
                  else Inr c) (strSplit (trimSpace hint) (CHR '','')) = Inr cols"
    by (auto simp: ParseColumnsParam_def Let_def split: if_splits sum.splits)
  from traverse_set [OF this] have "\<forall>c \<in> set cols. GetField table c \<noteq> None"
    by (fastforce simp: Let_def split: if_splits)
  then show ?thesis by (auto simp: FilterRecordsByColumns_def)
qed

lemma column_hint_exact_witness:
  "hd (FilterRecordsByColumns [[(''id'', 1 :: int), (''x'', 2)]] (Some [''id''])) = [(''id'', 1)] \<and>
   GetField (zeroTable\<lparr>tbl_Fields := [zeroField\<lparr>fld_Name := ''id''\<rparr>]\<rparr>) ''id'' \<noteq> None"
proof -
  let ?t = "zeroTable\<lparr>tbl_Fields := [zeroField\<lparr>fld_Name := ''id''\<rparr>]\<rparr>"
  have "ParseColumnsParam '' id '' ?t = Inr (Some [''id''])" by code_simp
  from column_hint_exact [OF this] have "\<forall>c \<in> set [''id'']. GetField ?t c \<noteq> None" by (rule conjunct1)
  then have "GetField ?t ''id'' \<noteq> None" by (rule bspec) (simp only: list.set_intros)
  moreover have "hd (FilterRecordsByColumns [[(''id'', 1 :: int), (''x'', 2)]] (Some [''id''])) = [(''id'', 1)]" by code_simp
  ultimately show ?thesis by (rule conjI [rotated])
qed

text \<open>The columns an upsert assigns when the row exists.\<close>

definition assigned :: "string list \<Rightarrow> string list \<Rightarrow> string \<Rightarrow> string list" where
  "assigned cols conflictCols resolution =
     (if resolution = ''ignore'' then []
      else if list_all (\<lambda>c. c \<in> set conflictCols) cols then cols
      else filter (\<lambda>c. c \<notin> set conflictCols) cols)"

text \<open>The action of an upsert on a conflict is to assign each non-key column of the records from the
  excluded row, the key columns only when there is no other column, and to do nothing exactly when the request
  asks to ignore duplicates or there is no column at all.\<close>

lemma conflictAction_exact:
  "conflictAction cols conflictCols resolution =
     (if assigned cols conflictCols resolution = [] then ''DO NOTHING''
      else ''DO UPDATE SET '' @ strJoin (map (\<lambda>c. c @ '' = EXCLUDED.'' @ c) (assigned cols conflictCols resolution)) '', '')"
proof -
  have "filter (\<lambda>c. c \<notin> set conflictCols) cols = [] \<longleftrightarrow> list_all (\<lambda>c. c \<in> set conflictCols) cols"
    by (auto simp: filter_empty_conv list_all_iff)
  then show ?thesis by (auto simp: conflictAction_def assigned_def Let_def)
qed

end
