(* ===== verification/Request_Params.thy ===== *)
theory Request_Params
  imports Dml_Laws
begin

text \<open>
  The read path of a request (\<open>internal/adapter/http/crud_handler.go\<close>): the query parameters become
  \<open>QueryParams\<close>, the row limit of the server is applied, and the SELECT statement is built. The main law is
  end to end: every request that is accepted for a configuration with plain names yields a statement whose
  placeholders match its arguments, and no more rows than the server allows.
\<close>

section \<open>parseQueryParams\<close>

text \<open>gin's \<open>c.Query(key)\<close>: the first value of the parameter, empty when there is none.\<close>

definition queryValue :: "(string list) gmap \<Rightarrow> string \<Rightarrow> string" where
  "queryValue vals key = (case map_of vals key of Some (v # _) \<Rightarrow> v | _ \<Rightarrow> [])"

definition validateSelect :: "Table \<Rightarrow> string list \<Rightarrow> pg_error option" where
  "validateSelect table sel =
     (case CheckStarWithAggregate sel of Some e \<Rightarrow> Some e
      | None \<Rightarrow> firstErr (\<lambda>s. if isEmbedEntry s then None
                 else map_option (Errorw ''invalid select: %w'' []) (ValidateSelectItem table (ParseSelectItem s))) sel)"

definition embedIndex :: "Embed list \<Rightarrow> nat gmap" where
  "embedIndex embeds =
     fold (\<lambda>(e, i) m. AList.update (OutputKey (em_info e)) i m) (zip embeds [0..<length embeds]) []"

definition parseInt :: "string \<Rightarrow> string \<Rightarrow> int \<Rightarrow> pg_error + int" where
  "parseInt what v dflt =
     (if v = [] then Inr dflt
      else case atoi v of None \<Rightarrow> Inl (Errorf (''invalid '' @ what @ '': %s'') [v]) | Some n \<Rightarrow> Inr n)"

definition NoLimit :: int where
  "NoLimit = -1"

text \<open>\<open>if err != nil { return nil, err }\<close>\<close>

abbreviation bindE :: "'e + 'a \<Rightarrow> ('a \<Rightarrow> 'e + 'b) \<Rightarrow> 'e + 'b" where
  "bindE r k \<equiv> (case r of Inl e \<Rightarrow> Inl e | Inr x \<Rightarrow> k x)"

definition resolveRequest ::
  "string \<Rightarrow> Table \<Rightarrow> Table gmap option \<Rightarrow> string list \<Rightarrow> pg_error + Embed list" where
  "resolveRequest tableName table allTables sel =
     (case allTables of None \<Rightarrow> Inr []
      | Some tables \<Rightarrow>
          let embedParams = filter isEmbedEntry sel in
          if embedParams = [] then Inr []
          else case ResolveEmbeds tableName table embedParams tables of
                 Inl e \<Rightarrow> Inl (Errorw ''invalid embed: %w'' [] e) | Inr es \<Rightarrow> Inr es)"

definition tablesOf :: "Table gmap option \<Rightarrow> Table gmap" where
  "tablesOf m = (case m of None \<Rightarrow> [] | Some t \<Rightarrow> t)"

definition parseQueryParams ::
  "(string list) gmap \<Rightarrow> string \<Rightarrow> Table \<Rightarrow> Table gmap option \<Rightarrow> pg_error + QueryParams" where
  "parseQueryParams vals tableName table allTables =
     (let selRaw = queryValue vals ''select'';
          sel = (if selRaw = [] then [] else ParseSelectParam selRaw) in
      case (if selRaw = [] then None else validateSelect table sel) of Some e \<Rightarrow> Inl e
      | None \<Rightarrow>
        bindE (resolveRequest tableName table allTables sel) (\<lambda>embeds0.
        let embedByName = embedIndex embeds0; orderRaw = queryValue vals ''order'' in
        bindE (if orderRaw = [] then Inr []
               else case ParseOrderValueWithSelect orderRaw table sel of
                      Inl e \<Rightarrow> Inl (Errorw ''invalid order: %w'' [] e) | Inr ocs \<Rightarrow> Inr ocs) (\<lambda>order.
        bindE (parseInt ''limit'' (queryValue vals ''limit'') NoLimit) (\<lambda>limit.
        bindE (parseInt ''offset'' (queryValue vals ''offset'') 0) (\<lambda>offset.
        bindE (if embedByName = [] then Inr embeds0
               else ParseEmbedScopedParams vals embedByName (tablesOf allTables) embeds0) (\<lambda>embeds.
        bindE (ParseWhereSkip vals table (map fst embedByName)) (\<lambda>wh.
        let havingRaw = queryValue vals ''having'' in
        bindE (if havingRaw = [] then Inr None
               else case ParseHavingParam havingRaw tableName table sel of
                      Inl e \<Rightarrow> Inl (Errorw ''invalid having: %w'' [] e) | Inr h \<Rightarrow> Inr h) (\<lambda>having.
        Inr \<lparr>qp_Select = sel, qp_Embeds = embeds, qp_Where = wh, qp_Having = having, qp_Order = order,
             qp_Limit = limit, qp_Offset = offset\<rparr>))))))))"

section \<open>The row limit of the server\<close>

definition capLimit :: "int \<Rightarrow> int \<Rightarrow> int" where
  "capLimit limit maxRows = (if 0 < maxRows \<and> (limit < 0 \<or> maxRows < limit) then maxRows else limit)"

definition capEmbed :: "int \<Rightarrow> Embed \<Rightarrow> Embed" where
  "capEmbed maxRows e =
     (let i = em_info e in
      if em_IsReverse i \<and> (case em_Limit i of None \<Rightarrow> True | Some n \<Rightarrow> maxRows < n)
      then Embed (i\<lparr>em_Limit := Some maxRows\<rparr>) (em_Children e) else e)"

definition capEmbeds :: "Embed list \<Rightarrow> int \<Rightarrow> Embed list" where
  "capEmbeds embeds maxRows = (if maxRows \<le> 0 then embeds else map (capEmbed maxRows) embeds)"

definition capParams :: "int \<Rightarrow> QueryParams \<Rightarrow> QueryParams" where
  "capParams maxRows qp =
     qp\<lparr>qp_Limit := capLimit (qp_Limit qp) maxRows, qp_Embeds := capEmbeds (qp_Embeds qp) maxRows\<rparr>"

section \<open>Accepted requests\<close>

lemma bindE_Inr: "bindE r k = Inr y \<longleftrightarrow> (\<exists>x. r = Inr x \<and> k x = Inr y)"
  by (auto split: sum.splits)

lemma validateSelect_safe:
  "validateSelect table sel = None \<Longrightarrow> list_all (safeItem table) (selectItems sel) \<and> aggSafe table sel"
  by (auto simp: validateSelect_def selectItems_def aggSafe_def list_all_iff firstErr_None isEmbedEntry_def
      intro!: ValidateSelectItem_safe split: option.splits if_splits)

lemma set_update_subset: "p \<in> set (AList.update k v m) \<Longrightarrow> p = (k, v) \<or> p \<in> set m"
  by (induction m) (auto split: if_splits)

lemma embedIndex_bound: "\<forall>(k, i) \<in> set (embedIndex embeds). i < length embeds"
proof -
  define P where "P m = (\<forall>p \<in> set m. snd p < length embeds)" for m :: "nat gmap"
  have "P (fold (\<lambda>(e, i) m. AList.update (OutputKey (em_info e)) i m) (zip embeds [0..<length embeds]) [])"
  proof (rule fold_inv [of P])
    fix x m assume mem: "x \<in> set (zip embeds [0..<length embeds])" and m: "P m"
    obtain e i where x: "x = (e, i)" by (cases x)
    have "i \<in> set [0..<length embeds]" using mem unfolding x by (rule set_zip_rightD)
    with m x set_update_subset show "P ((case x of (e, i) \<Rightarrow> AList.update (OutputKey (em_info e)) i) m)"
      by (fastforce simp: P_def)
  qed (simp add: P_def)
  then show ?thesis by (auto simp: embedIndex_def P_def)
qed

text \<open>Names as the config validator admits them.\<close>

definition namesFree :: "string \<Rightarrow> Table \<Rightarrow> Table gmap option \<Rightarrow> bool" where
  "namesFree tableName table allTables =
     (dollarFree tableName \<and> tableFree table \<and> tablesFree (tablesOf allTables))"

lemma resolveRequest_safe:
  assumes "resolveRequest tableName table allTables sel = Inr embeds" and "namesFree tableName table allTables"
  shows "list_all embedSafe embeds"
proof (cases "embeds = []")
  case False
  then obtain tables where a: "allTables = Some tables"
    and r: "ResolveEmbeds tableName table (filter isEmbedEntry sel) tables = Inr embeds"
    using assms(1) by (auto simp: resolveRequest_def Let_def split: option.splits if_splits sum.splits)
  from ResolveEmbeds_wf [OF r] assms(2) show ?thesis
    by (auto simp: a namesFree_def tablesOf_def list_all_iff intro: wfEmbed_safe)
qed simp

lemma embedSafe_ready: "embedSafe e \<Longrightarrow> scopeReady e"
  by (cases e) (simp add: scopeReady_def embedFree_def)

lemma order_request_free:
  assumes "ParseOrderValueWithSelect raw table sel = Inr ocs" and "list_all (safeItem table) (selectItems sel)"
  shows "list_all (\<lambda>oc. dollarFree (oc_Column oc)) ocs"
proof -
  have "dollarFree a" if a: "a \<in> set (CollectSelectAliases sel)" for a
  proof -
    from a obtain s where s: "s \<in> set sel" "\<not> isEmbedEntry s"
      and "a = si_Alias (ParseSelectItem s) \<or> a = si_Agg (ParseSelectItem s)"
      by (auto simp: CollectSelectAliases_def isEmbedEntry_def Let_def split: if_splits)
    moreover have "safeItem table (ParseSelectItem s)" using s assms(2) by (auto simp: selectItems_def list_all_iff)
    ultimately show ?thesis using dollarFree_aggName by (auto simp: safeItem_def dollarFree_ident)
  qed
  then show ?thesis using order_select_valid [OF assms(1)]
    by (auto simp: list_all_iff dest: ValidateColumn_path dollarFree_path)
qed

text \<open>An accepted request satisfies everything the builder relies on, before and after the row limit.\<close>

lemma parseQueryParams_ok:
  assumes p: "parseQueryParams vals tableName table allTables = Inr qp" and n: "namesFree tableName table allTables"
  shows "queryOk tableName table (tablesOf allTables) qp"
proof -
  define selRaw where "selRaw = queryValue vals ''select''"
  define sel where "sel = (if selRaw = [] then [] else ParseSelectParam selRaw)"
  define orderRaw where "orderRaw = queryValue vals ''order''"
  define havingRaw where "havingRaw = queryValue vals ''having''"
  from p obtain embeds0 order limit offset embeds wh having where
    sel: "(if selRaw = [] then None else validateSelect table sel) = None" and
    e0: "resolveRequest tableName table allTables sel = Inr embeds0" and
    ord: "(if orderRaw = [] then Inr []
               else case ParseOrderValueWithSelect orderRaw table sel of
                      Inl e \<Rightarrow> Inl (Errorw ''invalid order: %w'' [] e) | Inr ocs \<Rightarrow> Inr ocs) = Inr order" and
    em: "(if embedIndex embeds0 = [] then Inr embeds0
          else ParseEmbedScopedParams vals (embedIndex embeds0) (tablesOf allTables) embeds0) = Inr embeds" and
    wh: "ParseWhereSkip vals table (map fst (embedIndex embeds0)) = Inr wh" and
    hav: "(if havingRaw = [] then Inr None
               else case ParseHavingParam havingRaw tableName table sel of
                      Inl e \<Rightarrow> Inl (Errorw ''invalid having: %w'' [] e) | Inr h \<Rightarrow> Inr h) = Inr having" and
    qp: "qp = \<lparr>qp_Select = sel, qp_Embeds = embeds, qp_Where = wh, qp_Having = having, qp_Order = order,
             qp_Limit = limit, qp_Offset = offset\<rparr>"
    unfolding parseQueryParams_def Let_def selRaw_def [symmetric] sel_def [symmetric] orderRaw_def [symmetric]
      havingRaw_def [symmetric]
    by (auto simp: bindE_Inr split: option.splits)
  have items: "list_all (safeItem table) (selectItems sel)" "aggSafe table sel"
    using sel validateSelect_safe [of table sel]
    by (auto simp: sel_def selectItems_def aggSafe_def split: if_splits)
  note safe0 = resolveRequest_safe [OF e0 n]
  have "list_all embedSafe embeds"
  proof (cases "embedIndex embeds0 = []")
    case True
    with em safe0 show ?thesis by simp
  next
    case False
    have "list_all scopeReady embeds0" using safe0 embedSafe_ready by (auto simp: list_all_iff)
    with em False scopedParams_safe [OF _ _ embedIndex_bound] sameEmbeds_safe [OF _ safe0] show ?thesis by auto
  qed
  moreover have "allLeaves leafOk wh" using allLeaves_mono [OF ParseWhereSkip_leaves [OF wh] tableLeaf_ok] .
  moreover have "allLeaves leafOk having"
    using hav having_safe [OF _ _ items(2)] n
    by (auto simp: namesFree_def allLeaves_def split: if_splits sum.splits)
  moreover have "list_all (\<lambda>oc. dollarFree (oc_Column oc)) order"
    using ord order_request_free [OF _ items(1)] by (auto split: if_splits sum.splits)
  ultimately show ?thesis using n items(1) by (simp add: queryOk_def qp namesFree_def)
qed

lemma capEmbed_safe: "0 < maxRows \<Longrightarrow> embedSafe e \<Longrightarrow> embedSafe (capEmbed maxRows e)"
  by (cases e) (auto simp: capEmbed_def Let_def embedFree_def scopeOk_def split: option.splits)

lemma capParams_ok: "queryOk tableName table m qp \<Longrightarrow> queryOk tableName table m (capParams maxRows qp)"
  using capEmbed_safe by (auto simp: queryOk_def capParams_def capEmbeds_def list_all_iff)

text \<open>C32: Every read request that is accepted for a configuration whose names hold no dollar sign produces a SELECT
  statement that mentions exactly the placeholders \<open>$1, $2, \<dots>\<close>, each once and in the order of its arguments,
  with one argument for each: no request can shift a value to another parameter or leave one unbound.\<close>

theorem accepted_request_numbered:
  assumes "parseQueryParams vals tableName table allTables = Inr qp" and "namesFree tableName table allTables"
    and "BuildSelectQueryFull tableName (capParams maxRows qp) table (tablesOf allTables) = (sql, args)"
  shows "placeholders sql = [1..<1 + length args]"
  using capParams_ok [OF parseQueryParams_ok [OF assms(1,2)]] assms(3) by (rule select_numbered)

text \<open>With a positive row limit, the statement of a request never asks for more rows than the limit, neither at
  the top level nor in a to-many embed of the top level, whatever limit the client asked for (none and
  negative ones included); a limit the client asked for is only ever lowered, and a to-one embed is left
  alone.\<close>

lemma max_rows_enforced:
  assumes "0 < maxRows"
  shows "0 \<le> qp_Limit (capParams maxRows qp) \<and> qp_Limit (capParams maxRows qp) \<le> maxRows \<and>
    (0 \<le> qp_Limit qp \<longrightarrow> qp_Limit (capParams maxRows qp) \<le> qp_Limit qp) \<and>
    list_all2 (\<lambda>e' e.
      if em_IsReverse (em_info e) then
        sameEmbed (em_info e') (em_info e) \<and> em_Children e' = em_Children e \<and>
        (\<exists>n. em_Limit (em_info e') = Some n \<and> n \<le> maxRows \<and> (\<forall>k. em_Limit (em_info e) = Some k \<longrightarrow> n \<le> k))
      else e' = e) (qp_Embeds (capParams maxRows qp)) (qp_Embeds qp)"
  using assms
  by (auto simp: capParams_def capLimit_def capEmbeds_def capEmbed_def Let_def sameEmbed_def list.rel_map
      intro!: list.rel_refl_strong split: option.splits)

end
