(* ===== verification/Where_RoundTrip.thy ===== *)
theory Where_RoundTrip
  imports Where_Laws
begin

text \<open>
  The URL syntax of filter trees. \<open>print_node\<close> writes a tree the way a client spells it
  (\<open>age.not.gt.5\<close>, \<open>not.or(a.eq.1,b.eq.2)\<close>); parsing what it writes gives the tree back, so the
  concrete syntax can express every well-formed tree and is unambiguous on it.
\<close>

section \<open>The printer\<close>

definition opText :: "Filter \<Rightarrow> string" where
  "opText f = flt_Operator f @ (if flt_Config f = [] then [] else ''('' @ flt_Config f @ '')'')"

fun print_node :: "WhereNode \<Rightarrow> string" where
  "print_node (WLeaf neg f) =
     flt_Column f @ ''.'' @ (if neg then ''not.'' else []) @ opText f @ ''.'' @ flt_Value f"
| "print_node (WNode op neg cs) =
     (if neg then ''not.'' else []) @ op @ ''('' @ strJoin (map print_node cs) '','' @ '')''"

text \<open>
  What can be written: the operator without a quantifier in its name (that is the configuration), a
  value whose parentheses balance, with no comma outside them and no white space at its end.
\<close>

definition opWord :: "string \<Rightarrow> bool" where
  "opWord op = (op \<in> fst ` set validOps \<and> list_all isWord op)"

definition wfLeaf :: "Filter \<Rightarrow> bool" where
  "wfLeaf f =
     (flt_Column f \<noteq> [] \<and> list_all pathChar (flt_Column f) \<and> opWord (flt_Operator f) \<and>
      (flt_Config f = [] \<or> identRe (flt_Config f)) \<and>
      topPart (CHR '','') (flt_Value f) \<and> (flt_Value f = [] \<or> graphic (last (flt_Value f))) \<and>
      (flt_Operator f = ''is'' \<longrightarrow>
         toLower (trimSpace (flt_Value f)) \<in> {''null'', ''true'', ''false'', ''unknown''}))"

fun wfNode :: "WhereNode \<Rightarrow> bool" where
  "wfNode (WLeaf neg f) = wfLeaf f"
| "wfNode (WNode op neg cs) = ((op = ''and'' \<or> op = ''or'') \<and> cs \<noteq> [] \<and> list_all wfNode cs)"

section \<open>Reading a printed leaf\<close>

lemma prefix_run:
  assumes "list_all P w" and "\<not> P c" and "list_all P k" and "\<not> P d"
  shows "hasPrefix (w @ c # r) (k @ [d]) \<longleftrightarrow> w = k \<and> c = d"
  using assms(1,3)
proof (induction w arbitrary: k)
  case Nil
  then show ?case using assms(2) by (cases k) auto
next
  case (Cons x w)
  then show ?case using assms(4) by (cases k) auto
qed

lemma pathChar_simps [simp]:
  "\<not> pathChar (CHR ''.'')" "\<not> pathChar (CHR ''('')" "\<not> pathChar (CHR '')'')" "\<not> pathChar (CHR '','')"
  "pathChar (CHR ''a'')" "pathChar (CHR ''n'')" "pathChar (CHR ''d'')" "pathChar (CHR ''o'')"
  "pathChar (CHR ''r'')" "pathChar (CHR ''t'')"
  by (simp_all add: pathChar_def isWord_def isAlpha_def isDigit_def)

lemma pathChar_graphic: "pathChar c \<Longrightarrow> graphic c"
  using isWord_graphic [of c] by (auto simp: pathChar_def graphic_def)

lemma word_path: "list_all isWord s \<Longrightarrow> list_all pathChar s"
  by (auto simp: list_all_iff pathChar_def)

lemma prefix_keyword:
  assumes "list_all pathChar w" and "\<not> pathChar c"
  shows "isGroup (w @ c # r) \<longleftrightarrow> (w = ''and'' \<or> w = ''or'') \<and> c = CHR ''(''"
    and "hasPrefix (w @ c # r) ''not.'' \<longleftrightarrow> w = ''not'' \<and> c = CHR ''.''"
  using prefix_run [of pathChar w c "''and''" "CHR ''(''" r] prefix_run [of pathChar w c "''or''" "CHR ''(''" r]
    prefix_run [of pathChar w c "''not''" "CHR ''.''" r] assms
  by (auto simp: isGroup_def)

lemma opWord_keywords: "opWord op \<Longrightarrow> op \<noteq> ''and'' \<and> op \<noteq> ''or'' \<and> op \<noteq> ''not''"
proof -
  have "list_all (\<lambda>p. fst p \<noteq> ''and'' \<and> fst p \<noteq> ''or'' \<and> fst p \<noteq> ''not'') validOps" by code_simp
  then show "opWord op \<Longrightarrow> op \<noteq> ''and'' \<and> op \<noteq> ''or'' \<and> op \<noteq> ''not''"
    by (auto simp: opWord_def list_all_iff)
qed

lemma opText_split:
  assumes "wfLeaf f"
  obtains c r where "opText f @ ''.'' @ v = flt_Operator f @ c # r" and "\<not> pathChar c"
  using assms by (cases "flt_Config f = []") (auto simp: opText_def)

lemma opText_group: "wfLeaf f \<Longrightarrow> \<not> isGroup (opText f @ ''.'' @ v) \<and> \<not> hasPrefix (opText f @ ''.'' @ v) ''not.''"
proof -
  assume w: "wfLeaf f"
  obtain c r where s: "opText f @ ''.'' @ v = flt_Operator f @ c # r" "\<not> pathChar c"
    using opText_split [OF w] .
  from w have "list_all pathChar (flt_Operator f)" and "opWord (flt_Operator f)"
    by (auto simp: wfLeaf_def opWord_def word_path)
  with s show ?thesis using opWord_keywords prefix_keyword by simp
qed

lemma parseFilterValue_print:
  assumes w: "wfLeaf f"
  shows "parseFilterValue (opText f @ ''.'' @ flt_Value f) = Inr (flt_Operator f, flt_Value f, flt_Config f)"
proof -
  from w have o: "list_all isWord (flt_Operator f)" "flt_Operator f \<in> fst ` set validOps"
    by (auto simp: wfLeaf_def opWord_def)
  then have known: "map_of validOps (flt_Operator f) \<noteq> None" by (simp add: map_of_eq_None_iff)
  have cfg: "flt_Config f = [] \<or> identRe (flt_Config f)" using w by (simp add: wfLeaf_def)
  have "CHR ''.'' \<notin> set (opText f)"
    using word_notin [OF o(1)] cfg word_notin [OF identRe_word] by (auto simp: opText_def)
  then have dot: "strIndex (opText f @ ''.'' @ flt_Value f) ''.'' = Some (length (opText f))"
    by (simp add: strIndex_first)
  have paren: "CHR ''('' \<notin> set (flt_Operator f)" using word_notin [OF o(1)] by simp
  have last: "flt_Operator f = ''is'' \<Longrightarrow>
      toLower (trimSpace (flt_Value f)) \<in> {''null'', ''true'', ''false'', ''unknown''}"
    using w by (simp add: wfLeaf_def)
  show ?thesis
  proof (cases "flt_Config f = []")
    case True
    then have "opText f = flt_Operator f" by (simp add: opText_def)
    with dot paren known last True show ?thesis
      by (auto simp: parseFilterValue_def Let_def strIndex_single)
  next
    case False
    with cfg have i: "identRe (flt_Config f)" by simp
    have t: "opText f = flt_Operator f @ CHR ''('' # flt_Config f @ '')''" using False by (simp add: opText_def)
    have "strIndex (opText f) ''('' = Some (length (flt_Operator f))" using paren by (simp add: t strIndex_first)
    moreover have "hasSuffix (opText f) '')''" by (simp add: t hasSuffix_single)
    moreover have "take (length (opText f) - 1 - (length (flt_Operator f) + 1))
        (drop (length (flt_Operator f) + 1) (opText f)) = flt_Config f" by (simp add: t)
    moreover have "take (length (flt_Operator f)) (opText f) = flt_Operator f" by (simp add: t)
    ultimately show ?thesis using dot i False known last
      by (auto simp: parseFilterValue_def Let_def)
  qed
qed

lemma logic_leaf_print:
  assumes w: "wfLeaf f" and v: "validate (flt_Column f) = None"
  shows "parseLogicItemWith validate (print_node (WLeaf neg f)) = Inr (WLeaf neg f)"
proof -
  let ?col = "flt_Column f"
  let ?rest = "(if neg then ''not.'' else []) @ opText f @ ''.'' @ flt_Value f"
  have p: "list_all pathChar ?col" using w by (simp add: wfLeaf_def)
  have item: "print_node (WLeaf neg f) = ?col @ CHR ''.'' # ?rest" by simp
  have g: "\<not> isGroup (?col @ CHR ''.'' # ?rest)" using prefix_keyword(1) [OF p] by simp
  have rest: "\<not> isGroup ?rest" using opText_group [OF w] by (simp add: isGroup_def)
  have "\<not> groupNegated (?col @ CHR ''.'' # ?rest)"
    using prefix_keyword(2) [OF p, of "CHR ''.''"] rest trimPrefix_append [of "''not.''" ?rest]
    by (auto simp: groupNegated_def)
  then have gi: "groupItem (?col @ CHR ''.'' # ?rest) = ?col @ CHR ''.'' # ?rest" by (simp add: groupItem_def)
  have "CHR ''.'' \<notin> set ?col" using pathChar_notin [OF p] by simp
  then have "strIndex (?col @ CHR ''.'' # ?rest) ''.'' = Some (length ?col)" by (rule strIndex_first)
  moreover have "hasPrefix ?rest ''not.'' = neg" and "trimPrefix ?rest ''not.'' = opText f @ ''.'' @ flt_Value f"
    using opText_group [OF w] trimPrefix_append [of "''not.''" "opText f @ ''.'' @ flt_Value f"]
    by (auto simp: trimPrefix_def)
  ultimately have "parseLogicLeafWith validate (?col @ CHR ''.'' # ?rest) = Inr (WLeaf neg f)"
    using parseFilterValue_print [OF w] v by (simp add: parseLogicLeafWith_def)
  then show ?thesis unfolding item
    by (subst parseLogicItemWith.simps) (simp only: Let_def gi g if_False)
qed

section \<open>Reading a printed group\<close>

lemma scan_shift: "scan sep d xs = Some e \<Longrightarrow> scan sep (d + k) xs = Some (e + k)"
proof (induction sep d xs rule: scan.induct)
  case (2 sep d c cs)
  then show ?case by (cases "d + k = 0") (auto split: if_splits simp: Suc_diff_le)
qed simp

lemma scan_inner:
  assumes "list_all (\<lambda>p. scan sep 0 p = Some 0) ps" and "sep \<noteq> CHR ''(''" and "sep \<noteq> CHR '')''"
  shows "scan sep 1 (strJoin ps [sep]) = Some 1"
  using assms(1)
proof (induction ps)
  case (Cons p qs)
  then have "scan sep 1 p = Some 1" using scan_shift [of sep 0 p 0 1] by simp
  then show ?case using Cons assms(2,3) by (cases "qs = []") (auto simp: strJoin_Cons scan_append)
qed simp

lemma scan_run: "list_all (\<lambda>c. c \<noteq> sep \<and> c \<noteq> CHR ''('' \<and> c \<noteq> CHR '')'') xs \<Longrightarrow> scan sep d xs = Some d"
  by (induction xs) auto

lemma scan_path: "list_all pathChar xs \<Longrightarrow> scan (CHR '','') d xs = Some d"
  by (rule scan_run) (auto simp: list_all_iff)

lemma scan_opText: "wfLeaf f \<Longrightarrow> scan (CHR '','') 0 (opText f) = Some 0"
proof -
  assume w: "wfLeaf f"
  then have "list_all pathChar (flt_Operator f)" and "list_all pathChar (flt_Config f)"
    by (auto simp: wfLeaf_def opWord_def word_path identRe_word)
  then show ?thesis by (simp add: opText_def scan_append scan_path)
qed

lemma print_node_part: "wfNode n \<Longrightarrow> topPart (CHR '','') (print_node n)"
proof (induction n)
  case (WLeaf neg f)
  then have "list_all pathChar (flt_Column f)" and "scan (CHR '','') 0 (flt_Value f) = Some 0" and "wfLeaf f"
    by (auto simp: wfLeaf_def topPart_def)
  then show ?case by (simp add: topPart_def scan_append scan_path scan_opText)
next
  case (WNode op neg cs)
  then have "list_all (\<lambda>p. scan (CHR '','') 0 p = Some 0) (map print_node cs)"
    by (auto simp: list_all_iff topPart_def)
  then have "scan (CHR '','') (Suc 0) (strJoin (map print_node cs) '','') = Some (Suc 0)"
    using scan_inner [of "CHR '',''"] by simp
  then show ?case using WNode.prems by (auto simp: topPart_def scan_append)
qed

lemma graphic_simps [simp]:
  "graphic (CHR ''('')" "graphic (CHR '')'')" "graphic (CHR ''.'')" "graphic (CHR ''n'')" "graphic (CHR ''a'')"
  "graphic (CHR ''o'')"
  by (simp_all add: graphic_def)

lemma print_node_graphic:
  "wfNode n \<Longrightarrow> print_node n \<noteq> [] \<and> graphic (hd (print_node n)) \<and> graphic (last (print_node n))"
proof (induction n)
  case (WLeaf neg f)
  then obtain c cs where "flt_Column f = c # cs" and "pathChar c"
    and "flt_Value f = [] \<or> graphic (last (flt_Value f))"
    by (cases "flt_Column f") (auto simp: wfLeaf_def)
  then show ?case by (auto simp: pathChar_graphic)
next
  case (WNode op neg cs)
  then show ?case by auto
qed

lemma print_node_trim: "wfNode n \<Longrightarrow> trimSpace (print_node n) = print_node n"
  using print_node_graphic by (intro trimSpace_graphic) blast

lemma splitTopLevel_print:
  "list_all wfNode cs \<Longrightarrow> cs \<noteq> [] \<Longrightarrow>
     splitTopLevel (strJoin (map print_node cs) '','') (CHR '','') = Inr (map print_node cs)"
  using splitTopLevelLoop_complete [of "CHR '',''" "map print_node cs"] print_node_part
  by (auto simp: splitTopLevel_def list_all_iff)

lemma group_print:
  assumes "op = ''and'' \<or> op = ''or''" and "body = op @ ''('' @ inner @ '')''"
  shows "isGroup body" and "groupOp body = op" and "groupInner body = inner" and "hasSuffix body '')''"
    and "groupItem ((if neg then ''not.'' else []) @ body) = body"
    and "groupNegated ((if neg then ''not.'' else []) @ body) = neg"
  using assms trimPrefix_append [of "''not.''" body]
  by (auto simp: isGroup_def groupOp_def groupInner_def groupItem_def groupNegated_def hasSuffix_single)

lemma logic_item_print:
  assumes "wfNode n" and "\<forall>f \<in> set (leaves n). validate (flt_Column f) = None"
  shows "parseLogicItemWith validate (print_node n) = Inr n"
  using assms
proof (induction n)
  case (WLeaf neg f)
  then show ?case using logic_leaf_print by (simp del: print_node.simps)
next
  case (WNode op neg cs)
  then have op: "op = ''and'' \<or> op = ''or''" and ne: "cs \<noteq> []" and wf: "list_all wfNode cs" by auto
  have "map trimSpace (map print_node cs) = map print_node cs"
    using wf by (auto simp: list_all_iff print_node_trim)
  moreover have "traverse (\<lambda>sub. parseLogicItemWith validate sub) (map print_node cs) = Inr cs"
    using WNode wf by (intro traverse_map) (auto simp: list_all_iff)
  ultimately show ?case
    using group_print [OF op refl, where inner = "strJoin (map print_node cs) '',''"] splitTopLevel_print [OF wf ne] ne
    by (subst parseLogicItemWith.simps) (simp add: Let_def del: map_map)
qed

text \<open>C35: Writing a list of well-formed filter trees in the URL syntax and parsing it as the value of a
  logic parameter gives exactly these trees under the parameter's connective, for every validator that
  accepts their columns.\<close>

theorem logic_list_roundtrip:
  assumes "list_all wfNode cs" and "cs \<noteq> []"
    and "\<forall>c \<in> set cs. \<forall>f \<in> set (leaves c). validate (flt_Column f) = None"
  shows "parseLogicListWith op (''('' @ strJoin (map print_node cs) '','' @ '')'') validate = Inr (WNode op False cs)"
proof -
  let ?raw = "''('' @ strJoin (map print_node cs) '','' @ '')''"
  have t: "trimSpace ?raw = ?raw" by (rule trimSpace_graphic) simp
  have "traverse (parseLogicEntry validate) (map print_node cs) = Inr cs"
    using assms by (intro traverse_map)
      (auto simp: parseLogicEntry_def list_all_iff print_node_trim logic_item_print print_node_graphic Let_def)
  then show ?thesis
    using splitTopLevel_print [OF assms(1,2)] assms(2)
    by (simp add: parseLogicListWith_def t hasSuffix_single del: append.simps) (simp add: butlast_append)
qed

definition sampleTree :: WhereNode where
  "sampleTree =
     WNode ''or'' True
       [WLeaf False \<lparr>flt_Column = ''age'', flt_Operator = ''gt'', flt_Value = ''5'', flt_Config = []\<rparr>,
        WLeaf True \<lparr>flt_Column = ''data->>k'', flt_Operator = ''fts'', flt_Value = ''(a,b)'', flt_Config = ''english''\<rparr>]"

lemma logic_list_roundtrip_witness:
  "print_node sampleTree = ''not.or(age.gt.5,data->>k.not.fts(english).(a,b))'' \<and>
   parseLogicListWith ''and'' ''(not.or(age.gt.5,data->>k.not.fts(english).(a,b)))'' ValidateIdentPath =
     Inr (WNode ''and'' False [sampleTree])"
proof -
  have p: "print_node sampleTree = ''not.or(age.gt.5,data->>k.not.fts(english).(a,b))''" by code_simp
  have "list_all wfNode [sampleTree]" by code_simp
  moreover have "\<forall>c \<in> set [sampleTree]. \<forall>f \<in> set (leaves c). ValidateIdentPath (flt_Column f) = None" by code_simp
  ultimately show ?thesis using logic_list_roundtrip [of "[sampleTree]" ValidateIdentPath "''and''"] p by simp
qed

end
