(* ===== verification/Examples.thy ===== *)
theory Examples
  imports Request_Params Where_RoundTrip
begin

text \<open>
  A small configuration (posts with an author, comments and tags) and the concrete requests on which the
  general theorems are applied.
\<close>

definition col :: "string \<Rightarrow> string \<Rightarrow> Field" where
  "col name typ = zeroField\<lparr>fld_Name := name, fld_Type := typ\<rparr>"

definition keyCol :: "string \<Rightarrow> Field" where
  "keyCol name = zeroField\<lparr>fld_Name := name, fld_Type := ''bigint'', fld_PrimaryKey := True\<rparr>"

definition refCol :: "string \<Rightarrow> string \<Rightarrow> bool \<Rightarrow> Field" where
  "refCol name ref key = zeroField\<lparr>fld_Name := name, fld_Type := ''bigint'', fld_PrimaryKey := key,
     fld_ForeignKey := Some \<lparr>fk_References = ref, fk_OnDelete = []\<rparr>\<rparr>"

definition tableWith :: "Field list \<Rightarrow> Table" where
  "tableWith fs = zeroTable\<lparr>tbl_Fields := fs\<rparr>"

definition postsTable :: Table where
  "postsTable = tableWith [keyCol ''id'', col ''title'' ''text'', col ''meta'' ''jsonb'', refCol ''author_id'' ''authors.id'' False]"

definition blog :: "Table gmap" where
  "blog =
     [(''authors'', tableWith [keyCol ''id'', col ''name'' ''text'']), (''posts'', postsTable),
      (''comments'', tableWith [keyCol ''id'', refCol ''post_id'' ''posts.id'' False, col ''body'' ''text'']),
      (''tags'', tableWith [keyCol ''id'', col ''label'' ''text'']),
      (''post_tags'', tableWith [refCol ''post_id'' ''posts.id'' True, refCol ''tag_id'' ''tags.id'' True])]"

definition readRequest :: "(string list) gmap" where
  "readRequest =
     [(''select'', [''id,title,author:authors(name),comments(id,body),tags!inner(label)'']),
      (''title'', [''ilike.*x*'']), (''comments.body'', [''not.eq.y'']), (''comments.limit'', [''3'']),
      (''meta->>k'', [''in.(a,b)'']), (''order'', [''title.desc'']), (''limit'', [''-1''])]"

lemma blog_names: "namesFree ''posts'' postsTable (Some blog)"
  by (simp add: namesFree_def tablesOf_def tableFree_def tablesFree_def blog_def postsTable_def tableWith_def col_def
      keyCol_def refCol_def zeroTable_def zeroField_def fieldRefs_def)

lemma readRequest_accepted: "\<exists>qp. parseQueryParams readRequest ''posts'' postsTable (Some blog) = Inr qp"
proof -
  have "case parseQueryParams readRequest ''posts'' postsTable (Some blog) of Inl _ \<Rightarrow> False | Inr _ \<Rightarrow> True"
    by code_simp
  then show ?thesis by (auto split: sum.splits)
qed

section \<open>Requests\<close>

lemma accepted_request_numbered_witness:
  "\<exists>qp sql args. parseQueryParams readRequest ''posts'' postsTable (Some blog) = Inr qp \<and>
     BuildSelectQueryFull ''posts'' (capParams 100 qp) postsTable blog = (sql, args) \<and>
     placeholders sql = [1..<1 + length args]"
proof -
  obtain qp where p: "parseQueryParams readRequest ''posts'' postsTable (Some blog) = Inr qp"
    using readRequest_accepted by blast
  obtain sql args where q: "BuildSelectQueryFull ''posts'' (capParams 100 qp) postsTable (tablesOf (Some blog)) = (sql, args)"
    by fastforce
  from accepted_request_numbered [OF p blog_names q] p q show ?thesis by (auto simp: tablesOf_def)
qed

lemma select_query_numbered_witness:
  "\<exists>qp sql args. queryOk ''posts'' postsTable blog qp \<and> qp_Embeds qp \<noteq> [] \<and>
     BuildSelectQueryFull ''posts'' qp postsTable blog = (sql, args) \<and> placeholders sql = [1..<1 + length args]"
proof -
  let ?i = "zeroEmbed\<lparr>em_Name := ''comments'', em_FKColumn := ''post_id'', em_RefTable := ''comments'',
    em_RefColumn := ''id'', em_IsReverse := True, em_Limit := Some 3\<rparr>"
  let ?qp = "\<lparr>qp_Select = [''id''], qp_Embeds = [Embed ?i []], qp_Where = sampleFilter, qp_Having = None, qp_Order = [],
    qp_Limit = 5, qp_Offset = 0\<rparr>"
  have "selectItems [''id''] = [ParseSelectItem ''id'']" by code_simp
  moreover have "safeItem postsTable (ParseSelectItem ''id'')" by code_simp
  moreover have "embedSafe (Embed ?i [])" by (simp add: embedFree_def scopeOk_def zeroEmbed_def allLeaves_def)
  moreover have "tablesFree blog" using blog_names by (simp add: namesFree_def tablesOf_def)
  ultimately have ok: "queryOk ''posts'' postsTable blog ?qp"
    using sampleFilter_ok by (simp add: queryOk_def allLeaves_def)
  obtain sql args where q: "BuildSelectQueryFull ''posts'' ?qp postsTable blog = (sql, args)" by fastforce
  have "qp_Embeds ?qp \<noteq> []" by simp
  with select_query_numbered [OF ok q] ok q show ?thesis by blast
qed

lemma max_rows_enforced_witness:
  "qp_Limit (capParams 100 \<lparr>qp_Select = [], qp_Embeds = [], qp_Where = None, qp_Having = None, qp_Order = [],
     qp_Limit = -1, qp_Offset = 0\<rparr>) \<le> 100 \<and> (0 :: int) < 100"
  using max_rows_enforced [of 100 "\<lparr>qp_Select = [], qp_Embeds = [], qp_Where = None, qp_Having = None, qp_Order = [],
     qp_Limit = -1, qp_Offset = 0\<rparr>"] by simp

section \<open>Filters\<close>

definition titleIs :: "string \<Rightarrow> WhereNode" where
  "titleIs v = WNode ''and'' True [WLeaf False \<lparr>flt_Column = ''title'', flt_Operator = ''eq'', flt_Value = v, flt_Config = []\<rparr>]"

lemma values_never_in_sql_witness:
  "sqlText (buildNode (titleIs ''x'') 3) = sqlText (buildNode (titleIs [CHR 0x27, CHR '';'']) 3)"
proof (rule values_never_in_sql)
  show "sameShape (titleIs ''x'') (titleIs [CHR 0x27, CHR '';''])"
    unfolding titleIs_def by (intro sameShape.node list_all2_Cons [THEN iffD2] conjI sameShape.leaf list_all2_Nil [THEN iffD2])
      (simp_all add: sameFilterShape_def valueShape_def switchOp_def)
qed

lemma where_sql_numbered_witness: "numbered 4 (BuildSQL sampleFilter 4)"
  by (rule where_sql_numbered) (rule sampleFilter_ok)

lemma parsed_filters_safe_witness:
  "\<exists>tree. ParseWhereSkip [(''meta->>k'', [''in.(a,b)''])] postsTable [] = Inr tree \<and>
     allLeaves (tableLeaf postsTable) tree \<and> numbered 1 (BuildSQL tree 1)"
proof -
  have "case ParseWhereSkip [(''meta->>k'', [''in.(a,b)''])] postsTable [] of Inl _ \<Rightarrow> False | Inr _ \<Rightarrow> True" by code_simp
  then obtain tree where "ParseWhereSkip [(''meta->>k'', [''in.(a,b)''])] postsTable [] = Inr tree" by (auto split: sum.splits)
  with parsed_filters_safe [OF this] show ?thesis by blast
qed

lemma splitTopLevel_exact_witness: "splitTopLevel ''a,(b,c)'' (CHR '','') = Inr [''a'', ''(b,c)'']"
proof -
  have "list_all (topPart (CHR '','')) [''a'', ''(b,c)'']" by code_simp
  then show ?thesis using splitTopLevel_exact [of "CHR '',''" "''a,(b,c)''" "[''a'', ''(b,c)'']"] by simp
qed

lemma order_with_select_resolved_witness:
  "\<exists>ocs. ParseOrderValueWithSelect ''n.desc'' postsTable [''n:id.count()''] = Inr ocs \<and> list_all oc_IsAlias ocs"
proof -
  have "case ParseOrderValueWithSelect ''n.desc'' postsTable [''n:id.count()''] of Inl _ \<Rightarrow> False
      | Inr ocs \<Rightarrow> map oc_Column ocs = [''n'']" by code_simp
  then obtain ocs where o: "ParseOrderValueWithSelect ''n.desc'' postsTable [''n:id.count()''] = Inr ocs"
    and "map oc_Column ocs = [''n'']" by (auto split: sum.splits)
  then have c: "\<forall>oc \<in> set ocs. oc_Column oc = ''n''" by auto
  have n: "''n'' \<in> set (CollectSelectAliases [''n:id.count()''])" by code_simp
  have "\<forall>oc \<in> set ocs. oc_IsAlias oc"
  proof
    fix oc assume oc: "oc \<in> set ocs"
    have "oc_IsAlias oc \<longleftrightarrow> oc_Column oc \<in> set (CollectSelectAliases [''n:id.count()''])"
      using order_with_select_resolved [OF o] oc by blast
    with n c oc show "oc_IsAlias oc" by (simp only: simp_thms)
  qed
  then have "list_all oc_IsAlias ocs" by (simp only: list_all_iff)
  with o show ?thesis by blast
qed

lemma having_numbered_witness:
  "\<exists>tree. ParseHavingParam ''n.gt.2'' ''posts'' postsTable [''n:id.count()''] = Inr tree \<and> numbered 7 (BuildSQL tree 7)"
proof -
  have e: "aggAliasExprs ''posts'' [''n:id.count()''] = [(''n'', ''COUNT(posts.id)'')]" by code_simp
  have sp: "splitTopLevel ''n.gt.2'' (CHR '','') = Inr [''n.gt.2'']" by code_simp
  have tr: "trimSpace ''n.gt.2'' = ''n.gt.2''" by code_simp
  have "case havingItem [(''n'', ''COUNT(posts.id)'')] ''posts'' postsTable ''n.gt.2'' of Inl _ \<Rightarrow> False | Inr _ \<Rightarrow> True"
    by code_simp
  then obtain m where m: "havingItem [(''n'', ''COUNT(posts.id)'')] ''posts'' postsTable ''n.gt.2'' = Inr m"
    by (auto split: sum.splits)
  have h: "ParseHavingParam ''n.gt.2'' ''posts'' postsTable [''n:id.count()''] = Inr (Some (WNode ''and'' False [m]))"
    by (simp add: ParseHavingParam_def Let_def e sp tr m)
  have "aggSafe postsTable [''n:id.count()'']" by code_simp
  with having_numbered [OF h, of 7] h show ?thesis by auto
qed

section \<open>Embeds\<close>

lemma resolved_embeds_backed_witness:
  "\<exists>es. ResolveEmbeds ''posts'' postsTable [''comments(id)'', ''t:tags!inner(label)'', ''authors(name,posts(id))''] blog = Inr es \<and>
     list_all (wfEmbed blog ''posts'' postsTable) es"
proof -
  have "case ResolveEmbeds ''posts'' postsTable [''comments(id)'', ''t:tags!inner(label)'', ''authors(name,posts(id))''] blog of
      Inl _ \<Rightarrow> False | Inr _ \<Rightarrow> True" by code_simp
  then obtain es where "ResolveEmbeds ''posts'' postsTable
      [''comments(id)'', ''t:tags!inner(label)'', ''authors(name,posts(id))''] blog = Inr es" by (auto split: sum.splits)
  with resolved_embeds_backed [OF this] show ?thesis by blast
qed

lemma ResolveEmbeds_enumeration_witness:
  "ResolveEmbeds ''posts'' postsTable [''comments(id)''] blog = ResolveEmbeds ''posts'' postsTable [''comments(id)''] (rev blog)"
  by (rule ResolveEmbeds_enumeration) (simp, simp add: wfMap_def blog_def)

text \<open>A table \<open>author\<close> that refers to posts, next to the key \<open>author_id\<close> of posts: the name \<open>author\<close> matches both.\<close>

definition blog2 :: "Table gmap" where
  "blog2 = blog @ [(''author'', tableWith [keyCol ''id'', refCol ''post_id'' ''posts.id'' False])]"

lemma ambiguous_embed_reported_witness:
  "\<exists>details hints. ResolveEmbeds ''posts'' postsTable [''author(id)''] blog2 =
     Inl (AmbiguousEmbedError ''posts'' ''author'' details hints) \<and> length hints = 2"
proof -
  define cands where "cands = embedCandidates ''posts'' postsTable ''author'' [] blog2"
  have b: "validateEmbedBalance ''author(id)'' = None" by code_simp
  have p: "ParseEmbedParam ''author(id)'' = (''author'', [], [''id''], [], False)" by code_simp
  have h: "ParseEmbedHint ''author'' = (''author'', False, [])" by code_simp
  have n: "length cands = 2" unfolding cands_def by code_simp
  from ambiguous_embed_reported [OF b p h _ cands_def] n show ?thesis
    by (auto dest!: mset_eq_length)
qed

lemma scoped_params_frame_witness:
  "\<exists>es es'. ParseEmbedScopedParams [(''comments.limit'', [''3'']), (''comments.body'', [''eq.x''])] [(''comments'', 0)] blog es = Inr es' \<and>
     sameEmbeds es' es \<and> list_all scopeReady es'"
proof -
  let ?e = "Embed (zeroEmbed\<lparr>em_Name := ''comments'', em_FKColumn := ''post_id'', em_RefTable := ''comments'',
    em_RefColumn := ''id'', em_IsReverse := True\<rparr>) []"
  let ?vals = "[(''comments.limit'', [''3'']), (''comments.body'', [''eq.x''])]"
  have "case ParseEmbedScopedParams ?vals [(''comments'', 0)] blog [?e] of Inl _ \<Rightarrow> False | Inr _ \<Rightarrow> True" by code_simp
  then obtain es' where p: "ParseEmbedScopedParams ?vals [(''comments'', 0)] blog [?e] = Inr es'" by (auto split: sum.splits)
  have "list_all scopeReady [?e]" by (simp add: scopeReady_def scopeOk_def zeroEmbed_def allLeaves_def)
  with scoped_params_frame [OF p] p show ?thesis by auto
qed

end
