(* ===== verification/Go_Regexp.thy ===== *)
theory Go_Regexp
  imports Go_Strings
begin

text \<open>
  The part of Go's \<open>regexp\<close> the sources use: expressions over ASCII classes, matched as a whole string
  (\<open>^\<dots>$\<close>) or as a prefix. \<open>rxMatch\<close> computes by derivatives; \<open>rxMatch_lang\<close> shows that it decides the
  language of the expression, and the lemmas after it read the usual shapes of the sources.
\<close>

datatype rx =
    Never
  | Eps
  | Chr "char \<Rightarrow> bool"
  | Alt rx rx
  | Sq rx rx
  | Many rx

fun mkAlt :: "rx \<Rightarrow> rx \<Rightarrow> rx" where
  "mkAlt Never s = s"
| "mkAlt r Never = r"
| "mkAlt r s = Alt r s"

fun mkSq :: "rx \<Rightarrow> rx \<Rightarrow> rx" where
  "mkSq Never s = Never"
| "mkSq r Never = Never"
| "mkSq Eps s = s"
| "mkSq r s = Sq r s"

fun nullable :: "rx \<Rightarrow> bool" where
  "nullable Never = False"
| "nullable Eps = True"
| "nullable (Chr p) = False"
| "nullable (Alt r s) = (nullable r \<or> nullable s)"
| "nullable (Sq r s) = (nullable r \<and> nullable s)"
| "nullable (Many r) = True"

fun deriv :: "char \<Rightarrow> rx \<Rightarrow> rx" where
  "deriv c Never = Never"
| "deriv c Eps = Never"
| "deriv c (Chr p) = (if p c then Eps else Never)"
| "deriv c (Alt r s) = mkAlt (deriv c r) (deriv c s)"
| "deriv c (Sq r s) =
     (if nullable r then mkAlt (mkSq (deriv c r) s) (deriv c s) else mkSq (deriv c r) s)"
| "deriv c (Many r) = mkSq (deriv c r) (Many r)"

fun rxMatch :: "rx \<Rightarrow> string \<Rightarrow> bool" where
  "rxMatch r [] = nullable r"
| "rxMatch r (c # cs) = rxMatch (deriv c r) cs"

section \<open>Derived forms\<close>

definition Opt :: "rx \<Rightarrow> rx" where
  "Opt r = Alt Eps r"

definition Many1 :: "rx \<Rightarrow> rx" where
  "Many1 r = Sq r (Many r)"

fun upTo :: "nat \<Rightarrow> rx \<Rightarrow> rx" where
  "upTo 0 r = Eps"
| "upTo (Suc n) r = Opt (Sq r (upTo n r))"

fun seqs :: "rx list \<Rightarrow> rx" where
  "seqs [] = Eps"
| "seqs [r] = r"
| "seqs (r # s # rs) = Sq r (seqs (s # rs))"

fun alts :: "rx list \<Rightarrow> rx" where
  "alts [] = Never"
| "alts [r] = r"
| "alts (r # s # rs) = Alt r (alts (s # rs))"

definition lit :: "string \<Rightarrow> rx" where
  "lit w = foldr (\<lambda>c. Sq (Chr (\<lambda>d. d = c))) w Eps"

text \<open>\<open>(?i)\<close> on a lower-case ASCII word without \<open>k\<close> and \<open>s\<close>, the letters that fold outside ASCII.\<close>

definition litFold :: "string \<Rightarrow> rx" where
  "litFold w = foldr (\<lambda>c. Sq (Chr (\<lambda>d. asciiLower d = c))) w Eps"

definition isLower :: "char \<Rightarrow> bool" where
  "isLower c = (97 \<le> (of_char c :: nat) \<and> (of_char c :: nat) \<le> 122)"

definition rxSpace :: "char \<Rightarrow> bool" where
  "rxSpace c = (c \<in> {CHR 0x09, CHR 0x0A, CHR 0x0C, CHR 0x0D, CHR 0x20})"

text \<open>A word boundary after a word character, followed by anything.\<close>

definition boundary :: rx where
  "boundary = Opt (Sq (Chr (\<lambda>c. \<not> isWord c)) (Many (Chr (\<lambda>_. True))))"

section \<open>Languages\<close>

primrec lang :: "rx \<Rightarrow> string set" where
  "lang Never = {}"
| "lang Eps = {[]}"
| "lang (Chr p) = {[c] |c. p c}"
| "lang (Alt r s) = lang r \<union> lang s"
| "lang (Sq r s) = {u @ v |u v. u \<in> lang r \<and> v \<in> lang s}"
| "lang (Many r) = {concat ws |ws. set ws \<subseteq> lang r}"

lemma lang_mkAlt [simp]: "lang (mkAlt r s) = lang r \<union> lang s"
  by (cases "(r, s)" rule: mkAlt.cases) auto

lemma lang_mkSq [simp]: "lang (mkSq r s) = lang (Sq r s)"
  by (cases "(r, s)" rule: mkSq.cases) auto

lemma nullable_lang: "nullable r \<longleftrightarrow> [] \<in> lang r"
  by (induction r) (auto intro: exI [of _ "[]"])

lemma lang_Sq_Cons:
  "c # w \<in> lang (Sq r s) \<longleftrightarrow>
     (\<exists>u v. w = u @ v \<and> c # u \<in> lang r \<and> v \<in> lang s) \<or> ([] \<in> lang r \<and> c # w \<in> lang s)"
  by (auto simp: Cons_eq_append_conv)

lemma lang_Many_Cons: "c # w \<in> lang (Many r) \<longleftrightarrow> (\<exists>u v. w = u @ v \<and> c # u \<in> lang r \<and> v \<in> lang (Many r))"
proof
  assume "c # w \<in> lang (Many r)"
  then obtain ws where "c # w = concat ws" "set ws \<subseteq> lang r" by auto
  then show "\<exists>u v. w = u @ v \<and> c # u \<in> lang r \<and> v \<in> lang (Many r)"
  proof (induction ws)
    case (Cons x xs)
    show ?case
    proof (cases x)
      case Nil
      with Cons show ?thesis by auto
    next
      case (Cons d u)
      with \<open>c # w = concat (x # xs)\<close> \<open>set (x # xs) \<subseteq> lang r\<close>
      have "w = u @ concat xs" "c # u \<in> lang r" "concat xs \<in> lang (Many r)" by auto
      then show ?thesis by blast
    qed
  qed simp
next
  assume "\<exists>u v. w = u @ v \<and> c # u \<in> lang r \<and> v \<in> lang (Many r)"
  then obtain u ws where "w = u @ concat ws" "c # u \<in> lang r" "set ws \<subseteq> lang r" by auto
  then have "c # w = concat ((c # u) # ws)" "set ((c # u) # ws) \<subseteq> lang r" by auto
  then show "c # w \<in> lang (Many r)" unfolding lang.simps by blast
qed

lemma deriv_lang: "w \<in> lang (deriv c r) \<longleftrightarrow> c # w \<in> lang r"
proof (induction r arbitrary: w)
  case (Sq r s)
  then show ?case by (auto simp: lang_Sq_Cons nullable_lang simp del: lang.simps(5)) (auto simp: lang_Sq_Cons)
next
  case (Many r)
  then show ?case by (auto simp: lang_Many_Cons simp del: lang.simps(6))
qed auto

theorem rxMatch_lang: "rxMatch r s \<longleftrightarrow> s \<in> lang r"
  by (induction s arbitrary: r) (simp_all add: nullable_lang deriv_lang)

section \<open>Reading the usual shapes\<close>

lemma rxMatch_Sq: "rxMatch (Sq r s) w \<longleftrightarrow> (\<exists>u v. w = u @ v \<and> rxMatch r u \<and> rxMatch s v)"
  by (auto simp: rxMatch_lang)

lemma rxMatch_Alt: "rxMatch (Alt r s) w \<longleftrightarrow> rxMatch r w \<or> rxMatch s w"
  by (simp add: rxMatch_lang)

lemma rxMatch_Eps: "rxMatch Eps w \<longleftrightarrow> w = []"
  by (simp add: rxMatch_lang)

lemma rxMatch_Chr: "rxMatch (Chr p) w \<longleftrightarrow> (\<exists>c. w = [c] \<and> p c)"
  by (auto simp: rxMatch_lang)

lemma rxMatch_Opt: "rxMatch (Opt r) w \<longleftrightarrow> w = [] \<or> rxMatch r w"
  by (simp add: Opt_def rxMatch_Alt rxMatch_Eps)

lemma rxMatch_lit: "rxMatch (lit v) w \<longleftrightarrow> w = v"
  by (induction v arbitrary: w) (auto simp: lit_def rxMatch_Eps rxMatch_Sq rxMatch_Chr)

lemma concat_singletons: "set ws \<subseteq> {[c] |c. p c} \<Longrightarrow> list_all p (concat ws)"
  by (induction ws) auto

lemma rxMatch_ManyChr: "rxMatch (Many (Chr p)) w \<longleftrightarrow> list_all p w"
proof
  assume "rxMatch (Many (Chr p)) w"
  then show "list_all p w" by (auto simp: rxMatch_lang dest: concat_singletons)
next
  assume "list_all p w"
  then have "set (map (\<lambda>c. [c]) w) \<subseteq> lang (Chr p)" "concat (map (\<lambda>c. [c]) w) = w"
    by (auto simp: list_all_iff)
  then show "rxMatch (Many (Chr p)) w" unfolding rxMatch_lang lang.simps(6) by (metis (mono_tags, lifting) mem_Collect_eq)
qed

lemma rxMatch_upToChr: "rxMatch (upTo n (Chr p)) w \<longleftrightarrow> list_all p w \<and> length w \<le> n"
proof (induction n arbitrary: w)
  case (Suc n)
  have "rxMatch (upTo (Suc n) (Chr p)) w \<longleftrightarrow> w = [] \<or> (\<exists>c v. w = c # v \<and> p c \<and> rxMatch (upTo n (Chr p)) v)"
    by (simp add: rxMatch_Opt rxMatch_Sq rxMatch_Chr) (metis append_Cons append_Nil)
  then show ?case unfolding Suc.IH by (cases w) auto
qed (auto simp: rxMatch_Eps)

text \<open>Every character of a match is one that some class of the expression accepts.\<close>

primrec rxChars :: "rx \<Rightarrow> char \<Rightarrow> bool" where
  "rxChars Never c = False"
| "rxChars Eps c = False"
| "rxChars (Chr p) c = p c"
| "rxChars (Alt r s) c = (rxChars r c \<or> rxChars s c)"
| "rxChars (Sq r s) c = (rxChars r c \<or> rxChars s c)"
| "rxChars (Many r) c = rxChars r c"

lemma rxMatch_chars: "rxMatch r w \<Longrightarrow> c \<in> set w \<Longrightarrow> rxChars r c"
  unfolding rxMatch_lang by (induction r arbitrary: w) (auto, blast+)

end
