(* ===== verification/Sha256.thy ===== *)
theory Sha256
  imports Go_Strings "HOL-Library.Word"
begin

text \<open>
  \<open>crypto/sha256\<close> and \<open>encoding/hex\<close> on byte strings (FIPS 180-4), executable: the migrator derives
  the configuration checksum and the suffix of a long guard function name from it.
\<close>

unbundle bit_operations_syntax

section \<open>The compression function\<close>

definition rotr :: "nat \<Rightarrow> 32 word \<Rightarrow> 32 word" where
  "rotr n x = (drop_bit n x OR push_bit (32 - n) x)"

definition bigSigma0 :: "32 word \<Rightarrow> 32 word" where
  "bigSigma0 x = (rotr 2 x XOR rotr 13 x XOR rotr 22 x)"

definition bigSigma1 :: "32 word \<Rightarrow> 32 word" where
  "bigSigma1 x = (rotr 6 x XOR rotr 11 x XOR rotr 25 x)"

definition smallSigma0 :: "32 word \<Rightarrow> 32 word" where
  "smallSigma0 x = (rotr 7 x XOR rotr 18 x XOR drop_bit 3 x)"

definition smallSigma1 :: "32 word \<Rightarrow> 32 word" where
  "smallSigma1 x = (rotr 17 x XOR rotr 19 x XOR drop_bit 10 x)"

definition roundConstants :: "32 word list" where
  "roundConstants =
     [0x428a2f98, 0x71374491, 0xb5c0fbcf, 0xe9b5dba5, 0x3956c25b, 0x59f111f1,
      0x923f82a4, 0xab1c5ed5, 0xd807aa98, 0x12835b01, 0x243185be, 0x550c7dc3,
      0x72be5d74, 0x80deb1fe, 0x9bdc06a7, 0xc19bf174, 0xe49b69c1, 0xefbe4786,
      0x0fc19dc6, 0x240ca1cc, 0x2de92c6f, 0x4a7484aa, 0x5cb0a9dc, 0x76f988da,
      0x983e5152, 0xa831c66d, 0xb00327c8, 0xbf597fc7, 0xc6e00bf3, 0xd5a79147,
      0x06ca6351, 0x14292967, 0x27b70a85, 0x2e1b2138, 0x4d2c6dfc, 0x53380d13,
      0x650a7354, 0x766a0abb, 0x81c2c92e, 0x92722c85, 0xa2bfe8a1, 0xa81a664b,
      0xc24b8b70, 0xc76c51a3, 0xd192e819, 0xd6990624, 0xf40e3585, 0x106aa070,
      0x19a4c116, 0x1e376c08, 0x2748774c, 0x34b0bcb5, 0x391c0cb3, 0x4ed8aa4a,
      0x5b9cca4f, 0x682e6ff3, 0x748f82ee, 0x78a5636f, 0x84c87814, 0x8cc70208,
      0x90befffa, 0xa4506ceb, 0xbef9a3f7, 0xc67178f2]"

definition initialHash :: "32 word list" where
  "initialHash =
     [0x6a09e667, 0xbb67ae85, 0x3c6ef372, 0xa54ff53a, 0x510e527f, 0x9b05688c,
      0x1f83d9ab, 0x5be0cd19]"

text \<open>The message schedule is kept newest first: \<open>ws\<close> holds the words so far.\<close>

definition nextWord :: "32 word list \<Rightarrow> 32 word" where
  "nextWord ws = smallSigma1 (ws ! 1) + ws ! 6 + smallSigma0 (ws ! 14) + ws ! 15"

fun schedule :: "nat \<Rightarrow> 32 word list \<Rightarrow> 32 word list" where
  "schedule 0 ws = ws"
| "schedule (Suc n) ws = schedule n (nextWord ws # ws)"

fun compressRound :: "32 word \<times> 32 word \<Rightarrow> 32 word list \<Rightarrow> 32 word list" where
  "compressRound (k, w) [a, b, c, d, e, f, g, h] =
     (let t1 = h + bigSigma1 e + ((e AND f) XOR (NOT e AND g)) + k + w;
          t2 = bigSigma0 a + ((a AND b) XOR (a AND c) XOR (b AND c))
      in [t1 + t2, a, b, c, d + t1, e, f, g])"
| "compressRound _ hs = hs"

definition compressBlock :: "32 word list \<Rightarrow> 32 word list \<Rightarrow> 32 word list" where
  "compressBlock block hs =
     map2 (+) hs (fold compressRound (zip roundConstants (rev (schedule 48 (rev block)))) hs)"

section \<open>Padding and output\<close>

definition byteWord :: "char \<Rightarrow> 32 word" where
  "byteWord c = of_nat (of_char c)"

definition bigEndian :: "nat \<Rightarrow> nat \<Rightarrow> string" where
  "bigEndian k n = map (\<lambda>i. char_of (n div 256 ^ i mod 256)) (rev [0..<k])"

definition padding :: "nat \<Rightarrow> string" where
  "padding n = CHR 0x80 # replicate ((119 - n mod 64) mod 64) (CHR 0x00) @ bigEndian 8 (8 * n)"

fun beWords :: "string \<Rightarrow> 32 word list" where
  "beWords (a # b # c # d # r) =
     (push_bit 24 (byteWord a) OR push_bit 16 (byteWord b) OR push_bit 8 (byteWord c) OR byteWord d) # beWords r"
| "beWords _ = []"

fun blocks :: "nat \<Rightarrow> 32 word list \<Rightarrow> 32 word list list" where
  "blocks 0 ws = []"
| "blocks (Suc n) ws = take 16 ws # blocks n (drop 16 ws)"

definition sha256 :: "string \<Rightarrow> string" where
  "sha256 s =
     (let ws = beWords (s @ padding (length s))
      in concat (map (\<lambda>w. bigEndian 4 (unat w)) (fold compressBlock (blocks (length ws div 16) ws) initialHash)))"

definition hexDigit :: "nat \<Rightarrow> char" where
  "hexDigit d = (if d < 10 then char_of (48 + d) else char_of (87 + d))"

definition hexEncode :: "string \<Rightarrow> string" where
  "hexEncode s = concat (map (\<lambda>c. [hexDigit (of_char c div 16), hexDigit (of_char c mod 16)]) s)"

section \<open>Lengths\<close>

lemma length_bigEndian [simp]: "length (bigEndian k n) = k"
  by (simp add: bigEndian_def)

lemma length_compressRound [simp]: "length (compressRound kw hs) = length hs"
  by (cases "(kw, hs)" rule: compressRound.cases) (auto simp: Let_def)

lemma length_fold_compressRound [simp]: "length (fold compressRound kws hs) = length hs"
  by (induction kws arbitrary: hs) auto

lemma length_compressBlock [simp]: "length (compressBlock b hs) = length hs"
  by (simp add: compressBlock_def)

lemma length_fold_compressBlock [simp]: "length (fold compressBlock bs hs) = length hs"
  by (induction bs arbitrary: hs) auto

lemma length_sha256 [simp]: "length (sha256 s) = 32"
  by (simp add: sha256_def Let_def length_concat comp_def initialHash_def sum_list_triv)

lemma length_hexEncode [simp]: "length (hexEncode s) = 2 * length s"
  by (simp add: hexEncode_def length_concat comp_def sum_list_triv)


end
