(* ===== verification/Go_Duration.thy ===== *)
theory Go_Duration
  imports Sha256
begin

text \<open>
  \<open>time.ParseDuration\<close> of Go's standard library: a signed sequence of decimal numbers with units, in
  nanoseconds. The fraction is computed exactly where the library rounds through \<open>float64\<close>.
\<close>

definition timeQuote :: "string \<Rightarrow> string" where
  "timeQuote s = CHR 0x22 # concat (map (\<lambda>c.
     if c = CHR 0x22 \<or> c = CHR 0x5C then [CHR 0x5C, c]
     else if (of_char c :: nat) < 32 \<or> 128 \<le> (of_char c :: nat) then CHR 0x5C # CHR ''x'' # hexEncode [c] else [c]) s) @ [CHR 0x22]"

definition durationUnits :: "(string \<times> nat) list" where
  "durationUnits = [(''ns'', 1), (''us'', 1000), ([CHR 0xC2, CHR 0xB5, CHR ''s''], 1000),
     ([CHR 0xCE, CHR 0xBC, CHR ''s''], 1000), (''ms'', 1000000), (''s'', 1000000000), (''m'', 60000000000),
     (''h'', 3600000000000)]"

text \<open>\<open>leadingInt\<close>: the digits, unless they exceed \<open>2^63\<close>.\<close>

fun leadingInt :: "nat \<Rightarrow> string \<Rightarrow> (nat \<times> string) option" where
  "leadingInt x [] = Some (x, [])"
| "leadingInt x (c # cs) =
     (if \<not> isDigit c then Some (x, c # cs)
      else if 2 ^ 63 div 10 < x then None
      else let y = x * 10 + (of_char c - 48) in if 2 ^ 63 < y then None else leadingInt y cs)"

text \<open>\<open>leadingFraction\<close>: digits that no longer fit are dropped; the result is numerator and scale.\<close>

fun leadingFraction :: "nat \<Rightarrow> nat \<Rightarrow> bool \<Rightarrow> string \<Rightarrow> nat \<times> nat \<times> string" where
  "leadingFraction x scale overflow [] = (x, scale, [])"
| "leadingFraction x scale overflow (c # cs) =
     (if \<not> isDigit c then (x, scale, c # cs)
      else if overflow \<or> (2 ^ 63 - 1) div 10 < x then leadingFraction x scale True cs
      else let y = x * 10 + (of_char c - 48) in
        if 2 ^ 63 < y then leadingFraction x scale True cs else leadingFraction y (scale * 10) False cs)"

definition unitLen :: "string \<Rightarrow> nat" where
  "unitLen s = length (takeWhile (\<lambda>c. c \<noteq> CHR ''.'' \<and> \<not> isDigit c) s)"

definition invalidDuration :: "string \<Rightarrow> string" where
  "invalidDuration orig = ''time: invalid duration '' @ timeQuote orig"

text \<open>One number with its unit: the rest of the input and the total so far.\<close>

definition durationTerm :: "string \<Rightarrow> nat \<Rightarrow> string \<Rightarrow> string + string \<times> nat" where
  "durationTerm orig d s =
     (if \<not> (hd s = CHR ''.'' \<or> isDigit (hd s)) then Inl (invalidDuration orig)
      else case leadingInt 0 s of
        None \<Rightarrow> Inl (invalidDuration orig)
      | Some (v, s1) \<Rightarrow>
          (let pre = length s1 \<noteq> length s;
               (f, scale, s2) = (if hasPrefix s1 ''.'' then leadingFraction 0 1 False (tl s1) else (0, 1, s1));
               post = (hasPrefix s1 ''.'' \<and> length s2 \<noteq> length (tl s1)) in
           if \<not> pre \<and> \<not> post then Inl (invalidDuration orig)
           else if unitLen s2 = 0 then Inl (''time: missing unit in duration '' @ timeQuote orig)
           else case map_of durationUnits (take (unitLen s2) s2) of
               None \<Rightarrow> Inl (''time: unknown unit '' @ timeQuote (take (unitLen s2) s2) @ '' in duration '' @ timeQuote orig)
             | Some unit \<Rightarrow>
                 if 2 ^ 63 div unit < v then Inl (invalidDuration orig)
                 else let w = v * unit + f * unit div scale in
                   if 2 ^ 63 < w \<or> 2 ^ 63 < d + w then Inl (invalidDuration orig)
                   else Inr (drop (unitLen s2) s2, d + w)))"

lemma leadingInt_length: "leadingInt x s = Some (v, r) \<Longrightarrow> length r \<le> length s"
  by (induction x s rule: leadingInt.induct) (auto simp: Let_def split: if_splits)

lemma leadingFraction_length: "leadingFraction x sc ov s = (f, sc', r) \<Longrightarrow> length r \<le> length s"
proof (induction s arbitrary: x sc ov)
  case (Cons c cs)
  show ?case
  proof (cases "r = c # cs")
    case False
    with Cons.prems obtain x' sc'' ov' where "leadingFraction x' sc'' ov' cs = (f, sc', r)"
      by (auto simp: Let_def split: if_splits)
    from Cons.IH [OF this] show ?thesis by simp
  qed simp
qed simp

lemma unitLen_le: "unitLen s \<le> length s"
  by (simp add: unitLen_def length_takeWhile_le)

lemma durationTerm_length: "durationTerm orig d s = Inr (r, d') \<Longrightarrow> s \<noteq> [] \<Longrightarrow> length r < length s"
proof -
  assume t: "durationTerm orig d s = Inr (r, d')" "s \<noteq> []"
  then obtain v s1 where v: "leadingInt 0 s = Some (v, s1)" by (auto simp: durationTerm_def split: if_splits option.splits)
  obtain f sc s2 where f: "(if hasPrefix s1 ''.'' then leadingFraction 0 1 False (tl s1) else (0, 1, s1)) = (f, sc, s2)"
    by (cases "(if hasPrefix s1 ''.'' then leadingFraction 0 1 False (tl s1) else (0, 1, s1))") auto
  have "length s2 \<le> length s1" using f leadingFraction_length [of 0 1 False "tl s1" f sc s2]
    by (cases s1) (auto split: if_splits)
  moreover have "length s1 \<le> length s" by (rule leadingInt_length [OF v])
  moreover have "0 < unitLen s2 \<and> r = drop (unitLen s2) s2"
    using t(1) v f by (auto simp: durationTerm_def Let_def split: if_splits option.splits)
  ultimately show ?thesis using unitLen_le [of s2] by auto
qed

function durationLoop :: "string \<Rightarrow> nat \<Rightarrow> string \<Rightarrow> string + nat" where
  "durationLoop orig d s =
     (if s = [] then Inr d
      else case durationTerm orig d s of Inl e \<Rightarrow> Inl e | Inr (rest, d') \<Rightarrow> durationLoop orig d' rest)"
  by pat_completeness auto
termination by (relation "measure (\<lambda>(_, _, s). length s)") (auto dest: durationTerm_length)

declare durationLoop.simps [simp del]

definition ParseDuration :: "string \<Rightarrow> string + int" where
  "ParseDuration orig =
     (let neg = hasPrefix orig ''-''; s = (if neg \<or> hasPrefix orig ''+'' then tl orig else orig) in
      if s = ''0'' then Inr 0
      else if s = [] then Inl (invalidDuration orig)
      else case durationLoop orig 0 s of
          Inl e \<Rightarrow> Inl e
        | Inr d \<Rightarrow>
            if neg then Inr (- int d)
            else if 2 ^ 63 - 1 < d then Inl (invalidDuration orig) else Inr (int d))"

text \<open>A result fits the 64 bits of a \<open>time.Duration\<close>.\<close>

lemma durationLoop_bound: "durationLoop orig d s = Inr r \<Longrightarrow> d \<le> 2 ^ 63 \<Longrightarrow> r \<le> 2 ^ 63"
proof (induction orig d s rule: durationLoop.induct)
  case (1 orig d s)
  then show ?case
  proof (cases "s = []")
    case False
    with 1(2) obtain rest d' where t: "durationTerm orig d s = Inr (rest, d')" "durationLoop orig d' rest = Inr r"
      by (auto simp: durationLoop.simps [of orig d s] split: sum.splits)
    have "d' \<le> 2 ^ 63"
      using t(1) by (auto simp: durationTerm_def Let_def split: if_splits option.splits prod.splits)
    with 1(1) [OF False t(1) refl t(2)] show ?thesis by blast
  qed (simp add: durationLoop.simps [of orig d "[]"])
qed

lemma ParseDuration_range: "ParseDuration s = Inr d \<Longrightarrow> - (2 ^ 63) \<le> d \<and> d < 2 ^ 63"
  by (auto simp: ParseDuration_def Let_def split: if_splits sum.splits dest!: durationLoop_bound)

end
