(* ===== verification/Migrate_Ddl.thy ===== *)
theory Migrate_Ddl
  imports Domain_Schema Sha256
begin

text \<open>
  The statements the migrator of \<open>internal/app/migrate.go\<close> emits, as a datatype, with their SQL text.
  The sources build each statement with \<open>fmt.Sprintf\<close>; \<open>stmtText\<close> holds those formats, so that a
  definition here that returns a \<open>stmt list\<close> models the Go function that returns the list of its texts.
  The statements that the properties give a meaning to keep their parts apart; a fixed text is a \<open>Sql\<close>.
  A table is named by its schema and its name, as \<open>qualifiedTableName\<close> prints them.
\<close>

section \<open>Statements\<close>

type_synonym relname = "string \<times> string"

datatype constr =
    ForeignKeyC string string string string string
  | InvalidForeignKeyC fk_error
  | CheckIn string "string list"
  | CheckMatch string string
  | CheckMin string float64
  | CheckMax string float64
  | CheckRaw string
  | UniqueC string
  | PrimaryKeyC "string list"

record Column =
  cl_Name :: string
  cl_Type :: string
  cl_PrimaryKey :: bool
  cl_Required :: bool
  cl_Default :: "string option"

datatype stmt =
    Sql string
  | CreateSchema string
  | GrantSchema string "string list"
  | DefaultTables string "string list"
  | DefaultSequences string "string list"
  | GrantTables string "string list"
  | GrantSequences string "string list"
  | RevokeTables string "string list"
  | RevokeSequences string "string list"
  | RevokeDefaultTables string "string list"
  | RevokeDefaultSequences string "string list"
  | RevokeRelation relname "string list"
  | CreateTable relname "Column list" "constr list"
  | DropTable relname
  | RenameTable relname string
  | RenameColumn relname string string
  | AddColumn relname Column "(string \<times> string \<times> string \<times> string) option"
  | DropColumn relname string
  | AddConstraint relname constr
  | AddDeferredFK relname string constr
  | AlterType relname string string
  | SetNotNull relname string
  | DropNotNull relname string
  | CreateIndex bool string relname string "string list" string
  | DropIndex string string
  | CreateGuardFunction string "string list" "string list"
  | CreateGuardTrigger relname string
  | DropGuardTrigger relname
  | DropGuardFunction string bool
  | EnableRLS relname
  | ForceRLS relname
  | DisableRLS relname
  | CreatePolicy string relname string string string
  | DropPolicy string relname
  | CreateFunction string string
  | DropPoliciesUsing string string "string list"
  | DropFunction string string

section \<open>Text\<close>

definition nl :: string where
  "nl = [CHR 0x0A]"

definition sqlLines :: "string list \<Rightarrow> string" where
  "sqlLines ls = strJoin ls nl"

definition commas :: "string list \<Rightarrow> string" where
  "commas xs = strJoin xs '', ''"

definition relnameText :: "relname \<Rightarrow> string" where
  "relnameText r = (if fst r = ''public'' then snd r else fst r @ ''.'' @ snd r)"

definition tableRel :: "string \<Rightarrow> Table \<Rightarrow> relname" where
  "tableRel name t = (EffectiveSchema t, name)"

definition qualifiedTableName :: "string \<Rightarrow> Table \<Rightarrow> string" where
  "qualifiedTableName name t = relnameText (tableRel name t)"

definition sqlLiteral :: "string \<Rightarrow> string" where
  "sqlLiteral s = CHR 0x27 # replaceAll s (CHR 0x27) [CHR 0x27, CHR 0x27] @ [CHR 0x27]"

text \<open>The \<open>%q\<close> verb: quotes and backslashes escaped, control bytes as their letter or in hexadecimal;
  text outside ASCII is taken to be printable.\<close>

definition quotedByte :: "char \<Rightarrow> string" where
  "quotedByte c =
     (if c = CHR 0x22 \<or> c = CHR 0x5C then [CHR 0x5C, c]
      else if c = CHR 0x07 then [CHR 0x5C, CHR ''a''] else if c = CHR 0x08 then [CHR 0x5C, CHR ''b'']
      else if c = CHR 0x0C then [CHR 0x5C, CHR ''f''] else if c = CHR 0x0A then [CHR 0x5C, CHR ''n'']
      else if c = CHR 0x0D then [CHR 0x5C, CHR ''r''] else if c = CHR 0x09 then [CHR 0x5C, CHR ''t'']
      else if c = CHR 0x0B then [CHR 0x5C, CHR ''v'']
      else if (of_char c :: nat) < 32 \<or> c = CHR 0x7F then CHR 0x5C # CHR ''x'' # hexEncode [c] else [c])"

definition quoted :: "string \<Rightarrow> string" where
  "quoted s = CHR 0x22 # concat (map quotedByte s) @ [CHR 0x22]"

definition fkErrorText :: "fk_error \<Rightarrow> string" where
  "fkErrorText e =
     (case e of InvalidReference ref \<Rightarrow>
        ''invalid foreign_key.references '' @ quoted ref @
          '': expected table.column or schema.table.column'')"

definition refText :: "string \<times> string \<times> string \<times> string \<Rightarrow> string" where
  "refText r = (case r of (schema, table, col, onDelete) \<Rightarrow>
     '' REFERENCES '' @ schema @ ''.'' @ table @ ''('' @ col @ '') ON DELETE '' @ onDelete)"

fun constrText :: "constr \<Rightarrow> string" where
  "constrText (ForeignKeyC c s t rc od) = ''FOREIGN KEY ('' @ c @ '')'' @ refText (s, t, rc, od)"
| "constrText (InvalidForeignKeyC e) = ''/* invalid FK: '' @ fkErrorText e @ '' */''"
| "constrText (CheckIn c vs) = ''CHECK ('' @ c @ '' IN ('' @ commas (map sqlLiteral vs) @ ''))''"
| "constrText (CheckMatch c p) = ''CHECK ('' @ c @ '' ~ '' @ sqlLiteral p @ '')''"
| "constrText (CheckMin c v) = ''CHECK ('' @ c @ '' >= '' @ v @ '')''"
| "constrText (CheckMax c v) = ''CHECK ('' @ c @ '' <= '' @ v @ '')''"
| "constrText (CheckRaw e) = ''CHECK ('' @ e @ '')''"
| "constrText (UniqueC c) = ''UNIQUE ('' @ c @ '')''"
| "constrText (PrimaryKeyC cs) = ''PRIMARY KEY ('' @ commas cs @ '')''"

definition columnText :: "Column \<Rightarrow> string" where
  "columnText c =
     cl_Name c @ '' '' @ cl_Type c @ (if cl_PrimaryKey c then '' PRIMARY KEY'' else []) @
     (if cl_Required c then '' NOT NULL'' else []) @
     (case cl_Default c of None \<Rightarrow> [] | Some d \<Rightarrow> '' DEFAULT '' @ d)"

definition guardBody :: "string list \<Rightarrow> string list \<Rightarrow> string" where
  \<open>guardBody autoUpdated immutable =
     concat (map (\<lambda>c. ''  IF NEW.'' @ c @ '' IS DISTINCT FROM OLD.'' @ c @ '' THEN'' @ nl @
       ''    RAISE EXCEPTION 'column "'' @ c @ ''" is immutable' USING ERRCODE = '23514';'' @ nl @
       ''  END IF;'' @ nl) immutable) @
     concat (map (\<lambda>c. ''  NEW.'' @ c @ '' := now();'' @ nl) autoUpdated)\<close>

definition guardTrigger :: string where
  "guardTrigger = ''inz_guard''"

definition dropPoliciesUsingText :: "string \<Rightarrow> string \<Rightarrow> string list \<Rightarrow> string" where
  \<open>dropPoliciesUsingText name sig managed = sqlLines
    [''DO $$'',
     ''DECLARE r record;'',
     ''BEGIN'',
     ''  FOR r IN SELECT DISTINCT p.polname, n.nspname, c.relname'',
     ''    FROM pg_depend d JOIN pg_policy p ON p.oid = d.objid'',
     ''    JOIN pg_class c ON c.oid = p.polrelid JOIN pg_namespace n ON n.oid = c.relnamespace'',
     ''    WHERE d.classid = 'pg_policy'::regclass AND d.refclassid = 'pg_proc'::regclass'',
     ''      AND d.refobjid = to_regprocedure('public."'' @ name @ ''"('' @ sig @ '')')'',
     ''  LOOP'',
     ''    IF format('%s.%s.%s', r.nspname, r.relname, r.polname) = ANY ('{'' @ strJoin managed '','' @ ''}'::text[]) THEN'',
     ''      EXECUTE format('DROP POLICY %I ON %I.%I', r.polname, r.nspname, r.relname);'',
     ''    ELSE'',
     ''      RAISE EXCEPTION 'rpc '' @ name @ '' is still used by policy % on %.%', r.polname, r.nspname, r.relname'',
     ''        USING HINT = 'Remove that policy or its call to '' @ name @ '' first.';'',
     ''    END IF;'',
     ''  END LOOP;'',
     ''END $$;'']\<close>

fun stmtText :: "stmt \<Rightarrow> string" where
  "stmtText (Sql s) = s"
| "stmtText (CreateSchema s) = ''CREATE SCHEMA IF NOT EXISTS '' @ s @ '';''"
| "stmtText (GrantSchema s g) = ''GRANT USAGE ON SCHEMA '' @ s @ '' TO '' @ commas g @ '';''"
| "stmtText (DefaultTables s g) = ''ALTER DEFAULT PRIVILEGES IN SCHEMA '' @ s @
     '' GRANT SELECT, INSERT, UPDATE, DELETE ON TABLES TO '' @ commas g @ '';''"
| "stmtText (DefaultSequences s g) = ''ALTER DEFAULT PRIVILEGES IN SCHEMA '' @ s @
     '' GRANT USAGE, SELECT ON SEQUENCES TO '' @ commas g @ '';''"
| "stmtText (GrantTables s g) = ''GRANT SELECT, INSERT, UPDATE, DELETE ON ALL TABLES IN SCHEMA '' @ s @
     '' TO '' @ commas g @ '';''"
| "stmtText (GrantSequences s g) = ''GRANT USAGE, SELECT ON ALL SEQUENCES IN SCHEMA '' @ s @
     '' TO '' @ commas g @ '';''"
| "stmtText (RevokeTables s g) = ''REVOKE ALL ON ALL TABLES IN SCHEMA '' @ s @ '' FROM '' @ commas g @ '';''"
| "stmtText (RevokeSequences s g) = ''REVOKE ALL ON ALL SEQUENCES IN SCHEMA '' @ s @ '' FROM '' @ commas g @ '';''"
| "stmtText (RevokeDefaultTables s g) = ''ALTER DEFAULT PRIVILEGES IN SCHEMA '' @ s @
     '' REVOKE ALL ON TABLES FROM '' @ commas g @ '';''"
| "stmtText (RevokeDefaultSequences s g) = ''ALTER DEFAULT PRIVILEGES IN SCHEMA '' @ s @
     '' REVOKE ALL ON SEQUENCES FROM '' @ commas g @ '';''"
| "stmtText (RevokeRelation r g) = ''REVOKE ALL ON '' @ relnameText r @ '' FROM '' @ commas g @ '';''"
| "stmtText (CreateTable r cs ks) = ''CREATE TABLE IF NOT EXISTS '' @ relnameText r @ '' ('' @ nl @ ''  '' @
     strJoin (map columnText cs @ map constrText ks) ('','' @ nl @ ''  '') @ nl @ '');''"
| "stmtText (DropTable r) = ''DROP TABLE IF EXISTS '' @ relnameText r @ '';''"
| "stmtText (RenameTable r n) = ''ALTER TABLE '' @ relnameText r @ '' RENAME TO '' @ n @ '';''"
| "stmtText (RenameColumn r a b) = ''ALTER TABLE '' @ relnameText r @ '' RENAME COLUMN '' @ a @ '' TO '' @ b @ '';''"
| "stmtText (AddColumn r c ref) = ''ALTER TABLE '' @ relnameText r @ '' ADD COLUMN '' @ columnText c @
     (case ref of None \<Rightarrow> [] | Some x \<Rightarrow> refText x) @ '';''"
| "stmtText (DropColumn r c) = ''ALTER TABLE '' @ relnameText r @ '' DROP COLUMN IF EXISTS '' @ c @ '';''"
| "stmtText (AddConstraint r k) = ''ALTER TABLE '' @ relnameText r @ '' ADD '' @ constrText k @ '';''"
| "stmtText (AddDeferredFK r con k) = sqlLines
    [''DO $$ BEGIN'',
     ''IF NOT EXISTS (SELECT 1 FROM pg_constraint WHERE conrelid = '' @ [CHR 0x27] @ relnameText r @ [CHR 0x27] @
       ''::regclass AND conname = '' @ [CHR 0x27] @ con @ [CHR 0x27] @ '') THEN'',
     ''  ALTER TABLE '' @ relnameText r @ '' ADD CONSTRAINT '' @ con @ '' '' @ constrText k @ '';'',
     ''END IF;'',
     ''END $$;'']"
| "stmtText (AlterType r c t) = ''ALTER TABLE '' @ relnameText r @ '' ALTER COLUMN '' @ c @ '' TYPE '' @ t @ '';''"
| "stmtText (SetNotNull r c) = ''ALTER TABLE '' @ relnameText r @ '' ALTER COLUMN '' @ c @ '' SET NOT NULL;''"
| "stmtText (DropNotNull r c) = ''ALTER TABLE '' @ relnameText r @ '' ALTER COLUMN '' @ c @ '' DROP NOT NULL;''"
| "stmtText (CreateIndex u n r using cols wh) = ''CREATE '' @ (if u then ''UNIQUE '' else []) @
     ''INDEX IF NOT EXISTS '' @ n @ '' ON '' @ relnameText r @ using @ '' ('' @ commas cols @ '')'' @ wh @ '';''"
| "stmtText (DropIndex s n) = ''DROP INDEX IF EXISTS '' @ relnameText (s, n) @ '';''"
| "stmtText (CreateGuardFunction f au im) = ''CREATE OR REPLACE FUNCTION '' @ f @
     ''() RETURNS trigger LANGUAGE plpgsql AS $guard$'' @ nl @ ''BEGIN'' @ nl @ guardBody au im @
     ''  RETURN NEW;'' @ nl @ ''END;'' @ nl @ ''$guard$;''"
| "stmtText (CreateGuardTrigger r f) = ''CREATE OR REPLACE TRIGGER '' @ guardTrigger @ '' BEFORE UPDATE ON '' @
     relnameText r @ '' FOR EACH ROW EXECUTE FUNCTION '' @ f @ ''();''"
| "stmtText (DropGuardTrigger r) = ''DROP TRIGGER IF EXISTS '' @ guardTrigger @ '' ON '' @ relnameText r @ '';''"
| "stmtText (DropGuardFunction f cascade) = ''DROP FUNCTION IF EXISTS '' @ f @ ''()'' @
     (if cascade then '' CASCADE'' else []) @ '';''"
| "stmtText (EnableRLS r) = ''ALTER TABLE '' @ relnameText r @ '' ENABLE ROW LEVEL SECURITY;''"
| "stmtText (ForceRLS r) = ''ALTER TABLE '' @ relnameText r @ '' FORCE ROW LEVEL SECURITY;''"
| "stmtText (DisableRLS r) = ''ALTER TABLE '' @ relnameText r @ '' DISABLE ROW LEVEL SECURITY;''"
| "stmtText (CreatePolicy n r ty op clauses) = ''CREATE POLICY '' @ n @ '' ON '' @ relnameText r @ ty @
     '' FOR '' @ op @ clauses @ '';''"
| "stmtText (DropPolicy n r) = ''DROP POLICY IF EXISTS '' @ n @ '' ON '' @ relnameText r @ '';''"
| "stmtText (CreateFunction n text) = text"
| "stmtText (DropPoliciesUsing n sig managed) = dropPoliciesUsingText n sig managed"
| "stmtText (DropFunction n sig) = ''DROP FUNCTION IF EXISTS public.'' @ CHR 0x22 # n @ CHR 0x22 # ''('' @ sig @ '');''"

end
