(* ===== verification/Config_Suggest.thy ===== *)
theory Config_Suggest
  imports Migrate_Ddl
begin

text \<open>
  \<open>internal/config/suggest.go\<close>: the edit distance behind ``did you mean'', computed row by row on runes, and
  the nearest candidate. \<open>levenshtein_edit_distance\<close> shows that the row computation is the least number of
  one-character edits, \<open>closest_nearest\<close> what the choice among candidates guarantees.
\<close>

section \<open>Runes\<close>

text \<open>
  A string is its UTF-8 bytes; a rune is the group of bytes that encodes it, a byte that encodes nothing is
  the replacement character. \<open>runeLen\<close> is 0 for such a byte.
\<close>

definition byteIn :: "nat \<Rightarrow> nat \<Rightarrow> char \<Rightarrow> bool" where
  "byteIn a b c = (a \<le> (of_char c :: nat) \<and> (of_char c :: nat) \<le> b)"

abbreviation cont :: "char \<Rightarrow> bool" where
  "cont \<equiv> byteIn 0x80 0xBF"

fun tail1 :: "(char \<Rightarrow> bool) \<Rightarrow> string \<Rightarrow> bool" where
  "tail1 p (c # _) = p c"
| "tail1 p _ = False"

fun tail2 :: "(char \<Rightarrow> bool) \<Rightarrow> string \<Rightarrow> bool" where
  "tail2 p (c # d # _) = (p c \<and> cont d)"
| "tail2 p _ = False"

fun tail3 :: "(char \<Rightarrow> bool) \<Rightarrow> string \<Rightarrow> bool" where
  "tail3 p (c # d # e # _) = (p c \<and> cont d \<and> cont e)"
| "tail3 p _ = False"

definition runeLen :: "char \<Rightarrow> string \<Rightarrow> nat" where
  "runeLen c cs =
     (if byteIn 0 0x7F c then 1
      else if byteIn 0xC2 0xDF c \<and> tail1 cont cs then 2
      else if byteIn 0xE0 0xEF c \<and>
        tail2 (if byteIn 0xE0 0xE0 c then byteIn 0xA0 0xBF else if byteIn 0xED 0xED c then byteIn 0x80 0x9F else cont) cs
      then 3
      else if byteIn 0xF0 0xF4 c \<and>
        tail3 (if byteIn 0xF0 0xF0 c then byteIn 0x90 0xBF else if byteIn 0xF4 0xF4 c then byteIn 0x80 0x8F else cont) cs
      then 4
      else 0)"

function runes :: "string \<Rightarrow> string list" where
  "runes [] = []"
| "runes (c # cs) =
     (let n = runeLen c cs in
      if n = 0 then [CHR 0xEF, CHR 0xBF, CHR 0xBD] # runes cs
      else (c # take (n - 1) cs) # runes (drop (n - 1) cs))"
  by pat_completeness auto
termination by (relation "measure length") auto

section \<open>The code\<close>

definition typeAliases :: "string gmap" where
  "typeAliases = [(''string'', ''text''), (''str'', ''text''), (''datetime'', ''timestamptz''), (''number'', ''numeric''),
     (''long'', ''bigint''), (''object'', ''jsonb''), (''dict'', ''jsonb''), (''blob'', ''bytea'')]"

definition extensionTypes :: "string list" where
  "extensionTypes = [''vector'', ''citext'', ''hstore'', ''ltree'', ''geometry'', ''geography'']"

definition validPostgresTypes :: "string list" where
  "validPostgresTypes = [''bigserial'', ''serial'', ''smallserial'', ''integer'', ''bigint'', ''smallint'', ''int'',
     ''text'', ''varchar'', ''char'', ''boolean'', ''bool'', ''numeric'', ''decimal'', ''real'', ''double'', ''float'',
     ''date'', ''time'', ''timetz'', ''timestamp'', ''timestamptz'', ''interval'', ''uuid'', ''jsonb'', ''json'', ''bytea'',
     ''inet'', ''cidr'', ''macaddr'', ''money'', ''point'', ''line'', ''polygon'', ''circle'', ''box'', ''tsquery'',
     ''tsvector'', ''xml'', ''bit'']"

definition sortedTypeNames :: "string list" where
  "sortedTypeNames = sort validPostgresTypes"

text \<open>One row: \<open>left\<close> is \<open>cur[j-1]\<close>, the list starts at \<open>prev[j-1]\<close>.\<close>

fun levRow :: "'a \<Rightarrow> nat \<Rightarrow> nat list \<Rightarrow> 'a list \<Rightarrow> nat list" where
  "levRow a left (p # q # ps) (b # bs) =
     (let cell = min (min (q + 1) (left + 1)) (p + (if a = b then 0 else 1))
      in cell # levRow a cell (q # ps) bs)"
| "levRow a left ps bs = []"

fun levRows :: "nat \<Rightarrow> 'a list \<Rightarrow> 'a list \<Rightarrow> nat list \<Rightarrow> nat list" where
  "levRows i [] rb prev = prev"
| "levRows i (a # ra) rb prev = levRows (i + 1) ra rb (i # levRow a i prev rb)"

definition levenshtein :: "string \<Rightarrow> string \<Rightarrow> nat" where
  "levenshtein a b = (let rb = runes b in levRows 1 (runes a) rb [0..<length rb + 1] ! length rb)"

fun commonPrefix :: "string \<Rightarrow> string \<Rightarrow> nat" where
  "commonPrefix (a # as) (b # bs) = (if a = b then Suc (commonPrefix as bs) else 0)"
| "commonPrefix as bs = 0"

text \<open>The state of the loop: the best candidate, its distance and its common prefix (\<open>-1\<close> at first).\<close>

fun closestStep :: "string \<Rightarrow> string \<Rightarrow> string \<times> nat \<times> int \<Rightarrow> string \<times> nat \<times> int" where
  "closestStep inp c (best, bestDist, bestPrefix) =
     (let lc = toLower c; d = levenshtein inp lc in
      if 2 < d \<or> bestDist < d \<or> length (runes inp) \<le> d then (best, bestDist, bestPrefix)
      else let p = int (commonPrefix inp lc) in
        if d < bestDist \<or> bestPrefix < p \<or> (p = bestPrefix \<and> length best < length c) then (c, d, p)
        else (best, bestDist, bestPrefix))"

definition closest :: "string \<Rightarrow> string list \<Rightarrow> string" where
  "closest input candidates =
     (if input = [] then [] else fst (fold (closestStep (toLower input)) candidates ([], 3, -1)))"

definition suggestType :: "string \<Rightarrow> string" where
  "suggestType base =
     (case map_of typeAliases base of
        Some a \<Rightarrow> a
      | None \<Rightarrow> if base \<in> set extensionTypes then [] else closest base sortedTypeNames)"

definition didYouMean :: "string \<Rightarrow> string" where
  "didYouMean s = (if s = [] then [] else ''Did you mean '' @ quoted s @ ''?'')"

section \<open>Edit distance\<close>

text \<open>One edit inserts, deletes or replaces one character.\<close>

inductive edit1 :: "'a list \<Rightarrow> 'a list \<Rightarrow> bool" where
  insert: "edit1 (u @ v) (u @ c # v)"
| delete: "edit1 (u @ c # v) (u @ v)"
| replace: "edit1 (u @ c # v) (u @ d # v)"

fun editDist :: "'a list \<Rightarrow> 'a list \<Rightarrow> nat" where
  "editDist [] ys = length ys"
| "editDist (x # xs) [] = Suc (length xs)"
| "editDist (x # xs) (y # ys) =
     min (min (Suc (editDist xs (y # ys))) (Suc (editDist (x # xs) ys))) (editDist xs ys + (if x = y then 0 else 1))"

lemma editDist_Nil2 [simp]: "editDist xs [] = length xs"
  by (cases xs) auto

lemma editDist_refl [simp]: "editDist xs xs = 0"
  by (induction xs) auto

lemma editDist_insert: "editDist xs (y # ys) \<le> Suc (editDist xs ys)"
  by (cases xs) (auto simp: min_def)

lemma editDist_delete: "editDist (x # xs) ys \<le> Suc (editDist xs ys)"
  by (cases ys) auto

lemma editDist_drop: "editDist xs ys \<le> Suc (editDist (x # xs) ys)"
proof (induction ys)
  case (Cons y ys)
  with editDist_insert [of xs y ys] show ?case by auto
qed simp

lemma editDist_change: "editDist (c # v) z \<le> Suc (editDist (d # v) z)"
proof (induction z)
  case (Cons y ys)
  then show ?case by (auto simp: min_def)
qed simp

lemma editDist_prefix:
  "\<forall>z. editDist v z \<le> Suc (editDist w z) \<Longrightarrow> editDist (u @ v) z \<le> Suc (editDist (u @ w) z)"
proof (induction u arbitrary: z)
  case (Cons x u)
  have u: "editDist (u @ v) z \<le> Suc (editDist (u @ w) z)" for z using Cons by blast
  show ?case
  proof (induction z)
    case Nil
    with u [of "[]"] show ?case by simp
  next
    case (Cons y ys)
    with u [of "y # ys"] u [of ys] show ?case by (auto simp: min_def)
  qed
qed simp

lemma edit1_dist: "edit1 a b \<Longrightarrow> editDist a z \<le> Suc (editDist b z)"
proof (induction rule: edit1.induct)
  case (insert u v c)
  show ?case by (rule editDist_prefix) (simp add: editDist_drop)
next
  case (delete u c v)
  show ?case by (rule editDist_prefix) (simp add: editDist_delete)
next
  case (replace u c v d)
  show ?case by (rule editDist_prefix) (simp add: editDist_change)
qed

lemma edits_dist: "(edit1 ^^ n) a b \<Longrightarrow> editDist a b \<le> n"
proof (induction n arbitrary: a)
  case (Suc n)
  from relpowp_Suc_D2 [OF Suc.prems] obtain m where "edit1 a m" "(edit1 ^^ n) m b" by blast
  with Suc.IH [of m] edit1_dist [of a m b] show ?case by linarith
qed simp

lemma edit1_Cons: "edit1 a b \<Longrightarrow> edit1 (x # a) (x # b)"
proof (induction rule: edit1.induct)
  case (insert u v c)
  from edit1.insert [of "x # u" v c] show ?case by simp
next
  case (delete u c v)
  from edit1.delete [of "x # u" c v] show ?case by simp
next
  case (replace u c v d)
  from edit1.replace [of "x # u" c v d] show ?case by simp
qed

lemma edits_Cons: "(edit1 ^^ n) a b \<Longrightarrow> (edit1 ^^ n) (x # a) (x # b)"
proof (induction n arbitrary: b)
  case (Suc n)
  then obtain m where "(edit1 ^^ n) a m" "edit1 m b" by auto
  with Suc.IH [of m] edit1_Cons [of m b x] show ?case by auto
qed simp

lemma edit1_here: "edit1 (x # xs) xs" "edit1 ys (y # ys)" "edit1 (x # zs) (y # zs)"
  using edit1.delete [of "[]" x xs] edit1.insert [of "[]" ys y] edit1.replace [of "[]" x zs y] by simp_all

lemma dist_edits: "(edit1 ^^ editDist a b) a b"
proof (induction a b rule: editDist.induct)
  case (1 ys)
  show ?case
  proof (induction ys)
    case (Cons y ys)
    with edit1_here(2) [of ys y] show ?case by auto
  qed simp
next
  case (2 x xs)
  have "(edit1 ^^ length zs) zs []" for zs :: "'a list"
  proof (induction zs)
    case (Cons z zs)
    from relpowp_Suc_I2 [OF edit1_here(1) Cons] show ?case by simp
  qed simp
  from this [of "x # xs"] show ?case by simp
next
  case (3 x xs y ys)
  have 1: "(edit1 ^^ Suc (editDist xs (y # ys))) (x # xs) (y # ys)"
    by (rule relpowp_Suc_I2 [OF edit1_here(1) 3(1)])
  have 2: "(edit1 ^^ Suc (editDist (x # xs) ys)) (x # xs) (y # ys)"
    using 3(2) edit1_here(2) [of ys y] by auto
  have k: "(edit1 ^^ (editDist xs ys)) (y # xs) (y # ys)" by (rule edits_Cons [OF 3(3)])
  have 4: "(edit1 ^^ (editDist xs ys + (if x = y then 0 else 1))) (x # xs) (y # ys)"
  proof (cases "x = y")
    case False
    from relpowp_Suc_I2 [OF edit1_here(3) k] False show ?thesis by simp
  qed (use k in simp)
  from 1 2 4 show ?case unfolding editDist.simps min_def by (simp only: split: if_split) blast
qed

lemma editDist_least: "editDist a b = (LEAST n. (edit1 ^^ n) a b)"
  by (rule Least_equality [symmetric]) (auto simp: dist_edits edits_dist)

lemma edit1_rev: "edit1 a b \<Longrightarrow> edit1 (rev a) (rev b)"
proof (induction rule: edit1.induct)
  case (insert u v c)
  from edit1.insert [of "rev v" "rev u" c] show ?case by simp
next
  case (delete u c v)
  from edit1.delete [of "rev v" c "rev u"] show ?case by simp
next
  case (replace u c v d)
  from edit1.replace [of "rev v" c "rev u" d] show ?case by simp
qed

lemma edits_rev: "(edit1 ^^ n) a b \<Longrightarrow> (edit1 ^^ n) (rev a) (rev b)"
proof (induction n arbitrary: b)
  case (Suc n)
  then obtain m where "(edit1 ^^ n) a m" "edit1 m b" by auto
  with Suc.IH [of m] edit1_rev [of m b] show ?case by auto
qed simp

lemma editDist_rev: "editDist (rev a) (rev b) = editDist a b"
  using edits_dist [OF edits_rev [OF dist_edits [of a b]]] edits_dist [OF edits_rev [OF dist_edits [of "rev a" "rev b"]]]
  by simp

lemma editDist_snoc:
  "editDist (xs @ [x]) (ys @ [y]) =
     min (min (Suc (editDist xs (ys @ [y]))) (Suc (editDist (xs @ [x]) ys))) (editDist xs ys + (if x = y then 0 else 1))"
  using editDist.simps(3) [of x "rev xs" y "rev ys"]
    editDist_rev [of xs "ys @ [y]"] editDist_rev [of "xs @ [x]" ys] editDist_rev [of xs ys] editDist_rev [of "xs @ [x]" "ys @ [y]"]
  by simp

section \<open>The rows\<close>

lemma levRow_dist:
  assumes "left = editDist (xs @ [a]) (take j rb)" "j \<le> length rb"
  shows "levRow a left (map (\<lambda>k. editDist xs (take k rb)) [j..<Suc (length rb)]) (drop j rb) =
    map (\<lambda>k. editDist (xs @ [a]) (take k rb)) [Suc j..<Suc (length rb)]"
  using assms
proof (induction "length rb - j" arbitrary: j left)
  case (Suc n)
  then have j: "j < length rb" by simp
  have u: "[j..<Suc (length rb)] = j # Suc j # [Suc (Suc j)..<Suc (length rb)]"
    "[Suc j..<Suc (length rb)] = Suc j # [Suc (Suc j)..<Suc (length rb)]"
    using j by (simp_all add: upt_conv_Cons del: upt_Suc)
  have d: "drop j rb = rb ! j # drop (Suc j) rb" using j by (simp add: Cons_nth_drop_Suc)
  have t: "take (Suc j) rb = take j rb @ [rb ! j]" using j by (simp add: take_Suc_conv_app_nth)
  have "min (min (editDist xs (take (Suc j) rb) + 1) (left + 1)) (editDist xs (take j rb) + (if a = rb ! j then 0 else 1)) =
      editDist (xs @ [a]) (take (Suc j) rb)"
    unfolding t editDist_snoc Suc.prems(1) by simp
  moreover have "levRow a (editDist (xs @ [a]) (take (Suc j) rb)) (map (\<lambda>k. editDist xs (take k rb)) [Suc j..<Suc (length rb)])
      (drop (Suc j) rb) = map (\<lambda>k. editDist (xs @ [a]) (take k rb)) [Suc (Suc j)..<Suc (length rb)]"
    using Suc.hyps(1) [of "Suc j"] Suc.hyps(2) j by (simp del: upt_Suc)
  ultimately show ?case unfolding u d by (simp add: Let_def del: upt_Suc)
qed simp

lemma levRows_dist:
  "prev = map (\<lambda>k. editDist xs (take k rb)) [0..<Suc (length rb)] \<Longrightarrow> i = Suc (length xs) \<Longrightarrow>
     levRows i ra rb prev = map (\<lambda>k. editDist (xs @ ra) (take k rb)) [0..<Suc (length rb)]"
proof (induction ra arbitrary: xs i prev)
  case (Cons a ra)
  have "i # levRow a i prev rb = map (\<lambda>k. editDist (xs @ [a]) (take k rb)) [0..<Suc (length rb)]"
    using levRow_dist [of i xs a 0 rb] Cons.prems by (simp add: upt_conv_Cons del: upt_Suc)
  from Cons.IH [OF this] Cons.prems show ?case by simp
qed simp

text \<open>The row-by-row computation of \<open>levenshtein\<close> gives the least number of insertions, deletions and
  replacements of one character (rune) that turn the one string into the other.\<close>

lemma levenshtein_edit_distance: "levenshtein a b = (LEAST n. (edit1 ^^ n) (runes a) (runes b))"
proof -
  have "[0..<length (runes b) + 1] = map (\<lambda>k. editDist [] (take k (runes b))) [0..<Suc (length (runes b))]"
    by (rule nth_equalityI) (auto simp del: upt_Suc)
  from levRows_dist [OF this, of 1 "runes a"] have "levenshtein a b = editDist (runes a) (runes b)"
    by (simp add: levenshtein_def Let_def del: upt_Suc)
  then show ?thesis by (simp add: editDist_least)
qed

text \<open>What the loop of \<open>closest\<close> keeps: the best candidate so far is within distance 2 and no candidate seen is nearer.\<close>

definition nearest :: "string \<Rightarrow> string set \<Rightarrow> string \<times> nat \<times> int \<Rightarrow> bool" where
  "nearest inp seen st = (case st of (best, bestDist, _) \<Rightarrow>
     (bestDist = 3 \<and> best = [] \<or>
      bestDist \<le> 2 \<and> bestDist < length (runes inp) \<and> best \<in> seen \<and> levenshtein inp (toLower best) = bestDist) \<and>
     (\<forall>c \<in> seen. levenshtein inp (toLower c) < length (runes inp) \<longrightarrow>
        2 < levenshtein inp (toLower c) \<or> bestDist \<le> levenshtein inp (toLower c)))"

lemma nearest_step:
  assumes "nearest inp seen st"
  shows "nearest inp (insert c seen) (closestStep inp c st)"
proof -
  obtain best bd bp where st: "st = (best, bd, bp)" by (cases st)
  let ?d = "levenshtein inp (toLower c)"
  show ?thesis
  proof (cases "2 < ?d \<or> bd < ?d \<or> length (runes inp) \<le> ?d")
    case True
    then have "closestStep inp c st = st" by (auto simp: st Let_def)
    with True assms show ?thesis by (auto simp: nearest_def st)
  next
    case False
    then consider "closestStep inp c st = (c, ?d, int (commonPrefix inp (toLower c)))"
      | "closestStep inp c st = st" "bd = ?d"
      by (cases "?d < bd \<or> bp < int (commonPrefix inp (toLower c)) \<or>
        (int (commonPrefix inp (toLower c)) = bp \<and> length best < length c)") (auto simp: st Let_def)
    then show ?thesis
    proof cases
      case 1
      with False assms show ?thesis by (auto simp: nearest_def st)
    next
      case 2
      with False assms show ?thesis by (auto simp: nearest_def st)
    qed
  qed
qed

lemma nearest_fold: "nearest inp seen st \<Longrightarrow> nearest inp (seen \<union> set cs) (fold (closestStep inp) cs st)"
proof (induction cs arbitrary: seen st)
  case (Cons c cs)
  from Cons.IH [OF nearest_step [OF Cons.prems, of c]] show ?case by simp
qed simp

lemma closest_nearest:
  assumes "closest input cs \<noteq> []"
  shows "closest input cs \<in> set cs \<and> levenshtein (toLower input) (toLower (closest input cs)) \<le> 2 \<and>
    (\<forall>c \<in> set cs. levenshtein (toLower input) (toLower c) < length (runes (toLower input)) \<longrightarrow>
       levenshtein (toLower input) (toLower (closest input cs)) \<le> levenshtein (toLower input) (toLower c))"
proof -
  let ?st = "fold (closestStep (toLower input)) cs ([], 3, -1)"
  have c: "closest input cs = fst ?st" using assms by (auto simp: closest_def split: if_splits)
  obtain best bd bp where st: "?st = (best, bd, bp)" by (cases ?st)
  have "nearest (toLower input) ({} \<union> set cs) ?st" by (rule nearest_fold) (simp add: nearest_def)
  with st assms c show ?thesis by (fastforce simp: nearest_def)
qed

lemma closest_none:
  assumes "closest input cs = []" "input \<noteq> []" "[] \<notin> set cs" "c \<in> set cs"
  shows "2 < levenshtein (toLower input) (toLower c) \<or> length (runes (toLower input)) \<le> levenshtein (toLower input) (toLower c)"
proof -
  let ?st = "fold (closestStep (toLower input)) cs ([], 3, -1)"
  have c: "fst ?st = []" using assms by (auto simp: closest_def split: if_splits)
  obtain best bd bp where st: "?st = (best, bd, bp)" by (cases ?st)
  have "nearest (toLower input) ({} \<union> set cs) ?st" by (rule nearest_fold) (simp add: nearest_def)
  with st assms c show ?thesis by (fastforce simp: nearest_def)
qed

end
