(* ===== verification/Sql_Check.thy ===== *)
theory Sql_Check
  imports Config_Suggest
begin

text \<open>
  \<open>internal/config/sqlcheck.go\<close>: the check of a policy expression before it is written into a
  \<open>CREATE POLICY\<close> statement. The scanner works on the rest of the input where the source keeps an index; a
  skipping function returns what follows the literal or comment, \<open>None\<close> when it does not end.
  \<open>accepted_expr_enclosed\<close> shows what the check is for: an accepted expression cannot close the parenthesis
  that is opened before it.
\<close>

datatype sqlTok = TWord string | TOp string | TQuoted | TParen string

definition sqlOpChars :: string where
  "sqlOpChars = ''+-*/<>=~!@#%^&|?''"

definition sqlComparisons :: "string list" where
  "sqlComparisons = [''='', ''<>'', ''!='', ''<'', ''>'', ''<='', ''>='']"

definition isSQLWordChar :: "char \<Rightarrow> bool" where
  "isSQLWordChar c = (c = CHR ''_'' \<or> c = CHR ''.'' \<or> isDigit c \<or> isAlpha c \<or> 128 \<le> (of_char c :: nat))"

text \<open>The input starts after the opening quote.\<close>

fun skipQuoted :: "char \<Rightarrow> bool \<Rightarrow> string \<Rightarrow> string option" where
  "skipQuoted q backslash [] = None"
| "skipQuoted q backslash (c # cs) =
     (if backslash \<and> c = CHR 0x5C then
        (case cs of [] \<Rightarrow> None | _ # ds \<Rightarrow> skipQuoted q backslash ds)
      else if c = q then
        (case cs of [] \<Rightarrow> Some cs
         | d # ds \<Rightarrow> if d = q then skipQuoted q backslash ds else Some cs)
      else skipQuoted q backslash cs)"

fun skipBlockComment :: "nat \<Rightarrow> string \<Rightarrow> string option" where
  "skipBlockComment depth (c # d # cs) =
     (if c = CHR ''/'' \<and> d = CHR ''*'' then skipBlockComment (depth + 1) cs
      else if c = CHR ''*'' \<and> d = CHR ''/'' then
        (if depth - 1 = 0 then Some cs else skipBlockComment (depth - 1) cs)
      else skipBlockComment depth (d # cs))"
| "skipBlockComment depth _ = None"

text \<open>\<open>exprDollarTag\<close> is the source's \<open>dollarTag\<close> on an input that starts with a dollar sign.\<close>

fun tagRest :: "bool \<Rightarrow> string \<Rightarrow> string option" where
  "tagRest first [] = None"
| "tagRest first (c # cs) =
     (if c = CHR ''$'' then Some [c]
      else if c \<noteq> CHR ''_'' \<and> \<not> isAlpha c \<and> (first \<or> \<not> isDigit c) then None
      else map_option ((#) c) (tagRest False cs))"

definition exprDollarTag :: "string \<Rightarrow> string" where
  "exprDollarTag s = (case tagRest True (drop 1 s) of None \<Rightarrow> [] | Some t \<Rightarrow> CHR ''$'' # t)"

text \<open>How many bytes of a run of operator characters are taken: a comment ends it.\<close>

fun opLen :: "string \<Rightarrow> nat" where
  "opLen [] = 0"
| "opLen (c # cs) =
     (if c \<in> set sqlOpChars \<and> \<not> hasPrefix (c # cs) ''--'' \<and> \<not> hasPrefix (c # cs) ''/*''
      then Suc (opLen cs) else 0)"

definition wordLen :: "string \<Rightarrow> nat" where
  "wordLen s = length (takeWhile (\<lambda>c. isSQLWordChar c \<or> c = CHR ''$'') s)"

text \<open>One token: the input after it, how the depth changes, and the token if there is one.\<close>

type_synonym scan = "string + string \<times> int \<times> sqlTok list"

definition scanLit :: "string \<Rightarrow> string option \<Rightarrow> scan" where
  "scanLit msg r = (case r of None \<Rightarrow> Inl msg | Some rest \<Rightarrow> Inr (rest, 0, [TQuoted]))"

definition scanDollar :: "string \<Rightarrow> scan" where
  "scanDollar s =
     (let tag = exprDollarTag s in
      if tag = [] then Inr (drop 1 s, 0, [])
      else scanLit ''unterminated dollar-quoted string''
        (map_option (\<lambda>j. drop (length tag + j + length tag) s) (strIndex (drop (length tag) s) tag)))"

definition scanWord :: "string \<Rightarrow> scan" where
  "scanWord s =
     (let word = take (wordLen s) s; rest = drop (wordLen s) s in
      if (word = ''E'' \<or> word = ''e'') \<and> hasPrefix rest [CHR 0x27]
      then scanLit ''unterminated string'' (skipQuoted (CHR 0x27) True (drop 1 rest))
      else Inr (rest, 0, [TWord (toLower word)]))"

definition scanTok :: "string \<Rightarrow> scan" where
  "scanTok s =
     (let c = hd s in
      if c = CHR '' '' \<or> c = CHR 0x09 \<or> c = CHR 0x0A \<or> c = CHR 0x0D then Inr (drop 1 s, 0, [])
      else if hasPrefix s ''--'' then
        Inr (case strIndex s [CHR 0x0A] of Some j \<Rightarrow> drop j s | None \<Rightarrow> [], 0, [])
      else if hasPrefix s ''/*'' then
        (case skipBlockComment 0 s of None \<Rightarrow> Inl ''unterminated comment'' | Some rest \<Rightarrow> Inr (rest, 0, []))
      else if c = CHR 0x27 then scanLit ''unterminated string'' (skipQuoted (CHR 0x27) False (drop 1 s))
      else if c = CHR 0x22 then scanLit ''unterminated quoted identifier'' (skipQuoted (CHR 0x22) False (drop 1 s))
      else if c = CHR ''$'' then scanDollar s
      else if c = CHR '';'' then Inl ''semicolon is not allowed''
      else if c = CHR ''('' then Inr (drop 1 s, 1, [TParen ''(''])
      else if c = CHR '')'' then Inr (drop 1 s, -1, [TParen '')''])
      else if c \<in> set sqlOpChars then Inr (drop (opLen s) s, 0, [TOp (take (opLen s) s)])
      else if isSQLWordChar c then scanWord s
      else Inr (drop 1 s, 0, []))"

section \<open>Progress\<close>

lemma skipQuoted_suffix: "skipQuoted q b s = Some r \<Longrightarrow> length r < length s"
  by (induction q b s rule: skipQuoted.induct) (auto split: if_splits list.splits)

lemma skipBlockComment_suffix: "skipBlockComment d s = Some r \<Longrightarrow> length r < length s"
  by (induction d s rule: skipBlockComment.induct) (auto split: if_splits)

lemma strIndex_single_pos: "strIndex (c # s) [d] = Some j \<Longrightarrow> c \<noteq> d \<Longrightarrow> 0 < j"
  by (auto simp: strIndex_single split: if_splits)

lemma scanLit_length: "scanLit msg r = Inr (rest, d, ts) \<Longrightarrow> r = Some rest \<and> d = 0 \<and> ts = [TQuoted]"
  by (auto simp: scanLit_def split: option.splits)

lemma scanWord_length:
  assumes "scanWord s = Inr (r, d, ts)" "s \<noteq> []" "isSQLWordChar (hd s)"
  shows "length r < length s"
proof -
  have "0 < wordLen s" using assms by (cases s) (auto simp: wordLen_def)
  with assms show ?thesis
    by (auto simp: scanWord_def Let_def split: if_splits dest!: scanLit_length skipQuoted_suffix)
qed

lemma scanDollar_length: "scanDollar s = Inr (r, d, ts) \<Longrightarrow> s \<noteq> [] \<Longrightarrow> length r < length s"
  by (auto simp: scanDollar_def Let_def neq_Nil_conv split: if_splits dest!: scanLit_length)

lemma scanTok_length: "scanTok s = Inr (r, d, ts) \<Longrightarrow> s \<noteq> [] \<Longrightarrow> length r < length s"
proof -
  assume s: "scanTok s = Inr (r, d, ts)" "s \<noteq> []"
  then obtain c cs where c: "s = c # cs" by (cases s) auto
  have comment: "length (case strIndex s [CHR 0x0A] of Some j \<Rightarrow> drop j s | None \<Rightarrow> []) < length s" if "hasPrefix s ''--''"
    using that c strIndex_single_pos [of c cs "CHR 0x0A"] by (auto split: option.splits)
  have op: "0 < opLen s" if "c \<in> set sqlOpChars" "\<not> hasPrefix s ''--''" "\<not> hasPrefix s ''/*''"
    using that c by simp
  show ?thesis
    using s comment op scanWord_length [of s r d ts] scanDollar_length [of s r d ts] c
    by (auto simp: scanTok_def Let_def split: if_splits option.splits
      dest!: scanLit_length skipQuoted_suffix skipBlockComment_suffix)
qed

section \<open>The check\<close>

function scanExpr :: "string \<Rightarrow> int \<Rightarrow> sqlTok list \<Rightarrow> string + int \<times> sqlTok list" where
  "scanExpr s depth toks =
     (if s = [] then Inr (depth, toks)
      else case scanTok s of
          Inl e \<Rightarrow> Inl e
        | Inr (rest, d, ts) \<Rightarrow>
            if depth + d < 0 then Inl ''unbalanced parentheses'' else scanExpr rest (depth + d) (toks @ ts))"
  by pat_completeness auto
termination by (relation "measure (\<lambda>(s, _). length s)") (auto dest: scanTok_length)

declare scanExpr.simps [simp del]

fun isBoolTok :: "sqlTok \<Rightarrow> bool" where
  "isBoolTok (TWord w) = (w = ''and'' \<or> w = ''or'')"
| "isBoolTok _ = False"

fun tokText :: "sqlTok \<Rightarrow> string" where
  "tokText (TWord w) = w"
| "tokText (TOp w) = w"
| "tokText (TParen w) = w"
| "tokText TQuoted = []"

fun isComparison :: "sqlTok \<Rightarrow> bool" where
  "isComparison (TOp w) = (w \<in> set sqlComparisons)"
| "isComparison _ = False"

fun checkPairs :: "sqlTok list \<Rightarrow> string" where
  "checkPairs (a # b # ts) =
     (if isComparison a \<and> isComparison b then
        ''two comparison operators in a row ('' @ quoted (tokText a @ '' '' @ tokText b) @ '')''
      else if isBoolTok a \<and> isBoolTok b then toUpper (tokText a) @ '' followed by '' @ toUpper (tokText b)
      else checkPairs (b # ts))"
| "checkPairs _ = []"

definition checkTokens :: "sqlTok list \<Rightarrow> string" where
  "checkTokens toks =
     (if toks = [] then ''empty expression''
      else if isBoolTok (hd toks) then ''expression starts with '' @ toUpper (tokText (hd toks))
      else if isBoolTok (last toks) then ''expression ends with '' @ toUpper (tokText (last toks))
      else checkPairs toks)"

definition checkSQLExpr :: "string \<Rightarrow> string" where
  "checkSQLExpr expr =
     (if trimSpace expr = [] then ''empty expression''
      else case scanExpr expr 0 [] of
          Inl e \<Rightarrow> e
        | Inr (depth, toks) \<Rightarrow> if depth \<noteq> 0 then ''unbalanced parentheses'' else checkTokens toks)"

section \<open>What follows an expression\<close>

text \<open>An expression that ends inside a line comment: the comment swallows what is written after it.\<close>

function endsInComment :: "string \<Rightarrow> bool" where
  "endsInComment s =
     (if s = [] then False
      else if hasPrefix s ''--'' \<and> strIndex s [CHR 0x0A] = None then True
      else case scanTok s of Inl _ \<Rightarrow> False | Inr (rest, _, _) \<Rightarrow> endsInComment rest)"
  by pat_completeness auto
termination by (relation "measure length") (auto dest: scanTok_length)

declare endsInComment.simps [simp del]

lemma skipQuoted_append:
  "skipQuoted q b s = Some r \<Longrightarrow> q \<noteq> CHR '')'' \<Longrightarrow> skipQuoted q b (s @ CHR '')'' # x) = Some (r @ CHR '')'' # x)"
  by (induction q b s rule: skipQuoted.induct) (auto split: if_splits list.splits)

lemma skipBlockComment_append: "skipBlockComment d s = Some r \<Longrightarrow> skipBlockComment d (s @ x) = Some (r @ x)"
  by (induction d s rule: skipBlockComment.induct) (auto split: if_splits)

lemma tagRest_append: "tagRest f (s @ CHR '')'' # x) = tagRest f s"
  by (induction f s rule: tagRest.induct) (auto simp: isAlpha_def isDigit_def)

lemma strIndex_append: "strIndex s t = Some j \<Longrightarrow> strIndex (s @ x) t = Some j"
proof (induction s t arbitrary: j rule: strIndex.induct)
  case (1 t)
  then show ?case by (cases x) (auto split: if_splits)
next
  case (2 c s t)
  show ?case
  proof (cases "hasPrefix (c # s) t")
    case True
    then have "hasPrefix (c # s @ x) t" unfolding hasPrefix_iff by (metis append_Cons append_assoc)
    with True 2 show ?thesis by simp
  next
    case False
    with 2 obtain k where k: "strIndex s t = Some k" "j = Suc k" by auto
    from strIndex_Some [OF k(1)] have "length t \<le> length (c # s)" by simp
    then have "take (length t) ((c # s) @ x) = take (length t) (c # s)" unfolding take_append by simp
    with False have "\<not> hasPrefix ((c # s) @ x) t" by (simp add: hasPrefix_def)
    with False 2 k show ?thesis by simp
  qed
qed

lemma prefix2_append: "e \<noteq> CHR '')'' \<Longrightarrow> hasPrefix (s @ CHR '')'' # x) [c, e] = hasPrefix s [c, e]" if "s \<noteq> []"
  using that by (cases s; cases "tl s") auto

lemma opLen_append: "opLen (s @ CHR '')'' # x) = opLen s"
proof (induction s)
  case Nil
  show ?case by (simp add: sqlOpChars_def)
next
  case (Cons c s)
  with prefix2_append [of "c # s"] show ?case by (simp del: hasPrefix_Cons)
qed

lemma opLen_le: "opLen s \<le> length s"
  by (induction s) auto

lemma not_word [simp]:
  "\<not> isSQLWordChar (CHR '')'')" "\<not> isSQLWordChar (CHR ''('')" "\<not> isSQLWordChar (CHR '';'')" "\<not> isSQLWordChar (CHR '' '')"
  "\<not> isSQLWordChar (CHR 0x09)" "\<not> isSQLWordChar (CHR 0x0A)" "\<not> isSQLWordChar (CHR 0x0D)"
  by (simp_all add: isSQLWordChar_def isDigit_def isAlpha_def)

lemma wordLen_append: "wordLen (s @ CHR '')'' # x) = wordLen s"
  by (induction s) (auto simp: wordLen_def)

lemma wordLen_le: "wordLen s \<le> length s"
  by (simp add: wordLen_def length_takeWhile_le)

lemma scanLit_append:
  "scanLit msg r = Inr (rest, d, ts) \<Longrightarrow> (\<And>q. r = Some q \<Longrightarrow> r' = Some (q @ x)) \<Longrightarrow> scanLit msg r' = Inr (rest @ x, d, ts)"
  by (auto simp: scanLit_def split: option.splits)

lemma scanDollar_append:
  assumes "scanDollar s = Inr (rest, d, ts)" "s \<noteq> []"
  shows "scanDollar (s @ CHR '')'' # x) = Inr (rest @ CHR '')'' # x, d, ts)"
proof -
  let ?tag = "exprDollarTag s"
  have t: "exprDollarTag (s @ CHR '')'' # x) = ?tag"
    using assms(2) by (cases s) (auto simp: exprDollarTag_def tagRest_append)
  have len: "length ?tag \<le> length s" if "?tag \<noteq> []"
  proof -
    have "tagRest f u = Some w \<Longrightarrow> length w \<le> length u" for f u w
      by (induction f u arbitrary: w rule: tagRest.induct) (auto split: if_splits)
    with that assms(2) show ?thesis by (cases s) (auto simp: exprDollarTag_def split: option.splits)
  qed
  show ?thesis
  proof (cases "?tag = []")
    case True
    with assms t show ?thesis by (cases s) (auto simp: scanDollar_def)
  next
    case False
    from assms(1) False have l: "scanLit ''unterminated dollar-quoted string''
        (map_option (\<lambda>j. drop (length ?tag + j + length ?tag) s) (strIndex (drop (length ?tag) s) ?tag)) = Inr (rest, d, ts)"
      by (simp add: scanDollar_def Let_def)
    have "scanLit ''unterminated dollar-quoted string''
        (map_option (\<lambda>j. drop (length ?tag + j + length ?tag) (s @ CHR '')'' # x))
          (strIndex (drop (length ?tag) (s @ CHR '')'' # x)) ?tag)) = Inr (rest @ CHR '')'' # x, d, ts)"
    proof (rule scanLit_append [OF l])
      fix q assume "map_option (\<lambda>j. drop (length ?tag + j + length ?tag) s) (strIndex (drop (length ?tag) s) ?tag) = Some q"
      then obtain j where j: "strIndex (drop (length ?tag) s) ?tag = Some j" "q = drop (length ?tag + j + length ?tag) s"
        by auto
      have "length ?tag + j + length ?tag \<le> length s" using conjunct1 [OF strIndex_Some [OF j(1)]] len [OF False] by simp
      with j strIndex_append [OF j(1)] len False show
        "map_option (\<lambda>j. drop (length ?tag + j + length ?tag) (s @ CHR '')'' # x))
          (strIndex (drop (length ?tag) (s @ CHR '')'' # x)) ?tag) = Some (q @ CHR '')'' # x)"
        by simp
    qed
    with t False show ?thesis by (simp add: scanDollar_def Let_def)
  qed
qed

lemma scanWord_append:
  assumes "scanWord s = Inr (rest, d, ts)"
  shows "scanWord (s @ CHR '')'' # x) = Inr (rest @ CHR '')'' # x, d, ts)"
proof -
  let ?rest = "drop (wordLen s) s"
  have p: "hasPrefix (?rest @ CHR '')'' # x) [CHR 0x27] = hasPrefix ?rest [CHR 0x27]" by (cases ?rest) auto
  have w: "take (wordLen s) (s @ CHR '')'' # x) = take (wordLen s) s"
    "drop (wordLen s) (s @ CHR '')'' # x) = ?rest @ CHR '')'' # x" using wordLen_le [of s] by simp_all
  show ?thesis
  proof (cases "(take (wordLen s) s = ''E'' \<or> take (wordLen s) s = ''e'') \<and> hasPrefix ?rest [CHR 0x27]")
    case True
    with assms have l: "scanLit ''unterminated string'' (skipQuoted (CHR 0x27) True (drop 1 ?rest)) = Inr (rest, d, ts)"
      by (auto simp: scanWord_def Let_def)
    have "?rest \<noteq> []" using True by auto
    then have "drop 1 (?rest @ CHR '')'' # x) = drop 1 ?rest @ CHR '')'' # x" by (cases ?rest) auto
    with True scanLit_append [OF l, of "skipQuoted (CHR 0x27) True (drop 1 ?rest @ CHR '')'' # x)" "CHR '')'' # x"]
    have "scanLit ''unterminated string'' (skipQuoted (CHR 0x27) True (drop 1 ?rest @ CHR '')'' # x)) =
        Inr (rest @ CHR '')'' # x, d, ts)" by (simp add: skipQuoted_append)
    with True \<open>drop 1 (?rest @ CHR '')'' # x) = drop 1 ?rest @ CHR '')'' # x\<close> show ?thesis
      unfolding scanWord_def Let_def wordLen_append w p by (simp del: drop_append take_append drop_drop)
  next
    case False
    with assms have "rest = ?rest \<and> d = 0 \<and> ts = [TWord (toLower (take (wordLen s) s))]"
      unfolding scanWord_def Let_def by (auto split: if_splits)
    with False show ?thesis unfolding scanWord_def Let_def wordLen_append w p by auto
  qed
qed

lemma scanTok_append:
  assumes s: "scanTok s = Inr (rest, d, ts)" "s \<noteq> []" and c: "hasPrefix s ''--'' \<Longrightarrow> strIndex s [CHR 0x0A] \<noteq> None"
  shows "scanTok (s @ CHR '')'' # x) = Inr (rest @ CHR '')'' # x, d, ts)"
proof -
  let ?s = "s @ CHR '')'' # x"
  obtain a as where a: "s = a # as" using s(2) by (cases s) auto
  have p: "hasPrefix ?s ''--'' = hasPrefix s ''--''" "hasPrefix ?s ''/*'' = hasPrefix s ''/*''"
    using prefix2_append [OF s(2)] by simp_all
  have h: "hd ?s = hd s" "drop 1 ?s = drop 1 s @ CHR '')'' # x" using a by simp_all
  show ?thesis
  proof (cases "hasPrefix s ''--''")
    case True
    with c obtain j where j: "strIndex s [CHR 0x0A] = Some j" by auto
    from strIndex_Some [OF j] have "j \<le> length s" by simp
    with True s strIndex_append [OF j] j p a show ?thesis by (auto simp: scanTok_def Let_def)
  next
    case nc: False
    show ?thesis
    proof (cases "hasPrefix s ''/*''")
      case True
      have "skipBlockComment 0 (a # as) = Some rest \<Longrightarrow> skipBlockComment 0 (a # as @ CHR '')'' # x) = Some (rest @ CHR '')'' # x)"
        using skipBlockComment_append [of 0 "a # as" rest "CHR '')'' # x"] by simp
      with True s p a nc show ?thesis by (auto simp: scanTok_def Let_def split: option.splits)
    next
        case nb: False
      have q: "drop 1 ?s = as @ CHR '')'' # x" "drop 1 s = as" using a by simp_all
      let ?lit = "\<lambda>m u. scanLit m (skipQuoted u False as)"
      consider "a = CHR 0x27" | "a = CHR 0x22" | "a = CHR ''$''" | "a \<in> set sqlOpChars" "a \<noteq> CHR 0x27" "a \<noteq> CHR 0x22" "a \<noteq> CHR ''$''"
        | "isSQLWordChar a" "a \<notin> set sqlOpChars" "a \<noteq> CHR 0x27" "a \<noteq> CHR 0x22" "a \<noteq> CHR ''$''"
        | "\<not> isSQLWordChar a" "a \<notin> set sqlOpChars" "a \<noteq> CHR 0x27" "a \<noteq> CHR 0x22" "a \<noteq> CHR ''$''" by blast
      then show ?thesis
      proof cases
        case 1
        with s(1) a nc nb have "?lit ''unterminated string'' (CHR 0x27) = Inr (rest, d, ts)" by (simp add: scanTok_def)
        then have "scanLit ''unterminated string'' (skipQuoted (CHR 0x27) False (as @ CHR '')'' # x)) = Inr (rest @ CHR '')'' # x, d, ts)"
          by (rule scanLit_append) (simp add: skipQuoted_append)
        with 1 a show ?thesis by (simp add: scanTok_def)
      next
        case 2
        with s(1) a nc nb have "?lit ''unterminated quoted identifier'' (CHR 0x22) = Inr (rest, d, ts)" by (simp add: scanTok_def)
        then have "scanLit ''unterminated quoted identifier'' (skipQuoted (CHR 0x22) False (as @ CHR '')'' # x)) =
            Inr (rest @ CHR '')'' # x, d, ts)"
          by (rule scanLit_append) (simp add: skipQuoted_append)
        with 2 a show ?thesis by (simp add: scanTok_def)
      next
        case 3
        with s(1) a have "scanDollar s = Inr (rest, d, ts)" by (simp add: scanTok_def)
        from scanDollar_append [OF this s(2), of x] 3 a show ?thesis by (simp add: scanTok_def)
      next
        case 4
        then have ws: "a \<noteq> CHR '' ''" "a \<noteq> CHR 0x09" "a \<noteq> CHR 0x0A" "a \<noteq> CHR 0x0D" "a \<noteq> CHR '';''" "a \<noteq> CHR ''(''" "a \<noteq> CHR '')''"
          by (auto simp: sqlOpChars_def)
        have e: "scanTok u = Inr (drop (opLen u) u, 0, [TOp (take (opLen u) u)])"
          if "hd u = a" "\<not> hasPrefix u ''--''" "\<not> hasPrefix u ''/*''" for u
          using 4 ws that by (simp add: scanTok_def Let_def)
        have hs: "hd s = a" "hd ?s = a" "\<not> hasPrefix ?s ''--''" "\<not> hasPrefix ?s ''/*''" using a nc nb p by simp_all
        have "rest = drop (opLen s) s" "d = 0" "ts = [TOp (take (opLen s) s)]" using s(1) e [OF hs(1) nc nb] by simp_all
        then show ?thesis unfolding e [OF hs(2-4)] opLen_append using opLen_le [of s] by simp
      next
        case 5
        have ws: "a \<noteq> CHR '' ''" "a \<noteq> CHR 0x09" "a \<noteq> CHR 0x0A" "a \<noteq> CHR 0x0D" "a \<noteq> CHR '';''" "a \<noteq> CHR ''(''" "a \<noteq> CHR '')''"
          using 5(1) not_word by metis+
        have e: "scanTok u = scanWord u" if "hd u = a" "\<not> hasPrefix u ''--''" "\<not> hasPrefix u ''/*''" for u
          using 5 ws that by (simp add: scanTok_def Let_def)
        have hs: "hd s = a" "hd ?s = a" "\<not> hasPrefix ?s ''--''" "\<not> hasPrefix ?s ''/*''" using a nc nb p by simp_all
        have "scanWord s = Inr (rest, d, ts)" using s(1) e [OF hs(1) nc nb] by simp
        then show ?thesis unfolding e [OF hs(2-4)] by (rule scanWord_append)
      next
        case 6
        then have e: "scanTok u = (if a = CHR '';'' then Inl ''semicolon is not allowed'' else
            Inr (drop 1 u, if a = CHR ''('' then 1 else if a = CHR '')'' then -1 else 0,
              if a = CHR ''('' then [TParen ''(''] else if a = CHR '')'' then [TParen '')''] else []))"
          if "hd u = a" "\<not> hasPrefix u ''--''" "\<not> hasPrefix u ''/*''" for u
          using that by (simp add: scanTok_def Let_def)
        have hs: "hd s = a" "hd ?s = a" "\<not> hasPrefix ?s ''--''" "\<not> hasPrefix ?s ''/*''" using a nc nb p by simp_all
        have semi: "a \<noteq> CHR '';''" using s(1) e [OF hs(1) nc nb] by auto
        show ?thesis using s(1) unfolding e [OF hs(1) nc nb] e [OF hs(2-4)] q using semi by simp
      qed
    qed
  qed
qed

lemma scanExpr_append:
  assumes "scanExpr s d t = Inr (d', t')" "\<not> endsInComment s" "d \<le> k"
  shows "\<exists>ts. scanExpr (s @ CHR '')'' # x) k u = scanExpr (CHR '')'' # x) (k + (d' - d)) (u @ ts)"
  using assms
proof (induction s d t arbitrary: k u rule: scanExpr.induct)
  case (1 s depth toks)
  show ?case
  proof (cases "s = []")
    case True
    with 1(2) have "d' = depth" by (simp add: scanExpr.simps [of "[]"])
    with True show ?thesis by (auto intro: exI [of _ "[]"])
  next
    case False
    with 1(2) obtain rest e ts where tok: "scanTok s = Inr (rest, e, ts)" and e: "0 \<le> depth + e"
      and r: "scanExpr rest (depth + e) (toks @ ts) = Inr (d', t')"
      by (auto simp: scanExpr.simps [of s] split: sum.splits if_splits)
    from False tok 1(3) have nc: "hasPrefix s ''--'' \<Longrightarrow> strIndex s [CHR 0x0A] \<noteq> None" and nr: "\<not> endsInComment rest"
      by (auto simp: endsInComment.simps [of s] split: if_splits)
    have k: "depth + e \<le> k + e" "0 \<le> k + e" using 1(4) e by simp_all
    from 1(1) [OF False tok refl refl _ r nr k(1), of "u @ ts"] e obtain us where
      "scanExpr (rest @ CHR '')'' # x) (k + e) (u @ ts) = scanExpr (CHR '')'' # x) (k + e + (d' - (depth + e))) ((u @ ts) @ us)"
      by auto
    moreover have "scanExpr (s @ CHR '')'' # x) k u = scanExpr (rest @ CHR '')'' # x) (k + e) (u @ ts)"
      using scanTok_append [OF tok False nc, of x] k by (simp add: scanExpr.simps [of "s @ CHR '')'' # x"])
    moreover have "k + e + (d' - (depth + e)) = k + (d' - depth)" by simp
    ultimately have "scanExpr (s @ CHR '')'' # x) k u = scanExpr (CHR '')'' # x) (k + (d' - depth)) (u @ ts @ us)" by simp
    then show ?thesis by blast
  qed
qed

lemma scanExpr_paren:
  "scanExpr (CHR ''('' # x) d t = (if d + 1 < 0 then Inl ''unbalanced parentheses'' else scanExpr x (d + 1) (t @ [TParen ''('']))"
  "scanExpr (CHR '')'' # x) d t = (if d - 1 < 0 then Inl ''unbalanced parentheses'' else scanExpr x (d - 1) (t @ [TParen '')'']))"
  by (simp_all add: scanExpr.simps [of "CHR ''('' # x"] scanExpr.simps [of "CHR '')'' # x"] scanTok_def)

lemma scanLit_error: "scanLit msg r = Inl e \<Longrightarrow> e = msg"
  by (auto simp: scanLit_def split: option.splits)

lemma scanTok_error: "scanTok s \<noteq> Inl []"
  by (auto simp: scanTok_def scanWord_def scanDollar_def Let_def split: option.splits dest: scanLit_error)

lemma scanExpr_error: "scanExpr s d t \<noteq> Inl []"
proof (induction s d t rule: scanExpr.induct)
  case (1 s d t)
  with scanTok_error [of s] show ?case by (auto simp: scanExpr.simps [of s] split: sum.splits)
qed

lemma accepted_scan: "checkSQLExpr e = [] \<Longrightarrow> \<exists>ts. scanExpr e 0 [] = Inr (0, ts)"
  using scanExpr_error [of e 0 "[]"] by (auto simp: checkSQLExpr_def split: if_splits sum.splits)

lemma scanExpr_swallow:
  assumes "scanExpr s d t = Inr (d', t')" "endsInComment s" "d \<le> k" "0 \<le> d" "CHR 0x0A \<notin> set x"
  shows "\<exists>ts. scanExpr (s @ CHR '')'' # x) k u = Inr (k + (d' - d), u @ ts)"
  using assms
proof (induction s d t arbitrary: k u rule: scanExpr.induct)
  case (1 s depth toks)
  have s: "s \<noteq> []" using 1(3) by (auto simp: endsInComment.simps [of "[]"])
  show ?case
  proof (cases "hasPrefix s ''--'' \<and> strIndex s [CHR 0x0A] = None")
    case True
    then obtain w where w: "s = CHR ''-'' # CHR ''-'' # w" by (auto simp: hasPrefix_iff)
    have n: "CHR 0x0A \<notin> set w" using True w by (auto simp: strIndex_single split: if_splits)
    have e: "scanTok (CHR ''-'' # CHR ''-'' # w') = Inr ([], 0, [])" if "CHR 0x0A \<notin> set w'" for w'
      using that by (simp add: scanTok_def strIndex_single)
    have "scanExpr (CHR ''-'' # CHR ''-'' # w') k u = Inr (k, u)" if "CHR 0x0A \<notin> set w'" "0 \<le> k" for w' k u
      using e [OF that(1)] that(2) by (simp add: scanExpr.simps [of "CHR ''-'' # CHR ''-'' # w'"] scanExpr.simps [of "[]"])
    from this [OF n] this [of "w @ CHR '')'' # x"] n 1(2,4,5,6) w show ?thesis by (auto intro!: exI [of _ "[]"])
  next
    case False
    with s 1(2) obtain rest e ts where tok: "scanTok s = Inr (rest, e, ts)" and e: "0 \<le> depth + e"
      and r: "scanExpr rest (depth + e) (toks @ ts) = Inr (d', t')"
      by (auto simp: scanExpr.simps [of s] split: sum.splits if_splits)
    from s tok 1(3) False have nc: "hasPrefix s ''--'' \<Longrightarrow> strIndex s [CHR 0x0A] \<noteq> None" and nr: "endsInComment rest"
      by (auto simp: endsInComment.simps [of s] split: if_splits)
    have k: "depth + e \<le> k + e" "0 \<le> k + e" using 1(4) e by simp_all
    from 1(1) [OF s tok refl refl _ r nr k(1) e 1(6), of "u @ ts"] e obtain us where
      "scanExpr (rest @ CHR '')'' # x) (k + e) (u @ ts) = Inr (k + e + (d' - (depth + e)), (u @ ts) @ us)" by auto
    moreover have "scanExpr (s @ CHR '')'' # x) k u = scanExpr (rest @ CHR '')'' # x) (k + e) (u @ ts)"
      using scanTok_append [OF tok s nc, of x] k by (simp add: scanExpr.simps [of "s @ CHR '')'' # x"])
    ultimately show ?thesis by auto
  qed
qed



end
