(* ===== verification/Domain_Database.thy ===== *)
theory Domain_Database
  imports Go_Strings
begin

text \<open>
  \<open>internal/domain/database.go\<close>: the Postgres roles, their validation, and the role a request runs under.
  The fields of the session that decide it come from \<open>domain.Session\<close>.
\<close>

definition JWTRoleAnon :: string where "JWTRoleAnon = ''anon''"
definition JWTRoleAuthenticated :: string where "JWTRoleAuthenticated = ''authenticated''"
definition JWTRoleService :: string where "JWTRoleService = ''service_role''"

record Roles =
  rl_Authenticator :: string
  rl_Anon :: string
  rl_Authenticated :: string
  rl_Service :: string
  rl_Seed :: string

definition DefaultRoles :: Roles where
  "DefaultRoles = \<lparr>rl_Authenticator = ''authenticator'', rl_Anon = JWTRoleAnon,
     rl_Authenticated = JWTRoleAuthenticated, rl_Service = JWTRoleService, rl_Seed = []\<rparr>"

definition roleIdentRE :: "string \<Rightarrow> bool" where
  "roleIdentRE s = (identRe s \<and> length s \<le> 63)"

datatype role_error =
    RoleEmpty string
  | RoleInvalid string string
  | RoleDuplicate string string string

definition rolePairs :: "Roles \<Rightarrow> (string \<times> string) list" where
  "rolePairs r = [(''authenticator'', rl_Authenticator r), (''anon'', rl_Anon r),
     (''authenticated'', rl_Authenticated r), (''service'', rl_Service r)]"

text \<open>\<open>seen\<close> maps a role name to the field that used it.\<close>

fun checkRoles :: "string gmap \<Rightarrow> (string \<times> string) list \<Rightarrow> role_error option" where
  "checkRoles seen [] = None"
| "checkRoles seen ((name, val) # ps) =
     (if val = [] then Some (RoleEmpty name)
      else if \<not> roleIdentRE val then Some (RoleInvalid name val)
      else case map_of seen val of
          Some other \<Rightarrow> Some (RoleDuplicate name val other)
        | None \<Rightarrow> checkRoles ((val, name) # seen) ps)"

definition RolesValidate :: "Roles \<Rightarrow> role_error option" where
  "RolesValidate r = checkRoles [] (rolePairs r)"

definition AssumableFromSession :: "Roles \<Rightarrow> string \<Rightarrow> bool \<Rightarrow> string" where
  "AssumableFromSession r role isAuthenticated =
     (if role = JWTRoleService \<or> role = rl_Service r then rl_Service r
      else if role = JWTRoleAuthenticated \<or> role = rl_Authenticated r then rl_Authenticated r
      else if role = JWTRoleAnon \<or> role = rl_Anon r \<or> role = [] then
        (if isAuthenticated then rl_Authenticated r else rl_Anon r)
      else rl_Anon r)"

lemma checkRoles_None:
  "checkRoles seen ps = None \<longleftrightarrow>
     (\<forall>p \<in> set ps. roleIdentRE (snd p) \<and> snd p \<notin> fst ` set seen) \<and> distinct (map snd ps)"
proof (induction seen ps rule: checkRoles.induct)
  case (2 seen name val ps)
  have e: "roleIdentRE [] = False" by (simp add: roleIdentRE_def identRe_def)
  show ?case
  proof (cases "map_of seen val")
    case None
    then have "val \<notin> fst ` set seen" by (simp add: map_of_eq_None_iff)
    with None 2 e show ?thesis by (cases "roleIdentRE val") auto
  next
    case (Some y)
    then have "val \<in> fst ` set seen" by (metis map_of_eq_None_iff option.distinct(1))
    with Some e show ?thesis by auto
  qed
qed simp

lemma RolesValidate_None:
  "RolesValidate r = None \<longleftrightarrow>
     (\<forall>v \<in> snd ` set (rolePairs r). roleIdentRE v) \<and> distinct (map snd (rolePairs r))"
  by (auto simp: RolesValidate_def checkRoles_None)

text \<open>A request runs under the service role, which bypasses row-level security, exactly when its
  session carries the wire name of that role or the configured identifier of it; whatever else the role
  claim says, the request gets one of the two roles that row-level security binds.\<close>

lemma service_role_exact:
  assumes "RolesValidate r = None"
  shows "AssumableFromSession r role auth = rl_Service r \<longleftrightarrow> role = JWTRoleService \<or> role = rl_Service r"
  using assms by (auto simp: AssumableFromSession_def RolesValidate_None rolePairs_def)

theorem service_role_exact_witness:
  "AssumableFromSession DefaultRoles ''admin'' True \<noteq> rl_Service DefaultRoles"
proof -
  have "RolesValidate DefaultRoles = None" by code_simp
  from service_role_exact [OF this] show ?thesis
    by (simp add: DefaultRoles_def JWTRoleService_def)
qed

end
