(* ===== verification/Migrate_Static.thy ===== *)
theory Migrate_Static
  imports Migrate_Ddl Domain_Database
begin

text \<open>
  The statements of \<open>internal/app/migrate.go\<close> whose text is fixed: the auth and storage tables, the
  functions that policies call, and the heal steps of boot, byte for byte.
\<close>

definition generateJWTKeysTable :: "stmt list" where
  \<open>generateJWTKeysTable =
     [CreateSchema ''auth''] @
     [Sql (sqlLines
     [''CREATE TABLE IF NOT EXISTS auth.jwt_keys ('',
      ''  kid TEXT PRIMARY KEY,'',
      ''  secret BYTEA NOT NULL,'',
      ''  algorithm TEXT NOT NULL,'',
      ''  created_at TIMESTAMPTZ NOT NULL DEFAULT NOW(),'',
      ''  retired_at TIMESTAMPTZ'',
      '');''])]\<close>

definition refreshTokensDDL :: "string" where
  \<open>refreshTokensDDL =
     sqlLines
     [''CREATE TABLE IF NOT EXISTS auth.refresh_tokens ('',
      ''  id BIGSERIAL PRIMARY KEY,'',
      ''  user_id UUID NOT NULL REFERENCES auth.users(id) ON DELETE CASCADE,'',
      ''  token TEXT NOT NULL UNIQUE,'',
      ''  expires_at TIMESTAMPTZ NOT NULL,'',
      ''  session_id TEXT,'',
      ''  ip TEXT,'',
      ''  user_agent TEXT,'',
      ''  created_at TIMESTAMPTZ NOT NULL DEFAULT NOW()'',
      '');'']\<close>

text \<open>The two heal statements check the catalogue before they take a lock on the table.\<close>

definition healAuthColumn :: "string \<Rightarrow> string \<Rightarrow> string \<Rightarrow> stmt" where
  \<open>healAuthColumn table column def = Sql (sqlLines
     [''DO $$ BEGIN'',
      ''IF to_regclass('auth.'' @ table @ ''') IS NOT NULL AND NOT EXISTS (SELECT 1 FROM pg_attribute WHERE attrelid = to_regclass('auth.'' @ table @ ''') AND attname = '' @ [CHR 0x27] @ column @ ''' AND NOT attisdropped) THEN'',
      ''  ALTER TABLE auth.'' @ table @ '' ADD COLUMN '' @ column @ '' '' @ def @ '';'',
      ''END IF;'',
      ''END $$;''])\<close>

definition healAuthIndex :: "string \<Rightarrow> string \<Rightarrow> string \<Rightarrow> stmt" where
  \<open>healAuthIndex name table expr = Sql (sqlLines
     [''DO $$ BEGIN'',
      ''IF to_regclass('auth.'' @ table @ ''') IS NOT NULL AND to_regclass('auth.'' @ name @ ''') IS NULL THEN'',
      ''  CREATE INDEX '' @ name @ '' ON auth.'' @ table @ '' ('' @ expr @ '');'',
      ''END IF;'',
      ''END $$;''])\<close>

definition authHealDDL :: "stmt list" where
  \<open>authHealDDL =
     [healAuthIndex ''idx_users_email_lower'' ''users'' ''lower(email)'',
      healAuthIndex ''idx_mfa_challenges_factor_created'' ''mfa_challenges'' ''factor_id, created_at'',
      healAuthColumn ''refresh_tokens'' ''revoked_at'' ''TIMESTAMPTZ'',
      healAuthColumn ''refresh_tokens'' ''aal'' (''TEXT NOT NULL DEFAULT 'aal1'' @ [CHR 0x27]),
      healAuthColumn ''refresh_tokens'' ''amr'' ''JSONB NOT NULL DEFAULT '[]'::jsonb'',
      healAuthIndex ''idx_refresh_tokens_session'' ''refresh_tokens'' ''session_id'',
      healAuthColumn ''one_time_tokens'' ''attempts'' ''INT NOT NULL DEFAULT 0'',
      healAuthColumn ''mfa_challenges'' ''attempts'' ''INT NOT NULL DEFAULT 0'',
      healAuthColumn ''mfa_factors'' ''last_totp_step'' ''BIGINT'']\<close>

definition usersColumns :: "string list" where
  \<open>usersColumns =
     [''id UUID PRIMARY KEY DEFAULT gen_random_uuid()'',
      ''email TEXT UNIQUE'',
      ''password_hash TEXT'',
      ''email_verified BOOLEAN NOT NULL DEFAULT FALSE'',
      ''email_confirmed_at TIMESTAMPTZ'',
      ''last_sign_in_at TIMESTAMPTZ'',
      ''banned_until TIMESTAMPTZ'',
      ''raw_app_meta_data JSONB NOT NULL DEFAULT '{}'::jsonb'',
      ''raw_user_meta_data JSONB NOT NULL DEFAULT '{}'::jsonb'',
      ''is_anonymous BOOLEAN NOT NULL DEFAULT FALSE'',
      ''created_at TIMESTAMPTZ NOT NULL DEFAULT NOW()'',
      ''updated_at TIMESTAMPTZ NOT NULL DEFAULT NOW()'']\<close>

definition oneTimeTokensDDL :: "stmt list" where
  \<open>oneTimeTokensDDL =
     [Sql (sqlLines
     [''CREATE TABLE IF NOT EXISTS auth.one_time_tokens ('',
      ''  id BIGSERIAL PRIMARY KEY,'',
      ''  user_id UUID NOT NULL REFERENCES auth.users(id) ON DELETE CASCADE,'',
      ''  token TEXT NOT NULL UNIQUE,'',
      ''  purpose TEXT NOT NULL DEFAULT 'signup','',
      ''  email TEXT,'',
      ''  code TEXT,'',
      ''  attempts INT NOT NULL DEFAULT 0,'',
      ''  expires_at TIMESTAMPTZ NOT NULL,'',
      ''  created_at TIMESTAMPTZ NOT NULL DEFAULT NOW()'',
      '');''])] @
     [Sql ''CREATE INDEX IF NOT EXISTS idx_one_time_tokens_email_code ON auth.one_time_tokens (email, code);'']\<close>

definition identitiesDDL :: "stmt list" where
  \<open>identitiesDDL =
     [Sql (sqlLines
     [''CREATE TABLE IF NOT EXISTS auth.identities ('',
      ''  id BIGSERIAL PRIMARY KEY,'',
      ''  user_id UUID NOT NULL REFERENCES auth.users(id) ON DELETE CASCADE,'',
      ''  provider TEXT NOT NULL,'',
      ''  provider_user_id TEXT NOT NULL,'',
      ''  identity_data JSONB NOT NULL DEFAULT '{}'::jsonb,'',
      ''  email TEXT,'',
      ''  last_sign_in_at TIMESTAMPTZ,'',
      ''  created_at TIMESTAMPTZ NOT NULL DEFAULT NOW(),'',
      ''  updated_at TIMESTAMPTZ NOT NULL DEFAULT NOW(),'',
      ''  UNIQUE(provider, provider_user_id)'',
      '');''])]\<close>

definition mfaDDL :: "stmt list" where
  \<open>mfaDDL =
     [Sql (sqlLines
     [''CREATE TABLE IF NOT EXISTS auth.mfa_factors ('',
      ''  id UUID PRIMARY KEY DEFAULT gen_random_uuid(),'',
      ''  user_id UUID NOT NULL REFERENCES auth.users(id) ON DELETE CASCADE,'',
      ''  friendly_name TEXT,'',
      ''  factor_type TEXT NOT NULL,'',
      ''  status TEXT NOT NULL DEFAULT 'unverified','',
      ''  secret TEXT NOT NULL,'',
      ''  created_at TIMESTAMPTZ NOT NULL DEFAULT NOW(),'',
      ''  updated_at TIMESTAMPTZ NOT NULL DEFAULT NOW()'',
      '');''])] @
     [Sql ''CREATE INDEX IF NOT EXISTS idx_mfa_factors_user ON auth.mfa_factors (user_id);''] @
     [Sql (sqlLines
     [''CREATE TABLE IF NOT EXISTS auth.mfa_challenges ('',
      ''  id UUID PRIMARY KEY DEFAULT gen_random_uuid(),'',
      ''  factor_id UUID NOT NULL REFERENCES auth.mfa_factors(id) ON DELETE CASCADE,'',
      ''  verified_at TIMESTAMPTZ,'',
      ''  ip_address TEXT,'',
      ''  attempts INT NOT NULL DEFAULT 0,'',
      ''  created_at TIMESTAMPTZ NOT NULL DEFAULT NOW()'',
      '');''])]\<close>

definition flowStateDDL :: "stmt list" where
  \<open>flowStateDDL =
     [Sql (sqlLines
     [''CREATE TABLE IF NOT EXISTS auth.flow_state ('',
      ''  id UUID PRIMARY KEY DEFAULT gen_random_uuid(),'',
      ''  user_id UUID,'',
      ''  auth_code TEXT,'',
      ''  code_challenge TEXT,'',
      ''  code_challenge_method TEXT,'',
      ''  provider_type TEXT NOT NULL,'',
      ''  provider_access_token TEXT,'',
      ''  provider_refresh_token TEXT,'',
      ''  authentication_method TEXT,'',
      ''  redirect_to TEXT,'',
      ''  linking_user_id TEXT,'',
      ''  auth_code_issued_at TIMESTAMPTZ NOT NULL DEFAULT NOW(),'',
      ''  created_at TIMESTAMPTZ NOT NULL DEFAULT NOW(),'',
      ''  updated_at TIMESTAMPTZ NOT NULL DEFAULT NOW()'',
      '');''])] @
     [Sql ''CREATE UNIQUE INDEX IF NOT EXISTS idx_flow_state_auth_code ON auth.flow_state (auth_code) WHERE auth_code IS NOT NULL;''] @
     [Sql ''CREATE INDEX IF NOT EXISTS idx_flow_state_user_id_auth_method ON auth.flow_state (user_id, authentication_method);'']\<close>

text \<open>The sources test \<open>auth.Email != nil\<close> for the one-time tokens and emit the rest always.\<close>

definition generateAuthTables :: "Auth \<Rightarrow> stmt list" where
  \<open>generateAuthTables auth =
     [Sql ''CREATE EXTENSION IF NOT EXISTS pgcrypto;'', CreateSchema ''auth'',
      Sql (''CREATE TABLE IF NOT EXISTS auth.users ('' @ nl @ ''  '' @
        strJoin usersColumns ('','' @ nl @ ''  '') @ nl @ '');'')] @
     identitiesDDL @ [Sql refreshTokensDDL] @
     (if auth_Email auth \<noteq> None then oneTimeTokensDDL else []) @
     mfaDDL @ flowStateDDL @ authHealDDL\<close>

definition generateRLSFunctions :: "stmt list" where
  \<open>generateRLSFunctions =
     [CreateSchema ''auth''] @
     [Sql (sqlLines
     [''CREATE OR REPLACE FUNCTION auth.uid() RETURNS UUID AS $$'',
      ''  SELECT NULLIF(current_setting('app.user_id', true), '' @ [CHR 0x27, CHR 0x27] @ '')::UUID;'',
      ''$$ LANGUAGE SQL STABLE;''])] @
     [Sql (sqlLines
     [''CREATE OR REPLACE FUNCTION auth.role() RETURNS TEXT AS $$'',
      ''  SELECT COALESCE(NULLIF(current_setting('app.role', true), '' @ [CHR 0x27, CHR 0x27] @ ''), 'anon');'',
      ''$$ LANGUAGE SQL STABLE;''])] @
     [Sql (sqlLines
     [''CREATE OR REPLACE FUNCTION auth.email() RETURNS TEXT AS $$'',
      ''  SELECT NULLIF(current_setting('app.email', true), '' @ [CHR 0x27, CHR 0x27] @ '');'',
      ''$$ LANGUAGE SQL STABLE;''])] @
     [Sql (sqlLines
     [''CREATE OR REPLACE FUNCTION auth.jwt() RETURNS JSONB AS $$'',
      ''  SELECT CASE'',
      ''    WHEN NULLIF(current_setting('app.jwt', true), '' @ [CHR 0x27, CHR 0x27] @ '') IS NULL THEN NULL'',
      ''    ELSE convert_from('',
      ''      decode('',
      ''        translate('',
      ''          split_part(current_setting('app.jwt', true), '.', 2),'',
      ''          '-_', '+/'' @ [CHR 0x27],
      ''        ) ||'',
      ''        repeat('=', (4 - length(split_part(current_setting('app.jwt', true), '.', 2)) % 4) % 4),'',
      ''        'base64'' @ [CHR 0x27],
      ''      ),'',
      ''      'utf8'' @ [CHR 0x27],
      ''    )::jsonb'',
      ''  END;'',
      ''$$ LANGUAGE SQL STABLE;''])] @
     [Sql (sqlLines
     [''CREATE OR REPLACE FUNCTION auth.is_authenticated() RETURNS BOOLEAN AS $$'',
      ''  SELECT auth.role() = 'authenticated' OR auth.role() = 'service_role';'',
      ''$$ LANGUAGE SQL STABLE;''])]\<close>

definition storageHelperFunctions :: "stmt list" where
  \<open>storageHelperFunctions =
     [Sql (sqlLines
     [''CREATE OR REPLACE FUNCTION storage.foldername(name text)'',
      ''    RETURNS text[]'',
      ''    LANGUAGE plpgsql'',
      ''    IMMUTABLE'',
      ''AS $function$'',
      ''DECLARE'',
      ''    _parts text[];'',
      ''BEGIN'',
      ''    SELECT string_to_array(name, '/') INTO _parts;'',
      ''    RETURN _parts[1 : array_length(_parts,1) - 1];'',
      ''END'',
      ''$function$;''])] @
     [Sql (sqlLines
     [''CREATE OR REPLACE FUNCTION storage.filename(name text)'',
      ''    RETURNS text'',
      ''    LANGUAGE plpgsql'',
      ''    IMMUTABLE'',
      ''AS $function$'',
      ''DECLARE'',
      ''    _parts text[];'',
      ''BEGIN'',
      ''    SELECT string_to_array(name, '/') INTO _parts;'',
      ''    RETURN _parts[array_length(_parts, 1)];'',
      ''END'',
      ''$function$;''])] @
     [Sql (sqlLines
     [''CREATE OR REPLACE FUNCTION storage.extension(name text)'',
      ''    RETURNS text'',
      ''    LANGUAGE plpgsql'',
      ''    IMMUTABLE'',
      ''AS $function$'',
      ''DECLARE'',
      ''    _parts text[];'',
      ''    _filename text;'',
      ''BEGIN'',
      ''    SELECT string_to_array(name, '/') INTO _parts;'',
      ''    SELECT _parts[array_length(_parts, 1)] INTO _filename;'',
      ''    RETURN reverse(split_part(reverse(_filename), '.', 1));'',
      ''END'',
      ''$function$;''])]\<close>

definition storageOwnerColumnHeal :: "string" where
  \<open>storageOwnerColumnHeal =
     sqlLines
     [''DO $$'',
      ''DECLARE adds text[] := '{}';'',
      ''BEGIN'',
      ''IF to_regclass('storage.objects') IS NOT NULL THEN'',
      ''  IF NOT EXISTS (SELECT 1 FROM pg_attribute WHERE attrelid = 'storage.objects'::regclass AND attname = 'owner' AND NOT attisdropped) THEN'',
      ''    adds := array_append(adds, 'ADD COLUMN owner UUID GENERATED ALWAYS AS (uploaded_by) STORED');'',
      ''  END IF;'',
      ''  IF NOT EXISTS (SELECT 1 FROM pg_attribute WHERE attrelid = 'storage.objects'::regclass AND attname = 'owner_id' AND NOT attisdropped) THEN'',
      ''    adds := array_append(adds, 'ADD COLUMN owner_id TEXT GENERATED ALWAYS AS (uploaded_by::text) STORED');'',
      ''  END IF;'',
      ''  IF cardinality(adds) > 0 THEN'',
      ''    EXECUTE 'ALTER TABLE storage.objects ' || array_to_string(adds, ', ');'',
      ''  END IF;'',
      ''END IF;'',
      ''END $$;'']\<close>

definition storageUploadedByFKHeal :: "string" where
  \<open>storageUploadedByFKHeal =
     sqlLines
     [''DO $$'',
      ''DECLARE c RECORD; dropped boolean := false;'',
      ''BEGIN'',
      ''  IF to_regclass('storage.objects') IS NULL OR to_regclass('auth.users') IS NULL THEN RETURN; END IF;'',
      ''  FOR c IN SELECT conname FROM pg_constraint'',
      ''    WHERE conrelid = 'storage.objects'::regclass AND confrelid = 'auth.users'::regclass'',
      ''      AND contype = 'f' AND confdeltype <> 'n'' @ [CHR 0x27],
      ''      AND conkey = ARRAY[(SELECT attnum FROM pg_attribute WHERE attrelid = 'storage.objects'::regclass AND attname = 'uploaded_by')]'',
      ''  LOOP'',
      ''    EXECUTE format('ALTER TABLE storage.objects DROP CONSTRAINT %I', c.conname);'',
      ''    dropped := true;'',
      ''  END LOOP;'',
      ''  IF dropped THEN'',
      ''    ALTER TABLE storage.objects ADD CONSTRAINT objects_uploaded_by_fkey FOREIGN KEY (uploaded_by) REFERENCES auth.users(id) ON DELETE SET NULL;'',
      ''  END IF;'',
      ''END $$;'']\<close>

definition nameIndexDef :: "string" where
  \<open>nameIndexDef =
     ''(bucket_id, name COLLATE "C")''\<close>

definition nameLowerIndexDef :: "string" where
  \<open>nameLowerIndexDef =
     ''(bucket_id, name_lower, (name COLLATE "C"))''\<close>

definition ensureStorageIndex :: "string \<Rightarrow> string \<Rightarrow> string" where
  \<open>ensureStorageIndex name def = sqlLines
     [''IF NOT EXISTS (SELECT 1 FROM pg_index i WHERE i.indexrelid = to_regclass('storage.'' @ name @ ''') AND i.indisvalid) THEN'',
      ''    DROP INDEX IF EXISTS storage.'' @ name @ '';'',
      ''    CREATE INDEX '' @ name @ '' ON storage.objects '' @ def @ '';'',
      ''  END IF;'']\<close>

definition storageNameIndexHeal :: "string" where
  \<open>storageNameIndexHeal =
     sqlLines
     [''DO $$ BEGIN'',
      ''IF to_regclass('storage.objects') IS NOT NULL THEN'',
      ''  '' @ ensureStorageIndex ''objects_bucket_name_c_idx'' nameIndexDef,
      ''END IF;'',
      ''END $$;'']\<close>

definition storageListColumnHeal :: "string" where
  \<open>storageListColumnHeal =
     sqlLines
     [''DO $$ BEGIN'',
      ''IF to_regclass('storage.objects') IS NOT NULL THEN'',
      ''  IF NOT EXISTS (SELECT 1 FROM pg_attribute WHERE attrelid = 'storage.objects'::regclass AND attname = 'name_lower' AND NOT attisdropped) THEN'',
      ''    ALTER TABLE storage.objects ADD COLUMN name_lower TEXT COLLATE "C" GENERATED ALWAYS AS (lower(name)) STORED;'',
      ''  END IF;'',
      ''  '' @ ensureStorageIndex ''objects_bucket_name_lower_c_idx'' nameLowerIndexDef,
      ''END IF;'',
      ''END $$;'']\<close>

definition storageIndexesWhenEmpty :: "string" where
  \<open>storageIndexesWhenEmpty =
     sqlLines
     [''DO $$ BEGIN'',
      ''IF NOT EXISTS (SELECT 1 FROM storage.objects LIMIT 1) THEN'',
      ''  '' @ ensureStorageIndex ''objects_bucket_name_c_idx'' nameIndexDef,
      ''  IF EXISTS (SELECT 1 FROM pg_attribute WHERE attrelid = 'storage.objects'::regclass AND attname = 'name_lower' AND NOT attisdropped) THEN'',
      ''    '' @ ensureStorageIndex ''objects_bucket_name_lower_c_idx'' nameLowerIndexDef,
      ''  END IF;'',
      ''END IF;'',
      ''END $$;'']\<close>

definition storageObjectsDDL :: "stmt list" where
  \<open>storageObjectsDDL =
     [CreateSchema ''storage''] @
     [Sql (sqlLines
     [''CREATE TABLE IF NOT EXISTS storage.objects ('',
      ''  id UUID PRIMARY KEY DEFAULT gen_random_uuid(),'',
      ''  bucket_id TEXT NOT NULL,'',
      ''  name TEXT NOT NULL,'',
      ''  size BIGINT NOT NULL DEFAULT 0,'',
      ''  mime TEXT NOT NULL DEFAULT '' @ [CHR 0x27, CHR 0x27] @ '','',
      ''  uploaded_by UUID REFERENCES auth.users(id) ON DELETE SET NULL,'',
      ''  uploaded_at TIMESTAMPTZ NOT NULL DEFAULT NOW(),'',
      ''  metadata JSONB,'',
      ''  user_metadata JSONB,'',
      ''  name_lower TEXT COLLATE "C" GENERATED ALWAYS AS (lower(name)) STORED,'',
      ''  owner UUID GENERATED ALWAYS AS (uploaded_by) STORED,'',
      ''  owner_id TEXT GENERATED ALWAYS AS (uploaded_by::text) STORED,'',
      ''  UNIQUE (bucket_id, name)'',
      '');''])] @
     [Sql ''ALTER TABLE storage.objects ADD COLUMN IF NOT EXISTS user_metadata JSONB;''] @
     [Sql storageIndexesWhenEmpty]\<close>

definition storageUserMetadataDDL :: "string" where
  \<open>storageUserMetadataDDL =
     ''ALTER TABLE storage.objects ADD COLUMN IF NOT EXISTS user_metadata JSONB;''\<close>

definition generateSeedReadGrants :: "Roles \<Rightarrow> stmt list" where
  \<open>generateSeedReadGrants roles =
     (if rl_Seed roles = [] then []
      else let seed = replaceAll (rl_Seed roles) (CHR 0x27) [CHR 0x27, CHR 0x27] in
       [Sql (sqlLines
     [''DO $$'',
      ''DECLARE cols text;'',
      ''BEGIN'',
      ''  IF to_regclass('auth.users') IS NOT NULL THEN'',
      ''    SELECT string_agg(quote_ident(column_name), ', ') INTO cols'',
      ''      FROM information_schema.columns'',
      ''     WHERE table_schema = 'auth' AND table_name = 'users' AND column_name <> 'password_hash';'',
      ''    EXECUTE format('GRANT USAGE ON SCHEMA auth TO %I', '' @ [CHR 0x27] @ seed @ ''');'',
      ''    EXECUTE format('GRANT SELECT (%s) ON auth.users TO %I', cols, '' @ [CHR 0x27] @ seed @ ''');'',
      ''  END IF;'',
      ''END $$;'']),
        Sql (sqlLines
     [''DO $$'',
      ''BEGIN'',
      ''  IF to_regclass('storage.objects') IS NOT NULL THEN'',
      ''    EXECUTE format('GRANT USAGE ON SCHEMA storage TO %I', '' @ [CHR 0x27] @ seed @ ''');'',
      ''    EXECUTE format('GRANT SELECT ON storage.objects TO %I', '' @ [CHR 0x27] @ seed @ ''');'',
      ''  END IF;'',
      ''END $$;''])])\<close>

end
