(* ===== verification/Table_Order.thy ===== *)
theory Table_Order
  imports Domain_Schema
begin

text \<open>
  \<open>orderTables\<close> of \<open>internal/app/migrate.go\<close>: the order in which tables are created. It is a
  depth-first search along the foreign keys. \<open>visiting\<close> is the stack of tables being visited (the
  source sets an entry on entry and clears it on exit), \<open>visited\<close> is the set of the tables in the
  result. The properties hold for every configuration, cyclic ones included.
\<close>

definition fieldDep :: "Table gmap \<Rightarrow> string \<Rightarrow> Field \<Rightarrow> string option" where
  "fieldDep tables name f =
     (case fld_ForeignKey f of None \<Rightarrow> None
      | Some k \<Rightarrow>
          (case ParseFKReference (fk_References k) of
             Inl _ \<Rightarrow> None
           | Inr (_, refTable, _) \<Rightarrow>
               if refTable = name then None else if mapHas tables refTable then Some refTable else None))"

definition tableDeps :: "Table gmap \<Rightarrow> string \<Rightarrow> string list" where
  "tableDeps tables name =
     (case map_of tables name of None \<Rightarrow> []
      | Some t \<Rightarrow> List.map_filter (fieldDep tables name) (tbl_Fields t))"

lemma fieldDep_Some: "fieldDep tables n f = Some d \<Longrightarrow> d \<noteq> n \<and> d \<in> fst ` set tables"
  by (auto simp: fieldDep_def mapHas_iff split: option.splits sum.splits if_splits)

lemma set_tableDeps:
  "d \<in> set (tableDeps tables n) \<longleftrightarrow>
     (\<exists>t f. map_of tables n = Some t \<and> f \<in> set (tbl_Fields t) \<and> fieldDep tables n f = Some d)"
  by (cases "map_of tables n") (force simp: tableDeps_def List.map_filter_def)+

lemma tableDeps_keys: "d \<in> set (tableDeps tables n) \<Longrightarrow> d \<in> fst ` set tables"
  by (auto simp: set_tableDeps dest: fieldDep_Some)

function visit :: "Table gmap \<Rightarrow> string list \<Rightarrow> string \<Rightarrow> string list \<Rightarrow> string list" where
  "visit tables visiting name result =
     (if name \<in> set result then result
      else if name \<in> set visiting then result
      else fold (visit tables (name # visiting)) (tableDeps tables name) result @ [name])"
  by pat_completeness auto
termination
proof (relation "measure (\<lambda>(tables, vs, n, r). card ((insert n (fst ` set tables)) - set vs))", goal_cases)
  case (2 tables vs n r d r')
  then have "insert d (fst ` set tables) - set (n # vs) \<subset> insert n (fst ` set tables) - set vs"
    using tableDeps_keys by auto
  then show ?case by (simp add: psubset_card_mono)
qed simp

declare visit.simps [simp del]

definition orderTables :: "Table gmap \<Rightarrow> string list" where
  "orderTables tables = fold (visit tables []) (sortedKeys tables) []"

section \<open>The invariant of the search\<close>

definition dependsOn :: "Table gmap \<Rightarrow> string \<Rightarrow> string \<Rightarrow> bool" where
  "dependsOn tables a b = (b \<in> set (tableDeps tables a))"

definition topological :: "Table gmap \<Rightarrow> string list \<Rightarrow> bool" where
  "topological tables r =
     (\<forall>xs n ys d. r = xs @ n # ys \<longrightarrow> dependsOn tables n d \<longrightarrow>
        d \<in> set xs \<or> (dependsOn tables)\<^sup>*\<^sup>* d n)"

lemma topological_Nil [simp]: "topological tables []"
  by (simp add: topological_def)

lemma topological_snoc:
  "topological tables (r @ [n]) \<longleftrightarrow> topological tables r \<and>
     (\<forall>d. dependsOn tables n d \<longrightarrow> d \<in> set r \<or> (dependsOn tables)\<^sup>*\<^sup>* d n)"
proof -
  have eq: "r @ [n] = xs @ m # ys \<longleftrightarrow> (ys = [] \<and> xs = r \<and> m = n) \<or>
      (\<exists>zs. ys = zs @ [n] \<and> r = xs @ m # zs)" for xs m ys
    by (cases ys rule: rev_cases) auto
  show ?thesis unfolding topological_def eq by blast
qed

text \<open>What one call keeps: it extends a result that has no duplicates, stays among the tables, visits the
  table unless it is on the stack, and keeps the order.\<close>

definition searchInv :: "Table gmap \<Rightarrow> string list \<Rightarrow> bool" where
  "searchInv tables r = (distinct r \<and> set r \<subseteq> fst ` set tables \<and> topological tables r)"

lemma visit_step:
  assumes "searchInv tables r" and "n \<in> fst ` set tables"
    and "\<forall>v \<in> set vs. (dependsOn tables)\<^sup>*\<^sup>* v n" and "set vs \<inter> set r = {}"
  shows "searchInv tables (visit tables vs n r) \<and> set r \<subseteq> set (visit tables vs n r) \<and>
    (n \<in> set (visit tables vs n r) \<or> n \<in> set vs) \<and> set vs \<inter> set (visit tables vs n r) = {}"
  using assms
proof (induction tables vs n r rule: visit.induct)
  case (1 tables vs n r)
  show ?case
  proof (cases "n \<in> set r \<or> n \<in> set vs")
    case True
    with 1 show ?thesis by (auto simp: visit.simps [of tables vs n r])
  next
    case False
    let ?f = "visit tables (n # vs)"
    have fold_ok: "set ds \<subseteq> set (tableDeps tables n) \<Longrightarrow> searchInv tables s \<Longrightarrow> set (n # vs) \<inter> set s = {} \<Longrightarrow>
        searchInv tables (fold ?f ds s) \<and> set s \<subseteq> set (fold ?f ds s) \<and>
        set ds \<subseteq> set (fold ?f ds s) \<union> set (n # vs) \<and> set (n # vs) \<inter> set (fold ?f ds s) = {}" for ds s
    proof (induction ds arbitrary: s)
      case (Cons d ds)
      have d: "d \<in> set (tableDeps tables n)" using Cons.prems by simp
      have "\<forall>v \<in> set (n # vs). (dependsOn tables)\<^sup>*\<^sup>* v d"
      proof
        fix v assume "v \<in> set (n # vs)"
        then have "(dependsOn tables)\<^sup>*\<^sup>* v n" using 1(4) by auto
        moreover have "dependsOn tables n d" using d by (simp add: dependsOn_def)
        ultimately show "(dependsOn tables)\<^sup>*\<^sup>* v d" by simp
      qed
      with 1(1) [of d s] False d Cons.prems have step:
        "searchInv tables (?f d s) \<and> set s \<subseteq> set (?f d s) \<and> (d \<in> set (?f d s) \<or> d \<in> set (n # vs)) \<and>
         set (n # vs) \<inter> set (?f d s) = {}"
        using tableDeps_keys by auto
      moreover have "set ds \<subseteq> set (tableDeps tables n)" using Cons.prems by simp
      ultimately show ?case using Cons.IH [of "?f d s"] by auto
    qed simp
    let ?s = "fold ?f (tableDeps tables n) r"
    have f: "searchInv tables ?s" "set r \<subseteq> set ?s" "set (tableDeps tables n) \<subseteq> set ?s \<union> set (n # vs)"
        "set (n # vs) \<inter> set ?s = {}"
      using fold_ok [of "tableDeps tables n" r] 1(2,5) False by auto
    have "topological tables (?s @ [n])"
      unfolding topological_snoc
    proof (intro conjI allI impI)
      show "topological tables ?s" using f(1) by (simp add: searchInv_def)
    next
      fix d assume "dependsOn tables n d"
      then have "d \<in> set ?s \<or> d \<in> set (n # vs)" using f(3) by (auto simp: dependsOn_def)
      then show "d \<in> set ?s \<or> (dependsOn tables)\<^sup>*\<^sup>* d n" using 1(4) by auto
    qed
    moreover have "visit tables vs n r = ?s @ [n]" using False by (simp add: visit.simps [of tables vs n r])
    ultimately show ?thesis using f 1(3) False by (auto simp: searchInv_def)
  qed
qed

lemma orderTables_inv:
  "searchInv tables (orderTables tables) \<and> set (orderTables tables) = fst ` set tables"
proof -
  have "set ns \<subseteq> fst ` set tables \<Longrightarrow> searchInv tables r \<Longrightarrow>
      searchInv tables (fold (visit tables []) ns r) \<and> set r \<union> set ns \<subseteq> set (fold (visit tables []) ns r)" for ns r
  proof (induction ns arbitrary: r)
    case (Cons n ns)
    from Cons.prems visit_step [of tables r n "[]"]
    have "searchInv tables (visit tables [] n r)" "set r \<subseteq> set (visit tables [] n r)" "n \<in> set (visit tables [] n r)"
      by auto
    with Cons.IH [of "visit tables [] n r"] Cons.prems show ?case by auto
  qed simp
  from this [of "sortedKeys tables" "[]"] show ?thesis
    by (auto simp: orderTables_def searchInv_def)
qed

lemma distinct_orderTables: "distinct (orderTables tables)"
  and set_orderTables [simp]: "set (orderTables tables) = fst ` set tables"
  using orderTables_inv [of tables] by (auto simp: searchInv_def)

lemma orderTables_before:
  "orderTables tables = xs @ n # ys \<Longrightarrow> dependsOn tables n d \<Longrightarrow>
     d \<in> set xs \<or> (dependsOn tables)\<^sup>*\<^sup>* d n"
  using orderTables_inv [of tables] unfolding searchInv_def topological_def by blast

lemma orderTables_perm: "wfMap tables \<Longrightarrow> mset (orderTables tables) = mset (map fst tables)"
  using distinct_orderTables [of tables] set_orderTables [of tables]
    set_eq_iff_mset_eq_distinct [of "orderTables tables" "map fst tables"]
  by (simp add: wfMap_def)

lemma orderTables_lookup: "name \<in> set (orderTables tables) \<Longrightarrow> \<exists>t. map_of tables name = Some t"
  by (simp add: image_iff) (metis map_of_eq_None_iff fst_conv image_iff not_Some_eq)

text \<open>C6: The table order is a permutation of the configured tables in which the target of every foreign
  key comes before the table that declares it, unless the two tables refer to each other in a cycle.\<close>

theorem orderTables_topological:
  assumes "wfMap tables"
  shows "mset (orderTables tables) = mset (map fst tables) \<and>
    (\<forall>xs n ys d. orderTables tables = xs @ n # ys \<longrightarrow> dependsOn tables n d \<longrightarrow>
       d \<in> set xs \<or> (dependsOn tables)\<^sup>*\<^sup>* d n)"
  using assms orderTables_perm orderTables_before by blast

lemma orderTables_example:
  "orderTables exampleTables = [''b'', ''c'', ''a'']"
  by code_simp

theorem orderTables_topological_witness:
  "mset (orderTables exampleTables) = {#''a'', ''b'', ''c''#} \<and> ''c'' \<in> {''b'', ''c''}"
proof -
  have w: "wfMap exampleTables" by code_simp
  have d: "dependsOn exampleTables ''a'' ''c''" unfolding dependsOn_def by code_simp
  note o = orderTables_topological [OF w]
  from o have "mset (orderTables exampleTables) = mset (map fst exampleTables)" by blast
  moreover have "orderTables exampleTables = [''b'', ''c''] @ ''a'' # []" by (simp add: orderTables_example)
  with o d have "''c'' \<in> set [''b'', ''c''] \<or> (dependsOn exampleTables)\<^sup>*\<^sup>* ''c'' ''a''" by blast
  ultimately show ?thesis by (simp add: exampleTables_def)
qed

end
