(* ===== verification/Migrate_Gen.thy ===== *)
theory Migrate_Gen
  imports Migrate_Static Table_Order
begin

text \<open>
  The generators of \<open>internal/app/migrate.go\<close>: tables with their columns, constraints, indexes and guard
  triggers, RPC functions, row-level security on tables and on \<open>storage.objects\<close>, and the grants.
  Each returns the statements of the Go function of its name, in the same order.
\<close>

definition lookupOr :: "'v \<Rightarrow> 'v gmap \<Rightarrow> string \<Rightarrow> 'v" where
  "lookupOr d m k = (case map_of m k of None \<Rightarrow> d | Some v \<Rightarrow> v)"

abbreviation tableOf :: "Table gmap \<Rightarrow> string \<Rightarrow> Table" where
  "tableOf \<equiv> lookupOr zeroTable"

definition zeroBucket :: Bucket where
  "zeroBucket = \<lparr>bkt_MaxSize = [], bkt_Types = [], bkt_Public = False, bkt_RLS = []\<rparr>"

abbreviation bucketOf :: "Bucket gmap \<Rightarrow> string \<Rightarrow> Bucket" where
  "bucketOf \<equiv> lookupOr zeroBucket"

definition zeroFunction :: Function where
  "zeroFunction = \<lparr>fn_Description = [], fn_AuthRequired = False, fn_Language = [], fn_Volatility = [],
     fn_Security = [], fn_Set = [], fn_Args = [], fn_Body = [], fn_Returns = \<lparr>fr_Type = []\<rparr>,
     fn_ReturnCategory = []\<rparr>"

abbreviation functionOf :: "Function gmap \<Rightarrow> string \<Rightarrow> Function" where
  "functionOf \<equiv> lookupOr zeroFunction"

section \<open>Schemas and grants\<close>

definition isReservedSchema :: "string \<Rightarrow> bool" where
  "isReservedSchema s = (s = ''auth'' \<or> s = ''storage'')"

definition apiRoleList :: "Roles \<Rightarrow> string list" where
  "apiRoleList roles = [rl_Anon roles, rl_Authenticated roles, rl_Service roles]"

definition tableGrantees :: "string \<Rightarrow> Roles \<Rightarrow> string list" where
  "tableGrantees schema roles = (if schema = ''auth'' then [rl_Service roles] else apiRoleList roles)"

definition schemaGrants :: "Roles \<Rightarrow> string \<Rightarrow> stmt list" where
  "schemaGrants roles s =
     [CreateSchema s, GrantSchema s (apiRoleList roles),
      DefaultTables s (tableGrantees s roles), DefaultSequences s (tableGrantees s roles)] @
     (if rl_Seed roles \<noteq> [] \<and> \<not> isReservedSchema s then
        [GrantSchema s [rl_Seed roles], DefaultTables s [rl_Seed roles], DefaultSequences s [rl_Seed roles]]
      else [])"

definition generateSchemaGrants :: "string list \<Rightarrow> Roles \<Rightarrow> stmt list" where
  "generateSchemaGrants schemas roles =
     Sql ''REVOKE CREATE ON SCHEMA public FROM PUBLIC;'' # concat (map (schemaGrants roles) schemas)"

definition generatePrivilegeRevokes :: "Roles \<Rightarrow> stmt list" where
  "generatePrivilegeRevokes roles =
     (let users = [rl_Anon roles, rl_Authenticated roles];
          history = apiRoleList roles @ (if rl_Seed roles \<noteq> [] then [rl_Seed roles] else [])
      in [RevokeTables ''auth'' users, RevokeSequences ''auth'' users,
          RevokeDefaultTables ''auth'' users, RevokeDefaultSequences ''auth'' users,
          RevokeRelation (''auth'', ''jwt_keys'') (apiRoleList roles),
          RevokeRelation (''public'', ''_instancez_migrations'') history])"

definition existingGrants :: "Roles \<Rightarrow> string \<Rightarrow> stmt list" where
  "existingGrants roles s =
     [GrantTables s (tableGrantees s roles), GrantSequences s (tableGrantees s roles)] @
     (if rl_Seed roles \<noteq> [] \<and> \<not> isReservedSchema s then
        [GrantTables s [rl_Seed roles], GrantSequences s [rl_Seed roles]]
      else [])"

definition generateExistingObjectGrants :: "string list \<Rightarrow> Roles \<Rightarrow> stmt list" where
  "generateExistingObjectGrants schemas roles =
     concat (map (existingGrants roles) schemas) @ generateSeedReadGrants roles @
     generatePrivilegeRevokes roles"

definition addSchema :: "string \<Rightarrow> string list \<Rightarrow> string list" where
  "addSchema s out = (if s \<in> set out then out else out @ [s])"

text \<open>The tables are enumerated in map order.\<close>

definition orderedSchemas :: "Config \<Rightarrow> string list" where
  "orderedSchemas cfg =
     (let a = (if cfg_Auth cfg \<noteq> None then addSchema ''auth'' [''public''] else [''public'']);
          b = (if cfg_Storage cfg \<noteq> [] then addSchema ''storage'' a else a)
      in fold (\<lambda>(_, t). addSchema (EffectiveSchema t)) (cfg_Tables cfg) b)"

section \<open>Columns\<close>

definition allowedDefaults :: "string list" where
  "allowedDefaults = [''now()'', ''uuid_v7()'', ''uuid_v4()'', ''current_date'', ''current_time'']"

definition authDefaults :: "string list" where
  "authDefaults = [''auth.uid()'', ''auth.role()'', ''auth.email()'', ''auth.jwt()'']"

definition IsAllowedDefault :: "string \<Rightarrow> bool" where
  "IsAllowedDefault expr = (expr \<in> set allowedDefaults \<or> expr \<in> set authDefaults)"

definition formatDefault :: "gval \<Rightarrow> string" where
  "formatDefault val =
     (case val of
        GString v \<Rightarrow>
          (let lower = toLower v in
           if hasPrefix lower ''auth.'' then (if IsAllowedDefault lower then lower else sqlLiteral v)
           else if CHR ''('' \<in> set v \<or> lower = ''current_date'' \<or> lower = ''current_time'' then
             (if lower = ''uuid_v7()'' \<or> lower = ''uuid_v4()'' then ''gen_random_uuid()'' else v)
           else sqlLiteral v)
      | GBool b \<Rightarrow> (if b then ''TRUE'' else ''FALSE'')
      | GInt i \<Rightarrow> itoaInt i
      | GInt64 i \<Rightarrow> itoaInt i
      | GFloat f \<Rightarrow> f
      | GOther _ s \<Rightarrow> [CHR 0x27] @ s @ [CHR 0x27])"

definition formatColumn :: "string \<Rightarrow> Field \<Rightarrow> Table gmap \<Rightarrow> Column" where
  "formatColumn name field tables =
     \<lparr>cl_Name = name, cl_Type = EffectiveType field tables, cl_PrimaryKey = fld_PrimaryKey field,
      cl_Required = fld_Required field, cl_Default = map_option formatDefault (fld_Default field)\<rparr>"

definition fkOnDelete :: "ForeignKey \<Rightarrow> string" where
  "fkOnDelete fk =
     (if fk_OnDelete fk = [] then ''RESTRICT'' else toUpper (replaceAll (fk_OnDelete fk) (CHR ''_'') '' ''))"

definition deferSelfFK :: "string \<Rightarrow> Table \<Rightarrow> Field \<Rightarrow> bool" where
  "deferSelfFK name table f =
     (case fld_ForeignKey f of None \<Rightarrow> False
      | Some k \<Rightarrow>
          (case ParseFKReference (fk_References k) of
             Inl _ \<Rightarrow> False
           | Inr (schema, refTable, refCol) \<Rightarrow>
               if refTable \<noteq> name \<or> schema \<noteq> EffectiveSchema table then False
               else (case GetField table refCol of
                       None \<Rightarrow> False
                     | Some ref \<Rightarrow> \<not> fld_Unique ref \<and>
                         (\<not> fld_PrimaryKey ref \<or> length (PrimaryKeyColumns table) \<noteq> 1))))"

section \<open>Tables\<close>

definition foreignKeyConstraint :: "string \<Rightarrow> Table \<Rightarrow> Field \<Rightarrow> constr list" where
  "foreignKeyConstraint name table f =
     (case fld_ForeignKey f of None \<Rightarrow> []
      | Some k \<Rightarrow>
          (case ParseFKReference (fk_References k) of
             Inl e \<Rightarrow> [InvalidForeignKeyC e]
           | Inr (schema, refTable, refCol) \<Rightarrow>
               if deferSelfFK name table f then []
               else [ForeignKeyC (fld_Name f) schema refTable refCol (fkOnDelete k)]))"

definition checkConstraints :: "Field \<Rightarrow> constr list" where
  "checkConstraints f =
     (if fld_Enum f \<noteq> [] then [CheckIn (fld_Name f) (fld_Enum f)] else []) @
     (if fld_Pattern f \<noteq> [] then [CheckMatch (fld_Name f) (fld_Pattern f)] else []) @
     (case fld_Min f of None \<Rightarrow> [] | Some v \<Rightarrow> [CheckMin (fld_Name f) v]) @
     (case fld_Max f of None \<Rightarrow> [] | Some v \<Rightarrow> [CheckMax (fld_Name f) v]) @
     (if fld_Check f \<noteq> [] then [CheckRaw (fld_Check f)] else []) @
     (if fld_Unique f then [UniqueC (fld_Name f)] else [])"

definition pkFirst :: "Field list \<Rightarrow> Field list" where
  "pkFirst fs = sort_key (\<lambda>f. \<not> fld_PrimaryKey f) fs"

definition generateTable :: "string \<Rightarrow> Table \<Rightarrow> Table gmap \<Rightarrow> stmt list" where
  "generateTable name table allTables =
     (let fields = pkFirst (tbl_Fields table);
          pkCols = PrimaryKeyColumns table;
          composite = 1 < length pkCols;
          cols = map (\<lambda>f. formatColumn (fld_Name f)
                   (if composite then f\<lparr>fld_PrimaryKey := False\<rparr> else f) allTables) fields;
          constraints = concat (map (\<lambda>f. foreignKeyConstraint name table f @ checkConstraints f) fields)
      in [CreateTable (tableRel name table) cols
            (constraints @ (if composite then [PrimaryKeyC pkCols] else []))])"

definition deferredFK :: "string \<Rightarrow> Table \<Rightarrow> Field \<Rightarrow> stmt list" where
  "deferredFK name table f =
     (if \<not> deferSelfFK name table f then []
      else case fld_ForeignKey f of None \<Rightarrow> []
        | Some k \<Rightarrow>
            (case ParseFKReference (fk_References k) of Inl _ \<Rightarrow> []
             | Inr (schema, refTable, refCol) \<Rightarrow>
                 [AddDeferredFK (tableRel name table) (take 63 (FKConstraintName name (fld_Name f)))
                    (ForeignKeyC (fld_Name f) schema refTable refCol (fkOnDelete k))]))"

definition generateDeferredFKs :: "string \<Rightarrow> Table \<Rightarrow> stmt list" where
  "generateDeferredFKs name table = concat (map (deferredFK name table) (tbl_Fields table))"

definition indexName :: "string \<Rightarrow> Index \<Rightarrow> string" where
  "indexName name idx = ''idx_'' @ name @ ''_'' @ strJoin (ix_Columns idx) ''_''"

definition generateIndex :: "string \<Rightarrow> Table \<Rightarrow> Index \<Rightarrow> stmt" where
  "generateIndex name table idx =
     CreateIndex (ix_Unique idx) (indexName name idx) (tableRel name table)
       (if EffectiveMethod idx \<noteq> ''btree'' then '' USING '' @ ix_Method idx else [])
       (ix_Columns idx) (if ix_Where idx \<noteq> [] then '' WHERE '' @ ix_Where idx else [])"

definition generateIndexes :: "string \<Rightarrow> Table \<Rightarrow> stmt list" where
  "generateIndexes name table = map (generateIndex name table) (tbl_Indexes table)"

definition guardFuncName :: "string \<Rightarrow> Table \<Rightarrow> string" where
  "guardFuncName name t =
     (let fn = ''inz_guard_'' @ name;
          short = (if 63 < length fn then take 54 fn @ ''_'' @ take 8 (hexEncode (take 4 (sha256 fn))) else fn)
      in qualifiedTableName short t)"

definition generateGuards :: "string \<Rightarrow> Table \<Rightarrow> stmt list" where
  "generateGuards name table =
     (if \<not> HasGuards table then []
      else case GuardedFields table of (autoUpdated, immutable) \<Rightarrow>
        [CreateGuardFunction (guardFuncName name table) autoUpdated immutable,
         CreateGuardTrigger (tableRel name table) (guardFuncName name table)])"

section \<open>RPC functions\<close>

definition argText :: "FuncArg \<Rightarrow> string" where
  "argText a =
     CHR 0x22 # arg_Name a @ CHR 0x22 # '' '' @ arg_Type a @
     (case arg_Default a of
        None \<Rightarrow> []
      | Some d \<Rightarrow>
          (case d of
             GString s \<Rightarrow> if equalFold (trimSpace s) ''NULL'' then '' DEFAULT NULL''
                          else '' DEFAULT '' @ formatDefault d
           | _ \<Rightarrow> '' DEFAULT '' @ formatDefault d))"

definition setValue :: "string \<Rightarrow> string \<Rightarrow> string" where
  "setValue k v0 =
     (let v = trimSpace v0 in
      if k = ''search_path'' \<and> v = [] then [CHR 0x27, CHR 0x27]
      else if k = ''search_path'' then strJoin (map trimSpace (strSplit v (CHR '',''))) '', ''
      else [CHR 0x27] @ v @ [CHR 0x27])"

definition rpcSetClauses :: "string gmap \<Rightarrow> string" where
  "rpcSetClauses m =
     concat (map (\<lambda>k. nl @ ''SET '' @ k @ '' = '' @ setValue k (lookupOr [] m k)) (sortedKeys m))"

definition generateRPCFunction :: "string \<Rightarrow> Function \<Rightarrow> stmt" where
  "generateRPCFunction name fn = CreateFunction name
     (''CREATE OR REPLACE FUNCTION public.'' @ CHR 0x22 # name @ CHR 0x22 # ''('' @
      commas (map argText (fn_Args fn)) @ '')'' @ nl @
      ''RETURNS '' @ fr_Type (fn_Returns fn) @ nl @
      ''LANGUAGE '' @ toLower (fn_Language fn) @ nl @
      toUpper (fn_Volatility fn) @ nl @
      (if equalFold (fn_Security fn) ''definer'' then ''SECURITY DEFINER'' else ''SECURITY INVOKER'') @
      rpcSetClauses (fn_Set fn) @ nl @
      ''AS $ub$'' @ fn_Body fn @ ''$ub$;'')"

section \<open>Row-level security\<close>

definition rlsPolicyTypeClause :: "RLSPolicy \<Rightarrow> string" where
  "rlsPolicyTypeClause p = (if rls_Type p = ''restrictive'' then '' AS RESTRICTIVE'' else '' AS PERMISSIVE'')"

definition rlsClauses :: "string \<Rightarrow> string \<Rightarrow> string \<Rightarrow> string" where
  "rlsClauses op using withCheck =
     (if using \<noteq> [] \<and> op \<noteq> ''insert'' then '' USING ('' @ using @ '')'' else []) @
     (if withCheck \<noteq> [] \<and> op \<noteq> ''select'' \<and> op \<noteq> ''delete'' then '' WITH CHECK ('' @ withCheck @ '')'' else [])"

definition policyName :: "string \<Rightarrow> string \<Rightarrow> nat \<Rightarrow> string" where
  "policyName prefix op i = prefix @ ''_'' @ op @ ''_'' @ itoa i"

definition tablePolicy :: "string \<Rightarrow> Table \<Rightarrow> nat \<times> RLSPolicy \<Rightarrow> string \<Rightarrow> stmt list" where
  "tablePolicy name table ip op =
     (let n = policyName name op (fst ip); r = tableRel name table; p = snd ip in
      [DropPolicy n r,
       CreatePolicy n r (rlsPolicyTypeClause p) (toUpper op) (rlsClauses op (rls_Using p) (rls_WithCheck p))])"

definition tablePolicies :: "string \<Rightarrow> Table \<Rightarrow> nat \<times> RLSPolicy \<Rightarrow> stmt list" where
  "tablePolicies name table ip = concat (map (tablePolicy name table ip) (rls_Operations (snd ip)))"

definition generateRLSPolicies :: "string \<Rightarrow> Table \<Rightarrow> stmt list" where
  "generateRLSPolicies name table =
     (if \<not> EffectiveRLSEnabled table then []
      else [EnableRLS (tableRel name table), ForceRLS (tableRel name table)] @
        concat (map (tablePolicies name table) (List.enumerate 0 (tbl_RLS table))))"

abbreviation storageObjects :: relname where
  "storageObjects \<equiv> (''storage'', ''objects'')"

definition scopeToBucket :: "string \<Rightarrow> string \<Rightarrow> bool \<Rightarrow> string" where
  "scopeToBucket bucketName expr restrictive =
     (if expr = [] then []
      else if restrictive then
        ''bucket_id <> '' @ [CHR 0x27] @ bucketName @ [CHR 0x27] @ '' OR ('' @ expr @ '')''
      else ''bucket_id = '' @ [CHR 0x27] @ bucketName @ [CHR 0x27] @ '' AND ('' @ expr @ '')'')"

definition storagePolicy :: "string \<Rightarrow> nat \<times> RLSPolicy \<Rightarrow> string \<Rightarrow> stmt list" where
  "storagePolicy bucketName ip op =
     (let p = snd ip; restrictive = (rls_Type p = ''restrictive'');
          n = policyName (''storage_'' @ bucketName) op (fst ip)
      in [DropPolicy n storageObjects,
          CreatePolicy n storageObjects (rlsPolicyTypeClause p) (toUpper op)
            (rlsClauses op (scopeToBucket bucketName (rls_Using p) restrictive)
               (scopeToBucket bucketName (rls_WithCheck p) restrictive))])"

definition storagePolicies :: "string \<Rightarrow> nat \<times> RLSPolicy \<Rightarrow> stmt list" where
  "storagePolicies bucketName ip = concat (map (storagePolicy bucketName ip) (rls_Operations (snd ip)))"

definition generateStorageRLS :: "string \<Rightarrow> Bucket \<Rightarrow> stmt list" where
  "generateStorageRLS bucketName bucket =
     concat (map (storagePolicies bucketName) (List.enumerate 0 (bkt_RLS bucket)))"

definition publicSelectName :: "string \<Rightarrow> string" where
  "publicSelectName name = name @ ''_public_select''"

text \<open>The unguarded form; the guarded one of boot is \<open>dropPublicSelectGuarded\<close>.\<close>

definition dropPublicSelect :: "Bucket gmap \<Rightarrow> stmt list" where
  "dropPublicSelect storage = map (\<lambda>n. DropPolicy (publicSelectName n) storageObjects) (sortedKeys storage)"

definition dropPublicSelectGuarded :: "Bucket gmap \<Rightarrow> stmt list" where
  \<open>dropPublicSelectGuarded storage =
     (let body = map (\<lambda>n. sqlLines
            [''IF EXISTS (SELECT 1 FROM pg_policies WHERE schemaname = 'storage' AND tablename = 'objects' AND policyname = '' @
               [CHR 0x27] @ publicSelectName n @ [CHR 0x27] @ '') THEN'',
             ''DROP POLICY '' @ publicSelectName n @ '' ON storage.objects;'', ''END IF;'']) (sortedKeys storage)
      in if body = [] then [] else [Sql (sqlLines [''DO $$ BEGIN'', sqlLines body, ''END $$;''])])\<close>

definition openBucketPolicy :: "string \<Rightarrow> stmt list" where
  "openBucketPolicy name =
     (let n = name @ ''_default_all''; own = ''(bucket_id = '' @ [CHR 0x27] @ name @ [CHR 0x27] @ '')'' in
      [DropPolicy n storageObjects,
       CreatePolicy n storageObjects [] ''ALL'' ('' USING '' @ own @ '' WITH CHECK '' @ own)])"

definition bucketPolicies :: "bool \<Rightarrow> string \<Rightarrow> Bucket \<Rightarrow> stmt list" where
  "bucketPolicies anyRLS name bucket =
     (if bkt_RLS bucket \<noteq> [] then generateStorageRLS name bucket
      else if anyRLS then openBucketPolicy name else [])"

definition generateStorageRLSAll :: "Bucket gmap \<Rightarrow> stmt list" where
  "generateStorageRLSAll storage =
     (if storage = [] then []
      else let anyRLS = list_ex (\<lambda>(_, b). bkt_RLS b \<noteq> []) storage in
        dropPublicSelect storage @
        (if anyRLS then [EnableRLS storageObjects, ForceRLS storageObjects] else []) @
        concat (map (\<lambda>n. bucketPolicies anyRLS n (bucketOf storage n)) (sortedKeys storage)))"

end
