(* ===== verification/Config_Validate.thy ===== *)
theory Config_Validate
  imports Go_Regexp Go_Duration Sql_Check Migrate_Gen "HOL-Library.Word"
begin

text \<open>
  \<open>internal/config/validate.go\<close>: the checks every config passes before it is applied, and the warnings that
  never block. Each check returns its errors in the order the source appends them; where the source ranges over
  a map, the order of the association list stands for the order of one run. Reading a JWT (the Apple client
  secret) is a call of a package outside the sources: \<open>appleJWT\<close> is \<open>None\<close> for a text that does not parse, and
  else the time until its expiry, if it carries one. Line and column of an error are filled in elsewhere.
\<close>

type_synonym errs = "ValidationError list"
type_synonym jwtReader = "string \<Rightarrow> int option option"

definition verr :: "string \<Rightarrow> string \<Rightarrow> string \<Rightarrow> ValidationError" where
  "verr path msg sugg = \<lparr>ve_Path = path, ve_Message = msg, ve_Line = 0, ve_Column = 0, ve_Suggestion = sugg\<rparr>"

definition errIf :: "bool \<Rightarrow> string \<Rightarrow> string \<Rightarrow> string \<Rightarrow> errs" where
  "errIf b path msg sugg = (if b then [verr path msg sugg] else [])"

definition optErr :: "ValidationError option \<Rightarrow> errs" where
  "optErr e = (case e of None \<Rightarrow> [] | Some x \<Rightarrow> [x])"

section \<open>Identifiers\<close>

definition identRE :: rx where
  "identRE = Sq (Chr isLower) (upTo 62 (Chr (\<lambda>c. isLower c \<or> isDigit c \<or> c = CHR ''_'')))"

definition identRule :: string where
  "identRule = ''must start with a lowercase letter, followed by lowercase letters, digits, or underscores (max 63 chars)''"

definition reservedSQLKeywords :: "string list" where
  "reservedSQLKeywords =
    [''all'', ''analyse'', ''analyze'', ''and'', ''any'', ''array'', ''as'', ''asc'', ''asymmetric'', ''authorization'',
     ''binary'', ''both'', ''case'', ''cast'', ''check'', ''collate'', ''collation'', ''column'', ''concurrently'',
     ''constraint'', ''create'', ''cross'', ''current_catalog'', ''current_date'', ''current_role'', ''current_schema'',
     ''current_time'', ''current_timestamp'', ''current_user'', ''default'', ''deferrable'', ''desc'', ''distinct'',
     ''do'', ''else'', ''end'', ''except'', ''false'', ''fetch'', ''for'', ''foreign'', ''freeze'', ''from'', ''full'',
     ''grant'', ''group'', ''having'', ''ilike'', ''in'', ''initially'', ''inner'', ''intersect'', ''into'', ''is'',
     ''isnull'', ''join'', ''lateral'', ''leading'', ''left'', ''like'', ''limit'', ''localtime'', ''localtimestamp'',
     ''natural'', ''not'', ''notnull'', ''null'', ''offset'', ''on'', ''only'', ''or'', ''order'', ''outer'',
     ''overlaps'', ''placing'', ''primary'', ''references'', ''returning'', ''right'', ''select'', ''session_user'',
     ''similar'', ''some'', ''symmetric'', ''system_user'', ''table'', ''tablesample'', ''then'', ''to'', ''trailing'',
     ''true'', ''union'', ''unique'', ''user'', ''using'', ''variadic'', ''verbose'', ''when'', ''where'', ''window'',
     ''with'']"

definition validateIdent :: "string \<Rightarrow> string \<Rightarrow> ValidationError option" where
  "validateIdent path name =
     (if \<not> rxMatch identRE name then
        Some (verr path (''invalid identifier '' @ quoted name @ '': '' @ identRule) [])
      else if name \<in> set reservedSQLKeywords then
        Some (verr path (quoted name @ '' is a reserved SQL keyword'') ''Pick a different name (e.g. add a prefix or suffix)'')
      else None)"

section \<open>Types, defaults, sizes\<close>

definition strFieldsStep :: "string \<Rightarrow> nat" where
  "strFieldsStep s = (case find (hasPrefix s) goSpaces of None \<Rightarrow> 0 | Some w \<Rightarrow> length w)"

function strFields :: "string \<Rightarrow> string \<Rightarrow> string list" where
  "strFields acc [] = (if acc = [] then [] else [acc])"
| "strFields acc (c # cs) =
     (let n = strFieldsStep (c # cs) in
      if n = 0 then strFields (acc @ [c]) cs
      else (if acc = [] then [] else [acc]) @ strFields [] (drop n (c # cs)))"
  by pat_completeness auto
termination by (relation "measure (\<lambda>(_, s). length s)") auto

definition isTimestampType :: "string \<Rightarrow> bool" where
  "isTimestampType t0 =
     (let t = toLower t0;
          b = (case strIndex t ''('' of None \<Rightarrow> t | Some i \<Rightarrow> take i t) in
      strJoin (strFields [] b) '' '' \<in>
        {''timestamp'', ''timestamptz'', ''timestamp with time zone'', ''timestamp without time zone''})"

definition isStringType :: "string \<Rightarrow> bool" where
  "isStringType typ = (let lower = toLower typ in lower = ''text'' \<or> hasPrefix lower ''varchar'' \<or> hasPrefix lower ''char'')"

definition authDefaultTypes :: "string \<Rightarrow> (string \<Rightarrow> bool) option" where
  "authDefaultTypes expr =
     (if expr = ''auth.uid()'' then Some (\<lambda>t. t = ''uuid'')
      else if expr = ''auth.role()'' \<or> expr = ''auth.email()'' then Some isStringType
      else if expr = ''auth.jwt()'' then Some (\<lambda>t. t = ''jsonb'' \<or> t = ''json'')
      else None)"

definition validateFieldType :: "string \<Rightarrow> string \<Rightarrow> errs" where
  "validateFieldType path typ =
     (if typ = [] then []
      else let b0 = trimSuffix typ ''[]'';
               b1 = (case strIndex b0 ''('' of None \<Rightarrow> b0 | Some i \<Rightarrow> take i b0);
               base = toLower (trimSpace b1) in
        if base = ''double precision'' \<or> base = ''double'' then []
        else errIf (base \<notin> set validPostgresTypes) (path @ ''.type'') (''unknown type '' @ quoted typ) (didYouMean (suggestType base)))"

definition validateDefault :: "string \<Rightarrow> gval \<Rightarrow> string \<Rightarrow> errs" where
  "validateDefault path val colType =
     (case val of
        GString v \<Rightarrow>
          (let lower = toLower v in
           if CHR ''('' \<in> set v \<or> lower = ''current_date'' \<or> lower = ''current_time'' then
             (if \<not> IsAllowedDefault lower then
                [verr (path @ ''.default'') (''SQL expression '' @ quoted v @ '' is not in the allowed defaults list'')
                   ''Allowed: now(), uuid_v7(), uuid_v4(), current_date, current_time, auth.uid(), auth.role(), auth.email(), auth.jwt()'']
              else case authDefaultTypes lower of
                  Some fits \<Rightarrow> errIf (\<not> fits (toLower colType)) (path @ ''.default'')
                    (''default '' @ v @ '' does not fit column type '' @ colType) []
                | None \<Rightarrow> [])
           else [])
      | GOther t _ \<Rightarrow> [verr (path @ ''.default'') (''unsupported default value type '' @ t) []]
      | _ \<Rightarrow> [])"

definition sizeSuffix :: "string \<Rightarrow> string option" where
  "sizeSuffix s = find (hasSuffix s) [''KB'', ''MB'', ''GB'', ''TB'']"

definition isValidSize :: "string \<Rightarrow> bool" where
  "isValidSize s0 =
     (let s = toUpper (trimSpace s0) in
      case sizeSuffix s of
        None \<Rightarrow> False
      | Some suf \<Rightarrow> (let num = trimSpace (trimSuffix s suf) in num \<noteq> [] \<and> list_all (\<lambda>c. isDigit c \<or> c = CHR ''.'') num))"

section \<open>Providers and auth\<close>

definition validateProviders :: "Providers \<Rightarrow> errs" where
  "validateProviders p =
     (case prov_Email p of
        None \<Rightarrow> []
      | Some e \<Rightarrow>
          if ep_Type e \<notin> {''resend'', ''ses''} then
            [verr ''providers.email.type'' (''unknown email provider type '' @ quoted (ep_Type e)) ''Supported types: resend, ses'']
          else errIf (ep_APIKey e = []) ''providers.email.api_key'' ''required''
            ''Set the env var referenced here or add it to your .env file'') @
     (case prov_Storage p of
        None \<Rightarrow> []
      | Some s \<Rightarrow>
          if sp_Type s \<notin> {''s3'', ''local''} then
            [verr ''providers.storage.type'' (''unknown storage provider type '' @ quoted (sp_Type s)) ''Supported types: s3, local'']
          else errIf (sp_Type s = ''s3'' \<and> sp_Bucket s = []) ''providers.storage.bucket'' ''required for s3 provider''
            ''Set INSTANCEZ_S3_BUCKET in your environment or .env file'')"

definition validateProviderRequirements :: "Config \<Rightarrow> errs" where
  "validateProviderRequirements cfg =
     errIf (cfg_Storage cfg \<noteq> [] \<and> prov_Storage (cfg_Providers cfg) = None) ''providers.storage''
       ''storage buckets are configured but no storage provider is set'' ''Add a providers.storage block (type: s3 or local)'' @
     errIf ((case cfg_Auth cfg of None \<Rightarrow> False | Some a \<Rightarrow>
               (case auth_Email a of None \<Rightarrow> False | Some e \<Rightarrow> ae_VerifyEmail e)) \<and> prov_Email (cfg_Providers cfg) = None)
       ''providers.email'' ''auth.email.verify_email is true but no email provider is set''
       ''Add a providers.email block (type: resend), or set auth.email.verify_email: false''"

definition validateTemplate :: "string \<times> EmailTemplate \<Rightarrow> errs" where
  "validateTemplate nt =
     (case nt of (name, tmpl) \<Rightarrow>
      let path = ''auth.email.templates.'' @ name in
      if name \<notin> {''verification'', ''magiclink'', ''reset''} then
        [verr path (''unknown email template '' @ quoted name) ''Supported templates: verification, magiclink, reset'']
      else errIf (et_Subject tmpl = []) (path @ ''.subject'') ''subject is required'' [] @
        errIf (et_Body tmpl = [] \<and> et_BodyFile tmpl = []) path ''either body or body_file is required'' [] @
        errIf (et_Body tmpl \<noteq> [] \<and> et_BodyFile tmpl \<noteq> []) path ''specify body or body_file, not both'' [])"

definition idTokenOnlyProviders :: "string list" where
  "idTokenOnlyProviders = [''google'', ''apple'']"

definition unresolvedEnvPlaceholder :: string where
  "unresolvedEnvPlaceholder = ''placeholder''"

definition validateAppleSecret :: "jwtReader \<Rightarrow> string \<Rightarrow> ValidationError option" where
  "validateAppleSecret appleJWT secret =
     (if secret = [] \<or> secret = unresolvedEnvPlaceholder \<or> strContains secret [CHR ''$'', CHR 0x7B] then None
      else case appleJWT secret of
          None \<Rightarrow> Some (verr ''auth.oauth.apple.client_secret'' ''must be a JWT signed with your Apple .p8 key'' [])
        | Some _ \<Rightarrow> None)"

definition validateOAuth :: "jwtReader \<Rightarrow> bool \<Rightarrow> string \<times> OAuthProvider option \<Rightarrow> errs" where
  "validateOAuth appleJWT isLocal np =
     (case np of (name, None) \<Rightarrow> []
      | (name, Some p) \<Rightarrow>
          errIf (oa_ClientID p = []) (''auth.oauth.'' @ name @ ''.client_id'') ''required'' [] @
          errIf (oa_ClientSecret p = [] \<and> \<not> isLocal \<and> name \<notin> set idTokenOnlyProviders)
            (''auth.oauth.'' @ name @ ''.client_secret'') ''required'' [] @
          (if name = ''apple'' then optErr (validateAppleSecret appleJWT (oa_ClientSecret p)) else []))"

definition validateAuth :: "jwtReader \<Rightarrow> bool \<Rightarrow> Auth option \<Rightarrow> errs" where
  "validateAuth appleJWT isLocal auth =
     (case auth of
        None \<Rightarrow> []
      | Some a \<Rightarrow>
          (case auth_Email a of None \<Rightarrow> [] | Some e \<Rightarrow> concat (map validateTemplate (ae_Templates e))) @
          concat (map (validateOAuth appleJWT isLocal) (auth_OAuth a)))"

section \<open>Policies\<close>

definition rlsCheckDDLRE :: rx where
  "rlsCheckDDLRE = seqs [Many (Chr rxSpace), litFold ''create'', boundary]"

definition validateRLSExpr :: "string \<Rightarrow> string \<Rightarrow> errs" where
  "validateRLSExpr path expr =
     (if expr = [] then []
      else if CHR '';'' \<in> set expr then
        [verr path (''must be a single boolean expression without `;` '' @ [CHR 0xE2, CHR 0x80, CHR 0x94] @
           '' it is inserted into the generated CREATE POLICY statement'') ''Example: user_id = auth.uid()'']
      else if rxMatch rlsCheckDDLRE expr then
        [verr path (''must be a boolean expression, not a CREATE statement '' @ [CHR 0xE2, CHR 0x80, CHR 0x94] @
           '' instancez generates the policy DDL for you'') ''Keep only the expression, e.g. user_id = auth.uid()'']
      else (let r = checkSQLExpr expr in
        errIf (r \<noteq> []) path (''invalid SQL expression: '' @ r) ''Example: user_id = auth.uid()''))"

definition validRLSOps :: "string list" where
  "validRLSOps = [''select'', ''insert'', ''update'', ''delete'']"

definition validRLSTypes :: "string list" where
  "validRLSTypes = [[], ''permissive'', ''restrictive'']"

definition validatePolicy :: "string \<Rightarrow> nat \<times> RLSPolicy \<Rightarrow> errs" where
  "validatePolicy parentPath ip =
     (case ip of (i, p) \<Rightarrow>
      let ppath = parentPath @ ''.rls['' @ itoa i @ '']'';
          ops = rls_Operations p;
          hasSelectOrDelete = (''select'' \<in> set ops \<or> ''delete'' \<in> set ops);
          hasInsert = (''insert'' \<in> set ops);
          hasUpdate = (''update'' \<in> set ops);
          needsUsing = (hasSelectOrDelete \<or> hasUpdate);
          needsWithCheck = (hasInsert \<or> hasUpdate);
          hasUsing = (rls_Using p \<noteq> []);
          hasWithCheck = (rls_WithCheck p \<noteq> []);
          usingSatisfiedByAutoFill = (hasUpdate \<and> \<not> hasSelectOrDelete \<and> hasWithCheck \<and> rls_Type p = ''restrictive'');
          withCheckSatisfiedByAutoFill = (hasUpdate \<and> \<not> hasInsert \<and> hasUsing) in
      errIf (ops = []) (ppath @ ''.operations'') ''at least one operation is required'' [] @
      concat (map (\<lambda>op. errIf (op \<notin> set validRLSOps) (ppath @ ''.operations'') (''invalid operation '' @ quoted op)
        ''Supported: select, insert, update, delete'') ops) @
      errIf (rls_Type p \<notin> set validRLSTypes) (ppath @ ''.type'') (''invalid policy type '' @ quoted (rls_Type p))
        ''Supported: permissive, restrictive'' @
      validateRLSExpr (ppath @ ''.using'') (rls_Using p) @
      validateRLSExpr (ppath @ ''.with_check'') (rls_WithCheck p) @
      errIf (hasUsing \<and> \<not> needsUsing) (ppath @ ''.using'')
        ''using has no effect: none of the listed operations read it (select, update, delete)''
        ''Remove using, or add select/update/delete to operations'' @
      errIf (hasWithCheck \<and> \<not> needsWithCheck) (ppath @ ''.with_check'')
        ''with_check has no effect: none of the listed operations read it (insert, update)''
        ''Remove with_check, or add insert/update to operations'' @
      errIf (needsUsing \<and> \<not> hasUsing \<and> \<not> usingSatisfiedByAutoFill) (ppath @ ''.using'')
        ''using is required: select, delete, or update reads it and has no fallback'' [] @
      errIf (needsWithCheck \<and> \<not> hasWithCheck \<and> \<not> withCheckSatisfiedByAutoFill) (ppath @ ''.with_check'')
        ''with_check is required: insert or update reads it and has no fallback'' [])"

definition validateRLS :: "string \<Rightarrow> RLSPolicy list \<Rightarrow> errs" where
  "validateRLS parentPath policies = concat (map (validatePolicy parentPath) (List.enumerate 0 policies))"

section \<open>Tables\<close>

text \<open>\<open>seenFields\<close> maps a field name to the index where it was first seen.\<close>

definition checkForeignKey :: "string \<Rightarrow> ForeignKey \<Rightarrow> errs" where
  "checkForeignKey fkPath fk =
     (if fk_References fk = [] then [verr (fkPath @ ''.references'') ''references is required'' []]
      else case ParseFKReference (fk_References fk) of
          Inl _ \<Rightarrow> [verr (fkPath @ ''.references'') (''invalid reference '' @ quoted (fk_References fk))
            ''Use format: table.column or schema.table.column'']
        | Inr _ \<Rightarrow> []) @
     errIf (fk_OnDelete fk \<noteq> [] \<and> fk_OnDelete fk \<notin> {''cascade'', ''restrict'', ''set_null''}) (fkPath @ ''.on_delete'')
       (''invalid on_delete '' @ quoted (fk_OnDelete fk)) ''Supported: cascade, restrict, set_null''"

definition duplicateField :: "string \<Rightarrow> nat gmap \<Rightarrow> nat \<Rightarrow> Field \<Rightarrow> errs" where
  "duplicateField path seen i field =
     (if fld_Name field = [] then []
      else case map_of seen (fld_Name field) of
          None \<Rightarrow> []
        | Some first \<Rightarrow>
            [verr (path @ ''.fields['' @ itoa i @ '']'')
              (''duplicate field '' @ quoted (fld_Name field) @ '' (first at fields['' @ itoa first @ ''])'')
              ''Remove or rename one of them''])"

definition validateField :: "Table gmap \<Rightarrow> string \<Rightarrow> Field \<Rightarrow> errs" where
  "validateField tables path field =
     (let fpath = path @ ''.fields.'' @ fld_Name field in
      optErr (validateIdent fpath (fld_Name field)) @
      (if fld_RenamedFrom field \<noteq> [] then optErr (validateIdent (fpath @ ''.renamed_from'') (fld_RenamedFrom field)) else []) @
      errIf (fld_AutoUpdatedAt field \<and> \<not> isTimestampType (fld_Type field)) (fpath @ ''.auto_updated_at'')
        ''auto_updated_at requires a timestamp or timestamptz field'' ''Change the type to timestamptz'' @
      errIf (fld_AutoUpdatedAt field \<and> fld_Immutable field) (fpath @ ''.immutable'')
        ''a field cannot be both auto_updated_at and immutable'' ''Remove one of the two options'' @
      errIf (fld_ForeignKey field = None \<and> fld_Type field = []) fpath
        ''type is required (or use foreign_key to infer type)'' [] @
      (if fld_Type field \<noteq> [] then validateFieldType fpath (fld_Type field) else []) @
      (case fld_Default field of None \<Rightarrow> [] | Some v \<Rightarrow> validateDefault fpath v (EffectiveType field tables)) @
      (case fld_ForeignKey field of None \<Rightarrow> [] | Some fk \<Rightarrow> checkForeignKey (fpath @ ''.foreign_key'') fk) @
      errIf (fld_Enum field \<noteq> [] \<and> fld_Type field \<noteq> [] \<and> \<not> isStringType (fld_Type field)) (fpath @ ''.enum'')
        ''enum is only supported on text/varchar types'' [])"

fun validateFields :: "Table gmap \<Rightarrow> string \<Rightarrow> nat gmap \<Rightarrow> nat \<Rightarrow> Field list \<Rightarrow> errs" where
  "validateFields tables path seen i [] = []"
| "validateFields tables path seen i (f # fs) =
     duplicateField path seen i f @ validateField tables path f @
     validateFields tables path
       (if fld_Name f \<noteq> [] \<and> map_of seen (fld_Name f) = None then (fld_Name f, i) # seen else seen) (i + 1) fs"

definition validateIndex :: "string \<Rightarrow> Table \<Rightarrow> nat \<times> Index \<Rightarrow> errs" where
  "validateIndex path table ix =
     (case ix of (i, idx) \<Rightarrow>
      let idxPath = path @ ''.indexes['' @ itoa i @ '']'' in
      errIf (ix_Columns idx = []) idxPath ''index must have at least one column'' [] @
      (if EffectiveMethod idx \<notin> set IndexMethods then
         [verr (idxPath @ ''.method'') (''invalid index method '' @ quoted (ix_Method idx))
           (''Supported: '' @ strJoin IndexMethods '', '')]
       else errIf (ix_Unique idx \<and> EffectiveMethod idx \<noteq> ''btree'') (idxPath @ ''.method'')
         ''unique indexes only support the btree method'' []) @
      errIf (EffectiveMethod idx = ''hash'' \<and> 1 < length (ix_Columns idx)) (idxPath @ ''.method'')
        ''hash indexes support a single column'' [] @
      concat (map (\<lambda>col. errIf (GetField table col = None) idxPath
        (''column '' @ quoted col @ '' not found in table fields'')
        (''Add '' @ quoted col @ '' to the fields section or check spelling'')) (ix_Columns idx)))"

definition validateSchemaName :: "string \<Rightarrow> string \<Rightarrow> errs" where
  "validateSchemaName path schema =
     (if schema = [] then []
      else optErr (validateIdent (path @ ''.schema'') schema) @
        errIf (schema = ''auth'' \<or> schema = ''storage'') (path @ ''.schema'')
          (''schema '' @ quoted schema @ '' is reserved by the framework'')
          ''Use a different schema or omit it to default to public.'')"

text \<open>The map \<open>reservedTableNames\<close> is empty, so its check never reports. The two \<open>continue\<close>s skip the rest.\<close>

definition validateTable :: "Auth option \<Rightarrow> Table gmap \<Rightarrow> string \<times> Table \<Rightarrow> errs" where
  "validateTable auth tables nt =
     (case nt of (name, table) \<Rightarrow>
      let path = ''tables.'' @ name;
          isAuthUsers = (name = ''users'' \<and> auth \<noteq> None) in
      optErr (validateIdent path name) @
      (if tbl_RenamedFrom table \<noteq> [] then optErr (validateIdent (path @ ''.renamed_from'') (tbl_RenamedFrom table)) else []) @
      validateSchemaName path (tbl_Schema table) @
      (if tbl_Schema table = ''auth'' \<or> tbl_Schema table = ''storage'' then []
       else if tbl_Fields table = [] \<and> \<not> isAuthUsers then [verr path ''table must have at least one field'' []]
       else
         validateFields tables path [] 0 (tbl_Fields table) @
         errIf (\<not> list_ex fld_PrimaryKey (tbl_Fields table) \<and> \<not> isAuthUsers) path
           ''table must have a primary key'' ''Add primary_key: true to one of the fields'' @
         concat (map (validateIndex path table) (List.enumerate 0 (tbl_Indexes table))) @
         errIf (tbl_RLSEnabled table = Some False \<and> tbl_RLS table \<noteq> []) (path @ ''.rls_enabled'')
           ''rls_enabled is false but the table declares rls policies, which would never apply''
           ''Set rls_enabled: true, or remove the rls policies'' @
         validateRLS path (tbl_RLS table)))"

definition validateTables :: "Table gmap \<Rightarrow> Auth option \<Rightarrow> errs" where
  "validateTables tables auth = concat (map (validateTable auth tables) tables)"

section \<open>Storage\<close>

definition reservedBucketNames :: "string list" where
  "reservedBucketNames = [''public'', ''sign'', ''authenticated'', ''info'', ''upload'', ''list'', ''move'', ''copy'']"

definition validateBucket :: "string \<times> Bucket \<Rightarrow> errs" where
  "validateBucket nb =
     (case nb of (name, bucket) \<Rightarrow>
      let path = ''storage.'' @ name in
      (case validateIdent path name of
         Some e \<Rightarrow> [e]
       | None \<Rightarrow> errIf (name \<in> set reservedBucketNames) path
           (''bucket name '' @ quoted name @ '' is reserved: /storage/v1/object/'' @ name @ ''/... is a storage route'')
           ''Pick a different bucket name (e.g. add a prefix or suffix)'') @
      errIf (name = ''v1'') path
        (''bucket name '' @ quoted ''v1'' @ '' is reserved: /storage/v1 is the Supabase-compatible namespace'')
        ''Pick a different bucket name'' @
      validateRLS path (bkt_RLS bucket) @
      (if bkt_MaxSize bucket \<noteq> [] then
         errIf (\<not> isValidSize (bkt_MaxSize bucket)) (path @ ''.max_size'') (''invalid size '' @ quoted (bkt_MaxSize bucket))
           ''Use format like 2MB, 50MB, 1GB'' else []))"

definition validateStorage :: "Bucket gmap \<Rightarrow> errs" where
  "validateStorage storage = concat (map validateBucket storage)"

section \<open>RPC functions\<close>

definition typeChar :: "char \<Rightarrow> bool" where
  "typeChar c = (isAlpha c \<or> isDigit c \<or> c \<in> {CHR ''_'', CHR '' '', CHR '','', CHR ''.'', CHR ''('', CHR '')'', CHR 0x5B, CHR 0x5D})"

definition dbFunctionTypeRE :: rx where
  "dbFunctionTypeRE = Sq (Chr typeChar) (upTo 255 (Chr typeChar))"

definition rpcReturnTypeRE :: rx where
  "rpcReturnTypeRE = Many1 (Chr typeChar)"

definition identLower :: rx where
  "identLower = Sq (Chr (\<lambda>c. isLower c \<or> c = CHR ''_'')) (Many (Chr (\<lambda>c. isLower c \<or> isDigit c \<or> c = CHR ''_'')))"

definition rpcTypeTokenRE :: rx where
  "rpcTypeTokenRE = seqs [identLower, Opt (Sq (lit ''.'') identLower),
     Opt (seqs [lit ''('', Many (Chr (\<lambda>c. isDigit c \<or> c = CHR '','' \<or> c = CHR '' '')), lit '')'']), Opt (lit ''[]'')]"

definition rpcColumnNameRE :: rx where
  "rpcColumnNameRE = Sq (Chr (\<lambda>c. isAlpha c \<or> c = CHR ''_'')) (Many (Chr isWord))"

definition pgIdentOrUser :: rx where
  "pgIdentOrUser = Alt (lit ([CHR 0x22] @ ''$user'' @ [CHR 0x22]))
     (Sq (Chr (\<lambda>c. isLower c \<or> c = CHR ''_'')) (upTo 62 (Chr (\<lambda>c. isLower c \<or> isDigit c \<or> c = CHR ''_''))))"

definition ws :: rx where
  "ws = Many (Chr rxSpace)"

definition searchPathRE :: rx where
  "searchPathRE = Alt ws (seqs [ws, pgIdentOrUser, Many (seqs [ws, lit '','', ws, pgIdentOrUser]), ws])"

definition digits10 :: rx where
  "digits10 = Sq (Chr isDigit) (upTo 9 (Chr isDigit))"

definition rpcTimeoutRE :: rx where
  "rpcTimeoutRE = Sq digits10 (Opt (alts [lit ''ms'', lit ''s'', lit ''min'', lit ''h'', lit ''d'']))"

definition workMemRE :: rx where
  "workMemRE = Sq digits10 (Opt (alts [lit ''kB'', lit ''MB'', lit ''GB'', lit ''TB'']))"

definition rpcTimeoutUnits :: "int gmap" where
  "rpcTimeoutUnits = [([], 1), (''ms'', 1), (''s'', 1000), (''min'', 60000), (''h'', 3600000), (''d'', 86400000)]"

definition rpcMemUnits :: "int gmap" where
  "rpcMemUnits = [([], 1), (''kB'', 1), (''MB'', 2 ^ 10), (''GB'', 2 ^ 20), (''TB'', 2 ^ 30)]"

text \<open>
  The product is taken in 64 bits; a unit that is not in the map counts 0.
\<close>

definition rpcSetInRange :: "string \<Rightarrow> int gmap \<Rightarrow> int \<Rightarrow> bool" where
  "rpcSetInRange v units lo =
     (let ds = takeWhile isDigit v; unit = dropWhile isDigit v in
      case atoi ds of
        None \<Rightarrow> False
      | Some n \<Rightarrow>
          if 2 ^ 31 - 1 < n then False
          else let m = (word_of_int n :: 64 word) * word_of_int (case map_of units unit of None \<Rightarrow> 0 | Some u \<Rightarrow> u) in
            lo \<le> sint m \<and> sint m \<le> 2 ^ 31 - 1)"

datatype rpcSetRule = SetRule (setRE: rx) (setHint: string) (setUnits: "int gmap option") (setMin: int)

definition rpcSetRules :: "string \<Rightarrow> rpcSetRule option" where
  "rpcSetRules k =
     (if k = ''search_path'' then Some (SetRule searchPathRE
        (''Comma-separated lowercase schema names or '' @ [CHR 0x22] @ ''$user'' @ [CHR 0x22] @ '', or '' @
         [CHR 0x22, CHR 0x22] @ '' for an empty path'') None 0)
      else if k = ''statement_timeout'' \<or> k = ''lock_timeout'' then Some (SetRule rpcTimeoutRE
        ''0 to 2147483647 milliseconds, optionally with ms, s, min, h or d (at most 24d)'' (Some rpcTimeoutUnits) 0)
      else if k = ''work_mem'' then Some (SetRule workMemRE
        ''64 to 2147483647 kB, optionally with kB, MB, GB or TB (under 2TB)'' (Some rpcMemUnits) 64)
      else None)"

definition validateSetting :: "string \<Rightarrow> string gmap \<Rightarrow> string \<Rightarrow> errs" where
  "validateSetting path settings k =
     (let v = (case map_of settings k of None \<Rightarrow> [] | Some x \<Rightarrow> x) in
      case rpcSetRules k of
        None \<Rightarrow> [verr (path @ ''.set.'' @ k) (''unsupported setting '' @ quoted k)
          ''Supported: lock_timeout, search_path, statement_timeout, work_mem'']
      | Some rule \<Rightarrow>
          errIf (\<not> rxMatch (setRE rule) v \<or>
              (case setUnits rule of None \<Rightarrow> False | Some units \<Rightarrow> \<not> rpcSetInRange v units (setMin rule)))
            (path @ ''.set.'' @ k) (''invalid '' @ k @ '' '' @ quoted v) (setHint rule))"

definition multiwordScalarTypes :: "string list" where
  "multiwordScalarTypes = [''double precision'', ''character varying'', ''bit varying'', ''timestamp without time zone'',
     ''timestamp with time zone'', ''time without time zone'', ''time with time zone'']"

definition isRPCTypeToken :: "string \<Rightarrow> bool" where
  "isRPCTypeToken s0 =
     (let s = toLower (trimSpace s0) in
      trimSuffix s ''[]'' \<in> set multiwordScalarTypes \<or> rxMatch rpcTypeTokenRE s)"

text \<open>The pieces are cut from the right end of the scan: \<open>cur\<close> is the piece being read.\<close>

fun splitCommas :: "nat \<Rightarrow> string \<Rightarrow> string \<Rightarrow> string list" where
  "splitCommas depth cur [] = [cur]"
| "splitCommas depth cur (c # cs) =
     (if c = CHR ''('' then splitCommas (depth + 1) (cur @ [c]) cs
      else if c = CHR '')'' then splitCommas (depth - 1) (cur @ [c]) cs
      else if c = CHR '','' \<and> depth = 0 then cur # splitCommas depth [] cs
      else splitCommas depth (cur @ [c]) cs)"

definition splitTopLevelCommas :: "string \<Rightarrow> string list" where
  "splitTopLevelCommas s = splitCommas 0 [] s"

definition strLastIndex :: "string \<Rightarrow> char \<Rightarrow> nat option" where
  "strLastIndex s c = (case strIndex (rev s) [c] of None \<Rightarrow> None | Some i \<Rightarrow> Some (length s - 1 - i))"

definition validTableColumn :: "string \<Rightarrow> bool" where
  "validTableColumn col =
     (let parts = strFields [] (trimSpace col) in
      2 \<le> length parts \<and> rxMatch rpcColumnNameRE (parts ! 0))"

definition validateRPCTableReturn :: "string \<Rightarrow> string \<Rightarrow> string \<Rightarrow> ValidationError option" where
  "validateRPCTableReturn path t raw =
     (let invalid = verr path (''invalid table(...) return type '' @ quoted raw) ''e.g. table(id int, name text)'' in
      case (strIndex t ''('', strLastIndex t (CHR '')'')) of
        (Some op, Some en) \<Rightarrow>
          (if en < op \<or> trimSpace (drop (en + 1) t) \<noteq> [] then Some invalid
           else let inner = trimSpace (take (en - (op + 1)) (drop (op + 1) t)) in
             if inner = [] then Some invalid
             else if list_all validTableColumn (splitTopLevelCommas inner) then None else Some invalid)
      | _ \<Rightarrow> Some invalid)"

definition validateRPCReturnType :: "string \<Rightarrow> string \<Rightarrow> ValidationError option" where
  "validateRPCReturnType path raw =
     (let t = trimSpace raw; lower = toLower t in
      if t = [] then
        Some (verr path (''returns.type is required (use '' @ quoted ''void'' @ '' for no return value)'') [])
      else if \<not> rxMatch rpcReturnTypeRE t then Some (verr path (''invalid return type '' @ quoted raw) [])
      else if lower = ''setof'' \<or> hasPrefix lower ''setof '' then
        (if \<not> isRPCTypeToken (trimSpace (drop 5 t)) then
           Some (verr path (''setof requires a table or type name, got '' @ quoted raw) ''e.g. setof todos'')
         else None)
      else if hasPrefix lower ''table('' \<or> hasPrefix lower ''table ('' then validateRPCTableReturn path t raw
      else if \<not> isRPCTypeToken t then Some (verr path (''invalid return type '' @ quoted raw) [])
      else None)"

definition rpcBodyDDLRE :: rx where
  "rpcBodyDDLRE = seqs [ws, Many (seqs [lit ''--'', Many (Chr (\<lambda>c. c \<noteq> CHR 0x0A)), lit [CHR 0x0A], ws]), litFold ''create'',
     Many1 (Chr rxSpace), Opt (seqs [litFold ''or'', Many1 (Chr rxSpace), litFold ''replace'', Many1 (Chr rxSpace)]),
     litFold ''function'', boundary]"

function skipNested :: "nat \<Rightarrow> string \<Rightarrow> string option" where
  "skipNested depth s =
     (if depth = 0 then Some s
      else if s = [] then None
      else if hasPrefix s ''/*'' then skipNested (depth + 1) (drop 2 s)
      else if hasPrefix s ''*/'' then skipNested (depth - 1) (drop 2 s)
      else skipNested depth (tl s))"
  by pat_completeness auto
termination by (relation "measure (\<lambda>(_, s). length s)") auto

declare skipNested.simps [simp del]

lemma skipNested_length: "skipNested d s = Some r \<Longrightarrow> length r \<le> length s"
proof (induction d s arbitrary: r rule: skipNested.induct)
  case (1 d s)
  have l: "length (drop 2 s) \<le> length s" "length (tl s) \<le> length s" by simp_all
  consider "d = 0" | "d \<noteq> 0" "s = []" | "d \<noteq> 0" "s \<noteq> []" "hasPrefix s ''/*''"
    | "d \<noteq> 0" "s \<noteq> []" "\<not> hasPrefix s ''/*''" "hasPrefix s ''*/''"
    | "d \<noteq> 0" "s \<noteq> []" "\<not> hasPrefix s ''/*''" "\<not> hasPrefix s ''*/''" by blast
  then have "r = s \<or> length r \<le> length (drop 2 s) \<or> length r \<le> length (tl s)"
  proof cases
    case 3
    with 1(1) [OF 3] 1(4) show ?thesis by (simp add: skipNested.simps [of d s])
  next
    case 4
    with 1(2) [OF 4] 1(4) show ?thesis by (simp add: skipNested.simps [of d s])
  next
    case 5
    with 1(3) [OF 5] 1(4) show ?thesis by (simp add: skipNested.simps [of d s])
  qed (use 1(4) in \<open>auto simp: skipNested.simps [of d s] skipNested.simps [of 0 s] skipNested.simps [of d "[]"]\<close>)
  then show ?case using l by (metis le_trans order_refl)
qed

text \<open>A letter run followed by a digit, underscore, dollar sign or non-ASCII byte is no keyword.\<close>

definition sqlWord :: "string \<Rightarrow> string \<times> string" where
  "sqlWord s =
     (let w = takeWhile isAlpha s; r = dropWhile isAlpha s in
      if r \<noteq> [] \<and> (hd r = CHR ''_'' \<or> hd r = CHR ''$'' \<or> isDigit (hd r) \<or> 128 \<le> (of_char (hd r) :: nat)) then ([], s)
      else (toLower w, r))"

lemma sqlWord_length: "sqlWord s = (w, r) \<Longrightarrow> w \<noteq> [] \<Longrightarrow> length r < length s"
proof -
  assume s: "sqlWord s = (w, r)" "w \<noteq> []"
  then have "takeWhile isAlpha s \<noteq> []" "r = dropWhile isAlpha s" by (auto simp: sqlWord_def Let_def split: if_splits)
  then show ?thesis using length_append [of "takeWhile isAlpha s" "dropWhile isAlpha s"] by simp
qed

function sqlBodyLead :: "string \<Rightarrow> string \<times> string" where
  "sqlBodyLead body =
     (if body = [] then ([], [])
      else if hd body \<in> set [CHR '' '', CHR 0x09, CHR 0x0A, CHR 0x0D, CHR 0x0C, CHR 0x0B, CHR '';''] then sqlBodyLead (tl body)
      else if hasPrefix body ''--'' then
        (case dropWhile (\<lambda>c. c \<noteq> CHR 0x0D \<and> c \<noteq> CHR 0x0A) body of
           [] \<Rightarrow> ([], []) | _ # rest \<Rightarrow> sqlBodyLead rest)
      else if hasPrefix body ''/*'' then
        (case skipNested 1 (drop 2 body) of None \<Rightarrow> ([], []) | Some rest \<Rightarrow> sqlBodyLead rest)
      else if hd body = CHR ''('' then (''('', [])
      else case sqlWord body of (word, rest) \<Rightarrow>
        if word = [] then ([], []) else (word, fst (sqlBodyLead rest)))"
  by pat_completeness auto
termination
proof (relation "measure length", goal_cases)
  case (3 body x rest)
  then have "length (x # rest) \<le> length body" by (metis length_dropWhile_le)
  then show ?case by simp
next
  case (4 body rest)
  then show ?case by (auto simp: neq_Nil_conv hasPrefix_iff dest: skipNested_length)
next
  case (5 body p word)
  then have "sqlWord body = (p, word)" "p \<noteq> []" by simp_all
  from sqlWord_length [OF this] show ?case by simp
qed auto

declare sqlBodyLead.simps [simp del]

definition sqlBodyTxControl :: "string list" where
  "sqlBodyTxControl = [''abort'', ''begin'', ''commit'', ''end'', ''rollback'', ''savepoint'', ''release'', ''start'']"

definition sqlBodyCommands :: "string list" where
  "sqlBodyCommands = [''alter'', ''analyse'', ''analyze'', ''call'', ''checkpoint'', ''close'', ''cluster'', ''comment'',
     ''copy'', ''create'', ''deallocate'', ''declare'', ''delete'', ''discard'', ''do'', ''drop'', ''execute'', ''explain'',
     ''fetch'', ''grant'', ''import'', ''insert'', ''listen'', ''load'', ''lock'', ''merge'', ''move'', ''notify'',
     ''prepare'', ''reassign'', ''refresh'', ''reindex'', ''reset'', ''revoke'', ''security'', ''select'', ''set'', ''show'',
     ''table'', ''truncate'', ''unlisten'', ''update'', ''vacuum'', ''values'', ''with'']"

definition validateSQLBody :: "string \<Rightarrow> Function \<Rightarrow> errs" where
  "validateSQLBody path fn =
     (if equalFold (fn_Language fn) ''sql'' \<and> fn_Body fn \<noteq> [] then
        (let (lead, nxt) = sqlBodyLead (fn_Body fn) in
         if lead \<in> set sqlBodyTxControl \<or> (lead = ''prepare'' \<and> nxt = ''transaction'') then
           [verr (path @ ''.body'')
              (toUpper lead @ (if lead = ''prepare'' then '' TRANSACTION'' else []) @ '' is not allowed in a language sql body'')
              ''Use language plpgsql for BEGIN ... END blocks; transaction control is not allowed inside functions'']
         else errIf (lead \<noteq> ''('' \<and> lead \<notin> set sqlBodyCommands) (path @ ''.body'')
           ''language sql body must start with a SQL command (SELECT, WITH, INSERT, UPDATE, DELETE, VALUES, CALL, ...)''
           ''Prefix the expression with SELECT, or use language plpgsql with BEGIN ... END'')
      else [])"

definition dollarTagUB :: string where
  "dollarTagUB = ''$ub$''"

fun validateArgs :: "string \<Rightarrow> string list \<Rightarrow> nat \<Rightarrow> FuncArg list \<Rightarrow> errs" where
  "validateArgs path seen i [] = []"
| "validateArgs path seen i (arg # as) =
     (let argPath = path @ ''.args['' @ itoa i @ '']'' in
      case validateIdent (argPath @ ''.name'') (arg_Name arg) of
        Some e \<Rightarrow> e # validateArgs path seen (i + 1) as
      | None \<Rightarrow>
          errIf (arg_Name arg \<in> set seen) (argPath @ ''.name'') (''duplicate arg name '' @ quoted (arg_Name arg)) [] @
          (if arg_Type arg = [] then [verr (argPath @ ''.type'') ''type is required'' []]
           else errIf (\<not> rxMatch dbFunctionTypeRE (arg_Type arg)) (argPath @ ''.type'')
             (''invalid type '' @ quoted (arg_Type arg)) []) @
          validateArgs path (arg_Name arg # seen) (i + 1) as)"

definition validateRPCFunction :: "string \<Rightarrow> string \<Rightarrow> Function \<Rightarrow> errs" where
  "validateRPCFunction path name fn =
     (case validateIdent path name of
        Some e \<Rightarrow> [e]
      | None \<Rightarrow>
          errIf (fn_Body fn = []) (path @ ''.body'') ''body is required'' [] @
          errIf (strContains (fn_Body fn) dollarTagUB) (path @ ''.body'')
            ''body must not contain the reserved dollar-quote tag $ub$'' ''Rename any local dollar-quoted literals'' @
          errIf (rxMatch rpcBodyDDLRE (fn_Body fn)) (path @ ''.body'')
            (''body must be the bare function body '' @ [CHR 0xE2, CHR 0x80, CHR 0x94] @
             '' instancez wraps it in CREATE OR REPLACE FUNCTION for you'')
            ''Remove the CREATE OR REPLACE FUNCTION ... AS $$ wrapper and keep only the body between the dollar quotes'' @
          validateSQLBody path fn @
          optErr (validateRPCReturnType (path @ ''.returns.type'') (fr_Type (fn_Returns fn))) @
          errIf (toLower (fn_Language fn) \<notin> {''sql'', ''plpgsql''}) (path @ ''.language'')
            (''unsupported language '' @ quoted (fn_Language fn)) ''Supported: sql, plpgsql'' @
          errIf (toLower (fn_Volatility fn) \<notin> {''volatile'', ''stable'', ''immutable''}) (path @ ''.volatility'')
            (''invalid volatility '' @ quoted (fn_Volatility fn)) ''Supported: volatile, stable, immutable'' @
          errIf (toLower (fn_Security fn) \<notin> {''invoker'', ''definer''}) (path @ ''.security'')
            (''invalid security '' @ quoted (fn_Security fn)) ''Supported: invoker (default), definer'' @
          validateArgs path [] 0 (fn_Args fn) @
          concat (map (validateSetting path (fn_Set fn)) (sortedKeys (fn_Set fn))))"

definition validateRPC :: "Function gmap \<Rightarrow> errs" where
  "validateRPC functions = concat (map (\<lambda>(name, fn). validateRPCFunction (''rpc.'' @ name) name fn) functions)"

section \<open>Code functions\<close>

definition codeFunctionNameRE :: rx where
  "codeFunctionNameRE = Sq (Chr (\<lambda>c. isAlpha c \<or> isDigit c)) (Many (Chr (\<lambda>c. isWord c \<or> c = CHR ''-'')))"

definition validateCodeFunction :: "string \<times> CodeFunction \<Rightarrow> errs" where
  "validateCodeFunction nf =
     (case nf of (name, fn) \<Rightarrow>
      let path = ''functions.'' @ name in
      if cf_Runtime fn = [] \<and> cf_File fn = [] then
        [verr path (''function '' @ quoted name @ '': runtime and file are required'')
          ''If this is a Postgres function, move it to the `rpc:` block.'']
      else
        errIf (\<not> rxMatch codeFunctionNameRE name) path (''invalid function name '' @ quoted name)
          ''Use letters, digits, hyphens or underscores; must not start with a hyphen.'' @
        errIf (cf_Runtime fn \<noteq> ''node'') (path @ ''.runtime'') (''unsupported runtime '' @ quoted (cf_Runtime fn))
          (''Supported: '' @ quoted ''node'') @
        errIf (cf_File fn = []) (path @ ''.file'') ''file is required'' [] @
        (if cf_Timeout fn \<noteq> [] then
           (case ParseDuration (cf_Timeout fn) of
              Inl err \<Rightarrow> [verr (path @ ''.timeout'') (''invalid timeout '' @ quoted (cf_Timeout fn) @ '': '' @ err)
                (''Use a Go duration string, e.g. '' @ quoted ''30s'' @ '', '' @ quoted ''1m30s'')]
            | Inr _ \<Rightarrow> [])
         else []))"

definition validateCodeFunctions :: "CodeFunction gmap \<Rightarrow> errs" where
  "validateCodeFunctions functions = concat (map validateCodeFunction functions)"

text \<open>\<open>fileMissing\<close> is the answer of the file system on the path joined to the project directory.\<close>

definition ValidateFunctionFiles :: "(string \<Rightarrow> bool) \<Rightarrow> Config \<Rightarrow> errs" where
  "ValidateFunctionFiles fileMissing cfg =
     concat (map (\<lambda>(name, fn).
       errIf (cf_File fn \<noteq> [] \<and> fileMissing (cf_File fn)) (''functions.'' @ name @ ''.file'')
         (''file '' @ quoted (cf_File fn) @ '' not found'')
         (''Create '' @ cf_File fn @ '' relative to the project directory, or check the path'')) (cfg_Functions cfg))"

section \<open>Foreign keys\<close>

definition systemField :: "string \<Rightarrow> bool \<Rightarrow> Field" where
  "systemField typ pk = zeroField\<lparr>fld_Type := typ, fld_PrimaryKey := pk\<rparr>"

definition uniqueSystemTargets :: "Field gmap gmap" where
  "uniqueSystemTargets =
     [(''auth.users'', [(''id'', systemField ''uuid'' True), (''email'', systemField ''text'' False)]),
      (''auth.identities'', [(''id'', systemField ''bigint'' True)]),
      (''auth.refresh_tokens'', [(''id'', systemField ''bigint'' True)]),
      (''auth.mfa_factors'', [(''id'', systemField ''uuid'' True)]),
      (''auth.mfa_challenges'', [(''id'', systemField ''uuid'' True)]),
      (''auth.flow_state'', [(''id'', systemField ''uuid'' True)]),
      (''storage.objects'', [(''id'', systemField ''uuid'' True)])]"

text \<open>The source's \<open>fkTarget\<close>; \<open>known\<close> says whether the table is resolved in a checked schema.\<close>

record fkRef =
  ref_schema :: string
  ref_table :: string
  ref_col :: string
  ref_fields :: "Field gmap"
  ref_known :: bool
  ref_err :: "ValidationError option"
  ref_warn :: "ValidationError option"

definition fkSchemas :: "Table gmap \<Rightarrow> string list" where
  "fkSchemas tables = sort (remdups ([''public'', ''auth'', ''storage''] @ map (\<lambda>(_, t). EffectiveSchema t) tables))"

definition systemColumns :: "bool \<Rightarrow> string \<Rightarrow> Field gmap option" where
  "systemColumns emailAuth full =
     (if full = ''auth.one_time_tokens'' \<and> emailAuth then Some [(''id'', systemField ''bigint'' True)]
      else map_of uniqueSystemTargets full)"

definition resolveDeclared :: "Table gmap \<Rightarrow> fkRef \<Rightarrow> string \<Rightarrow> fkRef" where
  "resolveDeclared tables t path =
     (let schema = ref_schema t; table = ref_table t; col = ref_col t;
          fail = (\<lambda>msg sugg. Some (verr path msg sugg)) in
      case map_of tables table of
        Some tb \<Rightarrow>
          if EffectiveSchema tb = schema then
            t\<lparr>ref_fields := FieldMap tb, ref_known := True,
              ref_err := (if mapHas (FieldMap tb) col then None else
                fail (''references '' @ table @ ''.'' @ col @ '' but column '' @ quoted col @
                  '' does not exist on table '' @ quoted table) [])\<rparr>
          else if schema = ''public'' then
            t\<lparr>ref_err := fail (''table '' @ quoted table @ '' is in schema '' @ quoted (EffectiveSchema tb))
                (''Reference it as '' @ EffectiveSchema tb @ ''.'' @ table @ ''.'' @ col)\<rparr>
          else t\<lparr>ref_warn := fail (''table '' @ quoted table @ '' is not declared in schema '' @ quoted schema @
              '', so the reference is not checked'') []\<rparr>
      | None \<Rightarrow>
          if schema \<noteq> ''public'' then
            t\<lparr>ref_warn := fail (''table '' @ quoted table @ '' is not declared in schema '' @ quoted schema @
              '', so the reference is not checked'') []\<rparr>
          else t\<lparr>ref_err := fail (''references table '' @ quoted table @ '' which does not exist'')
              (if table = ''users'' then ''did you mean auth.users.'' @ col @ ''?''
               else ''Define a '' @ quoted table @ '' table or check spelling'')\<rparr>)"

definition resolveFK :: "Table gmap \<Rightarrow> string list \<Rightarrow> bool \<Rightarrow> string \<Rightarrow> string \<Rightarrow> fkRef option" where
  "resolveFK tables schemas emailAuth ref path =
     (case ParseFKReference ref of
        Inl _ \<Rightarrow> None
      | Inr (schema, table, col) \<Rightarrow>
          (let t = \<lparr>ref_schema = schema, ref_table = table, ref_col = col, ref_fields = [], ref_known = False,
                 ref_err = None, ref_warn = None\<rparr>;
               full = schema @ ''.'' @ table;
               fail = (\<lambda>msg sugg. t\<lparr>ref_err := Some (verr path msg sugg)\<rparr>) in
           Some (case systemColumns emailAuth full of
             Some cols \<Rightarrow>
               (case map_of cols col of
                  Some f \<Rightarrow> t\<lparr>ref_fields := [(col, f)], ref_known := True\<rparr>
                | None \<Rightarrow> fail (full @ ''.'' @ col @ '' has no unique constraint, so Postgres rejects the foreign key'')
                    (''Reference '' @ full @ ''.id instead''))
           | None \<Rightarrow>
               if schema = ''auth'' \<or> schema = ''storage'' then
                 t\<lparr>ref_warn := Some (verr path (full @ '' is not checked: instancez cannot verify it has a unique column '' @
                   quoted col) [])\<rparr>
               else if schema \<notin> set schemas then
                 (let near = closest schema schemas;
                      sugg = (if near = [] then [] else ''did you mean '' @ near @ ''.'' @ table @ ''.'' @ col @ ''?'') in
                  if near = ''auth'' \<or> near = ''storage'' then fail (''unknown schema '' @ quoted schema) sugg
                  else t\<lparr>ref_warn := Some (verr path (''schema '' @ quoted schema @
                    '' is not declared in this config, so the reference is not checked'') sugg)\<rparr>)
               else resolveDeclared tables t path)))"

definition fkPath :: "string \<Rightarrow> string \<Rightarrow> string" where
  "fkPath tableName fieldName = ''tables.'' @ tableName @ ''.fields.'' @ fieldName @ ''.foreign_key''"

text \<open>
  The resolver of the type check looks a column up in the fields of the target when the table has the target's
  name, and else in the declared tables. It is the resolver of the declared tables with the target's fields laid
  over those of the table of that name (\<open>overlay_resolver\<close> in \<open>Config_Laws\<close>).
\<close>

definition overlay :: "Table gmap \<Rightarrow> string \<Rightarrow> Field gmap \<Rightarrow> Table gmap" where
  "overlay tables table fs =
     (table, zeroTable\<lparr>tbl_Fields :=
        (case map_of tables table of None \<Rightarrow> [] | Some t \<Rightarrow> tbl_Fields t) @ map (\<lambda>(c, f). f\<lparr>fld_Name := c\<rparr>) fs\<rparr>) #
     filter (\<lambda>(n, _). n \<noteq> table) tables"

definition checkOneFK :: "Table gmap \<Rightarrow> string list \<Rightarrow> bool \<Rightarrow> string \<Rightarrow> Field \<Rightarrow> errs \<times> errs" where
  "checkOneFK tables schemas emailAuth tableName field =
     (case fld_ForeignKey field of
        None \<Rightarrow> ([], [])
      | Some fk \<Rightarrow>
          if fk_References fk = [] then ([], [])
          else let p = fkPath tableName (fld_Name field) in
            case resolveFK tables schemas emailAuth (fk_References fk) (p @ ''.references'') of
              None \<Rightarrow> ([], [])
            | Some t \<Rightarrow>
                (case ref_err t of
                   Some e \<Rightarrow> [e]
                 | None \<Rightarrow>
                     if \<not> ref_known t then []
                     else let view = overlay tables (ref_table t) (ref_fields t);
                         fkType = EffectiveType field view;
                         refType = EffectiveType (case map_of (ref_fields t) (ref_col t) of None \<Rightarrow> zeroField | Some f \<Rightarrow> f) view in
                       errIf (\<not> FKCompatible fkType refType) (p @ ''.type'')
                         (''column type '' @ quoted fkType @ '' does not match referenced '' @ ref_table t @ ''.'' @ ref_col t @
                          '' type '' @ quoted refType)
                         (''declare '' @ CHR 0x22 # ''type: '' @ refType @ CHR 0x22 # '' on '' @ quoted (fld_Name field) @
                          '', or change the reference''),
                 optErr (ref_warn t)))"

definition checkForeignKeys :: "Table gmap \<Rightarrow> Auth option \<Rightarrow> errs \<times> errs" where
  "checkForeignKeys tables auth =
     (let emailAuth = (case auth of None \<Rightarrow> False | Some a \<Rightarrow> auth_Email a \<noteq> None);
          schemas = fkSchemas tables;
          rs = concat (map (\<lambda>n. map (checkOneFK tables schemas emailAuth n) (tbl_Fields (tableOf tables n))) (sortedKeys tables))
      in (concat (map fst rs), concat (map snd rs)))"

definition fieldRefWarning :: "string \<Rightarrow> Field \<Rightarrow> errs" where
  "fieldRefWarning tableName f =
     (let p = ''tables.'' @ tableName @ ''.fields.'' @ fld_Name f in
      errIf (fld_Ref f \<noteq> []) (p @ ''.ref'') (''ref '' @ quoted (fld_Ref f) @ '' has no effect'')
        (if hasPrefix (fld_Ref f) ''auth.'' then ''Use foreign_key: {references: '' @ fld_Ref f @ [CHR 0x7D]
         else ''Remove it; storage references are not implemented'') @
      (if fld_OnDelete f \<noteq> [] \<and> fld_ForeignKey f \<noteq> None then
         [verr (p @ ''.on_delete'') ''field-level on_delete has no effect'' ''Remove it, or move it under foreign_key'']
       else errIf (fld_OnDelete f \<noteq> []) (p @ ''.on_delete'') ''on_delete has no effect without foreign_key'' ''Remove it''))"

definition fieldRefWarnings :: "Table gmap \<Rightarrow> errs" where
  "fieldRefWarnings tables =
     concat (map (\<lambda>n. concat (map (fieldRefWarning n) (tbl_Fields (tableOf tables n)))) (sortedKeys tables))"

definition isBareCompositePKMember :: "Table \<Rightarrow> Field \<Rightarrow> bool" where
  "isBareCompositePKMember t f =
     (fld_PrimaryKey f \<and> 2 \<le> length (PrimaryKeyColumns t) \<and>
      \<not> list_ex (\<lambda>ix. ix_Unique ix \<and> ix_Where ix = [] \<and> ix_Columns ix = [fld_Name f]) (tbl_Indexes t))"

definition compositePKFKWarning :: "Table gmap \<Rightarrow> string \<Rightarrow> Field \<Rightarrow> errs" where
  "compositePKFKWarning tables tableName field =
     (case fld_ForeignKey field of
        None \<Rightarrow> []
      | Some fk \<Rightarrow>
          (case ParseFKReference (fk_References fk) of
             Inl _ \<Rightarrow> []
           | Inr (schema, refTable, refCol) \<Rightarrow>
               if schema \<noteq> ''public'' then []
               else case GetField (tableOf tables refTable) refCol of
                   None \<Rightarrow> []
                 | Some target \<Rightarrow>
                     errIf (isBareCompositePKMember (tableOf tables refTable) target)
                       (''tables.'' @ tableName @ ''.fields.'' @ fld_Name field @ ''.foreign_key.references'')
                       (''references '' @ refTable @ ''.'' @ refCol @ '', which is only part of a composite primary key; '' @
                        ''Postgres rejects a new foreign key to it (no unique constraint matching given keys)'' @
                        (if fld_Unique target then ''; unique: true adds no constraint to an existing column'' else []))
                       (''Add a unique index on '' @ refTable @ ''('' @ refCol @ ''): indexes: [{columns: ['' @ refCol @ ''], unique: true}]'')))"

definition compositePKFKWarnings :: "Table gmap \<Rightarrow> errs" where
  "compositePKFKWarnings tables =
     concat (map (\<lambda>n. concat (map (compositePKFKWarning tables n) (tbl_Fields (tableOf tables n)))) (sortedKeys tables))"

section \<open>The whole config\<close>

text \<open>\<open>dedupeErrors\<close> keeps the first error of each path and message.\<close>

fun dedupe :: "(string \<times> string) list \<Rightarrow> errs \<Rightarrow> errs" where
  "dedupe seen [] = []"
| "dedupe seen (e # es) =
     (let k = (ve_Path e, ve_Message e) in
      if k \<in> set seen then dedupe seen es else e # dedupe (k # seen) es)"

definition dedupeErrors :: "errs \<Rightarrow> errs" where
  "dedupeErrors es = dedupe [] es"

definition validate :: "jwtReader \<Rightarrow> Config \<Rightarrow> bool \<Rightarrow> errs" where
  "validate appleJWT cfg isLocal = dedupeErrors (
     cfg_UnknownKeys cfg @
     cfg_ExpandErrors cfg @
     errIf (cfg_Version cfg \<noteq> 1) ''version'' (''unsupported version '' @ itoaInt (cfg_Version cfg) @ '' (expected 1)'')
       ''Set version: 1'' @
     validateProviders (cfg_Providers cfg) @
     validateAuth appleJWT isLocal (cfg_Auth cfg) @
     validateTables (cfg_Tables cfg) (cfg_Auth cfg) @
     validateStorage (cfg_Storage cfg) @
     validateRPC (cfg_RPC cfg) @
     validateCodeFunctions (cfg_Functions cfg) @
     fst (checkForeignKeys (cfg_Tables cfg) (cfg_Auth cfg)) @
     validateProviderRequirements cfg)"

definition Validate :: "jwtReader \<Rightarrow> Config \<Rightarrow> errs" where
  "Validate appleJWT cfg = validate appleJWT cfg False"

definition ValidateLocal :: "jwtReader \<Rightarrow> Config \<Rightarrow> errs" where
  "ValidateLocal appleJWT cfg = validate appleJWT cfg True"

definition oauthOf :: "Auth \<Rightarrow> string \<Rightarrow> OAuthProvider option" where
  "oauthOf a name = (case map_of (auth_OAuth a) name of None \<Rightarrow> None | Some p \<Rightarrow> p)"

definition LocalWarnings :: "Config option \<Rightarrow> errs" where
  "LocalWarnings cfg =
     (case cfg of None \<Rightarrow> [] | Some c \<Rightarrow> (case cfg_Auth c of None \<Rightarrow> [] | Some a \<Rightarrow>
        concat (map (\<lambda>name. case oauthOf a name of None \<Rightarrow> [] | Some p \<Rightarrow>
          errIf (oa_ClientSecret p = [] \<and> name \<notin> set idTokenOnlyProviders) (''auth.oauth.'' @ name @ ''.client_secret'')
            ''empty: inz serve rejects this (required)'' ''Set the env var it references, or add it to .development.env'')
          (sortedKeys (auth_OAuth a)))))"

definition appleSecretWarning :: "jwtReader \<Rightarrow> string \<Rightarrow> ValidationError option" where
  "appleSecretWarning appleJWT secret =
     (case appleJWT secret of
        Some (Some timeLeft) \<Rightarrow>
          if timeLeft < 0 then
            Some (verr ''auth.oauth.apple.client_secret''
              ''expired; Apple sign-in fails with invalid_client until you generate a new secret'' ''Apple secrets last 6 months at most'')
          else if timeLeft < 30 * 24 * 3600000000000 then
            Some (verr ''auth.oauth.apple.client_secret'' ''expires within 30 days; Apple sign-in will fail after that''
              ''Generate a new secret before it expires'')
          else None
      | _ \<Rightarrow> None)"

definition rlsWarning :: "string \<times> Table \<Rightarrow> errs" where
  "rlsWarning nt =
     (case nt of (name, t) \<Rightarrow>
      let path = ''tables.'' @ name @ ''.rls_enabled'' in
      case tbl_RLSEnabled t of
        None \<Rightarrow>
          if tbl_RLS t \<noteq> [] then
            [verr path ''not set, inferred as true because the table has rls policies; removing the last policy would turn RLS off''
              ''Add rls_enabled: true'']
          else
            [verr path ''not set, inferred as false (RLS is off): anon and authenticated clients can read and write every row''
              ''Add rls_enabled: true (deny by default) or rls_enabled: false (public table)'']
      | Some b \<Rightarrow> errIf (\<not> b) path ''RLS is disabled: anon and authenticated clients can read and write every row''
          ''Set rls_enabled: true and add policies, unless this table is meant to be public'')"

definition authWarnings :: "jwtReader \<Rightarrow> Auth \<Rightarrow> errs" where
  "authWarnings appleJWT a =
     concat (map (\<lambda>name. case oauthOf a name of None \<Rightarrow> [] | Some p \<Rightarrow>
       errIf (oa_ClientSecret p = []) (''auth.oauth.'' @ name @ ''.client_secret'')
         ''empty: only signInWithIdToken works, the redirect sign-in flow needs a secret''
         ''Set client_secret if you use signInWithOAuth'') (sort idTokenOnlyProviders)) @
     (case oauthOf a ''apple'' of None \<Rightarrow> [] | Some p \<Rightarrow> optErr (appleSecretWarning appleJWT (oa_ClientSecret p)))"

definition definerWarning :: "string \<times> Function \<Rightarrow> errs" where
  "definerWarning nf =
     (case nf of (name, fn) \<Rightarrow>
      errIf (equalFold (fn_Security fn) ''definer'' \<and> \<not> mapHas (fn_Set fn) ''search_path'') (''rpc.'' @ name @ ''.set.search_path'')
        ''security: definer without a pinned search_path lets callers shadow the objects the body uses''
        (''Add set: { search_path: '' @ [CHR 0x22, CHR 0x22] @ '' } and schema-qualify names, or list the schemas the body needs''))"

definition Warnings :: "jwtReader \<Rightarrow> Config \<Rightarrow> errs" where
  "Warnings appleJWT cfg =
     concat (map (\<lambda>n. rlsWarning (n, tableOf (cfg_Tables cfg) n)) (sortedKeys (cfg_Tables cfg))) @
     compositePKFKWarnings (cfg_Tables cfg) @
     snd (checkForeignKeys (cfg_Tables cfg) (cfg_Auth cfg)) @
     fieldRefWarnings (cfg_Tables cfg) @
     (case cfg_Auth cfg of None \<Rightarrow> [] | Some a \<Rightarrow> authWarnings appleJWT a) @
     errIf (srv_MaxLimit (cfg_Server cfg) = 100) ''server.max_limit''
       ''100 was the old unenforced default and now caps every read at 100 rows''
       ''Remove max_limit to use the 1000 default, or set the cap you want (-1 disables it)'' @
     concat (map (\<lambda>n. definerWarning (n, functionOf (cfg_RPC cfg) n)) (sortedKeys (cfg_RPC cfg)))"

end
