(* ===== verification/Policy_Text.thy ===== *)
theory Policy_Text
  imports Migrate_Gen
begin

text \<open>
  What the migrator reads out of a policy expression: whether a storage policy mentions the owner columns
  (\<open>storageOwnerColumnDDL\<close>, with string literals blanked by \<open>stripSQLLiterals\<close>), and which RPCs it calls
  (\<open>callsRPC\<close>). The regular expressions of the sources are written out as scanners; the expressions are
  ASCII text.
\<close>

section \<open>String literals\<close>

text \<open>
  The body of a quoted string after its opening quote, as the greedy regular expression matches it:
  \<open>n\<close> counts the bytes consumed, \<open>pair\<close> is the position of the last doubled quote, where a match that
  runs off the end falls back to. With \<open>esc\<close> (an \<open>E\<close> string) a backslash takes the byte after it,
  except a line break.
\<close>

fun quoteEnd :: "bool \<Rightarrow> nat \<Rightarrow> nat option \<Rightarrow> string \<Rightarrow> nat option" where
  "quoteEnd esc n pair [] = pair"
| "quoteEnd esc n pair (c # cs) =
     (if c = CHR 0x27 then
        (case cs of
           d # ds \<Rightarrow> if d = CHR 0x27 then quoteEnd esc (n + 2) (Some (n + 1)) ds else Some (n + 1)
         | [] \<Rightarrow> Some (n + 1))
      else if esc \<and> c = CHR 0x5C then
        (case cs of
           d # ds \<Rightarrow> if d = CHR 0x0A then pair else quoteEnd esc (n + 2) pair ds
         | [] \<Rightarrow> pair)
      else quoteEnd esc (n + 1) pair cs)"

text \<open>A dollar tag, \<open>$$\<close> or \<open>$tag$\<close>; its length with both dollar signs.\<close>

definition dollarTag :: "string \<Rightarrow> nat option" where
  "dollarTag cs =
     (let w = takeWhile isWord cs; r = dropWhile isWord cs in
      if hasPrefix r ''$'' \<and> (w = [] \<or> identRe w) then Some (length w + 2) else None)"

text \<open>The match of \<open>sqlLiteralRe\<close> that starts at this position, as its length.\<close>

fun literalAt :: "string \<Rightarrow> nat option" where
  "literalAt [] = None"
| "literalAt (c # cs) =
     (if (c = CHR ''e'' \<or> c = CHR ''E'') \<and> hasPrefix cs [CHR 0x27] \<and> quoteEnd True 0 None (tl cs) \<noteq> None then
        map_option (\<lambda>n. n + 2) (quoteEnd True 0 None (tl cs))
      else if c = CHR 0x27 then map_option Suc (quoteEnd False 0 None cs)
      else if c = CHR ''$'' then dollarTag cs
      else None)"

fun findLiteral :: "string \<Rightarrow> (nat \<times> nat) option" where
  "findLiteral [] = None"
| "findLiteral (c # cs) =
     (case literalAt (c # cs) of
        Some n \<Rightarrow> Some (0, n)
      | None \<Rightarrow> map_option (\<lambda>(i, n). (Suc i, n)) (findLiteral cs))"

lemma quoteEnd_pos: "quoteEnd esc n pair cs = Some k \<Longrightarrow> pair = Some k \<or> n < k \<and> k \<le> n + length cs"
  by (induction esc n pair cs rule: quoteEnd.induct) (auto split: if_splits list.splits)

lemma dollarTag_pos: "dollarTag cs = Some n \<Longrightarrow> 2 \<le> n \<and> n \<le> Suc (length cs)"
proof -
  assume a: "dollarTag cs = Some n"
  then have "hasPrefix (dropWhile isWord cs) ''$''" and n: "n = length (takeWhile isWord cs) + 2"
    by (auto simp: dollarTag_def Let_def split: if_splits)
  then have "0 < length (dropWhile isWord cs)" by (cases "dropWhile isWord cs") auto
  moreover have "length (takeWhile isWord cs) + length (dropWhile isWord cs) = length cs"
    by (metis length_append takeWhile_dropWhile_id)
  ultimately show ?thesis using n by linarith
qed

lemma literalAt_pos: "literalAt s = Some n \<Longrightarrow> 0 < n \<and> n \<le> length s"
proof (induction s rule: literalAt.induct)
  case (2 c cs)
  consider "hasPrefix cs [CHR 0x27]" "map_option (\<lambda>n. n + 2) (quoteEnd True 0 None (tl cs)) = Some n"
    | "map_option Suc (quoteEnd False 0 None cs) = Some n" | "dollarTag cs = Some n"
    using 2 by (simp only: literalAt.simps split: if_split_asm) blast+
  then show ?case
    by cases (auto simp: hasPrefix_iff dest!: quoteEnd_pos dollarTag_pos)
qed simp

lemma findLiteral_pos: "findLiteral s = Some (i, n) \<Longrightarrow> 0 < n \<and> i + n \<le> length s"
  by (induction s arbitrary: i n rule: findLiteral.induct) (auto split: option.splits dest: literalAt_pos simp del: literalAt.simps)

text \<open>
  One round of the loop: what it writes and what is left. An unclosed dollar tag is copied as it is.
\<close>

definition stripStep :: "string \<Rightarrow> (string \<times> string) option" where
  "stripStep s =
     (case findLiteral s of
        None \<Rightarrow> None
      | Some (i, n) \<Rightarrow>
          let m = take n (drop i s); rest = drop (i + n) s in
          if hasPrefix m ''$'' then
            (case strIndex rest m of
               None \<Rightarrow> Some (take (i + n) s, rest)
             | Some e \<Rightarrow> Some (take i s @ [CHR 0x27, CHR 0x27], drop (e + length m) rest))
          else Some (take i s @ [CHR 0x27, CHR 0x27], rest))"

lemma stripStep_length: "stripStep s = Some (out, rest) \<Longrightarrow> length rest < length s"
  by (auto simp: stripStep_def Let_def dest!: findLiteral_pos split: option.splits prod.splits if_splits)

function stripSQLLiterals :: "string \<Rightarrow> string" where
  "stripSQLLiterals s =
     (case stripStep s of None \<Rightarrow> s | Some (out, rest) \<Rightarrow> out @ stripSQLLiterals rest)"
  by pat_completeness auto
termination stripSQLLiterals by (relation "measure length") (auto dest: stripStep_length)

declare stripSQLLiterals.simps [simp del]

section \<open>Owner columns\<close>

definition wordEnd :: "string \<Rightarrow> bool" where
  "wordEnd s = (s = [] \<or> \<not> isWord (hd s))"

text \<open>\<open>(?i)\bowner(_id)?\b\<close>; \<open>prev\<close> tells whether the byte before is a word character.\<close>

definition ownerAt :: "bool \<Rightarrow> string \<Rightarrow> bool" where
  "ownerAt prev s =
     (\<not> prev \<and> hasPrefix (map asciiLower s) ''owner'' \<and>
      (wordEnd (drop 5 s) \<or> hasPrefix (map asciiLower s) ''owner_id'' \<and> wordEnd (drop 8 s)))"

fun ownerMatch :: "bool \<Rightarrow> string \<Rightarrow> bool" where
  "ownerMatch prev [] = False"
| "ownerMatch prev (c # cs) = (ownerAt prev (c # cs) \<or> ownerMatch (isWord c) cs)"

definition storageOwnerRefRe :: "string \<Rightarrow> bool" where
  "storageOwnerRefRe s = ownerMatch False s"

definition policyReadsOwner :: "RLSPolicy \<Rightarrow> bool" where
  "policyReadsOwner p =
     (storageOwnerRefRe (stripSQLLiterals (rls_Using p)) \<or> storageOwnerRefRe (stripSQLLiterals (rls_WithCheck p)))"

definition storageOwnerColumnDDL :: "Bucket gmap \<Rightarrow> stmt list" where
  "storageOwnerColumnDDL storage =
     (if list_ex (\<lambda>(_, b). list_ex policyReadsOwner (bkt_RLS b)) storage
      then [Sql storageOwnerColumnHeal] else [])"

definition generateStorageTables :: "Config \<Rightarrow> stmt list" where
  "generateStorageTables cfg =
     (if cfg_Storage cfg = [] then []
      else storageObjectsDDL @ storageHelperFunctions @ storageOwnerColumnDDL (cfg_Storage cfg))"

section \<open>RPC calls\<close>

definition dropQuote :: "string \<Rightarrow> string" where
  "dropQuote s = (if hasPrefix s [CHR 0x22] then tl s else s)"

definition regexSpace :: "char \<Rightarrow> bool" where
  "regexSpace c = (c \<in> {CHR 0x09, CHR 0x0A, CHR 0x0C, CHR 0x0D, CHR '' ''})"

definition callAt :: "string \<Rightarrow> string \<Rightarrow> bool" where
  "callAt fn s =
     (let r = dropQuote s in
      map asciiLower (take (length fn) r) = map asciiLower fn \<and>
      hasPrefix (dropWhile regexSpace (dropQuote (drop (length fn) r))) ''('')"

text \<open>The byte before a call is no identifier character; \<open>start\<close> says whether a call may start here.\<close>

fun callMatch :: "string \<Rightarrow> bool \<Rightarrow> string \<Rightarrow> bool" where
  "callMatch fn start s =
     (start \<and> callAt fn s \<or>
      (case s of [] \<Rightarrow> False | c # cs \<Rightarrow> callMatch fn (\<not> isWord c \<and> c \<noteq> CHR ''$'') cs))"

declare callMatch.simps [simp del]

definition callsRPC :: "RLSPolicy \<Rightarrow> string \<Rightarrow> bool" where
  "callsRPC p fn = (callMatch fn True (rls_Using p) \<or> callMatch fn True (rls_WithCheck p))"

definition rpcsCalledByStorage :: "Bucket gmap \<Rightarrow> string list \<Rightarrow> string list" where
  "rpcsCalledByStorage storage rpcs =
     filter (\<lambda>fn. list_ex (\<lambda>(_, b). list_ex (\<lambda>p. callsRPC p fn) (bkt_RLS b)) storage) rpcs"

definition denyPolicy :: "string list \<Rightarrow> RLSPolicy \<Rightarrow> RLSPolicy" where
  "denyPolicy missing p =
     (if \<not> list_ex (callsRPC p) missing then p
      else p\<lparr>rls_Using := (if rls_Using p \<noteq> [] then ''false'' else []),
             rls_WithCheck := (if rls_WithCheck p \<noteq> [] then ''false'' else [])\<rparr>)"

definition denyBucket :: "string list \<Rightarrow> Bucket \<Rightarrow> Bucket" where
  "denyBucket missing b = b\<lparr>bkt_RLS := map (denyPolicy missing) (bkt_RLS b)\<rparr>"

definition denyPoliciesCalling :: "Bucket gmap \<Rightarrow> string list \<Rightarrow> Bucket gmap" where
  "denyPoliciesCalling storage missing = map (\<lambda>(n, b). (n, denyBucket missing b)) storage"

end
