(* ===== verification/Migrate_Diff.thy ===== *)
theory Migrate_Diff
  imports Policy_Text
begin

text \<open>
  \<open>internal/app/migrate_config_diff.go\<close>: the difference between the last applied configuration and the new
  one, as renames, removals, additions and alterations, with the names of the data that does not survive
  and of the tables whose primary key would change.
\<close>

section \<open>Renames\<close>

text \<open>The first loop renames tables; its state is the rewritten table map and the statements so far.\<close>

type_synonym rename_state = "Table gmap \<times> stmt list"

definition renameTable :: "Table gmap \<Rightarrow> string \<Rightarrow> rename_state \<Rightarrow> rename_state" where
  "renameTable new newName st =
     (case st of (tables, ddl) \<Rightarrow>
        let src = tbl_RenamedFrom (tableOf new newName) in
        if src = [] \<or> mapHas tables newName then (tables, ddl)
        else case map_of tables src of
            None \<Rightarrow> (tables, ddl)
          | Some table \<Rightarrow>
              (AList.update newName table (AList.delete src tables),
               ddl @ [RenameTable (tableRel src table) newName] @
                 (if HasGuards table then [DropGuardFunction (guardFuncName src table) True] else [])))"

definition renameFields :: "string \<Rightarrow> string \<Rightarrow> Field list \<Rightarrow> Field list" where
  "renameFields src dst = map (\<lambda>f. if fld_Name f = src then f\<lparr>fld_Name := dst\<rparr> else f)"

text \<open>The second loop renames columns inside the tables both configurations have.\<close>

definition renameColumn :: "string \<Rightarrow> Field \<Rightarrow> Table \<times> stmt list \<Rightarrow> Table \<times> stmt list" where
  "renameColumn tableName newField st =
     (case st of (table, ddl) \<Rightarrow>
        let src = fld_RenamedFrom newField; dst = fld_Name newField in
        if src = [] \<or> mapHas (FieldMap table) dst \<or> \<not> mapHas (FieldMap table) src then (table, ddl)
        else (table\<lparr>tbl_Fields := renameFields src dst (tbl_Fields table)\<rparr>,
              ddl @ [RenameColumn (tableRel tableName table) src dst]))"

definition renameColumns :: "Table gmap \<Rightarrow> string \<Rightarrow> rename_state \<Rightarrow> rename_state" where
  "renameColumns new tableName st =
     (case st of (tables, ddl) \<Rightarrow>
        case map_of tables tableName of
          None \<Rightarrow> (tables, ddl)
        | Some table \<Rightarrow>
            (case fold (renameColumn tableName) (tbl_Fields (tableOf new tableName)) (table, ddl) of
               (table', ddl') \<Rightarrow> (AList.update tableName table' tables, ddl')))"

definition renameTables :: "Table gmap \<Rightarrow> Table gmap \<Rightarrow> rename_state" where
  "renameTables old new =
     fold (renameColumns new) (sortedKeys new) (fold (renameTable new) (sortedKeys new) (old, []))"

definition applyRenames :: "Config \<Rightarrow> Config \<Rightarrow> Config \<times> stmt list" where
  "applyRenames old new =
     (case renameTables (cfg_Tables old) (cfg_Tables new) of (tables, ddl) \<Rightarrow> (old\<lparr>cfg_Tables := tables\<rparr>, ddl))"

section \<open>Removals\<close>

text \<open>Each pass that drops data returns the statements and the names of what they destroy.\<close>

definition removedTables :: "Config \<Rightarrow> Config \<Rightarrow> relname list" where
  "removedTables old new =
     map (\<lambda>n. tableRel n (tableOf (cfg_Tables old) n))
       (filter (\<lambda>n. \<not> mapHas (cfg_Tables new) n) (rev (orderTables (cfg_Tables old))))"

definition diffRemovedTables :: "Config \<Rightarrow> Config \<Rightarrow> stmt list \<times> string list" where
  "diffRemovedTables old new =
     (map DropTable (removedTables old new), map relnameText (removedTables old new))"

definition tableRemovedColumns :: "Config \<Rightarrow> Config \<Rightarrow> string \<Rightarrow> (relname \<times> string) list" where
  "tableRemovedColumns old new name =
     (case map_of (cfg_Tables new) name of
        None \<Rightarrow> []
      | Some newTable \<Rightarrow>
          (let oldTable = tableOf (cfg_Tables old) name in
           map (\<lambda>f. (tableRel name oldTable, fld_Name f))
             (filter (\<lambda>f. \<not> mapHas (FieldMap newTable) (fld_Name f)) (tbl_Fields oldTable))))"

definition removedColumns :: "Config \<Rightarrow> Config \<Rightarrow> (relname \<times> string) list" where
  "removedColumns old new = concat (map (tableRemovedColumns old new) (sortedKeys (cfg_Tables old)))"

definition diffRemovedColumns :: "Config \<Rightarrow> Config \<Rightarrow> stmt list \<times> string list" where
  "diffRemovedColumns old new =
     (map (\<lambda>(r, c). DropColumn r c) (removedColumns old new),
      map (\<lambda>(r, c). relnameText r @ ''.'' @ c) (removedColumns old new))"

definition hasIndex :: "Index list \<Rightarrow> Index \<Rightarrow> bool" where
  "hasIndex indexes target = list_ex (\<lambda>idx. SameIndex idx target) indexes"

definition tableRemovedIndexes :: "Config \<Rightarrow> Config \<Rightarrow> string \<Rightarrow> stmt list" where
  "tableRemovedIndexes old new name =
     (let oldTable = tableOf (cfg_Tables old) name in
      map (\<lambda>idx. DropIndex (EffectiveSchema oldTable) (indexName name idx))
        (filter (\<lambda>idx. case map_of (cfg_Tables new) name of None \<Rightarrow> True
                       | Some newTable \<Rightarrow> \<not> hasIndex (tbl_Indexes newTable) idx) (tbl_Indexes oldTable)))"

definition diffRemovedIndexes :: "Config \<Rightarrow> Config \<Rightarrow> stmt list" where
  "diffRemovedIndexes old new = concat (map (tableRemovedIndexes old new) (sortedKeys (cfg_Tables old)))"

definition tableRemovedGuards :: "Config \<Rightarrow> Config \<Rightarrow> string \<Rightarrow> stmt list" where
  "tableRemovedGuards old new name =
     (let oldTable = tableOf (cfg_Tables old) name;
          newTable = tableOf (cfg_Tables new) name;
          exists = mapHas (cfg_Tables new) name;
          moved = (exists \<and> HasGuards newTable \<and> guardFuncName name newTable \<noteq> guardFuncName name oldTable)
      in if \<not> HasGuards oldTable then []
         else if exists \<and> HasGuards newTable \<and> \<not> moved then []
         else (if exists \<and> \<not> moved then [DropGuardTrigger (tableRel name oldTable)] else []) @
           [DropGuardFunction (guardFuncName name oldTable) moved])"

definition diffRemovedGuards :: "Config \<Rightarrow> Config \<Rightarrow> stmt list" where
  "diffRemovedGuards old new = concat (map (tableRemovedGuards old new) (sortedKeys (cfg_Tables old)))"

definition rlsPolicyNames :: "string \<Rightarrow> RLSPolicy list \<Rightarrow> string list" where
  "rlsPolicyNames prefix policies =
     concat (map (\<lambda>(i, p). map (\<lambda>op. policyName prefix op i) (rls_Operations p)) (List.enumerate 0 policies))"

definition tableRemovedRLS :: "Config \<Rightarrow> Config \<Rightarrow> string \<Rightarrow> stmt list" where
  "tableRemovedRLS old new name =
     (case map_of (cfg_Tables new) name of
        None \<Rightarrow> []
      | Some newTable \<Rightarrow>
          (let oldTable = tableOf (cfg_Tables old) name; r = tableRel name oldTable;
               newPolicies = rlsPolicyNames name (tbl_RLS newTable) in
           map (\<lambda>n. DropPolicy n r)
             (filter (\<lambda>n. n \<notin> set newPolicies) (rlsPolicyNames name (tbl_RLS oldTable))) @
           (if EffectiveRLSEnabled oldTable \<and> \<not> EffectiveRLSEnabled newTable then [DisableRLS r] else [])))"

definition diffRemovedRLSPolicies :: "Config \<Rightarrow> Config \<Rightarrow> stmt list" where
  "diffRemovedRLSPolicies old new = concat (map (tableRemovedRLS old new) (sortedKeys (cfg_Tables old)))"

definition storageRLSPolicyNames :: "string \<Rightarrow> RLSPolicy list \<Rightarrow> string list" where
  "storageRLSPolicyNames bucketName policies = rlsPolicyNames (''storage_'' @ bucketName) policies"

definition bucketRemovedRLS :: "Config \<Rightarrow> Config \<Rightarrow> string \<Rightarrow> stmt list" where
  "bucketRemovedRLS old new name =
     (let oldBucket = bucketOf (cfg_Storage old) name;
          newBucket = bucketOf (cfg_Storage new) name;
          exists = mapHas (cfg_Storage new) name;
          newPolicies = (if exists then storageRLSPolicyNames name (bkt_RLS newBucket) else [])
      in (if bkt_Public oldBucket \<and> (\<not> exists \<or> \<not> bkt_Public newBucket)
          then [DropPolicy (publicSelectName name) storageObjects] else []) @
         map (\<lambda>n. DropPolicy n storageObjects)
           (filter (\<lambda>n. n \<notin> set newPolicies) (storageRLSPolicyNames name (bkt_RLS oldBucket))))"

definition diffRemovedStorageRLS :: "Config \<Rightarrow> Config \<Rightarrow> stmt list" where
  "diffRemovedStorageRLS old new = concat (map (bucketRemovedRLS old new) (sortedKeys (cfg_Storage old)))"

definition managedPolicyNames :: "Config \<Rightarrow> string list" where
  "managedPolicyNames cfg =
     concat (map (\<lambda>t. map (\<lambda>p. EffectiveSchema (tableOf (cfg_Tables cfg) t) @ ''.'' @ t @ ''.'' @ take 63 p)
       (rlsPolicyNames t (tbl_RLS (tableOf (cfg_Tables cfg) t)))) (sortedKeys (cfg_Tables cfg))) @
     concat (map (\<lambda>b. map (\<lambda>p. ''storage.objects.'' @ take 63 p)
       (storageRLSPolicyNames b (bkt_RLS (bucketOf (cfg_Storage cfg) b)))) (sortedKeys (cfg_Storage cfg)))"

definition rpcFunctionDropSig :: "Function \<Rightarrow> string" where
  "rpcFunctionDropSig fn = commas (map arg_Type (fn_Args fn))"

definition argChanged :: "FuncArg \<Rightarrow> FuncArg \<Rightarrow> bool" where
  "argChanged old new =
     (arg_Name old \<noteq> arg_Name new \<or> Normalize (arg_Type old) \<noteq> Normalize (arg_Type new) \<or>
      arg_Default old \<noteq> None \<and> arg_Default new = None)"

definition rpcSignatureChanged :: "Function \<Rightarrow> Function \<Rightarrow> bool" where
  "rpcSignatureChanged old new =
     (length (fn_Args old) \<noteq> length (fn_Args new) \<or>
      list_ex (\<lambda>(a, b). argChanged a b) (zip (fn_Args old) (fn_Args new)) \<or>
      Normalize (fr_Type (fn_Returns old)) \<noteq> Normalize (fr_Type (fn_Returns new)))"

definition removedFunction :: "Config \<Rightarrow> Config \<Rightarrow> string \<Rightarrow> stmt list" where
  "removedFunction old new name =
     (let oldFn = functionOf (cfg_RPC old) name in
      case map_of (cfg_RPC new) name of
        Some newFn \<Rightarrow>
          if \<not> rpcSignatureChanged oldFn newFn then []
          else [DropPoliciesUsing name (rpcFunctionDropSig oldFn) (managedPolicyNames new),
                DropFunction name (rpcFunctionDropSig oldFn)]
      | None \<Rightarrow>
          [DropPoliciesUsing name (rpcFunctionDropSig oldFn) (managedPolicyNames new),
           DropFunction name (rpcFunctionDropSig oldFn)])"

definition diffRemovedRPCFunctions :: "Config \<Rightarrow> Config \<Rightarrow> stmt list" where
  "diffRemovedRPCFunctions old new = concat (map (removedFunction old new) (sortedKeys (cfg_RPC old)))"

section \<open>Primary keys\<close>

record pkChange =
  pk_Table :: string
  pk_Qual :: relname
  pk_Old :: "string list"
  pk_New :: "string list"

definition pkChangeText :: "pkChange \<Rightarrow> string" where
  "pkChangeText c = pk_Table c @ '': ('' @ commas (pk_Old c) @ '') -> ('' @ commas (pk_New c) @ '')''"

definition sameColumns :: "string list \<Rightarrow> string list \<Rightarrow> bool" where
  "sameColumns a b = (sort a = sort b)"

text \<open>\<open>cmp.Or\<close>: the first non-empty argument, else the empty string.\<close>

definition cmpOr :: "string list \<Rightarrow> string" where
  "cmpOr xs = (case find (\<lambda>x. x \<noteq> []) xs of None \<Rightarrow> [] | Some x \<Rightarrow> x)"

definition pkSwapAllowed :: "Table \<Rightarrow> Table \<Rightarrow> bool" where
  "pkSwapAllowed oldTable newTable =
     (list_ex (\<lambda>c. \<not> mapHas (FieldMap newTable) c) (PrimaryKeyColumns oldTable) \<and>
      length (PrimaryKeyColumns newTable) = 1 \<and>
      \<not> mapHas (FieldMap oldTable) (cmpOr (PrimaryKeyColumns newTable)))"

definition tablePKChange :: "Config \<Rightarrow> Config \<Rightarrow> string \<Rightarrow> pkChange list" where
  "tablePKChange old new name =
     (case map_of (cfg_Tables old) name of
        None \<Rightarrow> []
      | Some oldTable \<Rightarrow>
          (let newTable = tableOf (cfg_Tables new) name;
               oldPK = PrimaryKeyColumns oldTable; newPK = PrimaryKeyColumns newTable in
           if sameColumns oldPK newPK then []
           else if pkSwapAllowed oldTable newTable then []
           else [\<lparr>pk_Table = name, pk_Qual = tableRel name newTable, pk_Old = oldPK, pk_New = newPK\<rparr>]))"

definition diffPrimaryKeys :: "Config \<Rightarrow> Config \<Rightarrow> pkChange list" where
  "diffPrimaryKeys old new = concat (map (tablePKChange old new) (sortedKeys (cfg_Tables new)))"

section \<open>Additions\<close>

definition diffNewAuth :: "Config \<Rightarrow> Config \<Rightarrow> stmt list" where
  "diffNewAuth old new =
     (case cfg_Auth new of
        None \<Rightarrow> []
      | Some n \<Rightarrow>
          (case cfg_Auth old of
             None \<Rightarrow> generateAuthTables n
           | Some k \<Rightarrow>
               [Sql refreshTokensDDL] @
               (if auth_Email n \<noteq> None \<and> auth_Email k = None then oneTimeTokensDDL else []) @ authHealDDL))"

definition sameLiveType :: "string \<Rightarrow> Table \<Rightarrow> Table \<Rightarrow> Config \<Rightarrow> Config \<Rightarrow> bool" where
  "sameLiveType col oldTable newTable old new =
     (case (GetField oldTable col, GetField newTable col) of
        (Some f, Some g) \<Rightarrow>
          Normalize (EffectiveType f (cfg_Tables old)) = Normalize (EffectiveType g (cfg_Tables new))
      | _ \<Rightarrow> False)"

definition newLiveIndex :: "Config \<Rightarrow> Config \<Rightarrow> Table \<Rightarrow> Table \<Rightarrow> Index \<Rightarrow> bool" where
  "newLiveIndex old new oldTable table idx =
     (\<not> (\<not> ix_Unique idx \<or> ix_Where idx \<noteq> [] \<or> list_ex (SameIndex idx) (tbl_Indexes oldTable) \<or>
          list_ex (\<lambda>c. \<not> sameLiveType c oldTable table old new) (ix_Columns idx)))"

definition tableLiveIndexes :: "Config \<Rightarrow> Config \<Rightarrow> string \<Rightarrow> stmt list" where
  "tableLiveIndexes old new name =
     (case map_of (cfg_Tables old) name of
        None \<Rightarrow> []
      | Some oldTable \<Rightarrow>
          (let table = tableOf (cfg_Tables new) name in
           generateIndexes name (table\<lparr>tbl_Indexes := filter (newLiveIndex old new oldTable table) (tbl_Indexes table)\<rparr>)))"

definition diffIndexesOnLiveColumns :: "Config \<Rightarrow> Config \<Rightarrow> stmt list" where
  "diffIndexesOnLiveColumns old new = concat (map (tableLiveIndexes old new) (orderTables (cfg_Tables new)))"

definition newTable :: "Config \<Rightarrow> Config \<Rightarrow> string \<Rightarrow> stmt list" where
  "newTable old new name =
     (if mapHas (cfg_Tables old) name then []
      else let table = tableOf (cfg_Tables new) name in
        generateTable name table (cfg_Tables new) @ generateIndexes name table @ generateDeferredFKs name table)"

definition diffNewTables :: "Config \<Rightarrow> Config \<Rightarrow> stmt list" where
  "diffNewTables old new = concat (map (newTable old new) (orderTables (cfg_Tables new)))"

definition formatColumnForAdd :: "string \<Rightarrow> Field \<Rightarrow> Table gmap \<Rightarrow> Column \<times> (string \<times> string \<times> string \<times> string) option" where
  "formatColumnForAdd name field tables =
     (formatColumn name field tables,
      case fld_ForeignKey field of
        None \<Rightarrow> None
      | Some k \<Rightarrow>
          (case ParseFKReference (fk_References k) of
             Inl _ \<Rightarrow> None
           | Inr (schema, refTable, refCol) \<Rightarrow> Some (schema, refTable, refCol, fkOnDelete k)))"

definition newColumn :: "relname \<Rightarrow> Table gmap \<Rightarrow> Field \<Rightarrow> stmt list" where
  "newColumn r tables f =
     (case formatColumnForAdd (fld_Name f) f tables of (c, ref) \<Rightarrow>
        AddColumn r c ref # map (AddConstraint r) (checkConstraints f))"

definition tableNewColumns :: "Config \<Rightarrow> Config \<Rightarrow> string \<Rightarrow> stmt list" where
  "tableNewColumns old new name =
     (case map_of (cfg_Tables old) name of
        None \<Rightarrow> []
      | Some oldTable \<Rightarrow>
          (let newTable = tableOf (cfg_Tables new) name in
           concat (map (newColumn (tableRel name newTable) (cfg_Tables new))
             (filter (\<lambda>f. \<not> mapHas (FieldMap oldTable) (fld_Name f)) (tbl_Fields newTable)))))"

definition diffNewColumns :: "Config \<Rightarrow> Config \<Rightarrow> stmt list" where
  "diffNewColumns old new = concat (map (tableNewColumns old new) (sortedKeys (cfg_Tables new)))"

definition diffNewStorage :: "Config \<Rightarrow> Config \<Rightarrow> stmt list" where
  "diffNewStorage old new =
     (if cfg_Storage new = [] then [] else if cfg_Storage old = [] then generateStorageTables new else [])"

section \<open>Alterations\<close>

definition columnChange :: "Config \<Rightarrow> Config \<Rightarrow> relname \<Rightarrow> Table \<Rightarrow> Field \<Rightarrow> stmt list" where
  "columnChange old new r oldTable newField =
     (case map_of (FieldMap oldTable) (fld_Name newField) of
        None \<Rightarrow> []
      | Some oldField \<Rightarrow>
          (let newType = EffectiveType newField (cfg_Tables new);
               newRequired = (fld_Required newField \<or> fld_PrimaryKey newField);
               oldRequired = (fld_Required oldField \<or> fld_PrimaryKey oldField) in
           (if Normalize newType \<noteq> Normalize (EffectiveType oldField (cfg_Tables old))
            then [AlterType r (fld_Name newField) newType] else []) @
           (if newRequired \<noteq> oldRequired then
              (if newRequired then [SetNotNull r (fld_Name newField)] else [DropNotNull r (fld_Name newField)])
            else [])))"

definition tableColumnChanges :: "Config \<Rightarrow> Config \<Rightarrow> string \<Rightarrow> stmt list" where
  "tableColumnChanges old new name =
     (case map_of (cfg_Tables old) name of
        None \<Rightarrow> []
      | Some oldTable \<Rightarrow>
          (let newTable = tableOf (cfg_Tables new) name in
           concat (map (columnChange old new (tableRel name newTable) oldTable) (tbl_Fields newTable))))"

definition diffColumnChanges :: "Config \<Rightarrow> Config \<Rightarrow> stmt list" where
  "diffColumnChanges old new = concat (map (tableColumnChanges old new) (sortedKeys (cfg_Tables new)))"

section \<open>The difference\<close>

record configDiff =
  df_Removals :: "stmt list"
  df_Additions :: "stmt list"
  df_Renames :: "stmt list"
  df_Alterations :: "stmt list"
  df_Destroys :: "string list"
  df_PKChanges :: "pkChange list"

text \<open>The callers pass an old configuration; the case of none, which yields an empty difference, is theirs.\<close>

definition diffConfigs :: "Config \<Rightarrow> Config \<Rightarrow> configDiff" where
  "diffConfigs old0 new =
     (case applyRenames old0 new of (old, renames) \<Rightarrow>
        \<lparr>df_Removals = diffRemovedRLSPolicies old new @ diffRemovedIndexes old new @
            fst (diffRemovedColumns old new) @ fst (diffRemovedTables old new) @
            diffRemovedGuards old new @ diffRemovedStorageRLS old new @ diffRemovedRPCFunctions old new,
         df_Additions = diffNewAuth old new @ diffIndexesOnLiveColumns old new @ diffNewTables old new @
            diffNewColumns old new @ diffNewStorage old new,
         df_Renames = renames,
         df_Alterations = diffColumnChanges old new,
         df_Destroys = snd (diffRemovedColumns old new) @ snd (diffRemovedTables old new),
         df_PKChanges = diffPrimaryKeys old new\<rparr>)"

end
