(* ===== verification/Migrate_Plan.thy ===== *)
theory Migrate_Plan
  imports Migrate_Diff
begin

text \<open>
  The plan and the transaction of \<open>internal/app/migrate.go\<close> and \<open>migrate_dryrun.go\<close>: the statements of a first
  and of a later migration, the two gates in front of them, \<open>Apply\<close>, \<open>DryRun\<close>, and the statements run
  at boot. The database is a parameter: a state \<open>'c\<close>, what a statement does to it, the rows a query
  returns, and the failures of the calls that start or end a transaction. Encoding a configuration as JSON is a
  parameter as well; the checksum is the SHA-256 of that text.
\<close>

section \<open>Plans\<close>

definition authDefaultOf :: "Field \<Rightarrow> string" where
  "authDefaultOf f = (case fld_Default f of Some (GString s) \<Rightarrow> toLower s | _ \<Rightarrow> [])"

definition usesAuthDefault :: "Config \<Rightarrow> bool" where
  "usesAuthDefault cfg =
     list_ex (\<lambda>(_, t). list_ex (\<lambda>f. hasPrefix (authDefaultOf f) ''auth.'') (tbl_Fields t)) (cfg_Tables cfg)"

definition nullableAuthDefault :: "Table \<Rightarrow> Field \<Rightarrow> bool" where
  "nullableAuthDefault oldTable f =
     (\<not> mapHas (FieldMap oldTable) (fld_Name f) \<and> fld_RenamedFrom f = [] \<and> fld_Required f \<and>
      hasPrefix (authDefaultOf f) ''auth.'' \<and> authDefaultOf f \<noteq> ''auth.role()'')"

definition requiredAuthDefaultAdds :: "Config \<Rightarrow> Config \<Rightarrow> string list" where
  "requiredAuthDefaultAdds oldCfg newCfg =
     concat (map (\<lambda>name. case map_of (cfg_Tables oldCfg) name of
          None \<Rightarrow> []
        | Some oldT \<Rightarrow> map (\<lambda>f. name @ ''.'' @ fld_Name f)
            (filter (nullableAuthDefault oldT) (tbl_Fields (tableOf (cfg_Tables newCfg) name))))
       (sortedKeys (cfg_Tables newCfg)))"

definition scratchTable :: "Config \<Rightarrow> string \<Rightarrow> stmt list" where
  "scratchTable cfg name =
     (let table = tableOf (cfg_Tables cfg) name in
      generateTable name table (cfg_Tables cfg) @ generateIndexes name table @
      generateDeferredFKs name table @ generateGuards name table)"

definition rpcStatements :: "Config \<Rightarrow> stmt list" where
  "rpcStatements cfg = map (\<lambda>n. generateRPCFunction n (functionOf (cfg_RPC cfg) n)) (sortedKeys (cfg_RPC cfg))"

definition policyStatements :: "Config \<Rightarrow> stmt list" where
  "policyStatements cfg =
     concat (map (\<lambda>n. generateRLSPolicies n (tableOf (cfg_Tables cfg) n)) (orderTables (cfg_Tables cfg)))"

definition authFunctions :: "Config \<Rightarrow> stmt list" where
  "authFunctions cfg = (if cfg_Auth cfg \<noteq> None \<or> usesAuthDefault cfg then generateRLSFunctions else [])"

definition planFromScratchStatements :: "Config \<Rightarrow> Roles \<Rightarrow> stmt list" where
  "planFromScratchStatements cfg roles =
     generateSchemaGrants (orderedSchemas cfg) roles @ generateJWTKeysTable @
     (case cfg_Auth cfg of None \<Rightarrow> [] | Some a \<Rightarrow> generateAuthTables a) @ authFunctions cfg @
     concat (map (scratchTable cfg) (orderTables (cfg_Tables cfg))) @
     generateStorageTables cfg @ rpcStatements cfg @ policyStatements cfg @
     generateStorageRLSAll (cfg_Storage cfg) @ generateExistingObjectGrants (orderedSchemas cfg) roles"

definition indexesAndGuards :: "Config \<Rightarrow> stmt list" where
  "indexesAndGuards cfg =
     concat (map (\<lambda>n. generateIndexes n (tableOf (cfg_Tables cfg) n) @ generateGuards n (tableOf (cfg_Tables cfg) n))
       (orderTables (cfg_Tables cfg)))"

definition storageHeal :: "Config \<Rightarrow> stmt list" where
  "storageHeal cfg =
     (if cfg_Storage cfg = [] then []
      else [Sql storageUserMetadataDDL] @ storageHelperFunctions @ storageOwnerColumnDDL (cfg_Storage cfg))"

definition planUpdateStatements :: "Config \<Rightarrow> Config \<Rightarrow> Roles \<Rightarrow> stmt list" where
  "planUpdateStatements oldCfg newCfg roles =
     (let diff = diffConfigs oldCfg newCfg in
      generateSchemaGrants (orderedSchemas newCfg) roles @ generateJWTKeysTable @ authFunctions newCfg @
      df_Renames diff @ df_Removals diff @ df_Additions diff @ df_Alterations diff @
      indexesAndGuards newCfg @ storageHeal newCfg @ rpcStatements newCfg @ policyStatements newCfg @
      generateStorageRLSAll (cfg_Storage newCfg) @ generateExistingObjectGrants (orderedSchemas newCfg) roles)"

definition Plan :: "Roles \<Rightarrow> Config option \<Rightarrow> Config \<Rightarrow> string" where
  "Plan roles oldCfg newCfg =
     strJoin (map stmtText (case oldCfg of None \<Rightarrow> planFromScratchStatements newCfg roles
        | Some k \<Rightarrow> planUpdateStatements k newCfg roles)) (nl @ nl)"

section \<open>The gates\<close>

datatype migrate_error =
    ErrDB string string \<comment> \<open>the step, and what the database said\<close>
  | ErrMarshal string
  | ErrPrimaryKeyChange "string list"
  | ErrDestructive "string list"

text \<open>\<open>query\<close> is the answer to the catalogue query, the key columns joined with commas.\<close>

definition LivePrimaryKey :: "(relname \<Rightarrow> string + string) \<Rightarrow> relname \<Rightarrow> migrate_error + string list" where
  "LivePrimaryKey query rel =
     (case query rel of
        Inl e \<Rightarrow> Inl (ErrDB ''read primary key'' e)
      | Inr cols \<Rightarrow> Inr (if cols = [] then [] else strSplit cols (CHR '','')))"

text \<open>One round over the primary-key changes: without a transaction each change is rejected.\<close>

definition rejectPK :: "(relname \<Rightarrow> string + string) option \<Rightarrow> pkChange \<Rightarrow> migrate_error + string list" where
  "rejectPK tx c =
     (case tx of
        None \<Rightarrow> Inr [pkChangeText c]
      | Some query \<Rightarrow>
          (case LivePrimaryKey query (pk_Qual c) of
             Inl e \<Rightarrow> Inl e
           | Inr live \<Rightarrow> Inr (if sameColumns live (pk_New c) then [] else [pkChangeText c])))"

definition planStatements ::
    "Roles \<Rightarrow> bool \<Rightarrow> (relname \<Rightarrow> string + string) option \<Rightarrow> Config option \<Rightarrow> Config \<Rightarrow> migrate_error + stmt list" where
  "planStatements roles allowDestructive tx oldCfg newCfg =
     (case oldCfg of
        None \<Rightarrow> Inr (planFromScratchStatements newCfg roles)
      | Some k \<Rightarrow>
          (let diff = diffConfigs k newCfg in
           case traverse (rejectPK tx) (df_PKChanges diff) of
             Inl e \<Rightarrow> Inl e
           | Inr rejected \<Rightarrow>
               if concat rejected \<noteq> [] then Inl (ErrPrimaryKeyChange (concat rejected))
               else if df_Destroys diff \<noteq> [] \<and> \<not> allowDestructive then Inl (ErrDestructive (df_Destroys diff))
               else Inr (planUpdateStatements k newCfg roles)))"

definition PlanStatements :: "Roles \<Rightarrow> bool \<Rightarrow> Config option \<Rightarrow> Config \<Rightarrow> migrate_error + stmt list" where
  "PlanStatements roles allowDestructive oldCfg newCfg = planStatements roles allowDestructive None oldCfg newCfg"

section \<open>The transaction\<close>

record 'c Database =
  pg_exec :: "stmt \<Rightarrow> 'c \<Rightarrow> string + 'c"
  pg_primaryKey :: "'c \<Rightarrow> relname \<Rightarrow> string + string"
  pg_existingRPCs :: "'c \<Rightarrow> string list \<Rightarrow> string + string list"
  pg_fault :: "string \<Rightarrow> string option" \<comment> \<open>the error of the call named, if it fails\<close>

record Codec =
  js_marshal :: "Config \<Rightarrow> string + string"
  js_unmarshal :: "string \<Rightarrow> Config option"

record 'c Migrator =
  mg_db :: "'c Database"
  mg_codec :: Codec
  mg_roles :: Roles
  mg_allowDestructive :: bool

text \<open>The committed state: the catalogue, and the history table when it exists (oldest row first).\<close>

record 'c dbstate =
  st_catalog :: 'c
  st_history :: "Migration list option"

fun execAll :: "(stmt \<Rightarrow> 'c \<Rightarrow> string + 'c) \<Rightarrow> stmt list \<Rightarrow> 'c \<Rightarrow> string + 'c" where
  "execAll ex [] c = Inr c"
| "execAll ex (s # ss) c = (case ex s c of Inl e \<Rightarrow> Inl e | Inr c' \<Rightarrow> execAll ex ss c')"

definition configChecksum :: "string \<Rightarrow> string" where
  "configChecksum json = hexEncode (sha256 json)"

definition marshalConfig :: "Codec \<Rightarrow> Config \<Rightarrow> migrate_error + (string \<times> string)" where
  "marshalConfig codec cfg =
     (case js_marshal codec cfg of Inl e \<Rightarrow> Inl (ErrMarshal e) | Inr json \<Rightarrow> Inr (json, configChecksum json))"

definition previousConfig :: "Codec \<Rightarrow> Migration option \<Rightarrow> Config option" where
  "previousConfig codec m =
     (case m of None \<Rightarrow> None
      | Some row \<Rightarrow> if mig_ConfigJSON row = [] \<or> mig_ConfigJSON row = ''{}'' then None
                    else js_unmarshal codec (mig_ConfigJSON row))"

definition lastMigration :: "'c dbstate \<Rightarrow> Migration option" where
  "lastMigration st =
     (case st_history st of None \<Rightarrow> None | Some [] \<Rightarrow> None | Some ms \<Rightarrow> Some (last ms))"

definition ensureMigrationsTable :: "'c dbstate \<Rightarrow> 'c dbstate" where
  "ensureMigrationsTable st =
     (case st_history st of None \<Rightarrow> st\<lparr>st_history := Some []\<rparr> | Some _ \<Rightarrow> st)"

definition fails :: "'c Migrator \<Rightarrow> string \<Rightarrow> migrate_error option" where
  "fails m step = map_option (ErrDB step) (pg_fault (mg_db m) step)"

text \<open>
  What \<open>Apply\<close> does inside its transaction: \<open>Inr None\<close> leaves without a change, \<open>Inr (Some st')\<close> commits
  \<open>st'\<close>, and an error rolls back. \<open>js\<close> is the new configuration as JSON.
\<close>

definition applyTx :: "'c Migrator \<Rightarrow> Config \<Rightarrow> string \<Rightarrow> 'c dbstate \<Rightarrow> migrate_error + 'c dbstate option" where
  "applyTx m cfg js st =
     (case fails m ''last'' of Some e \<Rightarrow> Inl e | None \<Rightarrow>
      (let prev = lastMigration st in
       if (case prev of None \<Rightarrow> False | Some row \<Rightarrow> mig_Checksum row = configChecksum js) then Inr None
       else case planStatements (mg_roles m) (mg_allowDestructive m) (Some (pg_primaryKey (mg_db m) (st_catalog st)))
              (previousConfig (mg_codec m) prev) cfg of
          Inl e \<Rightarrow> Inl e
        | Inr stmts \<Rightarrow>
            if stmts = [] then Inr None
            else case execAll (pg_exec (mg_db m)) stmts (st_catalog st) of
                Inl e \<Rightarrow> Inl (ErrDB ''exec'' e)
              | Inr c \<Rightarrow>
                  (case fails m ''record'' of Some e \<Rightarrow> Inl e | None \<Rightarrow>
                   Inr (Some \<lparr>st_catalog = c, st_history = map_option (\<lambda>h. h @
                     [\<lparr>mig_Checksum = configChecksum js, mig_ConfigJSON = js\<rparr>]) (st_history st)\<rparr>))))"

definition Apply :: "'c Migrator \<Rightarrow> Config \<Rightarrow> 'c dbstate \<Rightarrow> migrate_error option \<times> 'c dbstate" where
  "Apply m cfg st0 =
     (case fails m ''ensure'' of Some e \<Rightarrow> (Some e, st0) | None \<Rightarrow>
      (let st = ensureMigrationsTable st0 in
       case marshalConfig (mg_codec m) cfg of
         Inl e \<Rightarrow> (Some e, st)
       | Inr (js, _) \<Rightarrow>
           (case fails m ''begin'' of Some e \<Rightarrow> (Some e, st) | None \<Rightarrow>
            (case applyTx m cfg js st of
               Inl e \<Rightarrow> (Some e, st)
             | Inr None \<Rightarrow> (None, st)
             | Inr (Some st') \<Rightarrow>
                 (case fails m ''commit'' of Some e \<Rightarrow> (Some e, st) | None \<Rightarrow> (None, st'))))))"

section \<open>Statements of boot\<close>

definition idempotentProvisioning :: "Config \<Rightarrow> Roles \<Rightarrow> stmt list" where
  "idempotentProvisioning cfg roles =
     generateSchemaGrants (orderedSchemas cfg) roles @ generateJWTKeysTable @
     (case cfg_Auth cfg of None \<Rightarrow> [] | Some a \<Rightarrow> generateAuthTables a @ generateRLSFunctions) @
     generateStorageTables cfg @ generateStorageRLSAll (cfg_Storage cfg)"

text \<open>\<open>present\<close> answers the query for the RPCs that exist; no query is sent when no policy calls one.\<close>

definition missingStorageRPCs :: "(string list \<Rightarrow> string + string list) \<Rightarrow> Config \<Rightarrow> string + string list" where
  "missingStorageRPCs present cfg =
     (let called = rpcsCalledByStorage (cfg_Storage cfg) (sortedKeys (cfg_RPC cfg)) in
      if called = [] then Inr []
      else case present called of Inl e \<Rightarrow> Inl e | Inr rows \<Rightarrow> Inr (filter (\<lambda>fn. fn \<notin> set rows) called))"

definition provisionConfig :: "Config \<Rightarrow> string list \<Rightarrow> Config" where
  "provisionConfig cfg missing =
     (if missing = [] then cfg else cfg\<lparr>cfg_Storage := denyPoliciesCalling (cfg_Storage cfg) missing\<rparr>)"

definition applyStatements :: "'c Migrator \<Rightarrow> stmt list \<Rightarrow> 'c dbstate \<Rightarrow> migrate_error option \<times> 'c dbstate" where
  "applyStatements m stmts st =
     (if stmts = [] then (None, st)
      else case fails m ''begin'' of Some e \<Rightarrow> (Some e, st) | None \<Rightarrow>
       (case execAll (pg_exec (mg_db m)) stmts (st_catalog st) of
          Inl e \<Rightarrow> (Some (ErrDB ''exec'' e), st)
        | Inr c \<Rightarrow>
            (case fails m ''commit'' of Some e \<Rightarrow> (Some e, st) | None \<Rightarrow> (None, st\<lparr>st_catalog := c\<rparr>))))"

definition ProvisionIdempotent :: "'c Migrator \<Rightarrow> Config \<Rightarrow> 'c dbstate \<Rightarrow> migrate_error option \<times> 'c dbstate" where
  "ProvisionIdempotent m cfg st =
     (case missingStorageRPCs (pg_existingRPCs (mg_db m) (st_catalog st)) cfg of
        Inl e \<Rightarrow> (Some (ErrDB ''provision'' e), st)
      | Inr missing \<Rightarrow> applyStatements m (idempotentProvisioning (provisionConfig cfg missing) (mg_roles m)) st)"

text \<open>
  \<open>Harden\<close> re-emits the storage policies of the applied configuration that were made before restrictive
  policies were scoped to their bucket; the statement asks the catalogue first.
\<close>

definition restrictiveNames :: "string \<Rightarrow> RLSPolicy list \<Rightarrow> string list" where
  "restrictiveNames name policies =
     concat (map (\<lambda>(i, p). if rls_Type p \<noteq> ''restrictive'' then []
        else map (\<lambda>op. [CHR 0x27] @ policyName (''storage_'' @ name) op i @ [CHR 0x27]) (rls_Operations p))
       (List.enumerate 0 policies))"

definition unscoped :: "string \<Rightarrow> string \<Rightarrow> string" where
  \<open>unscoped name col =
     ''position('bucket_id <> '' @ [CHR 0x27, CHR 0x27] @ name @ [CHR 0x27, CHR 0x27, CHR 0x27] @ '' IN '' @ col @ '') = 0''\<close>

definition healBucket :: "Bucket gmap \<Rightarrow> string \<Rightarrow> string list" where
  \<open>healBucket storage name =
     (let bucket = bucketOf storage name; names = restrictiveNames name (bkt_RLS bucket) in
      if names = [] then []
      else [sqlLines
        [''IF EXISTS (SELECT 1 FROM pg_policies WHERE schemaname = 'storage' AND tablename = 'objects' AND policyname IN ('' @
           commas names @ '') AND ((qual IS NOT NULL AND '' @ unscoped name ''qual'' @
           '') OR (with_check IS NOT NULL AND '' @ unscoped name ''with_check'' @ ''))) THEN'',
         sqlLines (map stmtText (generateStorageRLS name bucket)), ''END IF;'']])\<close>

definition healStorageRLS :: "Bucket gmap \<Rightarrow> stmt list" where
  \<open>healStorageRLS storage =
     (let body = concat (map (healBucket storage) (sortedKeys storage)) in
      dropPublicSelectGuarded storage @
      (if body = [] then []
       else [Sql (sqlLines [''DO $$ BEGIN'', ''IF to_regclass('storage.objects') IS NOT NULL THEN'',
               sqlLines body, ''END IF;'', ''END $$;''])]))\<close>

definition appliedStorage :: "Codec \<Rightarrow> Migration option \<Rightarrow> Bucket gmap" where
  "appliedStorage codec m =
     (case previousConfig codec m of None \<Rightarrow> [] | Some cfg \<Rightarrow> cfg_Storage cfg)"

text \<open>\<open>needFK\<close> is the answer to the catalogue query for the foreign key of \<open>uploaded_by\<close>.\<close>

definition hardenStatements :: "Roles \<Rightarrow> Config option \<Rightarrow> Bucket gmap \<Rightarrow> bool \<Rightarrow> stmt list" where
  "hardenStatements roles cfg applied needFK =
     generateJWTKeysTable @ generatePrivilegeRevokes roles @ generateSeedReadGrants roles @
     (case cfg of None \<Rightarrow> [] | Some c \<Rightarrow> if cfg_Auth c \<noteq> None then authHealDDL else []) @
     healStorageRLS applied @ (if needFK then [Sql storageUploadedByFKHeal] else [])"

section \<open>Dry run\<close>

text \<open>
  The dry run executes the plan with the destructive gate open, then every RPC once more with the bodies
  checked (\<open>checked\<close> is \<open>pg_exec\<close> under that setting), and rolls back: only its verdict is left. An
  error names the number of the statement.
\<close>

fun runNumbered :: "nat \<Rightarrow> (stmt \<Rightarrow> 'c \<Rightarrow> string + 'c) \<Rightarrow> stmt list \<Rightarrow> 'c \<Rightarrow> (nat \<times> stmt \<times> string) + 'c" where
  "runNumbered n ex [] c = Inr c"
| "runNumbered n ex (s # ss) c =
     (case ex s c of Inl e \<Rightarrow> Inl (n, s, e) | Inr c' \<Rightarrow> runNumbered (Suc n) ex ss c')"

datatype dryrun_error =
    DryRunPlan migrate_error
  | DryRunStatement nat stmt string

definition createMigrations :: stmt where
  "createMigrations = Sql ''CREATE TABLE _instancez_migrations (id bigserial PRIMARY KEY)''"

text \<open>The history table is created inside the rolled-back transaction when it is missing.\<close>

definition dryRunStart :: "'c Migrator \<Rightarrow> 'c dbstate \<Rightarrow> dryrun_error + 'c" where
  "dryRunStart m st =
     (if st_history st = None then
        (case pg_exec (mg_db m) createMigrations (st_catalog st) of
           Inl e \<Rightarrow> Inl (DryRunStatement 0 createMigrations e) | Inr c \<Rightarrow> Inr c)
      else case fails m ''last'' of Some e \<Rightarrow> Inl (DryRunPlan e) | None \<Rightarrow> Inr (st_catalog st))"

definition dryRunPlan :: "'c Migrator \<Rightarrow> Config \<Rightarrow> string \<Rightarrow> Migration option \<Rightarrow> 'c \<Rightarrow> migrate_error + stmt list" where
  "dryRunPlan m cfg checksum prev c =
     (if (case prev of None \<Rightarrow> True | Some row \<Rightarrow> mig_Checksum row \<noteq> checksum)
      then planStatements (mg_roles m) True (Some (pg_primaryKey (mg_db m) c)) (previousConfig (mg_codec m) prev) cfg
      else Inr [])"

definition DryRun :: "'c Migrator \<Rightarrow> (stmt \<Rightarrow> 'c \<Rightarrow> string + 'c) \<Rightarrow> Config \<Rightarrow> 'c dbstate \<Rightarrow> dryrun_error option" where
  "DryRun m checked cfg st =
     (case fails m ''begin'' of Some e \<Rightarrow> Some (DryRunPlan e) | None \<Rightarrow>
      (case marshalConfig (mg_codec m) cfg of Inl e \<Rightarrow> Some (DryRunPlan e) | Inr (js, checksum) \<Rightarrow>
       (case dryRunStart m st of Inl e \<Rightarrow> Some e | Inr c0 \<Rightarrow>
        (case dryRunPlan m cfg checksum (lastMigration st) c0 of Inl e \<Rightarrow> Some (DryRunPlan e) | Inr stmts \<Rightarrow>
         (case runNumbered 1 (pg_exec (mg_db m)) stmts c0 of
            Inl (n, s, e) \<Rightarrow> Some (DryRunStatement n s e)
          | Inr c1 \<Rightarrow>
              (case fails m ''check'' of Some e \<Rightarrow> Some (DryRunPlan e) | None \<Rightarrow>
               (case runNumbered (Suc (length stmts)) checked (rpcStatements cfg) c1 of
                  Inl (n, s, e) \<Rightarrow> Some (DryRunStatement n s e)
                | Inr _ \<Rightarrow> None)))))))"

end
