(* ===== verification/Catalog.thy ===== *)
theory Catalog
  imports Migrate_Plan
begin

text \<open>
  A specification of what the emitted statements do to a Postgres catalogue, in two views: the columns of
  every table with their type (normalised, as the migrator compares types) and nullability, and the row-level
  security of every table. A statement that Postgres refuses (a missing relation or column, a
  name already taken) is an error; \<open>IF EXISTS\<close> and \<open>IF NOT EXISTS\<close> make it a no-op. Foreign-key and index
  dependencies between objects are not part of the views.
\<close>

section \<open>The columns view\<close>

type_synonym tableInfo = "string \<rightharpoonup> string \<times> bool"
type_synonym schemaInfo = "relname \<rightharpoonup> tableInfo"

definition onTable :: "relname \<Rightarrow> (tableInfo \<Rightarrow> string + tableInfo) \<Rightarrow> schemaInfo \<Rightarrow> string + schemaInfo" where
  "onTable r f S =
     (case S r of None \<Rightarrow> Inl ''relation does not exist''
      | Some t \<Rightarrow> (case f t of Inl e \<Rightarrow> Inl e | Inr t' \<Rightarrow> Inr (S(r \<mapsto> t'))))"

definition onColumn :: "string \<Rightarrow> (string \<times> bool \<Rightarrow> string \<times> bool) \<Rightarrow> tableInfo \<Rightarrow> string + tableInfo" where
  "onColumn c f t =
     (case t c of None \<Rightarrow> Inl ''column does not exist'' | Some i \<Rightarrow> Inr (t(c \<mapsto> f i)))"

definition columnInfo :: "constr list \<Rightarrow> Column \<Rightarrow> string \<times> bool" where
  "columnInfo ks c =
     (Normalize (cl_Type c), cl_Required c \<or> cl_PrimaryKey c \<or>
        list_ex (\<lambda>k. case k of PrimaryKeyC cs \<Rightarrow> cl_Name c \<in> set cs | _ \<Rightarrow> False) ks)"

fun execT :: "stmt \<Rightarrow> schemaInfo \<Rightarrow> string + schemaInfo" where
  "execT (CreateTable r cs ks) S =
     (if S r \<noteq> None then Inr S
      else if \<not> distinct (map cl_Name cs) then Inl ''column specified more than once''
      else Inr (S(r \<mapsto> map_of (map (\<lambda>c. (cl_Name c, columnInfo ks c)) cs))))"
| "execT (DropTable r) S = Inr (S(r := None))"
| "execT (RenameTable r n) S =
     (case S r of None \<Rightarrow> Inl ''relation does not exist''
      | Some t \<Rightarrow> if S (fst r, n) \<noteq> None then Inl ''relation already exists''
                  else Inr (S(r := None, (fst r, n) \<mapsto> t)))"
| "execT (RenameColumn r a b) S =
     onTable r (\<lambda>t. case t a of None \<Rightarrow> Inl ''column does not exist''
       | Some i \<Rightarrow> if t b \<noteq> None then Inl ''column already exists'' else Inr (t(a := None, b \<mapsto> i))) S"
| "execT (AddColumn r c ref) S =
     onTable r (\<lambda>t. if t (cl_Name c) \<noteq> None then Inl ''column already exists''
       else Inr (t(cl_Name c \<mapsto> columnInfo [] c))) S"
| "execT (DropColumn r c) S = onTable r (\<lambda>t. Inr (t(c := None))) S"
| "execT (AddConstraint r k) S = onTable r Inr S"
| "execT (AlterType r c ty) S = onTable r (onColumn c (\<lambda>(_, n). (Normalize ty, n))) S"
| "execT (SetNotNull r c) S = onTable r (onColumn c (\<lambda>(ty, _). (ty, True))) S"
| "execT (DropNotNull r c) S = onTable r (onColumn c (\<lambda>(ty, _). (ty, False))) S"
| "execT _ S = Inr S"

fun columnFree :: "stmt \<Rightarrow> bool" where
  "columnFree (CreateTable _ _ _) = False"
| "columnFree (DropTable _) = False"
| "columnFree (RenameTable _ _) = False"
| "columnFree (RenameColumn _ _ _) = False"
| "columnFree (AddColumn _ _ _) = False"
| "columnFree (DropColumn _ _) = False"
| "columnFree (AddConstraint _ _) = False"
| "columnFree (AlterType _ _ _) = False"
| "columnFree (SetNotNull _ _) = False"
| "columnFree (DropNotNull _ _) = False"
| "columnFree _ = True"

lemma execT_free: "columnFree s \<Longrightarrow> execT s S = Inr S"
  by (cases s) auto

lemma execAll_append:
  "execAll ex (a @ b) c = (case execAll ex a c of Inl e \<Rightarrow> Inl e | Inr c' \<Rightarrow> execAll ex b c')"
  by (induction a arbitrary: c) (auto split: sum.splits)

lemma execAll_ConsI: "ex s c = Inr c' \<Longrightarrow> execAll ex ss c' = res \<Longrightarrow> execAll ex (s # ss) c = res"
  by simp

lemma execAll_appendI:
  "execAll ex a c = Inr c' \<Longrightarrow> execAll ex b c' = res \<Longrightarrow> execAll ex (a @ b) c = res"
  by (simp add: execAll_append)

lemma execAll_skip: "(\<And>s. s \<in> set ss \<Longrightarrow> ex s c = Inr c) \<Longrightarrow> execAll ex ss c = Inr c"
  by (induction ss) auto

text \<open>
  What the proofs use of a view: the statements it is quiet about leave the state alone, so a plan can be
  followed along the statements that matter.
\<close>

locale catalog_view =
  fixes ex :: "stmt \<Rightarrow> 'c \<Rightarrow> string + 'c" and quiet :: "'c \<Rightarrow> stmt \<Rightarrow> bool"
  assumes quiet_step: "quiet c s \<Longrightarrow> ex s c = Inr c"
begin

lemma exec_quiet: "list_all (quiet c) ss \<Longrightarrow> execAll ex ss c = Inr c"
  by (rule execAll_skip) (simp add: quiet_step list_all_iff)

lemma skip_quiet: "list_all (quiet c) a \<Longrightarrow> execAll ex (a @ b) c = execAll ex b c"
  by (simp add: execAll_append exec_quiet)

lemma only_block:
  assumes "distinct ns" and "n \<in> set ns" and "quiet w = quiet v"
    and "\<And>m. m \<in> set ns \<Longrightarrow> m \<noteq> n \<Longrightarrow> list_all (quiet v) (block m)"
    and "execAll ex (block n) v = Inr w"
  shows "execAll ex (concat (map block ns) @ rest) v = execAll ex rest w"
proof -
  from assms(2) obtain xs ys where ns: "ns = xs @ n # ys" by (meson split_list)
  have q: "(\<And>m. m \<in> set ms \<Longrightarrow> list_all (quiet v) (block m)) \<Longrightarrow> list_all (quiet v) (concat (map block ms))" for ms
    by (induction ms) auto
  have x: "list_all (quiet v) (concat (map block xs))" and y: "list_all (quiet w) (concat (map block ys))"
    unfolding assms(3) using assms(1,4) ns by (auto intro!: q)
  have "execAll ex (block n @ concat (map block ys) @ rest) v = execAll ex rest w"
    using execAll_appendI [OF assms(5) refl] skip_quiet [OF y] by simp
  then show ?thesis using skip_quiet [OF x] by (simp add: ns)
qed

end

interpretation columns: catalog_view execT "\<lambda>_. columnFree"
  by unfold_locales (rule execT_free)

lemmas execAll_free = columns.exec_quiet
lemmas execAll_skip_free = columns.skip_quiet

text \<open>Blocks of statements that each work on the entry of one table, for tables without a duplicate.\<close>

lemma execAll_blocks:
  assumes "distinct (map rel ns)"
    and "\<And>n S. n \<in> set ns \<Longrightarrow> S (rel n) = pre n \<Longrightarrow> execAll ex (block n) S = Inr (S(rel n := post n))"
    and "\<And>n. n \<in> set ns \<Longrightarrow> S (rel n) = pre n"
  shows "\<exists>S'. execAll ex (concat (map block ns)) S = Inr S' \<and>
    (\<forall>n \<in> set ns. S' (rel n) = post n) \<and> (\<forall>r. r \<notin> rel ` set ns \<longrightarrow> S' r = S r)"
  using assms
proof (induction ns arbitrary: S)
  case (Cons n ns)
  let ?S = "S(rel n := post n)"
  have n: "execAll ex (block n) S = Inr ?S" by (rule Cons.prems(2)) (simp_all add: Cons.prems(3))
  have "\<exists>S'. execAll ex (concat (map block ns)) ?S = Inr S' \<and>
      (\<forall>m \<in> set ns. S' (rel m) = post m) \<and> (\<forall>r. r \<notin> rel ` set ns \<longrightarrow> S' r = ?S r)"
  proof (rule Cons.IH)
    show "distinct (map rel ns)" using Cons.prems(1) by simp
    show "\<And>m S. m \<in> set ns \<Longrightarrow> S (rel m) = pre m \<Longrightarrow> execAll ex (block m) S = Inr (S(rel m := post m))"
      by (rule Cons.prems(2)) simp
    show "\<And>m. m \<in> set ns \<Longrightarrow> ?S (rel m) = pre m"
      using Cons.prems(1,3) by (auto simp: image_iff)
  qed
  then obtain S' where S': "execAll ex (concat (map block ns)) ?S = Inr S'"
    "\<forall>m \<in> set ns. S' (rel m) = post m" "\<forall>r. r \<notin> rel ` set ns \<longrightarrow> S' r = ?S r" by blast
  moreover have "S' (rel n) = post n" using Cons.prems(1) S'(3) by auto
  ultimately show ?case using n by (auto simp: execAll_append)
qed simp

end
