(* ===== verification/Migrate_Refinement.thy ===== *)
theory Migrate_Refinement
  imports Catalog
begin

text \<open>
  The plans refine the configuration: executed on the columns of one configuration, the statements of an update
  produce the columns of the next, with no statement refused; the first plan produces them from nothing.
\<close>

section \<open>The columns a configuration describes\<close>

definition wfTable :: "Table \<Rightarrow> bool" where
  "wfTable t = distinct (map fld_Name (tbl_Fields t))"

definition wfTables :: "Table gmap \<Rightarrow> bool" where
  "wfTables tables = (wfMap tables \<and> (\<forall>(_, t) \<in> set tables. wfTable t))"

definition colInfo :: "Table gmap \<Rightarrow> Field \<Rightarrow> string \<times> bool" where
  "colInfo tables f = (Normalize (EffectiveType f tables), fld_Required f \<or> fld_PrimaryKey f)"

definition fieldEntries :: "(Field \<Rightarrow> 'i) \<Rightarrow> Field list \<Rightarrow> (string \<times> 'i) list" where
  "fieldEntries g fs = map (\<lambda>f. (fld_Name f, g f)) fs"

definition shape :: "(Field \<Rightarrow> string \<times> bool) \<Rightarrow> Table \<Rightarrow> tableInfo" where
  "shape g t = map_of (fieldEntries g (tbl_Fields t))"

definition schemaVia :: "(Field \<Rightarrow> string \<times> bool) \<Rightarrow> Table gmap \<Rightarrow> schemaInfo" where
  "schemaVia g tables r =
     (case map_of tables (snd r) of None \<Rightarrow> None
      | Some t \<Rightarrow> if fst r = EffectiveSchema t then Some (shape g t) else None)"

definition schemaOf :: "Config \<Rightarrow> schemaInfo" where
  "schemaOf cfg = schemaVia (colInfo (cfg_Tables cfg)) (cfg_Tables cfg)"

lemma map_fst_fieldEntries [simp]: "map fst (fieldEntries g fs) = map fld_Name fs"
  by (simp add: fieldEntries_def)

lemma fst_set_fieldEntries [simp]: "fst ` set (fieldEntries g fs) = fld_Name ` set fs"
  by (simp add: fieldEntries_def image_image)

lemma dom_map_of_fieldEntries [simp]: "dom (map_of (fieldEntries g fs)) = fld_Name ` set fs"
  by (simp add: dom_map_of_conv_image_fst)

lemma fieldEntries_Cons [simp]: "fieldEntries g (f # fs) = (fld_Name f, g f) # fieldEntries g fs"
  and fieldEntries_Nil [simp]: "fieldEntries g [] = []"
  by (simp_all add: fieldEntries_def)

lemma wfTables_lookup: "wfTables tables \<Longrightarrow> map_of tables n = Some t \<Longrightarrow> wfTable t"
  by (auto simp: wfTables_def dest: map_of_SomeD)

lemma fieldEntries_lookup:
  "distinct (map fld_Name fs) \<Longrightarrow> f \<in> set fs \<Longrightarrow> map_of (fieldEntries g fs) (fld_Name f) = Some (g f)"
  by (induction fs) (auto simp: rev_image_eqI)

lemma FieldMap_lookup: "wfTable t \<Longrightarrow> f \<in> set (tbl_Fields t) \<Longrightarrow> map_of (FieldMap t) (fld_Name f) = Some f"
proof -
  assume w: "wfTable t" and f: "f \<in> set (tbl_Fields t)"
  then obtain h where h: "map_of (FieldMap t) (fld_Name f) = Some h"
    using FieldMap_None [of t "fld_Name f"] by auto
  with FieldMap_values [OF h] w f have "h = f" by (auto simp: wfTable_def distinct_map inj_on_def)
  with h show ?thesis by simp
qed

lemma EffectiveType_cong:
  "fld_Type f = fld_Type g \<Longrightarrow> fld_ForeignKey f = fld_ForeignKey g \<Longrightarrow> EffectiveType f tables = EffectiveType g tables"
  by (simp add: EffectiveType_def effectiveType.simps [of tables f] effectiveType.simps [of tables g] cong: option.case_cong)

lemma EffectiveType_upd [simp]:
  "EffectiveType (f\<lparr>fld_PrimaryKey := b\<rparr>) tables = EffectiveType f tables"
  "EffectiveType (f\<lparr>fld_Name := n\<rparr>) tables = EffectiveType f tables"
  by (rule EffectiveType_cong; simp)+

lemma EffectiveSchema_fields [simp]: "EffectiveSchema (t\<lparr>tbl_Fields := fs\<rparr>) = EffectiveSchema t"
  by (simp add: EffectiveSchema_def)

section \<open>One entry per table\<close>

text \<open>
  While a plan runs, every statement about the table \<open>n\<close> addresses the relation \<open>rel n\<close>, so the view is a
  function of the name: \<open>spread rel E\<close>.
\<close>

definition spread :: "(string \<Rightarrow> relname) \<Rightarrow> (string \<Rightarrow> 'a option) \<Rightarrow> relname \<Rightarrow> 'a option" where
  "spread rel E r = (if rel (snd r) = r then E (snd r) else None)"

lemma spread_rel: "(\<And>n. snd (rel n) = n) \<Longrightarrow> spread rel E (rel n) = E n"
  by (simp add: spread_def)

lemma spread_cong: "(\<And>n. E n = E' n) \<Longrightarrow> spread rel E = spread rel E'"
  by (rule ext) (simp add: spread_def)

lemma blocks_spread:
  assumes "distinct ns" and rel: "\<And>n. snd (rel n) = n"
    and "\<And>n S. n \<in> set ns \<Longrightarrow> S (rel n) = E n \<Longrightarrow> execAll ex (block n) S = Inr (S(rel n := E' n))"
  shows "execAll ex (concat (map block ns)) (spread rel E) =
    Inr (spread rel (\<lambda>n. if n \<in> set ns then E' n else E n))"
proof -
  have "inj rel" using rel by (metis injI)
  then have "distinct (map rel ns)" using assms(1) by (simp add: distinct_map inj_on_def)
  from execAll_blocks [OF this assms(3)] obtain S where
    S: "execAll ex (concat (map block ns)) (spread rel E) = Inr S"
    "\<forall>n \<in> set ns. S (rel n) = E' n" "\<forall>r. r \<notin> rel ` set ns \<longrightarrow> S r = spread rel E r"
    using spread_rel [OF rel] by blast
  have "S = spread rel (\<lambda>n. if n \<in> set ns then E' n else E n)"
  proof
    fix r
    show "S r = spread rel (\<lambda>n. if n \<in> set ns then E' n else E n) r"
    proof (cases "r \<in> rel ` set ns")
      case True
      then obtain n where "r = rel n" "n \<in> set ns" by blast
      with S(2) rel show ?thesis by (simp add: spread_def)
    next
      case False
      then have "rel (snd r) \<noteq> r \<or> snd r \<notin> set ns" by (metis image_eqI)
      moreover have "S r = spread rel E r" using S(3) False by blast
      ultimately show ?thesis unfolding spread_def by presburger
    qed
  qed
  with S(1) show ?thesis by simp
qed

section \<open>The statements of one table\<close>

lemma exec_DropColumns:
  "S r = Some t \<Longrightarrow> execAll execT (map (DropColumn r) cs) S = Inr (S(r \<mapsto> t |` (- set cs)))"
proof (induction cs arbitrary: S t)
  case Nil
  then show ?case by (auto simp: fun_upd_idem)
next
  case (Cons c cs)
  have eq: "t(c := None) |` (- set cs) = t |` (- set (c # cs))"
    by (rule ext) (auto simp: restrict_map_def)
  have "execT (DropColumn r c) S = Inr (S(r \<mapsto> t(c := None)))"
    using Cons.prems by (simp add: onTable_def)
  moreover have "execAll execT (map (DropColumn r) cs) (S(r \<mapsto> t(c := None))) =
      Inr ((S(r \<mapsto> t(c := None)))(r \<mapsto> t(c := None) |` (- set cs)))"
    by (rule Cons.IH) (rule fun_upd_same)
  ultimately show ?case unfolding eq list.map by (simp only: execAll.simps sum.case fun_upd_upd)
qed

lemma exec_DropTables: "execAll execT (map DropTable rs) S = Inr (\<lambda>r. if r \<in> set rs then None else S r)"
  by (induction rs arbitrary: S) (auto intro!: ext)

lemma columnInfo_formatColumn [simp]: "columnInfo [] (formatColumn n f tables) = colInfo tables f"
  by (simp add: columnInfo_def formatColumn_def colInfo_def)

lemma exec_AddConstraints: "S r = Some t \<Longrightarrow> execAll execT (map (AddConstraint r) ks) S = Inr S"
  by (rule execAll_skip) (auto simp: onTable_def fun_upd_idem)

lemma exec_newColumn:
  assumes "S r = Some t" and "t (fld_Name f) = None"
  shows "execAll execT (newColumn r tables f) S = Inr (S(r \<mapsto> t(fld_Name f \<mapsto> colInfo tables f)))"
proof -
  have "execT (AddColumn r (formatColumn (fld_Name f) f tables) ref) S =
      Inr (S(r \<mapsto> t(fld_Name f \<mapsto> colInfo tables f)))" for ref
    using assms by (simp add: onTable_def) (simp add: formatColumn_def)
  then show ?thesis
    by (simp add: newColumn_def formatColumnForAdd_def exec_AddConstraints del: execT.simps)
qed

lemma exec_newColumns:
  "S r = Some t \<Longrightarrow> distinct (map fld_Name fs) \<Longrightarrow> dom t \<inter> fld_Name ` set fs = {} \<Longrightarrow>
   execAll execT (concat (map (newColumn r tables) fs)) S =
     Inr (S(r \<mapsto> t ++ map_of (fieldEntries (colInfo tables) fs)))"
proof (induction fs arbitrary: S t)
  case Nil
  then show ?case by (simp add: fun_upd_idem)
next
  case (Cons f fs)
  let ?t = "t(fld_Name f \<mapsto> colInfo tables f)"
  have "t (fld_Name f) = None" using Cons.prems(3) by auto
  with Cons.prems(1) have n: "execAll execT (newColumn r tables f) S = Inr (S(r \<mapsto> ?t))" by (rule exec_newColumn)
  have "dom ?t \<inter> fld_Name ` set fs = {}"
    using Cons.prems(2,3) by (simp del: fun_upd_apply)
  then have "execAll execT (concat (map (newColumn r tables) fs)) (S(r \<mapsto> ?t)) =
      Inr ((S(r \<mapsto> ?t))(r \<mapsto> ?t ++ map_of (fieldEntries (colInfo tables) fs)))"
    using Cons.prems(2) by (intro Cons.IH) (simp_all del: fun_upd_apply add: fun_upd_same)
  moreover have "?t ++ map_of (fieldEntries (colInfo tables) fs) =
      t ++ map_of (fieldEntries (colInfo tables) (f # fs))"
    using Cons.prems(2) by (simp add: map_add_upd_left del: fun_upd_apply)
  ultimately show ?case using n
    by (simp only: list.map concat.simps execAll_append sum.case fun_upd_upd)
qed

lemma exec_columnChange:
  assumes "S r = Some t"
    and "t (fld_Name f) = Some (case map_of (FieldMap oldTable) (fld_Name f) of
            Some k \<Rightarrow> colInfo (cfg_Tables old) k | None \<Rightarrow> colInfo (cfg_Tables new) f)"
  shows "execAll execT (columnChange old new r oldTable f) S =
    Inr (S(r \<mapsto> t(fld_Name f \<mapsto> colInfo (cfg_Tables new) f)))"
proof (cases "map_of (FieldMap oldTable) (fld_Name f)")
  case None
  with assms show ?thesis by (auto simp: columnChange_def fun_upd_idem)
next
  case (Some k)
  let ?ot = "Normalize (EffectiveType k (cfg_Tables old))" and ?nt = "Normalize (EffectiveType f (cfg_Tables new))"
  let ?on = "fld_Required k \<or> fld_PrimaryKey k" and ?nn = "fld_Required f \<or> fld_PrimaryKey f"
  have t: "t (fld_Name f) = Some (?ot, ?on)" using Some assms(2) by (simp add: colInfo_def)
  let ?type = "if ?nt \<noteq> ?ot then [AlterType r (fld_Name f) (EffectiveType f (cfg_Tables new))] else []"
  let ?null = "if ?nn \<noteq> ?on then (if ?nn then [SetNotNull r (fld_Name f)] else [DropNotNull r (fld_Name f)]) else []"
  let ?t = "t(fld_Name f \<mapsto> (?nt, ?on))"
  have "columnChange old new r oldTable f = ?type @ ?null"
    using Some by (simp add: columnChange_def Let_def)
  moreover have "execAll execT ?type S = Inr (S(r \<mapsto> ?t))"
    using t assms(1) by (cases "?nt = ?ot") (simp_all add: onTable_def onColumn_def fun_upd_idem)
  moreover have "execAll execT ?null (S(r \<mapsto> ?t)) = Inr (S(r \<mapsto> t(fld_Name f \<mapsto> (?nt, ?nn))))"
    by (cases "?nn = ?on"; cases ?nn) (simp_all add: onTable_def onColumn_def fun_upd_idem)
  ultimately show ?thesis by (simp only: execAll_append sum.case colInfo_def)
qed

lemma exec_columnChanges:
  "S r = Some t \<Longrightarrow> distinct (map fld_Name fs) \<Longrightarrow>
   (\<And>f. f \<in> set fs \<Longrightarrow> t (fld_Name f) = Some (case map_of (FieldMap oldTable) (fld_Name f) of
            Some k \<Rightarrow> colInfo (cfg_Tables old) k | None \<Rightarrow> colInfo (cfg_Tables new) f)) \<Longrightarrow>
   execAll execT (concat (map (columnChange old new r oldTable) fs)) S =
     Inr (S(r \<mapsto> t ++ map_of (fieldEntries (colInfo (cfg_Tables new)) fs)))"
proof (induction fs arbitrary: S t)
  case Nil
  then show ?case by (simp add: fun_upd_idem)
next
  case (Cons f fs)
  let ?t = "t(fld_Name f \<mapsto> colInfo (cfg_Tables new) f)"
  have n: "execAll execT (columnChange old new r oldTable f) S = Inr (S(r \<mapsto> ?t))"
    using Cons.prems by (intro exec_columnChange) auto
  have "execAll execT (concat (map (columnChange old new r oldTable) fs)) (S(r \<mapsto> ?t)) =
      Inr ((S(r \<mapsto> ?t))(r \<mapsto> ?t ++ map_of (fieldEntries (colInfo (cfg_Tables new)) fs)))"
  proof (rule Cons.IH)
    show "\<And>h. h \<in> set fs \<Longrightarrow> ?t (fld_Name h) = Some (case map_of (FieldMap oldTable) (fld_Name h) of
            Some k \<Rightarrow> colInfo (cfg_Tables old) k | None \<Rightarrow> colInfo (cfg_Tables new) h)"
    proof -
      fix h assume h: "h \<in> set fs"
      then have "fld_Name h \<noteq> fld_Name f" using Cons.prems(2) by (auto simp: rev_image_eqI)
      then show "?t (fld_Name h) = Some (case map_of (FieldMap oldTable) (fld_Name h) of
            Some k \<Rightarrow> colInfo (cfg_Tables old) k | None \<Rightarrow> colInfo (cfg_Tables new) h)"
        using Cons.prems(3) [of h] h by simp
    qed
  qed (use Cons.prems(2) in \<open>simp_all del: fun_upd_apply add: fun_upd_same\<close>)
  moreover have "?t ++ map_of (fieldEntries (colInfo (cfg_Tables new)) fs) =
      t ++ map_of (fieldEntries (colInfo (cfg_Tables new)) (f # fs))"
    using Cons.prems(2) by (simp add: map_add_upd_left del: fun_upd_apply)
  ultimately show ?case using n
    by (simp only: list.map concat.simps execAll_append sum.case fun_upd_upd)
qed

section \<open>The passes of a difference\<close>

definition relOf :: "Config \<Rightarrow> Config \<Rightarrow> string \<Rightarrow> relname" where
  "relOf old new n =
     tableRel n (case map_of (cfg_Tables old) n of Some t \<Rightarrow> t | None \<Rightarrow> tableOf (cfg_Tables new) n)"

definition sameSchemas :: "Config \<Rightarrow> Config \<Rightarrow> bool" where
  "sameSchemas old new =
     (\<forall>(n, t) \<in> set (cfg_Tables old).
        case map_of (cfg_Tables new) n of None \<Rightarrow> True | Some t' \<Rightarrow> EffectiveSchema t = EffectiveSchema t')"

text \<open>What each table looks like after the passes of \<open>diffConfigs\<close> that touch columns.\<close>

definition droppedFields :: "Table \<Rightarrow> Table \<Rightarrow> Field list" where
  "droppedFields ot nt = filter (\<lambda>f. \<not> mapHas (FieldMap nt) (fld_Name f)) (tbl_Fields ot)"

definition addedFields :: "Table \<Rightarrow> Table \<Rightarrow> Field list" where
  "addedFields ot nt = filter (\<lambda>f. \<not> mapHas (FieldMap ot) (fld_Name f)) (tbl_Fields nt)"

definition stageOld :: "Config \<Rightarrow> string \<Rightarrow> tableInfo option" where
  "stageOld cfg n = map_option (shape (colInfo (cfg_Tables cfg))) (map_of (cfg_Tables cfg) n)"

definition keptColumns :: "Config \<Rightarrow> Table \<Rightarrow> Table \<Rightarrow> tableInfo" where
  "keptColumns old ot nt = shape (colInfo (cfg_Tables old)) ot |` (- set (map fld_Name (droppedFields ot nt)))"

definition stageDropColumns :: "Config \<Rightarrow> Config \<Rightarrow> string \<Rightarrow> tableInfo option" where
  "stageDropColumns old new n =
     (case (map_of (cfg_Tables old) n, map_of (cfg_Tables new) n) of
        (Some ot, Some nt) \<Rightarrow> Some (keptColumns old ot nt)
      | _ \<Rightarrow> stageOld old n)"

definition stageDropTables :: "Config \<Rightarrow> Config \<Rightarrow> string \<Rightarrow> tableInfo option" where
  "stageDropTables old new n =
     (if map_of (cfg_Tables new) n = None then None else stageDropColumns old new n)"

definition stageNewTables :: "Config \<Rightarrow> Config \<Rightarrow> string \<Rightarrow> tableInfo option" where
  "stageNewTables old new n =
     (if map_of (cfg_Tables old) n = None then stageOld new n else stageDropTables old new n)"

definition stageNewColumns :: "Config \<Rightarrow> Config \<Rightarrow> string \<Rightarrow> tableInfo option" where
  "stageNewColumns old new n =
     (case (map_of (cfg_Tables old) n, map_of (cfg_Tables new) n) of
        (Some ot, Some nt) \<Rightarrow>
          Some (keptColumns old ot nt ++ map_of (fieldEntries (colInfo (cfg_Tables new)) (addedFields ot nt)))
      | _ \<Rightarrow> stageOld new n)"

lemma snd_relOf [simp]: "snd (relOf old new n) = n"
  by (simp add: relOf_def tableRel_def)

lemma lookupOr_Some [simp]: "map_of m k = Some v \<Longrightarrow> lookupOr d m k = v"
  by (simp add: lookupOr_def)

lemma relOf_old: "map_of (cfg_Tables old) n = Some t \<Longrightarrow> relOf old new n = tableRel n t"
  by (simp add: relOf_def)

lemma relOf_new:
  "sameSchemas old new \<Longrightarrow> map_of (cfg_Tables new) n = Some t \<Longrightarrow> relOf old new n = tableRel n t"
  by (fastforce simp: relOf_def sameSchemas_def tableRel_def split: option.splits dest: map_of_SomeD)

lemma sortedKeys_Some: "n \<in> set (sortedKeys m) \<Longrightarrow> \<exists>v. map_of m n = Some v"
  by (metis map_of_eq_None_iff not_Some_eq set_sortedKeys)

lemma not_sortedKeys: "n \<notin> fst ` set m \<Longrightarrow> map_of m n = None"
  by (metis map_of_eq_None_iff)

lemma schemaOf_spread:
  assumes "sameSchemas old new"
  shows "schemaOf old = spread (relOf old new) (stageOld old)"
    and "schemaOf new = spread (relOf old new) (stageOld new)"
proof -
  show "schemaOf old = spread (relOf old new) (stageOld old)"
  proof
    fix r
    show "schemaOf old r = spread (relOf old new) (stageOld old) r"
      by (cases r; cases "map_of (cfg_Tables old) (snd r)")
        (auto simp: schemaOf_def schemaVia_def spread_def stageOld_def relOf_old tableRel_def)
  qed
  show "schemaOf new = spread (relOf old new) (stageOld new)"
  proof
    fix r
    show "schemaOf new r = spread (relOf old new) (stageOld new) r"
      by (cases r; cases "map_of (cfg_Tables new) (snd r)")
        (auto simp: schemaOf_def schemaVia_def spread_def stageOld_def relOf_new [OF assms] tableRel_def)
  qed
qed

lemma pass_spread:
  assumes "distinct ns"
    and "\<And>n S. n \<in> set ns \<Longrightarrow> S (relOf old new n) = E n \<Longrightarrow>
      execAll execT (block n) S = Inr (S(relOf old new n := E' n))"
    and "\<And>n. n \<notin> set ns \<Longrightarrow> E' n = E n"
  shows "execAll execT (concat (map block ns)) (spread (relOf old new) E) = Inr (spread (relOf old new) E')"
proof -
  have "spread (relOf old new) (\<lambda>n. if n \<in> set ns then E' n else E n) = spread (relOf old new) E'"
    by (rule spread_cong) (simp add: assms(3))
  with blocks_spread [where E = E and E' = E', OF assms(1) snd_relOf assms(2)] show ?thesis by simp
qed

lemma removedColumns_blocks:
  "fst (diffRemovedColumns old new) =
     concat (map (\<lambda>n. map (\<lambda>(r, c). DropColumn r c) (tableRemovedColumns old new n)) (sortedKeys (cfg_Tables old)))"
  by (simp add: diffRemovedColumns_def removedColumns_def map_concat comp_def)

lemma pass_dropColumns:
  assumes "wfTables (cfg_Tables old)"
  shows "execAll execT (fst (diffRemovedColumns old new)) (spread (relOf old new) (stageOld old)) =
    Inr (spread (relOf old new) (stageDropColumns old new))"
  unfolding removedColumns_blocks
proof (rule pass_spread)
  show "distinct (sortedKeys (cfg_Tables old))" using assms by (simp add: wfTables_def distinct_sortedKeys)
  show "\<And>n. n \<notin> set (sortedKeys (cfg_Tables old)) \<Longrightarrow> stageDropColumns old new n = stageOld old n"
    by (simp add: stageDropColumns_def not_sortedKeys)
next
  fix n S assume n: "n \<in> set (sortedKeys (cfg_Tables old))" and S: "S (relOf old new n) = stageOld old n"
  from sortedKeys_Some [OF n] obtain ot where ot: "map_of (cfg_Tables old) n = Some ot" by blast
  show "execAll execT (map (\<lambda>(r, c). DropColumn r c) (tableRemovedColumns old new n)) S =
      Inr (S(relOf old new n := stageDropColumns old new n))"
  proof (cases "map_of (cfg_Tables new) n")
    case None
    with ot S show ?thesis by (simp add: tableRemovedColumns_def stageDropColumns_def fun_upd_idem)
  next
    case (Some nt)
    have b: "map (\<lambda>(r, c). DropColumn r c) (tableRemovedColumns old new n) =
        map (DropColumn (relOf old new n)) (map fld_Name (droppedFields ot nt))"
      using ot Some by (simp add: tableRemovedColumns_def droppedFields_def relOf_old)
    have "S (relOf old new n) = Some (shape (colInfo (cfg_Tables old)) ot)"
      using S ot by (simp add: stageOld_def)
    note exec_DropColumns [of S "relOf old new n", OF this]
    then show ?thesis unfolding b using ot Some by (simp only: stageDropColumns_def keptColumns_def option.case prod.case)
  qed
qed

lemma pass_dropTables:
  "execAll execT (fst (diffRemovedTables old new)) (spread (relOf old new) (stageDropColumns old new)) =
    Inr (spread (relOf old new) (stageDropTables old new))"
proof -
  have r: "set (removedTables old new) = {relOf old new n | n. map_of (cfg_Tables old) n \<noteq> None \<and> map_of (cfg_Tables new) n = None}"
    (is "_ = ?R")
  proof -
    have "relOf old new n = tableRel n (tableOf (cfg_Tables old) n)" if "n \<in> fst ` set (cfg_Tables old)" for n
      using that sortedKeys_Some [of n "cfg_Tables old"] by (auto simp: relOf_old)
    then have "set (removedTables old new) = relOf old new ` {n \<in> fst ` set (cfg_Tables old). \<not> mapHas (cfg_Tables new) n}"
      by (auto simp: removedTables_def)
    also have "\<dots> = ?R" by (auto simp: mapHas_def map_of_eq_None_iff)
    finally show ?thesis .
  qed
  have "(\<lambda>r. if r \<in> set (removedTables old new) then None else spread (relOf old new) (stageDropColumns old new) r) =
      spread (relOf old new) (stageDropTables old new)"
  proof
    fix q
    show "(if q \<in> set (removedTables old new) then None else spread (relOf old new) (stageDropColumns old new) q) =
        spread (relOf old new) (stageDropTables old new) q"
    proof (cases "q \<in> set (removedTables old new)")
      case True
      then obtain n where "q = relOf old new n" "map_of (cfg_Tables new) n = None" unfolding r by blast
      with True show ?thesis by (simp add: spread_def stageDropTables_def)
    next
      case False
      then have "relOf old new (snd q) = q \<Longrightarrow> map_of (cfg_Tables new) (snd q) = None \<Longrightarrow>
          map_of (cfg_Tables old) (snd q) = None" unfolding r by force
      with False show ?thesis
        by (auto simp: spread_def stageDropTables_def stageDropColumns_def stageOld_def)
    qed
  qed
  then show ?thesis by (simp add: diffRemovedTables_def exec_DropTables)
qed

text \<open>A created table gets each of its columns; a composite key makes its columns not null.\<close>

lemma set_pkFirst [simp]: "set (pkFirst fs) = set fs"
  by (simp add: pkFirst_def)

lemma distinct_pkFirst: "distinct (map fld_Name (pkFirst fs)) = distinct (map fld_Name fs)"
  by (simp add: pkFirst_def distinct_map) 

lemma map_of_pkFirst:
  assumes "distinct (map fld_Name fs)"
  shows "map_of (fieldEntries g (pkFirst fs)) = map_of (fieldEntries g fs)"
proof (rule map_of_inject_set [THEN iffD2])
  show "distinct (map fst (fieldEntries g (pkFirst fs)))" "distinct (map fst (fieldEntries g fs))"
    using assms by (simp_all add: distinct_pkFirst)
  show "set (fieldEntries g (pkFirst fs)) = set (fieldEntries g fs)"
    by (simp add: fieldEntries_def)
qed

lemma no_PrimaryKeyC:
  "k \<in> set (foreignKeyConstraint name t f @ checkConstraints f) \<Longrightarrow> k \<noteq> PrimaryKeyC cs"
  by (auto simp: foreignKeyConstraint_def checkConstraints_def split: option.splits sum.splits if_splits prod.splits)
    (metis sumE prod_cases3)

definition tableConstraints :: "string \<Rightarrow> Table \<Rightarrow> constr list" where
  "tableConstraints name t =
     concat (map (\<lambda>f. foreignKeyConstraint name t f @ checkConstraints f) (pkFirst (tbl_Fields t))) @
     (if 1 < length (PrimaryKeyColumns t) then [PrimaryKeyC (PrimaryKeyColumns t)] else [])"

definition tableColumns :: "Table \<Rightarrow> Table gmap \<Rightarrow> Column list" where
  "tableColumns t tables =
     map (\<lambda>f. formatColumn (fld_Name f)
       (if 1 < length (PrimaryKeyColumns t) then f\<lparr>fld_PrimaryKey := False\<rparr> else f) tables) (pkFirst (tbl_Fields t))"

lemma generateTable_alt:
  "generateTable name t tables = [CreateTable (tableRel name t) (tableColumns t tables) (tableConstraints name t)]"
  by (simp add: generateTable_def tableColumns_def tableConstraints_def Let_def)

lemma keyConstraint:
  "list_ex (\<lambda>k. case k of PrimaryKeyC cs \<Rightarrow> c \<in> set cs | _ \<Rightarrow> False) (tableConstraints name t) \<longleftrightarrow>
     1 < length (PrimaryKeyColumns t) \<and> c \<in> set (PrimaryKeyColumns t)"
proof -
  have "\<not> (case k of PrimaryKeyC cs \<Rightarrow> c \<in> set cs | _ \<Rightarrow> False)"
    if "k \<in> set (foreignKeyConstraint name t f @ checkConstraints f)" for k f
    using no_PrimaryKeyC [OF that] by (cases k) auto
  then have "\<not> list_ex (\<lambda>k. case k of PrimaryKeyC cs \<Rightarrow> c \<in> set cs | _ \<Rightarrow> False)
      (concat (map (\<lambda>f. foreignKeyConstraint name t f @ checkConstraints f) (pkFirst (tbl_Fields t))))"
    by (simp add: list_ex_iff del: set_append)
  then show ?thesis by (simp add: tableConstraints_def)
qed

lemma createdColumns:
  assumes "wfTable t"
  shows "map_of (map (\<lambda>c. (cl_Name c, columnInfo (tableConstraints name t) c)) (tableColumns t tables)) =
    shape (colInfo tables) t"
proof -
  have "columnInfo (tableConstraints name t) (formatColumn (fld_Name f)
        (if 1 < length (PrimaryKeyColumns t) then f\<lparr>fld_PrimaryKey := False\<rparr> else f) tables) = colInfo tables f"
    if f: "f \<in> set (tbl_Fields t)" for f
  proof -
    have "fld_Name f \<in> set (PrimaryKeyColumns t) \<longleftrightarrow> fld_PrimaryKey f"
      using f assms by (auto simp: PrimaryKeyColumns_def wfTable_def distinct_map inj_on_def)
    then show ?thesis
      unfolding columnInfo_def by (auto simp: keyConstraint formatColumn_def colInfo_def)
  qed
  then have "map (\<lambda>c. (cl_Name c, columnInfo (tableConstraints name t) c)) (tableColumns t tables) =
      fieldEntries (colInfo tables) (pkFirst (tbl_Fields t))"
    by (simp add: tableColumns_def fieldEntries_def) (simp add: formatColumn_def)
  with assms show ?thesis by (simp add: map_of_pkFirst shape_def wfTable_def)
qed

lemma exec_generateTable:
  assumes "wfTable t" and "S (tableRel name t) = None"
  shows "execAll execT (generateTable name t tables) S =
    Inr (S(tableRel name t \<mapsto> shape (colInfo tables) t))"
proof -
  have "map cl_Name (tableColumns t tables) = map fld_Name (pkFirst (tbl_Fields t))"
    by (simp add: tableColumns_def formatColumn_def)
  then have "distinct (map cl_Name (tableColumns t tables))"
    using assms(1) by (simp add: distinct_pkFirst wfTable_def)
  with assms show ?thesis by (simp add: generateTable_alt createdColumns)
qed

lemma free_indexes [simp]: "list_all columnFree (generateIndexes n t)"
  by (auto simp: generateIndexes_def generateIndex_def list_all_iff)

lemma free_deferred [simp]: "list_all columnFree (generateDeferredFKs n t)"
  by (auto simp: generateDeferredFKs_def deferredFK_def list_all_iff
    split: option.splits sum.splits if_splits)

lemma free_guards [simp]: "list_all columnFree (generateGuards n t)"
  by (auto simp: generateGuards_def split: prod.splits)

lemma pass_newTables:
  assumes "wfTables (cfg_Tables new)" and same: "sameSchemas old new"
  shows "execAll execT (diffNewTables old new) (spread (relOf old new) (stageDropTables old new)) =
    Inr (spread (relOf old new) (stageNewTables old new))"
  unfolding diffNewTables_def
proof (rule pass_spread)
  show "distinct (orderTables (cfg_Tables new))" by (rule distinct_orderTables)
  show "stageNewTables old new n = stageDropTables old new n" if "n \<notin> set (orderTables (cfg_Tables new))" for n
    using that by (simp add: stageNewTables_def stageDropTables_def stageOld_def not_sortedKeys)
next
  fix n S assume n: "n \<in> set (orderTables (cfg_Tables new))" and S: "S (relOf old new n) = stageDropTables old new n"
  from orderTables_lookup [OF n] obtain nt where nt: "map_of (cfg_Tables new) n = Some nt" by blast
  show "execAll execT (newTable old new n) S = Inr (S(relOf old new n := stageNewTables old new n))"
  proof (cases "map_of (cfg_Tables old) n")
    case None
    have "S (tableRel n nt) = None"
      using S None nt relOf_new [OF same nt] by (simp add: stageDropTables_def stageDropColumns_def stageOld_def)
    with exec_generateTable [of nt S n "cfg_Tables new"] wfTables_lookup [OF assms(1) nt]
    have "execAll execT (generateTable n nt (cfg_Tables new)) S =
        Inr (S(tableRel n nt \<mapsto> shape (colInfo (cfg_Tables new)) nt))" by blast
    with None nt relOf_new [OF same nt] show ?thesis
      by (simp add: newTable_def mapHas_def execAll_append execAll_free stageNewTables_def stageOld_def)
  next
    case (Some ot)
    with S show ?thesis by (simp add: newTable_def mapHas_def stageNewTables_def fun_upd_idem)
  qed
qed

lemma pass_newColumns:
  assumes "wfTables (cfg_Tables new)" and same: "sameSchemas old new"
  shows "execAll execT (diffNewColumns old new) (spread (relOf old new) (stageNewTables old new)) =
    Inr (spread (relOf old new) (stageNewColumns old new))"
  unfolding diffNewColumns_def
proof (rule pass_spread)
  show "distinct (sortedKeys (cfg_Tables new))" using assms(1) by (simp add: wfTables_def distinct_sortedKeys)
  show "stageNewColumns old new n = stageNewTables old new n" if "n \<notin> set (sortedKeys (cfg_Tables new))" for n
    using that by (auto simp: stageNewColumns_def stageNewTables_def stageDropTables_def stageOld_def not_sortedKeys
      split: option.splits)
next
  fix n S assume n: "n \<in> set (sortedKeys (cfg_Tables new))" and S: "S (relOf old new n) = stageNewTables old new n"
  from sortedKeys_Some [OF n] obtain nt where nt: "map_of (cfg_Tables new) n = Some nt" by blast
  show "execAll execT (tableNewColumns old new n) S = Inr (S(relOf old new n := stageNewColumns old new n))"
  proof (cases "map_of (cfg_Tables old) n")
    case None
    with S nt show ?thesis by (simp add: tableNewColumns_def stageNewTables_def stageNewColumns_def fun_upd_idem)
  next
    case (Some ot)
    have b: "tableNewColumns old new n =
        concat (map (newColumn (relOf old new n) (cfg_Tables new)) (addedFields ot nt))"
      using Some nt by (simp add: tableNewColumns_def addedFields_def relOf_new [OF same nt])
    have k: "S (relOf old new n) = Some (keptColumns old ot nt)"
      using S Some nt by (simp add: stageNewTables_def stageDropTables_def stageDropColumns_def)
    have "distinct (map fld_Name (addedFields ot nt))"
      using wfTables_lookup [OF assms(1) nt] by (simp add: addedFields_def wfTable_def distinct_map inj_on_def)
    moreover have "dom (keptColumns old ot nt) \<inter> fld_Name ` set (addedFields ot nt) = {}"
      by (auto simp: keptColumns_def shape_def addedFields_def mapHas_FieldMap)
    ultimately have "execAll execT (concat (map (newColumn (relOf old new n) (cfg_Tables new)) (addedFields ot nt))) S =
        Inr (S(relOf old new n \<mapsto> keptColumns old ot nt ++
          map_of (fieldEntries (colInfo (cfg_Tables new)) (addedFields ot nt))))"
      by (intro exec_newColumns [of S "relOf old new n", OF k])
    then show ?thesis unfolding b using Some nt by (simp only: stageNewColumns_def option.case prod.case)
  qed
qed

lemma pass_columnChanges:
  assumes "wfTables (cfg_Tables old)" and "wfTables (cfg_Tables new)" and same: "sameSchemas old new"
  shows "execAll execT (diffColumnChanges old new) (spread (relOf old new) (stageNewColumns old new)) =
    Inr (spread (relOf old new) (stageOld new))"
  unfolding diffColumnChanges_def
proof (rule pass_spread)
  show "distinct (sortedKeys (cfg_Tables new))" using assms(2) by (simp add: wfTables_def distinct_sortedKeys)
  show "stageOld new n = stageNewColumns old new n" if "n \<notin> set (sortedKeys (cfg_Tables new))" for n
    using that by (auto simp: stageNewColumns_def stageOld_def not_sortedKeys split: option.splits)
next
  fix n S assume n: "n \<in> set (sortedKeys (cfg_Tables new))" and S: "S (relOf old new n) = stageNewColumns old new n"
  from sortedKeys_Some [OF n] obtain nt where nt: "map_of (cfg_Tables new) n = Some nt" by blast
  show "execAll execT (tableColumnChanges old new n) S = Inr (S(relOf old new n := stageOld new n))"
  proof (cases "map_of (cfg_Tables old) n")
    case None
    with S nt show ?thesis by (simp add: tableColumnChanges_def stageNewColumns_def fun_upd_idem)
  next
    case (Some ot)
    let ?g = "colInfo (cfg_Tables old)" and ?h = "colInfo (cfg_Tables new)"
    let ?t = "keptColumns old ot nt ++ map_of (fieldEntries ?h (addedFields ot nt))"
    have w: "wfTable ot" "wfTable nt"
      using assms(1,2) Some nt by (auto intro: wfTables_lookup)
    have dn: "distinct (map fld_Name (tbl_Fields nt))" using w(2) by (simp add: wfTable_def)
    have b: "tableColumnChanges old new n = concat (map (columnChange old new (relOf old new n) ot) (tbl_Fields nt))"
      using Some nt by (simp add: tableColumnChanges_def relOf_new [OF same nt])
    have s: "S (relOf old new n) = Some ?t"
      using S Some nt by (simp add: stageNewColumns_def)
    have pre: "?t (fld_Name f) = Some (case map_of (FieldMap ot) (fld_Name f) of Some k \<Rightarrow> ?g k | None \<Rightarrow> ?h f)"
      if f: "f \<in> set (tbl_Fields nt)" for f
    proof (cases "map_of (FieldMap ot) (fld_Name f)")
      case None
      then have "f \<in> set (addedFields ot nt)" using f by (simp add: addedFields_def mapHas_def)
      moreover have "distinct (map fld_Name (addedFields ot nt))"
        using dn by (simp add: addedFields_def distinct_map inj_on_def)
      ultimately show ?thesis using None by (simp add: fieldEntries_lookup)
    next
      case (Some k)
      from FieldMap_values [OF this] have k: "k \<in> set (tbl_Fields ot)" "fld_Name k = fld_Name f" by auto
      have "map_of (fieldEntries ?h (addedFields ot nt)) (fld_Name f) = None"
        using Some unfolding map_of_eq_None_iff by (auto simp: addedFields_def mapHas_def)
      moreover have "fld_Name f \<notin> set (map fld_Name (droppedFields ot nt))"
        using imageI [OF f, of fld_Name] by (auto simp: droppedFields_def mapHas_FieldMap)
      moreover have "shape ?g ot (fld_Name f) = Some (?g k)"
        using fieldEntries_lookup [of "tbl_Fields ot" k ?g] w(1) k by (simp add: shape_def wfTable_def)
      ultimately show ?thesis using Some by (simp add: keptColumns_def map_add_def)
    qed
    have "?t ++ map_of (fieldEntries ?h (tbl_Fields nt)) = shape ?h nt"
    proof (rule ext)
      fix c
      show "(?t ++ map_of (fieldEntries ?h (tbl_Fields nt))) c = shape ?h nt c"
      proof (cases "c \<in> fld_Name ` set (tbl_Fields nt)")
        case True
        then have "map_of (fieldEntries ?h (tbl_Fields nt)) c \<noteq> None" by (simp add: map_of_eq_None_iff)
        then show ?thesis by (auto simp: shape_def map_add_def split: option.splits)
      next
        case False
        then have "map_of (fieldEntries ?h (tbl_Fields nt)) c = None" "map_of (fieldEntries ?h (addedFields ot nt)) c = None"
          by (auto simp: map_of_eq_None_iff addedFields_def)
        moreover have "keptColumns old ot nt c = None"
          using False by (auto simp: keptColumns_def restrict_map_def shape_def droppedFields_def map_of_eq_None_iff mapHas_FieldMap)
        ultimately show ?thesis by (simp add: shape_def map_add_def)
      qed
    qed
    with exec_columnChanges [of S "relOf old new n", OF s dn pre] Some nt show ?thesis unfolding b by (simp add: stageOld_def)
  qed
qed

section \<open>The rest of the plan\<close>

lemma list_all_concat_map: "(\<And>x. x \<in> set xs \<Longrightarrow> list_all P (f x)) \<Longrightarrow> list_all P (concat (map f xs))"
  by (induction xs) auto

lemma free_grants [simp]:
  "list_all columnFree (generateSchemaGrants schemas roles)"
  "list_all columnFree (generateExistingObjectGrants schemas roles)"
  by (auto simp: generateSchemaGrants_def schemaGrants_def generateExistingObjectGrants_def existingGrants_def
    generateSeedReadGrants_def generatePrivilegeRevokes_def Let_def intro!: list_all_concat_map)

lemma free_auth [simp]:
  "list_all columnFree generateJWTKeysTable" "list_all columnFree (authFunctions cfg)"
  "list_all columnFree (generateAuthTables a)" "list_all columnFree (diffNewAuth old new)"
  by (auto simp: generateJWTKeysTable_def authFunctions_def generateRLSFunctions_def generateAuthTables_def
    identitiesDDL_def oneTimeTokensDDL_def mfaDDL_def flowStateDDL_def authHealDDL_def healAuthColumn_def
    healAuthIndex_def diffNewAuth_def split: option.splits)

lemma free_storage [simp]:
  "list_all columnFree (generateStorageTables cfg)" "list_all columnFree (storageHeal cfg)"
  "list_all columnFree (diffNewStorage old new)"
  by (auto simp: generateStorageTables_def storageObjectsDDL_def storageHelperFunctions_def
    storageOwnerColumnDDL_def storageHeal_def diffNewStorage_def)

lemma free_policies [simp]:
  "list_all columnFree (generateRLSPolicies n t)" "list_all columnFree (policyStatements cfg)"
  by (auto simp: policyStatements_def generateRLSPolicies_def tablePolicies_def tablePolicy_def Let_def
    intro!: list_all_concat_map)

lemma free_storageRLS [simp]: "list_all columnFree (generateStorageRLSAll storage)"
  by (auto simp: generateStorageRLSAll_def dropPublicSelect_def bucketPolicies_def generateStorageRLS_def
    storagePolicies_def storagePolicy_def openBucketPolicy_def Let_def list.pred_map intro!: list_all_concat_map)
    (auto simp: list_all_iff)

lemma free_rpc [simp]:
  "list_all columnFree (rpcStatements cfg)" "list_all columnFree (diffRemovedRPCFunctions old new)"
  by (auto simp: rpcStatements_def generateRPCFunction_def diffRemovedRPCFunctions_def removedFunction_def
    list_all_iff Let_def split: option.splits if_splits)

lemma free_tables [simp]: "list_all columnFree (indexesAndGuards cfg)"
  by (auto simp: indexesAndGuards_def intro!: list_all_concat_map)

lemma free_removals [simp]:
  "list_all columnFree (diffRemovedRLSPolicies old new)" "list_all columnFree (diffRemovedIndexes old new)"
  "list_all columnFree (diffRemovedGuards old new)" "list_all columnFree (diffRemovedStorageRLS old new)"
  "list_all columnFree (diffIndexesOnLiveColumns old new)"
  unfolding diffRemovedRLSPolicies_def diffRemovedIndexes_def diffRemovedGuards_def diffRemovedStorageRLS_def
    diffIndexesOnLiveColumns_def
  by (rule list_all_concat_map, force simp: list_all_iff tableRemovedRLS_def tableRemovedIndexes_def
      tableRemovedGuards_def bucketRemovedRLS_def tableLiveIndexes_def generateIndexes_def generateIndex_def Let_def
      split: option.splits if_splits)+

lemma diff_refines:
  assumes "wfTables (cfg_Tables old)" and "wfTables (cfg_Tables new)" and same: "sameSchemas old new"
  shows "execAll execT (fst (diffRemovedColumns old new) @ fst (diffRemovedTables old new)) (schemaOf old) =
      Inr (spread (relOf old new) (stageDropTables old new))"
    and "execAll execT (diffNewTables old new @ diffNewColumns old new)
      (spread (relOf old new) (stageDropTables old new)) = Inr (spread (relOf old new) (stageNewColumns old new))"
    and "execAll execT (diffColumnChanges old new) (spread (relOf old new) (stageNewColumns old new)) = Inr (schemaOf new)"
  using pass_dropColumns [OF assms(1)] pass_dropTables pass_newTables [OF assms(2,3)]
    pass_newColumns [OF assms(2,3)] pass_columnChanges [OF assms]
  by (simp_all add: execAll_append schemaOf_spread [OF same])

section \<open>Renames\<close>

text \<open>What a rename moves: the information of a column does not depend on its name.\<close>

definition nameFree :: "(Field \<Rightarrow> 'i) \<Rightarrow> bool" where
  "nameFree g = (\<forall>f n. g (f\<lparr>fld_Name := n\<rparr>) = g f)"

lemma nameFree_colInfo [simp]: "nameFree (colInfo tables)"
  by (simp add: nameFree_def colInfo_def)

lemma schemaVia_update:
  assumes "map_of tables n = Some t" and "EffectiveSchema t' = EffectiveSchema t"
  shows "schemaVia g (AList.update n t' tables) = (schemaVia g tables)(tableRel n t \<mapsto> shape g t')"
proof
  fix r
  show "schemaVia g (AList.update n t' tables) r = ((schemaVia g tables)(tableRel n t \<mapsto> shape g t')) r"
    using assms by (cases r) (auto simp: schemaVia_def update_conv' tableRel_def)
qed

lemma schemaVia_lookup: "map_of tables n = Some t \<Longrightarrow> schemaVia g tables (tableRel n t) = Some (shape g t)"
  by (simp add: schemaVia_def tableRel_def)

lemma renameTable_exec:
  assumes "execAll execT ddl S0 = Inr (schemaVia g tables)"
    and st: "renameTable new n (tables, ddl) = (tables', ddl')"
  shows "execAll execT ddl' S0 = Inr (schemaVia g tables')"
proof -
  let ?src = "tbl_RenamedFrom (tableOf new n)"
  show ?thesis
  proof (cases "?src = [] \<or> mapHas tables n \<or> map_of tables ?src = None")
    case True
    with assms show ?thesis by (auto simp: renameTable_def Let_def split: if_splits option.splits)
  next
    case False
    then obtain t where t: "map_of tables ?src = Some t" by auto
    have n: "map_of tables n = None" using False by (simp add: mapHas_def)
    then have ne: "?src \<noteq> n" using t by auto
    let ?S = "schemaVia g tables"
    have eq: "?S(tableRel ?src t := None, (fst (tableRel ?src t), n) \<mapsto> shape g t) =
        schemaVia g (AList.update n t (AList.delete ?src tables))" (is "?L = ?R")
    proof
      fix r
      show "?L r = ?R r"
        using t n ne by (cases r) (auto simp: schemaVia_def tableRel_def update_conv' delete_conv')
    qed
    have "?S (fst (tableRel ?src t), n) = None" using n by (simp add: schemaVia_def)
    then have "execT (RenameTable (tableRel ?src t) n) ?S = Inr ?R"
      using schemaVia_lookup [OF t, of g] unfolding eq [symmetric] by (simp del: fun_upd_apply)
    moreover have "tables' = AList.update n t (AList.delete ?src tables)"
        "ddl' = ddl @ [RenameTable (tableRel ?src t) n] @
           (if HasGuards t then [DropGuardFunction (guardFuncName ?src t) True] else [])"
      using st False t by (simp_all add: renameTable_def Let_def)
    ultimately show ?thesis using assms(1)
      by (cases "HasGuards t") (simp_all add: execAll_append del: execT.simps(3))
  qed
qed

lemma map_of_renameFields:
  assumes g: "nameFree g" and "distinct (map fld_Name fs)" and "dst \<notin> fld_Name ` set fs" and "src \<in> fld_Name ` set fs"
  shows "\<exists>i. map_of (fieldEntries g fs) src = Some i \<and>
    map_of (fieldEntries g (renameFields src dst fs)) = (map_of (fieldEntries g fs))(src := None, dst \<mapsto> i)"
  using assms(2-)
proof (induction fs)
  case (Cons f fs)
  have gr: "fld_Name ` set fs = fld_Name ` set fs" ..
  show ?case
  proof (cases "fld_Name f = src")
    case True
    then have nin: "src \<notin> fld_Name ` set fs" using Cons.prems(1) by auto
    then have "renameFields src dst fs = fs"
      unfolding renameFields_def by (intro map_idI) (auto simp: rev_image_eqI)
    moreover have "map_of (fieldEntries g fs) src = None" "map_of (fieldEntries g fs) dst = None"
      using nin Cons.prems(2) by (auto simp: map_of_eq_None_iff)
    moreover have "g (f\<lparr>fld_Name := dst\<rparr>) = g f" using g by (simp add: nameFree_def)
    moreover have "renameFields src dst (f # fs) = f\<lparr>fld_Name := dst\<rparr> # renameFields src dst fs"
      using True by (simp add: renameFields_def)
    ultimately show ?thesis using True Cons.prems(2)
      by (intro exI [of _ "g f"]) auto
  next
    case False
    then have "distinct (map fld_Name fs)" "dst \<notin> fld_Name ` set fs" "src \<in> fld_Name ` set fs"
      using Cons.prems by auto
    from Cons.IH [OF this] obtain i where i: "map_of (fieldEntries g fs) src = Some i"
      "map_of (fieldEntries g (renameFields src dst fs)) = (map_of (fieldEntries g fs))(src := None, dst \<mapsto> i)" by blast
    moreover have "renameFields src dst (f # fs) = f # renameFields src dst fs"
      using False by (simp add: renameFields_def)
    ultimately show ?thesis using False Cons.prems(2)
      by (intro exI [of _ i]) auto
  qed
qed simp

lemma wfTable_rename:
  assumes "wfTable t" and "dst \<notin> fld_Name ` set (tbl_Fields t)"
  shows "wfTable (t\<lparr>tbl_Fields := renameFields src dst (tbl_Fields t)\<rparr>)"
  using assms unfolding wfTable_def
  by (auto simp: renameFields_def distinct_map inj_on_def split: if_splits)

text \<open>The inner loop: its table replaces the entry of the outer map.\<close>

lemma renameColumn_exec:
  assumes g: "nameFree g" and t0: "map_of tables n = Some t0"
    and inv: "execAll execT ddl S0 = Inr ((schemaVia g tables)(tableRel n t0 \<mapsto> shape g t))"
      "wfTable t" "EffectiveSchema t = EffectiveSchema t0"
    and st: "renameColumn n f (t, ddl) = (t', ddl')"
  shows "execAll execT ddl' S0 = Inr ((schemaVia g tables)(tableRel n t0 \<mapsto> shape g t')) \<and>
    wfTable t' \<and> EffectiveSchema t' = EffectiveSchema t0"
proof -
  let ?src = "fld_RenamedFrom f" and ?dst = "fld_Name f"
  show ?thesis
  proof (cases "?src = [] \<or> mapHas (FieldMap t) ?dst \<or> \<not> mapHas (FieldMap t) ?src")
    case True
    with inv st show ?thesis by (simp add: renameColumn_def Let_def)
  next
    case False
    then have d: "?dst \<notin> fld_Name ` set (tbl_Fields t)" and s: "?src \<in> fld_Name ` set (tbl_Fields t)"
      by (auto simp: mapHas_FieldMap)
    have t': "t' = t\<lparr>tbl_Fields := renameFields ?src ?dst (tbl_Fields t)\<rparr>"
      and ddl': "ddl' = ddl @ [RenameColumn (tableRel n t) ?src ?dst]"
      using st False by (simp_all add: renameColumn_def Let_def)
    from map_of_renameFields [OF g _ d s] inv(2) obtain i where
      i: "shape g t ?src = Some i" "shape g t' = (shape g t)(?src := None, ?dst \<mapsto> i)"
      by (auto simp: wfTable_def shape_def t')
    have "shape g t ?dst = None" using d by (simp add: shape_def map_of_eq_None_iff)
    moreover have "tableRel n t = tableRel n t0" using inv(3) by (simp add: tableRel_def)
    ultimately have "execT (RenameColumn (tableRel n t) ?src ?dst) ((schemaVia g tables)(tableRel n t0 \<mapsto> shape g t)) =
        Inr ((schemaVia g tables)(tableRel n t0 \<mapsto> shape g t'))"
      using i by (simp add: onTable_def)
    with inv(1) have "execAll execT ddl' S0 = Inr ((schemaVia g tables)(tableRel n t0 \<mapsto> shape g t'))"
      by (simp add: ddl' execAll_append del: execT.simps(4))
    moreover have "wfTable t'" unfolding t' by (rule wfTable_rename [OF inv(2) d])
    moreover have "EffectiveSchema t' = EffectiveSchema t0" using inv(3) by (simp add: t')
    ultimately show ?thesis by blast
  qed
qed

lemma renameColumn_fold:
  assumes g: "nameFree g" and t0: "map_of tables n = Some t0"
  shows "execAll execT ddl S0 = Inr ((schemaVia g tables)(tableRel n t0 \<mapsto> shape g t)) \<Longrightarrow>
    wfTable t \<Longrightarrow> EffectiveSchema t = EffectiveSchema t0 \<Longrightarrow> fold (renameColumn n) fs (t, ddl) = (t', ddl') \<Longrightarrow>
    execAll execT ddl' S0 = Inr ((schemaVia g tables)(tableRel n t0 \<mapsto> shape g t')) \<and>
    wfTable t' \<and> EffectiveSchema t' = EffectiveSchema t0"
proof (induction fs arbitrary: t ddl)
  case (Cons f fs)
  obtain u e where u: "renameColumn n f (t, ddl) = (u, e)" by (cases "renameColumn n f (t, ddl)")
  have "fold (renameColumn n) fs (u, e) = (t', ddl')" using Cons.prems(4) u by simp
  with renameColumn_exec [OF g t0 Cons.prems(1-3) u] Cons.IH [of e u] show ?case by blast
qed simp

lemma wfTables_iff: "wfTables tables \<longleftrightarrow> wfMap tables \<and> (\<forall>n t. map_of tables n = Some t \<longrightarrow> wfTable t)"
  by (auto simp: wfTables_def wfMap_def dest: map_of_SomeD)

lemma wfTables_update: "wfTables tables \<Longrightarrow> wfTable t \<Longrightarrow> wfTables (AList.update n t tables)"
  by (auto simp: wfTables_iff wfMap_def distinct_update update_conv')

lemma wfTables_delete: "wfTables tables \<Longrightarrow> wfTables (AList.delete n tables)"
  by (auto simp: wfTables_iff wfMap_def distinct_delete delete_conv' split: if_splits)

lemma renameTable_wf:
  "wfTables tables \<Longrightarrow> renameTable new n (tables, ddl) = (tables', ddl') \<Longrightarrow> wfTables tables'"
  by (auto simp: renameTable_def Let_def wfTables_lookup intro!: wfTables_update wfTables_delete
    split: if_splits option.splits)

lemma renameColumns_exec:
  assumes g: "nameFree g" and inv: "execAll execT ddl S0 = Inr (schemaVia g tables)" "wfTables tables"
    and st: "renameColumns new n (tables, ddl) = (tables', ddl')"
  shows "execAll execT ddl' S0 = Inr (schemaVia g tables') \<and> wfTables tables'"
proof (cases "map_of tables n")
  case None
  with inv st show ?thesis by (simp add: renameColumns_def)
next
  case (Some t)
  obtain u e where u: "fold (renameColumn n) (tbl_Fields (tableOf new n)) (t, ddl) = (u, e)"
    by (cases "fold (renameColumn n) (tbl_Fields (tableOf new n)) (t, ddl)")
  have w: "wfTable t" using inv(2) Some by (rule wfTables_lookup)
  have "(schemaVia g tables)(tableRel n t \<mapsto> shape g t) = schemaVia g tables"
    using schemaVia_lookup [OF Some] by (rule fun_upd_idem)
  with inv(1) have "execAll execT ddl S0 = Inr ((schemaVia g tables)(tableRel n t \<mapsto> shape g t))" by simp
  from renameColumn_fold [OF g Some this w refl u]
  have "execAll execT e S0 = Inr (schemaVia g (AList.update n u tables))" "wfTable u"
    using schemaVia_update [OF Some, of u g] by simp_all
  moreover have "tables' = AList.update n u tables" "ddl' = e"
    using st Some u by (simp_all add: renameColumns_def)
  ultimately show ?thesis using inv(2) by (simp add: wfTables_update)
qed

lemma renames_exec:
  assumes g: "nameFree g" and w: "wfTables (cfg_Tables old)" and st: "applyRenames old new = (old', ddl)"
  shows "execAll execT ddl (schemaVia g (cfg_Tables old)) = Inr (schemaVia g (cfg_Tables old')) \<and>
    wfTables (cfg_Tables old')"
proof -
  let ?S = "schemaVia g (cfg_Tables old)"
  have 1: "execAll execT (snd st) ?S = Inr (schemaVia g (fst st)) \<Longrightarrow> wfTables (fst st) \<Longrightarrow>
      execAll execT (snd (fold (renameTable ts) ns st)) ?S = Inr (schemaVia g (fst (fold (renameTable ts) ns st))) \<and>
      wfTables (fst (fold (renameTable ts) ns st))" for ts ns st
  proof (induction ns arbitrary: st)
    case (Cons n ns)
    obtain tables ddl where s: "st = (tables, ddl)" by (cases st)
    obtain tables' ddl' where s': "renameTable ts n (tables, ddl) = (tables', ddl')"
      by (cases "renameTable ts n (tables, ddl)")
    from Cons.IH [of "(tables', ddl')"] renameTable_exec [OF _ s'] renameTable_wf [OF _ s'] Cons.prems s s'
    show ?case by simp
  qed simp
  have 2: "execAll execT (snd st) ?S = Inr (schemaVia g (fst st)) \<Longrightarrow> wfTables (fst st) \<Longrightarrow>
      execAll execT (snd (fold (renameColumns ts) ns st)) ?S = Inr (schemaVia g (fst (fold (renameColumns ts) ns st))) \<and>
      wfTables (fst (fold (renameColumns ts) ns st))" for ts ns st
  proof (induction ns arbitrary: st)
    case (Cons n ns)
    obtain tables ddl where s: "st = (tables, ddl)" by (cases st)
    obtain tables' ddl' where s': "renameColumns ts n (tables, ddl) = (tables', ddl')"
      by (cases "renameColumns ts n (tables, ddl)")
    from Cons.IH [of "(tables', ddl')"] renameColumns_exec [OF g _ _ s'] Cons.prems s s' show ?case by simp
  qed simp
  have "fst (renameTables (cfg_Tables old) (cfg_Tables new)) = cfg_Tables old'"
    "snd (renameTables (cfg_Tables old) (cfg_Tables new)) = ddl"
    using st by (auto simp: applyRenames_def split: prod.splits)
  with 1 [of "(cfg_Tables old, [])" "cfg_Tables new" "sortedKeys (cfg_Tables new)"] w
    2 [of "fold (renameTable (cfg_Tables new)) (sortedKeys (cfg_Tables new)) (cfg_Tables old, [])"
       "cfg_Tables new" "sortedKeys (cfg_Tables new)"]
  show ?thesis by (simp add: renameTables_def)
qed

section \<open>Refinement\<close>

text \<open>
  A rename leaves the type of every column as it was; a column with a declared type always does, an untyped
  foreign key does unless the table it names was renamed away.
\<close>

definition typesStable :: "Config \<Rightarrow> Config \<Rightarrow> bool" where
  "typesStable old new =
     (\<forall>(n, t) \<in> set (cfg_Tables (fst (applyRenames old new))). \<forall>f \<in> set (tbl_Fields t).
        EffectiveType f (cfg_Tables (fst (applyRenames old new))) = EffectiveType f (cfg_Tables old))"

lemma schemaVia_cong:
  "(\<And>n t f. map_of tables n = Some t \<Longrightarrow> f \<in> set (tbl_Fields t) \<Longrightarrow> g f = h f) \<Longrightarrow>
     schemaVia g tables = schemaVia h tables"
  by (rule ext) (auto simp: schemaVia_def shape_def fieldEntries_def split: option.splits
    intro!: arg_cong [where f = map_of] map_cong)

lemma update_exec:
  assumes "wfTables (cfg_Tables old)" and "wfTables (cfg_Tables new)"
    and same: "sameSchemas (fst (applyRenames old new)) new" and types: "typesStable old new"
  shows "execAll execT (planUpdateStatements old new roles) (schemaOf old) = Inr (schemaOf new)"
proof -
  obtain old' ddl where r: "applyRenames old new = (old', ddl)" by (cases "applyRenames old new")
  from renames_exec [OF _ assms(1) r, of "colInfo (cfg_Tables old)"]
  have "execAll execT ddl (schemaOf old) = Inr (schemaVia (colInfo (cfg_Tables old)) (cfg_Tables old'))"
    and w: "wfTables (cfg_Tables old')" by (simp_all add: schemaOf_def)
  moreover have "schemaVia (colInfo (cfg_Tables old)) (cfg_Tables old') = schemaOf old'"
    unfolding schemaOf_def using types r
    by (intro schemaVia_cong) (force simp: typesStable_def colInfo_def dest: map_of_SomeD)
  ultimately have ren: "execAll execT ddl (schemaOf old) = Inr (schemaOf old')" by simp
  have "sameSchemas old' new" using same r by simp
  note d = diff_refines [OF w assms(2) this]
  have rem: "execAll execT (fst (diffRemovedColumns old' new) @ fst (diffRemovedTables old' new) @ rest) (schemaOf old') =
      execAll execT rest (spread (relOf old' new) (stageDropTables old' new))" for rest
    using execAll_appendI [OF d(1) refl, of rest] by simp
  have add: "execAll execT (diffNewTables old' new @ diffNewColumns old' new @ rest)
        (spread (relOf old' new) (stageDropTables old' new)) =
      execAll execT rest (spread (relOf old' new) (stageNewColumns old' new))" for rest
    using execAll_appendI [OF d(2) refl, of rest] by simp
  have ren': "execAll execT (ddl @ rest) (schemaOf old) = execAll execT rest (schemaOf old')" for rest
    using execAll_appendI [OF ren refl, of rest] by simp
  have alt: "execAll execT (diffColumnChanges old' new @ rest) (spread (relOf old' new) (stageNewColumns old' new)) =
      execAll execT rest (schemaOf new)" for rest
    using execAll_appendI [OF d(3) refl, of rest] by simp
  show ?thesis
    by (simp add: planUpdateStatements_def diffConfigs_def r Let_def execAll_skip_free ren' rem add alt execAll_free)
qed


lemma scratch_exec:
  assumes "wfTables (cfg_Tables cfg)"
  shows "execAll execT (planFromScratchStatements cfg roles) Map.empty = Inr (schemaOf cfg)"
proof -
  let ?old = "cfg\<lparr>cfg_Tables := []\<rparr>"
  have same: "sameSchemas ?old cfg" by (simp add: sameSchemas_def)
  have "execAll execT (concat (map (scratchTable cfg) (orderTables (cfg_Tables cfg))))
      (spread (relOf ?old cfg) (\<lambda>_. None)) = Inr (spread (relOf ?old cfg) (stageOld cfg))"
  proof (rule pass_spread)
    show "distinct (orderTables (cfg_Tables cfg))" by (rule distinct_orderTables)
    show "stageOld cfg n = None" if "n \<notin> set (orderTables (cfg_Tables cfg))" for n
      using that by (simp add: stageOld_def not_sortedKeys)
  next
    fix n and S :: schemaInfo
    assume n: "n \<in> set (orderTables (cfg_Tables cfg))" and S: "S (relOf ?old cfg n) = None"
    from orderTables_lookup [OF n] obtain t where t: "map_of (cfg_Tables cfg) n = Some t" by blast
    then have "S (tableRel n t) = None" using S relOf_new [OF same t] by simp
    with exec_generateTable [of t S n "cfg_Tables cfg"] wfTables_lookup [OF assms t]
    have "execAll execT (generateTable n t (cfg_Tables cfg)) S =
        Inr (S(tableRel n t \<mapsto> shape (colInfo (cfg_Tables cfg)) t))" by blast
    with t relOf_new [OF same t] show "execAll execT (scratchTable cfg n) S =
        Inr (S(relOf ?old cfg n := stageOld cfg n))"
      by (simp add: scratchTable_def execAll_append execAll_free stageOld_def)
  qed
  moreover have "(spread (relOf ?old cfg) (\<lambda>_. None) :: schemaInfo) = Map.empty" by (rule ext) (simp add: spread_def)
  ultimately have t: "execAll execT (concat (map (scratchTable cfg) (orderTables (cfg_Tables cfg)))) Map.empty = Inr (schemaOf cfg)"
    unfolding schemaOf_spread(2) [OF same] by simp
  have "execAll execT (concat (map (scratchTable cfg) (orderTables (cfg_Tables cfg))) @ rest) Map.empty =
      execAll execT rest (schemaOf cfg)" for rest
    using execAll_appendI [OF t refl, of rest] .
  then show ?thesis
    by (cases "cfg_Auth cfg") (simp_all add: planFromScratchStatements_def execAll_skip_free execAll_free)
qed


end
