(* ===== verification/Migrate_Gate.thy ===== *)
theory Migrate_Gate
  imports Migrate_Refinement
begin

text \<open>
  What the two gates in front of a plan guarantee, and the difference of a configuration with itself.
\<close>

section \<open>Statements that destroy data\<close>

fun destroysData :: "stmt \<Rightarrow> bool" where
  "destroysData (DropTable _) = True"
| "destroysData (DropColumn _ _) = True"
| "destroysData _ = False"

lemma destroysData_free: "columnFree s \<Longrightarrow> \<not> destroysData s"
  by (cases s) auto

lemma keep_free: "list_all columnFree ss \<Longrightarrow> s \<in> set ss \<Longrightarrow> \<not> destroysData s"
  by (auto simp: list_all_iff destroysData_free)

lemma keep_generateTable: "s \<in> set (generateTable n t ts) \<Longrightarrow> \<not> destroysData s"
  by (auto simp: generateTable_alt)

lemma keep_newTables: "s \<in> set (diffNewTables old new) \<Longrightarrow> \<not> destroysData s"
  by (auto simp: diffNewTables_def newTable_def Let_def keep_generateTable split: if_splits
    dest!: keep_free [OF free_indexes] keep_free [OF free_deferred])

lemma keep_newColumns: "s \<in> set (diffNewColumns old new) \<Longrightarrow> \<not> destroysData s"
  by (auto simp: diffNewColumns_def tableNewColumns_def newColumn_def Let_def split: option.splits prod.splits)

lemma keep_columnChanges: "s \<in> set (diffColumnChanges old new) \<Longrightarrow> \<not> destroysData s"
  by (auto simp: diffColumnChanges_def tableColumnChanges_def columnChange_def Let_def
    split: option.splits if_splits)

lemma keep_renameTable:
  "\<forall>s \<in> set (snd st). \<not> destroysData s \<Longrightarrow> \<forall>s \<in> set (snd (renameTable new n st)). \<not> destroysData s"
  by (cases st) (auto simp: renameTable_def Let_def split: option.splits)

lemma keep_renameColumn:
  "\<forall>s \<in> set (snd st). \<not> destroysData s \<Longrightarrow> \<forall>s \<in> set (snd (renameColumn n f st)). \<not> destroysData s"
  by (cases st) (auto simp: renameColumn_def Let_def)

lemma fold_keeps: "(\<And>x a. P a \<Longrightarrow> P (f x a)) \<Longrightarrow> P a \<Longrightarrow> P (fold f xs a)"
  by (induction xs arbitrary: a) auto

lemma keep_renameColumns:
  assumes "\<forall>s \<in> set (snd st). \<not> destroysData s"
  shows "\<forall>s \<in> set (snd (renameColumns new n st)). \<not> destroysData s"
proof (cases st)
  case (Pair tables ddl)
  have "\<forall>s \<in> set (snd (fold (renameColumn n) fs (t, ddl))). \<not> destroysData s" for fs t
    by (rule fold_keeps [where P = "\<lambda>st. \<forall>s \<in> set (snd st). \<not> destroysData s"])
      (use assms Pair keep_renameColumn in auto)
  then show ?thesis using assms Pair
    by (auto simp: renameColumns_def split: option.splits prod.splits) (metis snd_conv)
qed

lemma keep_renames: "s \<in> set (snd (applyRenames old new)) \<Longrightarrow> \<not> destroysData s"
proof -
  let ?P = "\<lambda>st :: rename_state. \<forall>s \<in> set (snd st). \<not> destroysData s"
  have "?P (renameTables a b)" for a b
    unfolding renameTables_def
    by (rule fold_keeps [where P = ?P], rule keep_renameColumns, assumption,
      rule fold_keeps [where P = ?P], rule keep_renameTable, assumption, simp)
  then show "s \<in> set (snd (applyRenames old new)) \<Longrightarrow> \<not> destroysData s"
    by (auto simp: applyRenames_def split: prod.splits) (metis snd_conv)
qed

lemma keep_all: "list_all columnFree ss \<Longrightarrow> \<forall>s \<in> set ss. \<not> destroysData s"
  by (auto simp: list_all_iff destroysData_free)

lemma plan_keeps:
  assumes d: "df_Destroys (diffConfigs old new) = []" and s: "s \<in> set (planUpdateStatements old new roles)"
  shows "\<not> destroysData s"
proof -
  obtain old' ddl where r: "applyRenames old new = (old', ddl)" by (cases "applyRenames old new")
  have e: "removedColumns old' new = []" "removedTables old' new = []"
    using d by (auto simp: diffConfigs_def r diffRemovedColumns_def diffRemovedTables_def)
  have ren: "\<forall>s \<in> set ddl. \<not> destroysData s" using keep_renames [of _ old new] r by simp
  have "\<forall>s \<in> set (planUpdateStatements old new roles). \<not> destroysData s"
    by (simp add: planUpdateStatements_def diffConfigs_def r Let_def diffRemovedColumns_def diffRemovedTables_def e
      ball_Un ren keep_newTables keep_newColumns keep_columnChanges) (intro conjI; rule keep_all; simp)
  with s show ?thesis by blast
qed

text \<open>Nothing of the renamed old configuration is missing in the new one.\<close>

definition nothingLost :: "Config \<Rightarrow> Config \<Rightarrow> bool" where
  "nothingLost old new =
     (\<forall>(n, t) \<in> set (cfg_Tables old).
        case map_of (cfg_Tables new) n of None \<Rightarrow> False
        | Some t' \<Rightarrow> fld_Name ` set (tbl_Fields t) \<subseteq> fld_Name ` set (tbl_Fields t'))"

lemma tableRemovedColumns_Nil:
  "map_of (cfg_Tables old) n = Some t \<Longrightarrow> tableRemovedColumns old new n = [] \<longleftrightarrow>
     (case map_of (cfg_Tables new) n of None \<Rightarrow> True
      | Some t' \<Rightarrow> fld_Name ` set (tbl_Fields t) \<subseteq> fld_Name ` set (tbl_Fields t'))"
  by (auto simp: tableRemovedColumns_def filter_empty_conv mapHas_FieldMap split: option.splits)

lemma Destroys_Nil:
  assumes "wfTables (cfg_Tables old)"
  shows "removedColumns old new = [] \<and> removedTables old new = [] \<longleftrightarrow> nothingLost old new"
proof -
  have l: "(n, t) \<in> set (cfg_Tables old) \<Longrightarrow> map_of (cfg_Tables old) n = Some t" for n t
    using assms by (simp add: wfTables_def wfMap_def)
  have "removedTables old new = [] \<longleftrightarrow> (\<forall>(n, t) \<in> set (cfg_Tables old). map_of (cfg_Tables new) n \<noteq> None)"
    by (auto simp: removedTables_def filter_empty_conv mapHas_def)
  moreover have "removedColumns old new = [] \<longleftrightarrow>
      (\<forall>(n, t) \<in> set (cfg_Tables old). tableRemovedColumns old new n = [])"
    by (auto simp: removedColumns_def)
  ultimately have "removedColumns old new = [] \<and> removedTables old new = [] \<longleftrightarrow>
      (\<forall>(n, t) \<in> set (cfg_Tables old). tableRemovedColumns old new n = [] \<and> map_of (cfg_Tables new) n \<noteq> None)"
    by (simp add: ball_conj_distrib split_def conj_commute)
  also have "\<dots> \<longleftrightarrow> nothingLost old new"
    unfolding nothingLost_def
  proof (intro ball_cong refl, clarify)
    fix n t assume "(n, t) \<in> set (cfg_Tables old)"
    from tableRemovedColumns_Nil [OF l [OF this], of new]
    show "(tableRemovedColumns old new n = [] \<and> map_of (cfg_Tables new) n \<noteq> None) =
        (case map_of (cfg_Tables new) n of None \<Rightarrow> False
         | Some t' \<Rightarrow> fld_Name ` set (tbl_Fields t) \<subseteq> fld_Name ` set (tbl_Fields t'))"
      by (cases "map_of (cfg_Tables new) n") simp_all
  qed
  finally show ?thesis .
qed

text \<open>C4: Without the opt-in, a plan that is accepted for execution contains no statement that drops a
  table or a column.\<close>

theorem gated_plan_keeps_data:
  assumes "planStatements roles False tx (Some old) new = Inr stmts" and "s \<in> set stmts"
  shows "\<not> destroysData s"
proof -
  from assms have "df_Destroys (diffConfigs old new) = []" "stmts = planUpdateStatements old new roles"
    by (auto simp: planStatements_def Let_def split: sum.splits if_splits)
  with assms(2) plan_keeps show ?thesis by blast
qed

text \<open>C5: The destructive gate is exact: without the opt-in, an update that leaves the primary keys alone is
  planned if and only if every table and every column of the old configuration, after the declared
  renames, is still in the new one; otherwise the error names what would be lost.\<close>

theorem destructive_gate_exact:
  assumes "wfTables (cfg_Tables old)" and "df_PKChanges (diffConfigs old new) = []"
  shows "planStatements roles False tx (Some old) new =
    (if nothingLost (fst (applyRenames old new)) new then Inr (planUpdateStatements old new roles)
     else Inl (ErrDestructive (df_Destroys (diffConfigs old new))))"
proof -
  obtain old' ddl where r: "applyRenames old new = (old', ddl)" by (cases "applyRenames old new")
  have "wfTables (cfg_Tables old')" using renames_exec [OF nameFree_colInfo assms(1) r] by blast
  from Destroys_Nil [OF this, of new]
  have "df_Destroys (diffConfigs old new) = [] \<longleftrightarrow> nothingLost old' new"
    by (auto simp: diffConfigs_def r diffRemovedColumns_def diffRemovedTables_def)
  with assms(2) r show ?thesis by (auto simp: planStatements_def Let_def)
qed

section \<open>Primary keys\<close>

lemma traverse_rejectPK_None: "traverse (rejectPK None) cs = Inr (map (\<lambda>c. [pkChangeText c]) cs)"
  by (induction cs) (auto simp: rejectPK_def)

text \<open>A change of the key columns of a live table is planned only when the database already has the new
  key: whatever opt-in is set, an accepted plan inside a transaction means that each such table's live
  key columns are those of the new configuration.\<close>

lemma primary_key_gate:
  assumes "planStatements roles allow (Some query) (Some old) new = Inr stmts"
    and "c \<in> set (df_PKChanges (diffConfigs old new))"
  shows "\<exists>cols. query (pk_Qual c) = Inr cols \<and>
    mset (if cols = [] then [] else strSplit cols (CHR '','')) = mset (pk_New c)"
proof -
  from assms(1) obtain rs where rs: "traverse (rejectPK (Some query)) (df_PKChanges (diffConfigs old new)) = Inr rs"
    "concat rs = []"
    by (auto simp: planStatements_def Let_def split: sum.splits if_splits)
  from rs(1) assms(2) obtain x where x: "rejectPK (Some query) c = Inr x" "x \<in> set rs"
    by (auto simp: traverse_Inr list_all2_conv_all_nth in_set_conv_nth) (metis nth_mem)
  from rs(2) x(2) have "x = []" by auto
  with x(1) obtain cols where "query (pk_Qual c) = Inr cols"
    "sameColumns (if cols = [] then [] else strSplit cols (CHR '','')) (pk_New c)"
    by (auto simp: rejectPK_def LivePrimaryKey_def split: sum.splits if_splits)
  then show ?thesis unfolding sameColumns_def by (metis mset_sort)
qed

section \<open>An unchanged configuration\<close>

lemma SameIndex_refl [simp]: "SameIndex i i"
  by (simp add: SameIndex_def)

lemma hasIndex_self: "i \<in> set is \<Longrightarrow> hasIndex is i"
  unfolding hasIndex_def list_ex_iff by (rule bexI [of _ i]) simp_all

lemma rpcSignature_self [simp]: "\<not> rpcSignatureChanged f f"
  by (auto simp: rpcSignatureChanged_def argChanged_def list_ex_iff zip_same_conv_map)

lemma rename_self:
  assumes "wfTables (cfg_Tables cfg)"
  shows "applyRenames cfg cfg = (cfg, [])"
proof -
  let ?ts = "cfg_Tables cfg"
  have t: "n \<in> set (sortedKeys ?ts) \<Longrightarrow> renameTable ?ts n (?ts, []) = (?ts, [])" for n
    using sortedKeys_Some [of n ?ts] by (auto simp: renameTable_def mapHas_def Let_def)
  then have 1: "set ns \<subseteq> set (sortedKeys ?ts) \<Longrightarrow> fold (renameTable ?ts) ns (?ts, []) = (?ts, [])" for ns
    by (induction ns) auto
  have c: "n \<in> set (sortedKeys ?ts) \<Longrightarrow> renameColumns ?ts n (?ts, []) = (?ts, [])" for n
  proof -
    assume "n \<in> set (sortedKeys ?ts)"
    from sortedKeys_Some [OF this] obtain t where t: "map_of ?ts n = Some t" by blast
    have "set fs \<subseteq> set (tbl_Fields t) \<Longrightarrow> fold (renameColumn n) fs (t, []) = (t, [])" for fs
    proof (induction fs)
      case (Cons f fs)
      then have "mapHas (FieldMap t) (fld_Name f)" by (auto simp: mapHas_FieldMap)
      with Cons show ?case by (simp add: renameColumn_def Let_def)
    qed simp
    with t show ?thesis by (simp add: renameColumns_def update_triv)
  qed
  then have 2: "set ns \<subseteq> set (sortedKeys ?ts) \<Longrightarrow> fold (renameColumns ?ts) ns (?ts, []) = (?ts, [])" for ns
    by (induction ns) auto
  show ?thesis by (simp add: applyRenames_def renameTables_def 1 2)
qed

lemma concat_map_Nil: "(\<And>x. x \<in> set xs \<Longrightarrow> f x = []) \<Longrightarrow> concat (map f xs) = []"
  by auto

lemma diff_self:
  assumes "wfTables (cfg_Tables cfg)" and "wfMap (cfg_Storage cfg)" and "wfMap (cfg_RPC cfg)"
  shows "removedColumns cfg cfg = []" "removedTables cfg cfg = []" "diffRemovedRLSPolicies cfg cfg = []"
    "diffRemovedIndexes cfg cfg = []" "diffRemovedGuards cfg cfg = []" "diffRemovedStorageRLS cfg cfg = []"
    "diffRemovedRPCFunctions cfg cfg = []" "diffPrimaryKeys cfg cfg = []" "diffNewTables cfg cfg = []"
    "diffNewColumns cfg cfg = []" "diffColumnChanges cfg cfg = []" "diffNewStorage cfg cfg = []"
    "diffIndexesOnLiveColumns cfg cfg = []"
proof -
  have "nothingLost cfg cfg"
    using assms(1) by (auto simp: nothingLost_def wfTables_def wfMap_def)
  with Destroys_Nil [OF assms(1)] show "removedColumns cfg cfg = []" "removedTables cfg cfg = []" by blast+
  show "diffRemovedRLSPolicies cfg cfg = []" unfolding diffRemovedRLSPolicies_def
    by (rule concat_map_Nil) (auto simp: tableRemovedRLS_def Let_def filter_empty_conv dest!: sortedKeys_Some [simplified])
  show "diffRemovedIndexes cfg cfg = []" unfolding diffRemovedIndexes_def
    by (rule concat_map_Nil) (auto simp: tableRemovedIndexes_def Let_def filter_empty_conv hasIndex_self
        dest!: sortedKeys_Some [simplified])
  show "diffRemovedGuards cfg cfg = []" unfolding diffRemovedGuards_def
    by (rule concat_map_Nil) (auto simp: tableRemovedGuards_def Let_def mapHas_def dest!: sortedKeys_Some [simplified])
  show "diffRemovedStorageRLS cfg cfg = []" unfolding diffRemovedStorageRLS_def
    by (rule concat_map_Nil) (auto simp: bucketRemovedRLS_def Let_def mapHas_def filter_empty_conv
        dest!: sortedKeys_Some [simplified])
  show "diffRemovedRPCFunctions cfg cfg = []" unfolding diffRemovedRPCFunctions_def
    by (rule concat_map_Nil) (auto simp: removedFunction_def Let_def dest!: sortedKeys_Some [simplified])
  show "diffPrimaryKeys cfg cfg = []" unfolding diffPrimaryKeys_def
    by (rule concat_map_Nil) (auto simp: tablePKChange_def sameColumns_def dest!: sortedKeys_Some [simplified])
  show "diffNewTables cfg cfg = []" unfolding diffNewTables_def
    by (rule concat_map_Nil) (auto simp: newTable_def mapHas_def dest!: orderTables_lookup [simplified])
  show "diffNewColumns cfg cfg = []" unfolding diffNewColumns_def
    by (rule concat_map_Nil) (auto simp: tableNewColumns_def mapHas_FieldMap filter_empty_conv
        dest!: sortedKeys_Some [simplified])
  show "diffColumnChanges cfg cfg = []" unfolding diffColumnChanges_def
  proof (rule concat_map_Nil)
    fix n assume "n \<in> set (sortedKeys (cfg_Tables cfg))"
    from sortedKeys_Some [OF this] obtain t where t: "map_of (cfg_Tables cfg) n = Some t" by blast
    then have w: "wfTable t" using assms(1) by (rule wfTables_lookup [rotated])
    have "columnChange cfg cfg r t f = []" if "f \<in> set (tbl_Fields t)" for r f
      using FieldMap_lookup [OF w that] by (simp add: columnChange_def Let_def)
    with t show "tableColumnChanges cfg cfg n = []" by (simp add: tableColumnChanges_def)
  qed
  show "diffNewStorage cfg cfg = []" by (simp add: diffNewStorage_def)
  have "newLiveIndex cfg cfg t t i = False" if "i \<in> set (tbl_Indexes t)" for t i
    using bexI [of "SameIndex i" i, OF SameIndex_refl that] by (simp add: newLiveIndex_def list_ex_iff)
  then show "diffIndexesOnLiveColumns cfg cfg = []" unfolding diffIndexesOnLiveColumns_def
    by (intro concat_map_Nil) (auto simp: tableLiveIndexes_def generateIndexes_def filter_empty_conv
        dest!: orderTables_lookup [simplified])
qed

text \<open>The difference of a configuration with itself removes nothing, renames nothing, alters nothing and
  touches no primary key, even when its tables and columns still declare where they were renamed from; the only
  additions are those that heal the auth tables.\<close>

lemma unchanged_config_no_diff:
  assumes "wfTables (cfg_Tables cfg)" and "wfMap (cfg_Storage cfg)" and "wfMap (cfg_RPC cfg)"
  shows "diffConfigs cfg cfg =
    \<lparr>df_Removals = [], df_Additions = diffNewAuth cfg cfg, df_Renames = [],
     df_Alterations = [], df_Destroys = [], df_PKChanges = []\<rparr>"
  by (simp add: diffConfigs_def rename_self [OF assms(1)] diffRemovedColumns_def diffRemovedTables_def diff_self [OF assms])

end
