(* ===== verification/Migrate_RLS.thy ===== *)
theory Migrate_RLS
  imports Migrate_Gate
begin

text \<open>
  The row-level security a plan leaves on one relation: whether it is enabled, whether it is forced on
  the owner too, and the policies by name. \<open>dep\<close> lists the policies that call a function, as \<open>pg_depend\<close>
  knows them; policy names are stored cut at 63 bytes.
\<close>

section \<open>The security view of one relation\<close>

record rlsInfo =
  ri_Enabled :: bool
  ri_Forced :: bool
  ri_Policies :: "string \<rightharpoonup> string \<times> string \<times> string"

definition noRLS :: rlsInfo where
  "noRLS = \<lparr>ri_Enabled = False, ri_Forced = False, ri_Policies = Map.empty\<rparr>"

definition policyText :: "relname \<Rightarrow> string \<Rightarrow> string" where
  "policyText r p = fst r @ ''.'' @ snd r @ ''.'' @ take 63 p"

text \<open>The view follows one table: the relation it is, and what is known of it while it exists.\<close>

type_synonym rlsView = "relname \<times> rlsInfo option"

definition onRel :: "relname \<Rightarrow> (rlsInfo \<Rightarrow> string + rlsInfo) \<Rightarrow> rlsView \<Rightarrow> string + rlsView" where
  "onRel r f v =
     (if r \<noteq> fst v then Inr v
      else case snd v of None \<Rightarrow> Inl ''relation does not exist''
        | Some x \<Rightarrow> (case f x of Inl e \<Rightarrow> Inl e | Inr y \<Rightarrow> Inr (fst v, Some y)))"

fun execP :: "(string \<Rightarrow> string list) \<Rightarrow> stmt \<Rightarrow> rlsView \<Rightarrow> string + rlsView" where
  "execP dep (CreateTable r cs ks) v = (if r = fst v \<and> snd v = None then Inr (fst v, Some noRLS) else Inr v)"
| "execP dep (DropTable r) v = (if r = fst v then Inr (fst v, None) else Inr v)"
| "execP dep (RenameTable r n) v =
     (if r = fst v then (if snd v = None then Inl ''relation does not exist'' else Inr ((fst r, n), snd v))
      else if (fst r, n) = fst v then Inl ''relation already exists'' else Inr v)"
| "execP dep (EnableRLS r) v = onRel r (\<lambda>x. Inr (x\<lparr>ri_Enabled := True\<rparr>)) v"
| "execP dep (DisableRLS r) v = onRel r (\<lambda>x. Inr (x\<lparr>ri_Enabled := False\<rparr>)) v"
| "execP dep (ForceRLS r) v = onRel r (\<lambda>x. Inr (x\<lparr>ri_Forced := True\<rparr>)) v"
| "execP dep (CreatePolicy n r ty op clauses) v =
     onRel r (\<lambda>x. if ri_Policies x n \<noteq> None then Inl ''policy already exists''
        else Inr (x\<lparr>ri_Policies := (ri_Policies x)(n \<mapsto> (ty, op, clauses))\<rparr>)) v"
| "execP dep (DropPolicy n r) v =
     (if r = fst v then Inr (fst v, map_option (\<lambda>x. x\<lparr>ri_Policies := (ri_Policies x)(n := None)\<rparr>) (snd v)) else Inr v)"
| "execP dep (DropPoliciesUsing f sig managed) v =
     (case snd v of None \<Rightarrow> Inr v
      | Some x \<Rightarrow>
          if list_ex (\<lambda>p. ri_Policies x p \<noteq> None \<and> policyText (fst v) p \<notin> set managed) (dep f)
          then Inl ''rpc is still used by a policy''
          else Inr (fst v, Some (x\<lparr>ri_Policies := ri_Policies x |` (- set (dep f))\<rparr>)))"
| "execP dep _ v = Inr v"

text \<open>Statements that leave the relation \<open>q\<close> alone.\<close>

fun apart :: "relname \<Rightarrow> stmt \<Rightarrow> bool" where
  "apart q (CreateTable r _ _) = (r \<noteq> q)"
| "apart q (DropTable r) = (r \<noteq> q)"
| "apart q (RenameTable r n) = (r \<noteq> q \<and> (fst r, n) \<noteq> q)"
| "apart q (EnableRLS r) = (r \<noteq> q)"
| "apart q (DisableRLS r) = (r \<noteq> q)"
| "apart q (ForceRLS r) = (r \<noteq> q)"
| "apart q (CreatePolicy _ r _ _ _) = (r \<noteq> q)"
| "apart q (DropPolicy _ r) = (r \<noteq> q)"
| "apart q (DropPoliciesUsing _ _ _) = False"
| "apart q _ = True"

lemma execP_apart: "apart (fst v) s \<Longrightarrow> execP dep s v = Inr v"
  by (cases s) (auto simp: onRel_def)

interpretation security: catalog_view "execP dep" "\<lambda>v. apart (fst v)" for dep
  by unfold_locales (rule execP_apart)

lemmas execAll_apart = security.skip_quiet

section \<open>The policies of a table\<close>

text \<open>The policies a table declares, one for each operation of each policy; a repeated name is replaced.\<close>

definition policyEntries :: "string \<Rightarrow> Table \<Rightarrow> (string \<times> string \<times> string \<times> string) list" where
  "policyEntries name t =
     concat (map (\<lambda>(i, p). map (\<lambda>op. (policyName name op i,
         rlsPolicyTypeClause p, toUpper op, rlsClauses op (rls_Using p) (rls_WithCheck p))) (rls_Operations p))
       (List.enumerate 0 (tbl_RLS t)))"

definition policiesOf :: "string \<Rightarrow> Table \<Rightarrow> string \<rightharpoonup> string \<times> string \<times> string" where
  "policiesOf name t = map_of (rev (policyEntries name t))"

definition replacePolicy :: "relname \<Rightarrow> string \<times> string \<times> string \<times> string \<Rightarrow> stmt list" where
  "replacePolicy r e = (case e of (n, ty, op, cl) \<Rightarrow> [DropPolicy n r, CreatePolicy n r ty op cl])"

lemma concat_map_concat: "concat (map f (concat xss)) = concat (map (\<lambda>xs. concat (map f xs)) xss)"
  by (induction xss) auto

lemma generateRLSPolicies_alt:
  "generateRLSPolicies name t =
     (if \<not> EffectiveRLSEnabled t then []
      else [EnableRLS (tableRel name t), ForceRLS (tableRel name t)] @
        concat (map (replacePolicy (tableRel name t)) (policyEntries name t)))"
  by (simp add: generateRLSPolicies_def policyEntries_def tablePolicies_def [abs_def] tablePolicy_def [abs_def]
    replacePolicy_def Let_def concat_map_concat split_def comp_def)

lemma map_fst_policyEntries: "map fst (policyEntries name t) = rlsPolicyNames name (tbl_RLS t)"
  by (simp add: policyEntries_def rlsPolicyNames_def map_concat split_def comp_def)

lemma fst_set_policyEntries: "fst ` set (policyEntries name t) = set (rlsPolicyNames name (tbl_RLS t))"
  by (simp flip: map_fst_policyEntries)

lemma replacePolicies:
  assumes "fst v = r" and "snd v = Some x"
  shows "execAll (execP dep) (concat (map (replacePolicy r) es)) v =
    Inr (r, Some (x\<lparr>ri_Policies := ri_Policies x ++ map_of (rev es)\<rparr>))"
  using assms
proof (induction es arbitrary: v x)
  case Nil
  then show ?case by (cases v) simp
next
  case (Cons e es)
  obtain n ty op cl where e: "e = (n, ty, op, cl)" by (cases e)
  let ?x = "x\<lparr>ri_Policies := (ri_Policies x)(n \<mapsto> (ty, op, cl))\<rparr>"
  have "execAll (execP dep) (replacePolicy r e) v = Inr (r, Some ?x)"
    using Cons.prems by (simp add: replacePolicy_def e onRel_def)
  moreover have "ri_Policies ?x ++ map_of (rev es) = ri_Policies x ++ map_of (rev (e # es))"
    by (rule ext) (simp add: e map_add_def split: option.splits)
  moreover have "execAll (execP dep) (concat (map (replacePolicy r) es)) (r, Some ?x) =
      Inr (r, Some (?x\<lparr>ri_Policies := ri_Policies ?x ++ map_of (rev es)\<rparr>))"
    by (rule Cons.IH) simp_all
  moreover have "?x\<lparr>ri_Policies := p\<rparr> = x\<lparr>ri_Policies := p\<rparr>" for p by simp
  ultimately show ?case by (simp only: list.map concat.simps execAll_append sum.case)
qed

section \<open>Passes that leave a table's security alone\<close>

lemma tableRel_eq [simp]: "tableRel m t = tableRel n u \<longleftrightarrow> EffectiveSchema t = EffectiveSchema u \<and> m = n"
  by (auto simp: tableRel_def)

lemma apart_tables [simp]:
  "list_all (apart q) (generateIndexes m t)" "list_all (apart q) (generateDeferredFKs m t)"
  "list_all (apart q) (generateGuards m t)" "list_all (apart q) (indexesAndGuards cfg)"
  by (auto simp: generateIndexes_def generateIndex_def generateDeferredFKs_def deferredFK_def generateGuards_def
    indexesAndGuards_def list_all_iff split: option.splits sum.splits if_splits prod.splits)

lemma apart_grants [simp]:
  "list_all (apart q) (generateSchemaGrants schemas roles)"
  "list_all (apart q) (generateExistingObjectGrants schemas roles)"
  by (auto simp: generateSchemaGrants_def schemaGrants_def generateExistingObjectGrants_def existingGrants_def
    generateSeedReadGrants_def generatePrivilegeRevokes_def Let_def intro!: list_all_concat_map)

lemma apart_auth [simp]:
  "list_all (apart q) generateJWTKeysTable" "list_all (apart q) (authFunctions cfg)"
  "list_all (apart q) (generateAuthTables a)" "list_all (apart q) (diffNewAuth old new)"
  by (auto simp: generateJWTKeysTable_def authFunctions_def generateRLSFunctions_def generateAuthTables_def
    identitiesDDL_def oneTimeTokensDDL_def mfaDDL_def flowStateDDL_def authHealDDL_def healAuthColumn_def
    healAuthIndex_def diffNewAuth_def split: option.splits)

lemma apart_storage [simp]:
  "list_all (apart q) (generateStorageTables cfg)" "list_all (apart q) (storageHeal cfg)"
  "list_all (apart q) (diffNewStorage old new)"
  by (auto simp: generateStorageTables_def storageObjectsDDL_def storageHelperFunctions_def
    storageOwnerColumnDDL_def storageHeal_def diffNewStorage_def)

lemma apart_storageRLS:
  "q \<noteq> storageObjects \<Longrightarrow> list_all (apart q) (generateStorageRLSAll storage)"
  "q \<noteq> storageObjects \<Longrightarrow> list_all (apart q) (diffRemovedStorageRLS old new)"
  unfolding diffRemovedStorageRLS_def
  by (auto simp: generateStorageRLSAll_def dropPublicSelect_def bucketPolicies_def generateStorageRLS_def
    storagePolicies_def storagePolicy_def openBucketPolicy_def bucketRemovedRLS_def Let_def list_all_iff)

lemma apart_rpc [simp]: "list_all (apart q) (rpcStatements cfg)"
  by (auto simp: rpcStatements_def generateRPCFunction_def list_all_iff)

lemma apart_columns [simp]:
  "list_all (apart q) (diffNewColumns old new)" "list_all (apart q) (diffColumnChanges old new)"
  "list_all (apart q) (fst (diffRemovedColumns old new))" "list_all (apart q) (diffRemovedIndexes old new)"
  "list_all (apart q) (diffRemovedGuards old new)" "list_all (apart q) (diffIndexesOnLiveColumns old new)"
  unfolding diffNewColumns_def diffColumnChanges_def diffRemovedIndexes_def diffRemovedGuards_def
    diffIndexesOnLiveColumns_def
  by (rule list_all_concat_map, force simp: list_all_iff tableNewColumns_def newColumn_def tableColumnChanges_def
      columnChange_def tableRemovedIndexes_def tableRemovedGuards_def tableLiveIndexes_def generateIndexes_def
      generateIndex_def Let_def split: option.splits if_splits prod.splits
    | force simp: diffRemovedColumns_def list_all_iff)+

lemma apart_policies: "tableRel m t \<noteq> q \<Longrightarrow> list_all (apart q) (generateRLSPolicies m t)"
  by (auto simp: generateRLSPolicies_alt replacePolicy_def intro!: list_all_concat_map split: prod.splits)

lemma apart_newTable: "tableRel m (tableOf (cfg_Tables new) m) \<noteq> q \<Longrightarrow> list_all (apart q) (newTable old new m)"
  by (simp add: newTable_def Let_def generateTable_alt)

lemma apart_dropTables:
  assumes "sameSchemas old new" and "map_of (cfg_Tables new) n = Some t"
  shows "list_all (apart (tableRel n t)) (fst (diffRemovedTables old new))"
  using assms(2) by (auto simp: diffRemovedTables_def removedTables_def list_all_iff mapHas_def)

section \<open>The invariant\<close>

text \<open>
  The security the configuration promises for a table: enabled as it says; when enabled, forced and with exactly
  its policies; when not, at most policies under the names it declares.
\<close>

definition secured :: "string \<Rightarrow> Table \<Rightarrow> rlsInfo \<Rightarrow> bool" where
  "secured name t x =
     (ri_Enabled x = EffectiveRLSEnabled t \<and>
      dom (ri_Policies x) \<subseteq> set (rlsPolicyNames name (tbl_RLS t)) \<and>
      (EffectiveRLSEnabled t \<longrightarrow> ri_Forced x \<and> ri_Policies x = policiesOf name t))"

definition securedView :: "Config \<Rightarrow> string \<Rightarrow> rlsInfo option \<Rightarrow> bool" where
  "securedView cfg name X =
     (case map_of (cfg_Tables cfg) name of None \<Rightarrow> X = None
      | Some t \<Rightarrow> (case X of None \<Rightarrow> False | Some x \<Rightarrow> secured name t x))"

text \<open>What holds between the removal of old policies and the creation of the new ones.\<close>

definition pending :: "string \<Rightarrow> Table \<Rightarrow> rlsInfo \<Rightarrow> bool" where
  "pending name t x =
     (dom (ri_Policies x) \<subseteq> set (rlsPolicyNames name (tbl_RLS t)) \<and> (ri_Enabled x \<longrightarrow> EffectiveRLSEnabled t))"

lemma pending_noRLS [simp]: "pending name t noRLS"
  by (simp add: pending_def noRLS_def)

lemma exec_policies:
  assumes "pending name t x"
  shows "\<exists>x'. execAll (execP dep) (generateRLSPolicies name t) (tableRel name t, Some x) =
      Inr (tableRel name t, Some x') \<and> secured name t x'"
proof (cases "EffectiveRLSEnabled t")
  case False
  with assms show ?thesis
    by (intro exI [of _ x]) (simp add: generateRLSPolicies_alt secured_def pending_def)
next
  case True
  let ?r = "tableRel name t" and ?y = "x\<lparr>ri_Enabled := True, ri_Forced := True\<rparr>"
  have "execAll (execP dep) [EnableRLS ?r, ForceRLS ?r] (?r, Some x) = Inr (?r, Some ?y)"
    by (simp add: onRel_def)
  moreover have "execAll (execP dep) (concat (map (replacePolicy ?r) (policyEntries name t))) (?r, Some ?y) =
      Inr (?r, Some (?y\<lparr>ri_Policies := ri_Policies ?y ++ map_of (rev (policyEntries name t))\<rparr>))"
    by (rule replacePolicies) simp_all
  moreover have "generateRLSPolicies name t =
      [EnableRLS ?r, ForceRLS ?r] @ concat (map (replacePolicy ?r) (policyEntries name t))"
    using True by (simp add: generateRLSPolicies_alt)
  ultimately have "execAll (execP dep) (generateRLSPolicies name t) (?r, Some x) =
      Inr (?r, Some (?y\<lparr>ri_Policies := ri_Policies ?y ++ map_of (rev (policyEntries name t))\<rparr>))"
    using execAll_appendI by metis
  moreover have "ri_Policies x ++ map_of (rev (policyEntries name t)) = policiesOf name t"
  proof -
    have "dom (ri_Policies x) \<subseteq> dom (map_of (rev (policyEntries name t)))"
      using assms by (simp add: pending_def dom_map_of_conv_image_fst fst_set_policyEntries)
    then show ?thesis by (auto simp: policiesOf_def map_add_def intro!: ext split: option.splits)
  qed
  ultimately show ?thesis using True
    by (simp add: secured_def policiesOf_def dom_map_of_conv_image_fst fst_set_policyEntries)
qed

lemma exec_dropPolicies:
  "execAll (execP dep) (map (\<lambda>n. DropPolicy n r) ns) (r, Some x) =
     Inr (r, Some (x\<lparr>ri_Policies := ri_Policies x |` (- set ns)\<rparr>))"
proof (induction ns arbitrary: x)
  case (Cons n ns)
  let ?x = "x\<lparr>ri_Policies := (ri_Policies x)(n := None)\<rparr>"
  have "(ri_Policies x)(n := None) |` (- set ns) = ri_Policies x |` (- set (n # ns))"
    by (rule ext) (auto simp: restrict_map_def)
  then have "?x\<lparr>ri_Policies := ri_Policies ?x |` (- set ns)\<rparr> = x\<lparr>ri_Policies := ri_Policies x |` (- set (n # ns))\<rparr>"
    by (simp del: fun_upd_apply)
  moreover have "execP dep (DropPolicy n r) (r, Some x) = Inr (r, Some ?x)" by simp
  ultimately show ?case using Cons.IH [of ?x] by (simp only: list.map execAll.simps sum.case)
qed (simp add: restrict_map_def)

lemma exec_removedRLS:
  assumes "map_of (cfg_Tables old) n = Some ot" and nt: "map_of (cfg_Tables new) n = Some nt"
    and "EffectiveSchema ot = EffectiveSchema nt" and "secured n ot x"
  shows "\<exists>y. execAll (execP dep) (tableRemovedRLS old new n) (tableRel n nt, Some x) = Inr (tableRel n nt, Some y) \<and>
    pending n nt y"
proof -
  let ?r = "tableRel n nt"
  let ?ns = "filter (\<lambda>p. p \<notin> set (rlsPolicyNames n (tbl_RLS nt))) (rlsPolicyNames n (tbl_RLS ot))"
  let ?x = "x\<lparr>ri_Policies := ri_Policies x |` (- set ?ns)\<rparr>"
  have "tableRel n ot = ?r" using assms(3) by simp
  then have b: "tableRemovedRLS old new n = map (\<lambda>p. DropPolicy p ?r) ?ns @
      (if EffectiveRLSEnabled ot \<and> \<not> EffectiveRLSEnabled nt then [DisableRLS ?r] else [])"
    using assms(1,2) by (simp add: tableRemovedRLS_def Let_def)
  have "dom (ri_Policies ?x) \<subseteq> set (rlsPolicyNames n (tbl_RLS nt))"
    using assms(4) by (auto simp: secured_def)
  then show ?thesis
    unfolding b execAll_append exec_dropPolicies
    using assms(4) by (auto simp: pending_def secured_def onRel_def)
qed

lemma managed_policy:
  assumes "map_of (cfg_Tables cfg) n = Some t" and "p \<in> set (rlsPolicyNames n (tbl_RLS t))"
  shows "policyText (tableRel n t) p \<in> set (managedPolicyNames cfg)"
proof -
  have "n \<in> set (sortedKeys (cfg_Tables cfg))" using assms(1) by (force dest: map_of_SomeD)
  with assms show ?thesis by (force simp: managedPolicyNames_def policyText_def tableRel_def)
qed

lemma removedFunction_cases:
  "removedFunction old new f = [] \<or> (\<exists>sig. removedFunction old new f =
     [DropPoliciesUsing f sig (managedPolicyNames new), DropFunction f sig])"
  by (auto simp: removedFunction_def Let_def split: option.splits)

text \<open>A removed function takes the policies that call it with it; each is one the new configuration declares.\<close>

lemma exec_removedFunctions:
  assumes "map_of (cfg_Tables new) n = Some t"
  shows "pending n t x \<Longrightarrow>
    \<exists>y. execAll (execP dep) (concat (map (removedFunction old new) fs)) (tableRel n t, Some x) =
      Inr (tableRel n t, Some y) \<and> pending n t y"
proof (induction fs arbitrary: x)
  case (Cons f fs)
  let ?x = "x\<lparr>ri_Policies := ri_Policies x |` (- set (dep f))\<rparr>"
  have p: "pending n t ?x" using Cons.prems by (auto simp: pending_def)
  have "\<not> list_ex (\<lambda>p. ri_Policies x p \<noteq> None \<and> policyText (tableRel n t) p \<notin> set (managedPolicyNames new)) (dep f)"
    using Cons.prems managed_policy [OF assms] by (auto simp: list_ex_iff pending_def)
  then have "execP dep (DropPoliciesUsing f sig (managedPolicyNames new)) (tableRel n t, Some x) =
      Inr (tableRel n t, Some ?x)" for sig by simp
  then have "execAll (execP dep) [DropPoliciesUsing f sig (managedPolicyNames new), DropFunction f sig]
      (tableRel n t, Some x) = Inr (tableRel n t, Some ?x)" for sig
    by (simp del: execP.simps(9))
  then consider "execAll (execP dep) (removedFunction old new f) (tableRel n t, Some x) = Inr (tableRel n t, Some x)"
    | "execAll (execP dep) (removedFunction old new f) (tableRel n t, Some x) = Inr (tableRel n t, Some ?x)"
    using removedFunction_cases [of old new f] by fastforce
  then show ?case
    using Cons.IH [OF p] Cons.IH [OF Cons.prems] by cases (auto simp: execAll_append)
qed simp

lemma exec_removedFunctions_none:
  "execAll (execP dep) (concat (map (removedFunction old new) fs)) (q, None) = Inr (q, None)"
  by (rule execAll_skip) (auto simp: removedFunction_def Let_def split: option.splits if_splits)

section \<open>Column renames\<close>

definition noTableRenames :: "Config \<Rightarrow> bool" where
  "noTableRenames cfg = (\<forall>(_, t) \<in> set (cfg_Tables cfg). tbl_RenamedFrom t = [])"

text \<open>A column rename keeps the names of the tables and all of a table but its columns.\<close>

definition sameOutside :: "Table gmap \<Rightarrow> Table gmap \<Rightarrow> bool" where
  "sameOutside a b =
     (\<forall>n. map_option (\<lambda>t. t\<lparr>tbl_Fields := []\<rparr>) (map_of a n) = map_option (\<lambda>t. t\<lparr>tbl_Fields := []\<rparr>) (map_of b n))"

lemma renameColumn_keeps:
  "(renameColumn n f (t, ddl)) = (t', ddl') \<Longrightarrow>
     t'\<lparr>tbl_Fields := []\<rparr> = t\<lparr>tbl_Fields := []\<rparr> \<and> (list_all (apart q) ddl \<longrightarrow> list_all (apart q) ddl')"
  by (auto simp: renameColumn_def Let_def split: if_splits)

lemma renameColumn_fold_keeps:
  "fold (renameColumn n) fs (t, ddl) = (t', ddl') \<Longrightarrow>
     t'\<lparr>tbl_Fields := []\<rparr> = t\<lparr>tbl_Fields := []\<rparr> \<and> (list_all (apart q) ddl \<longrightarrow> list_all (apart q) ddl')"
proof (induction fs arbitrary: t ddl)
  case (Cons f fs)
  obtain u e where u: "renameColumn n f (t, ddl) = (u, e)" by (cases "renameColumn n f (t, ddl)")
  with Cons.prems have "fold (renameColumn n) fs (u, e) = (t', ddl')" by simp
  from Cons.IH [OF this] renameColumn_keeps [OF u, of q] show ?case by auto
qed simp

lemma renameColumns_keeps:
  assumes "renameColumns new n (tables, ddl) = (tables', ddl')"
  shows "sameOutside tables tables' \<and> (list_all (apart q) ddl \<longrightarrow> list_all (apart q) ddl')"
proof (cases "map_of tables n")
  case (Some t)
  obtain u e where u: "fold (renameColumn n) (tbl_Fields (tableOf new n)) (t, ddl) = (u, e)"
    by (cases "fold (renameColumn n) (tbl_Fields (tableOf new n)) (t, ddl)")
  from renameColumn_fold_keeps [OF u, of q] assms Some u show ?thesis
    by (auto simp: renameColumns_def sameOutside_def update_conv')
qed (use assms in \<open>auto simp: renameColumns_def sameOutside_def\<close>)

lemma renames_keep:
  assumes w: "wfTables (cfg_Tables new)" and "noTableRenames new" and r: "applyRenames old new = (old', ddl)"
  shows "sameOutside (cfg_Tables old) (cfg_Tables old') \<and> list_all (apart q) ddl"
proof -
  let ?new = "cfg_Tables new"
  have "renameTable ?new n st = st" for n st
  proof (cases "map_of ?new n")
    case None
    then show ?thesis by (cases st) (simp add: renameTable_def lookupOr_def zeroTable_def)
  next
    case (Some t)
    then have "tbl_RenamedFrom t = []" using assms(2) by (auto simp: noTableRenames_def dest: map_of_SomeD)
    with Some show ?thesis by (cases st) (simp add: renameTable_def)
  qed
  then have 1: "fold (renameTable ?new) ns st = st" for ns st by (induction ns) auto
  have 2: "fold (renameColumns ?new) ns (tables, ddl) = (tables', ddl') \<Longrightarrow>
      sameOutside tables tables' \<and> (list_all (apart q) ddl \<longrightarrow> list_all (apart q) ddl')" for ns tables ddl tables' ddl'
  proof (induction ns arbitrary: tables ddl)
    case (Cons n ns)
    obtain ts e where u: "renameColumns ?new n (tables, ddl) = (ts, e)" by (cases "renameColumns ?new n (tables, ddl)")
    with Cons.prems have "fold (renameColumns ?new) ns (ts, e) = (tables', ddl')" by simp
    from Cons.IH [OF this] renameColumns_keeps [OF u, of q] show ?case by (auto simp: sameOutside_def)
  qed (simp add: sameOutside_def)
  obtain tables ddl0 where f: "fold (renameColumns ?new) (sortedKeys ?new) (cfg_Tables old, []) = (tables, ddl0)"
    by (cases "fold (renameColumns ?new) (sortedKeys ?new) (cfg_Tables old, [])")
  with r have "cfg_Tables old' = tables" "ddl = ddl0"
    by (auto simp: applyRenames_def renameTables_def 1)
  with 2 [OF f] show ?thesis by simp
qed

lemma securedView_outside:
  assumes "sameOutside (cfg_Tables old) (cfg_Tables old')"
  shows "securedView old n X = securedView old' n X"
proof -
  have s: "secured n t x = secured n u x" if "t\<lparr>tbl_Fields := []\<rparr> = u\<lparr>tbl_Fields := []\<rparr>" for t u x
  proof -
    from that have r: "tbl_RLS t = tbl_RLS u" "tbl_RLSEnabled t = tbl_RLSEnabled u"
      by (cases t; cases u; simp)+
    then have "EffectiveRLSEnabled t = EffectiveRLSEnabled u" "policiesOf n t = policiesOf n u"
      unfolding EffectiveRLSEnabled_def policiesOf_def policyEntries_def r by simp_all
    with r show ?thesis by (simp add: secured_def)
  qed
  from assms have "map_option (\<lambda>t. t\<lparr>tbl_Fields := []\<rparr>) (map_of (cfg_Tables old) n) =
      map_option (\<lambda>t. t\<lparr>tbl_Fields := []\<rparr>) (map_of (cfg_Tables old') n)" by (simp add: sameOutside_def)
  then consider "map_of (cfg_Tables old) n = None" "map_of (cfg_Tables old') n = None"
    | t u where "map_of (cfg_Tables old) n = Some t" "map_of (cfg_Tables old') n = Some u"
        "t\<lparr>tbl_Fields := []\<rparr> = u\<lparr>tbl_Fields := []\<rparr>"
    by (cases "map_of (cfg_Tables old) n"; cases "map_of (cfg_Tables old') n") auto
  then show ?thesis
  proof cases
    case (2 t u)
    with s [OF 2(3)] show ?thesis by (cases X) (simp_all add: securedView_def)
  qed (simp add: securedView_def)
qed

section \<open>An update keeps the invariant\<close>

lemma exec_policyStatements:
  assumes nt: "map_of (cfg_Tables cfg) n = Some t" and p: "pending n t x"
  shows "\<exists>y. execAll (execP dep) (policyStatements cfg @ rest) (tableRel n t, Some x) =
      execAll (execP dep) rest (tableRel n t, Some y) \<and> secured n t y"
proof -
  from exec_policies [OF p, of dep] obtain y where
    y: "execAll (execP dep) (generateRLSPolicies n t) (tableRel n t, Some x) = Inr (tableRel n t, Some y)" "secured n t y"
    by blast
  have "n \<in> set (orderTables (cfg_Tables cfg))" using nt by (force dest: map_of_SomeD)
  from security.only_block [OF distinct_orderTables this, where v = "(tableRel n t, Some x)" and
      block = "\<lambda>n. generateRLSPolicies n (tableOf (cfg_Tables cfg) n)" and dep = dep and
      w = "(tableRel n t, Some y)" and rest = rest] y nt
  show ?thesis by (auto simp: policyStatements_def apart_policies)
qed

lemma exec_newTables:
  assumes nt: "map_of (cfg_Tables new) n = Some t" and "map_of (cfg_Tables old) n = None"
  shows "execAll (execP dep) (diffNewTables old new @ rest) (tableRel n t, None) =
      execAll (execP dep) rest (tableRel n t, Some noRLS)"
  unfolding diffNewTables_def
proof (rule security.only_block [where n = n])
  show "n \<in> set (orderTables (cfg_Tables new))" using nt by (force dest: map_of_SomeD)
  have "execAll (execP dep) (generateTable n t (cfg_Tables new)) (tableRel n t, None) = Inr (tableRel n t, Some noRLS)"
    by (simp add: generateTable_alt)
  moreover have "newTable old new n = generateTable n t (cfg_Tables new) @ generateIndexes n t @ generateDeferredFKs n t @ []"
    using assms by (simp add: newTable_def mapHas_def)
  ultimately show "execAll (execP dep) (newTable old new n) (tableRel n t, None) = Inr (tableRel n t, Some noRLS)"
    by (simp only: execAll_append [of _ "generateTable n t (cfg_Tables new)"] sum.case execAll_apart
      apart_tables(1,2) execAll.simps(1))
qed (use apart_newTable nt in \<open>auto simp: distinct_orderTables\<close>)

lemma skip_newTables:
  assumes nt: "map_of (cfg_Tables new) n = Some t" and "map_of (cfg_Tables old) n \<noteq> None"
  shows "list_all (apart (tableRel n t)) (diffNewTables old new)"
  unfolding diffNewTables_def
proof (rule list_all_concat_map)
  fix m
  show "list_all (apart (tableRel n t)) (newTable old new m)"
  proof (cases "m = n")
    case True
    with assms show ?thesis by (auto simp: newTable_def mapHas_def)
  qed (auto intro: apart_newTable)
qed

text \<open>The update of a table that both configurations have, from the removals on.\<close>

lemma exec_removals:
  assumes same: "sameSchemas old new" and nt: "map_of (cfg_Tables new) n = Some t"
    and w: "wfTables (cfg_Tables old)" and X: "securedView old n X" and q: "tableRel n t \<noteq> storageObjects"
  shows "\<exists>Y. execAll (execP dep) (diffRemovedRLSPolicies old new @ diffRemovedIndexes old new @
        fst (diffRemovedColumns old new) @ fst (diffRemovedTables old new) @ diffRemovedGuards old new @
        diffRemovedStorageRLS old new @ diffRemovedRPCFunctions old new @ rest) (tableRel n t, X) =
      execAll (execP dep) rest (tableRel n t, Y) \<and>
      (case map_of (cfg_Tables old) n of None \<Rightarrow> Y = None | Some _ \<Rightarrow> (\<exists>y. Y = Some y \<and> pending n t y))"
proof -
  let ?r = "tableRel n t"
  have skip: "execAll (execP dep) (diffRemovedIndexes old new @
        fst (diffRemovedColumns old new) @ fst (diffRemovedTables old new) @ diffRemovedGuards old new @
        diffRemovedStorageRLS old new @ tail) (?r, Z) = execAll (execP dep) tail (?r, Z)" for tail Z
    using apart_dropTables [OF same nt] apart_storageRLS(2) [OF q] by (simp add: execAll_apart)
  show ?thesis
  proof (cases "map_of (cfg_Tables old) n")
    case None
    then have X: "X = None" using X by (simp add: securedView_def)
    have "list_all (apart ?r) (diffRemovedRLSPolicies old new)"
      unfolding diffRemovedRLSPolicies_def
    proof (rule list_all_concat_map)
      fix m assume m: "m \<in> set (sortedKeys (cfg_Tables old))"
      then have "m \<noteq> n" using None sortedKeys_Some [OF m] by auto
      then show "list_all (apart ?r) (tableRemovedRLS old new m)"
        by (auto simp: tableRemovedRLS_def Let_def list_all_iff split: option.splits)
    qed
    moreover have "execAll (execP dep) (diffRemovedRPCFunctions old new) (?r, None) = Inr (?r, None)"
      unfolding diffRemovedRPCFunctions_def by (rule exec_removedFunctions_none)
    note execAll_appendI [OF this refl, of rest]
    ultimately show ?thesis using None X skip by (intro exI [of _ None]) (simp add: execAll_apart)
  next
    case (Some ot)
    with X obtain x where x: "X = Some x" "secured n ot x" by (auto simp: securedView_def split: option.splits)
    have e: "EffectiveSchema ot = EffectiveSchema t"
      using same Some nt by (fastforce simp: sameSchemas_def dest: map_of_SomeD)
    from exec_removedRLS [OF Some nt e x(2), of dep] obtain y where
      y: "execAll (execP dep) (tableRemovedRLS old new n) (?r, X) = Inr (?r, Some y)" "pending n t y"
      unfolding x(1) by blast
    have "execAll (execP dep) (diffRemovedRLSPolicies old new @ tail) (?r, X) = execAll (execP dep) tail (?r, Some y)" for tail
      unfolding diffRemovedRLSPolicies_def
    proof (rule security.only_block [where n = n])
      show "distinct (sortedKeys (cfg_Tables old))" using w by (simp add: wfTables_def distinct_sortedKeys)
      show "n \<in> set (sortedKeys (cfg_Tables old))" using Some by (force dest: map_of_SomeD)
      show "list_all (apart (fst (?r, X))) (tableRemovedRLS old new m)" if "m \<noteq> n" for m
        using that by (auto simp: tableRemovedRLS_def Let_def list_all_iff split: option.splits)
    qed (use y in simp_all)
    moreover from exec_removedFunctions [OF nt y(2), of dep old "sortedKeys (cfg_RPC old)"]
    obtain z where z: "execAll (execP dep) (diffRemovedRPCFunctions old new) (?r, Some y) = Inr (?r, Some z)" "pending n t z"
      unfolding diffRemovedRPCFunctions_def by blast
    ultimately show ?thesis using Some skip execAll_appendI [OF z(1) refl, of rest]
      by (intro exI [of _ "Some z"]) simp
  qed
qed

lemma update_secured:
  assumes w: "wfTables (cfg_Tables old)" "wfTables (cfg_Tables new)" and no: "noTableRenames new"
    and same: "sameSchemas (fst (applyRenames old new)) new"
    and nt: "map_of (cfg_Tables new) n = Some t" and q: "tableRel n t \<noteq> storageObjects"
    and X: "securedView old n X"
  shows "\<exists>x. execAll (execP dep) (planUpdateStatements old new roles) (tableRel n t, X) =
    Inr (tableRel n t, Some x) \<and> secured n t x"
proof -
  let ?r = "tableRel n t"
  obtain old' ddl where r: "applyRenames old new = (old', ddl)" by (cases "applyRenames old new")
  from renames_keep [OF w(2) no r] have out: "sameOutside (cfg_Tables old) (cfg_Tables old')"
    and ren: "list_all (apart q) ddl" for q by auto
  have w': "wfTables (cfg_Tables old')" using renames_exec [OF nameFree_colInfo w(1) r] by blast
  have X': "securedView old' n X" using X securedView_outside [OF out] by simp
  have same': "sameSchemas old' new" using same r by simp
  let ?tail = "policyStatements new @ generateStorageRLSAll (cfg_Storage new) @
      generateExistingObjectGrants (orderedSchemas new) roles"
  let ?rest = "diffNewAuth old' new @ diffIndexesOnLiveColumns old' new @ diffNewTables old' new @
      diffNewColumns old' new @ diffNewStorage old' new @ diffColumnChanges old' new @ indexesAndGuards new @
      storageHeal new @ rpcStatements new @ ?tail"
  from exec_removals [OF same' nt w' X' q, of dep ?rest] obtain Y where
    Y: "execAll (execP dep) (diffRemovedRLSPolicies old' new @ diffRemovedIndexes old' new @
        fst (diffRemovedColumns old' new) @ fst (diffRemovedTables old' new) @ diffRemovedGuards old' new @
        diffRemovedStorageRLS old' new @ diffRemovedRPCFunctions old' new @ ?rest) (?r, X) =
      execAll (execP dep) ?rest (?r, Y)"
    "case map_of (cfg_Tables old') n of None \<Rightarrow> Y = None | Some _ \<Rightarrow> (\<exists>y. Y = Some y \<and> pending n t y)" by blast
  have "\<exists>y. execAll (execP dep) ?rest (?r, Y) = execAll (execP dep) ?tail (?r, Some y) \<and> pending n t y"
  proof (cases "map_of (cfg_Tables old') n")
    case None
    with Y(2) exec_newTables [OF nt None] show ?thesis
      by (intro exI [of _ noRLS]) (simp add: execAll_apart)
  next
    case (Some ot)
    with Y(2) obtain y where y: "Y = Some y" "pending n t y" by auto
    from skip_newTables [OF nt] Some have "list_all (apart ?r) (diffNewTables old' new)" by simp
    with y show ?thesis by (intro exI [of _ y]) (simp add: execAll_apart)
  qed
  then obtain y where y: "execAll (execP dep) ?rest (?r, Y) = execAll (execP dep) ?tail (?r, Some y)" "pending n t y" by blast
  from exec_policyStatements [OF nt y(2), of dep] obtain z where
    z: "execAll (execP dep) ?tail (?r, Some y) = execAll (execP dep) (generateStorageRLSAll (cfg_Storage new) @
      generateExistingObjectGrants (orderedSchemas new) roles) (?r, Some z)" "secured n t z" by blast
  have "execAll (execP dep) (generateExistingObjectGrants (orderedSchemas new) roles) (?r, Some z) = Inr (?r, Some z)"
    using execAll_apart [where b = "[]" and a = "generateExistingObjectGrants (orderedSchemas new) roles"
      and c = "(?r, Some z)"] by simp
  with z have "execAll (execP dep) ?tail (?r, Some y) = Inr (?r, Some z)"
    using apart_storageRLS(1) [OF q] by (simp add: execAll_apart)
  then have "execAll (execP dep) (planUpdateStatements old new roles) (?r, X) = Inr (?r, Some z)"
    using Y(1) y(1) by (simp add: planUpdateStatements_def diffConfigs_def r Let_def execAll_apart ren)
  with z(2) show ?thesis by blast
qed


lemma exec_scratchTables:
  assumes nt: "map_of (cfg_Tables cfg) n = Some t"
  shows "execAll (execP dep) (concat (map (scratchTable cfg) (orderTables (cfg_Tables cfg))) @ rest) (tableRel n t, None) =
      execAll (execP dep) rest (tableRel n t, Some noRLS)"
proof (rule security.only_block [where n = n])
  show "n \<in> set (orderTables (cfg_Tables cfg))" using nt by (force dest: map_of_SomeD)
  have "execAll (execP dep) (generateTable n t (cfg_Tables cfg)) (tableRel n t, None) = Inr (tableRel n t, Some noRLS)"
    by (simp add: generateTable_alt)
  moreover have "scratchTable cfg n =
      generateTable n t (cfg_Tables cfg) @ generateIndexes n t @ generateDeferredFKs n t @ generateGuards n t @ []"
    using assms by (simp add: scratchTable_def)
  ultimately show "execAll (execP dep) (scratchTable cfg n) (tableRel n t, None) = Inr (tableRel n t, Some noRLS)"
    by (simp only: execAll_append [of _ "generateTable n t (cfg_Tables cfg)"] sum.case execAll_apart
      apart_tables(1,2,3) execAll.simps(1))
  show "list_all (apart (fst (tableRel n t, None))) (scratchTable cfg m)" if "m \<noteq> n" for m
    using that by (simp add: scratchTable_def Let_def generateTable_alt)
qed (simp_all add: distinct_orderTables)

text \<open>C8: The first plan gives every table the row-level security its configuration declares.\<close>

theorem scratch_secures:
  assumes nt: "map_of (cfg_Tables cfg) n = Some t" and q: "tableRel n t \<noteq> storageObjects"
  shows "\<exists>x. execAll (execP dep) (planFromScratchStatements cfg roles) (tableRel n t, None) =
    Inr (tableRel n t, Some x) \<and> secured n t x"
proof -
  let ?r = "tableRel n t"
  from exec_policyStatements [OF nt pending_noRLS, of dep] obtain z where
    z: "execAll (execP dep) (policyStatements cfg @ generateStorageRLSAll (cfg_Storage cfg) @
        generateExistingObjectGrants (orderedSchemas cfg) roles) (?r, Some noRLS) =
      execAll (execP dep) (generateStorageRLSAll (cfg_Storage cfg) @
        generateExistingObjectGrants (orderedSchemas cfg) roles) (?r, Some z)" "secured n t z" by blast
  have "execAll (execP dep) (generateExistingObjectGrants (orderedSchemas cfg) roles) (?r, Some z) = Inr (?r, Some z)"
    using execAll_apart [where b = "[]" and a = "generateExistingObjectGrants (orderedSchemas cfg) roles"
      and c = "(?r, Some z)"] by simp
  with z show ?thesis using apart_storageRLS(1) [OF q]
    by (cases "cfg_Auth cfg")
      (simp_all add: planFromScratchStatements_def execAll_apart exec_scratchTables [OF nt])
qed

section \<open>A policy no statement names survives\<close>

fun sparesPolicy :: "(string \<Rightarrow> string list) \<Rightarrow> relname \<Rightarrow> string \<Rightarrow> stmt \<Rightarrow> bool" where
  "sparesPolicy dep q p (DropTable r) = (r \<noteq> q)"
| "sparesPolicy dep q p (RenameTable r n) = (r \<noteq> q)"
| "sparesPolicy dep q p (DropPolicy n r) = (n \<noteq> p \<or> r \<noteq> q)"
| "sparesPolicy dep q p (DropPoliciesUsing f sig managed) = (p \<notin> set (dep f))"
| "sparesPolicy dep q p _ = True"

lemma sparesPolicy_step:
  assumes "sparesPolicy dep q p s" and "execP dep s (q, Some x) = Inr v" and "ri_Policies x p = Some i"
  shows "\<exists>y. v = (q, Some y) \<and> ri_Policies y p = Some i"
  using assms by (cases i; cases s) (auto simp: onRel_def split: if_splits)

lemma policy_survives:
  "list_all (sparesPolicy dep q p) ss \<Longrightarrow> execAll (execP dep) ss (q, Some x) = Inr v \<Longrightarrow>
     ri_Policies x p = Some i \<Longrightarrow> \<exists>y. v = (q, Some y) \<and> ri_Policies y p = Some i"
proof (induction ss arbitrary: x)
  case (Cons s ss)
  then obtain w where "execP dep s (q, Some x) = Inr w" "execAll (execP dep) ss w = Inr v"
    by (auto split: sum.splits)
  with Cons sparesPolicy_step [of dep q p s x w i] show ?case by auto
qed auto

end
