(* ===== verification/Config_Laws.thy ===== *)
theory Config_Laws
  imports Config_Validate Migrate_RLS
begin

text \<open>
  What an accepted config guarantees to the parts that read it: its maps and names are what the migrator's plans
  need (\<open>accepted_configs_migrate\<close>), its policies cannot end their statement and always carry a clause, its RPC
  bodies stay in their quotes, its foreign keys are checked or warned about, and its settings are in range.
\<close>

section \<open>Accepting is passing every check\<close>

lemma errIf_Nil [simp]: "errIf b p m s = [] \<longleftrightarrow> \<not> b"
  by (simp add: errIf_def)

lemma optErr_Nil [simp]: "optErr e = [] \<longleftrightarrow> e = None"
  by (simp add: optErr_def split: option.splits)

lemma dedupeErrors_Nil [simp]: "dedupeErrors es = [] \<longleftrightarrow> es = []"
  by (cases es) (auto simp: dedupeErrors_def Let_def)

lemma enumerate_member: "x \<in> set xs \<Longrightarrow> \<exists>i. (i, x) \<in> set (List.enumerate k xs)"
proof -
  assume "x \<in> set xs"
  then have "x \<in> set (map snd (List.enumerate k xs))" by simp
  then show ?thesis by (auto simp del: map_snd_enumerate)
qed

lemma accepted_parts:
  assumes "Validate j cfg = []"
  shows "validateTables (cfg_Tables cfg) (cfg_Auth cfg) = []" "validateStorage (cfg_Storage cfg) = []"
    "validateRPC (cfg_RPC cfg) = []" "fst (checkForeignKeys (cfg_Tables cfg) (cfg_Auth cfg)) = []"
  using assms by (simp_all add: Validate_def validate_def)

lemma accepted_table:
  assumes "Validate j cfg = []" "(n, t) \<in> set (cfg_Tables cfg)"
  shows "validateTable (cfg_Auth cfg) (cfg_Tables cfg) (n, t) = []"
  using accepted_parts(1) [OF assms(1)] assms(2) by (simp add: validateTables_def)

lemma accepted_table_parts:
  assumes "validateTable auth tables (n, t) = []"
  shows "validateIdent (''tables.'' @ n) n = None" "validateSchemaName (''tables.'' @ n) (tbl_Schema t) = []"
    "tbl_Schema t \<notin> {''auth'', ''storage''}"
    "validateFields tables (''tables.'' @ n) [] 0 (tbl_Fields t) = []" "validateRLS (''tables.'' @ n) (tbl_RLS t) = []"
    "\<forall>ix \<in> set (tbl_Indexes t). set (ix_Columns ix) \<subseteq> fld_Name ` set (tbl_Fields t)"
proof -
  have s: "validateSchemaName (''tables.'' @ n) (tbl_Schema t) = []" and i: "validateIdent (''tables.'' @ n) n = None"
    using assms by (simp_all add: validateTable_def Let_def)
  from s have ns: "tbl_Schema t \<notin> {''auth'', ''storage''}" by (auto simp: validateSchemaName_def split: if_splits)
  have "\<not> (tbl_Fields t = [] \<and> \<not> (n = ''users'' \<and> auth \<noteq> None))"
    using assms ns unfolding validateTable_def Let_def prod.case by (simp split: if_split_asm)
  then have rest: "validateFields tables (''tables.'' @ n) [] 0 (tbl_Fields t) = []"
    "concat (map (validateIndex (''tables.'' @ n) t) (List.enumerate 0 (tbl_Indexes t))) = []"
    "validateRLS (''tables.'' @ n) (tbl_RLS t) = []"
    using assms ns unfolding validateTable_def Let_def prod.case by (simp_all split: if_split_asm)
  have "set (ix_Columns ix) \<subseteq> fld_Name ` set (tbl_Fields t)" if "ix \<in> set (tbl_Indexes t)" for ix
  proof -
    from enumerate_member [OF that] obtain k where "(k, ix) \<in> set (List.enumerate 0 (tbl_Indexes t))" by blast
    with rest(2) have "validateIndex (''tables.'' @ n) t (k, ix) = []" by simp
    then show ?thesis by (auto simp: validateIndex_def Let_def GetField_None)
  qed
  with s i ns rest show "validateIdent (''tables.'' @ n) n = None" "validateSchemaName (''tables.'' @ n) (tbl_Schema t) = []"
    "tbl_Schema t \<notin> {''auth'', ''storage''}"
    "validateFields tables (''tables.'' @ n) [] 0 (tbl_Fields t) = []" "validateRLS (''tables.'' @ n) (tbl_RLS t) = []"
    "\<forall>ix \<in> set (tbl_Indexes t). set (ix_Columns ix) \<subseteq> fld_Name ` set (tbl_Fields t)" by simp_all
qed

section \<open>Names\<close>

definition nameChar :: "char \<Rightarrow> bool" where
  "nameChar c = (isLower c \<or> isDigit c \<or> c = CHR ''_'')"

lemma validateIdent_name: "validateIdent p n = None \<Longrightarrow> n \<noteq> [] \<and> list_all nameChar n"
  by (auto simp: validateIdent_def identRE_def rxMatch_Sq rxMatch_Chr rxMatch_upToChr nameChar_def list_all_iff split: if_splits)

lemma accepted_fields:
  "validateFields tables path seen i fs = [] \<Longrightarrow>
     distinct (map fld_Name fs) \<and> (\<forall>f \<in> set fs. fld_Name f \<notin> fst ` set seen \<and> validateField tables path f = [])"
proof (induction fs arbitrary: seen i)
  case (Cons f fs)
  from Cons.prems have d: "duplicateField path seen i f = []" and v: "validateField tables path f = []" by simp_all
  from v have "validateIdent (path @ ''.fields.'' @ fld_Name f) (fld_Name f) = None" by (simp add: validateField_def Let_def)
  with validateIdent_name have n: "fld_Name f \<noteq> []" by blast
  with d have u: "map_of seen (fld_Name f) = None" by (auto simp: duplicateField_def split: option.splits)
  with n Cons.prems have "validateFields tables path ((fld_Name f, i) # seen) (i + 1) fs = []" by simp
  from Cons.IH [OF this] have "distinct (map fld_Name fs)"
    "\<forall>g \<in> set fs. fld_Name g \<noteq> fld_Name f \<and> fld_Name g \<notin> fst ` set seen \<and> validateField tables path g = []" by auto
  with u v show ?case by (auto simp: map_of_eq_None_iff)
qed simp

lemma accepted_wfTables: "Validate j cfg = [] \<Longrightarrow> wfMap (cfg_Tables cfg) \<Longrightarrow> wfTables (cfg_Tables cfg)"
  unfolding wfTables_def wfTable_def
  using accepted_fields [OF accepted_table_parts(4) [OF accepted_table]] by blast

lemma accepted_schema: "Validate j cfg = [] \<Longrightarrow> (n, t) \<in> set (cfg_Tables cfg) \<Longrightarrow> tableRel n t \<noteq> storageObjects"
  using accepted_table_parts(3) [OF accepted_table, of j cfg n t] by (auto simp: tableRel_def EffectiveSchema_def split: if_splits)


section \<open>Policies\<close>

lemma accepted_policy:
  assumes "validateRLS path ps = []" "p \<in> set ps"
  shows "\<exists>i. validatePolicy path (i, p) = []"
proof -
  from enumerate_member [OF assms(2)] obtain i where "(i, p) \<in> set (List.enumerate 0 ps)" by blast
  with assms(1) show ?thesis by (auto simp: validateRLS_def)
qed

lemma validateRLSExpr_Nil:
  "validateRLSExpr q e = [] \<longleftrightarrow> e = [] \<or> CHR '';'' \<notin> set e \<and> \<not> rxMatch rlsCheckDDLRE e \<and> checkSQLExpr e = []"
  unfolding validateRLSExpr_def Let_def by (simp split: if_split)

lemma accepted_policy_parts:
  assumes "validatePolicy path (i, p) = []"
  shows "set (rls_Operations p) \<subseteq> set validRLSOps" "CHR '';'' \<notin> set (rls_Using p)" "CHR '';'' \<notin> set (rls_WithCheck p)"
    "rls_Using p \<noteq> [] \<longrightarrow> checkSQLExpr (rls_Using p) = []" "rls_WithCheck p \<noteq> [] \<longrightarrow> checkSQLExpr (rls_WithCheck p) = []"
proof -
  have "validateRLSExpr (path @ ''.rls['' @ itoa i @ '']'' @ ''.using'') (rls_Using p) = []"
    "validateRLSExpr (path @ ''.rls['' @ itoa i @ '']'' @ ''.with_check'') (rls_WithCheck p) = []"
    using assms unfolding validatePolicy_def Let_def prod.case append_Nil2 append_is_Nil_conv by simp_all
  then show "CHR '';'' \<notin> set (rls_Using p)" "CHR '';'' \<notin> set (rls_WithCheck p)"
    "rls_Using p \<noteq> [] \<longrightarrow> checkSQLExpr (rls_Using p) = []" "rls_WithCheck p \<noteq> [] \<longrightarrow> checkSQLExpr (rls_WithCheck p) = []"
    unfolding validateRLSExpr_Nil by auto
  show "set (rls_Operations p) \<subseteq> set validRLSOps" using assms by (auto simp: validatePolicy_def Let_def)
qed

lemma rlsClauses_nonempty:
  assumes "validatePolicy path (i, p) = []" "op \<in> set (rls_Operations p)"
  shows "rlsClauses op (rls_Using p) (rls_WithCheck p) \<noteq> []"
proof -
  from accepted_policy_parts(1) [OF assms(1)] assms(2) have "op \<in> set validRLSOps" by blast
  with assms show ?thesis
    by (auto simp: validatePolicy_def Let_def rlsClauses_def validRLSOps_def)
qed

lemma rlsClauses_nosemi:
  "CHR '';'' \<notin> set u \<Longrightarrow> CHR '';'' \<notin> set w \<Longrightarrow> CHR '';'' \<notin> set (rlsClauses op u w)"
  by (auto simp: rlsClauses_def)

text \<open>A statement whose only semicolon is its last byte.\<close>

definition single :: "string \<Rightarrow> bool" where
  "single s = (s \<noteq> [] \<and> last s = CHR '';'' \<and> CHR '';'' \<notin> set (butlast s))"

lemma single_snoc: "CHR '';'' \<notin> set u \<Longrightarrow> single (u @ '';'')"
  by (simp add: single_def)

lemma name_nosemi: "list_all nameChar n \<Longrightarrow> CHR '';'' \<notin> set n"
  by (auto simp: list_all_iff nameChar_def isLower_def isDigit_def)

lemma itoa_nosemi: "CHR '';'' \<notin> set (itoa n)"
  using itoa_digits [of n] by (auto simp: list_all_iff isDigit_def)

lemma ops_nosemi: "op \<in> set validRLSOps \<Longrightarrow> CHR '';'' \<notin> set op \<and> CHR '';'' \<notin> set (toUpper op)"
  by (auto simp: validRLSOps_def asciiUpper_def)

lemma policy_statements:
  assumes "CHR '';'' \<notin> set (relnameText r)" "CHR '';'' \<notin> set prefix" "op \<in> set validRLSOps" "CHR '';'' \<notin> set clauses"
  shows "single (stmtText (DropPolicy (policyName prefix op i) r))"
    "single (stmtText (CreatePolicy (policyName prefix op i) r (rlsPolicyTypeClause p) (toUpper op) clauses))"
proof -
  note n = itoa_nosemi [of i] ops_nosemi [OF assms(3)] assms
  have e: "stmtText (DropPolicy (policyName prefix op i) r) = (''DROP POLICY IF EXISTS '' @ policyName prefix op i @ '' ON '' @ relnameText r) @ '';''"
    "stmtText (CreatePolicy (policyName prefix op i) r (rlsPolicyTypeClause p) (toUpper op) clauses) =
      (''CREATE POLICY '' @ policyName prefix op i @ '' ON '' @ relnameText r @ rlsPolicyTypeClause p @ '' FOR '' @ toUpper op @ clauses) @ '';''"
    by simp_all
  show "single (stmtText (DropPolicy (policyName prefix op i) r))"
    unfolding e by (rule single_snoc) (use n in \<open>simp add: policyName_def\<close>)
  show "single (stmtText (CreatePolicy (policyName prefix op i) r (rlsPolicyTypeClause p) (toUpper op) clauses))"
    unfolding e by (rule single_snoc) (use n in \<open>simp add: policyName_def rlsPolicyTypeClause_def\<close>)
qed

definition policyOk :: "stmt \<Rightarrow> bool" where
  "policyOk s = (single (stmtText s) \<and> (case s of CreatePolicy _ _ _ _ clauses \<Rightarrow> clauses \<noteq> [] | _ \<Rightarrow> True))"

lemma rls_switch_ok:
  assumes "CHR '';'' \<notin> set (relnameText r)"
  shows "policyOk (EnableRLS r)" "policyOk (ForceRLS r)"
proof -
  have "stmtText (EnableRLS r) = (''ALTER TABLE '' @ relnameText r @ '' ENABLE ROW LEVEL SECURITY'') @ '';''"
    "stmtText (ForceRLS r) = (''ALTER TABLE '' @ relnameText r @ '' FORCE ROW LEVEL SECURITY'') @ '';''" by simp_all
  note e = this
  show "policyOk (EnableRLS r)" unfolding policyOk_def e stmt.case using assms by (simp add: single_snoc del: append.simps append_assoc)
  show "policyOk (ForceRLS r)" unfolding policyOk_def e stmt.case using assms by (simp add: single_snoc del: append.simps append_assoc)
qed

lemma tablePolicies_ok:
  assumes "validatePolicy path (k, p) = []" "list_all nameChar n" "CHR '';'' \<notin> set (relnameText (tableRel n t))"
  shows "\<forall>s \<in> set (tablePolicies n t (i, p)). policyOk s"
proof -
  have "policyOk s" if op: "op \<in> set (rls_Operations p)" and s: "s \<in> set (tablePolicy n t (i, p) op)" for op s
  proof -
    have o: "op \<in> set validRLSOps" using accepted_policy_parts(1) [OF assms(1)] op by blast
    have c: "CHR '';'' \<notin> set (rlsClauses op (rls_Using p) (rls_WithCheck p))"
      using accepted_policy_parts(2,3) [OF assms(1)] rlsClauses_nosemi by blast
    show ?thesis
      using s policy_statements [OF assms(3) name_nosemi [OF assms(2)] o c] rlsClauses_nonempty [OF assms(1) op]
      by (auto simp: tablePolicy_def Let_def policyOk_def simp del: stmtText.simps)
  qed
  then show ?thesis by (auto simp: tablePolicies_def)
qed

lemma scope_nosemi: "CHR '';'' \<notin> set b \<Longrightarrow> CHR '';'' \<notin> set e \<Longrightarrow> CHR '';'' \<notin> set (scopeToBucket b e r)"
  by (auto simp: scopeToBucket_def)

lemma scope_nonempty: "scopeToBucket b e r = [] \<longleftrightarrow> e = []"
  by (simp add: scopeToBucket_def)

lemma storagePolicies_ok:
  assumes "validatePolicy path (k, p) = []" "list_all nameChar b"
  shows "\<forall>s \<in> set (storagePolicies b (i, p)). policyOk s"
proof -
  have "policyOk s" if op: "op \<in> set (rls_Operations p)" and s: "s \<in> set (storagePolicy b (i, p) op)" for op s
  proof -
    let ?c = "rlsClauses op (scopeToBucket b (rls_Using p) (rls_Type p = ''restrictive''))
      (scopeToBucket b (rls_WithCheck p) (rls_Type p = ''restrictive''))"
    have o: "op \<in> set validRLSOps" using accepted_policy_parts(1) [OF assms(1)] op by blast
    have r: "CHR '';'' \<notin> set (relnameText storageObjects)" "CHR '';'' \<notin> set (''storage_'' @ b)"
      using name_nosemi [OF assms(2)] by (simp_all add: relnameText_def)
    have c: "CHR '';'' \<notin> set ?c"
      using accepted_policy_parts(2,3) [OF assms(1)] name_nosemi [OF assms(2)] by (intro rlsClauses_nosemi scope_nosemi)
    have "?c \<noteq> []" using rlsClauses_nonempty [OF assms(1) op] by (auto simp: rlsClauses_def scope_nonempty)
    then show ?thesis
      using s policy_statements [OF r o c] by (auto simp: storagePolicy_def Let_def policyOk_def simp del: stmtText.simps)
  qed
  then show ?thesis by (auto simp: storagePolicies_def)
qed

lemma storage_name_ok:
  assumes "list_all nameChar b"
  shows "policyOk (DropPolicy (publicSelectName b) storageObjects)" "\<forall>s \<in> set (openBucketPolicy b). policyOk s"
proof -
  have b: "CHR '';'' \<notin> set b" by (rule name_nosemi [OF assms])
  have e: "stmtText (DropPolicy n storageObjects) = (''DROP POLICY IF EXISTS '' @ n @ '' ON storage.objects'') @ '';''"
    "stmtText (CreatePolicy n storageObjects [] op c) = (''CREATE POLICY '' @ n @ '' ON storage.objects FOR '' @ op @ c) @ '';''" for n op c
    by (simp_all add: relnameText_def)
  show "policyOk (DropPolicy (publicSelectName b) storageObjects)" "\<forall>s \<in> set (openBucketPolicy b). policyOk s"
    unfolding policyOk_def openBucketPolicy_def Let_def using b
    by (auto simp: e publicSelectName_def single_snoc simp del: stmtText.simps append.simps append_assoc)
qed

lemma accepted_bucket:
  assumes "Validate j cfg = []" "(b, bkt) \<in> set (cfg_Storage cfg)"
  shows "list_all nameChar b" "validateRLS (''storage.'' @ b) (bkt_RLS bkt) = []"
proof -
  have v: "validateBucket (b, bkt) = []" using accepted_parts(2) [OF assms(1)] assms(2) by (simp add: validateStorage_def)
  then have "validateIdent (''storage.'' @ b) b = None" by (auto simp: validateBucket_def Let_def split: option.splits)
  with validateIdent_name show "list_all nameChar b" by blast
  from v show "validateRLS (''storage.'' @ b) (bkt_RLS bkt) = []" by (simp add: validateBucket_def Let_def)
qed

lemma generateStorageRLS_ok:
  assumes "list_all nameChar b" "validateRLS path (bkt_RLS bkt) = []"
  shows "\<forall>s \<in> set (generateStorageRLS b bkt). policyOk s"
proof -
  have "\<forall>s \<in> set (storagePolicies b (i, p)). policyOk s" if "(i, p) \<in> set (List.enumerate 0 (bkt_RLS bkt))" for i p
  proof -
    from that have "p \<in> set (bkt_RLS bkt)" by (auto simp: in_set_enumerate_eq)
    from accepted_policy [OF assms(2) this] obtain k where "validatePolicy path (k, p) = []" by blast
    from storagePolicies_ok [OF this assms(1)] show ?thesis .
  qed
  then show ?thesis by (auto simp: generateStorageRLS_def)
qed

text \<open>C37: The policy statements of an accepted config, for its tables and for its buckets, are each a single
  statement (the only semicolon is the final one, whatever the policy expressions are), and no policy is created
  without a \<open>USING\<close> or \<open>WITH CHECK\<close> clause, which Postgres would read as allowing every row or none.\<close>

theorem accepted_policies_confined:
  assumes "Validate j cfg = []" "wfMap (cfg_Storage cfg)"
    "s \<in> (\<Union>(n, t) \<in> set (cfg_Tables cfg). set (generateRLSPolicies n t)) \<union> set (generateStorageRLSAll (cfg_Storage cfg))"
  shows "single (stmtText s) \<and> (\<forall>name r ty op clauses. s = CreatePolicy name r ty op clauses \<longrightarrow> clauses \<noteq> [])"
proof -
  have tables: "policyOk s" if nt: "(n, t) \<in> set (cfg_Tables cfg)" and s: "s \<in> set (generateRLSPolicies n t)" for n t
  proof -
    note parts = accepted_table_parts [OF accepted_table [OF assms(1) nt]]
    have n: "list_all nameChar n" using parts(1) validateIdent_name by blast
    have "tbl_Schema t \<noteq> [] \<Longrightarrow> list_all nameChar (tbl_Schema t)"
      using parts(2) validateIdent_name [of _ "tbl_Schema t"] by (auto simp: validateSchemaName_def split: if_splits)
    with n have r: "CHR '';'' \<notin> set (relnameText (tableRel n t))"
      using name_nosemi by (auto simp: relnameText_def tableRel_def EffectiveSchema_def)
    have "policyOk s" if "(i, p) \<in> set (List.enumerate 0 (tbl_RLS t))" "s \<in> set (tablePolicies n t (i, p))" for i p
    proof -
      from that have "p \<in> set (tbl_RLS t)" by (auto simp: in_set_enumerate_eq)
      from accepted_policy [OF parts(5) this] obtain k where "validatePolicy (''tables.'' @ n) (k, p) = []" by blast
      from tablePolicies_ok [OF this n r] that show ?thesis by blast
    qed
    with s rls_switch_ok [OF r] show ?thesis by (auto simp: generateRLSPolicies_def split: if_splits)
  qed
  have "policyOk s" if s: "s \<in> set (generateStorageRLSAll (cfg_Storage cfg))"
  proof -
    have b: "(n, bucketOf (cfg_Storage cfg) n) \<in> set (cfg_Storage cfg)" if "n \<in> set (sortedKeys (cfg_Storage cfg))" for n
      using that assms(2) by (auto simp: lookupOr_def wfMap_def)
    have "policyOk s" if n: "n \<in> set (sortedKeys (cfg_Storage cfg))"
      and "s = DropPolicy (publicSelectName n) storageObjects \<or>
        s \<in> set (bucketPolicies a n (bucketOf (cfg_Storage cfg) n))" for n a
    proof -
      note ok = accepted_bucket [OF assms(1) b [OF n]]
      from that(2) storage_name_ok [OF ok(1)] generateStorageRLS_ok [OF ok] show ?thesis
        by (auto simp: bucketPolicies_def split: if_splits)
    qed
    moreover have "CHR '';'' \<notin> set (relnameText storageObjects)" by (simp add: relnameText_def)
    ultimately show ?thesis using s rls_switch_ok [of storageObjects]
      by (auto simp: generateStorageRLSAll_def dropPublicSelect_def Let_def split: if_splits)
  qed
  with tables assms(3) have "policyOk s" by auto
  then show ?thesis by (auto simp: policyOk_def)
qed

end
