(* ===== verification/Config_Refs.thy ===== *)
theory Config_Refs
  imports Config_Laws
begin

text \<open>
  The other guarantees of an accepted config: the body of an RPC function stays in its dollar quotes (but for one
  ending), settings are in range without a wrap-around, and every foreign key is checked or warned about.
\<close>

section \<open>Dollar quotes\<close>

lemma strIndex_None: "strIndex s t = None \<longleftrightarrow> (\<nexists>u v. s = u @ t @ v)"
proof (induction s t rule: strIndex.induct)
  case (1 t)
  then show ?case by auto
next
  case (2 c cs t)
  have "(\<exists>u v. c # cs = u @ t @ v) \<longleftrightarrow> hasPrefix (c # cs) t \<or> (\<exists>u v. cs = u @ t @ v)"
    by (auto simp: hasPrefix_iff Cons_eq_append_conv)
  with 2 show ?case by auto
qed

lemma strIndex_first_iff:
  "strIndex s t = Some i \<longleftrightarrow> (\<exists>u v. s = u @ t @ v \<and> length u = i \<and> (\<forall>u' v'. s = u' @ t @ v' \<longrightarrow> i \<le> length u'))"
proof (induction s t arbitrary: i rule: strIndex.induct)
  case (1 t)
  then show ?case by auto
next
  case (2 c cs t)
  show ?case
  proof (cases "hasPrefix (c # cs) t")
    case True
    then obtain v where v: "c # cs = [] @ t @ v" by (auto simp: hasPrefix_iff)
    have "strIndex (c # cs) t = Some 0" using True by simp
    show ?thesis
    proof
      assume "strIndex (c # cs) t = Some i"
      with \<open>strIndex (c # cs) t = Some 0\<close> v
      show "\<exists>u v. c # cs = u @ t @ v \<and> length u = i \<and> (\<forall>u' v'. c # cs = u' @ t @ v' \<longrightarrow> i \<le> length u')"
        by (intro exI [of _ "[]"] exI [of _ v]) simp
    next
      assume "\<exists>u v. c # cs = u @ t @ v \<and> length u = i \<and> (\<forall>u' v'. c # cs = u' @ t @ v' \<longrightarrow> i \<le> length u')"
      with v have "i \<le> length ([] :: string)" by blast
      with \<open>strIndex (c # cs) t = Some 0\<close> show "strIndex (c # cs) t = Some i" by simp
    qed
  next
    case False
    have split: "c # cs = u @ t @ v \<longleftrightarrow> (\<exists>u1. u = c # u1 \<and> cs = u1 @ t @ v)" for u v
      using False by (cases u) (auto simp: hasPrefix_iff)
    show ?thesis
    proof (cases i)
      case 0
      with False split show ?thesis by auto
    next
      case (Suc k)
      have "strIndex (c # cs) t = Some i \<longleftrightarrow> strIndex cs t = Some k" using False Suc by auto
      also have "\<dots> \<longleftrightarrow> (\<exists>u v. cs = u @ t @ v \<and> length u = k \<and> (\<forall>u' v'. cs = u' @ t @ v' \<longrightarrow> k \<le> length u'))"
        using 2 False by blast
      also have "\<dots> \<longleftrightarrow> (\<exists>u v. c # cs = u @ t @ v \<and> length u = i \<and> (\<forall>u' v'. c # cs = u' @ t @ v' \<longrightarrow> i \<le> length u'))"
      proof (intro iffI; elim exE conjE)
        fix u v assume "cs = u @ t @ v" "length u = k" "\<forall>u' v'. cs = u' @ t @ v' \<longrightarrow> k \<le> length u'"
        then show "\<exists>u v. c # cs = u @ t @ v \<and> length u = i \<and> (\<forall>u' v'. c # cs = u' @ t @ v' \<longrightarrow> i \<le> length u')"
          unfolding split using Suc by (intro exI [of _ "c # u"] exI [of _ v]) auto
      next
        fix u v assume "c # cs = u @ t @ v" "length u = i" and least: "\<forall>u' v'. c # cs = u' @ t @ v' \<longrightarrow> i \<le> length u'"
        moreover have "k \<le> length u'" if "cs = u' @ t @ v'" for u' v' using least [rule_format, of "c # u'" v'] that Suc by simp
        ultimately show "\<exists>u v. cs = u @ t @ v \<and> length u = k \<and> (\<forall>u' v'. cs = u' @ t @ v' \<longrightarrow> k \<le> length u')"
          unfolding split using Suc by auto
      qed
      finally show ?thesis .
    qed
  qed
qed

text \<open>Where the tag occurs in a text without the tag, followed by the tag: at the end, or overlapping it by the last dollar sign.\<close>

lemma tag_occurrence:
  assumes "\<not> strContains b dollarTagUB" "b @ dollarTagUB @ rest = u @ dollarTagUB @ v" "length u < length b"
  shows "hasSuffix b ''$ub'' \<and> length u + 3 = length b"
proof -
  define w where "w = drop (length u) b"
  have "take (length u) (b @ dollarTagUB @ rest) = take (length u) (u @ dollarTagUB @ v)" using assms(2) by simp
  then have "take (length u) b = u" using assms(3) by simp
  then have b: "b = u @ w" unfolding w_def by (metis append_take_drop_id)
  then have w: "b = u @ w" "w \<noteq> []" "w @ dollarTagUB @ rest = dollarTagUB @ v" using assms(2,3) by auto
  have "length w < 4"
  proof (rule ccontr)
    assume "\<not> length w < 4"
    then have "take 4 (w @ dollarTagUB @ rest) = take 4 w" by simp
    moreover have "take 4 (w @ dollarTagUB @ rest) = take 4 (dollarTagUB @ v)" using w(3) by simp
    ultimately have "take 4 w = dollarTagUB" by (simp add: dollarTagUB_def)
    then have "b = u @ dollarTagUB @ drop 4 w" using w(1) by (metis append_take_drop_id)
    with assms(1) show False using strIndex_None [of b dollarTagUB] by (auto simp: strContains_def)
  qed
  with w(2,3) show ?thesis
    unfolding w(1) by (auto simp: dollarTagUB_def hasSuffix_iff neq_Nil_conv less_Suc_eq numeral_eq_Suc length_Suc_conv)
qed

lemma tag_index:
  assumes "\<not> strContains b dollarTagUB"
  shows "strIndex (b @ dollarTagUB @ rest) dollarTagUB = Some (if hasSuffix b ''$ub'' then length b - 3 else length b)"
proof (cases "hasSuffix b ''$ub''")
  case True
  then obtain u where u: "b = u @ ''$ub''" by (auto simp: hasSuffix_iff)
  have "length u \<le> length u'" if "b @ dollarTagUB @ rest = u' @ dollarTagUB @ v'" for u' v'
    using tag_occurrence [OF assms that] u by (cases "length u' < length b") auto
  moreover have "b @ dollarTagUB @ rest = u @ dollarTagUB @ (''ub$'' @ rest)" by (simp add: u dollarTagUB_def)
  ultimately have "strIndex (b @ dollarTagUB @ rest) dollarTagUB = Some (length u)" unfolding strIndex_first_iff by blast
  with True u show ?thesis by simp
next
  case False
  have "length b \<le> length u'" if "b @ dollarTagUB @ rest = u' @ dollarTagUB @ v'" for u' v'
    using tag_occurrence [OF assms that] False by (cases "length u' < length b") auto
  then have "strIndex (b @ dollarTagUB @ rest) dollarTagUB = Some (length b)" unfolding strIndex_first_iff by blast
  with False show ?thesis by simp
qed

text \<open>C40: The body of an accepted RPC function closes its dollar quotes where the generator closes them: in the
  generated statement the first closing tag after the opening one is the generator's. The only exception is a body
  that ends in \<open>$ub\<close>: then the tag is closed three bytes early, and the statement does not parse.\<close>

theorem rpc_body_quoted:
  assumes "validateRPCFunction path name fn = []"
  shows "\<exists>pre. generateRPCFunction name fn = CreateFunction name (pre @ dollarTagUB @ fn_Body fn @ dollarTagUB @ '';'') \<and>
    strIndex (fn_Body fn @ dollarTagUB @ '';'') dollarTagUB =
      Some (if hasSuffix (fn_Body fn) ''$ub'' then length (fn_Body fn) - 3 else length (fn_Body fn))"
proof -
  have "\<not> strContains (fn_Body fn) dollarTagUB"
    using assms by (auto simp: validateRPCFunction_def split: option.splits)
  moreover have "\<exists>pre. generateRPCFunction name fn = CreateFunction name (pre @ dollarTagUB @ fn_Body fn @ dollarTagUB @ '';'')"
  proof -
    have "generateRPCFunction name fn = CreateFunction name ((''CREATE OR REPLACE FUNCTION public.'' @ CHR 0x22 # name @ CHR 0x22 # ''('' @
        commas (map argText (fn_Args fn)) @ '')'' @ nl @ ''RETURNS '' @ fr_Type (fn_Returns fn) @ nl @
        ''LANGUAGE '' @ toLower (fn_Language fn) @ nl @ toUpper (fn_Volatility fn) @ nl @
        (if equalFold (fn_Security fn) ''definer'' then ''SECURITY DEFINER'' else ''SECURITY INVOKER'') @
        rpcSetClauses (fn_Set fn) @ nl @ ''AS '') @ dollarTagUB @ fn_Body fn @ dollarTagUB @ '';'')"
      by (simp add: generateRPCFunction_def dollarTagUB_def)
    then show ?thesis by blast
  qed
  ultimately show ?thesis using tag_index by blast
qed

section \<open>Settings\<close>

lemma atoi_digits:
  assumes "list_all isDigit ds"
  shows "atoi ds = (if ds = [] \<or> 2 ^ 63 \<le> int (readNat ds) then None else Some (int (readNat ds)))"
proof -
  have d: "\<not> isDigit (CHR ''-'')" "\<not> isDigit (CHR ''+'')" by (simp_all add: isDigit_def)
  have p: "\<not> hasPrefix ds ''-''" "\<not> hasPrefix ds ''+''" using assms d by (cases ds; auto)+
  have "\<not> int (readNat ds) < - (2 ^ 63)" by simp
  with assms p show ?thesis unfolding atoi_def Let_def by auto
qed

lemma product_exact:
  assumes "0 \<le> n" "n \<le> 2 ^ 31 - 1" "0 \<le> u" "u \<le> 2 ^ 31"
  shows "sint ((word_of_int n :: 64 word) * word_of_int u) = n * u"
proof -
  have "n * u \<le> (2 ^ 31 - 1) * 2 ^ 31" using assms by (intro mult_mono) auto
  moreover have "0 \<le> n * u" using assms by simp
  ultimately have b: "- (2 ^ 63) \<le> n * u" "n * u < 2 ^ 63" by simp_all
  have "sint ((word_of_int n :: 64 word) * word_of_int u) = signed_take_bit 63 (n * u)"
    unfolding wi_hom_mult sint_sbintrunc' by simp
  also have "\<dots> = n * u" using b by (rule signed_take_bit_int_eq_self)
  finally show ?thesis .
qed

lemma unit_bounds:
  "units = rpcTimeoutUnits \<or> units = rpcMemUnits \<Longrightarrow> map_of units k = Some u \<Longrightarrow> 0 \<le> u \<and> u \<le> 2 ^ 31"
  by (auto simp: rpcTimeoutUnits_def rpcMemUnits_def split: if_splits)

text \<open>The range check of an RPC setting decides the exact product of the number and its unit: for the units of
  the sources the 64-bit product cannot wrap around, whatever the digits are.\<close>

lemma rpc_setting_exact:
  assumes "units = rpcTimeoutUnits \<or> units = rpcMemUnits"
  shows "rpcSetInRange v units lo \<longleftrightarrow> takeWhile isDigit v \<noteq> [] \<and> (let n = int (readNat (takeWhile isDigit v));
      u = (case map_of units (dropWhile isDigit v) of None \<Rightarrow> 0 | Some u \<Rightarrow> u)
    in n \<le> 2 ^ 31 - 1 \<and> lo \<le> n * u \<and> n * u \<le> 2 ^ 31 - 1)"
proof -
  let ?ds = "takeWhile isDigit v"
  let ?n = "int (readNat ?ds)"
  let ?u = "case map_of units (dropWhile isDigit v) of None \<Rightarrow> 0 | Some u \<Rightarrow> u"
  have ds: "list_all isDigit ?ds" by (auto simp: list_all_iff dest: set_takeWhileD)
  have u: "0 \<le> ?u" "?u \<le> 2 ^ 31" using unit_bounds [OF assms] by (auto split: option.splits)
  have "sint ((word_of_int ?n :: 64 word) * word_of_int ?u) = ?n * ?u" if "?n \<le> 2 ^ 31 - 1"
    using product_exact [OF _ that u] by simp
  then show ?thesis by (auto simp: rpcSetInRange_def Let_def atoi_digits [OF ds])
qed

section \<open>Foreign keys\<close>

definition lastField :: "Field list \<Rightarrow> string \<Rightarrow> Field option" where
  "lastField fs = map_of (rev (map (\<lambda>f. (fld_Name f, f)) fs))"

lemma fold_update: "map_of (fold (\<lambda>f m. AList.update (fld_Name f) f m) fs m) = map_of m ++ lastField fs"
proof (induction fs arbitrary: m)
  case (Cons f fs)
  have "(map_of m)(fld_Name f \<mapsto> f) ++ lastField fs = map_of m ++ lastField (f # fs)" by (simp add: lastField_def)
  with Cons show ?case by (simp add: update_conv' del: fun_upd_apply)
qed (simp add: lastField_def)

lemma FieldMap_lastField: "map_of (FieldMap t) = lastField (tbl_Fields t)"
  by (simp add: FieldMap_def fold_update)

lemma lastField_append: "lastField (xs @ ys) = lastField xs ++ lastField ys"
  by (simp add: lastField_def)

lemma distinct_FieldMap: "distinct (map fst (FieldMap t))"
proof -
  have "distinct (map fst m) \<Longrightarrow> distinct (map fst (fold (\<lambda>f m. AList.update (fld_Name f) f m) fs m))"
    for fs :: "Field list" and m
    by (induction fs arbitrary: m) (simp_all add: distinct_update)
  from this [of "[]"] show ?thesis by (simp add: FieldMap_def)
qed

lemma FieldMap_names: "(c, f) \<in> set (FieldMap t) \<Longrightarrow> fld_Name f = c"
  using FieldMap_values [of t c f] distinct_FieldMap [of t] by simp

lemma lastField_FieldMap: "lastField (map (\<lambda>(c, f). f\<lparr>fld_Name := c\<rparr>) (FieldMap t)) = map_of (FieldMap t)"
proof -
  have "map (\<lambda>(c, f). f\<lparr>fld_Name := c\<rparr>) (FieldMap t) = map snd (FieldMap t)"
    using FieldMap_names by (auto simp: map_eq_conv)
  moreover have "map (\<lambda>f. (fld_Name f, f)) (map snd (FieldMap t)) = FieldMap t"
    using FieldMap_names by (auto intro!: map_idI)
  moreover have "map_of (rev (FieldMap t)) = map_of (FieldMap t)"
    using distinct_FieldMap [of t] by (intro map_of_inject_set [THEN iffD2]) (simp_all add: rev_map [symmetric])
  ultimately show ?thesis unfolding lastField_def by metis
qed

lemma map_of_others: "n \<noteq> k \<Longrightarrow> map_of (filter (\<lambda>(n, _). n \<noteq> k) m) n = map_of m n"
  by (induction m) auto

text \<open>The source's closure: the fields of the target for the target's table, else the declared tables.\<close>

lemma overlay_resolver:
  "ResolverOver (overlay tables table fs) tb col =
     (if tb = table then
        (case lastField (map (\<lambda>(c, f). f\<lparr>fld_Name := c\<rparr>) fs) col of
           Some f \<Rightarrow> Some f
         | None \<Rightarrow> ResolverOver tables tb col)
      else ResolverOver tables tb col)"
  by (auto simp: ResolverOver_def overlay_def FieldMap_lastField lastField_append map_add_def map_of_others lastField_def [of "[]"]
      split: option.splits)

lemma overlay_declared:
  assumes "map_of tables table = Some t"
  shows "ResolverOver (overlay tables table (FieldMap t)) = ResolverOver tables"
proof (intro ext)
  fix tb col
  show "ResolverOver (overlay tables table (FieldMap t)) tb col = ResolverOver tables tb col"
  proof (cases "tb = table")
    case True
    with assms have "ResolverOver tables tb col = map_of (FieldMap t) col" by (simp add: ResolverOver_def)
    with True show ?thesis by (simp add: overlay_resolver lastField_FieldMap split: option.splits)
  qed (simp add: overlay_resolver)
qed

lemma effectiveType_cong: "ResolverOver A = ResolverOver B \<Longrightarrow> effectiveType A f seen = effectiveType B f seen"
proof (induction A f seen rule: effectiveType.induct)
  case (1 A f seen)
  show ?case
  proof (cases "fld_Type f = [] \<and> (\<exists>k s tb col rf. fld_ForeignKey f = Some k \<and> \<not> equalFold (fk_References k) ''auth.users.id'' \<and>
      fk_References k \<notin> set seen \<and> ParseFKReference (fk_References k) = Inr (s, tb, col) \<and> ResolverOver A tb col = Some rf)")
    case True
    then obtain k s tb col rf where a: "fld_Type f = []" "fld_ForeignKey f = Some k" "\<not> equalFold (fk_References k) ''auth.users.id''"
      "fk_References k \<notin> set seen" "ParseFKReference (fk_References k) = Inr (s, tb, col)" "ResolverOver A tb col = Some rf" by blast
    from 1(1) [OF _ a(2-5) refl refl a(6) 1(2)] a(1) have
      "effectiveType A rf (fk_References k # seen) = effectiveType B rf (fk_References k # seen)" by simp
    with a 1(2) show ?thesis by (simp add: effectiveType.simps [of _ f seen] Let_def)
  next
    case False
    with 1(2) show ?thesis by (auto simp: effectiveType.simps [of _ f seen] Let_def split: option.splits sum.splits)
  qed
qed

lemma EffectiveType_overlay:
  "map_of tables table = Some t \<Longrightarrow> EffectiveType f (overlay tables table (FieldMap t)) = EffectiveType f tables"
  unfolding EffectiveType_def by (rule effectiveType_cong [OF overlay_declared])

definition emailAuthOf :: "Config \<Rightarrow> bool" where
  "emailAuthOf cfg = (case cfg_Auth cfg of None \<Rightarrow> False | Some a \<Rightarrow> auth_Email a \<noteq> None)"

lemma accepted_checkOneFK:
  assumes "Validate j cfg = []" "map_of (cfg_Tables cfg) n = Some t" "f \<in> set (tbl_Fields t)"
  shows "fst (checkOneFK (cfg_Tables cfg) (fkSchemas (cfg_Tables cfg)) (emailAuthOf cfg) n f) = []"
    "set (snd (checkOneFK (cfg_Tables cfg) (fkSchemas (cfg_Tables cfg)) (emailAuthOf cfg) n f)) \<subseteq> set (Warnings j cfg)"
proof -
  have n: "n \<in> set (sortedKeys (cfg_Tables cfg))" "tableOf (cfg_Tables cfg) n = t"
    using assms(2) by (auto simp: lookupOr_def image_iff dest!: map_of_SomeD intro!: bexI [of _ "(n, t)"])
  note c = checkForeignKeys_def [of "cfg_Tables cfg" "cfg_Auth cfg", folded emailAuthOf_def [of cfg]]
  show "fst (checkOneFK (cfg_Tables cfg) (fkSchemas (cfg_Tables cfg)) (emailAuthOf cfg) n f) = []"
    using accepted_parts(4) [OF assms(1)] n assms(3) by (auto simp: c Let_def)
  show "set (snd (checkOneFK (cfg_Tables cfg) (fkSchemas (cfg_Tables cfg)) (emailAuthOf cfg) n f)) \<subseteq> set (Warnings j cfg)"
    using n assms(3) by (force simp: Warnings_def c Let_def)
qed

lemma resolveDeclared_names [simp]:
  "ref_schema (resolveDeclared T t p) = ref_schema t" "ref_table (resolveDeclared T t p) = ref_table t"
  "ref_col (resolveDeclared T t p) = ref_col t"
  unfolding resolveDeclared_def Let_def by (simp_all split: option.split del: append.simps append_Cons)

lemma resolveDeclared_known:
  "map_of T (ref_table t) = Some tb \<Longrightarrow> EffectiveSchema tb = ref_schema t \<Longrightarrow> mapHas (FieldMap tb) (ref_col t) \<Longrightarrow>
     resolveDeclared T t p = t\<lparr>ref_fields := FieldMap tb, ref_known := True, ref_err := None\<rparr>"
  unfolding resolveDeclared_def Let_def by (simp del: append.simps append_Cons)

lemma resolveFK_names:
  assumes "resolveFK T schemas ea ref path = Some r" "ParseFKReference ref = Inr (s, tb, c)"
  shows "ref_schema r = s \<and> ref_table r = tb \<and> ref_col r = c"
proof (cases "systemColumns ea (s @ ''.'' @ tb)")
  case None
  with assms show ?thesis unfolding resolveFK_def Let_def by (auto simp del: append.simps append_Cons)
next
  case (Some cols)
  with assms show ?thesis unfolding resolveFK_def Let_def
    by (cases "map_of cols c") (auto simp del: append.simps append_Cons)
qed

text \<open>What a successful resolution says of its target.\<close>

lemma resolveFK_cases:
  assumes "resolveFK tables schemas ea ref path = Some r" "ref_err r = None" "''public'' \<in> set schemas"
  obtains (system) cols f where "systemColumns ea (ref_schema r @ ''.'' @ ref_table r) = Some cols" "map_of cols (ref_col r) = Some f"
  | (declared) t where "map_of tables (ref_table r) = Some t" "EffectiveSchema t = ref_schema r" "mapHas (FieldMap t) (ref_col r)"
      "ref_fields r = FieldMap t" "ref_known r"
  | (unverified) w where "ref_warn r = Some w" "ve_Path w = path" "ref_schema r \<noteq> ''public''"
proof -
  obtain s tb c where ref: "ParseFKReference ref = Inr (s, tb, c)"
    using assms(1) by (auto simp: resolveFK_def split: sum.splits)
  show thesis
  proof (cases "systemColumns ea (s @ ''.'' @ tb)")
    case (Some cols)
    with assms ref have "\<exists>f. map_of cols c = Some f \<and> ref_schema r = s \<and> ref_table r = tb \<and> ref_col r = c"
      by (auto simp: resolveFK_def Let_def split: option.splits)
    with Some system show thesis by blast
  next
    case None
    note u = assms(1) [unfolded resolveFK_def ref sum.case prod.case Let_def None option.case option.inject]
    show thesis
    proof (cases "s = ''auth'' \<or> s = ''storage''")
      case True
      with u have "ref_schema r = s" "\<exists>w. ref_warn r = Some w \<and> ve_Path w = path" by (auto simp: verr_def)
      with True unverified show thesis by auto
    next
      case nas: False
      show thesis
      proof (cases "s \<in> set schemas")
        case False
        with u nas assms(2) have "ref_schema r = s" "\<exists>w. ref_warn r = Some w \<and> ve_Path w = path"
          by (auto simp: verr_def split: if_splits)
        moreover have "s \<noteq> ''public''" using False assms(3) by auto
        ultimately show thesis using unverified by auto
      next
        case True
        with u nas have r: "r = resolveDeclared tables \<lparr>ref_schema = s, ref_table = tb, ref_col = c, ref_fields = [],
            ref_known = False, ref_err = None, ref_warn = None\<rparr> path" by simp
        show thesis
        proof (cases "map_of tables tb")
          case None
          have "s \<noteq> ''public''"
            using assms(2) None unfolding r resolveDeclared_def Let_def by (simp split: if_splits del: append.simps append_Cons)
          with None have "s \<noteq> ''public'' \<and> ref_schema r = s \<and> (\<exists>w. ref_warn r = Some w \<and> ve_Path w = path)"
            unfolding r resolveDeclared_def Let_def verr_def by (simp del: append.simps append_Cons)
          with unverified show thesis by auto
        next
          case (Some t)
          show thesis
          proof (cases "EffectiveSchema t = s")
            case True
            have "mapHas (FieldMap t) c"
              using assms(2) True Some unfolding r resolveDeclared_def Let_def
              by (simp split: if_splits del: append.simps append_Cons)
            with r True Some have k: "ref_schema r = s" "ref_table r = tb" "ref_col r = c" "mapHas (FieldMap t) c"
                "ref_fields r = FieldMap t" "ref_known r" by (simp_all add: resolveDeclared_known)
            show thesis by (rule declared [of t]) (use k True Some in simp_all)
          next
            case False
            have "s \<noteq> ''public''"
              using assms(2) Some False unfolding r resolveDeclared_def Let_def
              by (simp split: if_splits del: append.simps append_Cons)
            with False Some have "s \<noteq> ''public'' \<and> ref_schema r = s \<and> (\<exists>w. ref_warn r = Some w \<and> ve_Path w = path)"
              unfolding r resolveDeclared_def Let_def verr_def by (simp del: append.simps append_Cons)
            with unverified show thesis by auto
          qed
        qed
      qed
    qed
  qed
qed

text \<open>C38: Every foreign key of an accepted config has a target that holds up: a declared column of the named table
  in the named schema, of a type that Postgres can compare with the column's own; or a column of a framework table
  that has a unique constraint; or, outside the public schema only, a target the validator cannot see, and then the
  reference is among the warnings.\<close>

theorem accepted_fks_checked:
  assumes "Validate j cfg = []" "map_of (cfg_Tables cfg) n = Some t" "f \<in> set (tbl_Fields t)" "fld_ForeignKey f = Some fk"
  shows "\<exists>s tb c. ParseFKReference (fk_References fk) = Inr (s, tb, c) \<and>
    ((\<exists>t' g. map_of (cfg_Tables cfg) tb = Some t' \<and> EffectiveSchema t' = s \<and> map_of (FieldMap t') c = Some g \<and>
        FKCompatible (EffectiveType f (cfg_Tables cfg)) (EffectiveType g (cfg_Tables cfg))) \<or>
     (\<exists>cols g. systemColumns (emailAuthOf cfg) (s @ ''.'' @ tb) = Some cols \<and> map_of cols c = Some g) \<or>
     s \<noteq> ''public'' \<and> (\<exists>w \<in> set (Warnings j cfg). ve_Path w = fkPath n (fld_Name f) @ ''.references''))"
proof -
  let ?T = "cfg_Tables cfg" and ?p = "fkPath n (fld_Name f)"
  have "validateField ?T (''tables.'' @ n) f = []"
    using accepted_fields [OF accepted_table_parts(4) [OF accepted_table [OF assms(1) map_of_SomeD [OF assms(2)]]]] assms(3) by blast
  then have "checkForeignKey (''tables.'' @ n @ ''.fields.'' @ fld_Name f @ ''.foreign_key'') fk = []"
    using assms(4) by (simp add: validateField_def Let_def)
  then have ne: "fk_References fk \<noteq> []" and "\<exists>s tb c. ParseFKReference (fk_References fk) = Inr (s, tb, c)"
    by (auto simp: checkForeignKey_def split: sum.splits if_splits)
  then obtain s tb c where ref: "ParseFKReference (fk_References fk) = Inr (s, tb, c)" by blast
  then obtain r where r: "resolveFK ?T (fkSchemas ?T) (emailAuthOf cfg) (fk_References fk) (?p @ ''.references'') = Some r"
    by (auto simp: resolveFK_def Let_def)
  have names: "ref_schema r = s" "ref_table r = tb" "ref_col r = c"
    using resolveFK_names [OF r ref] by simp_all
  note one = accepted_checkOneFK [OF assms(1-3), unfolded checkOneFK_def assms(4) option.case r Let_def]
  have noerr: "ref_err r = None" using one(1) ne by (auto split: option.splits)
  have pub: "''public'' \<in> set (fkSchemas ?T)" by (simp add: fkSchemas_def)
  show ?thesis
  proof (cases rule: resolveFK_cases [OF r noerr pub, case_names system declared unverified])
    case (system cols g)
    with ref names show ?thesis by blast
  next
    case (declared t')
    then obtain g where g: "map_of (FieldMap t') c = Some g" by (auto simp: mapHas_def names)
    have "FKCompatible (EffectiveType f ?T) (EffectiveType g ?T)"
      using one(1) ne noerr declared g by (simp add: names EffectiveType_overlay)
    with declared g ref names show ?thesis by blast
  next
    case (unverified w)
    then have "w \<in> set (Warnings j cfg)" using one(2) ne noerr by (simp add: optErr_def)
    with unverified ref names show ?thesis by blast
  qed
qed

end
