(* ===== verification/Runs.thy ===== *)
theory Runs
  imports Main
begin

text \<open>
  Runs of a system whose steps are a relation on its states: the reachable states are those of the reflexive transitive
  closure, and a property that every step keeps holds along every run. The step relations of the fleet of migrators, of
  sessions, one-time tokens, factors and requests are instances.
\<close>

lemmas run_start = rtranclp.rtrancl_refl
lemmas run_step = rtranclp.rtrancl_into_rtrancl

locale kept =
  fixes step :: "'s \<Rightarrow> 's \<Rightarrow> bool" and inv :: "'s \<Rightarrow> bool"
  assumes keep: "step s s' \<Longrightarrow> inv s \<Longrightarrow> inv s'"
begin

lemma along: "step\<^sup>*\<^sup>* s s' \<Longrightarrow> inv s \<Longrightarrow> inv s'"
  by (induction rule: rtranclp_induct) (auto intro: keep)

text \<open>So the invariant may be assumed at the step that leads to a state.\<close>

lemma last_step: "step\<^sup>*\<^sup>* s s' \<Longrightarrow> inv s \<Longrightarrow> s' = s \<or> (\<exists>t. step\<^sup>*\<^sup>* s t \<and> inv t \<and> step t s')"
  by (metis along rtranclp.cases)

end

end
