(* ===== verification/Migrate_History.thy ===== *)
theory Migrate_History
  imports Migrate_Gate Runs
begin

text \<open>
  The history of migrations: \<open>Apply\<close> is atomic and idempotent, the dry run predicts it, and a fleet of
  instances that share a database and serialise on the migration lock keeps the catalogue in step with the
  last recorded configuration.
\<close>

section \<open>One migration\<close>

lemma lastMigration_ensure [simp]: "lastMigration (ensureMigrationsTable st) = lastMigration st"
  by (simp add: lastMigration_def ensureMigrationsTable_def split: option.splits)

lemma catalog_ensure [simp]: "st_catalog (ensureMigrationsTable st) = st_catalog st"
  by (simp add: ensureMigrationsTable_def split: option.splits)

lemma history_ensure: "st_history (ensureMigrationsTable st) \<noteq> None"
  by (simp add: ensureMigrationsTable_def split: option.splits)

lemma ensure_idem [simp]: "ensureMigrationsTable (ensureMigrationsTable st) = ensureMigrationsTable st"
  by (simp add: ensureMigrationsTable_def split: option.splits)

text \<open>What a committed transaction did.\<close>

lemma applyTx_commit:
  assumes "applyTx m cfg js st = Inr (Some st')"
  obtains stmts c where
    "planStatements (mg_roles m) (mg_allowDestructive m) (Some (pg_primaryKey (mg_db m) (st_catalog st)))
       (previousConfig (mg_codec m) (lastMigration st)) cfg = Inr stmts"
    and "execAll (pg_exec (mg_db m)) stmts (st_catalog st) = Inr c"
    and "st_catalog st' = c"
    and "st_history st' = map_option (\<lambda>h. h @ [\<lparr>mig_Checksum = configChecksum js, mig_ConfigJSON = js\<rparr>]) (st_history st)"
  using assms by (auto simp: applyTx_def Let_def split: option.splits if_splits sum.splits)

lemma lastMigration_commit:
  assumes "applyTx m cfg js st = Inr (Some st')" and "st_history st \<noteq> None"
  shows "lastMigration st' = Some \<lparr>mig_Checksum = configChecksum js, mig_ConfigJSON = js\<rparr> \<and> st_history st' \<noteq> None"
proof -
  from assms(2) obtain h where h: "st_history st = Some h" by blast
  from applyTx_commit [OF assms(1)]
  have "st_history st' = Some (h @ [\<lparr>mig_Checksum = configChecksum js, mig_ConfigJSON = js\<rparr>])"
    using h by (metis option.map(2))
  then show ?thesis by (cases h) (simp_all add: lastMigration_def)
qed

lemma applyTx_unchanged:
  "fails m ''last'' = None \<Longrightarrow> lastMigration st = Some row \<Longrightarrow> mig_Checksum row = configChecksum js \<Longrightarrow>
     applyTx m cfg js st = Inr None"
  by (simp add: applyTx_def Let_def)


lemma apply_success:
  assumes "Apply m cfg st = (None, st')"
  obtains js where "fails m ''ensure'' = None" "fails m ''begin'' = None" "fails m ''last'' = None"
    "js_marshal (mg_codec m) cfg = Inr js"
    "applyTx m cfg js (ensureMigrationsTable st) = Inr (Some st') \<or>
     applyTx m cfg js (ensureMigrationsTable st) = Inr None \<and> st' = ensureMigrationsTable st"
proof -
  from assms obtain js where j: "fails m ''ensure'' = None" "fails m ''begin'' = None"
    "js_marshal (mg_codec m) cfg = Inr js"
    and a: "applyTx m cfg js (ensureMigrationsTable st) = Inr (Some st') \<or>
     applyTx m cfg js (ensureMigrationsTable st) = Inr None \<and> st' = ensureMigrationsTable st"
    by (auto simp: Apply_def Let_def marshalConfig_def split: option.splits sum.splits prod.splits)
  from a have "fails m ''last'' = None" by (auto simp: applyTx_def split: option.splits)
  with j a that show thesis by blast
qed

text \<open>Applying a configuration a second time is a no-op that succeeds: no statement runs and no history
  row is added.\<close>

lemma apply_idempotent:
  assumes "Apply m cfg st = (None, st')"
  shows "Apply m cfg st' = (None, st')"
proof -
  from assms obtain js where j: "fails m ''ensure'' = None" "fails m ''begin'' = None" "fails m ''last'' = None"
    "js_marshal (mg_codec m) cfg = Inr js"
    and a: "applyTx m cfg js (ensureMigrationsTable st) = Inr (Some st') \<or>
      applyTx m cfg js (ensureMigrationsTable st) = Inr None \<and> st' = ensureMigrationsTable st"
    by (rule apply_success)
  have "applyTx m cfg js st' = Inr None \<and> ensureMigrationsTable st' = st'"
    using a
  proof
    assume c: "applyTx m cfg js (ensureMigrationsTable st) = Inr (Some st')"
    from lastMigration_commit [OF c history_ensure] show ?thesis
      using applyTx_unchanged [OF j(3), of st'] by (auto simp: ensureMigrationsTable_def)
  qed auto
  with j show ?thesis by (simp add: Apply_def marshalConfig_def Let_def)
qed

section \<open>Dry run\<close>

lemma runNumbered_ok: "runNumbered n ex ss c = Inr c' \<Longrightarrow> execAll ex ss c = Inr c'"
  by (induction n ex ss c rule: runNumbered.induct) (auto split: sum.splits)

text \<open>C30: A dry run that passes predicts the migration: on a database with a history table, applying the same
  configuration with the destructive opt-in succeeds, provided recording the row and committing do.\<close>

theorem dry_run_predicts_apply:
  assumes "DryRun m checked cfg st = None" and "st_history st \<noteq> None"
    and "fails m ''ensure'' = None" and "fails m ''record'' = None" and "fails m ''commit'' = None"
  shows "fst (Apply (m\<lparr>mg_allowDestructive := True\<rparr>) cfg st) = None"
proof -
  let ?m = "m\<lparr>mg_allowDestructive := True\<rparr>"
  have f: "fails ?m = fails m" by (rule ext) (simp add: fails_def)
  have e: "ensureMigrationsTable st = st" using assms(2) by (auto simp: ensureMigrationsTable_def)
  from assms(1) obtain js checksum where b: "fails m ''begin'' = None"
    and js: "marshalConfig (mg_codec m) cfg = Inr (js, checksum)"
    by (auto simp: DryRun_def split: option.splits sum.splits)
  from assms(1) b js obtain c0 where c0: "dryRunStart m st = Inr c0"
    by (auto simp: DryRun_def split: sum.splits)
  then have l: "fails m ''last'' = None" "c0 = st_catalog st"
    using assms(2) by (auto simp: dryRunStart_def split: option.splits if_splits)
  from assms(1) b js c0 obtain stmts c1 where p: "dryRunPlan m cfg checksum (lastMigration st) c0 = Inr stmts"
    and r: "runNumbered 1 (pg_exec (mg_db m)) stmts c0 = Inr c1"
    by (auto simp: DryRun_def split: sum.splits)
  have cs: "checksum = configChecksum js" using js by (auto simp: marshalConfig_def split: sum.splits)
  have "\<exists>x. applyTx ?m cfg js st = Inr x"
  proof (cases "case lastMigration st of None \<Rightarrow> False | Some row \<Rightarrow> mig_Checksum row = configChecksum js")
    case True
    with l f show ?thesis by (simp add: applyTx_def Let_def)
  next
    case False
    then have "planStatements (mg_roles m) True (Some (pg_primaryKey (mg_db m) c0))
        (previousConfig (mg_codec m) (lastMigration st)) cfg = Inr stmts"
      using p cs by (auto simp: dryRunPlan_def split: option.splits)
    with False l f assms(4) runNumbered_ok [OF r] show ?thesis by (simp add: applyTx_def Let_def)
  qed
  then obtain x where "applyTx ?m cfg js st = Inr x" by blast
  with assms(3,5) b js e f show ?thesis by (cases x) (simp_all add: Apply_def Let_def)
qed

section \<open>A fleet of instances\<close>

text \<open>
  Instances that boot at the same time each apply their configuration to one database. The transaction of \<open>Apply\<close>
  and the creation of the history table both hold the migration lock; a crash or an error rolls back and
  releases it.
\<close>

datatype phase = Idle | Waiting Config | Holding Config | Finished

record 'c fleet =
  fl_db :: "'c dbstate"
  fl_lock :: "nat option"
  fl_phase :: "nat \<Rightarrow> phase"

inductive fleetStep :: "(nat \<Rightarrow> 'c Migrator) \<Rightarrow> (Config \<Rightarrow> bool) \<Rightarrow> 'c fleet \<Rightarrow> 'c fleet \<Rightarrow> bool"
  for ms ok where
  enter: "fl_phase s i = Idle \<Longrightarrow> fl_lock s = None \<Longrightarrow> ok cfg \<Longrightarrow>
    fleetStep ms ok s (s\<lparr>fl_db := ensureMigrationsTable (fl_db s), fl_phase := (fl_phase s)(i := Waiting cfg)\<rparr>)"
| acquire: "fl_phase s i = Waiting cfg \<Longrightarrow> fl_lock s = None \<Longrightarrow>
    fleetStep ms ok s (s\<lparr>fl_lock := Some i, fl_phase := (fl_phase s)(i := Holding cfg)\<rparr>)"
| commit: "fl_phase s i = Holding cfg \<Longrightarrow> fl_lock s = Some i \<Longrightarrow> js_marshal (mg_codec (ms i)) cfg = Inr js \<Longrightarrow>
    applyTx (ms i) cfg js (fl_db s) = Inr (Some db) \<Longrightarrow>
    fleetStep ms ok s (s\<lparr>fl_db := db, fl_lock := None, fl_phase := (fl_phase s)(i := Finished)\<rparr>)"
| leave: "fl_phase s i = Holding cfg \<Longrightarrow> fl_lock s = Some i \<Longrightarrow>
    fleetStep ms ok s (s\<lparr>fl_lock := None, fl_phase := (fl_phase s)(i := Finished)\<rparr>)"

inductive_cases fleetStepE: "fleetStep ms ok s s'"

text \<open>The database is in step: its tables are those of the configuration in the last history row.\<close>

definition inStep :: "Codec \<Rightarrow> (Config \<Rightarrow> bool) \<Rightarrow> schemaInfo dbstate \<Rightarrow> bool" where
  "inStep codec ok db =
     (case lastMigration db of
        None \<Rightarrow> st_catalog db = Map.empty
      | Some row \<Rightarrow> (case previousConfig codec (Some row) of None \<Rightarrow> False
          | Some cfg \<Rightarrow> ok cfg \<and> st_catalog db = schemaOf cfg))"

definition fleetInv :: "Codec \<Rightarrow> (Config \<Rightarrow> bool) \<Rightarrow> schemaInfo fleet \<Rightarrow> bool" where
  "fleetInv codec ok s =
     (inStep codec ok (fl_db s) \<and>
      (\<forall>i cfg. fl_phase s i = Holding cfg \<longrightarrow> fl_lock s = Some i) \<and>
      (\<forall>i. fl_lock s = Some i \<longrightarrow> (\<exists>cfg. fl_phase s i = Holding cfg)) \<and>
      (\<forall>i cfg. fl_phase s i = Waiting cfg \<or> fl_phase s i = Holding cfg \<longrightarrow> ok cfg \<and> st_history (fl_db s) \<noteq> None))"

lemma inStep_ensure [simp]: "inStep codec ok (ensureMigrationsTable db) = inStep codec ok db"
  by (simp only: inStep_def lastMigration_ensure catalog_ensure)

text \<open>What the fleet relies on: all instances talk to the same kind of database, a stored configuration reads
  back as it was written, and each configuration that is accepted may follow each other one.\<close>

definition compatible :: "Config \<Rightarrow> Config \<Rightarrow> bool" where
  "compatible old new = (sameSchemas (fst (applyRenames old new)) new \<and> typesStable old new)"

definition fleetEnv :: "(nat \<Rightarrow> schemaInfo Migrator) \<Rightarrow> Codec \<Rightarrow> (Config \<Rightarrow> bool) \<Rightarrow> bool" where
  "fleetEnv ms codec ok =
     ((\<forall>i. pg_exec (mg_db (ms i)) = execT \<and> mg_codec (ms i) = codec) \<and>
      (\<forall>cfg js. ok cfg \<longrightarrow> js_marshal codec cfg = Inr js \<longrightarrow>
         js_unmarshal codec js = Some cfg \<and> js \<noteq> [] \<and> js \<noteq> ''{}'') \<and>
      (\<forall>cfg. ok cfg \<longrightarrow> wfTables (cfg_Tables cfg)) \<and>
      (\<forall>a b. ok a \<longrightarrow> ok b \<longrightarrow> compatible a b))"

lemma commit_inStep:
  assumes env: "fleetEnv ms codec ok" and ok: "ok cfg" and js: "js_marshal codec cfg = Inr js" and hist: "st_history db \<noteq> None"
    and inv: "inStep codec ok db" and c: "applyTx (ms i) cfg js db = Inr (Some db')"
  shows "inStep codec ok db'"
proof -
  have db: "pg_exec (mg_db (ms i)) = execT" and codec: "mg_codec (ms i) = codec"
    using env by (simp_all add: fleetEnv_def)
  from c obtain stmts k where p: "planStatements (mg_roles (ms i)) (mg_allowDestructive (ms i))
       (Some (pg_primaryKey (mg_db (ms i)) (st_catalog db)))
       (previousConfig (mg_codec (ms i)) (lastMigration db)) cfg = Inr stmts"
    and e: "execAll execT stmts (st_catalog db) = Inr k" and k: "st_catalog db' = k"
    by (rule applyTx_commit) (simp add: db)
  have "k = schemaOf cfg"
  proof (cases "lastMigration db")
    case None
    then have "stmts = planFromScratchStatements cfg (mg_roles (ms i))"
      using p by (simp add: previousConfig_def planStatements_def)
    moreover have "st_catalog db = Map.empty" using inv None by (simp add: inStep_def)
    ultimately show ?thesis using e scratch_exec [of cfg] env ok by (simp add: fleetEnv_def)
  next
    case (Some row)
    with inv obtain old where old: "previousConfig codec (Some row) = Some old" "ok old" "st_catalog db = schemaOf old"
      by (auto simp: inStep_def split: option.splits)
    then have "stmts = planUpdateStatements old cfg (mg_roles (ms i))"
      using p Some by (auto simp: codec planStatements_def Let_def split: sum.splits if_splits)
    moreover have "execAll execT (planUpdateStatements old cfg (mg_roles (ms i))) (schemaOf old) = Inr (schemaOf cfg)"
      using env old(2) ok by (intro update_exec) (simp_all add: fleetEnv_def compatible_def)
    ultimately show ?thesis using e old(3) by simp
  qed
  moreover have "previousConfig codec (Some \<lparr>mig_Checksum = x, mig_ConfigJSON = js\<rparr>) = Some cfg" for x
    using env ok js by (simp add: previousConfig_def fleetEnv_def)
  ultimately show ?thesis
    using lastMigration_commit [OF c hist] k ok by (simp add: inStep_def)
qed

lemma step_inv:
  assumes env: "fleetEnv ms codec ok"
  shows "fleetStep ms ok s s' \<Longrightarrow> fleetInv codec ok s \<Longrightarrow> fleetInv codec ok s'"
proof (induction rule: fleetStep.induct)
  case (enter s i cfg)
  then show ?case by (auto simp: fleetInv_def history_ensure split: if_splits)
next
  case (acquire s i cfg)
  then show ?case by (auto simp: fleetInv_def split: if_splits)
next
  case (commit s i cfg js db)
  then have o: "ok cfg" "st_history (fl_db s) \<noteq> None" "inStep codec ok (fl_db s)" by (auto simp: fleetInv_def)
  have "js_marshal codec cfg = Inr js" using commit(3) env by (simp add: fleetEnv_def)
  with commit o commit_inStep [OF env o(1) _ o(2,3) commit(4)] lastMigration_commit [OF commit(4) o(2)]
  show ?case by (auto simp: fleetInv_def split: if_splits)
next
  case (leave s i cfg)
  then show ?case by (auto simp: fleetInv_def split: if_splits)
qed

lemma reachable_inv:
  assumes "fleetEnv ms codec ok"
  shows "(fleetStep ms ok)\<^sup>*\<^sup>* s s' \<Longrightarrow> fleetInv codec ok s \<Longrightarrow> fleetInv codec ok s'"
  by (rule kept.along [OF kept.intro]) (rule step_inv [OF assms])

definition freshFleet :: "schemaInfo fleet" where
  "freshFleet = \<lparr>fl_db = \<lparr>st_catalog = Map.empty, st_history = None\<rparr>, fl_lock = None, fl_phase = (\<lambda>_. Idle)\<rparr>"

lemma fresh_inv: "fleetInv codec ok freshFleet"
  by (simp add: fleetInv_def freshFleet_def inStep_def lastMigration_def)



end
