(* ===== verification/Migrate_Examples.thy ===== *)
theory Migrate_Examples
  imports Migrate_History Migrate_RLS
begin

text \<open>
  Two versions of a small configuration (notes and their authors; the second renames a column, adds one and tightens a
  policy) and a database on which the general theorems about migrations are applied.
\<close>

section \<open>Configurations\<close>

definition zeroConfig :: Config where
  "zeroConfig = \<lparr>cfg_Version = 1,
     cfg_Project = \<lparr>prj_Name = ''demo'', prj_Description = [], prj_Cloud = None\<rparr>,
     cfg_Database = \<lparr>db_Pool = \<lparr>pool_Max = 10, pool_Min = 1, pool_IdleTimeout = []\<rparr>\<rparr>,
     cfg_Server = \<lparr>srv_Port = 8080, srv_CORS = \<lparr>cors_Origins = []\<rparr>,
       srv_Timeouts = \<lparr>to_Request = [], to_DBQuery = [], to_Upload = [], to_Shutdown = []\<rparr>,
       srv_MaxBodySize = [], srv_MaxLimit = 100\<rparr>,
     cfg_Providers = \<lparr>prov_Email = None, prov_Storage = None\<rparr>, cfg_Auth = None, cfg_Tables = [],
     cfg_Storage = [], cfg_RPC = [], cfg_Functions = [], cfg_FunctionsBundle = [], cfg_Include = [],
     cfg_UnknownKeys = [], cfg_ExpandErrors = []\<rparr>"

definition idField :: Field where
  "idField = zeroField\<lparr>fld_Name := ''id'', fld_Type := ''bigserial'', fld_PrimaryKey := True\<rparr>"

definition textField :: "string \<Rightarrow> string \<Rightarrow> Field" where
  "textField name from = zeroField\<lparr>fld_Name := name, fld_Type := ''text'', fld_RenamedFrom := from\<rparr>"

definition authorField :: Field where
  "authorField = zeroField\<lparr>fld_Name := ''author'', fld_Type := ''bigint'', fld_Required := True,
     fld_ForeignKey := Some \<lparr>fk_References = ''authors.id'', fk_OnDelete = ''cascade''\<rparr>\<rparr>"

definition readPolicy :: "string \<Rightarrow> RLSPolicy" where
  "readPolicy expr = \<lparr>rls_Operations = [''select''], rls_Using = expr, rls_WithCheck = [], rls_Type = [], rls_Owner = []\<rparr>"

definition authorsTable :: Table where
  "authorsTable = zeroTable\<lparr>tbl_Fields := [idField, textField ''name'' []]\<rparr>"

definition notesTable1 :: Table where
  "notesTable1 = zeroTable\<lparr>tbl_Fields := [idField, textField ''body'' [], authorField], tbl_RLS := [readPolicy ''true'']\<rparr>"

definition notesTable2 :: Table where
  "notesTable2 = zeroTable\<lparr>tbl_Fields := [textField ''title'' [], idField, textField ''content'' ''body'', authorField],
     tbl_RLS := [readPolicy ''public'']\<rparr>"

definition notes1 :: Config where
  "notes1 = zeroConfig\<lparr>cfg_Tables := [(''notes'', notesTable1), (''authors'', authorsTable)]\<rparr>"

definition notes2 :: Config where
  "notes2 = zeroConfig\<lparr>cfg_Tables := [(''authors'', authorsTable), (''notes'', notesTable2)]\<rparr>"

definition authorsOnly :: Config where
  "authorsOnly = zeroConfig\<lparr>cfg_Tables := [(''authors'', authorsTable)]\<rparr>"

lemma notes_wf: "wfTables (cfg_Tables notes1)" "wfTables (cfg_Tables notes2)"
  by code_simp+

lemma notes_compatible: "sameSchemas (fst (applyRenames a b)) b \<and> typesStable a b"
  if "a \<in> {notes1, notes2}" and "b \<in> {notes1, notes2}" for a b
proof -
  have "sameSchemas (fst (applyRenames notes1 notes1)) notes1" "typesStable notes1 notes1"
    "sameSchemas (fst (applyRenames notes1 notes2)) notes2" "typesStable notes1 notes2"
    "sameSchemas (fst (applyRenames notes2 notes1)) notes1" "typesStable notes2 notes1"
    "sameSchemas (fst (applyRenames notes2 notes2)) notes2" "typesStable notes2 notes2"
    by code_simp+
  with that show ?thesis by auto
qed

section \<open>Plans\<close>



lemma notes_destroys: "df_Destroys (diffConfigs notes1 notes2) = []" "df_PKChanges (diffConfigs notes1 notes2) = []"
  by code_simp+

theorem gated_plan_keeps_data_witness:
  "\<exists>stmts. planStatements DefaultRoles False None (Some notes1) notes2 = Inr stmts \<and>
     (\<forall>s \<in> set stmts. \<not> destroysData s)"
proof -
  have "planStatements DefaultRoles False None (Some notes1) notes2 = Inr (planUpdateStatements notes1 notes2 DefaultRoles)"
    by (simp add: planStatements_def notes_destroys)
  with gated_plan_keeps_data [OF this] show ?thesis by blast
qed

theorem destructive_gate_exact_witness:
  "planStatements DefaultRoles False None (Some notes1) authorsOnly = Inl (ErrDestructive [''notes''])"
proof -
  have "df_PKChanges (diffConfigs notes1 authorsOnly) = []" by code_simp
  note g = destructive_gate_exact [OF notes_wf(1) this, of DefaultRoles None]
  have "\<not> nothingLost (fst (applyRenames notes1 authorsOnly)) authorsOnly" by code_simp
  moreover have "df_Destroys (diffConfigs notes1 authorsOnly) = [''notes'']" by code_simp
  ultimately show ?thesis using g by simp
qed

definition notesKeyed :: Config where
  "notesKeyed = zeroConfig\<lparr>cfg_Tables := [(''authors'', authorsTable),
     (''notes'', notesTable1\<lparr>tbl_Fields := [idField, textField ''body'' [], authorField\<lparr>fld_PrimaryKey := True\<rparr>]\<rparr>)]\<rparr>"

theorem primary_key_gate_witness:
  "\<exists>stmts c. planStatements DefaultRoles False (Some (\<lambda>_. Inr ''author,id'')) (Some notes1) notesKeyed = Inr stmts \<and>
     c \<in> set (df_PKChanges (diffConfigs notes1 notesKeyed)) \<and> mset [''author'', ''id''] = mset (pk_New c)"
proof -
  let ?c = "\<lparr>pk_Table = ''notes'', pk_Qual = (''public'', ''notes''), pk_Old = [''id''], pk_New = [''id'', ''author'']\<rparr>"
  let ?q = "\<lambda>_ :: relname. Inr ''author,id'' :: string + string"
  have c: "df_PKChanges (diffConfigs notes1 notesKeyed) = [?c]" by code_simp
  have d: "df_Destroys (diffConfigs notes1 notesKeyed) = []" by code_simp
  have "rejectPK (Some ?q) ?c = Inr []" by code_simp
  then have p: "planStatements DefaultRoles False (Some ?q) (Some notes1) notesKeyed =
      Inr (planUpdateStatements notes1 notesKeyed DefaultRoles)"
    by (simp add: planStatements_def c d)
  from primary_key_gate [OF p, of ?c] c
  have "mset (strSplit ''author,id'' (CHR '','')) = mset (pk_New ?c)" by simp
  moreover have "strSplit ''author,id'' (CHR '','') = [''author'', ''id'']" by code_simp
  ultimately show ?thesis using p c by auto
qed

theorem unchanged_config_no_diff_witness:
  "df_Removals (diffConfigs notes2 notes2) = [] \<and> fld_RenamedFrom (textField ''content'' ''body'') = ''body''"
proof -
  have "wfMap (cfg_Storage notes2)" "wfMap (cfg_RPC notes2)" by code_simp+
  from unchanged_config_no_diff [OF notes_wf(2) this] show ?thesis by (simp add: textField_def)
qed

section \<open>Row-level security\<close>

definition exactSecurity :: "string \<Rightarrow> Table \<Rightarrow> rlsInfo" where
  "exactSecurity n t = \<lparr>ri_Enabled = True, ri_Forced = True, ri_Policies = policiesOf n t\<rparr>"

lemma exactSecurity_secured: "EffectiveRLSEnabled t \<Longrightarrow> secured n t (exactSecurity n t)"
  by (simp add: secured_def exactSecurity_def policiesOf_def dom_map_of_conv_image_fst fst_set_policyEntries)

lemma notes_lookup:
  "map_of (cfg_Tables notes1) ''notes'' = Some notesTable1" "map_of (cfg_Tables notes2) ''notes'' = Some notesTable2"
  "tableRel ''notes'' notesTable2 = (''public'', ''notes'')" "tableRel ''notes'' notesTable1 = (''public'', ''notes'')"
  by (simp_all add: notes1_def notes2_def tableRel_def EffectiveSchema_def notesTable1_def notesTable2_def zeroTable_def)


theorem scratch_secures_witness:
  "\<exists>x. execAll (execP (\<lambda>_. [])) (planFromScratchStatements notes1 DefaultRoles) ((''public'', ''notes''), None) =
     Inr ((''public'', ''notes''), Some x) \<and> ri_Forced x"
proof -
  have "EffectiveRLSEnabled notesTable1" by code_simp
  with scratch_secures [OF notes_lookup(1), of "\<lambda>_. []" DefaultRoles] show ?thesis
    by (auto simp: notes_lookup secured_def)
qed

section \<open>A database\<close>

definition notesCodec :: Codec where
  "notesCodec = \<lparr>js_marshal = (\<lambda>cfg. Inr (if cfg = notes1 then ''1'' else ''2'')),
     js_unmarshal = (\<lambda>s. if s = ''1'' then Some notes1 else if s = ''2'' then Some notes2 else None)\<rparr>"

definition notesMigrator :: "(string \<Rightarrow> string option) \<Rightarrow> schemaInfo Migrator" where
  "notesMigrator fault = \<lparr>mg_db = \<lparr>pg_exec = execT, pg_primaryKey = (\<lambda>_ _. Inr ''id''),
       pg_existingRPCs = (\<lambda>_ _. Inr []), pg_fault = fault\<rparr>,
     mg_codec = notesCodec, mg_roles = DefaultRoles, mg_allowDestructive = False\<rparr>"

definition emptyDB :: "schemaInfo dbstate" where
  "emptyDB = \<lparr>st_catalog = Map.empty, st_history = Some []\<rparr>"

abbreviation noFault :: "string \<Rightarrow> string option" where
  "noFault \<equiv> \<lambda>_. None"

lemma notes_differ: "notes1 \<noteq> notes2"
proof
  assume "notes1 = notes2"
  then have "map_of (cfg_Tables notes1) ''notes'' = map_of (cfg_Tables notes2) ''notes''" by simp
  then have "notesTable1 = notesTable2" by (simp only: notes_lookup option.inject)
  then have "length (tbl_Fields notesTable1) = length (tbl_Fields notesTable2)" by simp
  then show False by (simp add: notesTable1_def notesTable2_def)
qed

lemma scratch_nonempty: "planFromScratchStatements cfg roles \<noteq> []"
  by (simp add: planFromScratchStatements_def generateSchemaGrants_def)

lemma notesMigrator_simps [simp]:
  "mg_db (notesMigrator fault) = \<lparr>pg_exec = execT, pg_primaryKey = (\<lambda>_ _. Inr ''id''),
     pg_existingRPCs = (\<lambda>_ _. Inr []), pg_fault = fault\<rparr>"
  "mg_codec (notesMigrator fault) = notesCodec" "mg_roles (notesMigrator fault) = DefaultRoles"
  "mg_allowDestructive (notesMigrator fault) = False" "js_marshal notesCodec notes1 = Inr ''1''"
  by (simp_all add: notesMigrator_def notesCodec_def)

lemma notesMigrator_fails [simp]: "fails (notesMigrator fault) s = map_option (ErrDB s) (fault s)"
  by (simp add: fails_def)

lemma notes_tx:
  "applyTx (notesMigrator noFault) notes1 ''1'' emptyDB = Inr (Some \<lparr>st_catalog = schemaOf notes1,
     st_history = Some [\<lparr>mig_Checksum = configChecksum ''1'', mig_ConfigJSON = ''1''\<rparr>]\<rparr>)"
  by (simp add: applyTx_def emptyDB_def lastMigration_def previousConfig_def
    planStatements_def scratch_nonempty scratch_exec [OF notes_wf(1)])

lemma notes_apply:
  "Apply (notesMigrator noFault) notes1 emptyDB = (None, \<lparr>st_catalog = schemaOf notes1,
     st_history = Some [\<lparr>mig_Checksum = configChecksum ''1'', mig_ConfigJSON = ''1''\<rparr>]\<rparr>)"
proof -
  have "js_marshal (mg_codec (notesMigrator noFault)) notes1 = Inr ''1''" by simp
  moreover have "ensureMigrationsTable emptyDB = emptyDB" by (simp add: ensureMigrationsTable_def emptyDB_def)
  moreover have "fails (notesMigrator noFault) s = None" for s by simp
  ultimately show ?thesis by (simp add: Apply_def marshalConfig_def notes_tx)
qed

theorem apply_idempotent_witness:
  "\<exists>st'. Apply (notesMigrator noFault) notes1 emptyDB = (None, st') \<and> Apply (notesMigrator noFault) notes1 st' = (None, st') \<and>
     st' \<noteq> emptyDB"
  using notes_apply apply_idempotent [OF notes_apply] by (simp add: emptyDB_def)


lemma execAll_numbered: "execAll ex ss c = Inr c' \<Longrightarrow> runNumbered n ex ss c = Inr c'"
  by (induction n ex ss c rule: runNumbered.induct) (auto split: sum.splits)

theorem dry_run_predicts_apply_witness:
  "DryRun (notesMigrator noFault) execT notes1 emptyDB = None \<and>
   fst (Apply ((notesMigrator noFault)\<lparr>mg_allowDestructive := True\<rparr>) notes1 emptyDB) = None"
proof -
  let ?m = "notesMigrator noFault"
  have f: "fails ?m s = None" for s by simp
  have "rpcStatements notes1 = []" by code_simp
  then have d: "DryRun ?m execT notes1 emptyDB = None"
    using execAll_numbered [OF scratch_exec [OF notes_wf(1), of DefaultRoles], of 1]
    by (simp add: DryRun_def f marshalConfig_def dryRunStart_def emptyDB_def
      dryRunPlan_def lastMigration_def previousConfig_def planStatements_def)
  then show ?thesis using dry_run_predicts_apply [OF d _ f f f] by (simp add: emptyDB_def)
qed

section \<open>A fleet\<close>

definition notesOk :: "Config \<Rightarrow> bool" where
  "notesOk cfg = (cfg = notes1 \<or> cfg = notes2)"

lemma notes_env: "fleetEnv (\<lambda>_. notesMigrator noFault) notesCodec notesOk"
  unfolding fleetEnv_def
proof (intro conjI allI impI)
  fix cfg js assume "notesOk cfg" "js_marshal notesCodec cfg = Inr js"
  then show "js_unmarshal notesCodec js = Some cfg" "js \<noteq> []" "js \<noteq> ''{}''"
    using notes_differ by (auto simp: notesOk_def notesCodec_def)
next
  fix a b assume "notesOk a" "notesOk b"
  then show "compatible a b" using notes_compatible by (auto simp: notesOk_def compatible_def)
qed (use notes_wf in \<open>auto simp: notesMigrator_def notesOk_def\<close>)

definition waitingFleet :: "schemaInfo fleet" where
  "waitingFleet = freshFleet\<lparr>fl_db := ensureMigrationsTable (fl_db freshFleet), fl_phase := (fl_phase freshFleet)(7 := Waiting notes1)\<rparr>"

lemma waiting_reachable: "(fleetStep (\<lambda>_. notesMigrator noFault) notesOk)\<^sup>*\<^sup>* freshFleet waitingFleet"
  unfolding waitingFleet_def
  by (rule r_into_rtranclp, rule fleetStep.enter) (simp_all add: freshFleet_def notesOk_def)



end
