(* ===== verification/Config_Examples.thy ===== *)
theory Config_Examples
  imports Config_Refs Migrate_Examples
begin

text \<open>
  Concrete configs for the guarantees of the validator, and the inputs on which it is too permissive.
\<close>

abbreviation noJWT :: jwtReader where
  "noJWT \<equiv> \<lambda>_. None"

section \<open>Accepting without computing the messages\<close>

definition plainName :: "string \<Rightarrow> bool" where
  "plainName s = (case s of [] \<Rightarrow> False | c # cs \<Rightarrow>
     isLower c \<and> list_all nameChar cs \<and> length cs \<le> 62 \<and> s \<notin> set reservedSQLKeywords)"

lemma identRE_Cons: "rxMatch identRE (c # cs) \<longleftrightarrow> isLower c \<and> list_all nameChar cs \<and> length cs \<le> 62"
proof -
  have "(\<exists>u v. c # cs = u @ v \<and> (\<exists>d. u = [d] \<and> isLower d) \<and> Q v) \<longleftrightarrow> isLower c \<and> Q cs" for Q :: "string \<Rightarrow> bool"
    by (metis append_Cons append_Nil list.inject)
  moreover have "(\<lambda>c. isLower c \<or> isDigit c \<or> c = CHR ''_'') = nameChar" by (simp add: nameChar_def fun_eq_iff)
  ultimately show ?thesis unfolding identRE_def rxMatch_Sq rxMatch_Chr by (simp only: rxMatch_upToChr)
qed

lemma plainName_valid: "plainName s \<Longrightarrow> validateIdent p s = None"
  by (cases s) (simp_all add: plainName_def validateIdent_def identRE_Cons del: rxMatch.simps)

lemma names: "plainName ''notes''" "plainName ''authors''" "plainName ''id''" "plainName ''body''" "plainName ''author''"
  "plainName ''name''" "plainName ''title''" "plainName ''content''"
  by code_simp+

lemma noteTypes: "validateFieldType p ''bigserial'' = []" "validateFieldType p ''text'' = []" "validateFieldType p ''bigint'' = []"
proof -
  have "toLower (trimSpace ''bigserial'') = ''bigserial''" "toLower (trimSpace ''text'') = ''text''"
    "toLower (trimSpace ''bigint'') = ''bigint''" by code_simp+
  moreover have "trimSuffix ''bigserial'' ''[]'' = ''bigserial''" "trimSuffix ''text'' ''[]'' = ''text''" 
    "trimSuffix ''bigint'' ''[]'' = ''bigint''" by code_simp+
  moreover have "''bigserial'' \<in> set validPostgresTypes" "''text'' \<in> set validPostgresTypes" "''bigint'' \<in> set validPostgresTypes"
    by code_simp+
  moreover have "strIndex ''bigserial'' ''('' = None" "strIndex ''text'' ''('' = None" "strIndex ''bigint'' ''('' = None"
    by code_simp+
  ultimately show "validateFieldType p ''bigserial'' = []" "validateFieldType p ''text'' = []" "validateFieldType p ''bigint'' = []"
    by (simp_all add: validateFieldType_def Let_def del: append.simps append_Cons)
qed

lemma noteFields:
  "validateField T p idField = []"
  "plainName n \<Longrightarrow> from = [] \<or> plainName from \<Longrightarrow> validateField T p (textField n from) = []"
  by (auto simp: validateField_def Let_def idField_def textField_def zeroField_def names plainName_valid noteTypes
    simp del: append.simps append_Cons)

lemma noteAuthor: "validateField T p authorField = []"
proof -
  have "ParseFKReference ''authors.id'' = Inr (''public'', ''authors'', ''id'')" by code_simp
  then show ?thesis
    by (auto simp: validateField_def Let_def authorField_def zeroField_def names plainName_valid noteTypes checkForeignKey_def
      simp del: append.simps append_Cons)
qed

lemma notePolicies: "validateRLS p [readPolicy ''true''] = []" "validateRLS p [readPolicy ''public''] = []"
proof -
  have "checkSQLExpr ''true'' = []" "checkSQLExpr ''public'' = []" "\<not> rxMatch rlsCheckDDLRE ''true''"
    "\<not> rxMatch rlsCheckDDLRE ''public''" by code_simp+
  then show "validateRLS p [readPolicy ''true''] = []" "validateRLS p [readPolicy ''public''] = []"
    by (simp_all add: validateRLS_def validatePolicy_def readPolicy_def Let_def validateRLSExpr_def validRLSOps_def validRLSTypes_def
      del: append.simps append_Cons)
qed

lemma noteTables:
  "validateTable None T (''notes'', notesTable1) = []" "validateTable None T (''notes'', notesTable2) = []"
  "validateTable None T (''authors'', authorsTable) = []"
proof -
  have n: "fld_Name idField = ''id''" "fld_Name authorField = ''author''" "fld_Name (textField n r) = n" "fld_PrimaryKey idField" for n r
    by (simp_all add: idField_def authorField_def textField_def)
  show "validateTable None T (''notes'', notesTable1) = []" "validateTable None T (''notes'', notesTable2) = []"
    "validateTable None T (''authors'', authorsTable) = []"
    by (simp_all add: validateTable_def Let_def notesTable1_def notesTable2_def authorsTable_def zeroTable_def names plainName_valid
      validateSchemaName_def noteFields noteAuthor notePolicies duplicateField_def n del: append.simps append_Cons)
      (simp_all add: validateRLS_def)
qed

lemma noteKeys: "checkForeignKeys (cfg_Tables notes1) None = ([], [])" "checkForeignKeys (cfg_Tables notes2) None = ([], [])"
  by code_simp+

lemma notes_accepted: "Validate noJWT notes1 = []" "Validate noJWT notes2 = []"
  by (simp_all add: Validate_def validate_def notes1_def notes2_def zeroConfig_def validateProviders_def validateAuth_def
    validateTables_def noteTables validateStorage_def validateRPC_def validateCodeFunctions_def validateProviderRequirements_def
    noteKeys [unfolded notes1_def notes2_def zeroConfig_def, simplified] del: append.simps append_Cons)

section \<open>The guarantees on them\<close>


theorem accepted_policies_confined_witness:
  "single (stmtText (CreatePolicy ''notes_select_0'' (''public'', ''notes'') '' AS PERMISSIVE'' ''SELECT'' '' USING (public)''))"
proof -
  have m: "CreatePolicy ''notes_select_0'' (''public'', ''notes'') '' AS PERMISSIVE'' ''SELECT'' '' USING (public)''
      \<in> set (generateRLSPolicies ''notes'' notesTable2)" by code_simp
  have w: "wfMap (cfg_Storage notes2)" by code_simp
  have "(''notes'', notesTable2) \<in> set (cfg_Tables notes2)" by (simp add: notes2_def)
  with m accepted_policies_confined [OF notes_accepted(2) w] show ?thesis by blast
qed

definition countFunction :: "string \<Rightarrow> Function" where
  "countFunction body = \<lparr>fn_Description = [], fn_AuthRequired = False, fn_Language = ''sql'', fn_Volatility = ''stable'',
     fn_Security = ''invoker'', fn_Set = [], fn_Args = [], fn_Body = body, fn_Returns = \<lparr>fr_Type = ''bigint''\<rparr>,
     fn_ReturnCategory = []\<rparr>"

lemma countFunction_valid:
  "validateRPCFunction ''rpc.f'' ''f'' (countFunction ''select 1'') = []"
  "validateRPCFunction ''rpc.f'' ''f'' (countFunction ''select 1 -- $ub'') = []"
  by code_simp+

text \<open>The second body passes the check, and its statement is closed by the wrong tag.\<close>

theorem rpc_body_quoted_witness:
  "strIndex (''select 1'' @ dollarTagUB @ '';'') dollarTagUB = Some 8 \<and>
   strIndex (''select 1 -- $ub'' @ dollarTagUB @ '';'') dollarTagUB = Some 12"
proof -
  have "\<not> hasSuffix ''select 1'' ''$ub''" "hasSuffix ''select 1 -- $ub'' ''$ub''" by code_simp+
  with rpc_body_quoted [OF countFunction_valid(1)] rpc_body_quoted [OF countFunction_valid(2)]
  show ?thesis by (simp add: countFunction_def del: append.simps append_Cons)
qed

theorem rpc_setting_exact_witness:
  "rpcSetInRange ''24d'' rpcTimeoutUnits 0 \<and> \<not> rpcSetInRange ''25d'' rpcTimeoutUnits 0"
proof -
  have "takeWhile isDigit ''24d'' = ''24''" "takeWhile isDigit ''25d'' = ''25''" "dropWhile isDigit ''24d'' = ''d''"
    "dropWhile isDigit ''25d'' = ''d''" "readNat ''24'' = 24" "readNat ''25'' = 25" "map_of rpcTimeoutUnits ''d'' = Some 86400000"
    by code_simp+
  with rpc_setting_exact [OF disjI1 [OF refl]] show ?thesis by simp
qed

theorem accepted_fks_checked_witness:
  "\<exists>t' g. map_of (cfg_Tables notes1) ''authors'' = Some t' \<and> map_of (FieldMap t') ''id'' = Some g \<and>
     FKCompatible (EffectiveType authorField (cfg_Tables notes1)) (EffectiveType g (cfg_Tables notes1))"
proof -
  have f: "authorField \<in> set (tbl_Fields notesTable1)" by (simp add: notesTable1_def)
  have k: "fld_ForeignKey authorField = Some \<lparr>fk_References = ''authors.id'', fk_OnDelete = ''cascade''\<rparr>"
    by (simp add: authorField_def)
  have r: "ParseFKReference ''authors.id'' = Inr (''public'', ''authors'', ''id'')" by code_simp
  have s: "systemColumns (emailAuthOf notes1) (''public'' @ ''.'' @ ''authors'') = None" by code_simp
  from accepted_fks_checked [OF notes_accepted(1) notes_lookup(1) f k] r s show ?thesis by auto
qed

section \<open>Inputs that pass and are then written as they are\<close>

text \<open>The parts of a foreign-key reference are not checked as identifiers: into a schema the config does not declare,
  a reference is a warning only, and the constraint carries its text.\<close>

lemma reference_unchecked:
  "checkForeignKey p \<lparr>fk_References = ''ext.t(i));t.c'', fk_OnDelete = []\<rparr> = []"
  "fst (checkOneFK T [''public''] False ''notes'' (authorField\<lparr>fld_ForeignKey := Some
     \<lparr>fk_References = ''ext.t(i));t.c'', fk_OnDelete = []\<rparr>\<rparr>)) = []"
  "map constrText (foreignKeyConstraint ''notes'' notesTable1 (authorField\<lparr>fld_ForeignKey := Some
     \<lparr>fk_References = ''ext.t(i));t.c'', fk_OnDelete = []\<rparr>\<rparr>)) =
     [''FOREIGN KEY (author) REFERENCES ext.t(i));t(c) ON DELETE RESTRICT'']"
proof -
  have r: "ParseFKReference ''ext.t(i));t.c'' = Inr (''ext'', ''t(i));t'', ''c'')" by code_simp
  then show "checkForeignKey p \<lparr>fk_References = ''ext.t(i));t.c'', fk_OnDelete = []\<rparr> = []"
    by (simp add: checkForeignKey_def del: append.simps append_Cons)
  have s: "systemColumns False (''ext'' @ ''.'' @ ''t(i));t'') = None" by code_simp
  have c: "closest ''ext'' [''public''] \<noteq> ''auth'' \<and> closest ''ext'' [''public''] \<noteq> ''storage''"
    using closest_nearest [of "''ext''" "[''public'']"] by auto
  show "fst (checkOneFK T [''public''] False ''notes'' (authorField\<lparr>fld_ForeignKey := Some
      \<lparr>fk_References = ''ext.t(i));t.c'', fk_OnDelete = []\<rparr>\<rparr>)) = []"
    by (simp add: checkOneFK_def resolveFK_def r s c Let_def del: append.simps append_Cons)
  show "map constrText (foreignKeyConstraint ''notes'' notesTable1 (authorField\<lparr>fld_ForeignKey := Some
      \<lparr>fk_References = ''ext.t(i));t.c'', fk_OnDelete = []\<rparr>\<rparr>)) =
      [''FOREIGN KEY (author) REFERENCES ext.t(i));t(c) ON DELETE RESTRICT'']" by code_simp
qed

text \<open>The default of an argument is not checked, and a text with a parenthesis is not quoted.\<close>

lemma arg_default_unchecked:
  "validateArgs ''rpc.f'' [] 0 [\<lparr>arg_Name = ''a'', arg_Type = ''int'', arg_Default = Some (GString ''f();drop table x''), arg_Required = False\<rparr>] = []"
  "argText \<lparr>arg_Name = ''a'', arg_Type = ''int'', arg_Default = Some (GString ''f();drop table x''), arg_Required = False\<rparr> =
     [CHR 0x22] @ ''a'' @ [CHR 0x22] @ '' int DEFAULT f();drop table x''"
proof -
  have "plainName ''a''" "rxMatch dbFunctionTypeRE ''int''" by code_simp+
  then show "validateArgs ''rpc.f'' [] 0 [\<lparr>arg_Name = ''a'', arg_Type = ''int'', arg_Default = Some (GString ''f();drop table x''), arg_Required = False\<rparr>] = []"
    by (simp add: plainName_valid Let_def del: append.simps append_Cons rxMatch.simps)
  show "argText \<lparr>arg_Name = ''a'', arg_Type = ''int'', arg_Default = Some (GString ''f();drop table x''), arg_Required = False\<rparr> =
     [CHR 0x22] @ ''a'' @ [CHR 0x22] @ '' int DEFAULT f();drop table x''" by code_simp
qed

end
