(* ===== verification/Auth_Store.thy ===== *)
theory Auth_Store
  imports Go_Strings Runs "HOL-Library.Sublist"
begin

text \<open>
  The tables of the \<open>auth\<close> schema (\<open>generateAuthTables\<close> in \<open>app/migrate.go\<close>, with the columns added by
  \<open>authHealDDL\<close>) and the values of \<open>internal/domain/auth.go\<close> the auth service reads and writes. A table is the
  list of its rows; a nullable column is an option; instants are nanoseconds. A JSON document is its text, the
  \<open>amr\<close> column the list it encodes. What one statement sees of the world outside the tables is in \<open>env\<close>: the
  database clock (\<open>NOW()\<close>), the clock of the server (\<open>time.Now()\<close>), the next random UUID, and which calls fail.
\<close>

section \<open>Values\<close>

datatype auth_error =
    ErrNotFound | ErrUnauthorized | ErrOAuthOnlyAccount | ErrRefreshExpired | ErrRefreshReuse | ErrUserBanned
  | ErrTokenExpired | ErrInvalidToken | ErrPurposeMismatch | ErrSignupDisabled | ErrProviderEmailUnverified
  | ErrOAuthLinkRefused | ErrChallengeUsed | ErrChallengeExpired | ErrChallengeTooManyAttempts
  | ErrChallengeRateLimited | AuthDBError string

record AMREntry =
  amr_Method :: string
  amr_Timestamp :: int

record SessionMeta =
  sm_SessionID :: string
  sm_IP :: string
  sm_UserAgent :: string
  sm_AAL :: string
  sm_AMR :: "AMREntry list"

text \<open>An unset \<open>AMR\<close> and an empty one are both the empty list.\<close>

definition Normalize_meta :: "SessionMeta \<Rightarrow> SessionMeta" where
  "Normalize_meta m = (if sm_AAL m = [] then m\<lparr>sm_AAL := ''aal1''\<rparr> else m)"

record RefreshRotation =
  rr_Token :: string
  rr_ExpiresAt :: int
  rr_IP :: string
  rr_UserAgent :: string

record OTPRow =
  otp_UserID :: string
  otp_Purpose :: string

record OAuthLogin =
  ol_Provider :: string
  ol_ProviderUserID :: string
  ol_Email :: string
  ol_Name :: string
  ol_EmailVerified :: bool
  ol_AllowSignup :: bool

record FlowState =
  fs_CodeChallenge :: string
  fs_CodeChallengeMethod :: string
  fs_RedirectTo :: string
  fs_LinkingUserID :: string

record MFAFactor =
  mf_Secret :: string
  mf_Status :: string

section \<open>Tables\<close>

datatype timestamp = Ts int | TsInfinity

record userRow =
  u_id :: string
  u_email :: "string option"
  u_password :: "string option"
  u_verified :: bool
  u_confirmedAt :: "int option"
  u_lastSignIn :: "int option"
  u_bannedUntil :: "timestamp option"
  u_appMeta :: string
  u_userMeta :: string
  u_anonymous :: bool
  u_createdAt :: int
  u_updatedAt :: int

record identityRow =
  id_id :: nat
  id_user :: string
  id_provider :: string
  id_providerUser :: string
  id_email :: "string option"
  id_lastSignIn :: "int option"
  id_createdAt :: int
  id_updatedAt :: int

record refreshRow =
  rt_id :: nat
  rt_user :: string
  rt_token :: string
  rt_expires :: int
  rt_session :: "string option"
  rt_ip :: "string option"
  rt_agent :: "string option"
  rt_revoked :: "int option"
  rt_aal :: string
  rt_amr :: "AMREntry list"

record ottRow =
  ot_id :: nat
  ot_user :: string
  ot_token :: string
  ot_purpose :: string
  ot_email :: "string option"
  ot_code :: "string option"
  ot_attempts :: int
  ot_expires :: int
  ot_created :: int

record factorRow =
  fa_id :: string
  fa_user :: string
  fa_name :: "string option"
  fa_type :: string
  fa_status :: string
  fa_secret :: string
  fa_lastStep :: "int option"
  fa_created :: int
  fa_updated :: int

record challengeRow =
  ch_id :: string
  ch_factor :: string
  ch_verified :: "int option"
  ch_attempts :: int
  ch_created :: int

record flowRow =
  fl_code :: string
  fl_user :: "string option"
  fl_challenge :: "string option"
  fl_method :: "string option"
  fl_provider :: string
  fl_redirect :: "string option"
  fl_linking :: "string option"
  fl_issued :: int

record authdb =
  au_users :: "userRow list"
  au_identities :: "identityRow list"
  au_refresh :: "refreshRow list"
  au_otts :: "ottRow list"
  au_factors :: "factorRow list"
  au_challenges :: "challengeRow list"
  au_flows :: "flowRow list"
  au_seq :: nat

record env =
  en_now :: int
  en_clock :: int
  en_uuid :: string
  en_fails :: "string \<Rightarrow> bool"

type_synonym 'a authOp = "env \<Rightarrow> authdb \<Rightarrow> (auth_error + 'a) \<times> authdb"

definition sec :: int where "sec = 1000000000"

section \<open>Reading and changing a table\<close>

text \<open>The row of greatest key among those that satisfy the condition: \<open>ORDER BY key DESC LIMIT 1\<close>. Of equal keys the later row.\<close>

definition latestBy :: "('r \<Rightarrow> 'k :: linorder) \<Rightarrow> ('r \<Rightarrow> bool) \<Rightarrow> 'r list \<Rightarrow> 'r option" where
  "latestBy key P rows =
     fold (\<lambda>r best. case best of None \<Rightarrow> Some r | Some b \<Rightarrow> if key b \<le> key r then Some r else Some b) (filter P rows) None"

lemma fold_latest:
  fixes key :: "'r \<Rightarrow> 'k :: linorder"
  assumes "fold (\<lambda>r best. case best of None \<Rightarrow> Some r | Some b \<Rightarrow> if key b \<le> key r then Some r else Some b) xs (Some y) = Some z"
  shows "z \<in> insert y (set xs) \<and> (\<forall>x \<in> insert y (set xs). key x \<le> key z)"
  using assms
proof (induction xs arbitrary: y)
  case (Cons a xs)
  show ?case
  proof (cases "key y \<le> key a")
    case True
    with Cons.prems have "z \<in> insert a (set xs) \<and> (\<forall>x \<in> insert a (set xs). key x \<le> key z)"
      using Cons.IH [of a] by simp
    with True show ?thesis using order_trans [of "key y" "key a" "key z"] by auto
  next
    case False
    with Cons.prems have "z \<in> insert y (set xs) \<and> (\<forall>x \<in> insert y (set xs). key x \<le> key z)"
      using Cons.IH [of y] by simp
    with False show ?thesis using order_trans [of "key a" "key y" "key z"] by auto
  qed
qed simp

lemma latestBy_Some:
  "latestBy key P rows = Some r \<Longrightarrow> r \<in> set rows \<and> P r \<and> (\<forall>q \<in> set rows. P q \<longrightarrow> key q \<le> key r)"
proof -
  assume l: "latestBy key P rows = Some r"
  show ?thesis
  proof (cases "filter P rows")
    case (Cons y ys)
    have "fold (\<lambda>r best. case best of None \<Rightarrow> Some r | Some b \<Rightarrow> if key b \<le> key r then Some r else Some b) ys (Some y) = Some r"
      using l unfolding latestBy_def Cons by simp
    from fold_latest [OF this] have "r \<in> insert y (set ys) \<and> (\<forall>x \<in> insert y (set ys). key x \<le> key r)" .
    moreover have "insert y (set ys) = {x \<in> set rows. P x}" using arg_cong [OF Cons, of set] by auto
    ultimately show ?thesis by auto
  qed (use l in \<open>simp add: latestBy_def\<close>)
qed

lemma latestBy_None: "latestBy key P rows = None \<longleftrightarrow> (\<forall>r \<in> set rows. \<not> P r)"
proof -
  have "fold (\<lambda>r best. case best of None \<Rightarrow> Some r | Some b \<Rightarrow> if key b \<le> key r then Some r else Some b) xs (Some y) \<noteq> None"
    for xs :: "'a list" and y
    by (induction xs arbitrary: y) auto
  note some = this
  show ?thesis
  proof (cases "filter P rows")
    case (Cons y ys)
    have "y \<in> set rows" "P y" using arg_cong [OF Cons, of set] by auto
    with some [of ys y] Cons show ?thesis by (auto simp: latestBy_def)
  qed (auto simp: latestBy_def filter_empty_conv)
qed

text \<open>\<open>UPDATE \<dots> WHERE P\<close>.\<close>

definition updRows :: "('r \<Rightarrow> bool) \<Rightarrow> ('r \<Rightarrow> 'r) \<Rightarrow> 'r list \<Rightarrow> 'r list" where
  "updRows P f rows = map (\<lambda>r. if P r then f r else r) rows"

text \<open>\<open>DELETE \<dots> WHERE P\<close>.\<close>

definition delRows :: "('r \<Rightarrow> bool) \<Rightarrow> 'r list \<Rightarrow> 'r list" where
  "delRows P rows = filter (\<lambda>r. \<not> P r) rows"

lemma set_updRows: "set (updRows P f rows) = f ` {r \<in> set rows. P r} \<union> {r \<in> set rows. \<not> P r}"
  by (auto simp: updRows_def)

lemma updRows_member: "r \<in> set rows \<Longrightarrow> (if P r then f r else r) \<in> set (updRows P f rows)"
  by (auto simp: updRows_def)

lemma set_delRows [simp]: "set (delRows P rows) = {r \<in> set rows. \<not> P r}"
  by (auto simp: delRows_def)

lemma map_updRows: "(\<And>r. P r \<Longrightarrow> g (f r) = g r) \<Longrightarrow> map g (updRows P f rows) = map g rows"
  by (induction rows) (auto simp: updRows_def)

lemma updRows_image: "(\<And>r. P r \<Longrightarrow> g (f r) = g r) \<Longrightarrow> g ` set (updRows P f rows) = g ` set rows"
  by (metis list.set_map map_updRows)

lemma distinct_subseq: "subseq xs ys \<Longrightarrow> distinct ys \<Longrightarrow> distinct xs"
  by (auto simp: subseq_conv_nths distinct_nthsI)

lemma subseq_delRows: "subseq (map g (delRows P rows)) (map g rows)"
  unfolding delRows_def by (intro subseq_map) simp

lemma distinct_delRows: "distinct (map g rows) \<Longrightarrow> distinct (map g (delRows P rows))"
  by (simp add: delRows_def distinct_map_filter)

text \<open>\<open>is_banned\<close> of the user projection: \<open>COALESCE(banned_until > NOW(), false)\<close>.\<close>

definition isBanned :: "int \<Rightarrow> userRow \<Rightarrow> bool" where
  "isBanned now u = (case u_bannedUntil u of None \<Rightarrow> False | Some TsInfinity \<Rightarrow> True | Some (Ts t) \<Rightarrow> now < t)"

text \<open>What the auth queries return of a user: the columns and \<open>is_banned\<close> at the time of the query.\<close>

type_synonym userView = "userRow \<times> bool"

definition userView :: "env \<Rightarrow> userRow \<Rightarrow> userView" where
  "userView e u = (u, isBanned (en_now e) u)"

definition findUser :: "string \<Rightarrow> authdb \<Rightarrow> userRow option" where
  "findUser uid db = find (\<lambda>u. u_id u = uid) (au_users db)"

definition emptyAuth :: authdb where
  "emptyAuth = \<lparr>au_users = [], au_identities = [], au_refresh = [], au_otts = [], au_factors = [], au_challenges = [],
     au_flows = [], au_seq = 0\<rparr>"

lemma find_SomeD: "find P xs = Some x \<Longrightarrow> P x \<and> x \<in> set xs"
  by (auto simp: find_Some_iff)

end
