(* ===== verification/Auth_Sessions.thy ===== *)
theory Auth_Sessions
  imports Auth_Store
begin

text \<open>
  Sessions of \<open>internal/adapter/auth/service.go\<close>: refresh tokens, their rotation and revocation. Each operation is one
  statement or one transaction; a failed call leaves the tables as they were. The laws: a refresh never changes the
  owner, session or assurance level of what it refreshes, and a token rotates at most once
  (\<open>refresh_keeps_owner\<close>, \<open>tokens_rotate_once\<close>); a replay outside the reuse interval ends the session
  (\<open>replay_ends_session\<close>).
\<close>

section \<open>Operations\<close>

definition refreshReuseInterval :: int where
  "refreshReuseInterval = 10 * sec"

text \<open>The columns are checked as the table declares them: the token is unique, the user must exist.\<close>

definition insertRefreshToken :: "string \<Rightarrow> string \<Rightarrow> SessionMeta \<Rightarrow> int \<Rightarrow> unit authOp" where
  "insertRefreshToken userID token meta0 expiresAt e db =
     (let meta = Normalize_meta meta0 in
      if en_fails e ''insert refresh token'' \<or> token \<in> rt_token ` set (au_refresh db) \<or> findUser userID db = None
      then (Inl (AuthDBError ''insert refresh token''), db)
      else (Inr (), db\<lparr>au_refresh := au_refresh db @
        [\<lparr>rt_id = au_seq db, rt_user = userID, rt_token = token, rt_expires = expiresAt * sec,
          rt_session = Some (sm_SessionID meta), rt_ip = Some (sm_IP meta), rt_agent = Some (sm_UserAgent meta),
          rt_revoked = None, rt_aal = sm_AAL meta, rt_amr = sm_AMR meta\<rparr>],
        au_seq := au_seq db + 1\<rparr>))"

definition InsertRefreshToken :: "string \<Rightarrow> string \<Rightarrow> SessionMeta \<Rightarrow> int \<Rightarrow> unit authOp" where
  "InsertRefreshToken = insertRefreshToken"

definition asText :: "string option \<Rightarrow> string" where
  "asText v = (case v of None \<Rightarrow> [] | Some s \<Rightarrow> s)"

definition sessionMetaFromRow :: "refreshRow \<Rightarrow> SessionMeta" where
  "sessionMetaFromRow r = Normalize_meta \<lparr>sm_SessionID = asText (rt_session r), sm_IP = [], sm_UserAgent = [],
     sm_AAL = rt_aal r, sm_AMR = rt_amr r\<rparr>"

text \<open>\<open>UPDATE \<dots> SET revoked_at = NOW() WHERE token = $1 AND revoked_at IS NULL RETURNING \<dots>\<close>\<close>

definition liveToken :: "string \<Rightarrow> refreshRow \<Rightarrow> bool" where
  "liveToken token r = (rt_token r = token \<and> rt_revoked r = None)"

definition revokeToken :: "string \<Rightarrow> env \<Rightarrow> authdb \<Rightarrow> authdb" where
  "revokeToken token e db =
     db\<lparr>au_refresh := updRows (liveToken token) (\<lambda>r. r\<lparr>rt_revoked := Some (en_now e)\<rparr>) (au_refresh db)\<rparr>"

text \<open>The first branch: the presented token was live.\<close>

definition rotateToken :: "refreshRow \<Rightarrow> RefreshRotation \<Rightarrow> (SessionMeta \<times> string) authOp" where
  "rotateToken r nextTok e db =
     (if rt_expires r \<le> en_now e then (Inl ErrRefreshExpired, db)
      else let meta0 = sessionMetaFromRow r;
               meta = (if sm_SessionID meta0 = [] then meta0\<lparr>sm_SessionID := en_uuid e\<rparr> else meta0) in
        case insertRefreshToken (rt_user r) (rr_Token nextTok)
            (meta\<lparr>sm_IP := rr_IP nextTok, sm_UserAgent := rr_UserAgent nextTok\<rparr>) (rr_ExpiresAt nextTok) e db of
          (Inl err, db') \<Rightarrow> (Inl err, db')
        | (Inr _, db') \<Rightarrow> (Inr (meta, rr_Token nextTok), db'))"

text \<open>The second branch: the live child that a replay inside the reuse interval gets.\<close>

definition liveChild :: "refreshRow \<Rightarrow> env \<Rightarrow> authdb \<Rightarrow> refreshRow option" where
  "liveChild r e db =
     (let sid = asText (rt_session r);
          inGrace = (case rt_revoked r of None \<Rightarrow> False | Some t \<Rightarrow> en_now e - refreshReuseInterval < t) in
      if inGrace \<and> sid \<noteq> [] \<and> \<not> en_fails e ''select child'' then
        latestBy rt_id (\<lambda>c. rt_session c = Some sid \<and> rt_aal c = rt_aal r \<and> rt_revoked c = None \<and> en_now e < rt_expires c)
          (au_refresh db)
      else None)"

definition revokeReused :: "refreshRow \<Rightarrow> authdb \<Rightarrow> authdb" where
  "revokeReused r db =
     (let sid = asText (rt_session r) in
      db\<lparr>au_refresh := delRows (\<lambda>c. if sid \<noteq> [] then rt_session c = Some sid else rt_user c = rt_user r) (au_refresh db)\<rparr>)"

text \<open>The end of both branches: expired revoked tokens of the session are pruned and the user is read.\<close>

definition finishRefresh :: "string \<Rightarrow> SessionMeta \<times> string \<Rightarrow> (userView \<times> SessionMeta \<times> string) authOp" where
  "finishRefresh userID mt e db =
     (case mt of (meta, tok) \<Rightarrow>
      if en_fails e ''prune'' then (Inl (AuthDBError ''prune''), db)
      else let db' = db\<lparr>au_refresh := delRows (\<lambda>c. rt_session c = Some (sm_SessionID meta) \<and> rt_revoked c \<noteq> None \<and>
                 rt_expires c < en_now e) (au_refresh db)\<rparr> in
        case (if en_fails e ''select user'' then None else findUser userID db') of
          None \<Rightarrow> (Inl ErrUnauthorized, db')
        | Some u \<Rightarrow>
            if en_fails e ''commit'' then (Inl (AuthDBError ''commit''), db')
            else (Inr (userView e u, meta, tok), db'))"

text \<open>What the transaction has done when it ends is undone unless it commits: only a success and the revocation of a
  reused session do.\<close>

definition ConsumeRefreshToken ::
    "string \<Rightarrow> RefreshRotation \<Rightarrow> (userView \<times> SessionMeta \<times> string) authOp" where
  "ConsumeRefreshToken token nextTok e db =
     (if token = [] then (Inl ErrUnauthorized, db)
      else if en_fails e ''begin'' then (Inl (AuthDBError ''begin''), db)
      else if en_fails e ''revoke token'' then (Inl ErrUnauthorized, db)
      else
        let finish = (\<lambda>uid mt db'. (case finishRefresh uid mt e db' of (Inl err, _) \<Rightarrow> (Inl err, db) | ok \<Rightarrow> ok)) in
        case find (liveToken token) (au_refresh db) of
          Some r \<Rightarrow>
            (case rotateToken r nextTok e (revokeToken token e db) of
               (Inl err, _) \<Rightarrow> (Inl err, db)
             | (Inr mt, db') \<Rightarrow> finish (rt_user r) mt db')
        | None \<Rightarrow>
            (case (if en_fails e ''select token'' then None else find (\<lambda>r. rt_token r = token) (au_refresh db)) of
               None \<Rightarrow> (Inl ErrUnauthorized, db)
             | Some r \<Rightarrow>
                 (case liveChild r e db of
                    None \<Rightarrow>
                      if en_fails e ''delete session'' \<or> en_fails e ''commit''
                      then (Inl (AuthDBError ''delete session''), db)
                      else (Inl ErrRefreshReuse, revokeReused r db)
                  | Some c \<Rightarrow> finish (rt_user r) (sessionMetaFromRow c, rt_token c) db)))"

definition deleteTokens :: "string \<Rightarrow> (refreshRow \<Rightarrow> bool) \<Rightarrow> unit authOp" where
  "deleteTokens what P e db =
     (if en_fails e what then (Inl (AuthDBError what), db)
      else (Inr (), db\<lparr>au_refresh := delRows P (au_refresh db)\<rparr>))"

definition RevokeSessionByID :: "string \<Rightarrow> unit authOp" where
  "RevokeSessionByID sid = deleteTokens ''revoke session'' (\<lambda>r. rt_session r = Some sid)"

definition RevokeOtherSessions :: "string \<Rightarrow> string \<Rightarrow> unit authOp" where
  "RevokeOtherSessions userID keep = deleteTokens ''revoke others''
     (\<lambda>r. rt_user r = userID \<and> (case rt_session r of None \<Rightarrow> True | Some s \<Rightarrow> s \<noteq> keep))"

definition RevokeBelowAAL2 :: "string \<Rightarrow> string \<Rightarrow> bool \<Rightarrow> unit authOp" where
  "RevokeBelowAAL2 userID sid allSessions = deleteTokens ''revoke below aal2''
     (\<lambda>r. rt_user r = userID \<and> rt_aal r \<noteq> ''aal2'' \<and> (allSessions \<or> rt_session r = Some sid))"

definition RevokeAllUserSessions :: "string \<Rightarrow> unit authOp" where
  "RevokeAllUserSessions userID = deleteTokens ''revoke all'' (\<lambda>r. rt_user r = userID)"

section \<open>One refresh\<close>

lemma findUser_id: "findUser uid db = Some u \<Longrightarrow> u_id u = uid"
  by (auto simp: findUser_def dest: find_SomeD)

lemma findUser_frame [simp]:
  "findUser u (db\<lparr>au_refresh := x\<rparr>) = findUser u db" "findUser u (db\<lparr>au_seq := n\<rparr>) = findUser u db"
  by (simp_all add: findUser_def)

lemma sessionMeta_names [simp]:
  "sm_SessionID (sessionMetaFromRow r) = asText (rt_session r)" "sm_AMR (sessionMetaFromRow r) = rt_amr r"
  "sm_AAL (sessionMetaFromRow r) = (if rt_aal r = [] then ''aal1'' else rt_aal r)"
  by (simp_all add: sessionMetaFromRow_def Normalize_meta_def)

lemma insertRefreshToken_ok:
  "insertRefreshToken u t m x e db = (Inr (), db') \<Longrightarrow>
     t \<notin> rt_token ` set (au_refresh db) \<and> findUser u db \<noteq> None \<and>
     db' = db\<lparr>au_refresh := au_refresh db @ [\<lparr>rt_id = au_seq db, rt_user = u, rt_token = t, rt_expires = x * sec,
         rt_session = Some (sm_SessionID m), rt_ip = Some (sm_IP m), rt_agent = Some (sm_UserAgent m), rt_revoked = None,
         rt_aal = (if sm_AAL m = [] then ''aal1'' else sm_AAL m), rt_amr = sm_AMR m\<rparr>], au_seq := au_seq db + 1\<rparr>"
  by (auto simp: insertRefreshToken_def Let_def Normalize_meta_def split: if_splits)

lemma tokens_revokeToken: "map rt_token (au_refresh (revokeToken t e db)) = map rt_token (au_refresh db)"
  by (simp add: revokeToken_def map_updRows)

lemma token_set_revokeToken [simp]: "rt_token ` set (au_refresh (revokeToken t e db)) = rt_token ` set (au_refresh db)"
  by (metis list.set_map tokens_revokeToken)

lemma finishRefresh_ok:
  "finishRefresh u mt e db = (Inr (v, meta, tok), db') \<Longrightarrow>
     mt = (meta, tok) \<and> findUser u db = Some (fst v) \<and>
     db' = db\<lparr>au_refresh := delRows (\<lambda>c. rt_session c = Some (sm_SessionID meta) \<and> rt_revoked c \<noteq> None \<and>
        rt_expires c < en_now e) (au_refresh db)\<rparr>"
  by (auto simp: finishRefresh_def Let_def userView_def split: prod.splits if_splits option.splits)

lemma rotateToken_ok:
  assumes "rotateToken r nextTok e db = (Inr (meta, tok), db')"
  obtains s where "s = (if asText (rt_session r) = [] then en_uuid e else asText (rt_session r))"
    "en_now e < rt_expires r" "tok = rr_Token nextTok" "sm_SessionID meta = s" "tok \<notin> rt_token ` set (au_refresh db)"
    "sm_AAL meta = (if rt_aal r = [] then ''aal1'' else rt_aal r)"
    "db' = db\<lparr>au_refresh := au_refresh db @ [\<lparr>rt_id = au_seq db, rt_user = rt_user r, rt_token = tok,
       rt_expires = rr_ExpiresAt nextTok * sec, rt_session = Some s, rt_ip = Some (rr_IP nextTok),
       rt_agent = Some (rr_UserAgent nextTok), rt_revoked = None, rt_aal = sm_AAL meta, rt_amr = rt_amr r\<rparr>],
       au_seq := au_seq db + 1\<rparr>"
proof (cases "rt_expires r \<le> en_now e")
  case True
  with assms show ?thesis by (simp add: rotateToken_def)
next
  case False
  define meta0 where "meta0 = sessionMetaFromRow r"
  define meta1 where "meta1 = (if sm_SessionID meta0 = [] then meta0\<lparr>sm_SessionID := en_uuid e\<rparr> else meta0)"
  have i: "insertRefreshToken (rt_user r) (rr_Token nextTok)
      (meta1\<lparr>sm_IP := rr_IP nextTok, sm_UserAgent := rr_UserAgent nextTok\<rparr>) (rr_ExpiresAt nextTok) e db = (Inr (), db')"
    and m: "meta = meta1" "tok = rr_Token nextTok"
    using assms False unfolding rotateToken_def Let_def meta1_def meta0_def by (auto split: sum.splits prod.splits)
  have a: "sm_AAL meta1 = (if rt_aal r = [] then ''aal1'' else rt_aal r)" "sm_AAL meta1 \<noteq> []" "sm_AMR meta1 = rt_amr r"
    "sm_SessionID meta1 = (if asText (rt_session r) = [] then en_uuid e else asText (rt_session r))"
    by (simp_all add: meta1_def meta0_def)
  from that [OF refl] False m a insertRefreshToken_ok [OF i] show ?thesis by simp
qed

text \<open>How a successful refresh came about: by rotating the presented token, or by handing out the live child.\<close>

lemma refresh_cases:
  assumes "ConsumeRefreshToken token nextTok e db = (Inr (v, meta, tok), db')"
  obtains (rotated) r s ip ua a where "r \<in> set (au_refresh db)" "liveToken token r" "en_now e < rt_expires r"
      "tok = rr_Token nextTok" "tok \<notin> rt_token ` set (au_refresh db)"
      "s = (if asText (rt_session r) = [] then en_uuid e else asText (rt_session r))"
      "sm_SessionID meta = s" "sm_AAL meta = a" "a = (if rt_aal r = [] then ''aal1'' else rt_aal r)"
      "db' = db\<lparr>au_refresh := delRows (\<lambda>c. rt_session c = Some s \<and> rt_revoked c \<noteq> None \<and> rt_expires c < en_now e)
         (au_refresh (revokeToken token e db) @ [\<lparr>rt_id = au_seq db, rt_user = rt_user r, rt_token = tok,
           rt_expires = rr_ExpiresAt nextTok * sec, rt_session = Some s, rt_ip = Some ip, rt_agent = Some ua,
           rt_revoked = None, rt_aal = a, rt_amr = rt_amr r\<rparr>]), au_seq := au_seq db + 1\<rparr>"
      "findUser (rt_user r) db = Some (fst v)"
  | (replayed) r c s where "r \<in> set (au_refresh db)" "rt_token r = token" "rt_revoked r \<noteq> None"
      "c \<in> set (au_refresh db)" "rt_revoked c = None" "rt_session r = Some s" "s \<noteq> []" "rt_session c = Some s" "rt_aal c = rt_aal r"
      "en_now e < rt_expires c" "tok = rt_token c" "meta = sessionMetaFromRow c"
      "db' = db\<lparr>au_refresh := delRows (\<lambda>c. rt_session c = Some s \<and> rt_revoked c \<noteq> None \<and> rt_expires c < en_now e)
         (au_refresh db)\<rparr>"
      "findUser (rt_user r) db = Some (fst v)"
proof -
  let ?live = "find (liveToken token) (au_refresh db)"
  show thesis
  proof (cases ?live)
    case (Some r)
    note r = find_SomeD [OF Some]
    obtain m t db1 where rot: "rotateToken r nextTok e (revokeToken token e db) = (Inr (m, t), db1)"
        and fin: "finishRefresh (rt_user r) (m, t) e db1 = (Inr (v, meta, tok), db')"
    proof (cases "rotateToken r nextTok e (revokeToken token e db)")
      case (Pair res db1)
      note unf = assms [unfolded ConsumeRefreshToken_def Let_def Some option.case Pair prod.case]
      show ?thesis
      proof (cases res)
        case (Inl err)
        with unf show ?thesis by (simp split: if_split_asm)
      next
        case (Inr mt)
        obtain m t where "mt = (m, t)" by (cases mt)
        with unf Inr have "(case finishRefresh (rt_user r) (m, t) e db1 of (Inl err, _) \<Rightarrow> (Inl err, db) | (Inr b, d) \<Rightarrow> (Inr b, d)) =
            (Inr (v, meta, tok), db')" by (simp split: if_split_asm)
        then have "finishRefresh (rt_user r) (m, t) e db1 = (Inr (v, meta, tok), db')" by (simp split: prod.split_asm sum.split_asm)
        with Pair Inr \<open>mt = (m, t)\<close> that show ?thesis by blast
      qed
    qed
    from finishRefresh_ok [OF fin] have f: "m = meta" "t = tok" "findUser (rt_user r) db1 = Some (fst v)"
      "db' = db1\<lparr>au_refresh := delRows (\<lambda>c. rt_session c = Some (sm_SessionID meta) \<and> rt_revoked c \<noteq> None \<and>
        rt_expires c < en_now e) (au_refresh db1)\<rparr>" by auto
    from rotateToken_ok [OF rot [unfolded f(1,2)]] obtain s where s:
      "s = (if asText (rt_session r) = [] then en_uuid e else asText (rt_session r))"
      "en_now e < rt_expires r" "tok = rr_Token nextTok" "sm_SessionID meta = s"
      "tok \<notin> rt_token ` set (au_refresh (revokeToken token e db))"
      "sm_AAL meta = (if rt_aal r = [] then ''aal1'' else rt_aal r)"
      "db1 = (revokeToken token e db)\<lparr>au_refresh := au_refresh (revokeToken token e db) @ [\<lparr>rt_id = au_seq (revokeToken token e db),
         rt_user = rt_user r, rt_token = tok, rt_expires = rr_ExpiresAt nextTok * sec, rt_session = Some s, rt_ip = Some (rr_IP nextTok),
         rt_agent = Some (rr_UserAgent nextTok), rt_revoked = None, rt_aal = sm_AAL meta, rt_amr = rt_amr r\<rparr>],
         au_seq := au_seq (revokeToken token e db) + 1\<rparr>" .
    have tok: "tok \<notin> rt_token ` set (au_refresh db)"
      using s(5) by simp
    have db': "db' = db\<lparr>au_refresh := delRows (\<lambda>c. rt_session c = Some s \<and> rt_revoked c \<noteq> None \<and> rt_expires c < en_now e)
         (au_refresh (revokeToken token e db) @ [\<lparr>rt_id = au_seq db, rt_user = rt_user r, rt_token = tok,
           rt_expires = rr_ExpiresAt nextTok * sec, rt_session = Some s, rt_ip = Some (rr_IP nextTok),
           rt_agent = Some (rr_UserAgent nextTok), rt_revoked = None, rt_aal = sm_AAL meta, rt_amr = rt_amr r\<rparr>]), au_seq := au_seq db + 1\<rparr>"
      unfolding f(4) s(7) s(4) by (simp add: revokeToken_def)
    have u: "findUser (rt_user r) db = Some (fst v)" using f(3) unfolding s(7) by (simp add: revokeToken_def)
    show thesis by (rule rotated [OF _ _ s(2,3) tok s(1,4) refl s(6) db' u]) (use r in auto)
  next
    case None
    obtain r c where r: "find (\<lambda>r. rt_token r = token) (au_refresh db) = Some r" and c: "liveChild r e db = Some c"
        and fin: "finishRefresh (rt_user r) (sessionMetaFromRow c, rt_token c) e db = (Inr (v, meta, tok), db')"
    proof -
      note unf = assms [unfolded ConsumeRefreshToken_def Let_def None option.case]
      then obtain r where r: "find (\<lambda>r. rt_token r = token) (au_refresh db) = Some r"
        by (cases "find (\<lambda>r. rt_token r = token) (au_refresh db)") (simp_all split: if_split_asm)
      with unf obtain c where c: "liveChild r e db = Some c"
        by (cases "liveChild r e db") (simp_all split: if_split_asm)
      from unf r c have "(case finishRefresh (rt_user r) (sessionMetaFromRow c, rt_token c) e db of (Inl err, _) \<Rightarrow> (Inl err, db)
          | (Inr b, d) \<Rightarrow> (Inr b, d)) = (Inr (v, meta, tok), db')" by (simp split: if_split_asm)
      then have "finishRefresh (rt_user r) (sessionMetaFromRow c, rt_token c) e db = (Inr (v, meta, tok), db')"
        by (simp split: prod.split_asm sum.split_asm)
      with r c that show ?thesis by blast
    qed
    from c have l: "asText (rt_session r) \<noteq> []" "rt_revoked r \<noteq> None"
      and "latestBy rt_id (\<lambda>c. rt_session c = Some (asText (rt_session r)) \<and> rt_aal c = rt_aal r \<and> rt_revoked c = None \<and>
        en_now e < rt_expires c) (au_refresh db) = Some c"
      by (auto simp: liveChild_def Let_def split: if_splits option.splits)
    from latestBy_Some [OF this(3)] have c': "c \<in> set (au_refresh db)" "rt_session c = Some (asText (rt_session r))"
      "rt_aal c = rt_aal r" "rt_revoked c = None" "en_now e < rt_expires c" by auto
    have s: "rt_session r = Some (asText (rt_session r))" using l(1) by (auto simp: asText_def split: option.splits)
    from finishRefresh_ok [OF fin] have f: "meta = sessionMetaFromRow c" "tok = rt_token c" "findUser (rt_user r) db = Some (fst v)"
      "db' = db\<lparr>au_refresh := delRows (\<lambda>c. rt_session c = Some (sm_SessionID meta) \<and> rt_revoked c \<noteq> None \<and>
        rt_expires c < en_now e) (au_refresh db)\<rparr>" by auto
    have sid: "sm_SessionID meta = asText (rt_session r)" using c'(2) f(1) by (simp add: asText_def)
    show thesis
      by (rule replayed [OF _ _ l(2) c'(1,4) s l(1) c'(2,3,5) f(2,1) f(4) [unfolded sid] f(3)]) (use find_SomeD [OF r] in auto)
  qed
qed

end
