(* ===== verification/Auth_MFA.thy ===== *)
theory Auth_MFA
  imports Auth_Sessions "HOL-Library.Signed_Division"
begin

text \<open>
  TOTP factors and their challenges (\<open>service.go\<close>), and the handlers that decide on assurance levels
  (\<open>internal/adapter/http/mfa_handler.go\<close>). Code generation is a call of a package outside the sources: \<open>totp\<close> maps a
  secret and an instant to a code, if it can. A handler makes several calls; \<open>es i\<close> is what its call number \<open>i\<close> sees.
\<close>

section \<open>Factors and challenges\<close>

definition maxMFAAttempts :: int where "maxMFAAttempts = 5"
definition challengeTTL :: int where "challengeTTL = 5 * 60 * sec"
definition maxChallengesPerFactor :: nat where "maxChallengesPerFactor = 10"

definition EnrollFactor :: "string \<Rightarrow> string \<Rightarrow> string \<Rightarrow> string authOp" where
  "EnrollFactor userID friendlyName secret e db =
     (if en_fails e ''enroll'' \<or> findUser userID db = None \<or> en_uuid e \<in> fa_id ` set (au_factors db)
      then (Inl (AuthDBError ''enroll''), db)
      else (Inr (en_uuid e), db\<lparr>au_factors := au_factors db @
        [\<lparr>fa_id = en_uuid e, fa_user = userID, fa_name = Some friendlyName, fa_type = ''totp'', fa_status = ''unverified'',
          fa_secret = secret, fa_lastStep = None, fa_created = en_now e, fa_updated = en_now e\<rparr>]\<rparr>))"

definition recentChallenge :: "string \<Rightarrow> int \<Rightarrow> challengeRow \<Rightarrow> bool" where
  "recentChallenge factorID now c = (ch_factor c = factorID \<and> now - challengeTTL < ch_created c)"

text \<open>One transaction with the factor locked: count, insert, prune.\<close>

definition CreateChallenge :: "string \<Rightarrow> string \<Rightarrow> (string \<times> int) authOp" where
  "CreateChallenge factorID userID e db =
     (if en_fails e ''challenge'' then (Inl (AuthDBError ''challenge''), db)
      else if \<not> list_ex (\<lambda>f. fa_id f = factorID \<and> fa_user f = userID) (au_factors db) then (Inl ErrNotFound, db)
      else if length (filter (recentChallenge factorID (en_now e)) (au_challenges db)) \<ge> maxChallengesPerFactor
      then (Inl ErrChallengeRateLimited, db)
      else if en_uuid e \<in> ch_id ` set (au_challenges db) \<or> en_fails e ''prune challenges'' \<or> en_fails e ''commit''
      then (Inl (AuthDBError ''challenge''), db)
      else (Inr (en_uuid e, en_now e), db\<lparr>au_challenges :=
        delRows (\<lambda>c. ch_factor c = factorID \<and> ch_created c \<le> en_now e - challengeTTL)
          (au_challenges db @ [\<lparr>ch_id = en_uuid e, ch_factor = factorID, ch_verified = None, ch_attempts = 0,
            ch_created = en_now e\<rparr>])\<rparr>))"

definition GetFactorForVerify :: "string \<Rightarrow> string \<Rightarrow> MFAFactor authOp" where
  "GetFactorForVerify factorID userID e db =
     (if en_fails e ''select factor'' then (Inl (AuthDBError ''select factor''), db)
      else case find (\<lambda>f. fa_id f = factorID) (au_factors db) of
          None \<Rightarrow> (Inl ErrNotFound, db)
        | Some f \<Rightarrow> if fa_user f \<noteq> userID then (Inl ErrNotFound, db)
            else (Inr \<lparr>mf_Secret = fa_secret f, mf_Status = fa_status f\<rparr>, db))"

definition openChallenge :: "string \<Rightarrow> string \<Rightarrow> int \<Rightarrow> challengeRow \<Rightarrow> bool" where
  "openChallenge challengeID factorID now c =
     (ch_id c = challengeID \<and> ch_factor c = factorID \<and> ch_verified c = None \<and> now - challengeTTL < ch_created c \<and>
      ch_attempts c < maxMFAAttempts)"

text \<open>The attempt is spent by the update; the second query only finds the reason of a refusal.\<close>

definition ValidateChallenge :: "string \<Rightarrow> string \<Rightarrow> unit authOp" where
  "ValidateChallenge challengeID factorID e db =
     (if en_fails e ''spend challenge'' then (Inl (AuthDBError ''spend challenge''), db)
      else if list_ex (openChallenge challengeID factorID (en_now e)) (au_challenges db) then
        (Inr (), db\<lparr>au_challenges := updRows (openChallenge challengeID factorID (en_now e))
           (\<lambda>c. c\<lparr>ch_attempts := ch_attempts c + 1\<rparr>) (au_challenges db)\<rparr>)
      else if en_fails e ''select challenge'' then (Inl (AuthDBError ''select challenge''), db)
      else (Inl (case find (\<lambda>c. ch_id c = challengeID) (au_challenges db) of
                   None \<Rightarrow> ErrNotFound
                 | Some c \<Rightarrow>
                     if ch_factor c \<noteq> factorID then ErrNotFound
                     else if ch_verified c \<noteq> None then ErrChallengeUsed
                     else if challengeTTL < en_clock e - ch_created c then ErrChallengeExpired
                     else ErrChallengeTooManyAttempts), db))"

definition MarkChallengeVerified :: "string \<Rightarrow> unit authOp" where
  "MarkChallengeVerified challengeID e db =
     (let P = (\<lambda>c. ch_id c = challengeID \<and> ch_verified c = None) in
      if en_fails e ''mark challenge'' then (Inl (AuthDBError ''mark challenge''), db)
      else if \<not> list_ex P (au_challenges db) then (Inl ErrChallengeUsed, db)
      else (Inr (), db\<lparr>au_challenges := updRows P (\<lambda>c. c\<lparr>ch_verified := Some (en_now e)\<rparr>) (au_challenges db)\<rparr>))"

definition staleStep :: "string \<Rightarrow> int \<Rightarrow> factorRow \<Rightarrow> bool" where
  "staleStep factorID step f = (fa_id f = factorID \<and> (case fa_lastStep f of None \<Rightarrow> True | Some l \<Rightarrow> l < step))"

definition ConsumeTOTPStep :: "string \<Rightarrow> int \<Rightarrow> bool authOp" where
  "ConsumeTOTPStep factorID step e db =
     (if en_fails e ''consume step'' then (Inl (AuthDBError ''consume step''), db)
      else (Inr (length (filter (staleStep factorID step) (au_factors db)) = 1),
        db\<lparr>au_factors := updRows (staleStep factorID step) (\<lambda>f. f\<lparr>fa_lastStep := Some step, fa_updated := en_now e\<rparr>) (au_factors db)\<rparr>))"

definition dropFactors :: "(factorRow \<Rightarrow> bool) \<Rightarrow> authdb \<Rightarrow> authdb" where
  "dropFactors P db =
     (let gone = fa_id ` {f \<in> set (au_factors db). P f} in
      db\<lparr>au_factors := delRows P (au_factors db), au_challenges := delRows (\<lambda>c. ch_factor c \<in> gone) (au_challenges db)\<rparr>)"

text \<open>One statement: the promoted factor and the deletion of the user's other unverified ones; challenges go with their factor.\<close>

definition PromoteFactorToVerified :: "string \<Rightarrow> unit authOp" where
  "PromoteFactorToVerified factorID e db =
     (if en_fails e ''promote'' then (Inl (AuthDBError ''promote''), db)
      else let users = fa_user ` {f \<in> set (au_factors db). fa_id f = factorID};
               db1 = dropFactors (\<lambda>f. fa_user f \<in> users \<and> fa_status f = ''unverified'' \<and> fa_id f \<noteq> factorID) db in
        (Inr (), db1\<lparr>au_factors := updRows (\<lambda>f. fa_id f = factorID)
           (\<lambda>f. f\<lparr>fa_status := ''verified'', fa_updated := en_now e\<rparr>) (au_factors db1)\<rparr>))"

definition ListFactors :: "string \<Rightarrow> factorRow list authOp" where
  "ListFactors userID e db =
     (if en_fails e ''list factors'' then (Inl (AuthDBError ''list factors''), db)
      else (Inr (sort_key fa_created (filter (\<lambda>f. fa_user f = userID) (au_factors db))), db))"

definition DeleteFactorForUser :: "string \<Rightarrow> string \<Rightarrow> bool \<Rightarrow> unit authOp" where
  "DeleteFactorForUser factorID userID allowVerified e db =
     (let P = (\<lambda>f. fa_id f = factorID \<and> fa_user f = userID \<and> (fa_status f = ''unverified'' \<or> allowVerified)) in
      if en_fails e ''delete factor'' then (Inl (AuthDBError ''delete factor''), db)
      else if \<not> list_ex P (au_factors db) then (Inl ErrNotFound, db)
      else (Inr (), dropFactors P db))"

section \<open>Handlers\<close>

text \<open>What a handler reads of the caller's verified access token.\<close>

record caller =
  ca_UserID :: string
  ca_Email :: string
  ca_AAL :: string
  ca_SessionID :: string
  ca_AMR :: "AMREntry list"

definition sessionAAL :: "caller \<Rightarrow> string" where
  "sessionAAL c = (if ca_AAL c \<noteq> [] then ca_AAL c else ''aal1'')"

definition hasVerified :: "factorRow list \<Rightarrow> bool" where
  "hasVerified fs = list_ex (\<lambda>f. fa_status f = ''verified'') fs"

text \<open>\<open>totp\<close>: the code of a secret at an instant, the empty text where the package fails.\<close>

definition matchTOTPStep :: "(string \<Rightarrow> int \<Rightarrow> string option) \<Rightarrow> string \<Rightarrow> string \<Rightarrow> int \<Rightarrow> int option" where
  "matchTOTPStep totp code secret now =
     (if length code \<noteq> 6 \<or> secret = [] then None
      else map_option (\<lambda>at. (at div sec) sdiv 30)
        (find (\<lambda>at. totp secret at = Some code) [now, now - 30 * sec, now + 30 * sec]))"

fun keepFirst :: "string list \<Rightarrow> AMREntry list \<Rightarrow> AMREntry list" where
  "keepFirst seen [] = []"
| "keepFirst seen (a # as) =
     (if amr_Method a \<in> set seen then keepFirst seen as else a # keepFirst (amr_Method a # seen) as)"

definition addAMR :: "AMREntry list \<Rightarrow> AMREntry \<Rightarrow> AMREntry list" where
  "addAMR amr e = keepFirst [] (sort_key (\<lambda>a. - amr_Timestamp a) (e # amr))"

text \<open>The outcome of a handler: a problem with its status and code, or a session with its refresh token.\<close>

datatype response = Problem nat string | Issued userView SessionMeta string

text \<open>
  What issuing a session takes from outside: whether signing fails (no key, or the signature), the lifetime of a refresh
  token, and the address and agent of the client. A banned user gets no session.
\<close>

record issuing =
  is_keyFails :: bool
  is_ttl :: int
  is_IP :: string
  is_UserAgent :: string

definition issueSession :: "issuing \<Rightarrow> string \<Rightarrow> userView \<Rightarrow> SessionMeta \<Rightarrow> string \<Rightarrow> (SessionMeta \<times> string) authOp" where
  "issueSession iss userID view meta0 refreshToken e db =
     (let meta = (if sm_SessionID meta0 = [] then meta0\<lparr>sm_SessionID := en_uuid e\<rparr> else meta0) in
      if snd view then (Inl ErrUserBanned, db)
      else if is_keyFails iss then (Inl (AuthDBError ''jwt key''), db)
      else case InsertRefreshToken userID refreshToken (meta\<lparr>sm_IP := is_IP iss, sm_UserAgent := is_UserAgent iss\<rparr>)
            ((en_clock e + is_ttl iss) div sec) e db of
          (Inl err, db') \<Rightarrow> (Inl err, db')
        | (Inr _, db') \<Rightarrow> (Inr (Normalize_meta meta, refreshToken), db'))"

definition GetUserByID :: "string \<Rightarrow> userView authOp" where
  "GetUserByID userID e db =
     (if en_fails e ''select user'' then (Inl (AuthDBError ''select user''), db)
      else case findUser userID db of None \<Rightarrow> (Inl ErrNotFound, db) | Some u \<Rightarrow> (Inr (userView e u), db))"

text \<open>The end of the verification: the session is issued at \<open>aal2\<close> and the sessions below it go.\<close>

definition elevate ::
    "issuing \<Rightarrow> caller \<Rightarrow> bool \<Rightarrow> string \<Rightarrow> (nat \<Rightarrow> env) \<Rightarrow> authdb \<Rightarrow> response \<times> authdb" where
  "elevate iss c firstVerify tok es db =
     (case GetUserByID (ca_UserID c) (es 7) db of
        (Inl _, db) \<Rightarrow> (Problem 500 ''internal'', db)
      | (Inr view, db) \<Rightarrow>
          let meta = \<lparr>sm_SessionID = ca_SessionID c, sm_IP = [], sm_UserAgent = [], sm_AAL = ''aal2'',
                sm_AMR = addAMR (ca_AMR c) \<lparr>amr_Method = ''totp'', amr_Timestamp = en_clock (es 8) div sec\<rparr>\<rparr> in
          (case issueSession iss (ca_UserID c) view meta tok (es 9) db of
             (Inl err, db) \<Rightarrow> (if err = ErrUserBanned then Problem 403 ''user_banned'' else Problem 500 ''internal'', db)
           | (Inr (m, t), db) \<Rightarrow>
               (Issued view m t, snd (RevokeBelowAAL2 (ca_UserID c) (ca_SessionID c) firstVerify (es 10) db))))"

definition challengeProblem :: "auth_error \<Rightarrow> response" where
  "challengeProblem err =
     (case err of
        ErrChallengeUsed \<Rightarrow> Problem 400 ''bad_request''
      | ErrChallengeExpired \<Rightarrow> Problem 401 ''expired''
      | ErrChallengeTooManyAttempts \<Rightarrow> Problem 429 ''too_many_attempts''
      | _ \<Rightarrow> Problem 404 ''not_found'')"

text \<open>The code is right: the step is used up, the challenge closed and the factor promoted.\<close>

definition acceptCode ::
    "issuing \<Rightarrow> caller \<Rightarrow> string \<Rightarrow> string \<Rightarrow> MFAFactor \<Rightarrow> int \<Rightarrow> string \<Rightarrow> (nat \<Rightarrow> env) \<Rightarrow> authdb \<Rightarrow> response \<times> authdb" where
  "acceptCode iss c factorID challengeID factor step tok es db =
     (case ConsumeTOTPStep factorID step (es 4) db of
        (Inl _, db) \<Rightarrow> (Problem 500 ''internal'', db)
      | (Inr fresh, db) \<Rightarrow>
          if \<not> fresh then (Problem 401 ''invalid_code'', db)
          else case MarkChallengeVerified challengeID (es 5) db of
              (Inl err, db) \<Rightarrow> (if err = ErrChallengeUsed then Problem 400 ''bad_request'' else Problem 500 ''internal'', db)
            | (Inr _, db) \<Rightarrow>
                let firstVerify = (mf_Status factor = ''unverified'') in
                (case (if firstVerify then PromoteFactorToVerified factorID (es 6) db else (Inr (), db)) of
                   (Inl _, db) \<Rightarrow> (Problem 500 ''internal'', db)
                 | (Inr _, db) \<Rightarrow> elevate iss c firstVerify tok es db))"

definition handleVerifyFactor ::
    "(string \<Rightarrow> int \<Rightarrow> string option) \<Rightarrow> issuing \<Rightarrow> caller \<Rightarrow> string \<Rightarrow> string \<Rightarrow> string \<Rightarrow> string \<Rightarrow> (nat \<Rightarrow> env) \<Rightarrow> authdb \<Rightarrow>
     response \<times> authdb" where
  "handleVerifyFactor totp iss c factorID challengeID code tok es db =
     (if challengeID = [] \<or> code = [] then (Problem 400 ''bad_request'', db)
      else case GetFactorForVerify factorID (ca_UserID c) (es 0) db of
        (Inl _, db) \<Rightarrow> (Problem 404 ''not_found'', db)
      | (Inr factor, db) \<Rightarrow>
          (case (if mf_Status factor = ''unverified'' \<and> sessionAAL c \<noteq> ''aal2'' then fst (ListFactors (ca_UserID c) (es 1) db) else Inr []) of
             Inl _ \<Rightarrow> (Problem 500 ''internal'', db)
           | Inr fs \<Rightarrow>
               if hasVerified fs then (Problem 403 ''insufficient_aal'', db)
               else case ValidateChallenge challengeID factorID (es 2) db of
                   (Inl err, db) \<Rightarrow> (challengeProblem err, db)
                 | (Inr _, db) \<Rightarrow>
                     (case matchTOTPStep totp code (mf_Secret factor) (en_clock (es 3)) of
                        None \<Rightarrow> (Problem 401 ''invalid_code'', db)
                      | Some step \<Rightarrow> acceptCode iss c factorID challengeID factor step tok es db)))"

text \<open>The answer carries the id of the challenge and when it ends, in seconds.\<close>

definition handleChallengeFactor :: "caller \<Rightarrow> string \<Rightarrow> env \<Rightarrow> authdb \<Rightarrow> (nat \<times> string + string \<times> int) \<times> authdb" where
  "handleChallengeFactor c factorID e db =
     (if factorID = [] then (Inl (400, ''bad_request''), db)
      else case CreateChallenge factorID (ca_UserID c) e db of
          (Inl err, db) \<Rightarrow> (Inl (case err of
              ErrNotFound \<Rightarrow> (404, ''not_found'')
            | ErrChallengeRateLimited \<Rightarrow> (429, ''over_request_rate_limit'')
            | _ \<Rightarrow> (500, ''internal'')), db)
        | (Inr (i, created), db) \<Rightarrow> (Inr (i, (created + 5 * 60 * sec) div sec), db))"

text \<open>\<open>secret\<close>: what key generation returns.\<close>

definition handleEnrollFactor ::
    "string option \<Rightarrow> caller \<Rightarrow> string \<Rightarrow> string \<Rightarrow> (nat \<Rightarrow> env) \<Rightarrow> authdb \<Rightarrow> (nat \<times> string + string \<times> string) \<times> authdb" where
  "handleEnrollFactor secret c factorType friendlyName es db =
     (if factorType \<noteq> [] \<and> factorType \<noteq> ''totp'' then (Inl (400, ''bad_request''), db)
      else case ListFactors (ca_UserID c) (es 0) db of
          (Inl _, db) \<Rightarrow> (Inl (500, ''internal''), db)
        | (Inr fs, db) \<Rightarrow>
            if sessionAAL c \<noteq> ''aal2'' \<and> hasVerified fs then (Inl (403, ''insufficient_aal''), db)
            else (case secret of
                    None \<Rightarrow> (Inl (500, ''internal''), db)
                  | Some sk \<Rightarrow>
                      (case EnrollFactor (ca_UserID c) friendlyName sk (es 1) db of
                         (Inl _, db) \<Rightarrow> (Inl (500, ''internal''), db)
                       | (Inr i, db) \<Rightarrow> (Inr (i, sk), db))))"

definition handleUnenrollFactor :: "caller \<Rightarrow> string \<Rightarrow> (nat \<Rightarrow> env) \<Rightarrow> authdb \<Rightarrow> (nat \<times> string + string) \<times> authdb" where
  "handleUnenrollFactor c factorID es db =
     (case ListFactors (ca_UserID c) (es 0) db of
        (Inl _, db) \<Rightarrow> (Inl (500, ''internal''), db)
      | (Inr fs, db) \<Rightarrow>
          if list_ex (\<lambda>f. fa_id f = factorID \<and> fa_status f = ''verified'') fs \<and> sessionAAL c \<noteq> ''aal2''
          then (Inl (422, ''insufficient_aal''), db)
          else case DeleteFactorForUser factorID (ca_UserID c) (sessionAAL c = ''aal2'') (es 1) db of
              (Inl err, db) \<Rightarrow> (Inl (if err = ErrNotFound then (404, ''not_found'') else (500, ''internal'')), db)
            | (Inr _, db) \<Rightarrow> (Inr factorID, db))"

end
