(* ===== verification/Auth_Users.thy ===== *)
theory Auth_Users
  imports Auth_MFA "HOL-Library.Word"
begin

text \<open>
  Accounts of \<open>service.go\<close>: the statements that create and update a user, passwords, and the sign-in through an external
  provider. What Postgres does is a parameter where its rules are its own: \<open>lower\<close> (\<open>lower(text)\<close>); so is the comparison of
  a password with its hash. \<open>oauth_no_takeover\<close> shows which account an external sign-in may lead to.
\<close>

section \<open>The statements of CreateUser and UpdateUser\<close>

datatype sqlArg = ArgText string | ArgNull

record CreateUserParams =
  cu_Email :: string
  cu_Password :: string
  cu_AppMetadata :: "string option"
  cu_UserMetadata :: "string option"
  cu_EmailConfirmed :: bool
  cu_Anonymous :: bool
  cu_BanDuration :: string

record UpdateUserParams =
  up_Email :: "string option"
  up_Password :: "string option"
  up_AppMetadata :: "string option"
  up_UserMetadata :: "string option"
  up_EmailConfirmed :: "bool option"
  up_Banned :: "bool option"
  up_BanDuration :: "string option"
  up_ClearEmailVerified :: bool

text \<open>A metadata map is given by its JSON text; a missing one is written as the empty object.\<close>

definition jsonbArg :: "string option \<Rightarrow> string" where
  "jsonbArg m = (case m of None \<Rightarrow> [CHR 0x7B, CHR 0x7D] | Some t \<Rightarrow> t)"

definition userSelectCols :: string where
  "userSelectCols = ''id::text, email, email_verified, email_confirmed_at, last_sign_in_at, banned_until, raw_app_meta_data, '' @
     ''raw_user_meta_data, created_at, updated_at, COALESCE(banned_until > NOW(), false) AS is_banned''"

definition dollar :: "nat \<Rightarrow> string" where
  "dollar n = CHR ''$'' # itoa n"

definition createUserQuery :: "CreateUserParams \<Rightarrow> string \<times> sqlArg list" where
  "createUserQuery p =
     (let args0 = [if cu_Email p = [] then ArgNull else ArgText (cu_Email p), ArgText (cu_Password p),
            ArgText (jsonbArg (cu_UserMetadata p)), ArgText (jsonbArg (cu_AppMetadata p))];
          banned = (cu_BanDuration p \<noteq> [] \<and> cu_BanDuration p \<noteq> ''none'');
          cols = [''email'', ''password_hash'', ''raw_user_meta_data'', ''raw_app_meta_data''] @
            (if cu_Anonymous p then [''is_anonymous''] else []) @
            (if cu_EmailConfirmed p then [''email_verified'', ''email_confirmed_at''] else []) @
            (if banned then [''banned_until''] else []);
          phs = [dollar 1, dollar 2, dollar 3 @ ''::jsonb'', dollar 4 @ ''::jsonb''] @
            (if cu_Anonymous p then [''true''] else []) @
            (if cu_EmailConfirmed p then [''true'', ''NOW()''] else []) @
            (if banned then [''NOW() + '' @ dollar (length args0 + 1) @ ''::interval''] else [])
      in (''INSERT INTO auth.users ('' @ strJoin cols '', '' @ '') VALUES ('' @ strJoin phs '', '' @ '') RETURNING '' @ userSelectCols,
          args0 @ (if banned then [ArgText (cu_BanDuration p)] else [])))"

text \<open>The set clauses and arguments so far, and the number of the next placeholder.\<close>

type_synonym sets = "string list \<times> sqlArg list \<times> nat"

definition addSet :: "string \<Rightarrow> string \<Rightarrow> string \<Rightarrow> sets \<Rightarrow> sets" where
  "addSet pre post v st = (case st of (sets, args, i) \<Rightarrow> (sets @ [pre @ dollar i @ post], args @ [ArgText v], i + 1))"

definition addPlain :: "string list \<Rightarrow> sets \<Rightarrow> sets" where
  "addPlain ss st = (case st of (sets, args, i) \<Rightarrow> (sets @ ss, args, i))"

definition updateUserSets :: "UpdateUserParams \<Rightarrow> sets" where
  "updateUserSets p =
     (let s0 = ([''updated_at = NOW()''], [], 1);
          s1 = (case up_Email p of Some e \<Rightarrow> if e \<noteq> [] then addSet ''email = '' [] e s0 else s0 | None \<Rightarrow> s0);
          s2 = (if up_ClearEmailVerified p then addPlain [''email_verified = false'', ''email_confirmed_at = NULL''] s1 else s1);
          s3 = (case up_Password p of Some w \<Rightarrow> if w \<noteq> [] then addSet ''password_hash = '' [] w s2 else s2 | None \<Rightarrow> s2);
          s4 = (if up_EmailConfirmed p = Some True then addPlain [''email_verified = true'', ''email_confirmed_at = NOW()''] s3 else s3);
          s5 = (case up_UserMetadata p of Some m \<Rightarrow> addSet ''raw_user_meta_data = raw_user_meta_data || '' ''::jsonb'' m s4 | None \<Rightarrow> s4);
          s6 = (case up_AppMetadata p of Some m \<Rightarrow> addSet ''raw_app_meta_data = raw_app_meta_data || '' ''::jsonb'' m s5 | None \<Rightarrow> s5);
          s7 = (case up_Banned p of Some b \<Rightarrow>
                  addPlain [if b then ''banned_until = '' @ [CHR 0x27] @ ''infinity'' @ [CHR 0x27] @ ''::timestamptz'' else ''banned_until = NULL''] s6
                | None \<Rightarrow> s6)
      in (case up_BanDuration p of None \<Rightarrow> s7
          | Some d \<Rightarrow> if d = ''none'' then addPlain [''banned_until = NULL''] s7 else addSet ''banned_until = NOW() + '' ''::interval'' d s7))"

definition updateUserQuery :: "string \<Rightarrow> UpdateUserParams \<Rightarrow> string \<times> sqlArg list" where
  "updateUserQuery uid p =
     (case updateUserSets p of (sets, args, i) \<Rightarrow>
       (''UPDATE auth.users SET '' @ strJoin sets '', '' @ '' WHERE id = '' @ dollar i @ ''::uuid RETURNING '' @ userSelectCols,
        args @ [ArgText uid]))"

text \<open>The page a listing reads: its size and offset. The product wraps around at 64 bits.\<close>

definition listPage :: "int \<Rightarrow> int \<Rightarrow> int \<times> int" where
  "listPage page0 perPage0 =
     (let page = (if page0 < 1 then 1 else page0);
          perPage = (if perPage0 < 1 \<or> 1000 < perPage0 then 50 else perPage0)
      in (perPage, sint (word_of_int ((page - 1) * perPage) :: 64 word)))"

section \<open>Users\<close>

definition userByEmail :: "string \<Rightarrow> authdb \<Rightarrow> userRow option" where
  "userByEmail email db = find (\<lambda>u. u_email u = Some email) (au_users db)"

definition readUser :: "string \<Rightarrow> (authdb \<Rightarrow> userRow option) \<Rightarrow> (env \<Rightarrow> userRow \<Rightarrow> 'a) \<Rightarrow> 'a authOp" where
  "readUser what q f e db =
     (if en_fails e what then (Inl (AuthDBError what), db)
      else case q db of None \<Rightarrow> (Inl ErrNotFound, db) | Some u \<Rightarrow> (Inr (f e u), db))"

definition GetUserByEmail :: "string \<Rightarrow> userView authOp" where
  "GetUserByEmail email = readUser ''user by email'' (userByEmail email) userView"

definition GetUserIDByEmail :: "string \<Rightarrow> string authOp" where
  "GetUserIDByEmail email = readUser ''id by email'' (userByEmail email) (\<lambda>_. u_id)"

definition GetUserEmail :: "string \<Rightarrow> string authOp" where
  "GetUserEmail uid = readUser ''email'' (findUser uid) (\<lambda>_ u. asText (u_email u))"

definition HasPassword :: "string \<Rightarrow> bool authOp" where
  "HasPassword uid e db =
     (if en_fails e ''password'' then (Inl (AuthDBError ''password''), db)
      else case findUser uid db of None \<Rightarrow> (Inr False, db) | Some u \<Rightarrow> (Inr (asText (u_password u) \<noteq> []), db))"

definition VerifyPassword :: "(string \<Rightarrow> string \<Rightarrow> bool) \<Rightarrow> string \<Rightarrow> string \<Rightarrow> userView authOp" where
  "VerifyPassword check email password e db =
     (case (if en_fails e ''user by email'' then None else userByEmail email db) of
        None \<Rightarrow> (Inl ErrUnauthorized, db)
      | Some u \<Rightarrow>
          if asText (u_password u) = [] then (Inl ErrOAuthOnlyAccount, db)
          else if \<not> check (asText (u_password u)) password then (Inl ErrUnauthorized, db)
          else (Inr (userView e u), db))"

text \<open>Fire and forget: a failure leaves the tables as they are.\<close>

definition touchUser :: "string \<Rightarrow> string \<Rightarrow> (userRow \<Rightarrow> userRow) \<Rightarrow> env \<Rightarrow> authdb \<Rightarrow> authdb" where
  "touchUser what uid f e db =
     (if en_fails e what then db else db\<lparr>au_users := updRows (\<lambda>u. u_id u = uid) f (au_users db)\<rparr>)"

definition RecordSignIn :: "string \<Rightarrow> env \<Rightarrow> authdb \<Rightarrow> authdb" where
  "RecordSignIn uid e = touchUser ''record sign-in'' uid (\<lambda>u. u\<lparr>u_lastSignIn := Some (en_now e), u_updatedAt := en_now e\<rparr>) e"

definition verifiedAt :: "int \<Rightarrow> userRow \<Rightarrow> userRow" where
  "verifiedAt now u = u\<lparr>u_verified := True, u_confirmedAt := Some now, u_updatedAt := now\<rparr>"

definition MarkEmailVerified :: "string \<Rightarrow> env \<Rightarrow> authdb \<Rightarrow> authdb" where
  "MarkEmailVerified uid e = touchUser ''mark verified'' uid (verifiedAt (en_now e)) e"

text \<open>Three clean-ups whose failures are ignored, then the user; what refers to the user goes with it.\<close>

definition DeleteUser :: "string \<Rightarrow> unit authOp" where
  "DeleteUser uid e db =
     (let db1 = (if en_fails e ''delete refresh'' then db else db\<lparr>au_refresh := delRows (\<lambda>r. rt_user r = uid) (au_refresh db)\<rparr>);
          db2 = (if en_fails e ''delete tokens'' then db1 else db1\<lparr>au_otts := delRows (\<lambda>r. ot_user r = uid) (au_otts db1)\<rparr>);
          db3 = (if en_fails e ''delete factors'' then db2 else dropFactors (\<lambda>f. fa_user f = uid) db2) in
      if en_fails e ''delete user'' then (Inl (AuthDBError ''delete user''), db3)
      else if findUser uid db3 = None then (Inl ErrNotFound, db3)
      else (Inr (), (dropFactors (\<lambda>f. fa_user f = uid) db3)\<lparr>au_users := delRows (\<lambda>u. u_id u = uid) (au_users db3),
        au_identities := delRows (\<lambda>i. id_user i = uid) (au_identities db3),
        au_refresh := delRows (\<lambda>r. rt_user r = uid) (au_refresh db3), au_otts := delRows (\<lambda>r. ot_user r = uid) (au_otts db3)\<rparr>))"

section \<open>What the statements do\<close>

text \<open>
  \<open>interval\<close> is the cast of a text to an interval, which may fail, and \<open>merge\<close> the concatenation of two JSON
  documents. A violation of the unique index is reported with its SQLSTATE.
\<close>

definition uniqueViolation :: auth_error where
  "uniqueViolation = AuthDBError ''23505''"

definition isDuplicateKeyErr :: "auth_error \<Rightarrow> bool" where
  "isDuplicateKeyErr err =
     (case err of AuthDBError m \<Rightarrow> strContains m ''duplicate key'' \<or> strContains m ''23505'' | _ \<Rightarrow> False)"

definition emailTaken :: "string \<Rightarrow> string \<Rightarrow> authdb \<Rightarrow> bool" where
  "emailTaken uid email db = list_ex (\<lambda>u. u_email u = Some email \<and> u_id u \<noteq> uid) (au_users db)"

definition CreateUser :: "(string \<Rightarrow> int option) \<Rightarrow> CreateUserParams \<Rightarrow> userView authOp" where
  "CreateUser interval p e db =
     (let ban = (if cu_BanDuration p = [] \<or> cu_BanDuration p = ''none'' then Some None
                 else map_option (\<lambda>d. Some (Ts (en_now e + d))) (interval (cu_BanDuration p))) in
      case ban of
        None \<Rightarrow> (Inl (AuthDBError ''interval''), db)
      | Some until \<Rightarrow>
          if en_fails e ''create user'' then (Inl (AuthDBError ''create user''), db)
          else if findUser (en_uuid e) db \<noteq> None \<or> cu_Email p \<noteq> [] \<and> emailTaken (en_uuid e) (cu_Email p) db
          then (Inl uniqueViolation, db)
          else let u = \<lparr>u_id = en_uuid e, u_email = (if cu_Email p = [] then None else Some (cu_Email p)),
                 u_password = Some (cu_Password p), u_verified = cu_EmailConfirmed p,
                 u_confirmedAt = (if cu_EmailConfirmed p then Some (en_now e) else None), u_lastSignIn = None,
                 u_bannedUntil = until, u_appMeta = jsonbArg (cu_AppMetadata p), u_userMeta = jsonbArg (cu_UserMetadata p),
                 u_anonymous = cu_Anonymous p, u_createdAt = en_now e, u_updatedAt = en_now e\<rparr>
            in (Inr (userView e u), db\<lparr>au_users := au_users db @ [u]\<rparr>))"

text \<open>The update of one row. A column set twice in one statement is an error.\<close>

definition updatedUser :: "(string \<Rightarrow> string \<Rightarrow> string) \<Rightarrow> int \<Rightarrow> timestamp option option \<Rightarrow> UpdateUserParams \<Rightarrow> userRow \<Rightarrow> userRow" where
  "updatedUser merge now until p u =
     u\<lparr>u_email := (case up_Email p of Some a \<Rightarrow> if a \<noteq> [] then Some a else u_email u | None \<Rightarrow> u_email u),
       u_verified := (if up_ClearEmailVerified p then False else if up_EmailConfirmed p = Some True then True else u_verified u),
       u_confirmedAt := (if up_ClearEmailVerified p then None
         else if up_EmailConfirmed p = Some True then Some now else u_confirmedAt u),
       u_password := (case up_Password p of Some w \<Rightarrow> if w \<noteq> [] then Some w else u_password u | None \<Rightarrow> u_password u),
       u_userMeta := (case up_UserMetadata p of Some m \<Rightarrow> merge (u_userMeta u) m | None \<Rightarrow> u_userMeta u),
       u_appMeta := (case up_AppMetadata p of Some m \<Rightarrow> merge (u_appMeta u) m | None \<Rightarrow> u_appMeta u),
       u_bannedUntil := (case until of Some t \<Rightarrow> t | None \<Rightarrow> u_bannedUntil u), u_updatedAt := now\<rparr>"

definition UpdateUser ::
    "(string \<Rightarrow> int option) \<Rightarrow> (string \<Rightarrow> string \<Rightarrow> string) \<Rightarrow> string \<Rightarrow> UpdateUserParams \<Rightarrow> userView authOp" where
  "UpdateUser interval merge uid p e db =
     (let twice = (up_ClearEmailVerified p \<and> up_EmailConfirmed p = Some True \<or> up_Banned p \<noteq> None \<and> up_BanDuration p \<noteq> None);
          until = (case up_BanDuration p of
              Some d \<Rightarrow> if d = ''none'' then Some (Some None) else map_option (\<lambda>i. Some (Some (Ts (en_now e + i)))) (interval d)
            | None \<Rightarrow> Some (map_option (\<lambda>b. if b then Some TsInfinity else None) (up_Banned p))) in
      case until of
        None \<Rightarrow> (Inl (AuthDBError ''interval''), db)
      | Some t \<Rightarrow>
          if en_fails e ''update user'' \<or> twice then (Inl (AuthDBError ''update user''), db)
          else if findUser uid db = None then (Inl ErrNotFound, db)
          else if (case up_Email p of Some a \<Rightarrow> a \<noteq> [] \<and> emailTaken uid a db | None \<Rightarrow> False) then (Inl uniqueViolation, db)
          else let db' = db\<lparr>au_users := updRows (\<lambda>u. u_id u = uid) (updatedUser merge (en_now e) t p) (au_users db)\<rparr>
            in (case findUser uid db' of None \<Rightarrow> (Inl ErrNotFound, db') | Some u \<Rightarrow> (Inr (userView e u), db')))"

text \<open>A page of the users, latest first, and the number of all of them, which comes with each row.\<close>

definition ListUsers :: "int \<Rightarrow> int \<Rightarrow> (userView list \<times> int) authOp" where
  "ListUsers page perPage e db =
     (case listPage page perPage of (limit, offset) \<Rightarrow>
       if en_fails e ''list users'' \<or> offset < 0 then (Inl (AuthDBError ''list users''), db)
       else let rows = take (nat limit) (drop (nat offset) (rev (sort_key u_createdAt (au_users db)))) in
         (Inr (map (userView e) rows, if rows = [] then 0 else int (length (au_users db))), db))"

section \<open>External providers\<close>

definition identityOf :: "string \<Rightarrow> string \<Rightarrow> identityRow \<Rightarrow> bool" where
  "identityOf provider puid i = (id_provider i = provider \<and> id_providerUser i = puid)"

definition userByIdentity :: "string \<Rightarrow> string \<Rightarrow> authdb \<Rightarrow> userRow option" where
  "userByIdentity provider puid db =
     (case find (identityOf provider puid) (au_identities db) of None \<Rightarrow> None | Some i \<Rightarrow> findUser (id_user i) db)"

text \<open>Someone can already sign in to the account.\<close>

definition claimed :: "authdb \<Rightarrow> userRow \<Rightarrow> bool" where
  "claimed db u = (asText (u_password u) \<noteq> [] \<or> list_ex (\<lambda>i. id_user i = u_id u) (au_identities db) \<or>
     list_ex (\<lambda>r. rt_user r = u_id u) (au_refresh db) \<or> u_anonymous u)"

text \<open>\<open>WHERE lower(email) = lower($1) ORDER BY email_verified DESC, created_at LIMIT 1\<close>\<close>

definition oauthByEmail :: "(string \<Rightarrow> string) \<Rightarrow> string \<Rightarrow> authdb \<Rightarrow> userRow option" where
  "oauthByEmail lower email db =
     (case sort_key (\<lambda>u. \<not> u_verified u) (sort_key u_createdAt
        (filter (\<lambda>u. map_option lower (u_email u) = Some (lower email)) (au_users db))) of
        [] \<Rightarrow> None | u # _ \<Rightarrow> Some u)"

definition oauthMeta :: "(OAuthLogin \<Rightarrow> string \<times> string) \<Rightarrow> env \<Rightarrow> OAuthLogin \<Rightarrow> userRow" where
  "oauthMeta meta e inp = \<lparr>u_id = en_uuid e, u_email = Some (ol_Email inp), u_password = None, u_verified = True,
     u_confirmedAt = Some (en_now e), u_lastSignIn = None, u_bannedUntil = None, u_appMeta = snd (meta inp),
     u_userMeta = fst (meta inp), u_anonymous = False, u_createdAt = en_now e, u_updatedAt = en_now e\<rparr>"

definition judgeMatch :: "userRow \<Rightarrow> userView authOp" where
  "judgeMatch u e db =
     (if u_verified u then (Inr (userView e u), db)
      else if claimed db u then (Inl ErrOAuthLinkRefused, db)
      else if en_fails e ''verify user'' then (Inl (AuthDBError ''verify user''), db)
      else (Inr (userView e (verifiedAt (en_now e) u)),
        db\<lparr>au_users := updRows (\<lambda>v. u_id v = u_id u) (verifiedAt (en_now e)) (au_users db)\<rparr>))"

text \<open>\<open>meta\<close>: the two metadata documents of a new account, made by the JSON package from the login.\<close>

definition linkOrCreateOAuthUser ::
    "(string \<Rightarrow> string) \<Rightarrow> (OAuthLogin \<Rightarrow> string \<times> string) \<Rightarrow> OAuthLogin \<Rightarrow> userView authOp" where
  "linkOrCreateOAuthUser lower meta inp e db =
     (if en_fails e ''user by email'' then (Inl (AuthDBError ''user by email''), db)
      else case oauthByEmail lower (ol_Email inp) db of
          Some u \<Rightarrow> judgeMatch u e db
        | None \<Rightarrow>
            if \<not> ol_AllowSignup inp then (Inl ErrSignupDisabled, db)
            else if en_fails e ''insert user'' \<or> userByEmail (ol_Email inp) db \<noteq> None \<or> findUser (en_uuid e) db \<noteq> None
            then (case (if en_fails e ''user by email again'' then None else oauthByEmail lower (ol_Email inp) db) of
                    None \<Rightarrow> (Inl (AuthDBError ''create or find user''), db)
                  | Some u \<Rightarrow> judgeMatch u e db)
            else (let u = oauthMeta meta e inp in (Inr (userView e u), db\<lparr>au_users := au_users db @ [u]\<rparr>)))"

definition recordIdentity :: "string \<Rightarrow> OAuthLogin \<Rightarrow> env \<Rightarrow> authdb \<Rightarrow> authdb" where
  "recordIdentity uid inp e db =
     (let P = identityOf (ol_Provider inp) (ol_ProviderUserID inp) in
      if en_fails e ''identity'' \<or> findUser uid db = None then db
      else if list_ex P (au_identities db) then
        db\<lparr>au_identities := updRows P (\<lambda>i. i\<lparr>id_email := Some (ol_Email inp), id_lastSignIn := Some (en_now e),
          id_updatedAt := en_now e\<rparr>) (au_identities db)\<rparr>
      else db\<lparr>au_identities := au_identities db @ [\<lparr>id_id = au_seq db, id_user = uid, id_provider = ol_Provider inp,
          id_providerUser = ol_ProviderUserID inp, id_email = Some (ol_Email inp), id_lastSignIn = Some (en_now e),
          id_createdAt = en_now e, id_updatedAt = en_now e\<rparr>], au_seq := au_seq db + 1\<rparr>)"

definition UpsertOAuthUser ::
    "(string \<Rightarrow> string) \<Rightarrow> (OAuthLogin \<Rightarrow> string \<times> string) \<Rightarrow> OAuthLogin \<Rightarrow> userView authOp" where
  "UpsertOAuthUser lower meta inp e db =
     (if ol_Provider inp = [] \<or> ol_ProviderUserID inp = [] then
        (Inl (AuthDBError ''oauth login needs a provider and provider user id''), db)
      else if en_fails e ''user by identity'' then (Inl (AuthDBError ''user by identity''), db)
      else case (case userByIdentity (ol_Provider inp) (ol_ProviderUserID inp) db of
                   Some u \<Rightarrow> (Inr (userView e u), db)
                 | None \<Rightarrow>
                     if \<not> ol_EmailVerified inp \<or> ol_Email inp = [] then (Inl ErrProviderEmailUnverified, db)
                     else linkOrCreateOAuthUser lower meta inp e db) of
          (Inl err, db') \<Rightarrow> (Inl err, db')
        | (Inr v, db') \<Rightarrow> (Inr v, recordIdentity (u_id (fst v)) inp e (RecordSignIn (u_id (fst v)) e db')))"

definition LinkIdentity :: "string \<Rightarrow> string \<Rightarrow> string \<Rightarrow> string \<Rightarrow> env \<Rightarrow> authdb \<Rightarrow> authdb" where
  "LinkIdentity uid provider puid email e db =
     (if en_fails e ''identity'' \<or> findUser uid db = None \<or> list_ex (identityOf provider puid) (au_identities db) then db
      else db\<lparr>au_identities := au_identities db @ [\<lparr>id_id = au_seq db, id_user = uid, id_provider = provider,
          id_providerUser = puid, id_email = Some email, id_lastSignIn = Some (en_now e), id_createdAt = en_now e,
          id_updatedAt = en_now e\<rparr>], au_seq := au_seq db + 1\<rparr>)"

definition ListIdentities :: "string \<Rightarrow> identityRow list authOp" where
  "ListIdentities uid e db =
     (if en_fails e ''identities'' then (Inl (AuthDBError ''identities''), db)
      else (Inr (sort_key id_createdAt (filter (\<lambda>i. id_user i = uid) (au_identities db))), db))"

definition CountIdentities :: "string \<Rightarrow> nat authOp" where
  "CountIdentities uid e db =
     (if en_fails e ''identities'' then (Inl (AuthDBError ''identities''), db)
      else (Inr (length (filter (\<lambda>i. id_user i = uid) (au_identities db))), db))"

text \<open>
  The statement compares the column \<open>id\<close>, a \<open>BIGSERIAL\<close>, with a parameter cast to \<open>uuid\<close>. Postgres has an equality operator
  for a column and a \<open>uuid\<close> only when the column is one, so the statement is an error (\<open>DeleteIdentityByID_fails\<close>).
\<close>

definition identityIdType :: string where
  "identityIdType = ''BIGSERIAL''"

definition DeleteIdentityByID :: "string \<Rightarrow> string \<Rightarrow> unit authOp" where
  "DeleteIdentityByID ident uid e db =
     (let P = (\<lambda>i. itoa (id_id i) = ident \<and> id_user i = uid) in
      if identityIdType \<noteq> ''UUID'' \<or> en_fails e ''delete identity'' then (Inl (AuthDBError ''delete identity''), db)
      else if \<not> list_ex P (au_identities db) then (Inl ErrNotFound, db)
      else (Inr (), db\<lparr>au_identities := delRows P (au_identities db)\<rparr>))"

lemma DeleteIdentityByID_fails: "DeleteIdentityByID ident uid e db = (Inl (AuthDBError ''delete identity''), db)"
  by (simp add: DeleteIdentityByID_def identityIdType_def)

end
