(* ===== verification/Auth_Flows.thy ===== *)
theory Auth_Flows
  imports Auth_Users Sha256
begin

text \<open>
  The table \<open>auth.flow_state\<close> (\<open>service.go\<close>): the state of a sign-in through a provider, and the codes of the PKCE
  exchange with the check of their verifier (\<open>internal/adapter/http/oidc.go\<close>). \<open>verifyCodeChallenge_S256\<close> states that
  check against RFC 7636: the challenge is the unpadded URL-safe base64 text of the SHA-256 of the verifier.
\<close>

section \<open>Base64\<close>

definition base64Char :: "nat \<Rightarrow> char" where
  "base64Char n =
     (if n < 26 then char_of (65 + n) else if n < 52 then char_of (71 + n) else if n < 62 then char_of (n - 4)
      else if n = 62 then CHR ''-'' else CHR ''_'')"

text \<open>The digits of \<open>k\<close> six-bit groups, the highest first.\<close>

definition base64Digits :: "nat \<Rightarrow> nat \<Rightarrow> string" where
  "base64Digits k n = map (\<lambda>i. base64Char (n div 64 ^ i mod 64)) (rev [0..<k])"

text \<open>\<open>base64.RawURLEncoding.EncodeToString\<close>: three bytes give four digits; no padding.\<close>

fun base64RawURL :: "string \<Rightarrow> string" where
  "base64RawURL (a # b # c # s) = base64Digits 4 (of_char a * 65536 + of_char b * 256 + of_char c) @ base64RawURL s"
| "base64RawURL [a, b] = base64Digits 3 (of_char a * 1024 + of_char b * 4)"
| "base64RawURL [a] = base64Digits 2 (of_char a * 16)"
| "base64RawURL [] = []"

section \<open>PKCE\<close>

definition verifyCodeChallenge :: "string \<Rightarrow> string \<Rightarrow> string \<Rightarrow> bool" where
  "verifyCodeChallenge method verifier challenge =
     (if toUpper method = ''S256'' \<or> toUpper method = [] then base64RawURL (sha256 verifier) = challenge
      else if toUpper method = ''PLAIN'' then verifier = challenge
      else False)"

definition pkceRow :: "string \<Rightarrow> flowRow \<Rightarrow> bool" where
  "pkceRow authCode f = (fl_code f = authCode \<and> fl_provider f = ''pkce'')"

text \<open>The challenge, its method and the user.\<close>

definition GetPKCEFlowState :: "string \<Rightarrow> (string \<times> string \<times> string) authOp" where
  "GetPKCEFlowState authCode e db =
     (case (if en_fails e ''select flow'' then None
            else find (\<lambda>f. pkceRow authCode f \<and> en_now e - 5 * 60 * sec < fl_issued f) (au_flows db)) of
        None \<Rightarrow> (Inl ErrInvalidToken, db)
      | Some f \<Rightarrow> (Inr (asText (fl_challenge f), asText (fl_method f), asText (fl_user f)), db))"

definition DeletePKCEFlowState :: "string \<Rightarrow> unit authOp" where
  "DeletePKCEFlowState authCode e db =
     (if en_fails e ''delete flow'' then (Inl (AuthDBError ''delete flow''), db)
      else (Inr (), db\<lparr>au_flows := delRows (pkceRow authCode) (au_flows db)\<rparr>))"

text \<open>The code is unique in the table.\<close>

definition insertFlow :: "flowRow \<Rightarrow> unit authOp" where
  "insertFlow f e db =
     (if en_fails e ''insert flow'' \<or> fl_code f \<in> fl_code ` set (au_flows db) then (Inl (AuthDBError ''insert flow''), db)
      else (Inr (), db\<lparr>au_flows := au_flows db @ [f]\<rparr>))"

definition CreatePKCEFlowState :: "string \<Rightarrow> string \<Rightarrow> string \<Rightarrow> string \<Rightarrow> unit authOp" where
  "CreatePKCEFlowState authCode userID challenge method0 e db =
     (let method = (if method0 = [] then ''S256'' else method0) in
      insertFlow \<lparr>fl_code = authCode, fl_user = Some userID, fl_challenge = Some challenge, fl_method = Some method,
        fl_provider = ''pkce'', fl_redirect = None, fl_linking = None, fl_issued = en_now e\<rparr> e db)"

section \<open>The state of a provider sign-in\<close>

text \<open>\<open>stale\<close>: the old rows the clean-up picks, at most a hundred; the table decides which.\<close>

definition CreateOAuthFlowState ::
    "(flowRow \<Rightarrow> bool) \<Rightarrow> string \<Rightarrow> string \<Rightarrow> string \<Rightarrow> string \<Rightarrow> string \<Rightarrow> unit authOp" where
  "CreateOAuthFlowState stale state challenge method0 redirectTo linkingUserID e db =
     (let method = (if method0 = [] then ''S256'' else method0);
          row = \<lparr>fl_code = state, fl_user = None, fl_challenge = (if challenge = [] then None else Some challenge),
            fl_method = (if challenge = [] then None else Some method), fl_provider = ''oauth'',
            fl_redirect = Some redirectTo, fl_linking = (if linkingUserID = [] then None else Some linkingUserID),
            fl_issued = en_now e\<rparr> in
      case insertFlow row e db of
        (Inl err, db') \<Rightarrow> (Inl err, db')
      | (Inr _, db') \<Rightarrow>
          (Inr (), if en_fails e ''trim flows'' then db'
                   else db'\<lparr>au_flows := delRows (\<lambda>f. stale f \<and> fl_issued f < en_now e - 24 * 3600 * sec) (au_flows db')\<rparr>))"

definition ConsumeOAuthFlowState :: "string \<Rightarrow> FlowState authOp" where
  "ConsumeOAuthFlowState state e db =
     (let P = (\<lambda>f. fl_code f = state \<and> fl_provider f = ''oauth'') in
      if en_fails e ''consume flow'' then (Inl ErrNotFound, db)
      else case find P (au_flows db) of
          None \<Rightarrow> (Inl ErrNotFound, db)
        | Some f \<Rightarrow>
            (if en_now e - 10 * 60 * sec < fl_issued f
             then Inr \<lparr>fs_CodeChallenge = asText (fl_challenge f), fs_CodeChallengeMethod = asText (fl_method f),
                    fs_RedirectTo = asText (fl_redirect f), fs_LinkingUserID = asText (fl_linking f)\<rparr>
             else Inl ErrNotFound,
             db\<lparr>au_flows := delRows P (au_flows db)\<rparr>))"

section \<open>Laws\<close>

lemma base64RawURL_length: "length (base64RawURL s) = (4 * length s + 2) div 3"
  by (induction s rule: base64RawURL.induct) (auto simp: base64Digits_def)

lemma verifyCodeChallenge_S256:
  "toUpper method = ''S256'' \<or> method = [] \<Longrightarrow>
     verifyCodeChallenge method verifier challenge \<longleftrightarrow> challenge = base64RawURL (sha256 verifier)"
  by (auto simp: verifyCodeChallenge_def)

lemma ConsumeOAuthFlowState_once:
  "ConsumeOAuthFlowState st e db = (Inr fs, db') \<Longrightarrow> \<exists>err. ConsumeOAuthFlowState st e' db' = (Inl err, db')"
proof -
  assume c: "ConsumeOAuthFlowState st e db = (Inr fs, db')"
  then obtain f where "db' = db\<lparr>au_flows := delRows (\<lambda>f. fl_code f = st \<and> fl_provider f = ''oauth'') (au_flows db)\<rparr>"
    by (auto simp: ConsumeOAuthFlowState_def Let_def split: if_splits option.splits)
  then have "find (\<lambda>f. fl_code f = st \<and> fl_provider f = ''oauth'') (au_flows db') = None"
    by (auto simp: find_None_iff)
  then show ?thesis by (auto simp: ConsumeOAuthFlowState_def Let_def)
qed

lemma GetPKCEFlowState_ok:
  "GetPKCEFlowState code e db = (Inr (ch, m, u), db') \<Longrightarrow>
     db' = db \<and> (\<exists>f \<in> set (au_flows db). pkceRow code f \<and> en_now e - 5 * 60 * sec < fl_issued f \<and>
       asText (fl_challenge f) = ch \<and> asText (fl_method f) = m \<and> asText (fl_user f) = u)"
  by (auto simp: GetPKCEFlowState_def split: option.splits if_splits dest!: find_SomeD)

end
