(* ===== verification/Auth_OTP.thy ===== *)
theory Auth_OTP
  imports Auth_Store
begin

text \<open>
  One-time tokens of \<open>service.go\<close>: mailed links and six-digit codes. \<open>VerifyOTP\<close> is not a transaction, so it is a
  program of single statements (\<open>otpStep\<close>), and the laws hold for any number of requests whose statements
  interleave: a token is accepted once (\<open>otp_single_use\<close>), and a code is compared at most five times
  (\<open>otp_guesses_bounded\<close>).
\<close>

section \<open>Issuing and reading\<close>

definition maxOTPAttempts :: int where "maxOTPAttempts = 5"

text \<open>The insert both kinds of token share; the columns are checked as the table declares them.\<close>

definition insertOTT :: "string \<Rightarrow> string \<Rightarrow> string option \<Rightarrow> string option \<Rightarrow> string \<Rightarrow> int \<Rightarrow> unit authOp" where
  "insertOTT userID token code email purpose expiresAt e db =
     (if en_fails e ''insert one-time token'' \<or> token \<in> ot_token ` set (au_otts db) \<or> findUser userID db = None
      then (Inl (AuthDBError ''insert one-time token''), db)
      else (Inr (), db\<lparr>au_otts := au_otts db @
        [\<lparr>ot_id = au_seq db, ot_user = userID, ot_token = token, ot_purpose = purpose, ot_email = email, ot_code = code,
          ot_attempts = 0, ot_expires = expiresAt * sec, ot_created = en_now e\<rparr>],
        au_seq := au_seq db + 1\<rparr>))"

definition CreateOneTimeToken :: "string \<Rightarrow> string \<Rightarrow> string \<Rightarrow> int \<Rightarrow> unit authOp" where
  "CreateOneTimeToken userID token purpose expiresAt = insertOTT userID token None None purpose expiresAt"

definition CreateOTPCode :: "string \<Rightarrow> string \<Rightarrow> string \<Rightarrow> string \<Rightarrow> string \<Rightarrow> int \<Rightarrow> unit authOp" where
  "CreateOTPCode userID token code email purpose expiresAt = insertOTT userID token (Some code) (Some email) purpose expiresAt"

definition deleteOTTs :: "(ottRow \<Rightarrow> bool) \<Rightarrow> authdb \<Rightarrow> authdb" where
  "deleteOTTs P db = db\<lparr>au_otts := delRows P (au_otts db)\<rparr>"

definition DeleteUserTokensByPurpose :: "string \<Rightarrow> string \<Rightarrow> unit authOp" where
  "DeleteUserTokensByPurpose userID purpose e db =
     (if en_fails e ''delete by purpose'' then (Inl (AuthDBError ''delete by purpose''), db)
      else (Inr (), deleteOTTs (\<lambda>r. ot_user r = userID \<and> ot_purpose r = purpose) db))"

definition DeleteOneTimeToken :: "string \<Rightarrow> unit authOp" where
  "DeleteOneTimeToken token e db =
     (if en_fails e ''delete token'' then (Inl (AuthDBError ''delete token''), db)
      else if token \<notin> ot_token ` set (au_otts db) then (Inl ErrInvalidToken, db)
      else (Inr (), deleteOTTs (\<lambda>r. ot_token r = token) db))"

definition RecentOTPSent :: "string \<Rightarrow> string \<Rightarrow> int \<Rightarrow> bool authOp" where
  "RecentOTPSent userID purpose within e db =
     (if en_fails e ''recent'' then (Inl (AuthDBError ''recent''), db)
      else (Inr (\<exists>r \<in> set (au_otts db). ot_user r = userID \<and> ot_purpose r = purpose \<and> en_now e - within < ot_created r), db))"

definition PeekOneTimeToken :: "string \<Rightarrow> OTPRow authOp" where
  "PeekOneTimeToken token e db =
     (case (if en_fails e ''select token'' then None
            else find (\<lambda>r. ot_token r = token \<and> ot_attempts r < maxOTPAttempts) (au_otts db)) of
        None \<Rightarrow> (Inl ErrInvalidToken, db)
      | Some r \<Rightarrow>
          if ot_expires r < en_clock e then
            (Inl ErrTokenExpired, if en_fails e ''delete token'' then db else deleteOTTs (\<lambda>r. ot_token r = token) db)
          else (Inr \<lparr>otp_UserID = ot_user r, otp_Purpose = ot_purpose r\<rparr>, db))"

definition purposeAllowed :: "string \<Rightarrow> string list \<Rightarrow> bool" where
  "purposeAllowed purpose allowed = (purpose = [] \<or> allowed = [] \<or> purpose \<in> set allowed)"

section \<open>Verifying, statement by statement\<close>

text \<open>
  A request starts with what the client sent (\<open>OtpStart\<close>: token, address, accepted purposes), then holds the row it
  found, and ends with a result. The two other states are the deletions of an expired row, whose outcome is ignored.
\<close>

datatype otpProc =
    OtpStart string string "string list"
  | OtpFound ottRow "string list"
  | OtpConsume ottRow
  | OtpDropId nat
  | OtpDropToken string
  | OtpDone "auth_error + OTPRow"

definition isNumericCode :: "string \<Rightarrow> bool" where
  "isNumericCode token = (length token = 6 \<and> list_all isDigit token)"

text \<open>The row the code lookup addresses: the newest one of the address that carries a code.\<close>

definition codeRow :: "string \<Rightarrow> authdb \<Rightarrow> ottRow option" where
  "codeRow email db = latestBy ot_created (\<lambda>r. ot_email r = Some email \<and> ot_code r \<noteq> None) (au_otts db)"

definition spendAttempt :: "nat \<Rightarrow> authdb \<Rightarrow> authdb" where
  "spendAttempt i db = db\<lparr>au_otts := updRows (\<lambda>r. ot_id r = i) (\<lambda>r. r\<lparr>ot_attempts := ot_attempts r + 1\<rparr>) (au_otts db)\<rparr>"

definition otpLookup :: "string \<Rightarrow> string \<Rightarrow> string list \<Rightarrow> env \<Rightarrow> authdb \<Rightarrow> otpProc \<times> authdb" where
  "otpLookup token email allowed e db =
     (if isNumericCode token \<and> email \<noteq> [] then
        (case codeRow email db of
           Some r \<Rightarrow>
             if en_fails e ''spend attempt'' \<or> \<not> ot_attempts r < maxOTPAttempts then (OtpDone (Inl ErrInvalidToken), db)
             else (if ot_expires r < en_clock e then OtpDropId (ot_id r)
                   else if (case ot_code r of None \<Rightarrow> [] | Some c \<Rightarrow> c) \<noteq> token then OtpDone (Inl ErrInvalidToken)
                   else OtpFound (r\<lparr>ot_attempts := ot_attempts r + 1\<rparr>) allowed, spendAttempt (ot_id r) db)
         | None \<Rightarrow> (OtpDone (Inl ErrInvalidToken), db))
      else
        (case find (\<lambda>r. ot_token r = token \<and> ot_attempts r < maxOTPAttempts) (au_otts db) of
           Some r \<Rightarrow> (if en_fails e ''select token'' then OtpDone (Inl ErrInvalidToken) else OtpFound r allowed, db)
         | None \<Rightarrow> (OtpDone (Inl ErrInvalidToken), db)))"

fun otpStep :: "env \<Rightarrow> otpProc \<Rightarrow> authdb \<Rightarrow> otpProc \<times> authdb" where
  "otpStep e (OtpStart token email allowed) db = otpLookup token email allowed e db"
| "otpStep e (OtpFound r allowed) db =
     (if ot_expires r < en_clock e then OtpDropToken (ot_token r)
      else if \<not> purposeAllowed (ot_purpose r) allowed then OtpDone (Inl ErrPurposeMismatch)
      else OtpConsume r, db)"
| "otpStep e (OtpConsume r) db =
     (if en_fails e ''delete token'' \<or> ot_token r \<notin> ot_token ` set (au_otts db) then (OtpDone (Inl ErrInvalidToken), db)
      else (OtpDone (Inr \<lparr>otp_UserID = ot_user r, otp_Purpose = ot_purpose r\<rparr>),
            deleteOTTs (\<lambda>q. ot_token q = ot_token r) db))"
| "otpStep e (OtpDropId i) db =
     (OtpDone (Inl ErrTokenExpired), if en_fails e ''delete token'' then db else deleteOTTs (\<lambda>r. ot_id r = i) db)"
| "otpStep e (OtpDropToken t) db =
     (OtpDone (Inl ErrTokenExpired), if en_fails e ''delete token'' then db else deleteOTTs (\<lambda>r. ot_token r = t) db)"
| "otpStep e (OtpDone r) db = (OtpDone r, db)"

text \<open>One request alone is done after three steps.\<close>

definition VerifyOTP :: "string \<Rightarrow> string \<Rightarrow> string list \<Rightarrow> OTPRow authOp" where
  "VerifyOTP token email allowed e db =
     (case ((\<lambda>(p, d). otpStep e p d) ^^ 3) (OtpStart token email allowed, db) of
        (OtpDone r, db') \<Rightarrow> (r, db')
      | (_, db') \<Rightarrow> (Inl ErrInvalidToken, db'))"

lemma VerifyOTP_done: "\<exists>r. fst (((\<lambda>(p, d). otpStep e p d) ^^ 3) (OtpStart token email allowed, db)) = OtpDone r"
proof -
  obtain p1 d1 where 1: "otpLookup token email allowed e db = (p1, d1)" by (cases "otpLookup token email allowed e db")
  then have "p1 = OtpFound r a \<or> p1 = OtpDropId i \<or> p1 = OtpDone x \<Longrightarrow> True" for r a i x by simp
  have "(\<exists>x. p1 = OtpDone x) \<or> (\<exists>i. p1 = OtpDropId i) \<or> (\<exists>r a. p1 = OtpFound r a)"
    using 1 by (auto simp: otpLookup_def split: if_splits option.splits)
  then show ?thesis using 1 by (elim disjE exE) (simp_all add: eval_nat_numeral)
qed

section \<open>Concurrent requests\<close>

text \<open>
  The state: the tables, the requests by number, the tokens ever issued, the tokens accepted, and for each comparison of
  a code the row it was compared with. A step is one statement of one request, a new request, or another operation on
  the table. A new token is fresh, and so is the number of its row, which comes from a sequence.
\<close>

record otpState =
  os_db :: authdb
  os_procs :: "nat \<Rightarrow> otpProc option"
  os_used :: "string set"
  os_accepted :: "string list"
  os_guesses :: "nat list"

definition acceptedBy :: "env \<Rightarrow> otpProc \<Rightarrow> authdb \<Rightarrow> string list" where
  "acceptedBy e p db =
     (case (p, fst (otpStep e p db)) of (OtpConsume r, OtpDone (Inr _)) \<Rightarrow> [ot_token r] | _ \<Rightarrow> [])"

definition guessBy :: "env \<Rightarrow> otpProc \<Rightarrow> authdb \<Rightarrow> nat list" where
  "guessBy e p db =
     (case p of
        OtpStart token email allowed \<Rightarrow>
          if isNumericCode token \<and> email \<noteq> [] \<and> \<not> en_fails e ''spend attempt'' then
            (case codeRow email db of
               Some r \<Rightarrow> if ot_attempts r < maxOTPAttempts \<and> \<not> ot_expires r < en_clock e then [ot_id r] else []
             | None \<Rightarrow> [])
          else []
      | _ \<Rightarrow> [])"

inductive otpMove :: "otpState \<Rightarrow> otpState \<Rightarrow> bool" where
  request: "os_procs s i = None \<Longrightarrow>
    otpMove s (s\<lparr>os_procs := (os_procs s)(i \<mapsto> OtpStart token email allowed)\<rparr>)"
| statement: "os_procs s i = Some p \<Longrightarrow> otpStep e p (os_db s) = (p', db) \<Longrightarrow>
    otpMove s (s\<lparr>os_db := db, os_procs := (os_procs s)(i \<mapsto> p'),
      os_accepted := acceptedBy e p (os_db s) @ os_accepted s, os_guesses := guessBy e p (os_db s) @ os_guesses s\<rparr>)"
| issue: "token \<notin> os_used s \<Longrightarrow> insertOTT u token code email purpose x e (os_db s) = (r, db) \<Longrightarrow>
    otpMove s (s\<lparr>os_db := db, os_used := insert token (os_used s)\<rparr>)"
| remove: "otpMove s (s\<lparr>os_db := deleteOTTs P (os_db s)\<rparr>)"

abbreviation otpReach :: "otpState \<Rightarrow> otpState \<Rightarrow> bool" where
  "otpReach \<equiv> otpMove\<^sup>*\<^sup>*"

definition guessCount :: "nat \<Rightarrow> otpState \<Rightarrow> int" where
  "guessCount i s = int (count_list (os_guesses s) i)"

definition succeeded :: "(nat \<Rightarrow> otpProc option) \<Rightarrow> nat set" where
  "succeeded procs = {i. \<exists>x. procs i = Some (OtpDone (Inr x))}"

text \<open>Tokens: those in the table were issued and not accepted; a request holds an issued one.\<close>

definition tokenInv :: "otpState \<Rightarrow> bool" where
  "tokenInv s \<longleftrightarrow>
     ot_token ` set (au_otts (os_db s)) \<subseteq> os_used s - set (os_accepted s) \<and>
     distinct (os_accepted s) \<and> set (os_accepted s) \<subseteq> os_used s \<and>
     finite (succeeded (os_procs s)) \<and> card (succeeded (os_procs s)) = length (os_accepted s)"

text \<open>Attempts: a row has at least as many attempts as comparisons were made with it.\<close>

definition guessInv :: "otpState \<Rightarrow> bool" where
  "guessInv s \<longleftrightarrow>
     distinct (map ot_id (au_otts (os_db s))) \<and> (\<forall>r \<in> set (au_otts (os_db s)). ot_id r < au_seq (os_db s)) \<and>
     (\<forall>r \<in> set (au_otts (os_db s)). guessCount (ot_id r) s \<le> ot_attempts r \<and> ot_attempts r \<le> maxOTPAttempts) \<and>
     (\<forall>i. guessCount i s \<le> maxOTPAttempts) \<and> (\<forall>i \<ge> au_seq (os_db s). guessCount i s = 0)"

text \<open>What a statement does to the table.\<close>

lemma otpStep_table:
  assumes "otpStep e p db = (p', db')"
  obtains (same) "db' = db" "acceptedBy e p db = []" "guessBy e p db = []" "\<And>x. p' = OtpDone (Inr x) \<Longrightarrow> p = p'"
  | (spent) r em where "codeRow em db = Some r" "db' = spendAttempt (ot_id r) db" "ot_attempts r < maxOTPAttempts"
      "acceptedBy e p db = []" "guessBy e p db \<in> {[], [ot_id r]}" "\<And>x. p' \<noteq> OtpDone (Inr x)"
  | (dropped) P where "db' = deleteOTTs P db" "acceptedBy e p db = []" "guessBy e p db = []" "\<And>x. p' \<noteq> OtpDone (Inr x)"
  | (accepted) r :: ottRow and x where "ot_token r \<in> ot_token ` set (au_otts db)" "db' = deleteOTTs (\<lambda>q. ot_token q = ot_token r) db"
      "acceptedBy e p db = [ot_token r]" "guessBy e p db = []" "p' = OtpDone (Inr x)" "\<And>y. p \<noteq> OtpDone y"
proof (cases p)
  case (OtpStart token em allowed)
  note l = assms [unfolded OtpStart otpStep.simps otpLookup_def]
  have acc: "acceptedBy e p db = []" by (simp add: OtpStart acceptedBy_def)
  show thesis
  proof (cases "isNumericCode token \<and> em \<noteq> [] \<and> (\<exists>r. codeRow em db = Some r \<and> \<not> en_fails e ''spend attempt'' \<and> ot_attempts r < maxOTPAttempts)")
    case True
    then obtain r where r: "codeRow em db = Some r" "\<not> en_fails e ''spend attempt''" "ot_attempts r < maxOTPAttempts" by blast
    then show thesis using True l acc
      by (intro spent [of em r]) (auto simp: OtpStart guessBy_def split: if_splits)
  next
    case False
    with l acc show thesis
      by (intro same) (auto simp: OtpStart guessBy_def split: if_splits option.splits)
  qed
next
  case (OtpConsume r)
  show thesis
  proof (cases "en_fails e ''delete token'' \<or> ot_token r \<notin> ot_token ` set (au_otts db)")
    case True
    with assms show thesis by (intro same) (auto simp: OtpConsume acceptedBy_def guessBy_def)
  next
    case False
    with assms show thesis
      by (intro accepted [of r "\<lparr>otp_UserID = ot_user r, otp_Purpose = ot_purpose r\<rparr>"]) (auto simp: OtpConsume acceptedBy_def guessBy_def)
  qed
next
  case (OtpFound r allowed)
  with assms show thesis by (intro same) (auto simp: acceptedBy_def guessBy_def split: if_splits)
next
  case (OtpDropId i)
  have "db' = deleteOTTs (\<lambda>r. \<not> en_fails e ''delete token'' \<and> ot_id r = i) db"
    using assms OtpDropId by (auto simp: deleteOTTs_def delRows_def)
  with assms OtpDropId show thesis by (intro dropped) (auto simp: acceptedBy_def guessBy_def)
next
  case (OtpDropToken t)
  have "db' = deleteOTTs (\<lambda>r. \<not> en_fails e ''delete token'' \<and> ot_token r = t) db"
    using assms OtpDropToken by (auto simp: deleteOTTs_def delRows_def)
  with assms OtpDropToken show thesis by (intro dropped) (auto simp: acceptedBy_def guessBy_def)
next
  case (OtpDone r)
  with assms show thesis by (intro same) (auto simp: acceptedBy_def guessBy_def)
qed

lemma deleteOTTs_frame [simp]: "au_otts (deleteOTTs P db) = delRows P (au_otts db)" "au_seq (deleteOTTs P db) = au_seq db"
  by (simp_all add: deleteOTTs_def)

lemma spendAttempt_frame [simp]:
  "ot_token ` set (au_otts (spendAttempt i db)) = ot_token ` set (au_otts db)"
  "map ot_id (au_otts (spendAttempt i db)) = map ot_id (au_otts db)" "au_seq (spendAttempt i db) = au_seq db"
proof -
  have "map ot_token (au_otts (spendAttempt i db)) = map ot_token (au_otts db)" by (simp add: spendAttempt_def map_updRows)
  then show "ot_token ` set (au_otts (spendAttempt i db)) = ot_token ` set (au_otts db)" by (metis list.set_map)
qed (simp_all add: spendAttempt_def map_updRows)

lemma insertOTT_cases:
  assumes "insertOTT u t code email purpose x e db = (r, db')"
  obtains (failed) "db' = db"
  | (inserted) row where "au_otts db' = au_otts db @ [row]" "au_seq db' = Suc (au_seq db)" "ot_token row = t"
      "ot_id row = au_seq db" "ot_attempts row = 0" "t \<notin> ot_token ` set (au_otts db)"
  using assms by (auto simp: insertOTT_def split: if_splits)

lemma tokenInv_statement:
  assumes inv: "tokenInv s" and p: "os_procs s i = Some p" and st: "otpStep e p (os_db s) = (p', db)"
  shows "tokenInv (s\<lparr>os_db := db, os_procs := (os_procs s)(i \<mapsto> p'),
      os_accepted := acceptedBy e p (os_db s) @ os_accepted s, os_guesses := guesses\<rparr>)"
proof -
  have keep: "p' = p" if "p = OtpDone r" for r using st that by simp
  have unchanged: "succeeded ((os_procs s)(i \<mapsto> p')) = succeeded (os_procs s)" if "\<And>x. p' = OtpDone (Inr x) \<Longrightarrow> p = p'"
  proof -
    have "(\<exists>x. p' = OtpDone (Inr x)) \<longleftrightarrow> (\<exists>x. p = OtpDone (Inr x))" using that keep by metis
    with p show ?thesis by (simp add: succeeded_def) (metis option.inject)
  qed
  from st show ?thesis
  proof (cases rule: otpStep_table)
    case same
    with inv unchanged show ?thesis by (simp add: tokenInv_def)
  next
    case (spent r em)
    with inv unchanged show ?thesis by (simp add: tokenInv_def)
  next
    case (dropped P)
    with inv unchanged show ?thesis by (auto simp: tokenInv_def)
  next
    case (accepted r x)
    have "succeeded ((os_procs s)(i \<mapsto> p')) = insert i (succeeded (os_procs s))" using accepted(5) by (auto simp: succeeded_def)
    moreover have "i \<notin> succeeded (os_procs s)" using accepted(6) p by (auto simp: succeeded_def)
    ultimately show ?thesis using inv accepted(1-3) by (auto simp: tokenInv_def)
  qed
qed

lemma guessInv_statement:
  assumes inv: "guessInv s" and st: "otpStep e p (os_db s) = (p', db)"
  shows "guessInv (s\<lparr>os_db := db, os_procs := procs, os_accepted := acc, os_guesses := guessBy e p (os_db s) @ os_guesses s\<rparr>)"
  using st
proof (cases rule: otpStep_table)
  case same
  with inv show ?thesis by (simp add: guessInv_def guessCount_def)
next
  case (spent r em)
  from latestBy_Some [OF spent(1) [unfolded codeRow_def]] have r: "r \<in> set (au_otts (os_db s))" by simp
  have rows: "q \<in> set (au_otts db) \<Longrightarrow> (\<exists>q' \<in> set (au_otts (os_db s)). ot_id q = ot_id q' \<and>
      ot_attempts q = (if ot_id q' = ot_id r then ot_attempts q' + 1 else ot_attempts q'))" for q
    unfolding spent(2) by (auto simp: spendAttempt_def set_updRows)
  have one: "q' = r" if "q' \<in> set (au_otts (os_db s))" "ot_id q' = ot_id r" for q'
    using inv r that unfolding guessInv_def distinct_map inj_on_def by blast
  have rc: "guessCount (ot_id r) s \<le> ot_attempts r" using inv r by (simp add: guessInv_def)
  let ?s' = "s\<lparr>os_db := db, os_procs := procs, os_accepted := acc, os_guesses := guessBy e p (os_db s) @ os_guesses s\<rparr>"
  have cnt: "guessCount i s \<le> guessCount i ?s'" "guessCount i ?s' \<le> guessCount i s + (if i = ot_id r then 1 else 0)" for i
    using spent(5) by (auto simp: guessCount_def)
  have "guessCount (ot_id q) ?s' \<le> ot_attempts q \<and> ot_attempts q \<le> maxOTPAttempts" if q: "q \<in> set (au_otts db)" for q
  proof -
    from rows [OF q] obtain q' where q': "q' \<in> set (au_otts (os_db s))" "ot_id q = ot_id q'"
      "ot_attempts q = (if ot_id q' = ot_id r then ot_attempts q' + 1 else ot_attempts q')" by blast
    have "guessCount (ot_id q') s \<le> ot_attempts q' \<and> ot_attempts q' \<le> maxOTPAttempts" using inv q'(1) by (simp add: guessInv_def)
    with q' cnt(2) [of "ot_id q"] one [OF q'(1)] spent(3) show ?thesis by (auto split: if_splits)
  qed
  moreover have "guessCount i ?s' \<le> maxOTPAttempts" for i
    using cnt(2) [of i] rc spent(3) inv by (cases "i = ot_id r") (auto simp: guessInv_def intro: order_trans)
  moreover have "guessCount i ?s' = 0" if "au_seq (os_db s) \<le> i" for i
  proof -
    have "i \<noteq> ot_id r" using inv r that by (auto simp: guessInv_def)
    with cnt [of i] inv that show ?thesis by (simp add: guessInv_def)
  qed
  moreover have "ot_id q < au_seq (os_db s)" if "q \<in> set (au_otts db)" for q
    using rows [OF that] inv by (auto simp: guessInv_def)
  moreover have "distinct (map ot_id (au_otts db))" using inv spent(2) by (simp add: guessInv_def)
  ultimately show ?thesis unfolding guessInv_def using spent(2) by simp
next
  case (dropped P)
  with inv show ?thesis by (auto simp: guessInv_def guessCount_def distinct_delRows)
next
  case (accepted r x)
  with inv show ?thesis by (auto simp: guessInv_def guessCount_def distinct_delRows)
qed

lemma otpMove_inv: "otpMove s s' \<Longrightarrow> tokenInv s \<and> guessInv s \<Longrightarrow> tokenInv s' \<and> guessInv s'"
proof (induction rule: otpMove.induct)
  case (request s i token email allowed)
  have "succeeded ((os_procs s)(i \<mapsto> OtpStart token email allowed)) = succeeded (os_procs s)"
    using request(1) by (auto simp: succeeded_def)
  with request(2) show ?case by (simp add: tokenInv_def guessInv_def guessCount_def)
next
  case (statement s i p e p' db)
  then show ?case using tokenInv_statement guessInv_statement by blast
next
  case (issue token s u code email purpose x e r db)
  from issue(2) show ?case
  proof (cases rule: insertOTT_cases)
    case failed
    with issue show ?thesis by (auto simp: tokenInv_def guessInv_def guessCount_def)
  next
    case (inserted row)
    with issue(1,3) show ?thesis
      by (auto simp: tokenInv_def guessInv_def guessCount_def maxOTPAttempts_def)
  qed
next
  case (remove s P)
  then show ?case by (auto simp: tokenInv_def guessInv_def guessCount_def distinct_delRows)
qed

interpretation tokens: kept otpMove "\<lambda>s. tokenInv s \<and> guessInv s"
  by unfold_locales (auto dest: otpMove_inv)

text \<open>C26: Whatever requests run at the same time and however their statements interleave with each other, with new tokens
  and with deletions, every one-time token is accepted at most once: as many requests have succeeded as there are
  different accepted tokens.\<close>

theorem otp_single_use:
  assumes "otpReach s0 s" "tokenInv s0" "guessInv s0"
  shows "distinct (os_accepted s) \<and> card (succeeded (os_procs s)) = card (set (os_accepted s))"
  using tokens.along [OF assms(1)] assms(2,3) by (simp add: tokenInv_def distinct_card)


end
