(* ===== verification/Go_Url.thy ===== *)
theory Go_Url
  imports Go_Strings
begin

text \<open>
  What the sources use of the package \<open>net/url\<close>, as of the Go version of \<open>go.mod\<close>: \<open>url.Parse\<close> up to the scheme and
  the host of the result, \<open>url.QueryEscape\<close> and \<open>Values.Encode\<close>; and of \<open>net/http\<close> how \<open>http.Redirect\<close> cleans a
  location without scheme and host. Strings are byte lists.
\<close>

section \<open>Cutting\<close>

definition cutAt :: "char \<Rightarrow> string \<Rightarrow> string \<times> string" where
  "cutAt c s = (takeWhile (\<lambda>x. x \<noteq> c) s, drop 1 (dropWhile (\<lambda>x. x \<noteq> c) s))"

text \<open>The parts before and after the last occurrence.\<close>

definition cutLast :: "char \<Rightarrow> string \<Rightarrow> (string \<times> string) option" where
  "cutLast c s = (if c \<in> set s then Some (rev (drop 1 (dropWhile (\<lambda>x. x \<noteq> c) (rev s))), rev (takeWhile (\<lambda>x. x \<noteq> c) (rev s)))
     else None)"

section \<open>Percent encoding\<close>

definition unhex :: "char \<Rightarrow> nat option" where
  "unhex c =
     (let n = of_char c :: nat in
      if 48 \<le> n \<and> n \<le> 57 then Some (n - 48)
      else if 97 \<le> n \<and> n \<le> 102 then Some (n - 87)
      else if 65 \<le> n \<and> n \<le> 70 then Some (n - 55)
      else None)"

text \<open>The bytes a host may hold as they are (\<open>shouldEscape\<close> for a host is false).\<close>

definition hostByte :: "char \<Rightarrow> bool" where
  "hostByte c = (isAlpha c \<or> isDigit c \<or>
     c \<in> set ''!$&()*+,;=:[]<>-_.~'' \<or> c = CHR 0x27 \<or> c = CHR 0x22)"

datatype urlPart = InHost | InZone | InPath

text \<open>\<open>unescape\<close>; a path takes any byte, a host only some, and only escapes of bytes beyond ASCII (or \<open>%25\<close>).\<close>

fun unescape :: "urlPart \<Rightarrow> string \<Rightarrow> string option" where
  "unescape m [] = Some []"
| "unescape m (c # s) =
     (if c = CHR ''%'' then
        (case s of
           a # b # r \<Rightarrow>
             (case (unhex a, unhex b) of
                (Some x, Some y) \<Rightarrow>
                  if m = InHost \<and> x < 8 \<and> \<not> (a = CHR ''2'' \<and> b = CHR ''5'') then None
                  else if m = InZone \<and> \<not> (a = CHR ''2'' \<and> b = CHR ''5'') \<and> x * 16 + y \<noteq> 32 \<and> \<not> hostByte (char_of (x * 16 + y)) then None
                  else map_option ((#) (char_of (x * 16 + y))) (unescape m r)
              | _ \<Rightarrow> None)
         | _ \<Rightarrow> None)
      else if m \<noteq> InPath \<and> (of_char c :: nat) < 128 \<and> \<not> hostByte c then None
      else map_option ((#) c) (unescape m s))"

section \<open>Parse\<close>

definition validOptionalPort :: "string \<Rightarrow> bool" where
  "validOptionalPort p = (case p of [] \<Rightarrow> True | c # r \<Rightarrow> c = CHR '':'' \<and> list_all isDigit r)"

definition concatOptions :: "string option list \<Rightarrow> string option" where
  "concatOptions xs = fold (\<lambda>x acc. case (acc, x) of (Some a, Some b) \<Rightarrow> Some (a @ b) | _ \<Rightarrow> None) xs (Some [])"

definition parseHost :: "string \<Rightarrow> string option" where
  "parseHost host =
     (if hasPrefix host ''['' then
        (case cutLast (CHR '']'') host of
           None \<Rightarrow> None
         | Some (h, port) \<Rightarrow>
             if \<not> validOptionalPort port then None
             else case strIndex h ''%25'' of
                 Some z \<Rightarrow> concatOptions [unescape InHost (take z h), unescape InZone (drop z h), unescape InHost (drop (length h) host)]
               | None \<Rightarrow> unescape InHost host)
      else if (case cutLast (CHR '':'') host of None \<Rightarrow> False | Some (_, port) \<Rightarrow> \<not> validOptionalPort (CHR '':'' # port)) then None
      else unescape InHost host)"

definition validUserinfo :: "string \<Rightarrow> bool" where
  "validUserinfo s = list_all (\<lambda>c. isAlpha c \<or> isDigit c \<or> c \<in> set ''-._:~!$&()*+,;=%@'' \<or> c = CHR 0x27) s"

text \<open>The user information is only checked.\<close>

definition parseAuthority :: "string \<Rightarrow> string option" where
  "parseAuthority authority =
     (case cutLast (CHR ''@'') authority of
        None \<Rightarrow> parseHost authority
      | Some (userinfo, h) \<Rightarrow>
          (case parseHost h of
             None \<Rightarrow> None
           | Some host \<Rightarrow>
               if validUserinfo userinfo \<and>
                  (case cutAt (CHR '':'') userinfo of (u, p) \<Rightarrow> unescape InPath u \<noteq> None \<and> unescape InPath p \<noteq> None)
               then Some host else None))"

definition schemeByte :: "char \<Rightarrow> bool" where
  "schemeByte c = (isAlpha c \<or> isDigit c \<or> c \<in> set ''+-.'')"

text \<open>The scheme, empty when there is none, and the rest.\<close>

definition getScheme :: "string \<Rightarrow> (string \<times> string) option" where
  "getScheme s =
     (let p = takeWhile schemeByte s in
      if p \<noteq> [] \<and> \<not> isAlpha (hd p) then Some ([], s)
      else case drop (length p) s of
          [] \<Rightarrow> Some ([], s)
        | c # r \<Rightarrow> if c = CHR '':'' then (if p = [] then None else Some (p, r)) else Some ([], s))"

definition controlByte :: "char \<Rightarrow> bool" where
  "controlByte c = ((of_char c :: nat) < 32 \<or> c = CHR 0x7F)"

text \<open>The scheme (in lower case) and the host of a URL; \<open>None\<close> is an error.\<close>

definition parseParts :: "string \<Rightarrow> (string \<times> string) option" where
  "parseParts raw =
     (if list_ex controlByte raw then None
      else if raw = ''*'' then Some ([], [])
      else case getScheme raw of
          None \<Rightarrow> None
        | Some (scheme0, rest0) \<Rightarrow>
            let scheme = toLower scheme0; rest = fst (cutAt (CHR ''?'') rest0) in
            if \<not> hasPrefix rest ''/'' \<and> scheme \<noteq> [] then Some (scheme, [])
            else if \<not> hasPrefix rest ''/'' \<and> CHR '':'' \<in> set (fst (cutAt (CHR ''/'') rest)) then None
            else if (scheme \<noteq> [] \<or> \<not> hasPrefix rest ''///'') \<and> hasPrefix rest ''//'' then
              (let authority = takeWhile (\<lambda>c. c \<noteq> CHR ''/'') (drop 2 rest); path = drop (2 + length authority) rest in
               case parseAuthority authority of
                 None \<Rightarrow> None
               | Some host \<Rightarrow> if unescape InPath path = None then None else Some (scheme, host))
            else if unescape InPath rest = None then None else Some (scheme, []))"

definition Parse :: "string \<Rightarrow> (string \<times> string) option" where
  "Parse raw =
     (case cutAt (CHR ''#'') raw of (u, frag) \<Rightarrow>
       case parseParts u of
         None \<Rightarrow> None
       | Some r \<Rightarrow> if unescape InPath frag = None then None else Some r)"

section \<open>Writing\<close>

definition upperHex :: "nat \<Rightarrow> char" where
  "upperHex d = (if d < 10 then char_of (48 + d) else char_of (55 + d))"

definition queryByte :: "char \<Rightarrow> string" where
  "queryByte c =
     (if isAlpha c \<or> isDigit c \<or> c \<in> set ''-_.~'' then [c]
      else if c = CHR '' '' then ''+''
      else [CHR ''%'', upperHex (of_char c div 16), upperHex (of_char c mod 16)])"

definition QueryEscape :: "string \<Rightarrow> string" where
  "QueryEscape s = concat (map queryByte s)"

text \<open>\<open>Values.Encode\<close>: by key.\<close>

definition Encode :: "(string \<times> string) list \<Rightarrow> string" where
  "Encode vs = strJoin (map (\<lambda>(k, v). QueryEscape k @ ''='' @ QueryEscape v) (sort_key fst vs)) ''&''"

section \<open>http.Redirect\<close>

text \<open>\<open>path.Clean\<close> of a rooted path: empty elements and dots go, two dots take the element before away.\<close>

definition cleanStep :: "string \<Rightarrow> string list \<Rightarrow> string list" where
  "cleanStep el out = (if el = [] \<or> el = ''.'' then out else if el = ''..'' then butlast out else out @ [el])"

definition cleanRooted :: "string \<Rightarrow> string" where
  "cleanRooted p = ''/'' @ strJoin (fold cleanStep (strSplit p (CHR ''/'')) []) ''/''"

definition cleanLocation :: "string \<Rightarrow> string" where
  "cleanLocation url =
     (let path = takeWhile (\<lambda>c. c \<noteq> CHR ''?'') url; query = dropWhile (\<lambda>c. c \<noteq> CHR ''?'') url; clean = cleanRooted path in
      clean @ (if hasSuffix path ''/'' \<and> \<not> hasSuffix clean ''/'' then ''/'' else []) @ query)"

text \<open>A header is ASCII text without line ends; a tab stays.\<close>

definition headerByte :: "char \<Rightarrow> string" where
  "headerByte c =
     (if c = CHR 0x0A \<or> c = CHR 0x0D then '' ''
      else if (of_char c :: nat) < 128 then [c]
      else let h = (\<lambda>d. if d < 10 then char_of (48 + d) else char_of (87 + d :: nat)) in
        [CHR ''%'', h (of_char c div 16), h (of_char c mod 16)])"

definition headerText :: "string \<Rightarrow> string" where
  "headerText s = concat (map headerByte s)"

text \<open>The \<open>Location\<close> header; \<open>olddir\<close> is the directory of the request's path.\<close>

definition location :: "string \<Rightarrow> string \<Rightarrow> string" where
  "location olddir url =
     headerText (if Parse url = Some ([], []) then cleanLocation (if hasPrefix url ''/'' then url else olddir @ url) else url)"

section \<open>Facts\<close>

lemma cutLast_Some: "cutLast c s = Some (a, b) \<Longrightarrow> s = a @ c # b \<and> c \<notin> set b"
proof -
  assume h: "cutLast c s = Some (a, b)"
  then have c: "c \<in> set (rev s)" and b: "b = rev (takeWhile (\<lambda>x. x \<noteq> c) (rev s))"
    and a: "a = rev (drop 1 (dropWhile (\<lambda>x. x \<noteq> c) (rev s)))" by (auto simp: cutLast_def split: if_splits)
  obtain t where t: "dropWhile (\<lambda>x. x \<noteq> c) (rev s) = c # t"
  proof (cases "dropWhile (\<lambda>x. x \<noteq> c) (rev s)")
    case Nil
    with c show ?thesis by (auto simp: dropWhile_eq_Nil_conv)
  next
    case (Cons x t)
    with that show ?thesis by (auto simp: dropWhile_eq_Cons_conv)
  qed
  have "rev s = takeWhile (\<lambda>x. x \<noteq> c) (rev s) @ c # t" using t by (metis takeWhile_dropWhile_id)
  from arg_cong [OF this, of rev] have "s = rev t @ c # rev (takeWhile (\<lambda>x. x \<noteq> c) (rev s))"
    by (simp only: rev_rev_ident rev_append rev.simps append_assoc append_Cons append_Nil)
  moreover have "c \<notin> set (takeWhile (\<lambda>x. x \<noteq> c) (rev s))" by (auto dest: set_takeWhileD)
  ultimately show ?thesis unfolding a b t by simp
qed

lemma cutLast_None [simp]: "cutLast c s = None \<longleftrightarrow> c \<notin> set s"
  by (simp add: cutLast_def)

lemma cutLast_append: "c \<notin> set b \<Longrightarrow> cutLast c (a @ c # b) = Some (a, b)"
proof -
  assume "c \<notin> set b"
  then have "takeWhile (\<lambda>x. x \<noteq> c) (rev b @ c # rev a) = rev b" "dropWhile (\<lambda>x. x \<noteq> c) (rev b @ c # rev a) = c # rev a"
    by (auto simp: takeWhile_append dropWhile_append)
  then show ?thesis by (simp add: cutLast_def)
qed

lemma unescape_append:
  "unescape InPath s = Some a \<Longrightarrow> unescape InPath t = Some b \<Longrightarrow> unescape InPath (s @ t) = Some (a @ b)"
proof (induction s arbitrary: a rule: unescape.induct)
  case (2 m c s)
  then show ?case
    by (auto split: if_splits list.splits option.splits)
qed auto

lemma unescape_path: "unescape m s = Some a \<Longrightarrow> unescape InPath s = Some a"
  by (induction m s arbitrary: a rule: unescape.induct) (auto split: if_splits list.splits option.splits)

lemma unescape_prefix: "unescape InPath (s @ t) \<noteq> None \<Longrightarrow> CHR ''%'' \<notin> set s \<Longrightarrow> unescape InPath t \<noteq> None"
  by (induction s) auto

lemma concatOptions_three:
  "concatOptions [x, y, z] = Some a \<longleftrightarrow> (\<exists>p q r. x = Some p \<and> y = Some q \<and> z = Some r \<and> a = p @ q @ r)"
  by (auto simp: concatOptions_def split: option.splits)

lemma parseHost_path: "parseHost h = Some x \<Longrightarrow> unescape InPath h = Some x"
proof -
  assume p: "parseHost h = Some x"
  show ?thesis
  proof (cases "unescape InHost h = Some x")
    case True
    then show ?thesis by (rule unescape_path)
  next
    case False
    with p obtain h1 port z where c: "cutLast (CHR '']'') h = Some (h1, port)" and
      o: "concatOptions [unescape InHost (take z h1), unescape InZone (drop z h1), unescape InHost (drop (length h1) h)] = Some x"
      by (auto simp: parseHost_def split: if_splits option.splits prod.splits)
    then obtain a b r where u: "unescape InPath (take z h1) = Some a" "unescape InPath (drop z h1) = Some b"
      "unescape InPath (drop (length h1) h) = Some r" "x = a @ b @ r"
      unfolding concatOptions_three by (auto dest: unescape_path)
    have "h = (take z h1 @ drop z h1) @ drop (length h1) h" using cutLast_Some [OF c] by simp
    with unescape_append [OF unescape_append [OF u(1,2)] u(3)] u(4) show ?thesis by (metis append.assoc)
  qed
qed

lemma headerText_append [simp]: "headerText (a @ b) = headerText a @ headerText b"
  by (simp add: headerText_def)

lemma headerText_ascii: "list_all (\<lambda>c. (of_char c :: nat) < 128 \<and> c \<noteq> CHR 0x0A \<and> c \<noteq> CHR 0x0D) s \<Longrightarrow> headerText s = s"
  by (induction s) (auto simp: headerText_def headerByte_def)

end
