(* ===== verification/Auth_Redirect.thy ===== *)
theory Auth_Redirect
  imports Go_Url Domain_Schema
begin

text \<open>
  The allowlist of post-auth redirects (\<open>internal/domain/schema.go\<close>): where a browser may be sent with a session or
  a code in the URL. \<open>redirect_stays_allowed\<close> compares what \<open>url.Parse\<close> says of a target with how a browser reads the
  \<open>Location\<close> header made from it.
\<close>

definition redirectOrigin :: "string \<Rightarrow> string" where
  "redirectOrigin raw =
     (if raw = [] then []
      else case Parse raw of
          None \<Rightarrow> []
        | Some (scheme, host) \<Rightarrow> if host = [] then [] else toLower (scheme @ ''://'' @ host))"

definition allowedOrigins :: "Auth option \<Rightarrow> string \<Rightarrow> string list" where
  "allowedOrigins a baseURL =
     (if redirectOrigin baseURL \<noteq> [] then [redirectOrigin baseURL] else []) @
     (case a of None \<Rightarrow> [] | Some x \<Rightarrow> filter (\<lambda>r. r \<noteq> []) (map redirectOrigin (auth_RedirectURLs x)))"

definition IsRedirectAllowed :: "Auth option \<Rightarrow> string \<Rightarrow> string \<Rightarrow> bool" where
  "IsRedirectAllowed a target baseURL =
     (if target = [] then True
      else if CHR 0x5C \<in> set target \<or> CHR 0x00 \<in> set target then False
      else case Parse target of
          None \<Rightarrow> False
        | Some (scheme, host) \<Rightarrow>
            if scheme = [] \<and> host = [] then hasPrefix target ''/''
            else if scheme \<noteq> ''http'' \<and> scheme \<noteq> ''https'' \<or> host = [] then False
            else toLower (scheme @ ''://'' @ host) \<in> set (allowedOrigins a baseURL))"

section \<open>How a browser reads a location\<close>

text \<open>
  After the URL standard of the browsers, for a page with an \<open>http\<close> or \<open>https\<close> origin: leading spaces and control
  characters and all tabs and line ends are dropped; a backslash is a slash; after \<open>http:\<close> any number of slashes leads
  to the authority, without a scheme two do; the authority ends at a slash, a question mark or a number sign, and the
  host in it follows the last at sign. \<open>Elsewhere\<close> is a URL of another scheme.
\<close>

datatype destination = SameOrigin | Origin string string | Elsewhere

definition slashByte :: "char \<Rightarrow> bool" where
  "slashByte c = (c = CHR ''/'' \<or> c = CHR 0x5C)"

definition dropped :: "char \<Rightarrow> bool" where
  "dropped c = (c = CHR 0x09 \<or> c = CHR 0x0A \<or> c = CHR 0x0D)"

definition browserHost :: "string \<Rightarrow> string option" where
  "browserHost s =
     (let authority = takeWhile (\<lambda>c. \<not> slashByte c \<and> c \<noteq> CHR ''?'' \<and> c \<noteq> CHR ''#'') (dropWhile slashByte s) in
      unescape InPath (case cutLast (CHR ''@'') authority of None \<Rightarrow> authority | Some (_, h) \<Rightarrow> h))"

definition browse :: "string \<Rightarrow> destination" where
  "browse loc =
     (let s = filter (\<lambda>c. \<not> dropped c) (dropWhile (\<lambda>c. (of_char c :: nat) \<le> 32) loc);
          inherited = (if slashByte (hd (s @ [CHR ''x''])) \<and> slashByte (hd (tl s @ [CHR ''x'']))
            then (case browserHost s of None \<Rightarrow> Elsewhere | Some h \<Rightarrow> Origin [] h) else SameOrigin) in
      case getScheme s of
        None \<Rightarrow> inherited
      | Some (scheme, r) \<Rightarrow>
          if scheme = [] then inherited
          else if toLower scheme \<noteq> ''http'' \<and> toLower scheme \<noteq> ''https'' then Elsewhere
          else (case browserHost r of None \<Rightarrow> Elsewhere | Some h \<Rightarrow> Origin (toLower scheme) h))"

text \<open>What the handlers append to a target: a fragment, or the first or a further query parameter, in URL characters.\<close>

definition resultSuffix :: "string \<Rightarrow> string \<Rightarrow> bool" where
  "resultSuffix target sfx =
     (sfx = [] \<or>
      (hd sfx = CHR ''#'' \<or> hd sfx = CHR ''?'' \<and> CHR ''?'' \<notin> set target \<or> hd sfx = CHR ''&'' \<and> CHR ''?'' \<in> set target) \<and>
      list_all (\<lambda>c. isAlpha c \<or> isDigit c \<or> c \<in> set ''-_.~=&%+'') (tl sfx) \<and> unescape InPath (tl sfx) \<noteq> None)"

section \<open>What Parse accepts\<close>

lemma takeWhile_three:
  "takeWhile P (takeWhile Q (takeWhile R s)) = takeWhile (\<lambda>x. R x \<and> Q x \<and> P x) s"
  by (induction s) auto

lemma hd_cut: "dropWhile (\<lambda>x. x \<noteq> c) s = [] \<or> hd (dropWhile (\<lambda>x. x \<noteq> c) s) = c"
  by (induction s) auto

lemma schemeByte_ascii: "schemeByte c \<Longrightarrow> (of_char c :: nat) < 128 \<and> c \<noteq> CHR 0x0A \<and> c \<noteq> CHR 0x0D \<and> c \<noteq> CHR '':'' \<and> c \<noteq> CHR ''#'' \<and> c \<noteq> CHR ''?''"
  by (auto simp: schemeByte_def isAlpha_def isDigit_def)

lemma getScheme_Some:
  assumes "getScheme s = Some (p, r)" "p \<noteq> []"
  shows "s = p @ CHR '':'' # r \<and> list_all schemeByte p \<and> isAlpha (hd p)"
proof -
  let ?q = "takeWhile schemeByte s"
  from assms have q: "p = ?q" "isAlpha (hd p)" "drop (length ?q) s = CHR '':'' # r"
    by (auto simp: getScheme_def Let_def split: if_splits list.splits)
  have "s = ?q @ drop (length ?q) s" by (metis dropWhile_eq_drop takeWhile_dropWhile_id)
  with q show ?thesis by (auto simp: list_all_iff dest: set_takeWhileD)
qed

lemma getScheme_append:
  assumes "p \<noteq> []" "list_all schemeByte p" "isAlpha (hd p)"
  shows "getScheme (p @ CHR '':'' # r) = Some (p, r)"
proof -
  have "\<not> schemeByte (CHR '':'')" by (simp add: schemeByte_def isAlpha_def isDigit_def)
  with assms(2) have "takeWhile schemeByte (p @ CHR '':'' # r) = p" by (simp add: takeWhile_append2 list_all_iff)
  with assms show ?thesis by (simp add: getScheme_def)
qed

lemma getScheme_rooted [simp]: "getScheme (CHR ''/'' # s) = Some ([], CHR ''/'' # s)"
  by (simp add: getScheme_def schemeByte_def isAlpha_def isDigit_def)

text \<open>An absolute URL with a host: scheme, authority, and what follows it.\<close>

lemma Parse_absolute:
  assumes "Parse url = Some (scheme, host)" "scheme \<noteq> []" "host \<noteq> []"
  obtains p authority after where "url = p @ ''://'' @ authority @ after" "toLower p = scheme" "p \<noteq> []" "list_all schemeByte p"
    "isAlpha (hd p)" "parseAuthority authority = Some host" "\<not> list_ex controlByte authority"
    "CHR ''/'' \<notin> set authority" "CHR ''?'' \<notin> set authority" "CHR ''#'' \<notin> set authority"
    "after = [] \<or> hd after = CHR ''/'' \<or> hd after = CHR ''?'' \<or> hd after = CHR ''#''"
proof -
  define u where "u = takeWhile (\<lambda>x. x \<noteq> CHR ''#'') url"
  from assms(1) have pu: "parseParts u = Some (scheme, host)"
    by (auto simp: Parse_def cutAt_def u_def split: option.splits if_splits)
  then have nc: "\<not> list_ex controlByte u" by (auto simp: parseParts_def)
  obtain p rest0 where g: "getScheme u = Some (p, rest0)"
    using pu assms(2) by (cases "getScheme u") (auto simp: parseParts_def split: if_splits)
  have lower: "toLower [] = []" by simp
  from pu nc g assms(2,3) have low: "toLower p = scheme" by (auto simp: parseParts_def Let_def split: if_splits option.splits)
  with assms(2) have p: "p \<noteq> []" by auto
  note us = getScheme_Some [OF g p]
  define rest where "rest = takeWhile (\<lambda>x. x \<noteq> CHR ''?'') rest0"
  define authority where "authority = takeWhile (\<lambda>c. c \<noteq> CHR ''/'') (drop 2 rest)"
  have r: "hasPrefix rest ''//''" "parseAuthority authority = Some host"
    using pu nc g assms(3) low by (auto simp: parseParts_def cutAt_def Let_def rest_def authority_def split: if_splits option.splits)
  have "take 2 rest = ''//''" using r(1) by (simp add: hasPrefix_def numeral_2_eq_2)
  then have two: "rest = ''//'' @ drop 2 rest" by (metis append_take_drop_id)
  define a1 where "a1 = dropWhile (\<lambda>c. c \<noteq> CHR ''/'') (drop 2 rest)"
  define a2 where "a2 = dropWhile (\<lambda>x. x \<noteq> CHR ''?'') rest0"
  define a3 where "a3 = dropWhile (\<lambda>x. x \<noteq> CHR ''#'') url"
  have rest: "drop 2 rest = authority @ a1" "rest0 = rest @ a2" "url = u @ a3"
    by (simp_all add: authority_def a1_def rest_def a2_def u_def a3_def)
  have heads: "a1 = [] \<or> hd a1 = CHR ''/''" "a2 = [] \<or> hd a2 = CHR ''?''" "a3 = [] \<or> hd a3 = CHR ''#''"
    unfolding a1_def a2_def a3_def by (rule hd_cut)+
  have url: "url = p @ ''://'' @ authority @ (a1 @ a2 @ a3)"
    using rest us two by simp
  have sub: "set authority \<subseteq> set rest" "set rest \<subseteq> set rest0" "set rest0 \<subseteq> set u"
    using two rest(1) us unfolding rest_def authority_def by (auto dest!: set_takeWhileD in_set_dropD)
  have "CHR ''?'' \<notin> set rest" "CHR ''#'' \<notin> set u" unfolding rest_def u_def by (auto dest: set_takeWhileD)
  with sub have chars: "CHR ''/'' \<notin> set authority" "CHR ''?'' \<notin> set authority" "CHR ''#'' \<notin> set authority"
    unfolding authority_def by (auto dest: set_takeWhileD)
  have "\<not> list_ex controlByte authority" using nc sub by (auto simp: list_ex_iff)
  moreover have "a1 @ a2 @ a3 = [] \<or> hd (a1 @ a2 @ a3) = CHR ''/'' \<or> hd (a1 @ a2 @ a3) = CHR ''?'' \<or> hd (a1 @ a2 @ a3) = CHR ''#''"
    using heads by (cases a1; cases a2; cases a3) auto
  ultimately show thesis using that [OF url low p] us r(2) chars by blast
qed

section \<open>Headers\<close>

text \<open>The bytes of a header text: those of the text, a space for a line end, and escapes.\<close>

lemma headerByte_set: "x \<in> set (headerByte c) \<Longrightarrow> (x = c \<and> c \<noteq> CHR 0x0A \<and> c \<noteq> CHR 0x0D) \<or> x = CHR '' '' \<or> x = CHR ''%'' \<or> unhex x \<noteq> None"
proof -
  have hex: "unhex (if d < 10 then char_of (48 + d) else char_of (87 + d)) \<noteq> None" if "d < 16" for d :: nat
    using that by (auto simp: unhex_def Let_def)
  assume "x \<in> set (headerByte c)"
  moreover have "of_char c div 16 < (16 :: nat)"
    using nat_of_char_less_256 [of c] by (simp add: div_less_iff_less_mult)
  ultimately show ?thesis using hex [of "of_char c div 16"] hex [of "of_char c mod 16"]
    by (auto simp: headerByte_def Let_def split: if_splits)
qed

lemma headerText_set:
  "x \<in> set (headerText s) \<Longrightarrow> (x \<in> set s \<and> x \<noteq> CHR 0x0A \<and> x \<noteq> CHR 0x0D) \<or> x = CHR '' '' \<or> x = CHR ''%'' \<or> unhex x \<noteq> None"
  unfolding headerText_def using headerByte_set by fastforce

lemma unhex_plain: "unhex x \<noteq> None \<Longrightarrow> (isAlpha x \<or> isDigit x)"
  by (auto simp: unhex_def Let_def isAlpha_def isDigit_def split: if_splits)

lemma not_alnum:
  "\<not> isAlpha (CHR ''/'')" "\<not> isDigit (CHR ''/'')" "\<not> isAlpha (CHR ''?'')" "\<not> isDigit (CHR ''?'')"
  "\<not> isAlpha (CHR ''#'')" "\<not> isDigit (CHR ''#'')" "\<not> isAlpha (CHR ''@'')" "\<not> isDigit (CHR ''@'')"
  "\<not> isAlpha (CHR 0x5C)" "\<not> isDigit (CHR 0x5C)" "\<not> isAlpha (CHR 0x09)" "\<not> isDigit (CHR 0x09)"
  "\<not> isAlpha (CHR 0x0A)" "\<not> isDigit (CHR 0x0A)" "\<not> isAlpha (CHR 0x0D)" "\<not> isDigit (CHR 0x0D)"
  by (simp_all add: isAlpha_def isDigit_def)

lemma headerText_lacks:
  "x \<notin> set s \<Longrightarrow> x \<noteq> CHR '' '' \<Longrightarrow> x \<noteq> CHR ''%'' \<Longrightarrow> \<not> isAlpha x \<Longrightarrow> \<not> isDigit x \<Longrightarrow> x \<notin> set (headerText s)"
  using headerText_set unhex_plain by blast

lemma noControl: "\<not> list_ex controlByte s \<Longrightarrow> CHR 0x0A \<notin> set s \<and> CHR 0x0D \<notin> set s"
proof -
  have "controlByte (CHR 0x0A)" "controlByte (CHR 0x0D)" by (simp_all add: controlByte_def)
  then show "\<not> list_ex controlByte s \<Longrightarrow> CHR 0x0A \<notin> set s \<and> CHR 0x0D \<notin> set s" unfolding list_ex_iff by blast
qed

lemma headerText_undropped: "CHR 0x09 \<notin> set s \<Longrightarrow> filter (\<lambda>c. \<not> dropped c) (headerText s) = headerText s"
proof -
  assume t: "CHR 0x09 \<notin> set s"
  have "CHR 0x09 \<notin> set (headerText s)" by (rule headerText_lacks) (use t not_alnum in auto)
  moreover have "CHR 0x0A \<notin> set (headerText s)" "CHR 0x0D \<notin> set (headerText s)"
    using headerText_set [of _ s] unhex_plain not_alnum by force+
  ultimately show ?thesis by (auto simp: filter_id_conv dropped_def)
qed

lemma headerText_unescape:
  "unescape InPath s = Some x \<Longrightarrow> CHR 0x0A \<notin> set s \<Longrightarrow> CHR 0x0D \<notin> set s \<Longrightarrow> unescape InPath (headerText s) = Some x"
proof (induction s arbitrary: x rule: measure_induct_rule [of length])
  case (less t)
  show ?case
  proof (cases t)
  case Nil
  with less show ?thesis by (simp add: headerText_def)
next
  case (Cons c s)
  have plain: "headerByte a = [a]" if "unhex a = Some n" for a n
    using that by (auto simp: unhex_def Let_def headerByte_def split: if_splits)
  show ?thesis
  proof (cases "c = CHR ''%''")
    case True
    with less(2) Cons obtain a b r m n where s: "s = a # b # r" "unhex a = Some m" "unhex b = Some n"
      by (auto split: list.splits option.splits)
    with less(2) True Cons obtain y where y: "unescape InPath r = Some y" "x = char_of (m * 16 + n) # y" by auto
    from less(1) [OF _ y(1)] less(3,4) s(1) Cons have "unescape InPath (headerText r) = Some y" by simp
    with y s True Cons plain show ?thesis by (simp add: headerText_def headerByte_def)
  next
    case False
    with less(2) Cons obtain y where y: "unescape InPath s = Some y" "x = c # y" by auto
    from less(1) [OF _ y(1)] less(3,4) Cons have ih: "unescape InPath (headerText s) = Some y" by simp
    show ?thesis
    proof (cases "(of_char c :: nat) < 128")
      case True
      then have "headerByte c = [c]" using less(3,4) Cons by (auto simp: headerByte_def)
      with False ih y Cons show ?thesis by (simp add: headerText_def)
    next
      case high: False
      define h where "h = (\<lambda>d. if d < 10 then char_of (48 + d) else char_of (87 + d :: nat) :: char)"
      have hex: "unhex (h d) = Some d" if "d < 16" for d :: nat
        using that by (auto simp: unhex_def Let_def h_def)
      have "unhex (h (of_char c div 16)) = Some (of_char c div 16)" "unhex (h (of_char c mod 16)) = Some (of_char c mod 16)"
        using hex nat_of_char_less_256 [of c] by (simp_all add: div_less_iff_less_mult)
      moreover have "headerByte c = [CHR ''%'', h (of_char c div 16), h (of_char c mod 16)]"
        using high less(3,4) Cons by (auto simp: headerByte_def h_def)
      ultimately show ?thesis using ih y Cons by (simp add: headerText_def)
    qed
  qed
  qed
qed

section \<open>Absolute targets\<close>

lemma parseAuthority_browser:
  assumes "parseAuthority authority = Some host" "\<not> list_ex controlByte authority"
  shows "unescape InPath (case cutLast (CHR ''@'') (headerText authority) of None \<Rightarrow> headerText authority | Some (_, h) \<Rightarrow> h) = Some host"
proof (cases "cutLast (CHR ''@'') authority")
  case None
  then have at: "CHR ''@'' \<notin> set authority" by simp
  have "CHR ''@'' \<notin> set (headerText authority)" by (rule headerText_lacks [OF at]) (use not_alnum in auto)
  then have c: "cutLast (CHR ''@'') (headerText authority) = None" by (simp only: cutLast_None not_False_eq_True)
  have "unescape InPath authority = Some host"
    using assms(1) None by (intro parseHost_path) (simp add: parseAuthority_def)
  with headerText_unescape noControl [OF assms(2)] show ?thesis unfolding c option.case by blast
next
  case (Some uh)
  obtain u h where uh: "uh = (u, h)" by (cases uh)
  note cut = cutLast_Some [OF Some [unfolded uh]]
  have "CHR ''@'' \<notin> set (headerText h)" by (rule headerText_lacks) (use cut not_alnum in auto)
  moreover have "headerText authority = headerText u @ CHR ''@'' # headerText h"
    using cut by (simp add: headerText_def headerByte_def)
  ultimately have c: "cutLast (CHR ''@'') (headerText authority) = Some (headerText u, headerText h)"
    by (simp add: cutLast_append)
  have "parseHost h = Some host"
    using assms(1) Some uh by (cases "parseHost h") (simp_all add: parseAuthority_def split: if_split_asm)
  then have "unescape InPath h = Some host" by (rule parseHost_path)
  moreover have "CHR 0x0A \<notin> set h" "CHR 0x0D \<notin> set h" using noControl [OF assms(2)] cut by simp_all
  ultimately show ?thesis using c headerText_unescape by simp
qed

lemma browse_absolute:
  assumes "Parse url = Some (scheme, host)" "scheme = ''http'' \<or> scheme = ''https''" "host \<noteq> []"
    "CHR 0x5C \<notin> set url" "CHR 0x09 \<notin> set url"
  shows "browse (headerText url) = Origin scheme host"
proof -
  have "scheme \<noteq> []" using assms(2) by auto
  from Parse_absolute [OF assms(1) this assms(3)] obtain p authority after where
    url: "url = p @ ''://'' @ authority @ after" "toLower p = scheme" "p \<noteq> []" "list_all schemeByte p" "isAlpha (hd p)"
    and au: "parseAuthority authority = Some host" "\<not> list_ex controlByte authority" "CHR ''/'' \<notin> set authority"
      "CHR ''?'' \<notin> set authority" "CHR ''#'' \<notin> set authority"
    and after: "after = [] \<or> hd after = CHR ''/'' \<or> hd after = CHR ''?'' \<or> hd after = CHR ''#''" .
  have "headerText p = p" using url(4) schemeByte_ascii by (intro headerText_ascii) (auto simp: list_all_iff)
  then have loc: "headerText url = p @ CHR '':'' # ''//'' @ headerText authority @ headerText after"
    unfolding url(1) by (simp add: headerText_def headerByte_def)
  have "dropWhile (\<lambda>c. (of_char c :: nat) \<le> 32) (headerText url) = headerText url"
    using loc url(3,5) by (cases p) (auto simp: isAlpha_def)
  then have s: "filter (\<lambda>c. \<not> dropped c) (dropWhile (\<lambda>c. (of_char c :: nat) \<le> 32) (headerText url)) = headerText url"
    using headerText_undropped [OF assms(5)] by simp
  have g: "getScheme (headerText url) = Some (p, ''//'' @ headerText authority @ headerText after)"
    unfolding loc using getScheme_append [OF url(3,4,5)] by simp
  have ne: "authority \<noteq> []" using au(1) assms(3) by (auto simp: parseAuthority_def parseHost_def hasPrefix_def cutLast_def)
  have lacks: "CHR ''/'' \<notin> set (headerText authority)" "CHR ''?'' \<notin> set (headerText authority)" "CHR ''#'' \<notin> set (headerText authority)"
    "CHR 0x5C \<notin> set (headerText authority)"
    using au(3-5) assms(4) url(1) not_alnum by (simp_all add: headerText_lacks)
  have hne: "headerText authority \<noteq> []" using ne by (cases authority) (auto simp: headerText_def headerByte_def Let_def)
  then obtain x xs where x: "headerText authority = x # xs" by (cases "headerText authority") auto
  then have "\<not> slashByte x" using lacks by (auto simp: slashByte_def)
  then have d: "dropWhile slashByte (''//'' @ headerText authority @ headerText after) = headerText authority @ headerText after"
    using x by (simp add: slashByte_def)
  let ?Q = "\<lambda>c. \<not> slashByte c \<and> c \<noteq> CHR ''?'' \<and> c \<noteq> CHR ''#''"
  have all: "\<forall>c \<in> set (headerText authority). ?Q c" using lacks by (auto simp: slashByte_def)
  have stop: "takeWhile ?Q (headerText after) = []"
    using after by (cases after) (auto simp: headerText_def headerByte_def slashByte_def)
  have tw: "takeWhile ?Q (headerText authority @ headerText after) = headerText authority"
    using all stop by (simp add: takeWhile_append2)
  have "browserHost (''//'' @ headerText authority @ headerText after) = Some host"
    using parseAuthority_browser [OF au(1,2)] unfolding browserHost_def d tw Let_def .
  with g s url(2,3) assms(2) show ?thesis unfolding browse_def Let_def by auto
qed

section \<open>Relative targets\<close>

lemma cleanStep_parts:
  assumes "\<forall>el \<in> set out. Q el \<and> el \<noteq> []" "Q el"
  shows "\<forall>x \<in> set (cleanStep el out). Q x \<and> x \<noteq> []"
  using assms unfolding cleanStep_def by (auto dest: in_set_butlastD)

lemma fold_cleanStep_parts:
  "\<forall>el \<in> set els. Q el \<Longrightarrow> \<forall>el \<in> set out. Q el \<and> el \<noteq> [] \<Longrightarrow> \<forall>x \<in> set (fold cleanStep els out). Q x \<and> x \<noteq> []"
proof (induction els arbitrary: out)
  case (Cons el els)
  from cleanStep_parts [OF Cons.prems(2), of el] Cons.prems(1)
  have "\<forall>x \<in> set (cleanStep el out). Q x \<and> x \<noteq> []" by simp
  from Cons.IH [OF _ this] Cons.prems(1) show ?case by simp
qed simp

text \<open>A cleaned location starts with exactly one slash.\<close>

lemma cleanLocation_parts:
  assumes "CHR 0x5C \<notin> set url" "CHR 0x09 \<notin> set url"
  obtains X where "cleanLocation url = CHR ''/'' # X" "X = [] \<or> hd X \<noteq> CHR ''/''" "set X \<subseteq> set url \<union> {CHR ''/''}"
proof -
  define path where "path = takeWhile (\<lambda>c. c \<noteq> CHR ''?'') url"
  define query where "query = dropWhile (\<lambda>c. c \<noteq> CHR ''?'') url"
  define els where "els = fold cleanStep (strSplit path (CHR ''/'')) []"
  have els: "\<forall>el \<in> set els. (CHR ''/'' \<notin> set el \<and> set el \<subseteq> set path) \<and> el \<noteq> []"
    unfolding els_def by (rule fold_cleanStep_parts) (simp_all add: strSplit_no_sep set_strSplit)
  have sub: "set path \<subseteq> set url" "set query \<subseteq> set url"
    unfolding path_def query_def by (auto dest: set_takeWhileD set_dropWhileD)
  have q: "query = [] \<or> hd query = CHR ''?''" unfolding query_def by (rule hd_cut)
  define trail where "trail = (if hasSuffix path ''/'' \<and> \<not> hasSuffix (cleanRooted path) ''/'' then ''/'' else [])"
  define X where "X = strJoin els ''/'' @ trail @ query"
  have c: "cleanLocation url = CHR ''/'' # X"
    by (simp add: cleanLocation_def X_def trail_def path_def query_def els_def cleanRooted_def Let_def)
  have "X = [] \<or> hd X \<noteq> CHR ''/''"
  proof (cases els)
    case Nil
    then have "trail = []" by (simp add: trail_def cleanRooted_def els_def hasSuffix_def)
    with Nil q show ?thesis by (auto simp: X_def)
  next
    case (Cons el rest)
    with els obtain x xs where el: "el = x # xs" "x \<noteq> CHR ''/''" by (cases el) auto
    with Cons have "hd X = x" by (cases rest) (simp_all add: X_def)
    with el show ?thesis by simp
  qed
  moreover have "set X \<subseteq> set url \<union> {CHR ''/''}"
    using set_strJoin [of els "''/''"] els sub by (auto simp: X_def trail_def)
  ultimately show thesis using that c by blast
qed

lemma browse_relative:
  assumes "CHR 0x5C \<notin> set url" "CHR 0x09 \<notin> set url"
  shows "browse (headerText (cleanLocation url)) = SameOrigin"
proof -
  from cleanLocation_parts [OF assms] obtain X where X: "cleanLocation url = CHR ''/'' # X" "X = [] \<or> hd X \<noteq> CHR ''/''"
    "set X \<subseteq> set url \<union> {CHR ''/''}" .
  have h: "headerText (cleanLocation url) = CHR ''/'' # headerText X" unfolding X(1) by (simp add: headerText_def headerByte_def)
  have tab: "CHR 0x09 \<notin> set (cleanLocation url)" using X assms(2) by auto
  have f: "filter (\<lambda>c. \<not> dropped c) (CHR ''/'' # headerText X) = CHR ''/'' # headerText X"
    using headerText_undropped [OF tab] unfolding h .
  have "\<not> slashByte (hd (headerText X @ [CHR ''x'']))"
  proof (cases X)
    case (Cons x xs)
    with X assms(1) have x: "x \<noteq> CHR ''/''" "x \<noteq> CHR 0x5C" by auto
    show ?thesis using x Cons by (auto simp: headerText_def headerByte_def Let_def slashByte_def)
  qed (simp add: headerText_def slashByte_def)
  moreover have "dropWhile (\<lambda>c. (of_char c :: nat) \<le> 32) (CHR ''/'' # headerText X) = CHR ''/'' # headerText X" by simp
  ultimately show ?thesis unfolding browse_def h Let_def by (simp only: f getScheme_rooted) simp
qed

section \<open>Appended results\<close>

lemma suffix_chars:
  assumes "resultSuffix target sfx"
  shows "CHR 0x5C \<notin> set sfx" "CHR 0x09 \<notin> set sfx" "\<not> list_ex controlByte sfx" "CHR ''#'' \<notin> set (tl sfx)"
    "unescape InPath sfx \<noteq> None"
proof -
  have ok: "isAlpha c \<or> isDigit c \<or> c \<in> set ''-_.~=&%+'' \<Longrightarrow> c \<noteq> CHR 0x5C \<and> c \<noteq> CHR 0x09 \<and> \<not> controlByte c \<and> c \<noteq> CHR ''#''" for c
    by (auto simp: isAlpha_def isDigit_def controlByte_def)
  have tl: "\<forall>c \<in> set (tl sfx). c \<noteq> CHR 0x5C \<and> c \<noteq> CHR 0x09 \<and> \<not> controlByte c \<and> c \<noteq> CHR ''#''"
  proof
    fix c assume "c \<in> set (tl sfx)"
    then have "isAlpha c \<or> isDigit c \<or> c \<in> set ''-_.~=&%+''"
      using assms unfolding resultSuffix_def list_all_iff by (metis list.sel(2) list.set(1) empty_iff)
    then show "c \<noteq> CHR 0x5C \<and> c \<noteq> CHR 0x09 \<and> \<not> controlByte c \<and> c \<noteq> CHR ''#''" by (rule ok)
  qed
  have special: "hd sfx \<in> {CHR ''#'', CHR ''?'', CHR ''&''}" if "sfx \<noteq> []" using assms that by (auto simp: resultSuffix_def)
  have "\<forall>c \<in> {CHR ''#'', CHR ''?'', CHR ''&''}. c \<noteq> CHR 0x5C \<and> c \<noteq> CHR 0x09 \<and> \<not> controlByte c" by (simp add: controlByte_def)
  with special have hd: "hd sfx \<noteq> CHR 0x5C \<and> hd sfx \<noteq> CHR 0x09 \<and> \<not> controlByte (hd sfx)" if "sfx \<noteq> []" using that by blast
  have "\<forall>c \<in> set sfx. c \<noteq> CHR 0x5C \<and> c \<noteq> CHR 0x09 \<and> \<not> controlByte c"
    using tl hd by (cases sfx) auto
  then show "CHR 0x5C \<notin> set sfx" "CHR 0x09 \<notin> set sfx" "\<not> list_ex controlByte sfx" by (auto simp: list_ex_iff)
  show "CHR ''#'' \<notin> set (tl sfx)" using tl by blast
  show "unescape InPath sfx \<noteq> None" using assms by (cases sfx) (auto simp: resultSuffix_def)
qed

text \<open>A query parameter does not change the part before the query.\<close>

lemma parseParts_query:
  assumes "parseParts t = Some (scheme, host)" "scheme \<noteq> [] \<or> hasPrefix t ''/''"
    "\<not> list_ex controlByte sfx" "hd sfx = CHR ''?'' \<and> CHR ''?'' \<notin> set t \<or> hd sfx = CHR ''&'' \<and> CHR ''?'' \<in> set t" "sfx \<noteq> []"
  shows "parseParts (t @ sfx) = Some (scheme, host)"
proof -
  have nc: "\<not> list_ex controlByte t" using assms(1) by (auto simp: parseParts_def)
  have star: "t \<noteq> ''*''" using assms(1,2) nc by (auto simp: parseParts_def hasPrefix_def)
  obtain p r where g: "getScheme t = Some (p, r)"
    using assms(1) nc star by (cases "getScheme t") (auto simp: parseParts_def)
  have g': "getScheme (t @ sfx) = Some (p, r @ sfx) \<and> (CHR ''?'' \<in> set r \<longleftrightarrow> CHR ''?'' \<in> set t)"
  proof (cases "p = []")
    case True
    then have "scheme = []" using assms(1) nc star g by (auto simp: parseParts_def Let_def split: if_splits option.splits)
    with assms(2) obtain t' where t': "t = CHR ''/'' # t'" by (cases t) (auto simp: hasPrefix_def)
    with g have r: "r = t" by simp
    show ?thesis unfolding r t' append_Cons getScheme_rooted True by simp
  next
    case False
    from getScheme_Some [OF g False] have sp: "t = p @ CHR '':'' # r" "list_all schemeByte p" "isAlpha (hd p)" by auto
    have "CHR ''?'' \<notin> set p" using sp(2) schemeByte_ascii by (auto simp: list_all_iff)
    with sp getScheme_append [OF False sp(2,3), of "r @ sfx"] show ?thesis by simp
  qed
  have cut: "fst (cutAt (CHR ''?'') (r @ sfx)) = fst (cutAt (CHR ''?'') r)"
  proof (cases "CHR ''?'' \<in> set r")
    case True
    then show ?thesis by (auto simp: cutAt_def takeWhile_append)
  next
    case False
    then have "hd sfx = CHR ''?''" using assms(4) g' by auto
    with assms(5) False have "takeWhile (\<lambda>x. x \<noteq> CHR ''?'') (r @ sfx) = r" by (cases sfx) (auto simp: takeWhile_append)
    moreover have "takeWhile (\<lambda>x. x \<noteq> CHR ''?'') r = r" using False by (auto simp: takeWhile_eq_all_conv)
    ultimately show ?thesis by (simp only: cutAt_def fst_conv)
  qed
  have "t @ sfx \<noteq> ''*''" using assms(4,5) by (cases t; cases sfx) auto
  then have "parseParts (t @ sfx) = parseParts t"
    using nc assms(3) star g g' cut by (simp add: parseParts_def)
  with assms(1) show ?thesis by simp
qed

lemma Parse_suffix:
  assumes "Parse t = Some (scheme, host)" "scheme \<noteq> [] \<or> hasPrefix t ''/''" "resultSuffix t sfx"
  shows "Parse (t @ sfx) = Some (scheme, host)"
proof (cases "sfx = []")
  case False
  note sc = suffix_chars [OF assms(3)]
  let ?u = "takeWhile (\<lambda>x. x \<noteq> CHR ''#'') t"
  have pu: "parseParts ?u = Some (scheme, host)"
    using assms(1) by (auto simp: Parse_def cutAt_def split: option.splits if_splits)
  show ?thesis
  proof (cases "CHR ''#'' \<in> set t")
    case True
    obtain f where f: "dropWhile (\<lambda>x. x \<noteq> CHR ''#'') t = CHR ''#'' # f"
      using True hd_cut [of "CHR ''#''" t] by (cases "dropWhile (\<lambda>x. x \<noteq> CHR ''#'') t") (auto simp: dropWhile_eq_Nil_conv)
    then have "unescape InPath f \<noteq> None" using assms(1) by (auto simp: Parse_def cutAt_def split: option.splits if_splits)
    with sc(5) have "unescape InPath (f @ sfx) \<noteq> None" using unescape_append by fastforce
    moreover have "cutAt (CHR ''#'') (t @ sfx) = (?u, f @ sfx)" using True f by (auto simp: cutAt_def takeWhile_append dropWhile_append)
    ultimately show ?thesis using pu by (auto simp: Parse_def)
  next
    case False
    then have u: "?u = t" by (auto simp: takeWhile_eq_all_conv)
    show ?thesis
    proof (cases "hd sfx = CHR ''#''")
      case True
      with \<open>sfx \<noteq> []\<close> False have "cutAt (CHR ''#'') (t @ sfx) = (t, tl sfx)"
        by (cases sfx) (auto simp: cutAt_def takeWhile_append dropWhile_append)
      with pu u assms(3) \<open>sfx \<noteq> []\<close> show ?thesis by (auto simp: Parse_def resultSuffix_def)
    next
      case other: False
      then have "CHR ''#'' \<notin> set (t @ sfx)" using False sc(4) \<open>sfx \<noteq> []\<close> by (cases sfx) auto
      then have "takeWhile (\<lambda>x. x \<noteq> CHR ''#'') (t @ sfx) = t @ sfx" "dropWhile (\<lambda>x. x \<noteq> CHR ''#'') (t @ sfx) = []"
        unfolding takeWhile_eq_all_conv dropWhile_eq_Nil_conv by auto
      then have c: "cutAt (CHR ''#'') (t @ sfx) = (t @ sfx, [])" by (simp only: cutAt_def) simp
      have "parseParts (t @ sfx) = Some (scheme, host)"
        by (rule parseParts_query) (use pu u assms(2,3) sc(3) other \<open>sfx \<noteq> []\<close> in \<open>auto simp: resultSuffix_def\<close>)
      then show ?thesis by (simp only: Parse_def c) simp
    qed
  qed
qed (use assms in simp)


text \<open>
  A tab matters: it passes the check when it stands after a number sign, \<open>http.Redirect\<close> cleans the path with the
  fragment in it, and the browser drops the tab. The target below is accepted and leads to another host.
\<close>

definition tabTarget :: string where
  "tabTarget = ''/a#/../'' @ [CHR 0x09] @ ''/b.c''"

lemma tab_escapes:
  "IsRedirectAllowed a tabTarget baseURL \<and> browse (location [] (tabTarget @ ''#t=1'')) = Origin [] ''b.c''"
proof
  have "Parse tabTarget = Some ([], [])" by code_simp
  then show "IsRedirectAllowed a tabTarget baseURL" by (simp add: IsRedirectAllowed_def tabTarget_def hasPrefix_def)
  show "browse (location [] (tabTarget @ ''#t=1'')) = Origin [] ''b.c''" by code_simp
qed

end
