(* ===== verification/Auth_Handlers.thy ===== *)
theory Auth_Handlers
  imports Auth_Flows Auth_OTP Auth_Redirect Config_Suggest
begin

text \<open>
  The request handlers of \<open>internal/adapter/http/auth_handler.go\<close> that sign a user in or act for a signed-in user. A
  request comes decoded and with its caller verified; the answer is its status and code, or what it carries. Handlers make several
  calls of the service, so requests can interleave between calls: \<open>gv_es g i\<close> is what call number \<open>i\<close> of request \<open>g\<close> sees.
\<close>

section \<open>The server and a request\<close>

text \<open>
  What the handlers use from outside: password comparison (\<open>bcrypt\<close>), \<open>lower(text)\<close>, \<open>jsonb\<close> concatenation and casts to
  intervals of Postgres, the metadata documents of a new external account, the \<open>email\<close> rule of the validator, the
  check of an ID token, and the user a provider returns for a code.
\<close>

record providerUser =
  pu_ID :: string
  pu_Email :: string
  pu_Name :: string
  pu_Verified :: bool

record server =
  sv_Auth :: Auth
  sv_base :: string
  sv_mailer :: bool
  sv_check :: "string \<Rightarrow> string \<Rightarrow> bool"
  sv_lower :: "string \<Rightarrow> string"
  sv_merge :: "string \<Rightarrow> string \<Rightarrow> string"
  sv_interval :: "string \<Rightarrow> int option"
  sv_meta :: "OAuthLogin \<Rightarrow> string \<times> string"
  sv_validEmail :: "string \<Rightarrow> bool"
  sv_idProvider :: "string \<Rightarrow> bool"
  sv_idToken :: "string \<Rightarrow> string \<Rightarrow> string \<Rightarrow> providerUser option"
  sv_exchange :: "string \<Rightarrow> string \<Rightarrow> providerUser option"

text \<open>Of one request: its environment, what issuing a session takes, three random values, and password hashing.\<close>

record given =
  gv_es :: "nat \<Rightarrow> env"
  gv_iss :: issuing
  gv_tok :: string
  gv_token :: string
  gv_code :: string
  gv_hash :: "string \<Rightarrow> string option"

record mail =
  ml_To :: string
  ml_Token :: string
  ml_Code :: string
  ml_Link :: string

text \<open>
  \<open>Opened\<close> carries the access token, signed for the user with the session's metadata, and the refresh token;
  \<open>Landed\<close> is the same in the fragment of a redirect.
\<close>

datatype answer =
    Fail nat string
  | Opened userView SessionMeta string
  | Landed nat string userView SessionMeta string
  | Redirected nat string
  | UserAnswer userView
  | CodeAnswer string
  | Plain nat

type_synonym outcome = "answer \<times> mail list \<times> authdb"

text \<open>The claims of the access token, as the handlers read them back.\<close>

definition claimsOf :: "userView \<Rightarrow> SessionMeta \<Rightarrow> caller" where
  "claimsOf view meta = \<lparr>ca_UserID = u_id (fst view), ca_Email = asText (u_email (fst view)), ca_AAL = sm_AAL (Normalize_meta meta),
     ca_SessionID = sm_SessionID meta, ca_AMR = sm_AMR meta\<rparr>"

definition serverBaseURL :: "string \<Rightarrow> int \<Rightarrow> string" where
  "serverBaseURL envValue port =
     (if envValue \<noteq> [] then rev (dropWhile (\<lambda>c. c = CHR ''/'') (rev envValue)) else ''http://localhost:'' @ itoaInt port)"

definition redirectAllowed :: "server \<Rightarrow> string \<Rightarrow> bool" where
  "redirectAllowed sv target = IsRedirectAllowed (Some (sv_Auth sv)) target (sv_base sv)"

definition resolveRedirect :: "server \<Rightarrow> string \<Rightarrow> string" where
  "resolveRedirect sv target = (if redirectAllowed sv target \<and> target \<noteq> [] then target else sv_base sv)"

definition resolveEmailRedirect :: "server \<Rightarrow> string \<Rightarrow> string \<Rightarrow> string" where
  "resolveEmailRedirect sv rt purpose =
     (if rt \<noteq> [] \<and> redirectAllowed sv rt then rt
      else if purpose = ''recovery'' then sv_base sv @ ''/reset-password''
      else if purpose = ''signup'' then sv_base sv @ ''/verify-email''
      else sv_base sv)"

definition buildVerifyLink :: "server \<Rightarrow> string \<Rightarrow> string \<Rightarrow> string \<Rightarrow> string" where
  "buildVerifyLink sv token verifyType redirectTo =
     sv_base sv @ ''/auth/v1/verify?token='' @ token @ (if verifyType \<noteq> [] then ''&type='' @ verifyType else []) @
     (if redirectTo \<noteq> [] then ''&redirect_to='' @ QueryEscape redirectTo else [])"

section \<open>Sessions\<close>

definition sessionError :: "auth_error \<Rightarrow> answer" where
  "sessionError err = (if err = ErrUserBanned then Fail 403 ''user_banned'' else Fail 500 ''internal'')"

definition buildSession :: "given \<Rightarrow> userView \<Rightarrow> string \<Rightarrow> nat \<Rightarrow> authdb \<Rightarrow> (auth_error + SessionMeta \<times> string) \<times> authdb" where
  "buildSession g view meth i =
     issueSession (gv_iss g) (u_id (fst view)) view
       \<lparr>sm_SessionID = [], sm_IP = [], sm_UserAgent = [], sm_AAL = ''aal1'',
        sm_AMR = [\<lparr>amr_Method = meth, amr_Timestamp = en_clock (gv_es g i) div sec\<rparr>]\<rparr>
       (gv_tok g) (gv_es g i)"

definition openSession :: "given \<Rightarrow> userView \<Rightarrow> string \<Rightarrow> nat \<Rightarrow> authdb \<Rightarrow> outcome" where
  "openSession g view meth i db =
     (case buildSession g view meth i db of
        (Inl err, db) \<Rightarrow> (sessionError err, [], db)
      | (Inr (m, t), db) \<Rightarrow> (Opened view m t, [], db))"

definition expiry :: "given \<Rightarrow> nat \<Rightarrow> int \<Rightarrow> int" where
  "expiry g i seconds = (en_clock (gv_es g i) + seconds * sec) div sec"

definition verifyEmailOn :: "server \<Rightarrow> bool" where
  "verifyEmailOn sv = (case auth_Email (sv_Auth sv) of None \<Rightarrow> False | Some em \<Rightarrow> ae_VerifyEmail em)"

text \<open>The token is stored whether or not the mail goes out; a failure to store it is ignored.\<close>

definition sendVerificationEmail :: "server \<Rightarrow> given \<Rightarrow> string \<Rightarrow> string \<Rightarrow> string \<Rightarrow> nat \<Rightarrow> authdb \<Rightarrow> mail list \<times> authdb" where
  "sendVerificationEmail sv g uid email redirectTo i db =
     ([\<lparr>ml_To = email, ml_Token = gv_token g, ml_Code = [], ml_Link = buildVerifyLink sv (gv_token g) ''signup'' redirectTo\<rparr>],
      snd (CreateOneTimeToken uid (gv_token g) ''signup'' (expiry g i (24 * 3600)) (gv_es g i) db))"

text \<open>The metadata of an anonymous account, as JSON.\<close>

definition anonymousMeta :: string where
  "anonymousMeta = [CHR 0x7B, CHR 0x22] @ ''is_anonymous'' @ [CHR 0x22] @ '':true,'' @ [CHR 0x22] @ ''provider'' @ [CHR 0x22] @ '':'' @ [CHR 0x22] @ ''anonymous'' @ [CHR 0x22] @ '','' @ [CHR 0x22] @ ''providers'' @ [CHR 0x22] @ '':['' @ [CHR 0x22] @ ''anonymous'' @ [CHR 0x22] @ '']'' @ [CHR 0x7D]"

definition handleSignupAnonymous :: "server \<Rightarrow> given \<Rightarrow> string option \<Rightarrow> authdb \<Rightarrow> outcome" where
  "handleSignupAnonymous sv g data db =
     (case CreateUser (sv_interval sv) \<lparr>cu_Email = [], cu_Password = [], cu_AppMetadata = Some anonymousMeta, cu_UserMetadata = data,
        cu_EmailConfirmed = False, cu_Anonymous = True, cu_BanDuration = []\<rparr> (gv_es g 0) db of
        (Inl _, db) \<Rightarrow> (Fail 500 ''internal'', [], db)
      | (Inr view, db) \<Rightarrow> openSession g view ''anonymous'' 1 db)"

definition handleSignup :: "server \<Rightarrow> given \<Rightarrow> string \<Rightarrow> string \<Rightarrow> string \<Rightarrow> string option \<Rightarrow> authdb \<Rightarrow> outcome" where
  "handleSignup sv g redirectTo email password data db =
     (if email = [] \<or> \<not> sv_validEmail sv email \<or> length (runes password) < 8 then (Fail 400 ''bad_request'', [], db)
      else case gv_hash g password of
          None \<Rightarrow> (Fail 500 ''internal'', [], db)
        | Some hash \<Rightarrow>
            (case CreateUser (sv_interval sv) \<lparr>cu_Email = email, cu_Password = hash, cu_AppMetadata = None, cu_UserMetadata = data,
               cu_EmailConfirmed = False, cu_Anonymous = False, cu_BanDuration = []\<rparr> (gv_es g 0) db of
               (Inl err, db) \<Rightarrow> (if isDuplicateKeyErr err then Fail 409 ''conflict'' else Fail 500 ''internal'', [], db)
             | (Inr view, db) \<Rightarrow>
                 if verifyEmailOn sv then
                   (case (if sv_mailer sv
                          then sendVerificationEmail sv g (u_id (fst view)) email (resolveEmailRedirect sv redirectTo ''signup'') 1 db
                          else ([], db)) of (mails, db) \<Rightarrow> (UserAnswer view, mails, db))
                 else openSession g view ''password'' 1 db))"

text \<open>\<open>email\<close> is the empty text where the body has no text there.\<close>

definition handleSignupDispatch :: "server \<Rightarrow> given \<Rightarrow> string \<Rightarrow> string \<Rightarrow> string \<Rightarrow> string option \<Rightarrow> authdb \<Rightarrow> outcome" where
  "handleSignupDispatch sv g redirectTo email password data db =
     (if \<not> SignupAllowed (Some (sv_Auth sv)) then (Fail 422 ''signup_disabled'', [], db)
      else if trimSpace email = [] then
        (if \<not> AnonymousAllowed (Some (sv_Auth sv)) then (Fail 422 ''anonymous_provider_disabled'', [], db)
         else handleSignupAnonymous sv g data db)
      else handleSignup sv g redirectTo email password data db)"

definition handlePasswordGrant :: "server \<Rightarrow> given \<Rightarrow> string \<Rightarrow> string \<Rightarrow> authdb \<Rightarrow> outcome" where
  "handlePasswordGrant sv g email password db =
     (if password = [] \<or> email = [] then (Fail 400 ''bad_request'', [], db)
      else case VerifyPassword (sv_check sv) email password (gv_es g 0) db of
          (Inl _, db) \<Rightarrow> (Fail 401 ''invalid_grant'', [], db)
        | (Inr view, db) \<Rightarrow>
            if verifyEmailOn sv \<and> \<not> u_verified (fst view) then (Fail 403 ''email_not_confirmed'', [], db)
            else openSession g view ''password'' 2 (RecordSignIn (u_id (fst view)) (gv_es g 1) db))"

text \<open>A refresh signs for the session it continues; the new refresh token is stored before the signature may fail.\<close>

definition handleRefreshGrant :: "server \<Rightarrow> given \<Rightarrow> string \<Rightarrow> authdb \<Rightarrow> outcome" where
  "handleRefreshGrant sv g token db =
     (let nextTok = \<lparr>rr_Token = gv_tok g, rr_ExpiresAt = (en_clock (gv_es g 0) + is_ttl (gv_iss g)) div sec,
            rr_IP = is_IP (gv_iss g), rr_UserAgent = is_UserAgent (gv_iss g)\<rparr> in
      if token = [] then (Fail 400 ''bad_request'', [], db)
      else case ConsumeRefreshToken token nextTok (gv_es g 0) db of
          (Inl _, db) \<Rightarrow> (Fail 401 ''invalid_grant'', [], db)
        | (Inr (view, meta, t), db) \<Rightarrow>
            if snd view then (sessionError ErrUserBanned, [], db)
            else if is_keyFails (gv_iss g) then (sessionError (AuthDBError ''jwt key''), [], db)
            else (Opened view (Normalize_meta meta) t, [], db))"

definition handlePKCEGrant :: "server \<Rightarrow> given \<Rightarrow> string \<Rightarrow> string \<Rightarrow> authdb \<Rightarrow> outcome" where
  "handlePKCEGrant sv g authCode verifier db =
     (if authCode = [] \<or> verifier = [] then (Fail 400 ''bad_request'', [], db)
      else case GetPKCEFlowState authCode (gv_es g 0) db of
          (Inl _, db) \<Rightarrow> (Fail 401 ''invalid_grant'', [], db)
        | (Inr (challenge, method, uid), db) \<Rightarrow>
            let db = snd (DeletePKCEFlowState authCode (gv_es g 1) db) in
            if \<not> verifyCodeChallenge method verifier challenge then (Fail 401 ''invalid_grant'', [], db)
            else (case GetUserByID uid (gv_es g 2) db of
                    (Inl _, db) \<Rightarrow> (Fail 401 ''invalid_grant'', [], db)
                  | (Inr view, db) \<Rightarrow> openSession g view ''oauth'' 3 db))"

text \<open>Status, code and message.\<close>

definition oauthLoginError :: "auth_error \<Rightarrow> string \<Rightarrow> nat \<times> string \<times> string" where
  "oauthLoginError err provider =
     (case err of
        ErrSignupDisabled \<Rightarrow> (422, ''signup_disabled'', ''Signups not allowed for this instance'')
      | ErrProviderEmailUnverified \<Rightarrow> (422, ''provider_email_needs_verification'', ''Unverified email with '' @ provider)
      | ErrOAuthLinkRefused \<Rightarrow> (422, ''email_exists'',
          ''An account with this email already exists; confirm your email, or sign in to it and link '' @ provider)
      | _ \<Rightarrow> (500, ''internal'', ''Failed to create or find user''))"

definition oauthLogin :: "server \<Rightarrow> string \<Rightarrow> providerUser \<Rightarrow> OAuthLogin" where
  "oauthLogin sv provider pu = \<lparr>ol_Provider = provider, ol_ProviderUserID = pu_ID pu, ol_Email = pu_Email pu, ol_Name = pu_Name pu,
     ol_EmailVerified = pu_Verified pu, ol_AllowSignup = SignupAllowed (Some (sv_Auth sv))\<rparr>"

definition configured :: "server \<Rightarrow> string \<Rightarrow> bool" where
  "configured sv provider = (case map_of (auth_OAuth (sv_Auth sv)) provider of Some (Some _) \<Rightarrow> True | _ \<Rightarrow> False)"

definition handleIDTokenGrant :: "server \<Rightarrow> given \<Rightarrow> string \<Rightarrow> string \<Rightarrow> string \<Rightarrow> string \<Rightarrow> authdb \<Rightarrow> outcome" where
  "handleIDTokenGrant sv g provider idToken token0 nonce db =
     (let token = (if idToken \<noteq> [] then idToken else token0) in
      if provider = [] \<or> token = [] then (Fail 400 ''bad_request'', [], db)
      else if \<not> sv_idProvider sv provider \<or> \<not> configured sv provider then (Fail 400 ''bad_request'', [], db)
      else case sv_idToken sv provider token nonce of
          None \<Rightarrow> (Fail 401 ''invalid_token'', [], db)
        | Some pu \<Rightarrow>
            if pu_Email pu = [] then (Fail 400 ''bad_request'', [], db)
            else (case UpsertOAuthUser (sv_lower sv) (sv_meta sv) (oauthLogin sv provider pu) (gv_es g 0) db of
                    (Inl err, db) \<Rightarrow> (case oauthLoginError err provider of (st, code, _) \<Rightarrow> (Fail st code, [], db))
                  | (Inr view, db) \<Rightarrow> openSession g view ''oauth'' 1 db))"

section \<open>The signed-in user\<close>

definition handleGetUser :: "given \<Rightarrow> caller \<Rightarrow> authdb \<Rightarrow> outcome" where
  "handleGetUser g c db =
     (case GetUserByID (ca_UserID c) (gv_es g 0) db of
        (Inl _, db) \<Rightarrow> (Fail 404 ''not_found'', [], db)
      | (Inr view, db) \<Rightarrow> (UserAnswer view, [], db))"

text \<open>The sessions that a change of the password ends: all but the caller's.\<close>

definition endOtherSessions :: "given \<Rightarrow> caller \<Rightarrow> nat \<Rightarrow> authdb \<Rightarrow> authdb" where
  "endOtherSessions g c i db =
     snd (if ca_SessionID c \<noteq> [] then RevokeOtherSessions (ca_UserID c) (ca_SessionID c) (gv_es g i) db
          else RevokeAllUserSessions (ca_UserID c) (gv_es g i) db)"

definition handleUpdateUser :: "server \<Rightarrow> given \<Rightarrow> caller \<Rightarrow> string option \<Rightarrow> string option \<Rightarrow> string option \<Rightarrow> authdb \<Rightarrow> outcome" where
  "handleUpdateUser sv g c email password data db =
     (let newEmail = (case email of Some a \<Rightarrow> a \<noteq> [] \<and> \<not> equalFold (trimSpace a) (trimSpace (ca_Email c)) | None \<Rightarrow> False);
          newPassword = (case password of Some w \<Rightarrow> w \<noteq> [] | None \<Rightarrow> False) in
      if newPassword \<and> length (the password) < 8 then (Fail 400 ''bad_request'', [], db)
      else if newPassword \<and> gv_hash g (the password) = None then (Fail 500 ''internal'', [], db)
      else case UpdateUser (sv_interval sv) (sv_merge sv) (ca_UserID c) \<lparr>up_Email = email,
              up_Password = (if newPassword then gv_hash g (the password) else None), up_AppMetadata = None, up_UserMetadata = data,
              up_EmailConfirmed = None, up_Banned = None, up_BanDuration = None, up_ClearEmailVerified = newEmail\<rparr> (gv_es g 0) db of
          (Inl err, db) \<Rightarrow> (if isDuplicateKeyErr err then Fail 409 ''conflict'' else Fail 500 ''internal'', [], db)
        | (Inr view, db) \<Rightarrow> (UserAnswer view, [], if newPassword then endOtherSessions g c 1 db else db))"

definition handleLogout :: "given \<Rightarrow> caller \<Rightarrow> string \<Rightarrow> authdb \<Rightarrow> outcome" where
  "handleLogout g c scope db =
     (Plain 204, [],
      if ca_UserID c = [] then db
      else if ca_SessionID c \<noteq> [] \<and> scope = ''local'' then snd (RevokeSessionByID (ca_SessionID c) (gv_es g 0) db)
      else if ca_SessionID c \<noteq> [] \<and> scope = ''others'' then snd (RevokeOtherSessions (ca_UserID c) (ca_SessionID c) (gv_es g 0) db)
      else snd (RevokeAllUserSessions (ca_UserID c) (gv_es g 0) db))"

end
