(* ===== verification/Auth_Mail_Handlers.thy ===== *)
theory Auth_Mail_Handlers
  imports Auth_Handlers
begin

text \<open>
  The handlers that work with mailed tokens and codes (\<open>auth_handler.go\<close>): recovery, verification by form and by link,
  one-time sign-in, resending, reauthentication, and the links an administrator makes. \<open>stale_link_verifies\<close> in
  \<open>Auth_Access_Examples\<close> shows a
  weakness: a link mailed to an old address marks the new one verified.
\<close>

section \<open>Recovery\<close>

definition emailResendCooldown :: int where "emailResendCooldown = 60 * sec"

definition otpCooldown :: "given \<Rightarrow> nat \<Rightarrow> string \<Rightarrow> string \<Rightarrow> authdb \<Rightarrow> bool" where
  "otpCooldown g i uid purpose db =
     (case fst (RecentOTPSent uid purpose emailResendCooldown (gv_es g i) db) of Inl _ \<Rightarrow> False | Inr recent \<Rightarrow> recent)"

definition mailed :: "server \<Rightarrow> mail \<Rightarrow> mail list" where
  "mailed sv m = (if sv_mailer sv then [m] else [])"

definition handleRecover :: "server \<Rightarrow> given \<Rightarrow> string \<Rightarrow> string \<Rightarrow> authdb \<Rightarrow> outcome" where
  "handleRecover sv g rt email db =
     (if email = [] \<or> \<not> sv_validEmail sv email then (Fail 400 ''bad_request'', [], db)
      else case fst (GetUserIDByEmail email (gv_es g 0) db) of
          Inl _ \<Rightarrow> (Plain 200, [], db)
        | Inr uid \<Rightarrow>
            if uid = [] \<or> otpCooldown g 1 uid ''recovery'' db then (Plain 200, [], db)
            else (Plain 200,
              mailed sv \<lparr>ml_To = email, ml_Token = gv_token g, ml_Code = [],
                ml_Link = buildVerifyLink sv (gv_token g) ''recovery'' (resolveEmailRedirect sv rt ''recovery'')\<rparr>,
              snd (CreateOneTimeToken uid (gv_token g) ''recovery'' (expiry g 2 3600) (gv_es g 2) db)))"

section \<open>Verification\<close>

definition verifyAMRMethod :: "string gmap" where
  "verifyAMRMethod = [(''signup'', ''email/signup''), (''email'', ''otp''), (''magiclink'', ''magiclink''),
     (''recovery'', ''recovery''), (''email_change'', ''email_change'')]"

text \<open>The purposes each verify type accepts; \<open>None\<close> is an unsupported type.\<close>

definition purposesFor :: "string \<Rightarrow> string list option" where
  "purposesFor verifyType =
     (if verifyType = ''signup'' \<or> verifyType = ''email'' \<or> verifyType = ''email_change'' then Some [''signup'', ''magiclink'']
      else if verifyType = ''recovery'' then Some [''recovery'']
      else if verifyType = ''magiclink'' then Some [''signup'', ''magiclink'']
      else None)"

definition handleVerify :: "server \<Rightarrow> given \<Rightarrow> string \<Rightarrow> string \<Rightarrow> string \<Rightarrow> authdb \<Rightarrow> outcome" where
  "handleVerify sv g verifyType token email db =
     (if verifyType = [] \<or> token = [] then (Fail 400 ''bad_request'', [], db)
      else case purposesFor verifyType of
          None \<Rightarrow> (Fail 400 ''bad_request'', [], db)
        | Some allowed \<Rightarrow>
            (case VerifyOTP token email allowed (gv_es g 0) db of
               (Inl err, db) \<Rightarrow> (if err = ErrPurposeMismatch then Fail 400 ''bad_request'' else Fail 401 ''invalid_grant'', [], db)
             | (Inr otp, db) \<Rightarrow>
                 let db = (if otp_Purpose otp = ''signup'' \<or> otp_Purpose otp = ''magiclink''
                           then MarkEmailVerified (otp_UserID otp) (gv_es g 1) db else db) in
                 (case GetUserByID (otp_UserID otp) (gv_es g 2) db of
                    (Inl _, db) \<Rightarrow> (Fail 500 ''internal'', [], db)
                  | (Inr view, db) \<Rightarrow>
                      openSession g view (case map_of verifyAMRMethod verifyType of None \<Rightarrow> [] | Some m \<Rightarrow> m) 3 db)))"

text \<open>A click on a mailed link. The answers that are plain text carry the status only.\<close>

definition handleVerifyGET :: "server \<Rightarrow> given \<Rightarrow> string \<Rightarrow> string \<Rightarrow> string \<Rightarrow> authdb \<Rightarrow> outcome" where
  "handleVerifyGET sv g token verifyType rt db =
     (if token = [] then (Fail 400 ''bad_request'', [], db)
      else case PeekOneTimeToken token (gv_es g 0) db of
          (Inl _, db) \<Rightarrow> (Plain 400, [], db)
        | (Inr otp, db) \<Rightarrow>
            (case DeleteOneTimeToken token (gv_es g 1) db of
               (Inl _, db) \<Rightarrow> (Plain 400, [], db)
             | (Inr _, db) \<Rightarrow>
                 if otp_Purpose otp = ''recovery'' \<or> verifyType = ''recovery'' then
                   (case GetUserByID (otp_UserID otp) (gv_es g 2) db of
                      (Inl _, db) \<Rightarrow> (Plain 500, [], db)
                    | (Inr view, db) \<Rightarrow>
                        (case buildSession g view ''recovery'' 3 db of
                           (Inl err, db) \<Rightarrow> (Plain (if err = ErrUserBanned then 403 else 500), [], db)
                         | (Inr (m, t), db) \<Rightarrow> (Landed 303 (resolveRedirect sv rt) view m t, [], db)))
                 else
                   let db = MarkEmailVerified (otp_UserID otp) (gv_es g 2) db in
                   (if rt \<noteq> [] \<and> redirectAllowed sv rt then Redirected 303 rt else Plain 200, [], db)))"

section \<open>One-time sign-in\<close>

text \<open>A code and a link to the same address; the link has no target.\<close>

definition magicLink :: "server \<Rightarrow> given \<Rightarrow> string \<Rightarrow> mail list" where
  "magicLink sv g email = mailed sv \<lparr>ml_To = email, ml_Token = gv_token g, ml_Code = gv_code g,
     ml_Link = buildVerifyLink sv (gv_token g) ''magiclink'' []\<rparr>"

text \<open>The end of three handlers: store the code, then mail it; \<open>failed\<close> is the answer when it cannot be stored.\<close>

definition issueCode :: "server \<Rightarrow> given \<Rightarrow> answer \<Rightarrow> string \<Rightarrow> string \<Rightarrow> string \<Rightarrow> int \<Rightarrow> nat \<Rightarrow> authdb \<Rightarrow> outcome" where
  "issueCode sv g failed uid email purpose life i db =
     (case CreateOTPCode uid (gv_token g) (gv_code g) email purpose (expiry g i life) (gv_es g i) db of
        (Inl _, db) \<Rightarrow> (failed, [], db)
      | (Inr _, db) \<Rightarrow> (Plain 200, magicLink sv g email, db))"

definition handleOTP :: "server \<Rightarrow> given \<Rightarrow> string \<Rightarrow> bool option \<Rightarrow> string option \<Rightarrow> authdb \<Rightarrow> outcome" where
  "handleOTP sv g email createUser data db =
     (let found = (case fst (GetUserIDByEmail email (gv_es g 0) db) of Inl _ \<Rightarrow> [] | Inr uid \<Rightarrow> uid);
          create = (case createUser of None \<Rightarrow> True | Some b \<Rightarrow> b) in
      if email = [] \<or> \<not> sv_validEmail sv email then (Fail 400 ''bad_request'', [], db)
      else if found = [] \<and> (\<not> create \<or> \<not> SignupAllowed (Some (sv_Auth sv))) then (Plain 200, [], db)
      else case (if found \<noteq> [] then (Some found, db)
                 else case CreateUser (sv_interval sv) \<lparr>cu_Email = email, cu_Password = [], cu_AppMetadata = None, cu_UserMetadata = data,
                     cu_EmailConfirmed = False, cu_Anonymous = False, cu_BanDuration = []\<rparr> (gv_es g 1) db of
                     (Inl _, db) \<Rightarrow> (None, db)
                   | (Inr view, db) \<Rightarrow> (Some (u_id (fst view)), db)) of
          (None, db) \<Rightarrow> (Plain 200, [], db)
        | (Some uid, db) \<Rightarrow>
            if otpCooldown g 2 uid ''magiclink'' db then (Plain 200, [], db)
            else issueCode sv g (Plain 200) uid email ''magiclink'' 3600 3 db)"

definition handleResend :: "server \<Rightarrow> given \<Rightarrow> string \<Rightarrow> string \<Rightarrow> authdb \<Rightarrow> outcome" where
  "handleResend sv g purpose email db =
     (if purpose = [] \<or> email = [] \<or> \<not> sv_validEmail sv email then (Fail 400 ''bad_request'', [], db)
      else if purpose \<notin> {''signup'', ''email_change'', ''magiclink''} then (Fail 400 ''bad_request'', [], db)
      else if purpose = ''email_change'' then (Plain 200, [], db)
      else case fst (GetUserIDByEmail email (gv_es g 0) db) of
          Inl _ \<Rightarrow> (Plain 200, [], db)
        | Inr uid \<Rightarrow>
            if uid = [] then (Plain 200, [], db)
            else if purpose = ''signup'' \<and>
              (case fst (GetUserByID uid (gv_es g 1) db) of Inl _ \<Rightarrow> False | Inr view \<Rightarrow> u_verified (fst view))
            then (Plain 200, [], db)
            else if otpCooldown g 2 uid purpose db then (Fail 429 ''over_email_send_rate_limit'', [], db)
            else issueCode sv g (Plain 200) uid email purpose 3600 4 (snd (DeleteUserTokensByPurpose uid purpose (gv_es g 3) db)))"

definition handleReauthenticate :: "server \<Rightarrow> given \<Rightarrow> caller \<Rightarrow> authdb \<Rightarrow> outcome" where
  "handleReauthenticate sv g c db =
     (if ca_UserID c = [] then (Fail 401 ''unauthorized'', [], db)
      else case fst (GetUserEmail (ca_UserID c) (gv_es g 0) db) of
          Inl err \<Rightarrow> (if err = ErrNotFound then Fail 404 ''not_found'' else Fail 422 ''unprocessable'', [], db)
        | Inr email \<Rightarrow>
            if email = [] then (Fail 422 ''unprocessable'', [], db)
            else issueCode sv g (Fail 500 ''internal'') (ca_UserID c) email ''reauthentication'' 600 1 db)"

section \<open>Links made by an administrator\<close>

text \<open>The answer is the user with the link; the link is not mailed.\<close>

definition handleGenerateLink ::
    "server \<Rightarrow> given \<Rightarrow> string \<Rightarrow> string \<Rightarrow> string \<Rightarrow> string option \<Rightarrow> string \<Rightarrow> authdb \<Rightarrow> (nat \<times> string + userView \<times> string) \<times> authdb" where
  "handleGenerateLink sv g linkType email password data redirectTo db =
     (if linkType = [] \<or> email = [] \<or> \<not> sv_validEmail sv email \<or> linkType \<notin> {''signup'', ''magiclink'', ''recovery''}
      then (Inl (400, ''bad_request''), db)
      else
        let found = (case fst (GetUserByEmail email (gv_es g 0) db) of Inl _ \<Rightarrow> None | Inr view \<Rightarrow> Some view) in
        if found = None \<and> linkType \<noteq> ''signup'' then (Inl (404, ''not_found''), db)
        else if found = None \<and> password \<noteq> [] \<and> gv_hash g password = None then (Inl (500, ''internal''), db)
        else case (case found of
              Some view \<Rightarrow> (Some view, db)
            | None \<Rightarrow>
                (case CreateUser (sv_interval sv) \<lparr>cu_Email = email,
                     cu_Password = (if password = [] then [] else the (gv_hash g password)), cu_AppMetadata = None,
                     cu_UserMetadata = data, cu_EmailConfirmed = False, cu_Anonymous = False, cu_BanDuration = []\<rparr> (gv_es g 1) db of
                   (Inl _, db) \<Rightarrow> (None, db)
                 | (Inr view, db) \<Rightarrow> (Some view, db))) of
            (None, db) \<Rightarrow> (Inl (500, ''internal''), db)
          | (Some view, db) \<Rightarrow>
              (case CreateOneTimeToken (u_id (fst view)) (gv_token g) linkType (expiry g 2 3600) (gv_es g 2) db of
                 (Inl _, db) \<Rightarrow> (Inl (500, ''internal''), db)
               | (Inr _, db) \<Rightarrow> (Inr (view, buildVerifyLink sv (gv_token g) linkType redirectTo), db)))"

end
