(* ===== verification/Auth_OAuth_Handlers.thy ===== *)
theory Auth_OAuth_Handlers
  imports Auth_Mail_Handlers
begin

text \<open>
  Sign-in through an external provider (\<open>auth_handler.go\<close>, \<open>internal/adapter/auth/oauthprovider.go\<close> and \<open>apple.go\<close>): the
  way to the provider and back, the PKCE code of the app, linking and unlinking of identities; and the handlers of the
  administrator.
\<close>

section \<open>Providers\<close>

definition OAuthRegistry :: "string \<Rightarrow> bool" where
  "OAuthRegistry name = (name \<in> {''google'', ''apple'', ''github''})"

definition ClientIDs :: "string \<Rightarrow> string list" where
  "ClientIDs s = filter (\<lambda>i. i \<noteq> []) (map trimSpace (strSplit s (CHR '','')))"

definition firstClientID :: "string \<Rightarrow> string" where
  "firstClientID s = (case ClientIDs s of [] \<Rightarrow> [] | i # _ \<Rightarrow> i)"

definition AuthorizeURL :: "string \<Rightarrow> OAuthProvider \<Rightarrow> string \<Rightarrow> string" where
  "AuthorizeURL provider cfg state =
     (if provider = ''google'' then
        ''https://accounts.google.com/o/oauth2/v2/auth?client_id='' @ oa_ClientID cfg @ ''&redirect_uri='' @
        QueryEscape (oa_RedirectURL cfg) @ ''&response_type=code&scope=openid+email+profile&state='' @ state
      else if provider = ''github'' then
        ''https://github.com/login/oauth/authorize?client_id='' @ oa_ClientID cfg @ ''&redirect_uri='' @
        QueryEscape (oa_RedirectURL cfg) @ ''&scope=user:email&state='' @ state
      else ''https://appleid.apple.com/auth/authorize?'' @
        replaceAll (Encode [(''client_id'', firstClientID (oa_ClientID cfg)), (''redirect_uri'', oa_RedirectURL cfg),
          (''response_type'', ''code''), (''response_mode'', ''form_post''), (''scope'', ''name email''), (''state'', state)])
          (CHR ''+'') ''%20'')"

text \<open>The primary verified address of a GitHub account, else any verified one: address, primary, verified.\<close>

definition fetchGitHubPrimaryEmail :: "(string \<times> bool \<times> bool) list \<Rightarrow> string option" where
  "fetchGitHubPrimaryEmail emails =
     (case find (\<lambda>(_, primary, verified). primary \<and> verified) emails of
        Some (a, _) \<Rightarrow> Some a
      | None \<Rightarrow> map_option fst (find (\<lambda>(_, _, verified). verified) emails))"

definition oauthCallbackBase :: "server \<Rightarrow> string" where
  "oauthCallbackBase sv = sv_base sv @ ''/auth/v1/callback/''"

definition effectiveOAuthConfig :: "server \<Rightarrow> string \<Rightarrow> OAuthProvider \<Rightarrow> OAuthProvider" where
  "effectiveOAuthConfig sv provider cfg =
     (if oa_RedirectURL cfg \<noteq> [] then cfg else cfg\<lparr>oa_RedirectURL := oauthCallbackBase sv @ provider\<rparr>)"

text \<open>The configuration in force; \<open>None\<close> for an unknown or unconfigured provider.\<close>

definition providerConfig :: "server \<Rightarrow> string \<Rightarrow> OAuthProvider option" where
  "providerConfig sv provider =
     (case map_of (auth_OAuth (sv_Auth sv)) provider of
        Some (Some cfg) \<Rightarrow> if OAuthRegistry provider then Some (effectiveOAuthConfig sv provider cfg) else None
      | _ \<Rightarrow> None)"

section \<open>To the provider\<close>

text \<open>\<open>stale\<close>: see \<open>CreateOAuthFlowState\<close>.\<close>

definition handleAuthorize ::
    "(flowRow \<Rightarrow> bool) \<Rightarrow> server \<Rightarrow> given \<Rightarrow> string \<Rightarrow> string \<Rightarrow> string \<Rightarrow> string \<Rightarrow> authdb \<Rightarrow> outcome" where
  "handleAuthorize stale sv g provider redirectTo challenge method0 db =
     (if \<not> redirectAllowed sv redirectTo then (Fail 400 ''bad_request'', [], db)
      else case providerConfig sv provider of
          None \<Rightarrow> (Fail 400 ''bad_request'', [], db)
        | Some cfg \<Rightarrow>
            let method = (if challenge \<noteq> [] \<and> method0 = [] then ''S256'' else method0) in
            (case CreateOAuthFlowState stale (gv_token g) challenge method redirectTo [] (gv_es g 0) db of
               (Inl _, db) \<Rightarrow> (Fail 500 ''internal'', [], db)
             | (Inr _, db) \<Rightarrow> (Redirected 307 (AuthorizeURL provider cfg (gv_token g)), [], db)))"

text \<open>The link flow is bound to the browser by a cookie with the state, which the answer sets.\<close>

definition handleLinkIdentity ::
    "(flowRow \<Rightarrow> bool) \<Rightarrow> server \<Rightarrow> given \<Rightarrow> caller \<Rightarrow> string \<Rightarrow> string \<Rightarrow> authdb \<Rightarrow> (nat \<times> string + string \<times> string) \<times> authdb" where
  "handleLinkIdentity stale sv g c provider redirectTo db =
     (case providerConfig sv provider of
        None \<Rightarrow> (Inl (400, ''bad_request''), db)
      | Some cfg \<Rightarrow>
          (case CreateOAuthFlowState stale (gv_token g) [] [] redirectTo (ca_UserID c) (gv_es g 0) db of
             (Inl _, db) \<Rightarrow> (Inl (500, ''internal''), db)
           | (Inr _, db) \<Rightarrow> (Inr (AuthorizeURL provider cfg (gv_token g), gv_token g), db)))"

section \<open>And back\<close>

definition oauthLanding :: "server \<Rightarrow> string \<Rightarrow> string option" where
  "oauthLanding sv redirectTo =
     (if redirectTo \<noteq> [] \<and> redirectAllowed sv redirectTo then Some redirectTo
      else case auth_RedirectURLs (sv_Auth sv) of [] \<Rightarrow> None | u # _ \<Rightarrow> Some u)"

definition appendOAuthParams :: "string \<Rightarrow> bool \<Rightarrow> (string \<times> string) list \<Rightarrow> string" where
  "appendOAuthParams target isPKCE vs =
     (if isPKCE then target @ (if CHR ''?'' \<in> set target then ''&'' else ''?'') @ Encode vs else target @ ''#'' @ Encode vs)"

definition oauthCallbackFail :: "server \<Rightarrow> string \<Rightarrow> bool \<Rightarrow> string \<Rightarrow> answer" where
  "oauthCallbackFail sv redirectTo isPKCE desc =
     (case oauthLanding sv redirectTo of
        Some target \<Rightarrow> Redirected 302 (appendOAuthParams target isPKCE
          [(''error'', ''server_error''), (''error_code'', ''unexpected_failure''), (''error_description'', desc)])
      | None \<Rightarrow> Fail 500 ''oauth_error'')"

definition maxCallbackParam :: nat where "maxCallbackParam = 4096"

text \<open>\<open>form\<close> gives the posted values, empty where there is none.\<close>

definition handleOAuthFormPost :: "server \<Rightarrow> string \<Rightarrow> (string \<Rightarrow> string) \<Rightarrow> answer" where
  "handleOAuthFormPost sv provider form =
     (let q = filter (\<lambda>(_, v). v \<noteq> [] \<and> length v \<le> maxCallbackParam)
            (map (\<lambda>k. (k, form k)) [''code'', ''state'', ''user'', ''error'', ''error_description'']);
          target = (case map_of (auth_OAuth (sv_Auth sv)) provider of
              Some (Some cfg) \<Rightarrow> oa_RedirectURL (effectiveOAuthConfig sv provider cfg)
            | _ \<Rightarrow> oauthCallbackBase sv @ provider) in
      Redirected 303 (appendOAuthParams target True q))"

text \<open>What the browser brings to the callback: the query, and the cookie of a link flow.\<close>

record callback =
  cb_State :: string
  cb_Error :: string
  cb_Code :: string
  cb_Cookie :: string

text \<open>The user is known: link it, or sign it in with a code (PKCE) or with the session in the fragment.\<close>

definition finishOAuth ::
    "server \<Rightarrow> given \<Rightarrow> string \<Rightarrow> FlowState \<Rightarrow> providerUser \<Rightarrow> authdb \<Rightarrow> outcome" where
  "finishOAuth sv g provider flow pu db =
     (let redirectTo = fs_RedirectTo flow; isPKCE = (fs_CodeChallenge flow \<noteq> []) in
      if fs_LinkingUserID flow \<noteq> [] then
        (if redirectTo \<noteq> [] \<and> redirectAllowed sv redirectTo then Redirected 302 (redirectTo @ ''#message=identity_linked'') else Plain 200,
         [], LinkIdentity (fs_LinkingUserID flow) provider (pu_ID pu) (pu_Email pu) (gv_es g 1) db)
      else case UpsertOAuthUser (sv_lower sv) (sv_meta sv) (oauthLogin sv provider pu) (gv_es g 1) db of
          (Inl err, db) \<Rightarrow> (oauthCallbackFail sv redirectTo isPKCE (snd (snd (oauthLoginError err provider))), [], db)
        | (Inr view, db) \<Rightarrow>
            if isPKCE then
              (case CreatePKCEFlowState (gv_token g) (u_id (fst view)) (fs_CodeChallenge flow)
                   (if fs_CodeChallengeMethod flow = [] then ''S256'' else fs_CodeChallengeMethod flow) (gv_es g 2) db of
                 (Inl _, db) \<Rightarrow> (Fail 500 ''internal'', [], db)
               | (Inr _, db) \<Rightarrow>
                   (if redirectTo \<noteq> [] \<and> redirectAllowed sv redirectTo
                    then Redirected 302 (redirectTo @ (if CHR ''?'' \<in> set redirectTo then ''&'' else ''?'') @ ''code='' @ gv_token g)
                    else CodeAnswer (gv_token g), [], db))
            else (case buildSession g view ''oauth'' 2 db of
                    (Inl err, db) \<Rightarrow> (sessionError err, [], db)
                  | (Inr (m, t), db) \<Rightarrow>
                      (case oauthLanding sv redirectTo of
                         Some target \<Rightarrow> (Landed 302 target view m t, [], db)
                       | None \<Rightarrow> (Opened view m t, [], db))))"

definition handleOAuthCallback :: "server \<Rightarrow> given \<Rightarrow> string \<Rightarrow> callback \<Rightarrow> authdb \<Rightarrow> outcome" where
  "handleOAuthCallback sv g provider cb db =
     (case ConsumeOAuthFlowState (cb_State cb) (gv_es g 0) db of
        (Inl _, db) \<Rightarrow> (Fail 400 ''bad_request'', [], db)
      | (Inr flow, db) \<Rightarrow>
          let failed = (\<lambda>desc. (oauthCallbackFail sv (fs_RedirectTo flow) (fs_CodeChallenge flow \<noteq> []) desc, [], db)) in
          if fs_LinkingUserID flow \<noteq> [] \<and> cb_Cookie cb \<noteq> cb_State cb then
            (if oauthLanding sv (fs_RedirectTo flow) = None then (Fail 400 ''bad_oauth_state'', [], db)
             else failed ''Identity linking must be finished in the browser that started it'')
          else if cb_Error cb \<noteq> [] then failed ''Authorization was denied by the provider''
          else if cb_Code cb = [] then (Fail 400 ''bad_request'', [], db)
          else if providerConfig sv provider = None then (Fail 400 ''bad_request'', [], db)
          else case sv_exchange sv provider (cb_Code cb) of
              None \<Rightarrow> failed ''Unable to exchange external code''
            | Some pu \<Rightarrow>
                if pu_Email pu = [] then failed ''Could not retrieve email from OAuth provider''
                else finishOAuth sv g provider flow pu db)"

section \<open>Identities\<close>

definition handleListIdentities :: "given \<Rightarrow> caller \<Rightarrow> authdb \<Rightarrow> (nat \<times> string + identityRow list) \<times> authdb" where
  "handleListIdentities g c db =
     (case ListIdentities (ca_UserID c) (gv_es g 0) db of
        (Inl _, db) \<Rightarrow> (Inl (500, ''internal''), db)
      | (Inr rows, db) \<Rightarrow> (Inr rows, db))"

definition handleUnlinkIdentity :: "given \<Rightarrow> caller \<Rightarrow> string \<Rightarrow> authdb \<Rightarrow> outcome" where
  "handleUnlinkIdentity g c ident db =
     (case fst (CountIdentities (ca_UserID c) (gv_es g 0) db) of
        Inl _ \<Rightarrow> (Fail 500 ''internal'', [], db)
      | Inr n \<Rightarrow>
          let hasPassword = (case fst (HasPassword (ca_UserID c) (gv_es g 1) db) of Inl _ \<Rightarrow> False | Inr b \<Rightarrow> b) in
          if n \<le> 1 \<and> \<not> hasPassword then (Fail 400 ''bad_request'', [], db)
          else (case DeleteIdentityByID ident (ca_UserID c) (gv_es g 2) db of
                  (Inl err, db) \<Rightarrow> (if err = ErrNotFound then Fail 404 ''not_found'' else Fail 500 ''internal'', [], db)
                | (Inr _, db) \<Rightarrow> (Plain 200, [], db)))"

text \<open>So no identity is ever unlinked: a request that passes the check of the remaining sign-in methods ends in an error.\<close>

lemma unlink_never_succeeds:
  "\<exists>st code. handleUnlinkIdentity g c ident db = (Fail st code, [], db)"
  by (auto simp: handleUnlinkIdentity_def DeleteIdentityByID_fails Let_def split: sum.split)

section \<open>The administrator\<close>

text \<open>The address rule is that of \<open>net/mail\<close>: \<open>sv_validEmail\<close> stands for it too. An empty \<open>app_metadata\<close> counts as missing.\<close>

definition emailMeta :: string where
  "emailMeta = [CHR 0x7B, CHR 0x22] @ ''provider'' @ [CHR 0x22] @ '':'' @ [CHR 0x22] @ ''email'' @ [CHR 0x22] @ '','' @ [CHR 0x22] @ ''providers'' @ [CHR 0x22] @ '':['' @ [CHR 0x22] @ ''email'' @ [CHR 0x22] @ '']'' @ [CHR 0x7D]"

definition handleAdminCreateUser ::
    "server \<Rightarrow> given \<Rightarrow> string \<Rightarrow> string \<Rightarrow> bool \<Rightarrow> string option \<Rightarrow> string option \<Rightarrow> string \<Rightarrow> authdb \<Rightarrow> outcome" where
  "handleAdminCreateUser sv g email password confirm userMeta appMeta ban db =
     (if email = [] \<or> \<not> sv_validEmail sv email then (Fail 400 ''bad_request'', [], db)
      else if password \<noteq> [] \<and> gv_hash g password = None then (Fail 500 ''internal'', [], db)
      else case CreateUser (sv_interval sv) \<lparr>cu_Email = email, cu_Password = (if password = [] then [] else the (gv_hash g password)),
             cu_AppMetadata = Some (case appMeta of None \<Rightarrow> emailMeta | Some m \<Rightarrow> m), cu_UserMetadata = userMeta,
             cu_EmailConfirmed = confirm, cu_Anonymous = False, cu_BanDuration = ban\<rparr> (gv_es g 0) db of
          (Inl err, db) \<Rightarrow> (if isDuplicateKeyErr err then Fail 422 ''user_already_exists'' else Fail 500 ''internal'', [], db)
        | (Inr view, db) \<Rightarrow> (UserAnswer view, [], db))"

text \<open>A page of users, the total, and the number of the last page.\<close>

definition handleAdminListUsers :: "given \<Rightarrow> int \<Rightarrow> int \<Rightarrow> authdb \<Rightarrow> (nat \<times> string + userView list \<times> int \<times> int) \<times> authdb" where
  "handleAdminListUsers g page0 perPage0 db =
     (let page = (if page0 < 1 then 1 else page0); perPage = (if perPage0 < 1 \<or> 1000 < perPage0 then 50 else perPage0) in
      case ListUsers page perPage (gv_es g 0) db of
        (Inl _, db) \<Rightarrow> (Inl (500, ''internal''), db)
      | (Inr (rows, n), db) \<Rightarrow> (Inr (rows, n, max 1 ((n + perPage - 1) div perPage)), db))"

definition handleAdminGetUser :: "given \<Rightarrow> string \<Rightarrow> authdb \<Rightarrow> outcome" where
  "handleAdminGetUser g uid db =
     (case GetUserByID uid (gv_es g 0) db of
        (Inl _, db) \<Rightarrow> (Fail 404 ''user_not_found'', [], db)
      | (Inr view, db) \<Rightarrow> (UserAnswer view, [], db))"

definition handleAdminUpdateUser ::
    "server \<Rightarrow> given \<Rightarrow> string \<Rightarrow> string option \<Rightarrow> string option \<Rightarrow> bool option \<Rightarrow> string option \<Rightarrow> string option \<Rightarrow> string option \<Rightarrow>
     authdb \<Rightarrow> outcome" where
  "handleAdminUpdateUser sv g uid email password confirm userMeta appMeta ban db =
     (let newPassword = (case password of Some w \<Rightarrow> w \<noteq> [] | None \<Rightarrow> False) in
      if (case email of Some a \<Rightarrow> a \<noteq> [] \<and> \<not> sv_validEmail sv a | None \<Rightarrow> False) then (Fail 400 ''bad_request'', [], db)
      else if newPassword \<and> gv_hash g (the password) = None then (Fail 500 ''internal'', [], db)
      else case UpdateUser (sv_interval sv) (sv_merge sv) uid \<lparr>up_Email = email,
              up_Password = (if newPassword then gv_hash g (the password) else None), up_AppMetadata = appMeta, up_UserMetadata = userMeta,
              up_EmailConfirmed = confirm, up_Banned = None, up_BanDuration = ban, up_ClearEmailVerified = False\<rparr> (gv_es g 0) db of
          (Inl err, db) \<Rightarrow> (if isDuplicateKeyErr err then Fail 422 ''email_exists'' else Fail 404 ''user_not_found'', [], db)
        | (Inr view, db) \<Rightarrow> (UserAnswer view, [], if snd view then snd (RevokeAllUserSessions uid (gv_es g 1) db) else db))"

definition handleAdminDeleteUser :: "given \<Rightarrow> string \<Rightarrow> authdb \<Rightarrow> outcome" where
  "handleAdminDeleteUser g uid db =
     (case DeleteUser uid (gv_es g 0) db of
        (Inl err, db) \<Rightarrow> (if err = ErrNotFound then Fail 404 ''user_not_found'' else Fail 500 ''internal'', [], db)
      | (Inr _, db) \<Rightarrow> (Plain 200, [], db))"

definition handleAdminInvite :: "server \<Rightarrow> given \<Rightarrow> string \<Rightarrow> string option \<Rightarrow> authdb \<Rightarrow> outcome" where
  "handleAdminInvite sv g email data db =
     (if email = [] \<or> \<not> sv_validEmail sv email then (Fail 400 ''bad_request'', [], db)
      else if (case fst (GetUserIDByEmail email (gv_es g 0) db) of Inl _ \<Rightarrow> False | Inr i \<Rightarrow> i \<noteq> [])
      then (Fail 422 ''user_already_exists'', [], db)
      else case CreateUser (sv_interval sv) \<lparr>cu_Email = email, cu_Password = [], cu_AppMetadata = Some emailMeta, cu_UserMetadata = data,
             cu_EmailConfirmed = False, cu_Anonymous = False, cu_BanDuration = []\<rparr> (gv_es g 1) db of
          (Inl _, db) \<Rightarrow> (Fail 500 ''internal'', [], db)
        | (Inr view, db) \<Rightarrow>
            (case (if auth_Email (sv_Auth sv) \<noteq> None \<and> sv_mailer sv then sendVerificationEmail sv g (u_id (fst view)) email [] 2 db else ([], db)) of
               (mails, db) \<Rightarrow> (UserAnswer view, mails, db)))"

definition handleAdminSignOut :: "given \<Rightarrow> string \<Rightarrow> authdb \<Rightarrow> outcome" where
  "handleAdminSignOut g uid db = (Plain 204, [], snd (RevokeAllUserSessions uid (gv_es g 0) db))"

definition handleAdminDeleteFactor :: "given \<Rightarrow> string \<Rightarrow> string \<Rightarrow> authdb \<Rightarrow> outcome" where
  "handleAdminDeleteFactor g uid factorID db =
     (case DeleteFactorForUser factorID uid True (gv_es g 0) db of
        (Inl err, db) \<Rightarrow> (if err = ErrNotFound then Fail 404 ''not_found'' else Fail 500 ''internal'', [], db)
      | (Inr _, db) \<Rightarrow> (Plain 200, [], db))"

end
