(* ===== verification/Auth_Router.thy ===== *)
theory Auth_Router
  imports Auth_OAuth_Handlers
begin

text \<open>
  The routes under \<open>/auth/v1\<close> (\<open>Mount\<close> in \<open>auth_handler.go\<close>, \<open>MountMFA\<close> in \<open>mfa_handler.go\<close>): one request with what the
  middleware made of it, and the handler it reaches. A request on a route behind \<open>jwtAuth\<close> carries the caller, read from a verified
  access token. Of an answer that is a document only the status is kept.
\<close>

datatype tokenBody =
    PasswordBody string string
  | RefreshBody string
  | PKCEBody string string
  | IDTokenBody string string string string
  | OtherBody

datatype request =
    Signup string string string "string option"
  | Token tokenBody
  | GetUser caller
  | PutUser caller "string option" "string option" "string option"
  | Logout caller string
  | Recover string string
  | VerifyForm string string string
  | VerifyLink string string string
  | OTP string "bool option" "string option"
  | Resend string string
  | Reauthenticate caller
  | Authorize string string string string
  | Callback string callback
  | FormPost string "string \<Rightarrow> string"
  | ListIds caller
  | LinkId caller string string
  | UnlinkId caller string
  | EnrollF caller string string "string option"
  | ChallengeF caller string
  | VerifyF caller string string string
  | UnenrollF caller string
  | GenerateLink string string string "string option" string
  | AdminCreate string string bool "string option" "string option" string
  | AdminList int int
  | AdminGet string
  | AdminUpdate string "string option" "string option" "bool option" "string option" "string option" "string option"
  | AdminDelete string
  | AdminSignOut string
  | AdminDeleteFactor string string
  | Invite string "string option"

fun callerOf :: "request \<Rightarrow> caller option" where
  "callerOf (GetUser c) = Some c"
| "callerOf (PutUser c _ _ _) = Some c"
| "callerOf (Logout c _) = Some c"
| "callerOf (Reauthenticate c) = Some c"
| "callerOf (ListIds c) = Some c"
| "callerOf (LinkId c _ _) = Some c"
| "callerOf (UnlinkId c _) = Some c"
| "callerOf (EnrollF c _ _ _) = Some c"
| "callerOf (ChallengeF c _) = Some c"
| "callerOf (VerifyF c _ _ _) = Some c"
| "callerOf (UnenrollF c _) = Some c"
| "callerOf _ = None"

definition statusOf :: "(nat \<times> string + 'a) \<times> authdb \<Rightarrow> outcome" where
  "statusOf r = (case r of (Inl (st, code), db) \<Rightarrow> (Fail st code, [], db) | (Inr _, db) \<Rightarrow> (Plain 200, [], db))"

definition answerOf :: "response \<times> authdb \<Rightarrow> outcome" where
  "answerOf r = (case r of (Problem st code, db) \<Rightarrow> (Fail st code, [], db) | (Issued view m t, db) \<Rightarrow> (Opened view m t, [], db))"

definition handleToken :: "server \<Rightarrow> given \<Rightarrow> tokenBody \<Rightarrow> authdb \<Rightarrow> outcome" where
  "handleToken sv g body db =
     (case body of
        PasswordBody email password \<Rightarrow> handlePasswordGrant sv g email password db
      | RefreshBody token \<Rightarrow> handleRefreshGrant sv g token db
      | PKCEBody code verifier \<Rightarrow> handlePKCEGrant sv g code verifier db
      | IDTokenBody provider idToken token nonce \<Rightarrow> handleIDTokenGrant sv g provider idToken token nonce db
      | OtherBody \<Rightarrow> (Fail 400 ''bad_request'', [], db))"

definition notRouted :: "authdb \<Rightarrow> outcome" where
  "notRouted db = (Plain 404, [], db)"

definition emailRoute :: "server \<Rightarrow> outcome \<Rightarrow> authdb \<Rightarrow> outcome" where
  "emailRoute sv r db = (if auth_Email (sv_Auth sv) = None then notRouted db else r)"

definition callbackRoute :: "server \<Rightarrow> string \<Rightarrow> outcome \<Rightarrow> authdb \<Rightarrow> outcome" where
  "callbackRoute sv provider r db = (if configured sv provider \<and> OAuthRegistry provider then r else notRouted db)"

text \<open>\<open>totp\<close> and \<open>stale\<close>: see \<open>Auth_MFA\<close> and \<open>Auth_Flows\<close>.\<close>

fun serve ::
    "(string \<Rightarrow> int \<Rightarrow> string option) \<Rightarrow> (flowRow \<Rightarrow> bool) \<Rightarrow> server \<Rightarrow> given \<Rightarrow> request \<Rightarrow> authdb \<Rightarrow> outcome" where
  "serve totp stale sv g (Signup rt email password data) db = handleSignupDispatch sv g rt email password data db"
| "serve totp stale sv g (Token body) db = handleToken sv g body db"
| "serve totp stale sv g (GetUser c) db = handleGetUser g c db"
| "serve totp stale sv g (PutUser c email password data) db = handleUpdateUser sv g c email password data db"
| "serve totp stale sv g (Logout c scope) db = handleLogout g c scope db"
| "serve totp stale sv g (Recover rt email) db = emailRoute sv (handleRecover sv g rt email db) db"
| "serve totp stale sv g (VerifyForm ty token email) db = emailRoute sv (handleVerify sv g ty token email db) db"
| "serve totp stale sv g (VerifyLink token ty rt) db = emailRoute sv (handleVerifyGET sv g token ty rt db) db"
| "serve totp stale sv g (OTP email create data) db = emailRoute sv (handleOTP sv g email create data db) db"
| "serve totp stale sv g (Resend ty email) db = emailRoute sv (handleResend sv g ty email db) db"
| "serve totp stale sv g (Reauthenticate c) db = emailRoute sv (handleReauthenticate sv g c db) db"
| "serve totp stale sv g (Authorize provider rt ch m) db = handleAuthorize stale sv g provider rt ch m db"
| "serve totp stale sv g (Callback provider cb) db = callbackRoute sv provider (handleOAuthCallback sv g provider cb db) db"
| "serve totp stale sv g (FormPost provider form) db = callbackRoute sv provider (handleOAuthFormPost sv provider form, [], db) db"
| "serve totp stale sv g (ListIds c) db = statusOf (handleListIdentities g c db)"
| "serve totp stale sv g (LinkId c provider rt) db = statusOf (handleLinkIdentity stale sv g c provider rt db)"
| "serve totp stale sv g (UnlinkId c ident) db = handleUnlinkIdentity g c ident db"
| "serve totp stale sv g (EnrollF c ty name secret) db = statusOf (handleEnrollFactor secret c ty name (gv_es g) db)"
| "serve totp stale sv g (ChallengeF c fid) db = statusOf (handleChallengeFactor c fid (gv_es g 0) db)"
| "serve totp stale sv g (VerifyF c fid cid code) db =
     answerOf (handleVerifyFactor totp (gv_iss g) c fid cid code (gv_tok g) (gv_es g) db)"
| "serve totp stale sv g (UnenrollF c fid) db = statusOf (handleUnenrollFactor c fid (gv_es g) db)"
| "serve totp stale sv g (GenerateLink ty email password data rt) db = statusOf (handleGenerateLink sv g ty email password data rt db)"
| "serve totp stale sv g (AdminCreate email password confirm um am ban) db =
     handleAdminCreateUser sv g email password confirm um am ban db"
| "serve totp stale sv g (AdminList page perPage) db = statusOf (handleAdminListUsers g page perPage db)"
| "serve totp stale sv g (AdminGet uid) db = handleAdminGetUser g uid db"
| "serve totp stale sv g (AdminUpdate uid email password confirm um am ban) db =
     handleAdminUpdateUser sv g uid email password confirm um am ban db"
| "serve totp stale sv g (AdminDelete uid) db = handleAdminDeleteUser g uid db"
| "serve totp stale sv g (AdminSignOut uid) db = handleAdminSignOut g uid db"
| "serve totp stale sv g (AdminDeleteFactor uid fid) db = handleAdminDeleteFactor g uid fid db"
| "serve totp stale sv g (Invite email data) db = handleAdminInvite sv g email data db"

text \<open>The session an answer opens: the user, the session and the refresh token.\<close>

fun opened :: "answer \<Rightarrow> (userView \<times> SessionMeta \<times> string) option" where
  "opened (Opened view m t) = Some (view, m, t)"
| "opened (Landed _ _ view m t) = Some (view, m, t)"
| "opened _ = None"

end
