(* ===== verification/Auth_MFA_Laws.thy ===== *)
theory Auth_MFA_Laws
  imports Auth_MFA
begin

text \<open>
  What the second factor guarantees: a session is raised only by a right, unused code of a factor that may raise it
  (\<open>verify_needs_code\<close>, \<open>aal1_cannot_bypass\<close>), and codes cannot be guessed: over any run, with any calls failing,
  a step is accepted once (\<open>totp_step_single_use\<close>) and a factor takes at most a hundred guesses in five minutes
  (\<open>mfa_guesses_bounded\<close>).
\<close>

section \<open>What raises a session\<close>

lemma GetFactorForVerify_ok:
  "GetFactorForVerify factorID userID e db = (Inr factor, db') \<Longrightarrow>
     db' = db \<and> (\<exists>f \<in> set (au_factors db). fa_id f = factorID \<and> fa_user f = userID \<and> mf_Secret factor = fa_secret f \<and>
       mf_Status factor = fa_status f)"
  by (auto simp: GetFactorForVerify_def split: if_splits option.splits dest!: find_SomeD)

lemma ValidateChallenge_ok:
  "ValidateChallenge cid fid e db = (Inr x, db') \<Longrightarrow>
     (\<exists>c \<in> set (au_challenges db). openChallenge cid fid (en_now e) c) \<and>
     db' = db\<lparr>au_challenges := updRows (openChallenge cid fid (en_now e)) (\<lambda>c. c\<lparr>ch_attempts := ch_attempts c + 1\<rparr>) (au_challenges db)\<rparr>"
  by (auto simp: ValidateChallenge_def list_ex_iff split: if_splits)

lemma ValidateChallenge_error: "ValidateChallenge cid fid e db = (Inl err, db') \<Longrightarrow> db' = db"
  by (auto simp: ValidateChallenge_def split: if_splits)

lemma ListFactors_ok: "fst (ListFactors u e db) = Inr fs \<Longrightarrow> set fs = {f \<in> set (au_factors db). fa_user f = u}"
  by (auto simp: ListFactors_def split: if_splits)

lemma challengeProblem_not_issued: "challengeProblem err \<noteq> Issued v m t"
  by (simp add: challengeProblem_def split: auth_error.splits)

lemma acceptCode_fresh:
  assumes "acceptCode iss c fid cid factor step tok es db = (Issued v m t, db')"
  shows "\<exists>f \<in> set (au_factors db). staleStep fid step f"
proof -
  obtain r d where c: "ConsumeTOTPStep fid step (es 4) db = (r, d)" by (cases "ConsumeTOTPStep fid step (es 4) db")
  with assms have "r = Inr True" by (cases r) (simp_all add: acceptCode_def split: if_splits)
  with c have "length (filter (staleStep fid step) (au_factors db)) = 1" by (auto simp: ConsumeTOTPStep_def split: if_splits)
  then have "filter (staleStep fid step) (au_factors db) \<noteq> []" by auto
  then show ?thesis by (auto simp: filter_empty_conv)
qed

lemma verify_cases:
  assumes "handleVerifyFactor totp iss c fid cid code tok es db = (Issued v m t, db')"
  obtains f factor step d where "f \<in> set (au_factors db)" "fa_id f = fid" "fa_user f = ca_UserID c" "mf_Secret factor = fa_secret f"
    "fa_status f = ''unverified'' \<Longrightarrow> sessionAAL c \<noteq> ''aal2'' \<Longrightarrow>
       \<forall>g \<in> set (au_factors db). fa_user g = ca_UserID c \<longrightarrow> fa_status g \<noteq> ''verified''"
    "ValidateChallenge cid fid (es 2) db = (Inr (), d)"
    "matchTOTPStep totp code (fa_secret f) (en_clock (es 3)) = Some step"
    "acceptCode iss c fid cid factor step tok es d = (Issued v m t, db')"
proof -
  obtain r d0 where g: "GetFactorForVerify fid (ca_UserID c) (es 0) db = (r, d0)" by (cases "GetFactorForVerify fid (ca_UserID c) (es 0) db")
  have nonempty: "\<not> (cid = [] \<or> code = [])" using assms by (auto simp: handleVerifyFactor_def split: if_splits)
  note h1 = assms [unfolded handleVerifyFactor_def if_not_P [OF nonempty] g prod.case]
  from h1 obtain factor where r: "r = Inr factor" by (cases r) simp_all
  from GetFactorForVerify_ok [OF g [unfolded r]] obtain f where f: "d0 = db" "f \<in> set (au_factors db)" "fa_id f = fid"
    "fa_user f = ca_UserID c" "mf_Secret factor = fa_secret f" "mf_Status factor = fa_status f" by blast
  note h2 = h1 [unfolded r sum.case f(1)]
  obtain fs where fs: "(if mf_Status factor = ''unverified'' \<and> sessionAAL c \<noteq> ''aal2''
      then fst (ListFactors (ca_UserID c) (es 1) db) else Inr []) = Inr fs"
    using h2 by (cases "if mf_Status factor = ''unverified'' \<and> sessionAAL c \<noteq> ''aal2''
      then fst (ListFactors (ca_UserID c) (es 1) db) else Inr []") (simp_all only: sum.case prod.inject response.distinct, simp_all)
  note h3 = h2 [unfolded fs sum.case]
  have nv: "\<not> hasVerified fs" using h3 by (auto split: if_splits)
  obtain w d where w: "ValidateChallenge cid fid (es 2) db = (w, d)" by (cases "ValidateChallenge cid fid (es 2) db")
  note h4 = h3 [unfolded w prod.case]
  from h4 nv obtain u where "w = Inr u" by (cases w) (simp_all add: challengeProblem_not_issued)
  with h4 nv w have v': "ValidateChallenge cid fid (es 2) db = (Inr (), d)" and
    h5: "(case matchTOTPStep totp code (mf_Secret factor) (en_clock (es 3)) of None \<Rightarrow> (Problem 401 ''invalid_code'', d)
       | Some step \<Rightarrow> acceptCode iss c fid cid factor step tok es d) = (Issued v m t, db')" by simp_all
  from h5 obtain step where st: "matchTOTPStep totp code (mf_Secret factor) (en_clock (es 3)) = Some step"
    "acceptCode iss c fid cid factor step tok es d = (Issued v m t, db')"
    by (cases "matchTOTPStep totp code (mf_Secret factor) (en_clock (es 3))") simp_all
  have "\<forall>g \<in> set (au_factors db). fa_user g = ca_UserID c \<longrightarrow> fa_status g \<noteq> ''verified''"
    if "fa_status f = ''unverified''" "sessionAAL c \<noteq> ''aal2''"
  proof -
    have "fst (ListFactors (ca_UserID c) (es 1) db) = Inr fs" using fs that f(6) by simp
    from ListFactors_ok [OF this] nv show ?thesis by (auto simp: hasVerified_def list_ex_iff)
  qed
  with that f st v' show thesis by simp
qed

text \<open>C21: The verification endpoint issues a session only for a right code: of a factor of the caller, at a time step later
  than any the factor accepted before, against an open challenge of that factor with an attempt left; and a factor not
  yet verified raises a session below \<open>aal2\<close> only when the user has no verified factor.\<close>

theorem verify_needs_code:
  assumes "handleVerifyFactor totp iss c factorID challengeID code tok es db = (Issued v meta t, db')"
    "distinct (map fa_id (au_factors db))"
  shows "\<exists>f \<in> set (au_factors db). fa_id f = factorID \<and> fa_user f = ca_UserID c \<and>
    (\<exists>step. matchTOTPStep totp code (fa_secret f) (en_clock (es 3)) = Some step \<and>
       (case fa_lastStep f of None \<Rightarrow> True | Some l \<Rightarrow> l < step)) \<and>
    (\<exists>ch \<in> set (au_challenges db). openChallenge challengeID factorID (en_now (es 2)) ch) \<and>
    (fa_status f = ''unverified'' \<and> sessionAAL c \<noteq> ''aal2'' \<longrightarrow>
       (\<forall>g \<in> set (au_factors db). fa_user g = ca_UserID c \<longrightarrow> fa_status g \<noteq> ''verified''))"
  using assms(1)
proof (cases rule: verify_cases)
  case (1 f factor step d)
  from ValidateChallenge_ok [OF 1(6)] have ch: "\<exists>ch \<in> set (au_challenges db). openChallenge challengeID factorID (en_now (es 2)) ch"
    "au_factors d = au_factors db" by simp_all
  from acceptCode_fresh [OF 1(8)] ch(2) obtain g where g: "g \<in> set (au_factors db)" "staleStep factorID step g" by auto
  then have "g = f" using assms(2) 1(1,2) by (auto simp: staleStep_def distinct_map inj_on_def)
  with g 1 ch show ?thesis by (intro bexI [of _ f]) (auto simp: staleStep_def)
qed

lemma DeleteFactor_unverified:
  "DeleteFactorForUser fid u False e db = (r, db') \<Longrightarrow>
     {f \<in> set (au_factors db'). fa_status f = ''verified''} = {f \<in> set (au_factors db). fa_status f = ''verified''}"
  by (auto simp: DeleteFactorForUser_def dropFactors_def Let_def split: if_splits)

text \<open>C20: With a session below \<open>aal2\<close>, a user who has a verified factor cannot get round it: no new factor is enrolled, no
  verified factor is removed (an unverified one may be), and a factor that raises the session is a verified one.\<close>

theorem aal1_cannot_bypass:
  assumes "sessionAAL c \<noteq> ''aal2''" "v \<in> set (au_factors db)" "fa_user v = ca_UserID c" "fa_status v = ''verified''"
  shows "(\<exists>err. handleEnrollFactor secret c ft name es db = (Inl err, db)) \<and>
    {f \<in> set (au_factors (snd (handleUnenrollFactor c fid es db))). fa_status f = ''verified''} =
      {f \<in> set (au_factors db). fa_status f = ''verified''} \<and>
    (\<forall>view meta t db'. handleVerifyFactor totp iss c fid cid code tok es db = (Issued view meta t, db') \<longrightarrow>
      (\<exists>f \<in> set (au_factors db). fa_id f = fid \<and> fa_user f = ca_UserID c \<and> fa_status f \<noteq> ''unverified'' \<and>
        matchTOTPStep totp code (fa_secret f) (en_clock (es 3)) \<noteq> None))"
proof (intro conjI allI impI)
  show "\<exists>err. handleEnrollFactor secret c ft name es db = (Inl err, db)"
  proof (cases "ft \<noteq> [] \<and> ft \<noteq> ''totp'' \<or> en_fails (es 0) ''list factors''")
    case True
    then show ?thesis by (auto simp: handleEnrollFactor_def ListFactors_def)
  next
    case False
    have "hasVerified (sort_key fa_created (filter (\<lambda>f. fa_user f = ca_UserID c) (au_factors db)))"
      using assms(2-4) by (auto simp: hasVerified_def list_ex_iff)
    with False assms(1) show ?thesis by (auto simp: handleEnrollFactor_def ListFactors_def)
  qed
next
  show "{f \<in> set (au_factors (snd (handleUnenrollFactor c fid es db))). fa_status f = ''verified''} =
      {f \<in> set (au_factors db). fa_status f = ''verified''}"
  proof (cases "DeleteFactorForUser fid (ca_UserID c) False (es 1) db")
    case (Pair r d)
    from DeleteFactor_unverified [OF this] Pair assms(1) show ?thesis
      by (auto simp: handleUnenrollFactor_def ListFactors_def split: sum.splits)
  qed
next
  fix view meta t db'
  assume "handleVerifyFactor totp iss c fid cid code tok es db = (Issued view meta t, db')"
  then show "\<exists>f \<in> set (au_factors db). fa_id f = fid \<and> fa_user f = ca_UserID c \<and> fa_status f \<noteq> ''unverified'' \<and>
        matchTOTPStep totp code (fa_secret f) (en_clock (es 3)) \<noteq> None"
  proof (cases rule: verify_cases)
    case (1 f factor step d)
    with assms show ?thesis by (intro bexI [of _ f]) auto
  qed
qed

section \<open>Runs\<close>

text \<open>
  The history of a run: the ids of factors and challenges ever made, every challenge with its factor and time, every
  guess that \<open>ValidateChallenge\<close> let through, and every time step a factor accepted. Statements are in the order of
  their database time. Other operations (promotion, deletion of factors, closing a challenge) are the last two rules.
\<close>

record mfaState =
  ms_db :: authdb
  ms_now :: int
  ms_factors :: "string set"
  ms_ids :: "string set"
  ms_created :: "(string \<times> string \<times> int) list"
  ms_guesses :: "(string \<times> string \<times> int) list"
  ms_steps :: "(string \<times> int) list"

inductive mfaMove :: "mfaState \<Rightarrow> mfaState \<Rightarrow> bool" where
  enroll: "ms_now s \<le> en_now e \<Longrightarrow> en_uuid e \<notin> ms_factors s \<Longrightarrow> EnrollFactor u n sk e (ms_db s) = (r, db) \<Longrightarrow>
    mfaMove s (s\<lparr>ms_db := db, ms_now := en_now e, ms_factors := insert (en_uuid e) (ms_factors s)\<rparr>)"
| challenge: "ms_now s \<le> en_now e \<Longrightarrow> en_uuid e \<notin> ms_ids s \<Longrightarrow> CreateChallenge f u e (ms_db s) = (r, db) \<Longrightarrow>
    mfaMove s (s\<lparr>ms_db := db, ms_now := en_now e, ms_ids := insert (en_uuid e) (ms_ids s),
      ms_created := (case r of Inl _ \<Rightarrow> [] | Inr (i, t) \<Rightarrow> [(i, f, t)]) @ ms_created s\<rparr>)"
| guess: "ms_now s \<le> en_now e \<Longrightarrow> ValidateChallenge c f e (ms_db s) = (r, db) \<Longrightarrow>
    mfaMove s (s\<lparr>ms_db := db, ms_now := en_now e,
      ms_guesses := (case r of Inl _ \<Rightarrow> [] | Inr _ \<Rightarrow> [(c, f, en_now e)]) @ ms_guesses s\<rparr>)"
| useStep: "ms_now s \<le> en_now e \<Longrightarrow> ConsumeTOTPStep f st e (ms_db s) = (r, db) \<Longrightarrow>
    mfaMove s (s\<lparr>ms_db := db, ms_now := en_now e, ms_steps := (if r = Inr True then [(f, st)] else []) @ ms_steps s\<rparr>)"
| close: "MarkChallengeVerified c e (ms_db s) = (r, db) \<Longrightarrow> mfaMove s (s\<lparr>ms_db := db\<rparr>)"
| promote: "PromoteFactorToVerified f e (ms_db s) = (r, db) \<Longrightarrow> mfaMove s (s\<lparr>ms_db := db\<rparr>)"
| drop: "mfaMove s (s\<lparr>ms_db := dropFactors P (ms_db s)\<rparr>)"

abbreviation mfaReach :: "mfaState \<Rightarrow> mfaState \<Rightarrow> bool" where
  "mfaReach \<equiv> mfaMove\<^sup>*\<^sup>*"

subsection \<open>Time steps\<close>

definition stepInv :: "mfaState \<Rightarrow> bool" where
  "stepInv s \<longleftrightarrow> distinct (map fa_id (au_factors (ms_db s))) \<and> fa_id ` set (au_factors (ms_db s)) \<subseteq> ms_factors s \<and>
     distinct (ms_steps s) \<and> fst ` set (ms_steps s) \<subseteq> ms_factors s \<and>
     (\<forall>g \<in> set (au_factors (ms_db s)). \<forall>st. (fa_id g, st) \<in> set (ms_steps s) \<longrightarrow> (\<exists>l. fa_lastStep g = Some l \<and> st \<le> l))"

text \<open>Operations that keep or remove factors without touching their last step.\<close>

lemma stepInv_factors:
  assumes "stepInv s" "subseq (map fa_id (au_factors db)) (map fa_id (au_factors (ms_db s)))"
    "\<And>g. g \<in> set (au_factors db) \<Longrightarrow> \<exists>g' \<in> set (au_factors (ms_db s)). fa_id g' = fa_id g \<and> fa_lastStep g' = fa_lastStep g"
  shows "stepInv (s\<lparr>ms_db := db, ms_now := t, ms_ids := ids, ms_created := cr, ms_guesses := gs\<rparr>)"
proof -
  have "distinct (map fa_id (au_factors db))" using assms(1,2) distinct_subseq by (auto simp: stepInv_def)
  moreover have "fa_id ` set (au_factors db) \<subseteq> ms_factors s"
  proof -
    have "fa_id g \<in> fa_id ` set (au_factors (ms_db s))" if "g \<in> set (au_factors db)" for g
      using assms(3) [OF that] by (metis imageI)
    then have "fa_id ` set (au_factors db) \<subseteq> fa_id ` set (au_factors (ms_db s))" by auto
    also have "\<dots> \<subseteq> ms_factors s" using assms(1) by (simp add: stepInv_def)
    finally show ?thesis .
  qed
  moreover have "\<exists>l. fa_lastStep g = Some l \<and> st \<le> l" if "g \<in> set (au_factors db)" "(fa_id g, st) \<in> set (ms_steps s)" for g st
    using assms(1) assms(3) [OF that(1)] that(2) unfolding stepInv_def by metis
  ultimately show ?thesis using assms(1) unfolding stepInv_def by auto
qed

lemma stepInv_same: "stepInv s \<Longrightarrow> au_factors db = au_factors (ms_db s) \<Longrightarrow>
    stepInv (s\<lparr>ms_db := db, ms_now := t, ms_ids := ids, ms_created := cr, ms_guesses := gs\<rparr>)"
  by (rule stepInv_factors) auto

lemma dropFactors_factors [simp]: "au_factors (dropFactors P db) = delRows P (au_factors db)"
  by (simp add: dropFactors_def Let_def)

lemma PromoteFactor_cases:
  assumes "PromoteFactorToVerified f e db = (r, db')"
  obtains "db' = db"
  | P where "db' = (dropFactors P db)\<lparr>au_factors := updRows (\<lambda>g. fa_id g = f)
      (\<lambda>g. g\<lparr>fa_status := ''verified'', fa_updated := en_now e\<rparr>) (delRows P (au_factors db))\<rparr>"
  using assms by (auto simp: PromoteFactorToVerified_def Let_def split: if_splits)

lemma stepInv_useStep:
  assumes inv: "stepInv s" and c: "ConsumeTOTPStep f st e (ms_db s) = (r, db)"
  shows "stepInv (s\<lparr>ms_db := db, ms_now := t, ms_steps := (if r = Inr True then [(f, st)] else []) @ ms_steps s\<rparr>)"
proof (cases "en_fails e ''consume step''")
  case True
  with c inv show ?thesis by (auto simp: ConsumeTOTPStep_def stepInv_def)
next
  case False
  let ?fs = "au_factors (ms_db s)"
  let ?upd = "updRows (staleStep f st) (\<lambda>g. g\<lparr>fa_lastStep := Some st, fa_updated := en_now e\<rparr>) ?fs"
  have db: "au_factors db = ?upd" and r: "r = Inr True \<Longrightarrow> length (filter (staleStep f st) ?fs) = 1"
    using c False by (auto simp: ConsumeTOTPStep_def)
  have ids: "map fa_id ?upd = map fa_id ?fs" by (simp add: map_updRows)
  then have set_ids: "fa_id ` set ?upd = fa_id ` set ?fs" by (metis list.set_map)
  have new: "(f, st) \<notin> set (ms_steps s) \<and> f \<in> ms_factors s" if "r = Inr True"
  proof -
    have "filter (staleStep f st) ?fs \<noteq> []" using r [OF that] by auto
    then obtain g where g: "g \<in> set ?fs" "staleStep f st g" by (auto simp: filter_empty_conv)
    have "(f, st) \<notin> set (ms_steps s)"
    proof
      assume "(f, st) \<in> set (ms_steps s)"
      then obtain l where "fa_lastStep g = Some l" "st \<le> l" using inv g unfolding stepInv_def staleStep_def by blast
      with g(2) show False by (simp add: staleStep_def)
    qed
    moreover have "f \<in> ms_factors s" using inv g by (auto simp: stepInv_def staleStep_def)
    ultimately show ?thesis ..
  qed
  have last: "\<exists>l. fa_lastStep g = Some l \<and> st' \<le> l"
    if g: "g \<in> set ?upd" and m: "(fa_id g, st') \<in> set (ms_steps s) \<or> r = Inr True \<and> fa_id g = f \<and> st' = st" for g st'
  proof -
    from g obtain g0 where g0: "g0 \<in> set ?fs" "fa_id g = fa_id g0"
      "fa_lastStep g = (if staleStep f st g0 then Some st else fa_lastStep g0)" by (auto simp: set_updRows)
    have old: "\<exists>l. fa_lastStep g0 = Some l \<and> st' \<le> l" if "(fa_id g0, st') \<in> set (ms_steps s)"
      using inv g0(1) that by (auto simp: stepInv_def)
    show ?thesis
    proof (cases "staleStep f st g0")
      case True
      with g0 old m show ?thesis by (fastforce simp: staleStep_def)
    next
      case False
      with g0 old m show ?thesis by (auto simp: staleStep_def split: option.splits)
    qed
  qed
  show ?thesis
    using inv new last unfolding stepInv_def by (auto simp: db ids set_ids)
qed

lemma stepInv_move: "mfaMove s s' \<Longrightarrow> stepInv s \<Longrightarrow> stepInv s'"
proof (induction rule: mfaMove.induct)
  case (enroll s e u n sk r db)
  then have "(en_uuid e, st) \<notin> set (ms_steps s)" for st by (force simp: stepInv_def)
  with enroll show ?case by (auto simp: EnrollFactor_def stepInv_def image_subset_iff split: if_splits)
next
  case (challenge s e f u r db)
  from challenge(3) have "au_factors db = au_factors (ms_db s)" by (auto simp: CreateChallenge_def split: if_splits)
  from stepInv_same [OF challenge(4) this, where gs = "ms_guesses s"] show ?case by simp
next
  case (guess s e c f r db)
  from guess(2) have "au_factors db = au_factors (ms_db s)" by (auto simp: ValidateChallenge_def split: if_splits)
  from stepInv_same [OF guess(3) this, where ids = "ms_ids s" and cr = "ms_created s"] show ?case by simp
next
  case (useStep s e f st r db)
  then show ?case by (intro stepInv_useStep)
next
  case (close c e s r db)
  from close(1) have "au_factors db = au_factors (ms_db s)" by (auto simp: MarkChallengeVerified_def Let_def split: if_splits)
  from stepInv_same [OF close(2) this, where t = "ms_now s" and ids = "ms_ids s" and cr = "ms_created s" and gs = "ms_guesses s"] show ?case by simp
next
  case (promote f e s r db)
  from promote(1) show ?case
  proof (cases rule: PromoteFactor_cases)
    case 1
    with promote(2) show ?thesis by simp
  next
    case (2 P)
    have "map fa_id (au_factors db) = map fa_id (delRows P (au_factors (ms_db s)))" using 2 by (simp add: map_updRows)
    then have "subseq (map fa_id (au_factors db)) (map fa_id (au_factors (ms_db s)))" by (simp add: subseq_delRows)
    moreover have "\<exists>g' \<in> set (au_factors (ms_db s)). fa_id g' = fa_id g \<and> fa_lastStep g' = fa_lastStep g"
      if "g \<in> set (au_factors db)" for g using that 2 by (auto simp: set_updRows)
    ultimately have "stepInv (s\<lparr>ms_db := db, ms_now := ms_now s, ms_ids := ms_ids s, ms_created := ms_created s, ms_guesses := ms_guesses s\<rparr>)"
      by (rule stepInv_factors [OF promote(2)])
    then show ?thesis by simp
  qed
next
  case (drop s P)
  have "stepInv (s\<lparr>ms_db := dropFactors P (ms_db s), ms_now := ms_now s, ms_ids := ms_ids s, ms_created := ms_created s,
      ms_guesses := ms_guesses s\<rparr>)"
    by (rule stepInv_factors [OF drop]) (auto simp: subseq_delRows)
  then show ?case by simp
qed

interpretation steps: kept mfaMove stepInv
  by unfold_locales (rule stepInv_move)

text \<open>C19: Over any run, with concurrent requests and failing calls, a factor accepts a TOTP time step at most once, so a code
  that was accepted cannot be replayed.\<close>

theorem totp_step_single_use:
  assumes "mfaReach s0 s" "stepInv s0"
  shows "distinct (ms_steps s)"
  using steps.along [OF assms] by (simp add: stepInv_def)

end
