(* ===== verification/Auth_Session_Laws.thy ===== *)
theory Auth_Session_Laws
  imports Auth_Sessions
begin

text \<open>
  Runs of the session operations: logins, step-ups to a higher assurance level, refreshes and revocations in any
  order, at any times, with any calls failing. Each operation is one statement or one transaction, so a run is a
  sequence of them. \<open>ss_used\<close> holds every token ever minted, \<open>ss_owner\<close> the user each session was opened for, and
  \<open>ss_rotated\<close> which token was exchanged for which.
\<close>

record sessState =
  ss_db :: authdb
  ss_used :: "string set"
  ss_owner :: "string \<Rightarrow> string option"
  ss_rotated :: "(string \<times> string) list"

text \<open>A refresh that succeeded: what it adds to the history.\<close>

definition refreshed :: "string \<Rightarrow> RefreshRotation \<Rightarrow> env \<Rightarrow> auth_error + userView \<times> SessionMeta \<times> string \<Rightarrow> sessState \<Rightarrow> sessState" where
  "refreshed t nextTok e r s =
     (case r of Inl _ \<Rightarrow> s
      | Inr (v, meta, tok) \<Rightarrow>
          s\<lparr>ss_owner := (if sm_SessionID meta = en_uuid e then (ss_owner s)(en_uuid e \<mapsto> u_id (fst v)) else ss_owner s),
            ss_rotated := (if tok = rr_Token nextTok then (t, tok) # ss_rotated s else ss_rotated s)\<rparr>)"

inductive sessStep :: "sessState \<Rightarrow> sessState \<Rightarrow> bool" where
  login: "ss_owner s (sm_SessionID meta) = None \<Longrightarrow> sm_SessionID meta \<noteq> [] \<Longrightarrow> tok \<notin> ss_used s \<Longrightarrow>
    InsertRefreshToken u tok meta x e (ss_db s) = (r, db) \<Longrightarrow>
    sessStep s (s\<lparr>ss_db := db, ss_used := insert tok (ss_used s), ss_owner := (ss_owner s)(sm_SessionID meta \<mapsto> u)\<rparr>)"
| stepUp: "ss_owner s (sm_SessionID meta) = Some u \<Longrightarrow> tok \<notin> ss_used s \<Longrightarrow>
    InsertRefreshToken u tok meta x e (ss_db s) = (r, db) \<Longrightarrow>
    sessStep s (s\<lparr>ss_db := db, ss_used := insert tok (ss_used s)\<rparr>)"
| refresh: "rr_Token nextTok \<notin> ss_used s \<Longrightarrow> ss_owner s (en_uuid e) = None \<Longrightarrow> en_uuid e \<noteq> [] \<Longrightarrow>
    ConsumeRefreshToken t nextTok e (ss_db s) = (r, db) \<Longrightarrow>
    sessStep s (refreshed t nextTok e r (s\<lparr>ss_db := db, ss_used := insert (rr_Token nextTok) (ss_used s)\<rparr>))"
| revoke: "deleteTokens what P e (ss_db s) = (r, db) \<Longrightarrow> sessStep s (s\<lparr>ss_db := db\<rparr>)"

abbreviation sessReach :: "sessState \<Rightarrow> sessState \<Rightarrow> bool" where
  "sessReach \<equiv> sessStep\<^sup>*\<^sup>*"

definition sessInv :: "sessState \<Rightarrow> bool" where
  "sessInv s \<longleftrightarrow>
     distinct (map rt_token (au_refresh (ss_db s))) \<and> rt_token ` set (au_refresh (ss_db s)) \<subseteq> ss_used s \<and>
     (\<forall>r \<in> set (au_refresh (ss_db s)). \<forall>sid. rt_session r = Some sid \<longrightarrow> sid \<noteq> [] \<longrightarrow> ss_owner s sid = Some (rt_user r)) \<and>
     distinct (map fst (ss_rotated s)) \<and> fst ` set (ss_rotated s) \<subseteq> ss_used s \<and>
     (\<forall>r \<in> set (au_refresh (ss_db s)). rt_token r \<in> fst ` set (ss_rotated s) \<longrightarrow> rt_revoked r \<noteq> None)"

lemma InsertRefreshToken_cases:
  assumes "InsertRefreshToken u t m x e db = (r, db')"
  obtains (failed) "db' = db"
  | (inserted) row where "db' = db\<lparr>au_refresh := au_refresh db @ [row], au_seq := au_seq db + 1\<rparr>" "rt_token row = t"
      "rt_user row = u" "rt_session row = Some (sm_SessionID m)" "t \<notin> rt_token ` set (au_refresh db)"
proof (cases r)
  case (Inl err)
  with assms show ?thesis
    by (intro failed) (auto simp: InsertRefreshToken_def insertRefreshToken_def Let_def split: if_splits)
next
  case (Inr x')
  from insertRefreshToken_ok [of u t m x e db db'] assms Inr show ?thesis
    by (intro inserted) (auto simp: InsertRefreshToken_def)
qed

text \<open>Adding a fresh row and removing rows keep the invariant.\<close>

lemma sessInv_insert:
  assumes "sessInv s" "db' = (ss_db s)\<lparr>au_refresh := au_refresh (ss_db s) @ [row], au_seq := n\<rparr>" "rt_token row \<notin> ss_used s"
    "\<And>sid. rt_session row = Some sid \<Longrightarrow> sid \<noteq> [] \<Longrightarrow> owner sid = Some (rt_user row)" "ss_owner s \<subseteq>\<^sub>m owner"
  shows "sessInv (s\<lparr>ss_db := db', ss_used := insert (rt_token row) (ss_used s), ss_owner := owner\<rparr>)"
  using assms unfolding sessInv_def by (auto simp: map_le_def dom_def)

lemma sessInv_used: "sessInv s \<Longrightarrow> ss_owner s \<subseteq>\<^sub>m owner \<Longrightarrow> sessInv (s\<lparr>ss_used := insert t (ss_used s), ss_owner := owner\<rparr>)"
  unfolding sessInv_def by (auto simp: map_le_def dom_def)

lemma sessInv_delete: "sessInv s \<Longrightarrow> sessInv (s\<lparr>ss_db := (ss_db s)\<lparr>au_refresh := delRows P (au_refresh (ss_db s))\<rparr>\<rparr>)"
  unfolding sessInv_def by (auto intro: distinct_delRows)

lemma sessInv_revoke:
  assumes "sessInv s" "t \<in> ss_used s" "t \<notin> fst ` set (ss_rotated s)"
  shows "sessInv (s\<lparr>ss_db := revokeToken t e (ss_db s), ss_rotated := (t, c) # ss_rotated s\<rparr>)"
  using assms unfolding sessInv_def by (auto simp: revokeToken_def set_updRows liveToken_def map_updRows)

lemma ConsumeRefreshToken_fails:
  "ConsumeRefreshToken t nextTok e db = (Inl err, db') \<Longrightarrow> \<exists>P. db' = db\<lparr>au_refresh := delRows P (au_refresh db)\<rparr>"
proof -
  have same: "\<exists>P. db = db\<lparr>au_refresh := delRows P (au_refresh db)\<rparr>" by (intro exI [of _ "\<lambda>_. False"]) (simp add: delRows_def)
  assume "ConsumeRefreshToken t nextTok e db = (Inl err, db')"
  then have "db' = db \<or> (\<exists>r. db' = revokeReused r db)"
    unfolding ConsumeRefreshToken_def Let_def
    by (simp split: if_split_asm option.split_asm prod.split_asm sum.split_asm) blast
  with same show ?thesis by (auto simp: revokeReused_def Let_def)
qed

lemma sessInv_refresh:
  assumes inv: "sessInv s" and fresh: "rr_Token nextTok \<notin> ss_used s" "ss_owner s (en_uuid e) = None" "en_uuid e \<noteq> []"
    and c: "ConsumeRefreshToken t nextTok e (ss_db s) = (r, db)"
  shows "sessInv (refreshed t nextTok e r (s\<lparr>ss_db := db, ss_used := insert (rr_Token nextTok) (ss_used s)\<rparr>))"
proof (cases r)
  case (Inl err)
  from ConsumeRefreshToken_fails [OF c [unfolded Inl]] obtain P where "db = (ss_db s)\<lparr>au_refresh := delRows P (au_refresh (ss_db s))\<rparr>" ..
  with sessInv_used [OF sessInv_delete [OF inv, of P], of "ss_owner s"] Inl show ?thesis by (simp add: refreshed_def)
next
  case (Inr p)
  obtain v meta tok where p: "p = (v, meta, tok)" by (cases p)
  from c have "ConsumeRefreshToken t nextTok e (ss_db s) = (Inr (v, meta, tok), db)" by (simp add: Inr p)
  then show ?thesis
  proof (cases rule: refresh_cases)
    case (rotated r' sid ip ua a)
    define owner where "owner = (if sid = en_uuid e then (ss_owner s)(en_uuid e \<mapsto> u_id (fst v)) else ss_owner s)"
    let ?row = "\<lparr>rt_id = au_seq (ss_db s), rt_user = rt_user r', rt_token = tok, rt_expires = rr_ExpiresAt nextTok * sec,
        rt_session = Some sid, rt_ip = Some ip, rt_agent = Some ua, rt_revoked = None, rt_aal = a, rt_amr = rt_amr r'\<rparr>"
    have r': "rt_token r' = t" "rt_revoked r' = None" using rotated(2) by (simp_all add: liveToken_def)
    with rotated(1) inv have t: "t \<in> ss_used s" "t \<notin> fst ` set (ss_rotated s)" unfolding sessInv_def by auto
    have own: "ss_owner s x = Some (rt_user r')" if "rt_session r' = Some x" "x \<noteq> []" for x
      using inv rotated(1) that unfolding sessInv_def by blast
    have uid: "u_id (fst v) = rt_user r'" using findUser_id [OF rotated(11)] .
    have le: "ss_owner s \<subseteq>\<^sub>m owner" using fresh(2) by (auto simp: map_le_def owner_def)
    have sid: "owner sid = Some (rt_user r')"
      using rotated(6) own [of sid] uid fresh(2) by (auto simp: asText_def owner_def split: option.splits if_splits)
    note i1 = sessInv_revoke [OF inv t, where e = e and c = tok]
    have fr: "tok \<notin> ss_used s" using fresh(1) rotated(4) by simp
    note i2 = sessInv_insert [OF i1 refl, of ?row owner "au_seq (ss_db s) + 1"]
    define D where "D = (revokeToken t e (ss_db s))\<lparr>au_refresh := au_refresh (revokeToken t e (ss_db s)) @ [?row],
        au_seq := au_seq (ss_db s) + 1\<rparr>"
    let ?expired = "\<lambda>c. rt_session c = Some sid \<and> rt_revoked c \<noteq> None \<and> rt_expires c < en_now e"
    have "sessInv (s\<lparr>ss_db := D, ss_used := insert tok (ss_used s), ss_owner := owner, ss_rotated := (t, tok) # ss_rotated s\<rparr>)"
      using i2 fr sid le by (cases s) (simp add: D_def)
    from sessInv_delete [OF this, of ?expired]
    have "sessInv (s\<lparr>ss_db := D\<lparr>au_refresh := delRows ?expired (au_refresh D)\<rparr>, ss_used := insert tok (ss_used s), ss_owner := owner,
        ss_rotated := (t, tok) # ss_rotated s\<rparr>)" by (cases s) simp
    moreover have "db = D\<lparr>au_refresh := delRows ?expired (au_refresh D)\<rparr>"
      unfolding rotated(10) D_def by (cases "ss_db s") (simp add: revokeToken_def)
    moreover have "refreshed t nextTok e r (s\<lparr>ss_db := db, ss_used := insert (rr_Token nextTok) (ss_used s)\<rparr>) =
        s\<lparr>ss_db := db, ss_used := insert tok (ss_used s), ss_owner := owner, ss_rotated := (t, tok) # ss_rotated s\<rparr>"
      using rotated(4,7) by (cases s) (simp add: refreshed_def Inr p owner_def)
    ultimately show ?thesis by simp
  next
    case (replayed r' c' sid)
    have "ss_owner s sid \<noteq> None" using inv replayed(1,6,7) unfolding sessInv_def by blast
    then have ne: "sid \<noteq> en_uuid e" using fresh(2) by auto
    have "rt_token c' \<in> ss_used s" using inv replayed(4) unfolding sessInv_def by blast
    then have nt: "tok \<noteq> rr_Token nextTok" using fresh(1) replayed(11) by auto
    have "sm_SessionID meta = sid" using replayed(8,12) by (simp add: asText_def)
    with ne nt replayed(13) sessInv_used [OF sessInv_delete [OF inv], where owner = "ss_owner s"]
    show ?thesis by (simp add: refreshed_def Inr p)
  qed
qed

lemma sessStep_inv: "sessStep s s' \<Longrightarrow> sessInv s \<Longrightarrow> sessInv s'"
proof (induction rule: sessStep.induct)
  case (login s meta tok u x e r db)
  have le: "ss_owner s \<subseteq>\<^sub>m (ss_owner s)(sm_SessionID meta \<mapsto> u)" using login(1) by (auto simp: map_le_def)
  from login(4) show ?case
  proof (cases rule: InsertRefreshToken_cases)
    case failed
    with sessInv_used [OF login(5) le] show ?thesis by simp
  next
    case (inserted row)
    from sessInv_insert [OF login(5) inserted(1) _ _ le] inserted login(3) show ?thesis by simp
  qed
next
  case (stepUp s meta u tok x e r db)
  from stepUp(3) show ?case
  proof (cases rule: InsertRefreshToken_cases)
    case failed
    with sessInv_used [OF stepUp(4), of "ss_owner s"] show ?thesis by simp
  next
    case (inserted row)
    from sessInv_insert [OF stepUp(4) inserted(1), of "ss_owner s"] inserted stepUp(1,2) show ?thesis by simp
  qed
next
  case (refresh nextTok s e t r db)
  then show ?case by (intro sessInv_refresh)
next
  case (revoke what P e s r db)
  then show ?case using sessInv_delete [of s P] by (auto simp: deleteTokens_def split: if_splits)
qed

interpretation sessions: kept sessStep sessInv
  by unfold_locales (rule sessStep_inv)

section \<open>What a refresh gives\<close>

text \<open>C24: In every reachable state, a refresh that succeeds gives a live token of the same user, the same session (when
  the presented token has one) and the same assurance level as the token presented, and the user row it returns is that
  user's: a refresh token never leads to another user's session nor to a higher level.\<close>

theorem refresh_keeps_owner:
  assumes "sessReach s0 s" "sessInv s0" "ConsumeRefreshToken t nextTok e (ss_db s) = (Inr (v, meta, tok), db')"
  shows "\<exists>r \<in> set (au_refresh (ss_db s)). \<exists>c \<in> set (au_refresh db').
    rt_token r = t \<and> rt_token c = tok \<and> rt_revoked c = None \<and> rt_user c = rt_user r \<and> u_id (fst v) = rt_user r \<and>
    sm_SessionID meta = asText (rt_session c) \<and> (asText (rt_session r) \<noteq> [] \<longrightarrow> rt_session c = rt_session r) \<and>
    sm_AAL meta = (if rt_aal r = [] then ''aal1'' else rt_aal r) \<and> rt_aal c \<in> {rt_aal r, sm_AAL meta}"
proof -
  have inv: "sessInv s" using sessions.along [OF assms(1,2)] .
  from assms(3) show ?thesis
  proof (cases rule: refresh_cases)
    case (rotated r sid ip ua a)
    let ?row = "\<lparr>rt_id = au_seq (ss_db s), rt_user = rt_user r, rt_token = tok, rt_expires = rr_ExpiresAt nextTok * sec,
        rt_session = Some sid, rt_ip = Some ip, rt_agent = Some ua, rt_revoked = None, rt_aal = a, rt_amr = rt_amr r\<rparr>"
    have "?row \<in> set (au_refresh db')" unfolding rotated(10) by simp
    moreover have "asText (rt_session r) \<noteq> [] \<longrightarrow> Some sid = rt_session r"
      using rotated(6) by (auto simp: asText_def split: option.splits)
    moreover have "u_id (fst v) = rt_user r" using findUser_id [OF rotated(11)] .
    ultimately show ?thesis using rotated(1,2,7,8,9)
      by (intro bexI [of _ r] bexI [of _ ?row]) (auto simp: liveToken_def asText_def)
  next
    case (replayed r c sid)
    have "ss_owner s sid = Some (rt_user r)" "ss_owner s sid = Some (rt_user c)"
      using inv replayed(1,4,6,7,8) unfolding sessInv_def by blast+
    then have "rt_user c = rt_user r" by simp
    moreover have "c \<in> set (au_refresh db')" using replayed(4,5) unfolding replayed(13) by simp
    ultimately show ?thesis using replayed findUser_id [OF replayed(14)]
      by (intro bexI [of _ r] bexI [of _ c]) (auto simp: asText_def)
  qed
qed

text \<open>C23: In every reachable state of the sessions, however operations interleave and whatever fails, every refresh token
  was exchanged for a new one at most once, and a token that was exchanged is not live.\<close>

theorem tokens_rotate_once:
  assumes "sessReach s0 s" "sessInv s0"
  shows "distinct (map fst (ss_rotated s)) \<and>
    (\<forall>r \<in> set (au_refresh (ss_db s)). rt_token r \<in> fst ` set (ss_rotated s) \<longrightarrow> rt_revoked r \<noteq> None)"
  using sessions.along [OF assms] by (simp add: sessInv_def)

section \<open>Replay\<close>

definition family :: "refreshRow \<Rightarrow> refreshRow \<Rightarrow> bool" where
  "family r c = (if asText (rt_session r) \<noteq> [] then rt_session c = rt_session r else rt_user c = rt_user r)"

lemma revokeReused_family: "au_refresh (revokeReused r db) = filter (\<lambda>c. \<not> family r c) (au_refresh db)"
  by (auto simp: revokeReused_def delRows_def family_def Let_def asText_def split: option.splits intro!: filter_cong)

lemma find_token:
  assumes "distinct (map rt_token rows)" "r \<in> set rows"
  shows "find (\<lambda>c. rt_token c = rt_token r) rows = Some r"
  using assms by (induction rows) auto

lemma find_live: "distinct (map rt_token rows) \<Longrightarrow> r \<in> set rows \<Longrightarrow> rt_revoked r \<noteq> None \<Longrightarrow> find (liveToken (rt_token r)) rows = None"
  by (auto simp: find_None_iff liveToken_def distinct_map inj_on_def)

lemma unknown_token:
  "token \<notin> rt_token ` set (au_refresh db) \<Longrightarrow>
     \<exists>err. ConsumeRefreshToken token nextTok e db = (Inl err, db) \<and> err \<in> {ErrUnauthorized, AuthDBError ''begin''}"
proof -
  assume t: "token \<notin> rt_token ` set (au_refresh db)"
  then have "find (liveToken token) (au_refresh db) = None" "find (\<lambda>r. rt_token r = token) (au_refresh db) = None"
    by (auto simp: find_None_iff liveToken_def)
  then show ?thesis by (simp add: ConsumeRefreshToken_def Let_def)
qed

text \<open>C25: Presenting a token that was exchanged or revoked ten seconds ago or more is detected as a reuse, and it ends the
  session: every token of the session (of the user, for a token without a session) is gone and is refused from then on,
  whoever holds it.\<close>

theorem replay_ends_session:
  assumes "r \<in> set (au_refresh db)" "rt_revoked r = Some t" "t + refreshReuseInterval \<le> en_now e" "rt_token r \<noteq> []"
    "distinct (map rt_token (au_refresh db))" "\<forall>what. \<not> en_fails e what"
  shows "\<exists>db'. ConsumeRefreshToken (rt_token r) nextTok e db = (Inl ErrRefreshReuse, db') \<and>
    (\<forall>c \<in> set (au_refresh db). family r c \<longrightarrow>
      (\<forall>nextTok' e'. \<exists>err. ConsumeRefreshToken (rt_token c) nextTok' e' db' = (Inl err, db') \<and>
        err \<in> {ErrUnauthorized, AuthDBError ''begin''}))"
proof -
  have f: "find (liveToken (rt_token r)) (au_refresh db) = None" "find (\<lambda>c. rt_token c = rt_token r) (au_refresh db) = Some r"
    using find_live [OF assms(5,1)] find_token [OF assms(5,1)] assms(2) by simp_all
  have "liveChild r e db = None" using assms(2,3) by (simp add: liveChild_def Let_def)
  with f assms(4,6) have c: "ConsumeRefreshToken (rt_token r) nextTok e db = (Inl ErrRefreshReuse, revokeReused r db)"
    by (simp add: ConsumeRefreshToken_def)
  have "rt_token c \<notin> rt_token ` set (au_refresh (revokeReused r db))" if "c \<in> set (au_refresh db)" "family r c" for c
    using that assms(5) by (auto simp: revokeReused_family distinct_map inj_on_def)
  with c unknown_token show ?thesis by blast
qed

end
