(* ===== verification/Auth_Frames.thy ===== *)
theory Auth_Frames
  imports Auth_Router Auth_MFA_Laws Auth_Session_Laws
begin

text \<open>
  What the operations leave alone: \<open>raised\<close> is the set of sessions at \<open>aal2\<close> that have a refresh token, by user. No
  operation but the issue of a session adds to it (collection \<open>frame\<close>).
\<close>

named_theorems frame \<open>the refresh tokens after an operation\<close>

definition raised :: "authdb \<Rightarrow> (string \<times> string) set" where
  "raised db = {(rt_user r, asText (rt_session r)) |r. r \<in> set (au_refresh db) \<and> rt_aal r = ''aal2''}"

lemma raisedI: "r \<in> set (au_refresh db) \<Longrightarrow> rt_aal r = ''aal2'' \<Longrightarrow> (rt_user r, asText (rt_session r)) \<in> raised db"
  by (auto simp: raised_def)

lemma raised_cong: "au_refresh db' = au_refresh db \<Longrightarrow> raised db' = raised db"
  by (simp add: raised_def)

lemma raised_mono: "set (au_refresh db') \<subseteq> set (au_refresh db) \<Longrightarrow> raised db' \<subseteq> raised db"
  by (auto simp: raised_def)

section \<open>Users, tokens, flows\<close>

lemma users_frame [frame]:
  "au_refresh (snd (CreateUser iv p e db)) = au_refresh db"
  "au_refresh (snd (UpdateUser iv mg uid up e db)) = au_refresh db"
  "au_refresh (snd (VerifyPassword check em pw e db)) = au_refresh db"
  "au_refresh (snd (GetUserByID uid e db)) = au_refresh db"
  "au_refresh (snd (ListUsers pg pp e db)) = au_refresh db"
  "au_refresh (RecordSignIn uid e db) = au_refresh db"
  "au_refresh (MarkEmailVerified uid e db) = au_refresh db"
  by (simp_all add: CreateUser_def UpdateUser_def VerifyPassword_def GetUserByID_def ListUsers_def RecordSignIn_def
      MarkEmailVerified_def touchUser_def Let_def split: option.split prod.split)

lemma identities_frame [frame]:
  "au_refresh (LinkIdentity uid pr pu em e db) = au_refresh db"
  "au_refresh (snd (ListIdentities uid e db)) = au_refresh db"
  "au_refresh (snd (DeleteIdentityByID i uid e db)) = au_refresh db"
  "au_refresh (recordIdentity uid inp e db) = au_refresh db"
  by (simp_all add: LinkIdentity_def ListIdentities_def DeleteIdentityByID_def recordIdentity_def Let_def split: option.split)

lemma oauth_frame [frame]: "au_refresh (snd (UpsertOAuthUser lower meta inp e db)) = au_refresh db"
proof -
  have j: "au_refresh (snd (judgeMatch u e db)) = au_refresh db" for u by (simp add: judgeMatch_def)
  have l: "au_refresh (snd (linkOrCreateOAuthUser lower meta inp e db)) = au_refresh db"
    by (simp add: linkOrCreateOAuthUser_def Let_def j split: option.split)
  show ?thesis
    by (simp add: UpsertOAuthUser_def case_prod_beta l frame split: option.split sum.split)
qed

lemma otp_frame [frame]:
  "au_refresh (snd (CreateOneTimeToken uid t p x e db)) = au_refresh db"
  "au_refresh (snd (CreateOTPCode uid t c em p x e db)) = au_refresh db"
  "au_refresh (snd (DeleteUserTokensByPurpose uid p e db)) = au_refresh db"
  "au_refresh (snd (DeleteOneTimeToken t e db)) = au_refresh db"
  "au_refresh (snd (PeekOneTimeToken t e db)) = au_refresh db"
  by (simp_all add: CreateOneTimeToken_def CreateOTPCode_def insertOTT_def DeleteUserTokensByPurpose_def DeleteOneTimeToken_def
      PeekOneTimeToken_def deleteOTTs_def Let_def split: option.split)

lemma otpStep_frame: "au_refresh (snd (otpStep e p db)) = au_refresh db"
  by (cases p) (simp_all add: otpLookup_def deleteOTTs_def spendAttempt_def Let_def split: option.split)

lemma verifyOTP_frame [frame]: "au_refresh (snd (VerifyOTP t em al e db)) = au_refresh db"
proof -
  have "au_refresh (snd (((\<lambda>(p, d). otpStep e p d) ^^ n) (p, db))) = au_refresh db" for n p
    by (induction n) (simp_all add: case_prod_beta otpStep_frame)
  from this [of 3] show ?thesis
    by (simp add: VerifyOTP_def case_prod_beta del: funpow.simps split: otpProc.split)
qed

lemma flow_frame [frame]:
  "au_refresh (snd (GetPKCEFlowState c e db)) = au_refresh db"
  "au_refresh (snd (DeletePKCEFlowState c e db)) = au_refresh db"
  "au_refresh (snd (CreatePKCEFlowState c uid ch m e db)) = au_refresh db"
  "au_refresh (snd (CreateOAuthFlowState stale s ch m rt lu e db)) = au_refresh db"
  "au_refresh (snd (ConsumeOAuthFlowState s e db)) = au_refresh db"
  by (simp_all add: GetPKCEFlowState_def DeletePKCEFlowState_def CreatePKCEFlowState_def CreateOAuthFlowState_def insertFlow_def
      ConsumeOAuthFlowState_def Let_def split: option.split)

lemma factor_frame [frame]:
  "au_refresh (dropFactors P db) = au_refresh db"
  "au_refresh (snd (EnrollFactor uid n sk e db)) = au_refresh db"
  "au_refresh (snd (CreateChallenge f uid e db)) = au_refresh db"
  "au_refresh (snd (GetFactorForVerify f uid e db)) = au_refresh db"
  "au_refresh (snd (ValidateChallenge c f e db)) = au_refresh db"
  "au_refresh (snd (MarkChallengeVerified c e db)) = au_refresh db"
  "au_refresh (snd (ConsumeTOTPStep f st e db)) = au_refresh db"
  "au_refresh (snd (PromoteFactorToVerified f e db)) = au_refresh db"
  "au_refresh (snd (ListFactors uid e db)) = au_refresh db"
  "au_refresh (snd (DeleteFactorForUser f uid al e db)) = au_refresh db"
  by (simp_all add: dropFactors_def EnrollFactor_def CreateChallenge_def GetFactorForVerify_def ValidateChallenge_def
      MarkChallengeVerified_def ConsumeTOTPStep_def PromoteFactorToVerified_def ListFactors_def DeleteFactorForUser_def Let_def
      split: option.split)

section \<open>Sessions\<close>

lemma revoke_frame:
  "raised (snd (deleteTokens what P e db)) \<subseteq> raised db"
  "raised (snd (RevokeSessionByID sid e db)) \<subseteq> raised db"
  "raised (snd (RevokeOtherSessions uid sid e db)) \<subseteq> raised db"
  "raised (snd (RevokeBelowAAL2 uid sid al e db)) \<subseteq> raised db"
  "raised (snd (RevokeAllUserSessions uid e db)) \<subseteq> raised db"
  by (rule raised_mono; auto simp: deleteTokens_def RevokeSessionByID_def RevokeOtherSessions_def RevokeBelowAAL2_def
      RevokeAllUserSessions_def)+

text \<open>Issuing a session adds the session at its level and nothing else.\<close>

lemma issueSession_raised:
  "raised (snd (issueSession iss uid view meta tok e db)) \<subseteq>
     (if sm_AAL meta = ''aal2'' then {(uid, if sm_SessionID meta = [] then en_uuid e else sm_SessionID meta)} else {}) \<union> raised db"
  by (auto simp: issueSession_def InsertRefreshToken_def insertRefreshToken_def Normalize_meta_def raised_def asText_def Let_def
      split: if_splits)

lemma issueSession_ok:
  "issueSession iss uid view meta tok e db = (Inr (m, t), db') \<Longrightarrow>
     \<not> snd view \<and> t = tok \<and> sm_SessionID m = (if sm_SessionID meta = [] then en_uuid e else sm_SessionID meta) \<and>
     sm_AAL m = (if sm_AAL meta = [] then ''aal1'' else sm_AAL meta)"
  by (auto simp: issueSession_def Normalize_meta_def Let_def split: if_splits sum.splits prod.splits)

lemma buildSession_raised: "raised (snd (buildSession g view meth i db)) \<subseteq> raised db"
  unfolding buildSession_def by (rule subset_trans [OF issueSession_raised]) simp

lemma buildSession_ok:
  "buildSession g view meth i db = (Inr (m, t), db') \<Longrightarrow> \<not> snd view \<and> sm_AAL m = ''aal1''"
  unfolding buildSession_def by (auto dest: issueSession_ok)

lemma openSession_raised: "raised (snd (snd (openSession g view meth i db))) \<subseteq> raised db"
  using buildSession_raised [of g view meth i db] by (auto simp: openSession_def case_prod_beta split: sum.split)

lemma openSession_ok:
  "fst (openSession g view meth i db) = a \<Longrightarrow> opened a = Some (v, m, t) \<Longrightarrow> v = view \<and> \<not> snd view \<and> sm_AAL m = ''aal1''"
  by (auto simp: openSession_def sessionError_def split: prod.splits sum.splits if_splits dest: buildSession_ok)

text \<open>A refresh keeps the set, and its session is one of those presented.\<close>

lemma refresh_raised:
  assumes c: "ConsumeRefreshToken token nextTok e db = (r, db')" and ne: "\<forall>p \<in> raised db. snd p \<noteq> []"
  shows "raised db' \<subseteq> raised db \<and>
    (\<forall>v meta t. r = Inr (v, meta, t) \<longrightarrow> sm_AAL meta = ''aal2'' \<longrightarrow> (u_id (fst v), sm_SessionID meta) \<in> raised db)"
proof (cases r)
  case (Inl err)
  from ConsumeRefreshToken_fails [OF c [unfolded Inl]] obtain P where "db' = db\<lparr>au_refresh := delRows P (au_refresh db)\<rparr>" ..
  with Inl show ?thesis by (auto intro!: raised_mono)
next
  case (Inr p)
  obtain v meta t where p: "p = (v, meta, t)" by (cases p)
  from c have "ConsumeRefreshToken token nextTok e db = (Inr (v, meta, t), db')" by (simp add: Inr p)
  then show ?thesis
  proof (cases rule: refresh_cases)
    case (rotated q s ip ua a)
    have q: "asText (rt_session q) = s" if "rt_aal q = ''aal2''"
    proof -
      have "(rt_user q, asText (rt_session q)) \<in> raised db" using rotated(1) that by (auto simp: raised_def)
      with ne have "asText (rt_session q) \<noteq> []" by force
      with rotated(6) show ?thesis by simp
    qed
    have "raised db' \<subseteq> raised db"
    proof
      fix x assume "x \<in> raised db'"
      then obtain w where w: "w \<in> set (au_refresh db')" "rt_aal w = ''aal2''" "x = (rt_user w, asText (rt_session w))"
        by (auto simp: raised_def)
      from w(1) rotated(10) have "w \<in> set (au_refresh (revokeToken token e db)) \<or>
          rt_user w = rt_user q \<and> rt_session w = Some s \<and> rt_aal w = a" by auto
      then show "x \<in> raised db"
      proof
        assume "w \<in> set (au_refresh (revokeToken token e db))"
        then obtain w' where "w' \<in> set (au_refresh db)" "rt_user w' = rt_user w" "rt_session w' = rt_session w" "rt_aal w' = rt_aal w"
          by (auto simp: revokeToken_def set_updRows)
        with w raisedI [of w' db] show ?thesis by simp
      next
        assume "rt_user w = rt_user q \<and> rt_session w = Some s \<and> rt_aal w = a"
        moreover have "rt_aal q = ''aal2''" if "a = ''aal2''" using rotated(9) that by (auto split: if_splits)
        ultimately show ?thesis using w q rotated(1) by (auto simp: raised_def asText_def)
      qed
    qed
    moreover have "(u_id (fst v), sm_SessionID meta) \<in> raised db" if "sm_AAL meta = ''aal2''"
    proof -
      have "rt_aal q = ''aal2''" using rotated(8,9) that by (auto split: if_splits)
      moreover have "u_id (fst v) = rt_user q" using findUser_id [OF rotated(11)] .
      ultimately show ?thesis using rotated(1,7) q by (auto simp: raised_def)
    qed
    ultimately show ?thesis using Inr p by simp
  next
    case (replayed q c s)
    have "raised db' \<subseteq> raised db" using replayed(13) by (auto intro!: raised_mono)
    moreover have "(u_id (fst v), sm_SessionID meta) \<in> raised db" if "sm_AAL meta = ''aal2''"
    proof -
      have "rt_aal c = ''aal2''" using that replayed(12) by (auto split: if_splits)
      with replayed have "rt_aal q = ''aal2''" "sm_SessionID meta = s" by (simp_all add: asText_def)
      with replayed(1,6) findUser_id [OF replayed(14)] show ?thesis by (auto simp: raised_def asText_def)
    qed
    ultimately show ?thesis using Inr p by simp
  qed
qed

end
