(* ===== verification/Auth_Access.thy ===== *)
theory Auth_Access
  imports Auth_Frames
begin

text \<open>
  What the routes give away, over any sequence of requests: a session only for a credential of its user
  (\<open>session_needs_credential\<close>), and the level \<open>aal2\<close> only after a right code of one of the user's factors
  (\<open>aal2_only_by_factor\<close>).
\<close>

lemmas raised_frame = frame [THEN raised_cong]

section \<open>A session that is opened\<close>

text \<open>Opened for a view of a user who is not banned, at \<open>aal1\<close> and under a new session id.\<close>

definition fresh :: "given \<Rightarrow> userView \<Rightarrow> SessionMeta \<Rightarrow> bool" where
  "fresh g v m \<longleftrightarrow> \<not> snd v \<and> sm_AAL m = ''aal1'' \<and> (\<exists>i. sm_SessionID m = en_uuid (gv_es g i))"

lemma buildSession_fresh: "fst (buildSession g view meth i db) = Inr (m, t) \<Longrightarrow> fresh g view m"
proof -
  assume b: "fst (buildSession g view meth i db) = Inr (m, t)"
  obtain d where "buildSession g view meth i db = (Inr (m, t), d)" using b by (cases "buildSession g view meth i db") simp
  from issueSession_ok [OF this [unfolded buildSession_def]] show ?thesis by (auto simp: fresh_def)
qed

lemma openSession_fresh: "opened (fst (openSession g view meth i db)) = Some (v, m, t) \<Longrightarrow> v = view \<and> fresh g v m"
  using buildSession_fresh by (auto simp: openSession_def sessionError_def case_prod_beta split: sum.splits if_splits)

lemma sessionError_closed [simp]: "opened (sessionError err) = None"
  by (simp add: sessionError_def)

section \<open>Sign-up and the grants\<close>

text \<open>A new account: the id was free.\<close>

lemma CreateUser_ok:
  "CreateUser iv p e db = (Inr v, db') \<Longrightarrow>
     u_id (fst v) = en_uuid e \<and> findUser (en_uuid e) db = None \<and> v = userView e (fst v) \<and> db' = db\<lparr>au_users := au_users db @ [fst v]\<rparr>"
  by (auto simp: CreateUser_def userView_def Let_def split: option.splits if_splits)

lemma CreateUser_new: "fst (CreateUser iv p e db) = Inr v \<Longrightarrow> findUser (u_id (fst v)) db = None"
  using CreateUser_ok [of iv p e db v] by (cases "CreateUser iv p e db") auto

lemma signup_opened:
  "opened (fst (handleSignupDispatch sv g rt email password data db)) = Some (v, m, t) \<Longrightarrow>
     fresh g v m \<and> findUser (u_id (fst v)) db = None"
  by (auto simp: handleSignupDispatch_def handleSignupAnonymous_def handleSignup_def case_prod_beta
      split: if_splits option.splits sum.splits dest!: openSession_fresh dest: CreateUser_new)

definition passwordOf :: "server \<Rightarrow> string \<Rightarrow> string \<Rightarrow> authdb \<Rightarrow> string \<Rightarrow> bool" where
  "passwordOf sv email password db uid \<longleftrightarrow> (\<exists>u \<in> set (au_users db). u_id u = uid \<and> u_email u = Some email \<and>
     asText (u_password u) \<noteq> [] \<and> sv_check sv (asText (u_password u)) password)"

lemma password_opened:
  "opened (fst (handlePasswordGrant sv g email password db)) = Some (v, m, t) \<Longrightarrow>
     fresh g v m \<and> passwordOf sv email password db (u_id (fst v))"
  by (auto simp: handlePasswordGrant_def VerifyPassword_def userByEmail_def userView_def passwordOf_def
      split: if_splits option.splits dest!: openSession_fresh find_SomeD)

definition refreshOf :: "string \<Rightarrow> authdb \<Rightarrow> string \<Rightarrow> bool" where
  "refreshOf token db uid \<longleftrightarrow> (\<exists>r \<in> set (au_refresh db). rt_token r = token \<and> rt_user r = uid)"

lemma refresh_opened:
  assumes "opened (fst (handleRefreshGrant sv g token db)) = Some (v, m, t)"
  shows "\<not> snd v \<and> refreshOf token db (u_id (fst v)) \<and> (en_uuid (gv_es g 0) \<noteq> [] \<longrightarrow> sm_SessionID m \<noteq> []) \<and>
    ((\<forall>p \<in> raised db. snd p \<noteq> []) \<longrightarrow> sm_AAL m = ''aal2'' \<longrightarrow> (u_id (fst v), sm_SessionID m) \<in> raised db)"
proof -
  let ?n = "\<lparr>rr_Token = gv_tok g, rr_ExpiresAt = (en_clock (gv_es g 0) + is_ttl (gv_iss g)) div sec,
            rr_IP = is_IP (gv_iss g), rr_UserAgent = is_UserAgent (gv_iss g)\<rparr>"
  obtain meta d where c: "ConsumeRefreshToken token ?n (gv_es g 0) db = (Inr (v, meta, t), d)"
      and m: "m = Normalize_meta meta" "\<not> snd v"
    using assms by (cases "ConsumeRefreshToken token ?n (gv_es g 0) db")
      (auto simp: handleRefreshGrant_def Let_def split: if_splits sum.splits)
  have same: "sm_SessionID m = sm_SessionID meta" "sm_AAL m = ''aal2'' \<Longrightarrow> sm_AAL meta = ''aal2''"
    using m(1) by (auto simp: Normalize_meta_def split: if_splits)
  have "refreshOf token db (u_id (fst v)) \<and> (en_uuid (gv_es g 0) \<noteq> [] \<longrightarrow> sm_SessionID meta \<noteq> [])"
    using c
  proof (cases rule: refresh_cases)
    case (rotated r s ip ua a)
    then show ?thesis using findUser_id [OF rotated(11)] by (auto simp: refreshOf_def liveToken_def)
  next
    case (replayed r c s)
    then show ?thesis using findUser_id [OF replayed(14)] by (auto simp: refreshOf_def sessionMetaFromRow_def asText_def Normalize_meta_def)
  qed
  with m(2) same refresh_raised [OF c] show ?thesis by auto
qed

definition codeOf :: "string \<Rightarrow> string \<Rightarrow> authdb \<Rightarrow> string \<Rightarrow> bool" where
  "codeOf code verifier db uid \<longleftrightarrow> (\<exists>f \<in> set (au_flows db). pkceRow code f \<and> asText (fl_user f) = uid \<and>
     verifyCodeChallenge (asText (fl_method f)) verifier (asText (fl_challenge f)))"

lemma GetUserByID_ok:
  "GetUserByID uid e db = (Inr v, db') \<Longrightarrow> db' = db \<and> findUser uid db = Some (fst v) \<and> v = userView e (fst v) \<and> u_id (fst v) = uid"
  by (auto simp: GetUserByID_def userView_def dest: findUser_id split: if_splits option.splits)

lemma pkce_opened:
  assumes "opened (fst (handlePKCEGrant sv g code verifier db)) = Some (v, m, t)"
  shows "fresh g v m \<and> codeOf code verifier db (u_id (fst v))"
proof -
  obtain ch me uid d where get: "GetPKCEFlowState code (gv_es g 0) db = (Inr (ch, me, uid), d)"
    using assms by (cases "GetPKCEFlowState code (gv_es g 0) db") (auto simp: handlePKCEGrant_def split: if_splits sum.splits)
  let ?d = "snd (DeletePKCEFlowState code (gv_es g 1) d)"
  note h = assms [unfolded handlePKCEGrant_def get prod.case sum.case Let_def]
  from h have vc: "verifyCodeChallenge me verifier ch" by (auto split: if_splits)
  with h have u: "opened (fst (case GetUserByID uid (gv_es g 2) ?d of (Inl _, db) \<Rightarrow> (Fail 401 ''invalid_grant'', [], db)
      | (Inr view, db) \<Rightarrow> openSession g view ''oauth'' 3 db)) = Some (v, m, t)" by (auto split: if_splits)
  then obtain w d2 where w: "GetUserByID uid (gv_es g 2) ?d = (Inr w, d2)"
    by (cases "GetUserByID uid (gv_es g 2) ?d") (auto split: sum.splits)
  with u have "v = w \<and> fresh g v m" using openSession_fresh by auto
  with GetUserByID_ok [OF w] GetPKCEFlowState_ok [OF get] vc show ?thesis by (auto simp: codeOf_def)
qed

section \<open>External accounts\<close>

text \<open>
  The accounts a login of a provider may lead to: the one its identity is linked to; with an address the provider has
  verified, a new account, one that has proved the same address, or one nobody has claimed.
\<close>

definition providerOf :: "(string \<Rightarrow> string) \<Rightarrow> OAuthLogin \<Rightarrow> authdb \<Rightarrow> string \<Rightarrow> bool" where
  "providerOf lower inp db uid \<longleftrightarrow>
     (\<exists>i \<in> set (au_identities db). identityOf (ol_Provider inp) (ol_ProviderUserID inp) i \<and> id_user i = uid) \<or>
     ol_EmailVerified inp \<and> ol_Email inp \<noteq> [] \<and>
       (findUser uid db = None \<and> ol_AllowSignup inp \<or>
        (\<exists>u \<in> set (au_users db). u_id u = uid \<and> map_option lower (u_email u) = Some (lower (ol_Email inp)) \<and>
           (u_verified u \<or> \<not> claimed db u)))"

lemma oauthByEmail_ok:
  "oauthByEmail lower email db = Some u \<Longrightarrow> u \<in> set (au_users db) \<and> map_option lower (u_email u) = Some (lower email)"
proof -
  assume o: "oauthByEmail lower email db = Some u"
  let ?us = "sort_key (\<lambda>u. \<not> u_verified u) (sort_key u_createdAt (filter (\<lambda>u. map_option lower (u_email u) = Some (lower email)) (au_users db)))"
  have "u \<in> set ?us" using o by (cases ?us) (simp_all add: oauthByEmail_def)
  then show ?thesis by simp
qed

lemma judgeMatch_ok:
  "judgeMatch u e db = (Inr v, db') \<Longrightarrow> u_id (fst v) = u_id u \<and> (u_verified u \<or> \<not> claimed db u)"
  by (auto simp: judgeMatch_def userView_def verifiedAt_def split: if_splits)

lemma linkOrCreate_ok:
  assumes "linkOrCreateOAuthUser lower meta inp e db = (Inr v, db')"
  shows "findUser (u_id (fst v)) db = None \<and> ol_AllowSignup inp \<or>
    (\<exists>u \<in> set (au_users db). u_id u = u_id (fst v) \<and> map_option lower (u_email u) = Some (lower (ol_Email inp)) \<and>
       (u_verified u \<or> \<not> claimed db u))"
proof -
  have judge: ?thesis if "oauthByEmail lower (ol_Email inp) db = Some u" "judgeMatch u e db = (Inr v, db')" for u
    using oauthByEmail_ok [OF that(1)] judgeMatch_ok [OF that(2)] by metis
  from assms judge show ?thesis
    by (auto simp: linkOrCreateOAuthUser_def oauthMeta_def userView_def Let_def split: if_splits option.splits)
qed

lemma upsert_ok:
  assumes "UpsertOAuthUser lower meta inp e db = (Inr v, db')"
  shows "providerOf lower inp db (u_id (fst v))"
proof (cases "userByIdentity (ol_Provider inp) (ol_ProviderUserID inp) db")
  case (Some u)
  then obtain i where "i \<in> set (au_identities db)" "identityOf (ol_Provider inp) (ol_ProviderUserID inp) i"
      "findUser (id_user i) db = Some u"
    by (auto simp: userByIdentity_def split: option.splits dest: find_SomeD)
  moreover from assms Some have "fst v = u" by (auto simp: UpsertOAuthUser_def userView_def split: if_splits)
  ultimately show ?thesis using findUser_id by (auto simp: providerOf_def)
next
  case None
  with assms obtain d where "linkOrCreateOAuthUser lower meta inp e db = (Inr v, d)"
      "ol_EmailVerified inp" "ol_Email inp \<noteq> []"
    by (cases "linkOrCreateOAuthUser lower meta inp e db") (auto simp: UpsertOAuthUser_def split: if_splits sum.splits)
  with linkOrCreate_ok [OF this(1)] show ?thesis by (auto simp: providerOf_def)
qed


text \<open>Only the account that is signed in to changes, and its password and address stay; a new account has no password.\<close>

definition accountsKept :: "string \<Rightarrow> userRow list \<Rightarrow> userRow list \<Rightarrow> bool" where
  "accountsKept uid us us' \<longleftrightarrow> (\<forall>u \<in> set us'. u_id u = uid \<and> uid \<notin> u_id ` set us \<and> u_password u = None \<or>
     (\<exists>u0 \<in> set us. u_id u = u_id u0 \<and> u_password u = u_password u0 \<and> u_email u = u_email u0 \<and> (u_id u \<noteq> uid \<longrightarrow> u = u0)))"

lemma accountsKept_refl: "accountsKept uid us us"
  by (auto simp: accountsKept_def)

lemma accountsKept_upd:
  "accountsKept uid us us' \<Longrightarrow> (\<And>w. u_id (f w) = u_id w \<and> u_password (f w) = u_password w \<and> u_email (f w) = u_email w) \<Longrightarrow>
     accountsKept uid us (updRows (\<lambda>w. u_id w = uid) f us')"
proof -
  assume k: "accountsKept uid us us'"
    and f: "\<And>w. u_id (f w) = u_id w \<and> u_password (f w) = u_password w \<and> u_email (f w) = u_email w"
  show ?thesis
    unfolding accountsKept_def
  proof
    fix u assume "u \<in> set (updRows (\<lambda>w. u_id w = uid) f us')"
    then obtain w where w: "w \<in> set us'" "u = (if u_id w = uid then f w else w)" by (auto simp: set_updRows)
    from k w(1) f [of w] show "u_id u = uid \<and> uid \<notin> u_id ` set us \<and> u_password u = None \<or>
     (\<exists>u0 \<in> set us. u_id u = u_id u0 \<and> u_password u = u_password u0 \<and> u_email u = u_email u0 \<and> (u_id u \<noteq> uid \<longrightarrow> u = u0))"
      unfolding accountsKept_def w(2) by (cases "u_id w = uid") (force+)
  qed
qed

lemma findUser_None: "findUser uid db = None \<longleftrightarrow> uid \<notin> u_id ` set (au_users db)"
  by (auto simp: findUser_def find_None_iff)

lemma judgeMatch_accounts: "judgeMatch u e db = (Inr v, db') \<Longrightarrow> accountsKept (u_id (fst v)) (au_users db) (au_users db')"
  by (auto simp: judgeMatch_def userView_def accountsKept_refl verifiedAt_def split: if_splits
      intro!: accountsKept_upd [OF accountsKept_refl])

lemma linkOrCreate_accounts:
  "linkOrCreateOAuthUser lower meta inp e db = (Inr v, db') \<Longrightarrow> accountsKept (u_id (fst v)) (au_users db) (au_users db')"
  by (auto simp: linkOrCreateOAuthUser_def Let_def userView_def oauthMeta_def findUser_None split: if_splits option.splits
      intro: judgeMatch_accounts) (auto simp: accountsKept_def)

lemma recordIdentity_users [simp]: "au_users (recordIdentity uid inp e db) = au_users db"
  by (simp add: recordIdentity_def Let_def)

text \<open>C18: A sign-in through a provider leads to the account the external identity is linked to; without a link, and only with
  an address the provider has verified, to a new account or to one with that address that has proved it or that nobody
  can sign in to yet. It changes no other account, and no password or address.\<close>

theorem oauth_no_takeover:
  assumes "UpsertOAuthUser lower meta inp e db = (Inr view, db')"
  shows "providerOf lower inp db (u_id (fst view)) \<and> accountsKept (u_id (fst view)) (au_users db) (au_users db')"
proof (rule conjI [OF upsert_ok [OF assms]])
  have "\<exists>d. accountsKept (u_id (fst view)) (au_users db) (au_users d) \<and>
      db' = recordIdentity (u_id (fst view)) inp e (RecordSignIn (u_id (fst view)) e d)"
  proof (cases "userByIdentity (ol_Provider inp) (ol_ProviderUserID inp) db")
    case (Some u)
    with assms show ?thesis by (intro exI [of _ db]) (auto simp: UpsertOAuthUser_def accountsKept_refl split: if_splits)
  next
    case None
    with assms linkOrCreate_accounts show ?thesis by (fastforce simp: UpsertOAuthUser_def split: if_splits sum.splits prod.splits)
  qed
  then show "accountsKept (u_id (fst view)) (au_users db) (au_users db')"
    by (auto simp: RecordSignIn_def touchUser_def intro!: accountsKept_upd)
qed

lemma idToken_opened:
  assumes "opened (fst (handleIDTokenGrant sv g p i tk n db)) = Some (v, m, t)"
  shows "fresh g v m \<and> (\<exists>pu. sv_idToken sv p (if i \<noteq> [] then i else tk) n = Some pu \<and>
    providerOf (sv_lower sv) (oauthLogin sv p pu) db (u_id (fst v)))"
proof -
  let ?tok = "if i \<noteq> [] then i else tk"
  obtain pu where pu: "sv_idToken sv p ?tok n = Some pu" "pu_Email pu \<noteq> []"
    using assms by (auto simp: handleIDTokenGrant_def Let_def split: if_splits option.splits)
  let ?up = "UpsertOAuthUser (sv_lower sv) (sv_meta sv) (oauthLogin sv p pu) (gv_es g 0) db"
  obtain w d where w: "?up = (Inr w, d)" "opened (fst (openSession g w ''oauth'' 1 d)) = Some (v, m, t)"
    using assms pu by (cases ?up) (auto simp: handleIDTokenGrant_def Let_def case_prod_beta split: if_splits sum.splits)
  from openSession_fresh [OF w(2)] upsert_ok [OF w(1)] pu(1) show ?thesis by auto
qed

text \<open>The state of a flow that was started here, not to link an account, and the user the provider returns for the code.\<close>

definition flowOf :: "string \<Rightarrow> authdb \<Rightarrow> bool" where
  "flowOf state db \<longleftrightarrow> (\<exists>f \<in> set (au_flows db). fl_code f = state \<and> fl_provider f = ''oauth'' \<and> asText (fl_linking f) = [])"

lemma ConsumeOAuthFlowState_ok:
  "ConsumeOAuthFlowState st e db = (Inr flow, db') \<Longrightarrow>
     (\<exists>f \<in> set (au_flows db). fl_code f = st \<and> fl_provider f = ''oauth'' \<and> asText (fl_linking f) = fs_LinkingUserID flow) \<and>
     (\<exists>fl. db' = db\<lparr>au_flows := fl\<rparr>)"
  by (auto simp: ConsumeOAuthFlowState_def Let_def split: if_splits option.splits dest!: find_SomeD)

lemma providerOf_flows [simp]: "providerOf lower inp (db\<lparr>au_flows := fl\<rparr>) uid = providerOf lower inp db uid"
  by (simp add: providerOf_def findUser_def claimed_def)

lemma oauthCallbackFail_closed [simp]: "opened (oauthCallbackFail sv rt p desc) = None"
  by (simp add: oauthCallbackFail_def split: option.split)

lemma finish_opened:
  assumes "opened (fst (finishOAuth sv g p flow pu db)) = Some (v, m, t)"
  shows "fresh g v m \<and> fs_LinkingUserID flow = [] \<and> providerOf (sv_lower sv) (oauthLogin sv p pu) db (u_id (fst v))"
proof -
  have l: "fs_LinkingUserID flow = []" using assms by (auto simp: finishOAuth_def Let_def split: if_splits)
  let ?up = "UpsertOAuthUser (sv_lower sv) (sv_meta sv) (oauthLogin sv p pu) (gv_es g 1) db"
  obtain w d where w: "?up = (Inr w, d)" "\<exists>m' t'. fst (buildSession g w ''oauth'' 2 d) = Inr (m', t') \<and> v = w \<and> m = m'"
    using assms l by (cases ?up) (auto simp: finishOAuth_def Let_def case_prod_beta split: if_splits sum.splits option.splits)
  from w(2) buildSession_fresh [of g w "''oauth''" 2 d] upsert_ok [OF w(1)] l show ?thesis by auto
qed

lemma callback_opened:
  assumes "opened (fst (handleOAuthCallback sv g p cb db)) = Some (v, m, t)"
  shows "fresh g v m \<and> flowOf (cb_State cb) db \<and> (\<exists>pu. sv_exchange sv p (cb_Code cb) = Some pu \<and>
    providerOf (sv_lower sv) (oauthLogin sv p pu) db (u_id (fst v)))"
proof -
  obtain flow d where c: "ConsumeOAuthFlowState (cb_State cb) (gv_es g 0) db = (Inr flow, d)"
    using assms by (cases "ConsumeOAuthFlowState (cb_State cb) (gv_es g 0) db") (auto simp: handleOAuthCallback_def split: sum.splits)
  note h = assms [unfolded handleOAuthCallback_def c prod.case sum.case Let_def]
  then obtain pu where pu: "sv_exchange sv p (cb_Code cb) = Some pu" "opened (fst (finishOAuth sv g p flow pu d)) = Some (v, m, t)"
    by (auto split: if_splits option.splits)
  have l: "fs_LinkingUserID flow = []" using finish_opened [OF pu(2)] by blast
  from ConsumeOAuthFlowState_ok [OF c] obtain fl where d: "d = db\<lparr>au_flows := fl\<rparr>" by blast
  have "flowOf (cb_State cb) db" using ConsumeOAuthFlowState_ok [OF c] l by (auto simp: flowOf_def)
  with finish_opened [OF pu(2)] pu(1) d show ?thesis by auto
qed

section \<open>Mailed tokens and codes\<close>

text \<open>An unexpired row of the user with attempts left, by its token or, with the address it was sent to, by its code.\<close>

definition mailedTo :: "string \<Rightarrow> string \<Rightarrow> env \<Rightarrow> authdb \<Rightarrow> string \<Rightarrow> string \<Rightarrow> bool" where
  "mailedTo token email e db uid purpose \<longleftrightarrow> (\<exists>r \<in> set (au_otts db). ot_user r = uid \<and> ot_purpose r = purpose \<and>
     ot_attempts r < maxOTPAttempts \<and> \<not> ot_expires r < en_clock e \<and>
     (ot_token r = token \<or> email \<noteq> [] \<and> ot_email r = Some email \<and> ot_code r = Some token))"

lemma otpLookup_found:
  "otpLookup token email allowed e db = (OtpFound r a, db') \<Longrightarrow> \<not> ot_expires r < en_clock e \<Longrightarrow>
     a = allowed \<and> mailedTo token email e db (ot_user r) (ot_purpose r)"
  by (fastforce simp: otpLookup_def mailedTo_def codeRow_def split: if_splits option.splits dest!: find_SomeD latestBy_Some)

lemma VerifyOTP_ok:
  assumes "VerifyOTP token email allowed e db = (Inr otp, db')"
  shows "mailedTo token email e db (otp_UserID otp) (otp_Purpose otp) \<and> purposeAllowed (otp_Purpose otp) allowed"
proof -
  obtain p1 d1 where 1: "otpLookup token email allowed e db = (p1, d1)" by (cases "otpLookup token email allowed e db")
  show ?thesis
  proof (cases p1)
    case (OtpFound r a)
    with assms 1 have "\<not> ot_expires r < en_clock e \<and> purposeAllowed (ot_purpose r) a \<and> otp_UserID otp = ot_user r \<and>
        otp_Purpose otp = ot_purpose r"
      by (auto simp: VerifyOTP_def eval_nat_numeral split: if_splits)
    with otpLookup_found [OF 1 [unfolded OtpFound]] show ?thesis by simp
  next
    case (OtpDone x)
    moreover have "x = Inl ErrInvalidToken"
      using 1 OtpDone by (auto simp: otpLookup_def split: if_splits option.splits)
    ultimately show ?thesis using assms 1 by (simp add: VerifyOTP_def eval_nat_numeral)
  qed (use assms 1 in \<open>auto simp: VerifyOTP_def eval_nat_numeral otpLookup_def split: if_splits option.splits\<close>)
qed

lemma verify_opened:
  assumes "opened (fst (handleVerify sv g ty token email db)) = Some (v, m, t)"
  shows "fresh g v m \<and> (\<exists>purpose. mailedTo token email (gv_es g 0) db (u_id (fst v)) purpose)"
proof -
  obtain al where al: "purposesFor ty = Some al"
    using assms by (auto simp: handleVerify_def split: if_splits option.splits)
  obtain otp d where o: "VerifyOTP token email al (gv_es g 0) db = (Inr otp, d)"
    using assms al by (cases "VerifyOTP token email al (gv_es g 0) db") (auto simp: handleVerify_def split: if_splits sum.splits)
  define d1 where "d1 = (if otp_Purpose otp = ''signup'' \<or> otp_Purpose otp = ''magiclink''
    then MarkEmailVerified (otp_UserID otp) (gv_es g 1) d else d)"
  obtain w d2 where w: "GetUserByID (otp_UserID otp) (gv_es g 2) d1 = (Inr w, d2)"
      and op: "\<exists>me. opened (fst (openSession g w me 3 d2)) = Some (v, m, t)"
    using assms al o by (cases "GetUserByID (otp_UserID otp) (gv_es g 2) d1")
      (auto simp: handleVerify_def Let_def d1_def [symmetric] split: if_splits sum.splits)
  from op have "v = w \<and> fresh g v m" using openSession_fresh by blast
  with GetUserByID_ok [OF w] VerifyOTP_ok [OF o] show ?thesis by auto
qed

lemma Peek_ok:
  "PeekOneTimeToken token e db = (Inr otp, db') \<Longrightarrow> mailedTo token [] e db (otp_UserID otp) (otp_Purpose otp)"
  by (auto simp: PeekOneTimeToken_def mailedTo_def split: if_splits option.splits dest!: find_SomeD)

lemma link_opened:
  assumes "opened (fst (handleVerifyGET sv g token ty rt db)) = Some (v, m, t)"
  shows "fresh g v m \<and> (\<exists>purpose. mailedTo token [] (gv_es g 0) db (u_id (fst v)) purpose \<and> (purpose = ''recovery'' \<or> ty = ''recovery''))"
proof -
  obtain otp d where o: "PeekOneTimeToken token (gv_es g 0) db = (Inr otp, d)"
    using assms by (cases "PeekOneTimeToken token (gv_es g 0) db") (auto simp: handleVerifyGET_def split: if_splits sum.splits)
  obtain x d1 where d1: "DeleteOneTimeToken token (gv_es g 1) d = (Inr x, d1)"
    using assms o by (cases "DeleteOneTimeToken token (gv_es g 1) d") (auto simp: handleVerifyGET_def split: if_splits sum.splits)
  have rec: "otp_Purpose otp = ''recovery'' \<or> ty = ''recovery''"
    using assms o d1 by (auto simp: handleVerifyGET_def Let_def split: if_splits)
  obtain w d2 where w: "GetUserByID (otp_UserID otp) (gv_es g 2) d1 = (Inr w, d2)"
      and op: "\<exists>m' t'. fst (buildSession g w ''recovery'' 3 d2) = Inr (m', t') \<and> v = w \<and> m = m'"
    using assms o d1 rec by (cases "GetUserByID (otp_UserID otp) (gv_es g 2) d1")
      (auto simp: handleVerifyGET_def Let_def case_prod_beta split: if_splits sum.splits)
  from op have "v = w \<and> fresh g v m" using buildSession_fresh by blast
  with GetUserByID_ok [OF w] Peek_ok [OF o] rec show ?thesis by auto
qed


section \<open>The second factor\<close>

definition rightCode :: "(string \<Rightarrow> int \<Rightarrow> string option) \<Rightarrow> given \<Rightarrow> caller \<Rightarrow> string \<Rightarrow> string \<Rightarrow> string \<Rightarrow> authdb \<Rightarrow> bool" where
  "rightCode totp g c fid cid code db \<longleftrightarrow>
     (\<exists>f \<in> set (au_factors db). fa_id f = fid \<and> fa_user f = ca_UserID c \<and>
        matchTOTPStep totp code (fa_secret f) (en_clock (gv_es g 3)) \<noteq> None) \<and>
     (\<exists>ch \<in> set (au_challenges db). openChallenge cid fid (en_now (gv_es g 2)) ch)"

lemma elevate_issued:
  assumes "elevate iss c first tok es db = (Issued v m t, db')"
  shows "u_id (fst v) = ca_UserID c \<and> \<not> snd v \<and> sm_AAL m = ''aal2'' \<and>
    sm_SessionID m = (if ca_SessionID c = [] then en_uuid (es 9) else ca_SessionID c)"
proof -
  obtain w d where w: "GetUserByID (ca_UserID c) (es 7) db = (Inr w, d)"
    using assms by (cases "GetUserByID (ca_UserID c) (es 7) db") (auto simp: elevate_def split: sum.splits)
  let ?m = "\<lparr>sm_SessionID = ca_SessionID c, sm_IP = [], sm_UserAgent = [], sm_AAL = ''aal2'',
                sm_AMR = addAMR (ca_AMR c) \<lparr>amr_Method = ''totp'', amr_Timestamp = en_clock (es 8) div sec\<rparr>\<rparr>"
  obtain d' where "issueSession iss (ca_UserID c) w ?m tok (es 9) d = (Inr (m, t), d')" and v: "v = w"
    using assms w by (cases "issueSession iss (ca_UserID c) w ?m tok (es 9) d") (auto simp: elevate_def split: sum.splits if_splits)
  from issueSession_ok [OF this(1)] GetUserByID_ok [OF w] v show ?thesis by simp
qed

lemma acceptCode_issued:
  assumes "acceptCode iss c fid cid factor st tok es db = (Issued v m t, db')"
  obtains first d where "elevate iss c first tok es d = (Issued v m t, db')"
  using assms by (auto simp: acceptCode_def Let_def split: prod.splits sum.splits if_splits)

lemma verify_opened_code:
  assumes "handleVerifyFactor totp iss c fid cid code tok (gv_es g) db = (Issued v m t, db')"
  shows "rightCode totp g c fid cid code db \<and> u_id (fst v) = ca_UserID c \<and> \<not> snd v \<and> sm_AAL m = ''aal2'' \<and>
    sm_SessionID m = (if ca_SessionID c = [] then en_uuid (gv_es g 9) else ca_SessionID c)"
  using assms
proof (cases rule: verify_cases)
  case (1 f factor st d)
  from 1(8) obtain first d' where "elevate iss c first tok (gv_es g) d' = (Issued v m t, db')" by (rule acceptCode_issued)
  from elevate_issued [OF this] 1 ValidateChallenge_ok [OF 1(6)] show ?thesis by (auto simp: rightCode_def)
qed

lemma GetUserByID_same: "snd (GetUserByID uid e db) = db"
  by (simp add: GetUserByID_def split: option.split)

text \<open>The session that is raised: the caller's.\<close>

definition raisedBy :: "(nat \<Rightarrow> env) \<Rightarrow> caller \<Rightarrow> string \<times> string" where
  "raisedBy es c = (ca_UserID c, if ca_SessionID c = [] then en_uuid (es 9) else ca_SessionID c)"

lemma elevate_raised: "raised (snd (elevate iss c first tok es db)) \<subseteq> insert (raisedBy es c) (raised db)"
proof (cases "fst (GetUserByID (ca_UserID c) (es 7) db)")
  case (Inl err)
  then show ?thesis by (auto simp: elevate_def case_prod_beta GetUserByID_same)
next
  case (Inr w)
  define m where "m = \<lparr>sm_SessionID = ca_SessionID c, sm_IP = [], sm_UserAgent = [], sm_AAL = ''aal2'',
                sm_AMR = addAMR (ca_AMR c) \<lparr>amr_Method = ''totp'', amr_Timestamp = en_clock (es 8) div sec\<rparr>\<rparr>"
  have m: "sm_AAL m = ''aal2''" "sm_SessionID m = ca_SessionID c" by (simp_all add: m_def)
  have "raised (snd (elevate iss c first tok es db)) \<subseteq> raised (snd (issueSession iss (ca_UserID c) w m tok (es 9) db))"
    using Inr by (auto simp: elevate_def Let_def case_prod_beta GetUserByID_same m_def [symmetric] split: sum.split
        dest!: subsetD [OF revoke_frame(4)])
  also have "\<dots> \<subseteq> (if sm_AAL m = ''aal2'' then {(ca_UserID c, if sm_SessionID m = [] then en_uuid (es 9) else sm_SessionID m)} else {}) \<union> raised db"
    by (rule issueSession_raised)
  finally show ?thesis by (simp add: m raisedBy_def split: if_splits)
qed

lemma acceptCode_raised: "raised (snd (acceptCode iss c fid cid factor st tok es db)) \<subseteq> insert (raisedBy es c) (raised db)"
proof -
  have e: "raised (snd (elevate iss c first tok es d)) \<subseteq> insert (raisedBy es c) (raised db)" if "raised d = raised db" for first d
    using elevate_raised [of iss c first tok es d] that by simp
  show ?thesis
    by (simp add: acceptCode_def Let_def case_prod_beta raised_frame e subset_insertI split: sum.split)
qed

lemma GetFactorForVerify_same: "snd (GetFactorForVerify fid uid e db) = db"
  by (simp add: GetFactorForVerify_def split: option.split)

lemma verify_raised:
  "raised (snd (handleVerifyFactor totp iss c fid cid code tok (gv_es g) db)) \<subseteq>
     (if rightCode totp g c fid cid code db then {raisedBy (gv_es g) c} else {}) \<union> raised db"
proof -
  let ?V = "ValidateChallenge cid fid (gv_es g 2) db"
  define R where "R = (if rightCode totp g c fid cid code db then {raisedBy (gv_es g) c} else {}) \<union> raised db"
  have ok: "raised (snd (acceptCode iss c fid cid factor st tok (gv_es g) (snd ?V))) \<subseteq> R"
    if "fst (GetFactorForVerify fid (ca_UserID c) (gv_es g 0) db) = Inr factor" "fst ?V = Inr x"
      "matchTOTPStep totp code (mf_Secret factor) (en_clock (gv_es g 3)) = Some st" for factor x st
  proof -
    have "rightCode totp g c fid cid code db"
      using GetFactorForVerify_ok [of fid "ca_UserID c" "gv_es g 0" db factor] ValidateChallenge_ok [of cid fid "gv_es g 2" db] that
      by (cases "GetFactorForVerify fid (ca_UserID c) (gv_es g 0) db"; cases ?V) (auto simp: rightCode_def)
    with acceptCode_raised [of iss c fid cid factor st tok "gv_es g" "snd ?V"] show ?thesis by (simp add: R_def raised_frame)
  qed
  have R: "raised db \<subseteq> R" by (simp add: R_def)
  have "raised (snd (handleVerifyFactor totp iss c fid cid code tok (gv_es g) db)) \<subseteq> R"
    by (simp add: handleVerifyFactor_def case_prod_beta GetFactorForVerify_same raised_frame ok R split: sum.split option.split)
  then show ?thesis by (simp add: R_def)
qed


section \<open>Handlers that raise nothing\<close>

named_theorems quiet \<open>no session is raised\<close>

lemma open_quiet [quiet]: "raised db1 \<subseteq> raised db \<Longrightarrow> raised (snd (snd (openSession g view meth i db1))) \<subseteq> raised db"
  using openSession_raised by blast

lemma build_quiet [quiet]: "raised db1 \<subseteq> raised db \<Longrightarrow> raised (snd (buildSession g view meth i db1)) \<subseteq> raised db"
  using buildSession_raised by blast

lemma revoke_quiet [quiet]:
  "raised d \<subseteq> R \<Longrightarrow> raised (snd (RevokeSessionByID sid e d)) \<subseteq> R"
  "raised d \<subseteq> R \<Longrightarrow> raised (snd (RevokeOtherSessions uid sid e d)) \<subseteq> R"
  "raised d \<subseteq> R \<Longrightarrow> raised (snd (RevokeAllUserSessions uid e d)) \<subseteq> R"
  by (rule subset_trans [OF revoke_frame(2)] subset_trans [OF revoke_frame(3)] subset_trans [OF revoke_frame(5)]; assumption)+

lemma delete_quiet [quiet]: "raised (snd (DeleteUser uid e db)) \<subseteq> raised db"
  by (rule raised_mono) (auto simp: DeleteUser_def dropFactors_def Let_def)

lemma anonymous_quiet [quiet]: "raised (snd (snd (handleSignupAnonymous sv g data db))) \<subseteq> raised db"
  by (simp add: handleSignupAnonymous_def case_prod_beta raised_frame quiet split: sum.split)

lemma email_quiet [quiet]: "raised d \<subseteq> R \<Longrightarrow> raised (snd (sendVerificationEmail sv g uid em rt i d)) \<subseteq> R"
  by (simp add: sendVerificationEmail_def raised_frame)

lemma signup_quiet [quiet]: "raised (snd (snd (handleSignup sv g rt email password data db))) \<subseteq> raised db"
  by (simp add: handleSignup_def case_prod_beta raised_frame quiet split: sum.split option.split)

lemma dispatch_quiet [quiet]: "raised (snd (snd (handleSignupDispatch sv g rt email password data db))) \<subseteq> raised db"
  by (simp add: handleSignupDispatch_def quiet)

lemma grant_quiet [quiet]:
  "raised (snd (snd (handlePasswordGrant sv g email password db))) \<subseteq> raised db"
  "raised (snd (snd (handlePKCEGrant sv g code verifier db))) \<subseteq> raised db"
  "raised (snd (snd (handleIDTokenGrant sv g p i t n db))) \<subseteq> raised db"
  by (simp_all add: handlePasswordGrant_def handlePKCEGrant_def handleIDTokenGrant_def case_prod_beta Let_def raised_frame quiet
      split: sum.split option.split)

lemma refresh_quiet [quiet]: "\<forall>p \<in> raised db. snd p \<noteq> [] \<Longrightarrow> raised (snd (snd (handleRefreshGrant sv g token db))) \<subseteq> raised db"
proof -
  assume ne: "\<forall>p \<in> raised db. snd p \<noteq> []"
  let ?n = "\<lparr>rr_Token = gv_tok g, rr_ExpiresAt = (en_clock (gv_es g 0) + is_ttl (gv_iss g)) div sec,
            rr_IP = is_IP (gv_iss g), rr_UserAgent = is_UserAgent (gv_iss g)\<rparr>"
  obtain r d where c: "ConsumeRefreshToken token ?n (gv_es g 0) db = (r, d)" by (cases "ConsumeRefreshToken token ?n (gv_es g 0) db")
  from refresh_raised [OF c ne] c show ?thesis
    by (auto simp: handleRefreshGrant_def Let_def split: sum.split)
qed

lemma user_quiet [quiet]:
  "raised (snd (snd (handleGetUser g c db))) \<subseteq> raised db"
  "raised (snd (snd (handleLogout g c scope db))) \<subseteq> raised db"
  "raised (snd (snd (handleUpdateUser sv g c em pw data db))) \<subseteq> raised db"
  by (simp_all add: handleGetUser_def handleLogout_def handleUpdateUser_def endOtherSessions_def case_prod_beta Let_def raised_frame
      quiet split: sum.split option.split)


lemma mail_quiet [quiet]:
  "raised (snd (snd (handleRecover sv g rt em db))) \<subseteq> raised db"
  "raised (snd (snd (handleVerify sv g ty token em db))) \<subseteq> raised db"
  "raised (snd (snd (handleVerifyGET sv g token ty rt db))) \<subseteq> raised db"
  by (simp_all add: handleRecover_def handleVerify_def handleVerifyGET_def case_prod_beta Let_def raised_frame quiet
      split: sum.split option.split)

lemma code_quiet [quiet]: "raised d \<subseteq> R \<Longrightarrow> raised (snd (snd (issueCode sv g failed uid em p l i d))) \<subseteq> R"
  by (simp add: issueCode_def case_prod_beta raised_frame split: sum.split)

lemma otp_quiet [quiet]:
  "raised (snd (snd (handleOTP sv g em create data db))) \<subseteq> raised db"
  "raised (snd (snd (handleResend sv g ty em db))) \<subseteq> raised db"
  "raised (snd (snd (handleReauthenticate sv g c db))) \<subseteq> raised db"
  by (simp_all add: handleOTP_def handleResend_def handleReauthenticate_def case_prod_beta Let_def raised_frame quiet
      split: sum.split option.split)

lemma link_quiet [quiet]: "raised (snd (handleGenerateLink sv g ty em pw data rt db)) \<subseteq> raised db"
  by (simp add: handleGenerateLink_def case_prod_beta Let_def raised_frame quiet split: sum.split option.split)

lemma finish_quiet [quiet]: "raised d \<subseteq> R \<Longrightarrow> raised (snd (snd (finishOAuth sv g p flow pu d))) \<subseteq> R"
proof -
  assume "raised d \<subseteq> R"
  moreover have "raised (snd (snd (finishOAuth sv g p flow pu d))) \<subseteq> raised d"
    by (simp add: finishOAuth_def case_prod_beta Let_def raised_frame quiet split: sum.split option.split)
  ultimately show ?thesis by (rule subset_trans [rotated])
qed

lemma oauth_quiet [quiet]:
  "raised (snd (snd (handleAuthorize stale sv g p rt ch me db))) \<subseteq> raised db"
  "raised (snd (snd (handleOAuthCallback sv g p cb db))) \<subseteq> raised db"
  "raised (snd (handleLinkIdentity stale sv g c p rt db)) \<subseteq> raised db"
  "raised (snd (handleListIdentities g c db)) \<subseteq> raised db"
  "raised (snd (snd (handleUnlinkIdentity g c i db))) \<subseteq> raised db"
  by (simp_all add: handleAuthorize_def handleOAuthCallback_def handleLinkIdentity_def handleListIdentities_def
      handleUnlinkIdentity_def case_prod_beta Let_def raised_frame quiet split: sum.split option.split)

lemma factor_quiet [quiet]:
  "raised (snd (handleEnrollFactor sk c ty name es db)) \<subseteq> raised db"
  "raised (snd (handleChallengeFactor c fid e db)) \<subseteq> raised db"
  "raised (snd (handleUnenrollFactor c fid es db)) \<subseteq> raised db"
  by (simp_all add: handleEnrollFactor_def handleChallengeFactor_def handleUnenrollFactor_def case_prod_beta Let_def raised_frame
      split: sum.split option.split)

lemma admin_quiet [quiet]:
  "raised (snd (snd (handleAdminCreateUser sv g em pw cf um am ban db))) \<subseteq> raised db"
  "raised (snd (handleAdminListUsers g pg pp db)) \<subseteq> raised db"
  "raised (snd (snd (handleAdminGetUser g uid db))) \<subseteq> raised db"
  "raised (snd (snd (handleAdminUpdateUser sv g uid em' pw' cf' um am ban' db))) \<subseteq> raised db"
  "raised (snd (snd (handleAdminDeleteUser g uid db))) \<subseteq> raised db"
  "raised (snd (snd (handleAdminInvite sv g em data db))) \<subseteq> raised db"
  "raised (snd (snd (handleAdminSignOut g uid db))) \<subseteq> raised db"
  "raised (snd (snd (handleAdminDeleteFactor g uid fid db))) \<subseteq> raised db"
  by (simp_all add: handleAdminCreateUser_def handleAdminListUsers_def handleAdminGetUser_def handleAdminUpdateUser_def
      handleAdminDeleteUser_def handleAdminInvite_def handleAdminSignOut_def handleAdminDeleteFactor_def case_prod_beta Let_def
      raised_frame quiet split: sum.split option.split)


section \<open>Handlers that open no session\<close>

named_theorems closed \<open>the answer opens no session\<close>

lemma statusOf_closed [closed]: "opened (fst (statusOf r)) = None"
  by (simp add: statusOf_def case_prod_beta split: sum.split)

lemma user_closed [closed]:
  "opened (fst (handleGetUser g c db)) = None"
  "opened (fst (handleLogout g c scope db)) = None"
  "opened (fst (handleUpdateUser sv g c em pw data db)) = None"
  by (simp_all add: handleGetUser_def handleLogout_def handleUpdateUser_def case_prod_beta Let_def split: sum.split)

lemma issueCode_closed: "opened failed = None \<Longrightarrow> opened (fst (issueCode sv g failed uid em p l i d)) = None"
  by (simp add: issueCode_def case_prod_beta split: sum.split)

lemma mail_closed [closed]:
  "opened (fst (handleRecover sv g rt em db)) = None"
  "opened (fst (handleOTP sv g em create data db)) = None"
  "opened (fst (handleResend sv g ty em db)) = None"
  "opened (fst (handleReauthenticate sv g c db)) = None"
  by (simp_all add: handleRecover_def handleOTP_def handleResend_def handleReauthenticate_def issueCode_closed case_prod_beta Let_def
      split: sum.split option.split)

lemma oauth_closed [closed]:
  "opened (fst (handleAuthorize stale sv g p rt ch me db)) = None"
  "opened (handleOAuthFormPost sv p form) = None"
  "opened (fst (handleUnlinkIdentity g c i db)) = None"
  by (simp_all add: handleAuthorize_def handleOAuthFormPost_def handleUnlinkIdentity_def case_prod_beta Let_def
      split: sum.split option.split)

lemma admin_closed [closed]:
  "opened (fst (handleAdminCreateUser sv g em pw cf um am ban db)) = None"
  "opened (fst (handleAdminGetUser g uid db)) = None"
  "opened (fst (handleAdminUpdateUser sv g uid em' pw' cf' um am ban' db)) = None"
  "opened (fst (handleAdminDeleteUser g uid db)) = None"
  "opened (fst (handleAdminInvite sv g em data db)) = None"
  "opened (fst (handleAdminSignOut g uid db)) = None"
  "opened (fst (handleAdminDeleteFactor g uid fid db)) = None"
  by (simp_all add: handleAdminCreateUser_def handleAdminGetUser_def handleAdminUpdateUser_def handleAdminDeleteUser_def
      handleAdminInvite_def handleAdminSignOut_def handleAdminDeleteFactor_def case_prod_beta Let_def split: sum.split)

lemma routes_closed [closed]: "opened (fst r) = None \<Longrightarrow> opened (fst (emailRoute sv r db)) = None"
  "opened (fst r) = None \<Longrightarrow> opened (fst (callbackRoute sv p r db)) = None"
  by (simp_all add: emailRoute_def callbackRoute_def notRouted_def)

lemma emailRoute_opened: "opened (fst (emailRoute sv r db)) = Some x \<Longrightarrow> opened (fst r) = Some x"
  by (simp add: emailRoute_def notRouted_def split: if_splits)

lemma callbackRoute_opened: "opened (fst (callbackRoute sv p r db)) = Some x \<Longrightarrow> opened (fst r) = Some x"
  by (simp add: callbackRoute_def notRouted_def split: if_splits)

section \<open>Credentials\<close>

text \<open>What a request must bring for a session of the user, checked against the tables as they are when it arrives.\<close>

definition credential ::
    "(string \<Rightarrow> int \<Rightarrow> string option) \<Rightarrow> server \<Rightarrow> given \<Rightarrow> request \<Rightarrow> authdb \<Rightarrow> string \<Rightarrow> bool" where
  "credential totp sv g req db uid =
     (case req of
        Signup _ _ _ _ \<Rightarrow> findUser uid db = None
      | Token (PasswordBody email password) \<Rightarrow> passwordOf sv email password db uid
      | Token (RefreshBody token) \<Rightarrow> refreshOf token db uid
      | Token (PKCEBody code verifier) \<Rightarrow> codeOf code verifier db uid
      | Token (IDTokenBody p i tk n) \<Rightarrow>
          (\<exists>pu. sv_idToken sv p (if i \<noteq> [] then i else tk) n = Some pu \<and> providerOf (sv_lower sv) (oauthLogin sv p pu) db uid)
      | VerifyForm _ token email \<Rightarrow> (\<exists>purpose. mailedTo token email (gv_es g 0) db uid purpose)
      | VerifyLink token ty _ \<Rightarrow>
          (\<exists>purpose. mailedTo token [] (gv_es g 0) db uid purpose \<and> (purpose = ''recovery'' \<or> ty = ''recovery''))
      | Callback p cb \<Rightarrow> flowOf (cb_State cb) db \<and>
          (\<exists>pu. sv_exchange sv p (cb_Code cb) = Some pu \<and> providerOf (sv_lower sv) (oauthLogin sv p pu) db uid)
      | VerifyF c fid cid code \<Rightarrow> ca_UserID c = uid \<and> rightCode totp g c fid cid code db
      | _ \<Rightarrow> False)"

lemma answerOf_opened: "opened (fst (answerOf r)) = Some (v, m, t) \<Longrightarrow> fst r = Issued v m t"
  by (cases "fst r") (auto simp: answerOf_def split: prod.splits response.splits)

lemma token_opened:
  assumes "opened (fst (handleToken sv g body db)) = Some (v, m, t)"
  shows "credential totp sv g (Token body) db (u_id (fst v)) \<and> \<not> snd v"
  using assms
  by (cases body) (auto simp: handleToken_def credential_def fresh_def
      dest!: password_opened refresh_opened pkce_opened idToken_opened)

lemma verifyF_opened:
  assumes "opened (fst (serve totp stale sv g (VerifyF c fid cid code) db)) = Some (v, m, t)"
  shows "rightCode totp g c fid cid code db \<and> u_id (fst v) = ca_UserID c \<and> \<not> snd v \<and> sm_AAL m = ''aal2'' \<and>
    sm_SessionID m = (if ca_SessionID c = [] then en_uuid (gv_es g 9) else ca_SessionID c)"
proof -
  let ?r = "handleVerifyFactor totp (gv_iss g) c fid cid code (gv_tok g) (gv_es g) db"
  from answerOf_opened [of ?r] assms have "fst ?r = Issued v m t" by simp
  then have "?r = (Issued v m t, snd ?r)" by (cases ?r) simp
  then show ?thesis by (rule verify_opened_code)
qed

text \<open>C16: Whatever is asked of the auth routes, a session is opened only for a user who is not banned and whose credential the
  request brings: a new account for a sign-up, the password, a refresh token, an authorization code with its verifier, a
  verified token of a provider, an unexpired mailed token or code, or a right code of an own factor. No other route opens
  a session.\<close>

theorem session_needs_credential:
  assumes "opened (fst (serve totp stale sv g req db)) = Some (view, meta, token)"
  shows "credential totp sv g req db (u_id (fst view)) \<and> \<not> snd view"
proof (cases req)
  case (Signup rt email password data)
  with assms signup_opened show ?thesis by (fastforce simp: credential_def fresh_def)
next
  case (Token body)
  with assms token_opened show ?thesis by simp
next
  case (VerifyForm ty tk email)
  with assms have "opened (fst (handleVerify sv g ty tk email db)) = Some (view, meta, token)" by (auto dest: emailRoute_opened)
  with VerifyForm verify_opened show ?thesis by (fastforce simp: credential_def fresh_def)
next
  case (VerifyLink tk ty rt)
  with assms have "opened (fst (handleVerifyGET sv g tk ty rt db)) = Some (view, meta, token)" by (auto dest: emailRoute_opened)
  with VerifyLink link_opened show ?thesis by (fastforce simp: credential_def fresh_def)
next
  case (Callback p cb)
  with assms have "opened (fst (handleOAuthCallback sv g p cb db)) = Some (view, meta, token)" by (auto dest: callbackRoute_opened)
  with Callback callback_opened show ?thesis by (fastforce simp: credential_def fresh_def)
next
  case (VerifyF c fid cid code)
  with assms verifyF_opened show ?thesis by (auto simp: credential_def simp del: serve.simps)
qed (use assms in \<open>simp_all add: closed\<close>)


section \<open>Runs\<close>

text \<open>
  The state: the tables, the access tokens issued so far by their claims, and the sessions for which a right code was
  given. Requests are handled one after another; \<open>jwtAuth\<close> lets a caller in with an issued token only, and a random UUID is
  not empty. Rows may be added to and removed from every table but the refresh tokens in between (\<open>other\<close>): the data
  API, the migrator, and the clean-ups.
\<close>

record accessState =
  ac_db :: authdb
  ac_issued :: "caller set"
  ac_proved :: "(string \<times> string) set"

definition provedBy :: "(string \<Rightarrow> int \<Rightarrow> string option) \<Rightarrow> given \<Rightarrow> request \<Rightarrow> authdb \<Rightarrow> (string \<times> string) set" where
  "provedBy totp g req db =
     (case req of VerifyF c fid cid code \<Rightarrow> if rightCode totp g c fid cid code db then {(ca_UserID c, ca_SessionID c)} else {}
      | _ \<Rightarrow> {})"

definition issuedBy :: "answer \<Rightarrow> caller set" where
  "issuedBy a = (case opened a of None \<Rightarrow> {} | Some (view, m, _) \<Rightarrow> {claimsOf view m})"

inductive accessStep :: "(string \<Rightarrow> int \<Rightarrow> string option) \<Rightarrow> (flowRow \<Rightarrow> bool) \<Rightarrow> server \<Rightarrow> accessState \<Rightarrow> accessState \<Rightarrow> bool"
  for totp stale sv where
  request: "serve totp stale sv g req (ac_db s) = (a, mails, db) \<Longrightarrow> (\<And>c. callerOf req = Some c \<Longrightarrow> c \<in> ac_issued s) \<Longrightarrow>
    (\<And>i. en_uuid (gv_es g i) \<noteq> []) \<Longrightarrow>
    accessStep totp stale sv s \<lparr>ac_db = db, ac_issued = issuedBy a \<union> ac_issued s, ac_proved = provedBy totp g req (ac_db s) \<union> ac_proved s\<rparr>"
| other: "au_refresh db = au_refresh (ac_db s) \<Longrightarrow> accessStep totp stale sv s (s\<lparr>ac_db := db\<rparr>)"

abbreviation accessReach ::
    "(string \<Rightarrow> int \<Rightarrow> string option) \<Rightarrow> (flowRow \<Rightarrow> bool) \<Rightarrow> server \<Rightarrow> accessState \<Rightarrow> accessState \<Rightarrow> bool" where
  "accessReach totp stale sv \<equiv> (accessStep totp stale sv)\<^sup>*\<^sup>*"

definition accessInv :: "accessState \<Rightarrow> bool" where
  "accessInv s \<longleftrightarrow> (\<forall>c \<in> ac_issued s. ca_SessionID c \<noteq> []) \<and> (\<forall>p \<in> ac_proved s. snd p \<noteq> []) \<and>
     (\<forall>c \<in> ac_issued s. ca_AAL c = ''aal2'' \<longrightarrow> (ca_UserID c, ca_SessionID c) \<in> ac_proved s) \<and> raised (ac_db s) \<subseteq> ac_proved s"

lemma aal_distinct: "''aal1'' \<noteq> ''aal2''" by simp

text \<open>What one request issues and stores at \<open>aal2\<close>.\<close>

lemma serve_issued:
  assumes o: "opened (fst (serve totp stale sv g req db)) = Some (v, m, t)"
    and u: "\<And>i. en_uuid (gv_es g i) \<noteq> []" and ne: "\<forall>p \<in> raised db. snd p \<noteq> []"
    and c: "\<And>c. callerOf req = Some c \<Longrightarrow> ca_SessionID c \<noteq> []"
  shows "sm_SessionID m \<noteq> [] \<and> (sm_AAL m = ''aal2'' \<longrightarrow> (u_id (fst v), sm_SessionID m) \<in> provedBy totp g req db \<union> raised db)"
proof -
  have f: ?thesis if "fresh g v m" using that u by (metis fresh_def aal_distinct)
  show ?thesis
  proof (cases req)
    case (Signup rt email password data)
    with o signup_opened f show ?thesis by fastforce
  next
    case (Token body)
    show ?thesis
    proof (cases body)
      case (RefreshBody token)
      with o Token have "opened (fst (handleRefreshGrant sv g token db)) = Some (v, m, t)" by (simp add: handleToken_def)
      from refresh_opened [OF this] u ne show ?thesis by blast
    qed (use o Token f in \<open>auto simp: handleToken_def dest!: password_opened pkce_opened idToken_opened\<close>)
  next
    case (VerifyForm ty tk email)
    with o have "opened (fst (handleVerify sv g ty tk email db)) = Some (v, m, t)" by (auto dest: emailRoute_opened)
    with verify_opened f show ?thesis by blast
  next
    case (VerifyLink tk ty rt)
    with o have "opened (fst (handleVerifyGET sv g tk ty rt db)) = Some (v, m, t)" by (auto dest: emailRoute_opened)
    with link_opened f show ?thesis by blast
  next
    case (Callback p cb)
    with o have "opened (fst (handleOAuthCallback sv g p cb db)) = Some (v, m, t)" by (auto dest: callbackRoute_opened)
    with callback_opened f show ?thesis by blast
  next
    case (VerifyF c' fid cid code)
    with o verifyF_opened c show ?thesis by (fastforce simp: provedBy_def simp del: serve.simps)
  qed (use o in \<open>simp_all add: closed\<close>)
qed

lemma statusOf_db [simp]: "snd (snd (statusOf r)) = snd r"
  by (simp add: statusOf_def case_prod_beta split: sum.split)

lemma answerOf_db [simp]: "snd (snd (answerOf r)) = snd r"
  by (simp add: answerOf_def case_prod_beta split: response.split)

lemma routes_quiet [quiet]:
  "raised (snd (snd r)) \<subseteq> raised db \<Longrightarrow> raised (snd (snd (emailRoute sv r db))) \<subseteq> raised db"
  "raised (snd (snd r)) \<subseteq> raised db \<Longrightarrow> raised (snd (snd (callbackRoute sv p r db))) \<subseteq> raised db"
  by (simp_all add: emailRoute_def callbackRoute_def notRouted_def)

lemma serve_raised:
  assumes ne: "\<forall>p \<in> raised db. snd p \<noteq> []" and c: "\<And>c. callerOf req = Some c \<Longrightarrow> ca_SessionID c \<noteq> []"
  shows "raised (snd (snd (serve totp stale sv g req db))) \<subseteq> provedBy totp g req db \<union> raised db"
proof (cases req)
  case (Token body)
  with ne show ?thesis by (cases body) (simp_all add: handleToken_def quiet provedBy_def)
next
  case (VerifyF c' fid cid code)
  with verify_raised [of totp "gv_iss g" c' fid cid code "gv_tok g" g db] c show ?thesis
    by (simp add: provedBy_def raisedBy_def split: if_splits)
qed (simp_all add: provedBy_def quiet)

lemma accessInv_step: "accessStep totp stale sv s s' \<Longrightarrow> accessInv s \<Longrightarrow> accessInv s'"
proof (induction rule: accessStep.induct)
  case (request g req s a mails db)
  note inv = request(4) [unfolded accessInv_def]
  have ne: "\<forall>p \<in> raised (ac_db s). snd p \<noteq> []" using inv by blast
  have c: "ca_SessionID c \<noteq> []" if "callerOf req = Some c" for c using request(2) [OF that] inv by blast
  have p: "\<forall>p \<in> provedBy totp g req (ac_db s). snd p \<noteq> []"
    using c by (auto simp: provedBy_def split: request.splits if_splits)
  have r: "raised db \<subseteq> provedBy totp g req (ac_db s) \<union> ac_proved s"
    using serve_raised [of "ac_db s" req, OF ne c, where totp = totp and stale = stale and sv = sv and g = g] request(1) inv by auto
  have i: "ca_SessionID x \<noteq> [] \<and> (ca_AAL x = ''aal2'' \<longrightarrow> (ca_UserID x, ca_SessionID x) \<in> provedBy totp g req (ac_db s) \<union> ac_proved s)"
    if x: "x \<in> issuedBy a" for x
  proof -
    obtain v m t where o: "opened a = Some (v, m, t)" "x = claimsOf v m"
      using x by (auto simp: issuedBy_def split: option.splits)
    then have "opened (fst (serve totp stale sv g req (ac_db s))) = Some (v, m, t)" using request(1) by simp
    from serve_issued [OF this request(3) ne c] o(2) inv show ?thesis
      by (auto simp: claimsOf_def Normalize_meta_def split: if_splits)
  qed
  from inv p r i show ?case by (auto simp: accessInv_def)
next
  case (other db s)
  from raised_cong [OF other(1)] other(2) show ?case by (simp add: accessInv_def)
qed

interpretation access: kept "accessStep totp stale sv" accessInv for totp stale sv
  by unfold_locales (rule accessInv_step)

text \<open>C17: Over any run of requests, an access token of the level \<open>aal2\<close> is issued only for a session in which its user gave a
  right code of one of their factors; so do the refresh tokens of that level.\<close>

theorem aal2_only_by_factor:
  assumes "accessReach totp stale sv s0 s" "accessInv s0"
  shows "(\<forall>c \<in> ac_issued s. ca_AAL c = ''aal2'' \<longrightarrow> (ca_UserID c, ca_SessionID c) \<in> ac_proved s) \<and>
    (\<forall>r \<in> set (au_refresh (ac_db s)). rt_aal r = ''aal2'' \<longrightarrow> (rt_user r, asText (rt_session r)) \<in> ac_proved s)"
proof -
  have "accessInv s" by (rule access.along [OF assms])
  then have i: "\<forall>c \<in> ac_issued s. ca_AAL c = ''aal2'' \<longrightarrow> (ca_UserID c, ca_SessionID c) \<in> ac_proved s" "raised (ac_db s) \<subseteq> ac_proved s"
    by (simp_all add: accessInv_def)
  show ?thesis by (intro conjI i(1)) (use i(2) raisedI [of _ "ac_db s"] in \<open>simp add: subset_iff\<close>)
qed

end
