(* ===== verification/Auth_MFA_Guesses.thy ===== *)
theory Auth_MFA_Guesses
  imports Auth_MFA_Laws
begin

text \<open>
  How often a code can be guessed: a challenge takes five guesses, a factor ten challenges in any five minutes, and a
  challenge is open for five minutes, so any five minutes hold at most a hundred guesses at a factor.
\<close>

section \<open>Counting\<close>

lemma length_filter_fibres:
  assumes "finite I" "\<And>x. x \<in> set xs \<Longrightarrow> P x \<Longrightarrow> k x \<in> I"
  shows "length (filter P xs) \<le> (\<Sum>i \<in> I. length (filter (\<lambda>x. k x = i) xs))"
  using assms(2)
proof (induction xs)
  case (Cons x xs)
  have tail: "length (filter P xs) \<le> (\<Sum>i \<in> I. length (filter (\<lambda>x. k x = i) xs))" using Cons by simp
  show ?case
  proof (cases "P x")
    case True
    then have "k x \<in> I" using Cons.prems by simp
    have "(\<Sum>i \<in> I. length (filter (\<lambda>x. k x = i) (x # xs))) = (\<Sum>i \<in> I. (if k x = i then 1 else 0) + length (filter (\<lambda>x. k x = i) xs))"
      by (intro sum.cong) auto
    also have "\<dots> = 1 + (\<Sum>i \<in> I. length (filter (\<lambda>x. k x = i) xs))"
      using \<open>k x \<in> I\<close> assms(1) by (simp add: sum.distrib sum.delta)
    finally show ?thesis using tail True by simp
  next
    case False
    have "(\<Sum>i \<in> I. length (filter (\<lambda>x. k x = i) xs)) \<le> (\<Sum>i \<in> I. length (filter (\<lambda>x. k x = i) (x # xs)))"
      by (intro sum_mono) auto
    with tail False show ?thesis by simp
  qed
qed simp

lemma length_filter_inj:
  assumes "distinct (map k xs)" "\<And>x. x \<in> set xs \<Longrightarrow> P x \<Longrightarrow> \<exists>y \<in> set ys. Q y \<and> k' y = k x"
  shows "length (filter P xs) \<le> length (filter Q ys)"
proof -
  have "length (filter P xs) = card (k ` set (filter P xs))"
    using assms(1) distinct_map_filter distinct_card [of "map k (filter P xs)"] by fastforce
  also have "\<dots> \<le> card (k' ` set (filter Q ys))"
  proof (intro card_mono subsetI)
    fix z assume "z \<in> k ` set (filter P xs)"
    then obtain x where "x \<in> set xs" "P x" "z = k x" by auto
    with assms(2) [of x] show "z \<in> k' ` set (filter Q ys)" by force
  qed simp
  also have "\<dots> \<le> length (filter Q ys)" by (metis card_image_le card_length finite_set order_trans)
  finally show ?thesis .
qed

section \<open>The invariant\<close>

definition window :: "string \<Rightarrow> int \<Rightarrow> string \<times> string \<times> int \<Rightarrow> bool" where
  "window f a x = (case x of (_, f', t) \<Rightarrow> f' = f \<and> a < t \<and> t \<le> a + challengeTTL)"

definition guessesOf :: "string \<Rightarrow> mfaState \<Rightarrow> int" where
  "guessesOf c s = int (length (filter (\<lambda>g. fst g = c) (ms_guesses s)))"

text \<open>The challenges of a factor that still exists: those of the last five minutes are in the table.\<close>

definition recorded :: "int \<Rightarrow> authdb \<Rightarrow> string \<times> string \<times> int \<Rightarrow> bool" where
  "recorded now db x = (case x of (i, f, t) \<Rightarrow>
     now - challengeTTL < t \<longrightarrow> f \<in> fa_id ` set (au_factors db) \<longrightarrow>
       (\<exists>c \<in> set (au_challenges db). ch_id c = i \<and> ch_factor c = f \<and> ch_created c = t))"

definition challengeInv :: "mfaState \<Rightarrow> bool" where
  "challengeInv s \<longleftrightarrow>
     fa_id ` set (au_factors (ms_db s)) \<subseteq> ms_factors s \<and>
     distinct (map fst (ms_created s)) \<and> fst ` set (ms_created s) \<subseteq> ms_ids s \<and>
     (\<forall>x \<in> set (ms_created s). snd (snd x) \<le> ms_now s \<and> fst (snd x) \<in> ms_factors s \<and> recorded (ms_now s) (ms_db s) x) \<and>
     (\<forall>f a. length (filter (window f a) (ms_created s)) \<le> maxChallengesPerFactor)"

definition attemptInv :: "mfaState \<Rightarrow> bool" where
  "attemptInv s \<longleftrightarrow>
     distinct (map ch_id (au_challenges (ms_db s))) \<and> fst ` set (ms_created s) \<subseteq> ms_ids s \<and>
     (\<forall>c \<in> set (au_challenges (ms_db s)). (ch_id c, ch_factor c, ch_created c) \<in> set (ms_created s) \<and>
        guessesOf (ch_id c) s \<le> ch_attempts c \<and> ch_attempts c \<le> maxMFAAttempts) \<and>
     (\<forall>i. guessesOf i s \<le> maxMFAAttempts) \<and>
     (\<forall>(i, f, g) \<in> set (ms_guesses s). \<exists>t. (i, f, t) \<in> set (ms_created s) \<and> g - challengeTTL < t \<and> t \<le> g)"

text \<open>Operations that keep every row of an existing factor, up to its attempts and its closing.\<close>

lemma challengeInv_rows:
  assumes "challengeInv s" "ms_now s \<le> t" "fa_id ` set (au_factors db) \<subseteq> fa_id ` set (au_factors (ms_db s))"
    "\<And>c. c \<in> set (au_challenges (ms_db s)) \<Longrightarrow> ch_factor c \<in> fa_id ` set (au_factors db) \<Longrightarrow>
       \<exists>c' \<in> set (au_challenges db). ch_id c' = ch_id c \<and> ch_factor c' = ch_factor c \<and> ch_created c' = ch_created c"
  shows "challengeInv (s\<lparr>ms_db := db, ms_now := t, ms_guesses := gs, ms_steps := st\<rparr>)"
proof -
  have "snd (snd x) \<le> t \<and> fst (snd x) \<in> ms_factors s \<and> recorded t db x" if x: "x \<in> set (ms_created s)" for x
  proof -
    have old: "snd (snd x) \<le> ms_now s" "fst (snd x) \<in> ms_factors s" "recorded (ms_now s) (ms_db s) x"
      using assms(1) x unfolding challengeInv_def by blast+
    obtain i f y where y: "x = (i, f, y)" by (cases x)
    have "\<exists>c \<in> set (au_challenges db). ch_id c = i \<and> ch_factor c = f \<and> ch_created c = y"
      if r: "t - challengeTTL < y" "f \<in> fa_id ` set (au_factors db)"
    proof -
      have "ms_now s - challengeTTL < y" "f \<in> fa_id ` set (au_factors (ms_db s))" using r assms(2,3) by auto
      with old(3) obtain c where c: "c \<in> set (au_challenges (ms_db s))" "ch_id c = i" "ch_factor c = f" "ch_created c = y"
        unfolding recorded_def y by auto
      from assms(4) [OF c(1)] r(2) c show ?thesis by auto
    qed
    with old(1,2) assms(2) show ?thesis by (auto simp: recorded_def y)
  qed
  moreover have "fa_id ` set (au_factors db) \<subseteq> ms_factors s"
    using assms(1,3) unfolding challengeInv_def by auto
  ultimately show ?thesis using assms(1) unfolding challengeInv_def by auto
qed

lemma CreateChallenge_ok:
  assumes "CreateChallenge f u e db = (Inr (i, t), db')"
  shows "i = en_uuid e \<and> t = en_now e \<and> f \<in> fa_id ` set (au_factors db) \<and>
    length (filter (recentChallenge f (en_now e)) (au_challenges db)) < maxChallengesPerFactor \<and>
    db' = db\<lparr>au_challenges := delRows (\<lambda>c. ch_factor c = f \<and> ch_created c \<le> en_now e - challengeTTL)
      (au_challenges db @ [\<lparr>ch_id = i, ch_factor = f, ch_verified = None, ch_attempts = 0, ch_created = t\<rparr>])\<rparr>"
  using assms by (auto simp: CreateChallenge_def list_ex_iff split: if_splits)

lemma CreateChallenge_error: "CreateChallenge f u e db = (Inl err, db') \<Longrightarrow> db' = db"
  by (auto simp: CreateChallenge_def split: if_splits)

lemma challengeInv_challenge:
  assumes inv: "challengeInv s" and t: "ms_now s \<le> en_now e" and new: "en_uuid e \<notin> ms_ids s"
    and c: "CreateChallenge f u e (ms_db s) = (Inr (i, x), db)"
  shows "challengeInv (s\<lparr>ms_db := db, ms_now := en_now e, ms_ids := insert (en_uuid e) (ms_ids s), ms_created := (i, f, x) # ms_created s\<rparr>)"
proof -
  note ok = CreateChallenge_ok [OF c]
  let ?row = "\<lparr>ch_id = i, ch_factor = f, ch_verified = None, ch_attempts = 0, ch_created = x\<rparr>"
  have oldx: "snd (snd y) \<le> ms_now s" "fst (snd y) \<in> ms_factors s" "recorded (ms_now s) (ms_db s) y"
    if "y \<in> set (ms_created s)" for y using inv that unfolding challengeInv_def by blast+
  have old: "ms_now s - challengeTTL < y \<Longrightarrow> g \<in> fa_id ` set (au_factors (ms_db s)) \<Longrightarrow>
         \<exists>c \<in> set (au_challenges (ms_db s)). ch_id c = k \<and> ch_factor c = g \<and> ch_created c = y"
    if "(k, g, y) \<in> set (ms_created s)" for k g y
    using oldx(3) [OF that] by (simp add: recorded_def)
  have w: "length (filter (window f' a) (ms_created s)) < maxChallengesPerFactor" if wn: "window f' a (i, f, x)" for f' a
  proof -
    have f': "f' = f" "a < x" "x \<le> a + challengeTTL" using wn by (auto simp: window_def)
    have "length (filter (window f a) (ms_created s)) \<le> length (filter (recentChallenge f (en_now e)) (au_challenges (ms_db s)))"
    proof (rule length_filter_inj [where k = fst and k' = ch_id])
      show "distinct (map fst (ms_created s))" using inv by (simp add: challengeInv_def)
      fix y assume y: "y \<in> set (ms_created s)" "window f a y"
      obtain k z where k: "y = (k, f, z)" using y(2) by (cases y) (auto simp: window_def)
      have z: "a < z" using y(2) by (simp add: k window_def)
      then have "ms_now s - challengeTTL < z" using f' ok t by simp
      from old [OF y(1) [unfolded k] this] ok obtain c where
        "c \<in> set (au_challenges (ms_db s))" "ch_id c = k" "ch_factor c = f" "ch_created c = z" by blast
      moreover have "en_now e - challengeTTL < z" using z f' ok by simp
      ultimately show "\<exists>c \<in> set (au_challenges (ms_db s)). recentChallenge f (en_now e) c \<and> ch_id c = fst y"
        using k by (auto simp: recentChallenge_def)
    qed
    with ok f' show ?thesis by simp
  qed
  have rows: "\<exists>c \<in> set (au_challenges db). ch_id c = k \<and> ch_factor c = g \<and> ch_created c = y"
    if "(k, g, y) \<in> set ((i, f, x) # ms_created s)" "en_now e - challengeTTL < y" "g \<in> fa_id ` set (au_factors db)" for k g y
  proof (cases "(k, g, y) = (i, f, x)")
    case True
    have "?row \<in> set (au_challenges db)" using ok that(2) True by auto
    with True show ?thesis by force
  next
    case False
    with that have m: "(k, g, y) \<in> set (ms_created s)" by auto
    have "ms_now s - challengeTTL < y" "g \<in> fa_id ` set (au_factors (ms_db s))" using that t ok by auto
    from old [OF m this] obtain c where "c \<in> set (au_challenges (ms_db s))" "ch_id c = k" "ch_factor c = g" "ch_created c = y"
      by blast
    then show ?thesis using ok that(2) by (intro bexI [of _ c]) auto
  qed
  have facts: "i \<notin> fst ` set (ms_created s)" "f \<in> ms_factors s" "au_factors db = au_factors (ms_db s)" "x \<le> en_now e"
    using inv new ok unfolding challengeInv_def by auto
  have len: "length (filter (window f' a) ((i, f, x) # ms_created s)) \<le> maxChallengesPerFactor" for f' a
  proof (cases "window f' a (i, f, x)")
    case True
    with w show ?thesis by (simp add: Suc_le_eq)
  next
    case False
    with inv show ?thesis by (simp add: challengeInv_def)
  qed
  have "snd (snd y) \<le> en_now e \<and> fst (snd y) \<in> ms_factors s \<and> recorded (en_now e) db y" if y: "y \<in> set ((i, f, x) # ms_created s)" for y
  proof -
    have "recorded (en_now e) db y" using rows y by (cases y) (auto simp: recorded_def)
    moreover have "snd (snd y) \<le> en_now e \<and> fst (snd y) \<in> ms_factors s"
    proof (cases "y = (i, f, x)")
      case False
      with y oldx(1,2) [of y] t show ?thesis by auto
    qed (use facts in simp)
    ultimately show ?thesis by simp
  qed
  moreover have "distinct (map fst ((i, f, x) # ms_created s))" "fst ` set ((i, f, x) # ms_created s) \<subseteq> insert (en_uuid e) (ms_ids s)"
    "fa_id ` set (au_factors db) \<subseteq> ms_factors s"
    using inv facts ok by (auto simp: challengeInv_def)
  ultimately show ?thesis using len unfolding challengeInv_def by simp
qed

lemma challengeInv_enroll:
  assumes inv: "challengeInv s" and t: "ms_now s \<le> en_now e" and new: "en_uuid e \<notin> ms_factors s"
    and c: "EnrollFactor u n sk e (ms_db s) = (r, db)"
  shows "challengeInv (s\<lparr>ms_db := db, ms_now := en_now e, ms_factors := insert (en_uuid e) (ms_factors s)\<rparr>)"
proof -
  have db: "au_challenges db = au_challenges (ms_db s)" "fa_id ` set (au_factors db) \<subseteq> insert (en_uuid e) (fa_id ` set (au_factors (ms_db s)))"
    using c by (auto simp: EnrollFactor_def split: if_splits)
  have "recorded (en_now e) db x" if "x \<in> set (ms_created s)" for x
  proof -
    have "fst (snd x) \<in> ms_factors s" "recorded (ms_now s) (ms_db s) x" using inv that unfolding challengeInv_def by blast+
    with db t new show ?thesis by (cases x) (auto simp: recorded_def)
  qed
  moreover have "fa_id ` set (au_factors db) \<subseteq> insert (en_uuid e) (ms_factors s)"
  proof -
    have "fa_id ` set (au_factors (ms_db s)) \<subseteq> ms_factors s" using inv by (simp add: challengeInv_def)
    with db(2) show ?thesis by auto
  qed
  moreover have "snd (snd x) \<le> en_now e \<and> fst (snd x) \<in> insert (en_uuid e) (ms_factors s)" if "x \<in> set (ms_created s)" for x
  proof -
    have "snd (snd x) \<le> ms_now s \<and> fst (snd x) \<in> ms_factors s" using inv that unfolding challengeInv_def by blast
    with t show ?thesis by simp
  qed
  ultimately show ?thesis using inv unfolding challengeInv_def by simp
qed

lemma attemptInv_rows:
  assumes "attemptInv s" "subseq (map ch_id (au_challenges db)) (map ch_id (au_challenges (ms_db s)))"
    "\<And>c. c \<in> set (au_challenges db) \<Longrightarrow> \<exists>c' \<in> set (au_challenges (ms_db s)). ch_id c' = ch_id c \<and> ch_factor c' = ch_factor c \<and>
       ch_created c' = ch_created c \<and> ch_attempts c' = ch_attempts c"
  shows "attemptInv (s\<lparr>ms_db := db, ms_now := t, ms_factors := fs, ms_steps := st\<rparr>)"
proof -
  let ?s = "s\<lparr>ms_db := db, ms_now := t, ms_factors := fs, ms_steps := st\<rparr>"
  have g: "guessesOf i ?s = guessesOf i s" for i by (simp add: guessesOf_def)
  have "distinct (map ch_id (au_challenges db))" using assms(1,2) distinct_subseq by (auto simp: attemptInv_def)
  moreover have "(ch_id c, ch_factor c, ch_created c) \<in> set (ms_created s) \<and> guessesOf (ch_id c) s \<le> ch_attempts c \<and>
      ch_attempts c \<le> maxMFAAttempts" if c: "c \<in> set (au_challenges db)" for c
  proof -
    from assms(3) [OF c] obtain c' where c': "c' \<in> set (au_challenges (ms_db s))" "ch_id c' = ch_id c" "ch_factor c' = ch_factor c"
      "ch_created c' = ch_created c" "ch_attempts c' = ch_attempts c" by blast
    have "(ch_id c', ch_factor c', ch_created c') \<in> set (ms_created s) \<and> guessesOf (ch_id c') s \<le> ch_attempts c' \<and>
      ch_attempts c' \<le> maxMFAAttempts" using assms(1) c'(1) unfolding attemptInv_def by blast
    with c' show ?thesis by simp
  qed
  ultimately show ?thesis using assms(1) unfolding attemptInv_def g by simp
qed

lemma guess_ids: "attemptInv s \<Longrightarrow> i \<notin> ms_ids s \<Longrightarrow> guessesOf i s = 0"
proof -
  assume inv: "attemptInv s" and i: "i \<notin> ms_ids s"
  have "fst g \<noteq> i" if "g \<in> set (ms_guesses s)" for g
  proof -
    obtain c f x where g: "g = (c, f, x)" by (cases g)
    have "\<forall>(i, f, g) \<in> set (ms_guesses s). \<exists>t. (i, f, t) \<in> set (ms_created s) \<and> g - challengeTTL < t \<and> t \<le> g"
      "fst ` set (ms_created s) \<subseteq> ms_ids s" using inv by (simp_all add: attemptInv_def)
    with that g i show ?thesis by force
  qed
  then have "filter (\<lambda>g. fst g = i) (ms_guesses s) = []" by (simp add: filter_empty_conv)
  then show ?thesis by (simp add: guessesOf_def)
qed

lemma attemptInv_challenge:
  assumes inv: "attemptInv s" and new: "en_uuid e \<notin> ms_ids s" and c: "CreateChallenge f u e (ms_db s) = (Inr (i, x), db)"
  shows "attemptInv (s\<lparr>ms_db := db, ms_now := t, ms_ids := insert (en_uuid e) (ms_ids s), ms_created := (i, f, x) # ms_created s\<rparr>)"
proof -
  note ok = CreateChallenge_ok [OF c]
  let ?row = "\<lparr>ch_id = i, ch_factor = f, ch_verified = None, ch_attempts = 0, ch_created = x\<rparr>"
  let ?s = "s\<lparr>ms_db := db, ms_now := t, ms_ids := insert (en_uuid e) (ms_ids s), ms_created := (i, f, x) # ms_created s\<rparr>"
  have g: "guessesOf k ?s = guessesOf k s" for k by (simp add: guessesOf_def)
  have sub: "fst ` set (ms_created s) \<subseteq> ms_ids s" using inv by (simp add: attemptInv_def)
  have "ch_id q \<in> ms_ids s" if "q \<in> set (au_challenges (ms_db s))" for q
  proof -
    have "(ch_id q, ch_factor q, ch_created q) \<in> set (ms_created s)" using inv that unfolding attemptInv_def by blast
    with sub show ?thesis by force
  qed
  with new ok have "i \<notin> ch_id ` set (au_challenges (ms_db s))" by auto
  with inv have "distinct (map ch_id (au_challenges (ms_db s) @ [?row]))" by (simp add: attemptInv_def)
  from distinct_delRows [OF this] have "distinct (map ch_id (au_challenges db))" using ok by simp
  moreover have "(ch_id q, ch_factor q, ch_created q) \<in> set ((i, f, x) # ms_created s) \<and> guessesOf (ch_id q) s \<le> ch_attempts q \<and>
      ch_attempts q \<le> maxMFAAttempts" if q: "q \<in> set (au_challenges db)" for q
  proof (cases "q = ?row")
    case True
    with guess_ids [OF inv new] ok show ?thesis by (simp add: maxMFAAttempts_def)
  next
    case False
    with q ok have "q \<in> set (au_challenges (ms_db s))" by auto
    with inv show ?thesis unfolding attemptInv_def by auto
  qed
  moreover have "\<exists>t. (k, h, t) \<in> set ((i, f, x) # ms_created s) \<and> y - challengeTTL < t \<and> t \<le> y" if "(k, h, y) \<in> set (ms_guesses s)" for k h y
  proof -
    have "\<exists>t. (k, h, t) \<in> set (ms_created s) \<and> y - challengeTTL < t \<and> t \<le> y" using inv that unfolding attemptInv_def by blast
    then show ?thesis by auto
  qed
  moreover have "fst ` set ((i, f, x) # ms_created s) \<subseteq> insert (en_uuid e) (ms_ids s)" using sub ok by auto
  ultimately show ?thesis using inv unfolding attemptInv_def g by auto
qed

lemma attemptInv_guess:
  assumes inv: "attemptInv s" "challengeInv s" "ms_now s \<le> en_now e" and v: "ValidateChallenge c f e (ms_db s) = (Inr y, db)"
  shows "attemptInv (s\<lparr>ms_db := db, ms_now := t, ms_guesses := (c, f, en_now e) # ms_guesses s\<rparr>)"
proof -
  let ?open = "openChallenge c f (en_now e)" and ?cs = "au_challenges (ms_db s)"
  let ?s = "s\<lparr>ms_db := db, ms_now := t, ms_guesses := (c, f, en_now e) # ms_guesses s\<rparr>"
  from ValidateChallenge_ok [OF v] obtain w where w: "w \<in> set ?cs" "?open w"
    and db: "au_challenges db = updRows ?open (\<lambda>c. c\<lparr>ch_attempts := ch_attempts c + 1\<rparr>) ?cs" by auto
  have oc: "ch_id w = c" "ch_factor w = f" "en_now e - challengeTTL < ch_created w" "ch_attempts w < maxMFAAttempts"
    using w(2) by (simp_all add: openChallenge_def)
  have row: "(ch_id q, ch_factor q, ch_created q) \<in> set (ms_created s)" "guessesOf (ch_id q) s \<le> ch_attempts q"
      "ch_attempts q \<le> maxMFAAttempts" if "q \<in> set ?cs" for q
    using inv(1) that unfolding attemptInv_def by blast+
  have g: "guessesOf k ?s = guessesOf k s + (if k = c then 1 else 0)" for k by (auto simp: guessesOf_def)
  have only: "q = w" if "q \<in> set ?cs" "ch_id q = c" for q
    using inv(1) that w oc unfolding attemptInv_def distinct_map inj_on_def by blast
  have "(ch_id q, ch_factor q, ch_created q) \<in> set (ms_created s) \<and> guessesOf (ch_id q) ?s \<le> ch_attempts q \<and>
      ch_attempts q \<le> maxMFAAttempts" if q: "q \<in> set (au_challenges db)" for q
  proof -
    from q obtain q0 where q0: "q0 \<in> set ?cs" "ch_id q = ch_id q0" "ch_factor q = ch_factor q0" "ch_created q = ch_created q0"
      "ch_attempts q = (if ?open q0 then ch_attempts q0 + 1 else ch_attempts q0)" unfolding db by (auto simp: set_updRows)
    show ?thesis
    proof (cases "ch_id q0 = c")
      case True
      with only q0(1) have "q0 = w" by blast
      with q0 row [OF q0(1)] w oc g show ?thesis by simp
    next
      case False
      then have "\<not> ?open q0" by (simp add: openChallenge_def)
      with q0 row [OF q0(1)] g False show ?thesis by simp
    qed
  qed
  moreover have "guessesOf k ?s \<le> maxMFAAttempts" for k
    using inv(1) row(2) [OF w(1)] oc g [of k] unfolding attemptInv_def by (cases "k = c") auto
  moreover have "\<exists>t. (c, f, t) \<in> set (ms_created s) \<and> en_now e - challengeTTL < t \<and> t \<le> en_now e"
  proof -
    have m: "(c, f, ch_created w) \<in> set (ms_created s)" using row(1) [OF w(1)] oc by simp
    then have "ch_created w \<le> ms_now s" using inv(2) unfolding challengeInv_def by force
    with m oc inv(3) show ?thesis by auto
  qed
  moreover have "distinct (map ch_id (au_challenges db))" using inv(1) unfolding db attemptInv_def by (simp add: map_updRows)
  ultimately show ?thesis using inv(1) unfolding attemptInv_def by auto
qed

text \<open>Removing factors takes their challenges along.\<close>

lemma guessInv_drop:
  assumes inv: "challengeInv s" "attemptInv s" and d: "distinct (map fa_id (au_factors (ms_db s)))"
    and db: "au_challenges db = au_challenges (dropFactors P (ms_db s))"
      "fa_id ` set (au_factors db) = fa_id ` set (delRows P (au_factors (ms_db s)))"
  shows "challengeInv (s\<lparr>ms_db := db\<rparr>) \<and> attemptInv (s\<lparr>ms_db := db\<rparr>)"
proof -
  let ?gone = "fa_id ` {f \<in> set (au_factors (ms_db s)). P f}"
  have ch: "au_challenges db = delRows (\<lambda>c. ch_factor c \<in> ?gone) (au_challenges (ms_db s))"
    unfolding db(1) by (simp add: dropFactors_def Let_def)
  have "?gone \<inter> fa_id ` set (au_factors db) = {}"
    using d unfolding db(2) distinct_map by (auto dest: inj_onD)
  then have "challengeInv (s\<lparr>ms_db := db, ms_now := ms_now s, ms_guesses := ms_guesses s, ms_steps := ms_steps s\<rparr>)"
    using inv(1) by (intro challengeInv_rows) (auto simp: db(2) ch)
  moreover have "attemptInv (s\<lparr>ms_db := db, ms_now := ms_now s, ms_factors := ms_factors s, ms_steps := ms_steps s\<rparr>)"
    using inv(2) by (intro attemptInv_rows) (auto simp: ch subseq_delRows)
  ultimately show ?thesis by simp
qed

lemma guessInv_move: "mfaMove s s' \<Longrightarrow> stepInv s \<and> challengeInv s \<and> attemptInv s \<Longrightarrow> challengeInv s' \<and> attemptInv s'"
proof (induction rule: mfaMove.induct)
  case (enroll s e u n sk r db)
  have "au_challenges db = au_challenges (ms_db s)" using enroll(3) by (auto simp: EnrollFactor_def split: if_splits)
  then have "attemptInv (s\<lparr>ms_db := db, ms_now := en_now e, ms_factors := insert (en_uuid e) (ms_factors s), ms_steps := ms_steps s\<rparr>)"
    using enroll(4) by (intro attemptInv_rows) auto
  with challengeInv_enroll [OF _ enroll(1-3)] enroll(4) show ?case by simp
next
  case (challenge s e f u r db)
  show ?case
  proof (cases r)
    case (Inl err)
    with challenge(3) have "db = ms_db s" using CreateChallenge_error by blast
    moreover have "challengeInv (s\<lparr>ms_db := ms_db s, ms_now := en_now e, ms_guesses := ms_guesses s, ms_steps := ms_steps s\<rparr>)"
      using challenge(1,4) by (intro challengeInv_rows) auto
    ultimately show ?thesis using challenge(4) Inl
      by (auto simp: challengeInv_def attemptInv_def guessesOf_def)
  next
    case (Inr p)
    obtain i x where "p = (i, x)" by (cases p)
    with Inr challenge challengeInv_challenge attemptInv_challenge show ?thesis by simp
  qed
next
  case (guess s e c f r db)
  show ?case
  proof (cases r)
    case (Inl err)
    with guess(2) have "db = ms_db s" using ValidateChallenge_error by blast
    moreover have "challengeInv (s\<lparr>ms_db := ms_db s, ms_now := en_now e, ms_guesses := ms_guesses s, ms_steps := ms_steps s\<rparr>)"
      using guess(1,3) by (intro challengeInv_rows) auto
    ultimately show ?thesis using guess(3) Inl by (auto simp: attemptInv_def guessesOf_def)
  next
    case (Inr y)
    from ValidateChallenge_ok [OF guess(2) [unfolded Inr]]
    have db: "db = (ms_db s)\<lparr>au_challenges := updRows (openChallenge c f (en_now e)) (\<lambda>c. c\<lparr>ch_attempts := ch_attempts c + 1\<rparr>)
        (au_challenges (ms_db s))\<rparr>" by simp
    have "challengeInv (s\<lparr>ms_db := db, ms_now := en_now e, ms_guesses := (c, f, en_now e) # ms_guesses s, ms_steps := ms_steps s\<rparr>)"
    proof (rule challengeInv_rows)
      fix q assume "q \<in> set (au_challenges (ms_db s))"
      from updRows_member [OF this, of "openChallenge c f (en_now e)" "\<lambda>c. c\<lparr>ch_attempts := ch_attempts c + 1\<rparr>"]
      show "\<exists>c' \<in> set (au_challenges db). ch_id c' = ch_id q \<and> ch_factor c' = ch_factor q \<and> ch_created c' = ch_created q"
        unfolding db by (intro bexI) (auto split: if_splits)
    qed (use guess(1,3) db in auto)
    with attemptInv_guess [OF _ _ guess(1) guess(2) [unfolded Inr]] guess(3) Inr show ?thesis by simp
  qed
next
  case (useStep s e f st r db)
  have u: "au_challenges db = au_challenges (ms_db s)" "fa_id ` set (au_factors db) = fa_id ` set (au_factors (ms_db s))"
  proof -
    show "au_challenges db = au_challenges (ms_db s)" using useStep(2) by (auto simp: ConsumeTOTPStep_def split: if_splits)
    have "map fa_id (au_factors db) = map fa_id (au_factors (ms_db s))"
      using useStep(2) by (auto simp: ConsumeTOTPStep_def map_updRows split: if_splits)
    then show "fa_id ` set (au_factors db) = fa_id ` set (au_factors (ms_db s))" by (metis list.set_map)
  qed
  let ?st = "(if r = Inr True then [(f, st)] else []) @ ms_steps s"
  have "challengeInv (s\<lparr>ms_db := db, ms_now := en_now e, ms_guesses := ms_guesses s, ms_steps := ?st\<rparr>)"
    using useStep(1,3) u by (intro challengeInv_rows) auto
  moreover have "attemptInv (s\<lparr>ms_db := db, ms_now := en_now e, ms_factors := ms_factors s, ms_steps := ?st\<rparr>)"
    using useStep(3) u by (intro attemptInv_rows) auto
  ultimately show ?case by simp
next
  case (close c e s r db)
  let ?P = "\<lambda>q. ch_id q = c \<and> ch_verified q = None"
  have u: "au_factors db = au_factors (ms_db s)"
    "au_challenges db = au_challenges (ms_db s) \<or>
     au_challenges db = updRows ?P (\<lambda>c. c\<lparr>ch_verified := Some (en_now e)\<rparr>) (au_challenges (ms_db s))"
    using close(1) by (auto simp: MarkChallengeVerified_def Let_def split: if_splits)
  have "challengeInv (s\<lparr>ms_db := db, ms_now := ms_now s, ms_guesses := ms_guesses s, ms_steps := ms_steps s\<rparr>)"
  proof (rule challengeInv_rows)
    fix q assume q: "q \<in> set (au_challenges (ms_db s))"
    note m = updRows_member [OF this, of ?P "\<lambda>c. c\<lparr>ch_verified := Some (en_now e)\<rparr>"]
    from u(2) show "\<exists>c' \<in> set (au_challenges db). ch_id c' = ch_id q \<and> ch_factor c' = ch_factor q \<and> ch_created c' = ch_created q"
    proof
      assume "au_challenges db = au_challenges (ms_db s)"
      with q show ?thesis by auto
    next
      assume "au_challenges db = updRows ?P (\<lambda>c. c\<lparr>ch_verified := Some (en_now e)\<rparr>) (au_challenges (ms_db s))"
      with m show ?thesis by (intro bexI) auto
    qed
  qed (use close(2) u in auto)
  moreover have "attemptInv (s\<lparr>ms_db := db, ms_now := ms_now s, ms_factors := ms_factors s, ms_steps := ms_steps s\<rparr>)"
  proof (rule attemptInv_rows)
    have "map ch_id (au_challenges db) = map ch_id (au_challenges (ms_db s))" using u(2) by (auto simp: map_updRows)
    then show "subseq (map ch_id (au_challenges db)) (map ch_id (au_challenges (ms_db s)))" by simp
    fix q assume "q \<in> set (au_challenges db)"
    with u(2) obtain q' where "q' \<in> set (au_challenges (ms_db s))" "q = q' \<or> q = q'\<lparr>ch_verified := Some (en_now e)\<rparr>"
      by (auto simp: set_updRows)
    then show "\<exists>q' \<in> set (au_challenges (ms_db s)). ch_id q' = ch_id q \<and> ch_factor q' = ch_factor q \<and>
        ch_created q' = ch_created q \<and> ch_attempts q' = ch_attempts q" by (intro bexI [of _ q']) auto
  qed (use close(2) in simp)
  ultimately show ?case by simp
next
  case (promote f e s r db)
  from promote(1) show ?case
  proof (cases rule: PromoteFactor_cases)
    case 1
    with promote(2) show ?thesis by simp
  next
    case (2 P)
    then have "au_challenges db = au_challenges (dropFactors P (ms_db s))"
      "fa_id ` set (au_factors db) = fa_id ` set (delRows P (au_factors (ms_db s)))" by (simp_all add: updRows_image)
    with guessInv_drop promote(2) show ?thesis by (simp add: stepInv_def)
  qed
next
  case (drop s P)
  then show ?case by (intro guessInv_drop) (auto simp: stepInv_def)
qed

interpretation guesses: kept mfaMove "\<lambda>s. stepInv s \<and> challengeInv s \<and> attemptInv s"
  by unfold_locales (auto dest: guessInv_move stepInv_move)

section \<open>The bound\<close>

lemma guesses_in_window:
  assumes "challengeInv s" "attemptInv s"
  shows "length (filter (window f a) (ms_guesses s)) \<le> 100"
proof -
  let ?Q = "\<lambda>x. window f (a - challengeTTL) x \<or> window f a x"
  let ?I = "fst ` set (filter ?Q (ms_created s))"
  have "length (filter (window f a) (ms_guesses s)) \<le> (\<Sum>i \<in> ?I. length (filter (\<lambda>g. fst g = i) (ms_guesses s)))"
  proof (rule length_filter_fibres)
    fix x assume x: "x \<in> set (ms_guesses s)" "window f a x"
    obtain i y where i: "x = (i, f, y)" using x(2) by (cases x) (auto simp: window_def)
    obtain t where t: "(i, f, t) \<in> set (ms_created s)" "y - challengeTTL < t" "t \<le> y"
      using assms(2) x(1) unfolding attemptInv_def i by blast
    have "?Q (i, f, t)" using t x(2) by (auto simp: window_def i)
    with t(1) have "(i, f, t) \<in> set (filter ?Q (ms_created s))" by simp
    then show "fst x \<in> ?I" unfolding i by force
  qed simp
  also have "\<dots> \<le> (\<Sum>i \<in> ?I. 5)"
  proof (rule sum_mono)
    fix i
    have "guessesOf i s \<le> maxMFAAttempts" using assms(2) by (simp add: attemptInv_def)
    then show "length (filter (\<lambda>g. fst g = i) (ms_guesses s)) \<le> 5" by (simp add: guessesOf_def maxMFAAttempts_def)
  qed
  also have "\<dots> \<le> 5 * length (filter ?Q (ms_created s))"
    using card_length [of "map fst (filter ?Q (ms_created s))"] by simp
  also have "length (filter ?Q xs) \<le> length (filter (window f (a - challengeTTL)) xs) + length (filter (window f a) xs)" for xs
    by (induction xs) auto
  from this [of "ms_created s"] have "5 * length (filter ?Q (ms_created s)) \<le> 5 * (10 + 10)"
  proof -
    have "length (filter (window f b) (ms_created s)) \<le> 10" for b
      using assms(1) by (simp add: challengeInv_def maxChallengesPerFactor_def)
    from order_trans [OF \<open>length (filter ?Q (ms_created s)) \<le> _\<close> add_mono [OF this [of "a - challengeTTL"] this [of a]]]
    show ?thesis by (rule mult_le_mono2)
  qed
  finally show ?thesis by simp
qed

text \<open>C28: Over any run, however requests interleave and whatever fails, at most a hundred guesses at the codes of a factor are
  let through in any five minutes.\<close>

theorem mfa_guesses_bounded:
  assumes "mfaReach s0 s" "stepInv s0" "challengeInv s0" "attemptInv s0"
  shows "length (filter (\<lambda>(_, f', t). f' = f \<and> a < t \<and> t \<le> a + challengeTTL) (ms_guesses s)) \<le> 100"
proof -
  have "(\<lambda>(_, f', t). f' = f \<and> a < t \<and> t \<le> a + challengeTTL) = window f a" by (auto simp: window_def fun_eq_iff)
  with guesses_in_window guesses.along [OF assms(1)] assms(2-4) show ?thesis by simp
qed

end
