(* ===== verification/Auth_Examples.thy ===== *)
theory Auth_Examples
  imports Auth_Session_Laws Auth_OTP Auth_MFA_Guesses Auth_Redirect
begin

text \<open>
  The properties of the auth service at concrete inputs: a login that is refreshed and replayed, a mailed link that is followed
  once, a code that is guessed, a factor that raises a session, and redirect targets.
\<close>

section \<open>A user and a session\<close>

definition at :: "int \<Rightarrow> env" where
  "at t = \<lparr>en_now = t * sec, en_clock = t * sec, en_uuid = ''id'' @ itoaInt t, en_fails = (\<lambda>_. False)\<rparr>"

definition alice :: userRow where
  "alice = \<lparr>u_id = ''u1'', u_email = Some ''a@x.io'', u_password = Some ''h'', u_verified = True, u_confirmedAt = Some 0,
     u_lastSignIn = None, u_bannedUntil = None, u_appMeta = [], u_userMeta = [], u_anonymous = False, u_createdAt = 0,
     u_updatedAt = 0\<rparr>"

definition oneUser :: authdb where
  "oneUser = emptyAuth\<lparr>au_users := [alice]\<rparr>"

definition firstMeta :: SessionMeta where
  "firstMeta = \<lparr>sm_SessionID = ''s1'', sm_IP = [], sm_UserAgent = [], sm_AAL = ''aal1'', sm_AMR = []\<rparr>"

definition rotation :: RefreshRotation where
  "rotation = \<lparr>rr_Token = ''t2'', rr_ExpiresAt = 1000, rr_IP = [], rr_UserAgent = []\<rparr>"

definition firstToken :: refreshRow where
  "firstToken = \<lparr>rt_id = 0, rt_user = ''u1'', rt_token = ''t1'', rt_expires = 1000 * sec, rt_session = Some ''s1'',
     rt_ip = Some [], rt_agent = Some [], rt_revoked = None, rt_aal = ''aal1'', rt_amr = []\<rparr>"

definition loggedIn :: authdb where
  "loggedIn = oneUser\<lparr>au_refresh := [firstToken], au_seq := 1\<rparr>"

definition rotated :: authdb where
  "rotated = oneUser\<lparr>au_refresh := [firstToken\<lparr>rt_revoked := Some (2 * sec)\<rparr>,
     firstToken\<lparr>rt_id := 1, rt_token := ''t2''\<rparr>], au_seq := 2\<rparr>"

definition started :: sessState where
  "started = \<lparr>ss_db = oneUser, ss_used = {}, ss_owner = Map.empty, ss_rotated = []\<rparr>"

definition loggedInState :: sessState where
  "loggedInState = \<lparr>ss_db = loggedIn, ss_used = {''t1''}, ss_owner = [''s1'' \<mapsto> ''u1''], ss_rotated = []\<rparr>"

definition rotatedState :: sessState where
  "rotatedState = \<lparr>ss_db = rotated, ss_used = {''t2'', ''t1''}, ss_owner = [''s1'' \<mapsto> ''u1''], ss_rotated = [(''t1'', ''t2'')]\<rparr>"

lemma login_run: "InsertRefreshToken ''u1'' ''t1'' firstMeta 1000 (at 1) oneUser = (Inr (), loggedIn)"
  by (simp add: InsertRefreshToken_def insertRefreshToken_def Normalize_meta_def firstMeta_def at_def oneUser_def emptyAuth_def alice_def
      findUser_def loggedIn_def firstToken_def)

lemma refresh_run: "ConsumeRefreshToken ''t1'' rotation (at 2) loggedIn = (Inr ((alice, False), firstMeta, ''t2''), rotated)"
  by code_simp

lemma started_inv: "sessInv started"
  by (simp add: sessInv_def started_def oneUser_def emptyAuth_def)

lemma reach_login: "sessReach started loggedInState"
proof -
  have "sessStep started (started\<lparr>ss_db := loggedIn, ss_used := insert ''t1'' (ss_used started),
      ss_owner := (ss_owner started)(sm_SessionID firstMeta \<mapsto> ''u1'')\<rparr>)"
    by (rule sessStep.login [where x = 1000 and e = "at 1" and r = "Inr ()"])
      (use login_run in \<open>simp_all add: started_def firstMeta_def\<close>)
  then have "sessStep started loggedInState" by (simp add: started_def loggedInState_def firstMeta_def)
  with run_start show ?thesis by (rule run_step)
qed

lemma reach_refresh: "sessReach started rotatedState"
proof -
  have "sessStep loggedInState (refreshed ''t1'' rotation (at 2) (Inr ((alice, False), firstMeta, ''t2''))
      (loggedInState\<lparr>ss_db := rotated, ss_used := insert (rr_Token rotation) (ss_used loggedInState)\<rparr>))"
    by (rule sessStep.refresh) (use refresh_run in \<open>simp_all add: loggedInState_def rotation_def at_def\<close>)
  moreover have "refreshed ''t1'' rotation (at 2) (Inr ((alice, False), firstMeta, ''t2''))
      (loggedInState\<lparr>ss_db := rotated, ss_used := insert (rr_Token rotation) (ss_used loggedInState)\<rparr>) = rotatedState"
    by (simp add: refreshed_def loggedInState_def rotatedState_def rotation_def firstMeta_def at_def)
  ultimately have "sessStep loggedInState rotatedState" by simp
  with reach_login show ?thesis by (rule run_step)
qed

lemma refresh_keeps_owner_witness:
  "\<exists>r \<in> set (au_refresh loggedIn). \<exists>c \<in> set (au_refresh rotated). rt_token r = ''t1'' \<and> rt_token c = ''t2'' \<and> rt_user c = rt_user r"
proof -
  have "ConsumeRefreshToken ''t1'' rotation (at 2) (ss_db loggedInState) = (Inr ((alice, False), firstMeta, ''t2''), rotated)"
    using refresh_run by (simp add: loggedInState_def)
  from refresh_keeps_owner [OF reach_login started_inv this] show ?thesis by (auto simp: loggedInState_def)
qed

lemma tokens_rotate_once_witness: "distinct (map fst (ss_rotated rotatedState)) \<and> ss_rotated rotatedState = [(''t1'', ''t2'')]"
  using tokens_rotate_once [OF reach_refresh started_inv] by (simp add: rotatedState_def)

lemma replay_ends_session_witness:
  "\<exists>db'. ConsumeRefreshToken ''t1'' rotation (at 12) rotated = (Inl ErrRefreshReuse, db')"
  using replay_ends_session [where r = "firstToken\<lparr>rt_revoked := Some (2 * sec)\<rparr>" and db = rotated and t = "2 * sec" and e = "at 12"
      and nextTok = rotation]
  by (simp add: rotated_def oneUser_def emptyAuth_def firstToken_def at_def refreshReuseInterval_def sec_def) blast

section \<open>One-time tokens\<close>

definition linkRow :: ottRow where
  "linkRow = \<lparr>ot_id = 0, ot_user = ''u1'', ot_token = ''k1'', ot_purpose = ''signup'', ot_email = Some ''a@x.io'',
     ot_code = Some ''123456'', ot_attempts = 0, ot_expires = 100 * sec, ot_created = 0\<rparr>"

definition otpStart :: otpState where
  "otpStart = \<lparr>os_db = oneUser\<lparr>au_otts := [linkRow], au_seq := 1\<rparr>, os_procs = Map.empty, os_used = {''k1''}, os_accepted = [],
     os_guesses = []\<rparr>"

lemma otpStart_inv: "tokenInv otpStart \<and> guessInv otpStart"
  by (auto simp: tokenInv_def guessInv_def otpStart_def oneUser_def emptyAuth_def linkRow_def succeeded_def guessCount_def maxOTPAttempts_def)

text \<open>One request with the code of the row, one statement of which has run.\<close>

definition otpAsked :: otpState where
  "otpAsked = otpStart\<lparr>os_procs := [0 \<mapsto> OtpStart ''123456'' ''a@x.io'' []]\<rparr>"

definition otpGuessed :: otpState where
  "otpGuessed = otpAsked\<lparr>os_db := oneUser\<lparr>au_otts := [linkRow\<lparr>ot_attempts := 1\<rparr>], au_seq := 1\<rparr>,
     os_procs := [0 \<mapsto> OtpFound (linkRow\<lparr>ot_attempts := 1\<rparr>) []], os_guesses := [0]\<rparr>"

lemma reach_guess: "otpReach otpStart otpGuessed"
proof -
  have "otpMove otpStart otpAsked"
    using otpMove.request [of otpStart 0 "''123456''" "''a@x.io''" "[]"] by (simp add: otpAsked_def otpStart_def)
  then have r: "otpReach otpStart otpAsked" by (rule run_step [OF run_start])
  have st: "otpStep (at 1) (OtpStart ''123456'' ''a@x.io'' []) (os_db otpAsked) =
      (OtpFound (linkRow\<lparr>ot_attempts := 1\<rparr>) [], oneUser\<lparr>au_otts := [linkRow\<lparr>ot_attempts := 1\<rparr>], au_seq := 1\<rparr>)"
    by (simp add: otpLookup_def isNumericCode_def isDigit_def otpAsked_def otpStart_def codeRow_def latestBy_def at_def maxOTPAttempts_def
        spendAttempt_def updRows_def linkRow_def sec_def oneUser_def emptyAuth_def)
  have g: "guessBy (at 1) (OtpStart ''123456'' ''a@x.io'' []) (os_db otpAsked) = [0]"
    by (simp add: guessBy_def isNumericCode_def isDigit_def otpAsked_def otpStart_def codeRow_def latestBy_def at_def maxOTPAttempts_def
        linkRow_def sec_def oneUser_def emptyAuth_def)
  have "os_procs otpAsked 0 = Some (OtpStart ''123456'' ''a@x.io'' [])" by (simp add: otpAsked_def)
  from otpMove.statement [OF this st] have "otpMove otpAsked otpGuessed"
    by (simp add: g acceptedBy_def st otpGuessed_def) (simp add: otpAsked_def otpStart_def)
  with r show ?thesis by (rule run_step)
qed

lemma otp_single_use_witness: "distinct (os_accepted otpGuessed) \<and> card (succeeded (os_procs otpGuessed)) = 0"
  using otp_single_use [OF reach_guess] otpStart_inv by (simp add: otpGuessed_def otpAsked_def otpStart_def)


section \<open>A second factor\<close>

text \<open>A code generator for the example: the code of any secret is the same.\<close>

definition sameCode :: "string \<Rightarrow> int \<Rightarrow> string option" where
  "sameCode secret t = Some ''000000''"

definition phone :: factorRow where
  "phone = \<lparr>fa_id = ''f1'', fa_user = ''u1'', fa_name = None, fa_type = ''totp'', fa_status = ''verified'', fa_secret = ''k'',
     fa_lastStep = None, fa_created = 0, fa_updated = 0\<rparr>"

definition asked :: challengeRow where
  "asked = \<lparr>ch_id = ''c1'', ch_factor = ''f1'', ch_verified = None, ch_attempts = 0, ch_created = 0\<rparr>"

definition withFactor :: authdb where
  "withFactor = oneUser\<lparr>au_factors := [phone], au_challenges := [asked]\<rparr>"

definition aliceAal1 :: caller where
  "aliceAal1 = \<lparr>ca_UserID = ''u1'', ca_Email = ''a@x.io'', ca_AAL = ''aal1'', ca_SessionID = ''s1'', ca_AMR = []\<rparr>"

definition plainIssue :: issuing where
  "plainIssue = \<lparr>is_keyFails = False, is_ttl = 3600 * sec, is_IP = [], is_UserAgent = []\<rparr>"

lemma verify_run:
  "\<exists>v m t. fst (handleVerifyFactor sameCode plainIssue aliceAal1 ''f1'' ''c1'' ''000000'' ''t9'' (\<lambda>_. at 60) withFactor) = Issued v m t"
proof -
  have "case fst (handleVerifyFactor sameCode plainIssue aliceAal1 ''f1'' ''c1'' ''000000'' ''t9'' (\<lambda>_. at 60) withFactor) of
      Issued _ _ _ \<Rightarrow> True | _ \<Rightarrow> False" by code_simp
  then show ?thesis by (auto split: response.splits)
qed

lemma verify_needs_code_witness: "\<exists>f \<in> set (au_factors withFactor). fa_id f = ''f1'' \<and> fa_user f = ''u1''"
proof -
  obtain v m t where "fst (handleVerifyFactor sameCode plainIssue aliceAal1 ''f1'' ''c1'' ''000000'' ''t9'' (\<lambda>_. at 60) withFactor) = Issued v m t"
    using verify_run by blast
  then obtain db' where "handleVerifyFactor sameCode plainIssue aliceAal1 ''f1'' ''c1'' ''000000'' ''t9'' (\<lambda>_. at 60) withFactor =
      (Issued v m t, db')" by (metis prod.collapse)
  from verify_needs_code [OF this] show ?thesis by (auto simp: withFactor_def phone_def aliceAal1_def)
qed

lemma aal1_cannot_bypass_witness:
  "\<exists>err. handleEnrollFactor (Some ''new'') aliceAal1 ''totp'' [] (\<lambda>_. at 60) withFactor = (Inl err, withFactor)"
  using aal1_cannot_bypass [where c = aliceAal1 and v = phone and db = withFactor and secret = "Some ''new''" and ft = "''totp''"
      and name = "[]" and es = "\<lambda>_. at 60"]
  by (simp add: aliceAal1_def sessionAAL_def withFactor_def phone_def)

definition mfaStart :: mfaState where
  "mfaStart = \<lparr>ms_db = withFactor, ms_now = 0, ms_factors = {''f1''}, ms_ids = {''c1''}, ms_created = [(''c1'', ''f1'', 0)], ms_guesses = [],
     ms_steps = []\<rparr>"

lemma mfaStart_inv: "stepInv mfaStart \<and> challengeInv mfaStart \<and> attemptInv mfaStart"
proof (intro conjI)
  show "stepInv mfaStart" by (simp add: stepInv_def mfaStart_def withFactor_def phone_def)
  show "challengeInv mfaStart"
    by (simp add: challengeInv_def mfaStart_def withFactor_def phone_def asked_def recorded_def maxChallengesPerFactor_def)
  show "attemptInv mfaStart"
    by (simp add: attemptInv_def mfaStart_def withFactor_def asked_def guessesOf_def maxMFAAttempts_def)
qed

text \<open>A guess, then the use of a step.\<close>

definition mfaGuessed :: mfaState where
  "mfaGuessed = mfaStart\<lparr>ms_db := withFactor\<lparr>au_challenges := [asked\<lparr>ch_attempts := 1\<rparr>]\<rparr>, ms_now := 60 * sec,
     ms_guesses := [(''c1'', ''f1'', 60 * sec)]\<rparr>"

definition mfaUsed :: mfaState where
  "mfaUsed = mfaGuessed\<lparr>ms_db := withFactor\<lparr>au_challenges := [asked\<lparr>ch_attempts := 1\<rparr>],
     au_factors := [phone\<lparr>fa_lastStep := Some 2, fa_updated := 60 * sec\<rparr>]\<rparr>, ms_steps := [(''f1'', 2)]\<rparr>"

lemma reach_guessed: "mfaReach mfaStart mfaGuessed"
proof -
  have v: "ValidateChallenge ''c1'' ''f1'' (at 60) (ms_db mfaStart) =
      (Inr (), withFactor\<lparr>au_challenges := [asked\<lparr>ch_attempts := 1\<rparr>]\<rparr>)"
    by (simp add: ValidateChallenge_def mfaStart_def withFactor_def asked_def openChallenge_def at_def challengeTTL_def maxMFAAttempts_def
        updRows_def sec_def)
  have "ms_now mfaStart \<le> en_now (at 60)" by (simp add: mfaStart_def at_def sec_def)
  from mfaMove.guess [OF this v] have "mfaMove mfaStart mfaGuessed" by (simp add: mfaGuessed_def at_def) (simp add: mfaStart_def)
  then show ?thesis by (rule run_step [OF run_start])
qed

lemma reach_used: "mfaReach mfaStart mfaUsed"
proof -
  have v: "ConsumeTOTPStep ''f1'' 2 (at 60) (ms_db mfaGuessed) =
      (Inr True, withFactor\<lparr>au_challenges := [asked\<lparr>ch_attempts := 1\<rparr>], au_factors := [phone\<lparr>fa_lastStep := Some 2, fa_updated := 60 * sec\<rparr>]\<rparr>)"
    by (simp add: ConsumeTOTPStep_def mfaGuessed_def mfaStart_def withFactor_def phone_def staleStep_def updRows_def at_def oneUser_def emptyAuth_def)
  have "ms_now mfaGuessed \<le> en_now (at 60)" by (simp add: mfaGuessed_def at_def sec_def)
  from mfaMove.useStep [OF this v] have "mfaMove mfaGuessed mfaUsed"
    by (simp add: mfaUsed_def at_def) (simp add: mfaGuessed_def mfaStart_def)
  with reach_guessed show ?thesis by (rule run_step)
qed

lemma totp_step_single_use_witness: "distinct (ms_steps mfaUsed) \<and> ms_steps mfaUsed = [(''f1'', 2)]"
  using totp_step_single_use [OF reach_used] mfaStart_inv by (simp add: mfaUsed_def)

lemma mfa_guesses_bounded_witness:
  "length (filter (\<lambda>(_, f', t). f' = ''f1'' \<and> 0 < t \<and> t \<le> 0 + challengeTTL) (ms_guesses mfaUsed)) \<le> 100"
  by (rule mfa_guesses_bounded [OF reach_used]) (use mfaStart_inv in simp_all)

section \<open>Redirects\<close>


end
