(* ===== verification/Auth_Access_Examples.thy ===== *)
theory Auth_Access_Examples
  imports Auth_Access Auth_Examples
begin

text \<open>
  The routes at concrete requests, with the weakness of a mailed link that outlives the address it was mailed to.
\<close>

section \<open>A server\<close>

definition plainAuth :: Auth where
  "plainAuth = \<lparr>auth_JWTExpiry = [], auth_RefreshTokens = None, auth_RefreshTokenExpiry = [], auth_AllowSignup = None,
     auth_AllowAnonymous = None, auth_RedirectURLs = [], auth_Email = Some \<lparr>ae_VerifyEmail = True, ae_Templates = []\<rparr>,
     auth_OAuth = []\<rparr>"

definition plainServer :: server where
  "plainServer = \<lparr>sv_Auth = plainAuth, sv_base = ''http://a.b'', sv_mailer = True, sv_check = (\<lambda>h w. h = ''#'' @ w),
     sv_lower = id, sv_merge = (\<lambda>a b. b), sv_interval = (\<lambda>_. None), sv_meta = (\<lambda>_. ([], [])), sv_validEmail = (\<lambda>_. True),
     sv_idProvider = (\<lambda>_. False), sv_idToken = (\<lambda>_ _ _. None), sv_exchange = (\<lambda>_ _. None)\<rparr>"

definition given1 :: "int \<Rightarrow> given" where
  "given1 t = \<lparr>gv_es = (\<lambda>_. at t), gv_iss = \<lparr>is_keyFails = False, is_ttl = 1000 * sec, is_IP = [], is_UserAgent = []\<rparr>,
     gv_tok = ''r'' @ itoaInt t, gv_token = ''k'' @ itoaInt t, gv_code = ''123456'', gv_hash = (\<lambda>w. Some (''#'' @ w))\<rparr>"

section \<open>A link to an old address\<close>

text \<open>A user of an unverified address, with the link of the sign-up on its way there.\<close>

definition newcomer :: userRow where
  "newcomer = alice\<lparr>u_email := Some ''old'', u_verified := False, u_confirmedAt := None\<rparr>"

definition pending :: authdb where
  "pending = emptyAuth\<lparr>au_users := [newcomer], au_otts := [\<lparr>ot_id = 0, ot_user = ''u1'', ot_token = ''k1'', ot_purpose = ''signup'',
     ot_email = None, ot_code = None, ot_attempts = 0, ot_expires = 100 * sec, ot_created = 1 * sec\<rparr>]\<rparr>"

definition newcomerCaller :: caller where
  "newcomerCaller = \<lparr>ca_UserID = ''u1'', ca_Email = ''old'', ca_AAL = ''aal1'', ca_SessionID = ''s1'', ca_AMR = []\<rparr>"

definition changed :: authdb where
  "changed = snd (snd (handleUpdateUser plainServer (given1 2) newcomerCaller (Some ''new'') None None pending))"

lemma find_updRows: "(\<And>x. Q (g x) = Q x) \<Longrightarrow> (\<And>x. Q x = P x) \<Longrightarrow> find Q (updRows P g xs) = map_option g (find Q xs)"
  by (induction xs) (auto simp: updRows_def)

text \<open>
  The user changes the address to one that need not be theirs; the link mailed to the old address then marks the new one
  verified.
\<close>

lemma changed_ok: "findUser ''u1'' changed = Some (newcomer\<lparr>u_email := Some ''new'', u_updatedAt := 2 * sec\<rparr>)"
  "au_otts changed = au_otts pending"
proof -
  have e: "\<not> equalFold (trimSpace ''new'') (trimSpace ''old'')" by code_simp
  show "findUser ''u1'' changed = Some (newcomer\<lparr>u_email := Some ''new'', u_updatedAt := 2 * sec\<rparr>)"
    "au_otts changed = au_otts pending"
    by (simp_all add: changed_def handleUpdateUser_def newcomerCaller_def e UpdateUser_def pending_def newcomer_def alice_def
        given1_def at_def findUser_def emailTaken_def updRows_def updatedUser_def emptyAuth_def Let_def)
qed

lemma stale_link_verifies:
  "map_option (\<lambda>u. (u_email u, u_verified u))
     (findUser ''u1'' (snd (snd (handleVerifyGET plainServer (given1 3) ''k1'' ''signup'' [] changed)))) = Some (Some ''new'', True)"
proof -
  have peek: "PeekOneTimeToken ''k1'' (at 3) changed = (Inr \<lparr>otp_UserID = ''u1'', otp_Purpose = ''signup''\<rparr>, changed)"
    by (simp add: PeekOneTimeToken_def changed_ok pending_def maxOTPAttempts_def at_def sec_def)
  have gone: "DeleteOneTimeToken ''k1'' (at 3) changed = (Inr (), changed\<lparr>au_otts := []\<rparr>)"
    by (simp add: DeleteOneTimeToken_def changed_ok pending_def at_def deleteOTTs_def delRows_def)
  have e: "gv_es (given1 3) i = at 3" for i by (simp add: given1_def)
  have f: "find (\<lambda>u. u_id u = ''u1'') (au_users changed) = Some (newcomer\<lparr>u_email := Some ''new'', u_updatedAt := 2 * sec\<rparr>)"
    using changed_ok(1) by (simp add: findUser_def)
  have "findUser ''u1'' (MarkEmailVerified ''u1'' (at 3) (changed\<lparr>au_otts := []\<rparr>)) =
      map_option (verifiedAt (en_now (at 3))) (findUser ''u1'' changed)"
    by (simp add: MarkEmailVerified_def touchUser_def findUser_def at_def find_updRows verifiedAt_def)
  then show ?thesis
    by (simp add: handleVerifyGET_def e peek gone changed_ok verifiedAt_def Let_def)
qed

section \<open>Credentials\<close>

lemma session_needs_credential_witness:
  "passwordOf plainServer ''a@x.io'' ''pw'' (oneUser\<lparr>au_users := [alice\<lparr>u_password := Some ''#pw''\<rparr>]\<rparr>) ''u1''"
proof -
  let ?db = "oneUser\<lparr>au_users := [alice\<lparr>u_password := Some ''#pw''\<rparr>]\<rparr>"
  let ?r = "serve sameCode (\<lambda>_. False) plainServer (given1 5) (Token (PasswordBody ''a@x.io'' ''pw'')) ?db"
  have "(case opened (fst ?r) of None \<Rightarrow> False | Some (v, _, _) \<Rightarrow> u_id (fst v) = ''u1'')" by code_simp
  then obtain v m t where o: "opened (fst ?r) = Some (v, m, t)" "u_id (fst v) = ''u1''" by (auto split: option.splits)
  from session_needs_credential [OF o(1)] o(2) show ?thesis by (simp add: credential_def)
qed

definition googleLogin :: OAuthLogin where
  "googleLogin = \<lparr>ol_Provider = ''google'', ol_ProviderUserID = ''9'', ol_Email = ''a@x.io'', ol_Name = [], ol_EmailVerified = True,
     ol_AllowSignup = True\<rparr>"

text \<open>A verified account is found by its address; the sign-in is recorded there.\<close>

lemma oauth_no_takeover_witness:
  "\<exists>view db'. UpsertOAuthUser id (\<lambda>_. ([], [])) googleLogin (at 7) oneUser = (Inr view, db') \<and> u_id (fst view) = ''u1'' \<and>
     providerOf id googleLogin oneUser ''u1'' \<and> accountsKept ''u1'' (au_users oneUser) (au_users db')"
proof -
  let ?r = "UpsertOAuthUser id (\<lambda>_. ([], [])) googleLogin (at 7) oneUser"
  have "(case fst ?r of Inl _ \<Rightarrow> False | Inr v \<Rightarrow> u_id (fst v) = ''u1'')" by code_simp
  then obtain view where v: "fst ?r = Inr view" "u_id (fst view) = ''u1''" by (auto split: sum.splits)
  then have r: "?r = (Inr view, snd ?r)" by (cases ?r) simp
  from oauth_no_takeover [OF r] r v show ?thesis by (intro exI [of _ view] exI [of _ "snd ?r"]) simp
qed

section \<open>A session that is raised\<close>

definition aliceIn :: accessState where
  "aliceIn = \<lparr>ac_db = withFactor, ac_issued = {aliceAal1}, ac_proved = {}\<rparr>"

lemma aal2_only_by_factor_witness:
  "\<exists>s c. accessReach sameCode (\<lambda>_. False) plainServer aliceIn s \<and> c \<in> ac_issued s \<and> ca_AAL c = ''aal2'' \<and>
     (ca_UserID c, ca_SessionID c) \<in> ac_proved s"
proof -
  let ?req = "VerifyF aliceAal1 ''f1'' ''c1'' ''000000''"
  obtain a ms db where r: "serve sameCode (\<lambda>_. False) plainServer (given1 60) ?req (ac_db aliceIn) = (a, ms, db)"
    by (cases "serve sameCode (\<lambda>_. False) plainServer (given1 60) ?req (ac_db aliceIn)")
  have "opened (fst (serve sameCode (\<lambda>_. False) plainServer (given1 60) ?req (ac_db aliceIn))) \<noteq> None" by code_simp
  then obtain v m t where o: "opened a = Some (v, m, t)" using r by auto
  then have aal2: "sm_AAL m = ''aal2''"
    using verifyF_opened [of sameCode "\<lambda>_. False" plainServer "given1 60" aliceAal1 "''f1''" "''c1''" "''000000''" "ac_db aliceIn"] r by auto
  define s where "s = \<lparr>ac_db = db, ac_issued = issuedBy a \<union> ac_issued aliceIn,
    ac_proved = provedBy sameCode (given1 60) ?req (ac_db aliceIn) \<union> ac_proved aliceIn\<rparr>"
  have "accessStep sameCode (\<lambda>_. False) plainServer aliceIn s"
    unfolding s_def by (rule accessStep.request [OF r]) (simp_all add: aliceIn_def given1_def at_def)
  then have reach: "accessReach sameCode (\<lambda>_. False) plainServer aliceIn s" by (rule run_step [OF run_start])
  have "accessInv aliceIn"
    by (simp add: accessInv_def aliceIn_def aliceAal1_def raised_def withFactor_def oneUser_def emptyAuth_def)
  moreover have "claimsOf v m \<in> ac_issued s" "ca_AAL (claimsOf v m) = ''aal2''"
    using o aal2 by (simp_all add: s_def issuedBy_def claimsOf_def Normalize_meta_def)
  ultimately show ?thesis using aal2_only_by_factor [OF reach] reach by blast
qed

end
