(* ===== verification/Rest_Prefer.thy ===== *)
theory Rest_Prefer
  imports Request_Params Go_Duration "HOL-Library.Word"
begin

text \<open>
  The headers that steer a request of the REST API (\<open>internal/adapter/http/crud_handler.go\<close>): the Prefer directives,
  the Range of rows, and the answer to an error of the database. A page is computed in 64-bit integers; \<open>page_is_intersection\<close>
  shows that it is the intersection of what limit, offset and Range ask for.
\<close>

section \<open>Prefer\<close>

definition joinPrefer :: "string list \<Rightarrow> string" where
  "joinPrefer values = strJoin values '',''"

definition preferParts :: "string \<Rightarrow> string list" where
  "preferParts prefer = map trimSpace (strSplit prefer (CHR '',''))"

definition findPreferDirective :: "string \<Rightarrow> string \<Rightarrow> string option" where
  "findPreferDirective prefer key =
     map_option (\<lambda>part. trimPrefix part (key @ ''='')) (find (\<lambda>part. hasPrefix part (key @ ''='')) (preferParts prefer))"

definition parseReturnPrefer :: "string \<Rightarrow> string" where
  "parseReturnPrefer prefer = (case findPreferDirective prefer ''return'' of Some v \<Rightarrow> v | None \<Rightarrow> ''minimal'')"

definition parseTxPrefer :: "string \<Rightarrow> string" where
  "parseTxPrefer prefer =
     (case findPreferDirective prefer ''tx'' of Some v \<Rightarrow> if v = ''rollback'' \<or> v = ''commit'' then v else [] | None \<Rightarrow> [])"

definition parseMaxAffectedPrefer :: "string \<Rightarrow> int option" where
  "parseMaxAffectedPrefer prefer =
     (case findPreferDirective prefer ''max-affected'' of
        None \<Rightarrow> None
      | Some raw \<Rightarrow> (case atoi raw of None \<Rightarrow> None | Some n \<Rightarrow> if n < 0 then None else Some n))"

definition parseHandlingPrefer :: "string \<Rightarrow> string" where
  "parseHandlingPrefer prefer =
     (case findPreferDirective prefer ''handling'' of
        Some v \<Rightarrow> if v = ''strict'' \<or> v = ''lenient'' then v else ''lenient'' | None \<Rightarrow> ''lenient'')"

definition knownPreferDirectives :: "string list" where
  "knownPreferDirectives =
     [''return'', ''count'', ''resolution'', ''tx'', ''missing'', ''max-affected'', ''handling'', ''params'']"

text \<open>The first directive that is refused, if any.\<close>

definition enforceStrictPrefer :: "string \<Rightarrow> string option" where
  "enforceStrictPrefer prefer =
     (if parseHandlingPrefer prefer \<noteq> ''strict'' then None
      else find (\<lambda>part. part \<noteq> [] \<and> takeWhile (\<lambda>c. c \<noteq> CHR ''='') part \<notin> set knownPreferDirectives) (preferParts prefer))"

definition parseCountPrefer :: "string \<Rightarrow> string" where
  "parseCountPrefer prefer = (case findPreferDirective prefer ''count'' of Some v \<Rightarrow> v | None \<Rightarrow> [])"

definition parseMissingPrefer :: "string \<Rightarrow> bool" where
  "parseMissingPrefer prefer = (findPreferDirective prefer ''missing'' = Some ''default'')"

fun resolutionOf :: "string list \<Rightarrow> string" where
  "resolutionOf [] = []"
| "resolutionOf (part # parts) =
     (if part = ''resolution=merge-duplicates'' then ''merge''
      else if part = ''resolution=ignore-duplicates'' then ''ignore'' else resolutionOf parts)"

definition parseResolutionPrefer :: "string \<Rightarrow> string" where
  "parseResolutionPrefer prefer = resolutionOf (preferParts prefer)"

definition maxInt :: int where
  "maxInt = 2 ^ 63 - 1"

definition minInt :: int where
  "minInt = - (2 ^ 63)"

text \<open>Durations in nanoseconds; \<open>strconv.ParseInt(s, 10, 64)\<close> reads what \<open>atoi\<close> reads.\<close>

definition dbTimeout :: "string \<Rightarrow> string \<Rightarrow> int" where
  "dbTimeout cfgVal prefer =
     (let cfgTimeout = max (case ParseDuration cfgVal of Inl e \<Rightarrow> 0 | Inr d \<Rightarrow> d) 0 in
      case findPreferDirective prefer ''statement-timeout'' of
        None \<Rightarrow> cfgTimeout
      | Some val \<Rightarrow>
          (case atoi val of
             None \<Rightarrow> cfgTimeout
           | Some ms \<Rightarrow>
               if 0 < ms then
                 if 0 < cfgTimeout \<and> cfgTimeout div 1000000 \<le> ms then cfgTimeout
                 else if ms \<le> maxInt div 1000000 then ms * 1000000 else cfgTimeout
               else cfgTimeout))"

section \<open>Pages\<close>

type_synonym int64 = "64 word"

definition addSat :: "int64 \<Rightarrow> int64 \<Rightarrow> int64" where
  "addSat a b =
     (let s = a + b in
      if 0 <s b \<and> s <s a then word_of_int maxInt
      else if b <s 0 \<and> a <s s then word_of_int minInt else s)"

definition isDigits :: "string \<Rightarrow> bool" where
  "isDigits s = (s \<noteq> [] \<and> list_all isDigit s)"

definition clampAtoi :: "string \<Rightarrow> int" where
  "clampAtoi s = (case atoi s of None \<Rightarrow> maxInt | Some n \<Rightarrow> n)"

definition parseRangeHeader :: "string \<Rightarrow> (int \<times> int) option" where
  "parseRangeHeader h0 =
     (let h = trimSpace h0; lo = takeWhile (\<lambda>c. c \<noteq> CHR ''-'') h; hi = drop (length lo + 1) h in
      if lo = h \<or> \<not> isDigits lo \<or> hi \<noteq> [] \<and> \<not> isDigits hi then None
      else Some (clampAtoi lo, if hi \<noteq> [] then clampAtoi hi else maxInt))"

datatype rangeError = errNegativeLimit | errLowerGTUpper

text \<open>The page from its first and its last row, \<open>maxInt\<close> standing for no end: the first row and the length, \<open>NoLimit\<close> for
  no bound.\<close>

definition pageOf :: "int \<Rightarrow> int \<Rightarrow> rangeError + int \<times> int" where
  "pageOf lo hi =
     (if hi < lo then Inl errNegativeLimit
      else if hi = maxInt then Inr (lo, NoLimit) else Inr (lo, hi - lo + 1))"

text \<open>\<open>get\<close>: the method is GET; \<open>rangeHeader\<close> is empty when there is none.\<close>

definition intersectRange :: "bool \<Rightarrow> string \<Rightarrow> int \<Rightarrow> int \<Rightarrow> bool \<Rightarrow> rangeError + int \<times> int" where
  "intersectRange get rangeHeader offset limit hasLimit =
     (let end = sint (addSat (word_of_int offset) (word_of_int limit)) in
      if hasLimit \<and> end = 0 then Inr (0, 0)
      else
        let hi = (if hasLimit \<and> end < maxInt then max end (minInt + 1) - 1 else maxInt);
            lo = max offset 0 in
        case (if get then parseRangeHeader rangeHeader else None) of
          None \<Rightarrow> pageOf lo hi
        | Some (start, stop) \<Rightarrow> if stop < start then Inl errLowerGTUpper else pageOf (max lo start) (min hi stop))"

text \<open>The value \<open>strconv.Atoi\<close> returns beside its error: clamped when out of range, zero for other texts.\<close>

definition atoiValue :: "string \<Rightarrow> int" where
  "atoiValue s =
     (case atoi s of
        Some n \<Rightarrow> n
      | None \<Rightarrow> if isDigits s \<or> hasPrefix s ''+'' \<and> isDigits (tl s) then maxInt
          else if hasPrefix s ''-'' \<and> isDigits (tl s) then minInt else 0)"

datatype guardError = GuardRange rangeError | GuardPut

definition rangeGuard :: "string \<Rightarrow> string \<Rightarrow> string \<Rightarrow> string \<Rightarrow> guardError option" where
  "rangeGuard method rangeHeader limit offset =
     (case intersectRange (method = ''GET'') rangeHeader (atoiValue offset) (atoiValue limit) (atoi limit \<noteq> None) of
        Inl e \<Rightarrow> Some (GuardRange e)
      | Inr (lo, n) \<Rightarrow> if method = ''PUT'' \<and> (lo \<noteq> 0 \<or> n \<noteq> NoLimit) then Some GuardPut else None)"

text \<open>\<open>tot\<close> is the total, negative when no count was asked for.\<close>

definition contentRange :: "int \<Rightarrow> nat \<Rightarrow> int \<Rightarrow> string" where
  "contentRange offset n tot =
     (if 0 < n \<and> tot \<noteq> 0 then itoaInt offset @ ''-'' @ itoaInt (offset + int n - 1) else ''*'') @ ''/'' @
     (if 0 \<le> tot then itoaInt tot else ''*'')"

definition rangeStatus :: "int \<Rightarrow> nat \<Rightarrow> int \<Rightarrow> nat" where
  "rangeStatus offset n tot =
     (if tot < 0 then 200 else if tot < offset then 416 else if int n < tot then 206 else 200)"

section \<open>Errors of the database\<close>

record pgError =
  pe_Code :: string
  pe_Message :: string
  pe_Detail :: string
  pe_Hint :: string
  pe_Constraint :: string
  pe_Column :: string

text \<open>An error that the driver reports without one of Postgres is its text. A message is a format with its arguments.\<close>

datatype dbError = PgErr pgError | DriverErr string

type_synonym message = "string \<times> string list"

text \<open>Status, code, message, details and hint of an answer.\<close>

datatype apiError = ApiError nat string message message message

definition plain :: "string \<Rightarrow> message" where
  "plain s = (''%s'', [s])"

definition noText :: message where
  "noText = plain []"

definition pgErrorStatus :: "pgError \<Rightarrow> nat" where
  "pgErrorStatus e =
     (let c = pe_Code e in
      if length c < 2 then 400
      else if c = ''23503'' \<or> c = ''23505'' then 409
      else if c = ''25006'' then 405
      else if c = ''21000'' then (if hasSuffix (pe_Message e) ''requires a WHERE clause'' then 400 else 500)
      else if c = ''53400'' \<or> c = ''42P17'' then 500
      else if c = ''57P01'' then 503
      else if c = ''P0001'' then 400
      else if c = ''42883'' \<or> c = ''42P01'' then 404
      else if c = ''42501'' then 403
      else if hasPrefix c ''PT'' then
        (case atoi (drop 2 c) of Some n \<Rightarrow> if 100 \<le> n \<and> n \<le> 599 then nat n else 500 | None \<Rightarrow> 500)
      else if take 2 c \<in> {''08'', ''53''} then 503
      else if take 2 c \<in> {''0L'', ''0P'', ''28''} then 403
      else if take 2 c \<in> {''09'', ''25'', ''2D'', ''38'', ''39'', ''3B'', ''40'', ''54'', ''55'', ''57'', ''58'', ''F0'', ''HV'', ''P0'', ''XX''}
        then 500
      else 400)"

definition suggestHintForPgError :: "pgError \<Rightarrow> message" where
  "suggestHintForPgError e =
     (let c = pe_Code e; con = pe_Constraint e; col = pe_Column e in
      if c = ''23505'' then
        if con \<noteq> [] then (''A record with the same value already exists (constraint: %s)'', [con])
        else plain ''A record with the same value already exists''
      else if c = ''23503'' then
        if con \<noteq> [] then (''The referenced record does not exist (constraint: %s)'', [con])
        else plain ''The referenced record does not exist''
      else if c = ''23502'' then
        if col \<noteq> [] then (''Column %q cannot be null'', [col]) else plain ''A required column is missing or null''
      else if c = ''23514'' then
        if con \<noteq> [] then (''The value violates a check constraint (constraint: %s)'', [con])
        else plain ''The value does not satisfy a check constraint''
      else if c = ''42703'' then
        if col \<noteq> [] then (''Column %q does not exist on this table'', [col]) else plain ''The specified column does not exist''
      else if c = ''42P01'' then plain ''The specified table does not exist in the schema''
      else if c = ''22P02'' then plain ''Check that the value matches the expected column type''
      else if c = ''22001'' then plain ''The value is too long for this column''
      else if c = ''P0001'' then plain ''A server-side function raised an error''
      else noText)"

definition rlsText :: "string \<Rightarrow> bool" where
  "rlsText s = (strContains s ''row-level security'' \<or> strContains s ''new row violates'')"

definition handleDBError :: "dbError \<Rightarrow> apiError" where
  "handleDBError err =
     (case err of
        PgErr e \<Rightarrow>
          ApiError (if rlsText (pe_Message e) then 403 else pgErrorStatus e) (pe_Code e) (plain (pe_Message e)) (plain (pe_Detail e))
            (if pe_Hint e = [] then suggestHintForPgError e else plain (pe_Hint e))
      | DriverErr s \<Rightarrow>
          if strContains s ''unique'' \<or> strContains s ''duplicate key'' then ApiError 409 ''23505'' (plain s) noText noText
          else if strContains s ''foreign key'' then ApiError 409 ''23503'' (plain s) noText noText
          else if strContains s ''violates check'' then ApiError 400 ''23514'' (plain s) noText noText
          else if strContains s ''not-null constraint'' then ApiError 400 ''23502'' (plain s) noText noText
          else if rlsText s then ApiError 403 ''42501'' (plain ''Access denied by row-level security policy'') noText noText
          else if strContains s ''permission denied'' then ApiError 403 ''42501'' (plain s) noText noText
          else if strContains s ''value too long'' then ApiError 400 ''22001'' (plain s) noText noText
          else if strContains s ''invalid input syntax'' then
            ApiError 400 ''22P02'' (plain s) noText (plain ''Check that the value matches the expected column type'')
          else if strContains s ''cannot find encode plan'' then
            ApiError 400 ''22P02'' (plain ''Invalid value for column type'') (plain s)
              (plain ''Column values must be scalars matching the column type; filter operators like {\"not\":...} go in the query string, not the body'')
          else ApiError 500 ''XX000'' (plain ''Database error'') (plain s) noText)"

end
