(* ===== verification/Rest_Accept.thy ===== *)
theory Rest_Accept
  imports Rest_Prefer
begin

text \<open>
  Content negotiation of the REST API: the Accept and Content-Type headers (\<open>internal/adapter/http/plan.go\<close>, \<open>csv.go\<close> and
  \<open>wantsSingular\<close> in \<open>crud_handler.go\<close>). The weights of media ranges are floating-point numbers; their type is a parameter,
  with the total order of \<open>cmp.Compare\<close>, in which a value that is no number is the least.
\<close>

record 'f floats =
  fl_parse :: "string \<Rightarrow> 'f option"
  fl_one :: 'f
  fl_zero :: 'f
  fl_isNaN :: "'f \<Rightarrow> bool"

section \<open>Splitting outside quotes\<close>

fun splitUnquotedFrom :: "char \<Rightarrow> bool \<Rightarrow> bool \<Rightarrow> string \<Rightarrow> string \<Rightarrow> string list" where
  "splitUnquotedFrom sep inQ esc cur [] = [rev cur]"
| "splitUnquotedFrom sep inQ esc cur (c # s) =
     (if esc then splitUnquotedFrom sep inQ False (c # cur) s
      else if inQ \<and> c = CHR 0x5C then splitUnquotedFrom sep inQ True (c # cur) s
      else if c = CHR 0x22 then splitUnquotedFrom sep (\<not> inQ) False (c # cur) s
      else if c = sep \<and> \<not> inQ then rev cur # splitUnquotedFrom sep inQ False [] s
      else splitUnquotedFrom sep inQ False (c # cur) s)"

definition splitUnquoted :: "string \<Rightarrow> char \<Rightarrow> string list" where
  "splitUnquoted s sep = splitUnquotedFrom sep False False [] s"

text \<open>\<open>strings.Cut\<close> at a character, and \<open>strings.Trim\<close> of quotes.\<close>

definition cutAt :: "char \<Rightarrow> string \<Rightarrow> string \<times> string" where
  "cutAt c s = (let l = takeWhile (\<lambda>x. x \<noteq> c) s in (l, drop (length l + 1) s))"

definition trimQuotes :: "string \<Rightarrow> string" where
  "trimQuotes s = rev (dropWhile (\<lambda>c. c = CHR 0x22) (rev (dropWhile (\<lambda>c. c = CHR 0x22) s)))"

section \<open>Execution plans\<close>

record planRequest =
  pr_format :: string
  pr_forType :: string
  pr_options :: "string list"

definition planOptions :: "string gmap" where
  "planOptions = [(''analyze'', ''ANALYZE''), (''verbose'', ''VERBOSE''), (''settings'', ''SETTINGS''),
     (''buffers'', ''BUFFERS''), (''wal'', ''WAL'')]"

definition planForTypes :: "string list" where
  "planForTypes = [''application/json'', ''application/vnd.pgrst.object+json'', ''application/vnd.pgrst.object'',
     ''text/csv'', ''application/geo+json'', ''*/*'']"

definition planOption :: "planRequest \<Rightarrow> string \<Rightarrow> planRequest" where
  "planOption p o1 =
     (case map_of planOptions (toLower (trimSpace o1)) of
        Some kw \<Rightarrow> if kw \<in> set (pr_options p) then p else p\<lparr>pr_options := pr_options p @ [kw]\<rparr>
      | None \<Rightarrow> p)"

definition planParam :: "planRequest \<Rightarrow> string \<Rightarrow> planRequest" where
  "planParam p kv =
     (let (k, v0) = cutAt (CHR ''='') kv; v = trimQuotes (trimSpace v0); key = toLower (trimSpace k) in
      if key = ''for'' then
        (let base = trimSpace (fst (cutAt (CHR '';'') v)) in if base \<noteq> [] then p\<lparr>pr_forType := toLower base\<rparr> else p)
      else if key = ''options'' then fold (\<lambda>o1 p. planOption p o1) (strSplit v (CHR ''|'')) p
      else p)"

text \<open>\<open>None\<close>: no plan is meant. A plan comes with an error when its result type cannot be served.\<close>

definition parsePlanAccept :: "string \<Rightarrow> (planRequest \<times> pg_error option) option" where
  "parsePlanAccept accept =
     (let parts = splitUnquoted accept (CHR '';''); mt = toLower (trimSpace (hd parts));
          parsed = (\<lambda>fmt. let p = fold (\<lambda>kv p. planParam p kv) (tl parts) \<lparr>pr_format = fmt, pr_forType = ''application/json'', pr_options = []\<rparr> in
            (p, if pr_forType p \<in> set planForTypes then None else Some (Errorf ''unsupported plan media type %q'' [pr_forType p]))) in
      if mt = ''application/vnd.pgrst.plan'' \<or> mt = ''application/vnd.pgrst.plan+text'' then Some (parsed ''text'')
      else if mt = ''application/vnd.pgrst.plan+json'' then Some (parsed ''json'')
      else None)"

definition validatePlan :: "planRequest \<Rightarrow> pg_error option" where
  "validatePlan p =
     (if ''WAL'' \<in> set (pr_options p) \<and> ''ANALYZE'' \<notin> set (pr_options p)
      then Some (Errorf ''EXPLAIN option WAL requires ANALYZE'' []) else None)"

definition hasPlanMediaType :: "string \<Rightarrow> bool" where
  "hasPlanMediaType accept = list_ex (\<lambda>mr. parsePlanAccept mr \<noteq> None) (splitUnquoted accept (CHR '',''))"

definition explainSQL :: "planRequest \<Rightarrow> string \<Rightarrow> string" where
  "explainSQL p query = ''EXPLAIN ('' @ strJoin ((''FORMAT '' @ toUpper (pr_format p)) # pr_options p) '', '' @ '') '' @ query"

definition planContentType :: "planRequest \<Rightarrow> string" where
  "planContentType p =
     ''application/vnd.pgrst.plan+'' @ pr_format p @ ''; for='' @ [CHR 0x22] @ pr_forType p @ [CHR 0x22] @ ''; charset=utf-8''"

definition rejectPlan :: "string \<Rightarrow> apiError option" where
  "rejectPlan accept =
     (if hasPlanMediaType accept then
        Some (ApiError 406 ''PGRST107'' (plain (''None of these media types are available: '' @ accept)) noText noText)
      else None)"

text \<open>The order in which media ranges are tried: the greater weight first, then the more specific range.\<close>

datatype 'f rank = Rank 'f int

instantiation rank :: (linorder) linorder
begin

definition less_eq_rank :: "'a rank \<Rightarrow> 'a rank \<Rightarrow> bool" where
  "less_eq_rank x y = (case (x, y) of (Rank p m, Rank q n) \<Rightarrow> q < p \<or> p = q \<and> n \<le> m)"

definition less_rank :: "'a rank \<Rightarrow> 'a rank \<Rightarrow> bool" where
  "less_rank x y = (case (x, y) of (Rank p m, Rank q n) \<Rightarrow> q < p \<or> p = q \<and> n < m)"

instance
  by standard (auto simp: less_eq_rank_def less_rank_def split: rank.splits)

end

definition rankedRange :: "'f floats \<Rightarrow> string \<Rightarrow> string \<times> 'f rank" where
  "rankedRange fl mr0 =
     (let mr1 = filter (\<lambda>c. c \<noteq> CHR '' '') mr0;
          (mr, q) = (case strIndex mr1 '';q='' of
              None \<Rightarrow> (mr1, fl_one fl)
            | Some i \<Rightarrow> (take i mr1,
                case fl_parse fl (fst (cutAt (CHR '';'') (drop (i + 3) mr1))) of Some v \<Rightarrow> v | None \<Rightarrow> fl_one fl)) in
      (mr, Rank q (int (length (filter (\<lambda>c. c = CHR '';'') mr)) - int (length (filter (\<lambda>c. c = CHR ''*'') mr)))))"

fun pickRange :: "string list \<Rightarrow> pg_error option \<Rightarrow> (planRequest \<times> pg_error option) option" where
  "pickRange [] skipped =
     (case skipped of None \<Rightarrow> None | Some e \<Rightarrow> Some (\<lparr>pr_format = [], pr_forType = [], pr_options = []\<rparr>, Some e))"
| "pickRange (mr # mrs) skipped =
     (case parsePlanAccept mr of
        Some (p, None) \<Rightarrow> Some (p, None)
      | Some (p, Some e) \<Rightarrow> pickRange mrs (Some e)
      | None \<Rightarrow> if toLower (fst (cutAt (CHR '';'') mr)) \<in> set planForTypes then None else pickRange mrs skipped)"

text \<open>\<open>sort_key\<close> is stable.\<close>

definition negotiatePlan :: "('f::linorder) floats \<Rightarrow> string \<Rightarrow> (planRequest \<times> pg_error option) option" where
  "negotiatePlan fl accept =
     pickRange (map fst (sort_key snd (map (rankedRange fl) (strSplit accept (CHR '',''))))) None"

section \<open>One object or many\<close>

text \<open>\<open>media\<close> is \<open>mime.ParseMediaType\<close>: the type and its parameters. The best range so far comes with its weight.\<close>

definition betterRange ::
    "('f::linorder) floats \<Rightarrow> (string \<Rightarrow> (string \<times> string gmap) option) \<Rightarrow> string \<Rightarrow> (string \<times> 'f) option \<Rightarrow> (string \<times> 'f) option" where
  "betterRange fl media part best =
     (case media (trimSpace part) of
        None \<Rightarrow> best
      | Some (mt, params) \<Rightarrow>
          (case (case map_of params ''q'' of
                   None \<Rightarrow> Some (fl_one fl)
                 | Some v \<Rightarrow> (case fl_parse fl v of None \<Rightarrow> None | Some f \<Rightarrow> if fl_isNaN fl f \<or> fl_one fl < f then None else Some f)) of
             None \<Rightarrow> best
           | Some q \<Rightarrow>
               if q \<le> fl_zero fl then best
               else (case best of None \<Rightarrow> Some (mt, q) | Some (b, bq) \<Rightarrow> if bq < q then Some (mt, q) else best)))"

definition wantsSingular :: "('f::linorder) floats \<Rightarrow> (string \<Rightarrow> (string \<times> string gmap) option) \<Rightarrow> string \<Rightarrow> bool" where
  "wantsSingular fl media accept =
     (case fold (betterRange fl media) (splitUnquoted accept (CHR '','')) None of
        None \<Rightarrow> False | Some (mt, q) \<Rightarrow> mt = ''application/vnd.pgrst.object+json'')"

section \<open>CSV\<close>

definition contentTypeIsCSV :: "string \<Rightarrow> bool" where
  "contentTypeIsCSV ct0 =
     (let ct = toLower (trimSpace ct0) in
      ct \<noteq> [] \<and> (case strIndex ct '';'' of None \<Rightarrow> ct | Some i \<Rightarrow> trimSpace (take i ct)) = ''text/csv'')"

definition acceptsCSV :: "string \<Rightarrow> bool" where
  "acceptsCSV accept =
     list_ex (\<lambda>part0. let part = trimSpace part0 in
         (case strIndex part '';'' of None \<Rightarrow> part | Some i \<Rightarrow> trimSpace (take i part)) = ''text/csv'')
       (strSplit (toLower accept) (CHR '',''))"

section \<open>Laws\<close>

lemma splitUnquotedFrom_ne: "splitUnquotedFrom sep inQ esc cur s \<noteq> []"
  by (induction s arbitrary: inQ esc cur) auto

text \<open>Splitting loses nothing.\<close>

lemma splitUnquoted_join: "strJoin (splitUnquoted s sep) [sep] = s"
proof -
  have "strJoin (splitUnquotedFrom sep inQ esc cur s) [sep] = rev cur @ s" for inQ esc cur
    by (induction s arbitrary: inQ esc cur) (auto simp: strJoin_Cons splitUnquotedFrom_ne)
  then show ?thesis by (simp add: splitUnquoted_def)
qed

text \<open>A plan keyword is one of the five that are known, whatever the client asks for.\<close>

lemma planOption_known: "set (pr_options p) \<subseteq> snd ` set planOptions \<Longrightarrow> set (pr_options (planOption p o1)) \<subseteq> snd ` set planOptions"
  by (auto simp: planOption_def dest!: map_of_SomeD split: option.splits) force

lemma planParam_known:
  assumes "set (pr_options p) \<subseteq> snd ` set planOptions"
  shows "set (pr_options (planParam p kv)) \<subseteq> snd ` set planOptions"
proof -
  have "set (pr_options (fold (\<lambda>o1 p. planOption p o1) os p)) \<subseteq> snd ` set planOptions" for os
    using assms by (induction os arbitrary: p) (auto simp: planOption_known)
  with assms show ?thesis by (auto simp: planParam_def Let_def split: prod.splits)
qed

lemma parsePlanAccept_known:
  assumes "parsePlanAccept accept = Some (p, e)"
  shows "set (pr_options p) \<subseteq> snd ` set planOptions"
proof -
  have keep: "set (pr_options p) \<subseteq> snd ` set planOptions \<Longrightarrow>
      set (pr_options (fold (\<lambda>kv p. planParam p kv) kvs p)) \<subseteq> snd ` set planOptions" for kvs p
    by (induction kvs arbitrary: p) (auto simp: planParam_known)
  obtain kvs fmt where
    "p = fold (\<lambda>kv p. planParam p kv) kvs \<lparr>pr_format = fmt, pr_forType = ''application/json'', pr_options = []\<rparr>"
    using assms by (auto simp: parsePlanAccept_def Let_def split: if_splits)
  then show ?thesis using keep by simp
qed

text \<open>The ranges of an Accept header are tried by falling weight.\<close>

lemma negotiated_order: "sorted (map snd (sort_key snd (map (rankedRange fl) ranges)))"
  by (rule sorted_sort_key)

end
