(* ===== verification/Rest_Body.thy ===== *)
theory Rest_Body
  imports Rest_Accept Rest_Auth
begin

text \<open>
  The records of a request body (\<open>parseRequestBody\<close> in \<open>internal/adapter/http/crud_handler.go\<close> and \<open>internal/csvutil\<close>). The
  decoders of the standard library, for JSON and for CSV lines, are parameters; the conversion of CSV texts to the types of
  the columns is modelled.
\<close>

section \<open>JSON values\<close>

datatype 'f jvalue = JNull | JBool bool | JInt int | JFloat 'f | JText string
  | JArray "'f jvalue list" | JObject "(string \<times> 'f jvalue) list"

section \<open>CSV records\<close>

text \<open>\<open>reader\<close>: the lines of a CSV body up to its end or to the first error.\<close>

definition csvRecord :: "string list \<Rightarrow> string list \<Rightarrow> ('f jvalue) gmap" where
  "csvRecord header row =
     fold (\<lambda>(col, i) rec. AList.update col (JText (if i < length row then row ! i else [])) rec) (zip header [0..<length header]) []"

definition ReadRecords :: "(string \<Rightarrow> string list list \<times> string option) \<Rightarrow> string \<Rightarrow> pg_error + ('f jvalue) gmap list" where
  "ReadRecords reader body =
     (if body = [] then Inl (Errorf ''empty CSV body'' [])
      else case reader body of
        ([], None) \<Rightarrow> Inl (Errorf ''empty CSV body'' [])
      | ([], Some e) \<Rightarrow> Inl (Errorf ''csv header: %w'' [e])
      | (header # rows, None) \<Rightarrow> Inr (map (csvRecord header) rows)
      | (header # rows, Some e) \<Rightarrow> Inl (Errorf ''csv row: %w'' [e]))"

definition csvIntTypes :: "string list" where
  "csvIntTypes = [''integer'', ''int'', ''int4'', ''smallint'', ''int2'', ''bigint'', ''int8'', ''bigserial'', ''serial8'', ''serial'', ''serial4'']"

definition csvTextTypes :: "string list" where
  "csvTextTypes = [''text'', ''varchar'', ''character varying'', ''char'', ''character'', ''bpchar'', ''citext'', ''name'']"

definition csvBase :: "string \<Rightarrow> string" where
  "csvBase pgType =
     (let b0 = toLower (trimSpace pgType);
          b1 = (case strIndex b0 ''('' of None \<Rightarrow> b0 | Some i \<Rightarrow> trimSpace (take i b0)) in trimSuffix b1 ''[]'')"

text \<open>\<open>None\<close>: the text is kept. \<open>float32\<close> and \<open>float64\<close> parse with that many bits.\<close>

definition CoerceValue :: "(string \<Rightarrow> 'f option) \<Rightarrow> (string \<Rightarrow> 'f option) \<Rightarrow> string \<Rightarrow> string \<Rightarrow> 'f jvalue option" where
  "CoerceValue float32 float64 s pgType =
     (let base = csvBase pgType in
      if s = [] then (if base \<in> set csvTextTypes then None else Some JNull)
      else if base \<in> set csvIntTypes then map_option JInt (atoi s)
      else if base \<in> {''real'', ''float4''} then map_option JFloat (float32 s)
      else if base \<in> {''double precision'', ''float8'', ''float''} then map_option JFloat (float64 s)
      else if base \<in> {''boolean'', ''bool''} then
        (if toLower s \<in> {''true'', ''t'', ''yes'', ''y'', ''1'', ''on''} then Some (JBool True)
         else if toLower s \<in> {''false'', ''f'', ''no'', ''n'', ''0'', ''off''} then Some (JBool False) else None)
      else None)"

definition coerceEntry :: "(string \<Rightarrow> 'f option) \<Rightarrow> (string \<Rightarrow> 'f option) \<Rightarrow> Table \<Rightarrow> string \<times> 'f jvalue \<Rightarrow> string \<times> 'f jvalue" where
  "coerceEntry float32 float64 table e =
     (case e of
        (col, JText s) \<Rightarrow>
          (case GetField table col of
             None \<Rightarrow> e
           | Some f \<Rightarrow> (case CoerceValue float32 float64 s (fld_Type f) of None \<Rightarrow> e | Some v \<Rightarrow> (col, v)))
      | _ \<Rightarrow> e)"

definition CoerceRecords ::
    "(string \<Rightarrow> 'f option) \<Rightarrow> (string \<Rightarrow> 'f option) \<Rightarrow> ('f jvalue) gmap list \<Rightarrow> Table \<Rightarrow> ('f jvalue) gmap list" where
  "CoerceRecords float32 float64 records table = map (map (coerceEntry float32 float64 table)) records"

section \<open>Requests\<close>

text \<open>What the handlers read of a request; \<open>rq_schema\<close> is set by the guard of the profile headers. A body that cannot be
  read is \<open>None\<close>.\<close>

record restRequest =
  rq_method :: string
  rq_table :: string
  rq_query :: "(string list) gmap"
  rq_prefer :: "string list"
  rq_accept :: string
  rq_contentType :: string
  rq_range :: string
  rq_acceptProfile :: string
  rq_contentProfile :: string
  rq_apikey :: string
  rq_authorization :: string
  rq_requestId :: string
  rq_body :: "string option"

text \<open>What the standard library makes of a text: decoded JSON records, CSV lines, numbers, media types, and a decoded row;
  \<open>dc_whole\<close>: the 64-bit integer that a float is equal to, if there is one.\<close>

record 'f decoders =
  dc_floats :: "'f floats"
  dc_float32 :: "string \<Rightarrow> 'f option"
  dc_trunc :: "'f \<Rightarrow> int"
  dc_whole :: "'f \<Rightarrow> int option"
  dc_media :: "string \<Rightarrow> (string \<times> string gmap) option"
  dc_csv :: "string \<Rightarrow> string list list \<times> string option"
  dc_records :: "string \<Rightarrow> (('f jvalue) gmap list) option"
  dc_record :: "string \<Rightarrow> (('f jvalue) gmap) option"
  dc_bind :: "string \<Rightarrow> (('f jvalue) gmap) option"
  dc_row :: "string \<Rightarrow> (('f jvalue) gmap) option"

datatype 'f body =
    NoBody
  | ErrorBody apiError
  | ProblemBody nat string pg_error
  | AmbiguousBody pg_error
  | RowsBody "string list"
  | RowBody string
  | CsvBody "('f jvalue) gmap list"
  | FeatureBody "('f jvalue \<times> ('f jvalue) gmap) list"
  | PlanText string "string list"
  | PlanJson string "'f jvalue"
  | TextBody string
  | ValueBody "'f jvalue"

record 'f reply =
  rp_status :: nat
  rp_range :: "string option"
  rp_applied :: "string option"
  rp_body :: "'f body"

definition errorReply :: "apiError \<Rightarrow> 'f reply" where
  "errorReply e = (case e of ApiError st c m d h \<Rightarrow> \<lparr>rp_status = st, rp_range = None, rp_applied = None, rp_body = ErrorBody e\<rparr>)"

definition problemJSON :: "nat \<Rightarrow> string \<Rightarrow> message \<Rightarrow> 'f reply" where
  "problemJSON status errType detail = errorReply (ApiError status (problemCode errType) detail noText noText)"

definition badRequest :: "pg_error \<Rightarrow> 'f reply" where
  "badRequest e = \<lparr>rp_status = 400, rp_range = None, rp_applied = None, rp_body = ProblemBody 400 (problemCode ''bad_request'') e\<rparr>"

definition okReply :: "nat \<Rightarrow> 'f body \<Rightarrow> 'f reply" where
  "okReply status b = \<lparr>rp_status = status, rp_range = None, rp_applied = None, rp_body = b\<rparr>"

definition parseRequestBody :: "'f decoders \<Rightarrow> restRequest \<Rightarrow> Table \<Rightarrow> 'f reply + ('f jvalue) gmap list" where
  "parseRequestBody dc rq table =
     (let nonEmpty = (\<lambda>records. if records = [] then Inl (problemJSON 400 ''bad_request'' (plain ''Empty request body'')) else Inr records) in
      case rq_body rq of
        None \<Rightarrow> Inl (problemJSON 400 ''bad_request'' (plain ''Cannot read request body''))
      | Some body \<Rightarrow>
          if contentTypeIsCSV (rq_contentType rq) then
            (case ReadRecords (dc_csv dc) body of
               Inl e \<Rightarrow> Inl (badRequest e)
             | Inr records \<Rightarrow> nonEmpty (CoerceRecords (dc_float32 dc) (fl_parse (dc_floats dc)) records table))
          else if hasPrefix (trimSpace body) ''['' then
            (case dc_records dc body of
               None \<Rightarrow> Inl (problemJSON 400 ''bad_request'' (plain ''Invalid JSON array'')) | Some records \<Rightarrow> nonEmpty records)
          else
            (case dc_record dc body of
               None \<Rightarrow> Inl (problemJSON 400 ''bad_request'' (plain ''Invalid JSON'')) | Some single \<Rightarrow> nonEmpty [single]))"

section \<open>Laws\<close>

lemma parseRequestBody_ne: "parseRequestBody dc rq table = Inr records \<Longrightarrow> records \<noteq> []"
  by (auto simp: parseRequestBody_def Let_def split: option.splits if_splits sum.splits)

lemma parseRequestBody_refuses: "parseRequestBody dc rq table = Inl r \<Longrightarrow> rp_status r = 400"
  by (auto simp: parseRequestBody_def Let_def problemJSON_def errorReply_def badRequest_def split: option.splits if_splits sum.splits)

text \<open>Conversion keeps the columns of a record.\<close>

lemma CoerceRecords_columns: "map (map fst) (CoerceRecords f32 f64 records table) = map (map fst) records"
proof -
  have "fst (coerceEntry f32 f64 table e) = fst e" for e :: "string \<times> 'a jvalue"
    by (auto simp: coerceEntry_def split: prod.splits jvalue.splits option.splits)
  then show ?thesis by (simp add: CoerceRecords_def)
qed

text \<open>A CSV record has exactly the columns of the header, each once, and a missing cell is empty.\<close>

lemma fold_update_columns:
  "fst ` set (fold (\<lambda>(col, i) rec. AList.update col (g i) rec) xs m) = fst ` set m \<union> fst ` set xs"
  "distinct (map fst m) \<Longrightarrow> distinct (map fst (fold (\<lambda>(col, i) rec. AList.update col (g i) rec) xs m))"
  by (induction xs arbitrary: m) (simp_all add: AList.dom_update distinct_update split_def)

lemma csvRecord_columns:
  "fst ` set (csvRecord header row) = set header" "distinct (map fst (csvRecord header row))"
proof -
  show "fst ` set (csvRecord header row) = set header"
    unfolding csvRecord_def fold_update_columns by (subst set_map [symmetric], subst map_fst_zip) simp_all
  show "distinct (map fst (csvRecord header row))" unfolding csvRecord_def by (rule fold_update_columns) simp
qed

end
