(* ===== verification/Rest_Page.thy ===== *)
theory Rest_Page
  imports Rest_Prefer
begin

text \<open>
  The page of a request as the set of rows it asks for: the limit and offset of the query, the Range header and the row
  numbers from zero on are intersected, without overflow.
\<close>

section \<open>Saturation\<close>

lemma sint_word_of_int64: "sint (word_of_int n :: int64) = (n + 2 ^ 63) mod 2 ^ 64 - 2 ^ 63"
  using int_word_sint [of n, where 'a = 64] by simp

definition in64 :: "int \<Rightarrow> bool" where
  "in64 n \<longleftrightarrow> minInt \<le> n \<and> n \<le> maxInt"

lemma sint_in64: "in64 n \<Longrightarrow> sint (word_of_int n :: int64) = n"
  by (simp add: sint_word_of_int64 in64_def minInt_def maxInt_def)

lemma in64_sint: "in64 (sint (a :: int64))"
  using sint_ge [of a] sint_lt [of a] by (simp add: in64_def minInt_def maxInt_def)

lemma in64_bounds: "in64 maxInt" "in64 minInt" "in64 0"
  by (simp_all add: in64_def minInt_def maxInt_def)

lemma wrapped_sum:
  assumes "in64 a" "in64 b"
  shows "(a + b + 2 ^ 63) mod 2 ^ 64 - 2 ^ 63 =
    (if a + b < minInt then a + b + 2 ^ 64 else if maxInt < a + b then a + b - 2 ^ 64 else (a + b :: int))"
proof -
  have up: "(a + b + 2 ^ 63) mod 2 ^ 64 = (a + b + 2 ^ 63 + 2 ^ 64) mod 2 ^ 64" by (rule mod_add_self2 [symmetric])
  have down: "(a + b + 2 ^ 63) mod 2 ^ 64 = (a + b + 2 ^ 63 - 2 ^ 64) mod 2 ^ 64" by (rule minus_mod_self2 [symmetric])
  consider "a + b < minInt" | "maxInt < a + b" | "minInt \<le> a + b" "a + b \<le> maxInt" by linarith
  then show ?thesis
  proof cases
    case 1
    with assms up show ?thesis by (simp add: in64_def minInt_def maxInt_def)
  next
    case 2
    with assms down show ?thesis by (simp add: in64_def minInt_def maxInt_def)
  qed (simp add: minInt_def maxInt_def)
qed

text \<open>\<open>addSat\<close> clamps the exact sum.\<close>

lemma addSat_clamps: "sint (addSat a b) = max minInt (min maxInt (sint a + sint b))"
proof -
  have s: "sint (a + b) = (if sint a + sint b < minInt then sint a + sint b + 2 ^ 64
      else if maxInt < sint a + sint b then sint a + sint b - 2 ^ 64 else sint a + sint b)"
    using wrapped_sum [OF in64_sint in64_sint, of a b] sint_word_of_int64 [of "sint a + sint b"] by simp
  show ?thesis
    using in64_sint [of a] in64_sint [of b]
    unfolding addSat_def Let_def word_sless_alt s
    by (auto simp: s sint_in64 in64_bounds in64_def minInt_def maxInt_def)
qed

lemma addSat_in64:
  "in64 a \<Longrightarrow> in64 b \<Longrightarrow> sint (addSat (word_of_int a) (word_of_int b)) = max minInt (min maxInt (a + b))"
  by (simp add: addSat_clamps sint_in64)

section \<open>Pages as sets of rows\<close>

definition pageRows :: "int \<times> int \<Rightarrow> int set" where
  "pageRows p = {k. fst p \<le> k \<and> (snd p \<noteq> NoLimit \<longrightarrow> k < fst p + snd p)}"

definition requestedRows :: "bool \<Rightarrow> string \<Rightarrow> int \<Rightarrow> int \<Rightarrow> bool \<Rightarrow> int set" where
  "requestedRows get rangeHeader offset limit hasLimit =
     {k. 0 \<le> k \<and> k < maxInt \<and> offset \<le> k \<and> (hasLimit \<longrightarrow> k < offset + limit) \<and>
        (get \<longrightarrow> (\<forall>start stop. parseRangeHeader rangeHeader = Some (start, stop) \<longrightarrow> start \<le> k \<and> k \<le> stop))}"

lemma clampAtoi_bounds: "isDigits s \<Longrightarrow> 0 \<le> clampAtoi s \<and> clampAtoi s \<le> maxInt"
  by (cases s) (auto simp: clampAtoi_def atoi_def isDigits_def maxInt_def hasPrefix_def isDigit_def Let_def split: option.splits if_splits)

lemma rangeHeader_bounds:
  "parseRangeHeader h = Some (start, stop) \<Longrightarrow> 0 \<le> start \<and> start \<le> maxInt \<and> 0 \<le> stop \<and> stop \<le> maxInt"
  by (auto simp: parseRangeHeader_def Let_def maxInt_def dest: clampAtoi_bounds split: if_splits)

lemma int_limits: "minInt < 0" "0 < maxInt" "NoLimit < 0"
  by (simp_all add: minInt_def maxInt_def NoLimit_def)

definition exactPage :: "rangeError + int \<times> int \<Rightarrow> int set \<Rightarrow> bool" where
  "exactPage page rows =
     (case page of
        Inr (lo, n) \<Rightarrow> 0 \<le> lo \<and> lo \<le> maxInt \<and> (n = NoLimit \<or> 0 \<le> n \<and> lo + n \<le> maxInt) \<and> pageRows (lo, n) \<inter> {..<maxInt} = rows
      | Inl e \<Rightarrow> rows = {})"

lemma pageOf_exact: "0 \<le> lo \<Longrightarrow> lo \<le> maxInt \<Longrightarrow> hi \<le> maxInt \<Longrightarrow> exactPage (pageOf lo hi) {k. lo \<le> k \<and> k \<le> hi \<and> k < maxInt}"
  using int_limits by (auto simp: exactPage_def pageOf_def pageRows_def)

text \<open>C15: For every limit and offset of 64 bits and every Range header, the page that is served consists of exactly the rows
  that all of them ask for, it starts at a row number that is not negative, its length fits 64 bits, and a request is
  refused only when no row is asked for.\<close>

theorem page_is_intersection:
  assumes "in64 offset" "in64 limit"
  shows "exactPage (intersectRange get rangeHeader offset limit hasLimit) (requestedRows get rangeHeader offset limit hasLimit)"
proof -
  define fin where "fin = max minInt (min maxInt (offset + limit))"
  define hi where "hi = (if hasLimit \<and> fin < maxInt then max fin (minInt + 1) - 1 else maxInt)"
  have sat: "sint (addSat (word_of_int offset) (word_of_int limit)) = fin"
    unfolding fin_def using assms by (rule addSat_in64)
  have off: "offset \<le> maxInt" "minInt \<le> offset" using assms by (simp_all add: in64_def)
  have hi: "hi \<le> maxInt" using int_limits by (auto simp: hi_def)
  have upto: "k \<le> hi \<longleftrightarrow> (hasLimit \<longrightarrow> k < offset + limit)" if "0 \<le> k" "k < maxInt" for k
    using that int_limits by (auto simp: hi_def fin_def)
  show ?thesis
  proof (cases "hasLimit \<and> offset + limit = 0")
    case True
    then show ?thesis
      using int_limits unfolding intersectRange_def sat Let_def
      by (auto simp: fin_def exactPage_def pageRows_def requestedRows_def)
  next
    case False
    then have "\<not> (hasLimit \<and> fin = 0)" using int_limits by (auto simp: fin_def)
    then have unfold: "intersectRange get rangeHeader offset limit hasLimit =
        (case (if get then parseRangeHeader rangeHeader else None) of
          None \<Rightarrow> pageOf (max offset 0) hi
        | Some (start, stop) \<Rightarrow> if stop < start then Inl errLowerGTUpper else pageOf (max (max offset 0) start) (min hi stop))"
      unfolding intersectRange_def sat Let_def hi_def by (simp only: if_False)
    show ?thesis
    proof (cases "if get then parseRangeHeader rangeHeader else None")
      case None
      then have "requestedRows get rangeHeader offset limit hasLimit = {k. max offset 0 \<le> k \<and> k \<le> hi \<and> k < maxInt}"
        using upto by (auto simp: requestedRows_def split: if_splits)
      then show ?thesis using pageOf_exact [of "max offset 0" hi] off hi int_limits by (simp add: unfold None)
    next
      case (Some r)
      obtain start stop where r: "r = (start, stop)" by (cases r)
      from Some r have h: "get" "parseRangeHeader rangeHeader = Some (start, stop)" by (auto split: if_splits)
      then have "requestedRows get rangeHeader offset limit hasLimit =
          {k. max (max offset 0) start \<le> k \<and> k \<le> min hi stop \<and> k < maxInt}"
        using upto by (auto simp: requestedRows_def)
      moreover have "exactPage (pageOf (max (max offset 0) start) (min hi stop))
          {k. max (max offset 0) start \<le> k \<and> k \<le> min hi stop \<and> k < maxInt}"
        using off hi rangeHeader_bounds [OF h(2)] int_limits by (intro pageOf_exact) simp_all
      moreover have "{k. max (max offset 0) start \<le> k \<and> k \<le> min hi stop \<and> k < maxInt} = {}" if "stop < start"
        using that by auto
      ultimately show ?thesis unfolding unfold Some r by (cases "stop < start") (simp_all add: exactPage_def [of "Inl errLowerGTUpper"])
    qed
  qed
qed

theorem page_is_intersection_witness:
  "intersectRange True ''5-9'' 7 10 True = Inr (7, 3) \<and> exactPage (Inr (7, 3)) (requestedRows True ''5-9'' 7 10 True)"
proof -
  have "intersectRange True ''5-9'' 7 10 True = Inr (7, 3)" by code_simp
  moreover have "in64 7" "in64 10" by (simp_all add: in64_def minInt_def maxInt_def)
  ultimately show ?thesis using page_is_intersection [of 7 10 True "''5-9''" True] by simp
qed

section \<open>The timeout of a statement\<close>

text \<open>A client lowers the configured timeout of the server, it never raises it.\<close>

lemma dbTimeout_only_lowers:
  assumes "ParseDuration cfgVal = Inr d" "0 < d"
  shows "0 < dbTimeout cfgVal prefer \<and> dbTimeout cfgVal prefer \<le> d"
  using assms by (auto simp: dbTimeout_def Let_def max_def split: option.splits)

text \<open>The directive for the timeout is not among those that strict handling accepts.\<close>

lemma strict_refuses_timeout:
  "enforceStrictPrefer ''handling=strict,statement-timeout=500'' = Some ''statement-timeout=500''"
  "dbTimeout [] ''handling=strict,statement-timeout=500'' = 500000000"
proof -
  show "enforceStrictPrefer ''handling=strict,statement-timeout=500'' = Some ''statement-timeout=500''" by code_simp
  have "findPreferDirective ''handling=strict,statement-timeout=500'' ''statement-timeout'' = Some ''500''" by code_simp
  moreover have "atoi ''500'' = Some 500" by code_simp
  ultimately show "dbTimeout [] ''handling=strict,statement-timeout=500'' = 500000000"
    by (simp add: dbTimeout_def ParseDuration_def maxInt_def Let_def)
qed

end
