(* ===== verification/Rest_Crud.thy ===== *)
theory Rest_Crud
  imports Rest_Body Rest_Page
begin

text \<open>
  The table endpoints (\<open>internal/adapter/http/crud_handler.go\<close>) over a connection that is a parameter: it begins a transaction
  with a setup text, runs statements with their arguments, and commits. A handler maps the committed state of the database
  to its answer and the committed state afterwards; whatever it does not commit is rolled back.
\<close>

section \<open>The connection\<close>

text \<open>A query gives rows, a statement the number of rows it affected; both leave a transaction that may be spoilt when they
  fail. A commit that fails leaves the database as it was. \<open>cn_rls\<close>: \<open>WithRLS\<close> succeeds.\<close>

record ('db, 'tx, 'f) conn =
  cn_rls :: bool
  cn_begin :: "string \<Rightarrow> 'db \<Rightarrow> 'tx option"
  cn_query :: "string \<Rightarrow> 'f jvalue list \<Rightarrow> 'tx \<Rightarrow> (dbError + (('f jvalue) gmap) list) \<times> 'tx"
  cn_exec :: "string \<Rightarrow> 'f jvalue list \<Rightarrow> 'tx \<Rightarrow> (dbError + int) \<times> 'tx"
  cn_commit :: "'tx \<Rightarrow> 'db \<Rightarrow> 'db option"

record ('db, 'tx, 'f) restServer =
  rs_cfg :: Config
  rs_roles :: Roles
  rs_keys :: apiKeys
  rs_verify :: "string \<Rightarrow> claims option"
  rs_conn :: "('db, 'tx, 'f) conn"
  rs_dec :: "'f decoders"
  rs_postgis :: bool

definition allTables :: "Config \<Rightarrow> Table gmap" where
  "allTables cfg =
     (if mapHas (cfg_Tables cfg) ''users'' \<or> cfg_Auth cfg = None then cfg_Tables cfg
      else AList.update ''users'' (zeroTable\<lparr>tbl_Fields :=
        [zeroField\<lparr>fld_Name := ''id'', fld_Type := ''uuid'', fld_PrimaryKey := True\<rparr>,
         zeroField\<lparr>fld_Name := ''email'', fld_Type := ''text''\<rparr>]\<rparr>) (cfg_Tables cfg))"

text \<open>How the body of a handler ends: the transaction is dropped, or it is to be committed before the answer.\<close>

datatype ('tx, 'f) ending = Abandon "'f reply" | Finish 'tx "'f reply"

definition applySchemaSearchPath :: "('db, 'tx, 'f) conn \<Rightarrow> string option \<Rightarrow> 'tx \<Rightarrow> 'tx" where
  "applySchemaSearchPath cn schema tx =
     (case schema of
        None \<Rightarrow> tx
      | Some s \<Rightarrow> if s \<noteq> [] \<and> s \<noteq> ''public'' then snd (cn_exec cn (''SET LOCAL search_path TO '' @ s @ '', public'') [] tx) else tx)"

definition withTx :: "('db, 'tx, 'f) conn \<Rightarrow> string \<Rightarrow> string option \<Rightarrow> ('tx \<Rightarrow> ('tx, 'f) ending) \<Rightarrow> 'db \<Rightarrow> 'f reply \<times> 'db" where
  "withTx cn setup schema work db =
     (if \<not> cn_rls cn then (problemJSON 500 ''internal'' (plain ''Failed to set RLS context''), db)
      else case cn_begin cn setup db of
        None \<Rightarrow> (problemJSON 500 ''internal'' (plain ''Failed to start transaction''), db)
      | Some tx0 \<Rightarrow>
          (case work (applySchemaSearchPath cn schema tx0) of
             Abandon r \<Rightarrow> (r, db)
           | Finish tx r \<Rightarrow>
               (case cn_commit cn tx db of
                  None \<Rightarrow> (problemJSON 500 ''internal'' (plain ''Transaction commit failed''), db)
                | Some db' \<Rightarrow> (r, db'))))"

definition finishTx :: "string \<Rightarrow> 'tx \<Rightarrow> 'f reply \<Rightarrow> ('tx, 'f) ending" where
  "finishTx txMode tx r = (if txMode = ''rollback'' then Abandon r else Finish tx r)"

section \<open>Rows as JSON text\<close>

definition wireRowsSQL :: "string \<Rightarrow> string" where
  "wireRowsSQL sql = ''WITH _inz_r AS ('' @ sql @ '') SELECT row_to_json(_inz_r.*)::text AS _inz_row FROM _inz_r''"

definition wireCell :: "('f jvalue) gmap \<Rightarrow> dbError + string" where
  "wireCell row =
     (let text = (case map_of row ''_inz_row'' of Some (JText s) \<Rightarrow> s | _ \<Rightarrow> []) in
      if hasPrefix text ''{'' then Inr text else Inl (DriverErr ''decode wire row: cell is not a JSON object''))"

definition queryWireRaw ::
    "('db, 'tx, 'f) conn \<Rightarrow> string \<Rightarrow> 'f jvalue list \<Rightarrow> 'tx \<Rightarrow> (dbError + string list) \<times> 'tx" where
  "queryWireRaw cn sql args tx =
     (case cn_query cn (wireRowsSQL sql) args tx of
        (Inl e, tx') \<Rightarrow> (Inl e, tx')
      | (Inr raw, tx') \<Rightarrow> (traverse wireCell raw, tx'))"

definition decodeWireRows :: "'f decoders \<Rightarrow> string list \<Rightarrow> dbError + (('f jvalue) gmap) list" where
  "decodeWireRows dc rows =
     traverse (\<lambda>t. case dc_row dc t of None \<Rightarrow> Inl (DriverErr ''decode wire row'') | Some m \<Rightarrow> Inr m) rows"

section \<open>Answers\<close>

definition dbErrorReply :: "dbError \<Rightarrow> 'f reply" where
  "dbErrorReply e = errorReply (handleDBError e)"

definition strictReply :: "string \<Rightarrow> 'f reply" where
  "strictReply part = errorReply (ApiError 400 ''PGRST122'' (plain ''Invalid preference'')
     (''Unknown Prefer directive %q under handling=strict'', [part]) noText)"

definition singularAsked :: "('f::linorder) decoders \<Rightarrow> restRequest \<Rightarrow> bool" where
  "singularAsked dc rq = wantsSingular (dc_floats dc) (dc_media dc) (rq_accept rq)"

definition rejectNonSingular :: "('f::linorder) decoders \<Rightarrow> restRequest \<Rightarrow> int \<Rightarrow> 'f reply option" where
  "rejectNonSingular dc rq n =
     (if \<not> singularAsked dc rq \<or> n = 1 then None
      else Some (errorReply (ApiError 406 ''PGRST116'' (plain ''JSON object requested, multiple (or no) rows returned'')
        (''The result contains %d rows'', [itoaInt n]) noText)))"

definition writeMutationResponse :: "('f::linorder) decoders \<Rightarrow> restRequest \<Rightarrow> nat \<Rightarrow> string \<Rightarrow> string list \<Rightarrow> 'f reply" where
  "writeMutationResponse dc rq status returnMode results =
     (if returnMode = ''representation'' then
        okReply status (if singularAsked dc rq \<and> length results = 1 then RowBody (hd results) else RowsBody results)
      else if returnMode = ''headers-only'' then (okReply status NoBody)\<lparr>rp_applied := Some ''return=headers-only''\<rparr>
      else okReply status NoBody)"

definition maxAffectedError :: "int \<Rightarrow> int \<Rightarrow> 'f reply" where
  "maxAffectedError affected limit = errorReply (ApiError 400 ''PGRST124''
     (plain ''Query result exceeds max-affected preference constraint'')
     (''The query affects %d rows, exceeding the max-affected=%d limit'', [itoaInt affected, itoaInt limit]) noText)"

text \<open>Rows are returned when the client wants a representation, otherwise only counted.\<close>

definition runMutation ::
    "('db, 'tx, 'f) conn \<Rightarrow> bool \<Rightarrow> string \<Rightarrow> 'f jvalue list \<Rightarrow> 'tx \<Rightarrow> dbError + (int \<times> string list \<times> 'tx)" where
  "runMutation cn returning query args tx =
     (if returning then
        (case queryWireRaw cn query args tx of
           (Inl e, tx') \<Rightarrow> Inl e | (Inr rows, tx') \<Rightarrow> Inr (int (length rows), rows, tx'))
      else
        (case cn_exec cn query args tx of (Inl e, tx') \<Rightarrow> Inl e | (Inr n, tx') \<Rightarrow> Inr (n, [], tx')))"

section \<open>The key of a table\<close>

definition livePrimaryKeySQL :: string where
  "livePrimaryKeySQL = ''SELECT coalesce(string_agg(a.attname, '' @ [CHR 0x27, CHR '','', CHR 0x27] @ '' ORDER BY a.attname), '' @
     [CHR 0x27, CHR 0x27] @ '') AS cols'' @ [CHR 0x0A, CHR 0x09, CHR 0x09] @
     ''FROM pg_index i JOIN pg_attribute a ON a.attrelid = i.indrelid AND a.attnum = ANY(i.indkey)'' @ [CHR 0x0A, CHR 0x09, CHR 0x09] @
     ''WHERE i.indisprimary AND i.indrelid = to_regclass($1)''"

definition livePrimaryKeyOr ::
    "('db, 'tx, 'f) conn \<Rightarrow> string \<Rightarrow> string list \<Rightarrow> 'tx \<Rightarrow> (dbError + string list) \<times> 'tx" where
  "livePrimaryKeyOr cn tableName fallback tx =
     (case cn_query cn livePrimaryKeySQL [JText tableName] tx of
        (Inl e, tx') \<Rightarrow> (Inl e, tx')
      | (Inr rows, tx') \<Rightarrow>
          (let cols = (case rows of [] \<Rightarrow> [] | row # _ \<Rightarrow> (case map_of row ''cols'' of Some (JText s) \<Rightarrow> s | _ \<Rightarrow> [])) in
           (Inr (if cols = [] then fallback else strSplit cols (CHR '','')), tx')))"

section \<open>Writes\<close>

definition unknownFields :: "Table \<Rightarrow> ('f jvalue) gmap list \<Rightarrow> string list option" where
  "unknownFields table records =
     find (\<lambda>u. u \<noteq> []) (map (\<lambda>rec. FindUnknownFields rec (FieldMap table)) records)"

definition unknownReply :: "string list \<Rightarrow> 'f reply" where
  "unknownReply unknowns = problemJSON 400 ''bad_request'' (''Unknown fields: %s'', [strJoin unknowns '', ''])"

text \<open>The conflict target of an insert that resolves conflicts, and whether it is the default one.\<close>

definition conflictTarget :: "string \<Rightarrow> string \<Rightarrow> Table \<Rightarrow> 'f reply + (string list \<times> bool)" where
  "conflictTarget resolution onConflict table =
     (if resolution = [] then Inr ([], False)
      else case ParseOnConflictParam onConflict table of
        Inl e \<Rightarrow> Inl (badRequest e)
      | Inr custom \<Rightarrow>
          let pkCols = (if custom \<noteq> [] then custom else PrimaryKeyColumns table) in
          if pkCols = [] then Inl (problemJSON 400 ''bad_request'' (plain ''Cannot upsert: table has no primary key and no on_conflict''))
          else Inr (pkCols, custom = []))"

definition finishMutation ::
    "('f::linorder) decoders \<Rightarrow> restRequest \<Rightarrow> string \<Rightarrow> nat \<Rightarrow> string \<Rightarrow> (dbError + (int \<times> string list \<times> 'tx)) \<Rightarrow> ('tx, 'f) ending" where
  "finishMutation dc rq prefer status returnMode outcome =
     (case outcome of
        Inl e \<Rightarrow> Abandon (dbErrorReply e)
      | Inr (affected, results, tx) \<Rightarrow>
          (case rejectNonSingular dc rq affected of
             Some r \<Rightarrow> Abandon r
           | None \<Rightarrow>
               finishTx (parseTxPrefer prefer) tx
                 (let r = writeMutationResponse dc rq status returnMode results in
                  if parseMissingPrefer prefer \<and> rp_applied r = None then r\<lparr>rp_applied := Some ''missing=default''\<rparr> else r)))"

definition createWork ::
    "('f::linorder) decoders \<Rightarrow> ('db, 'tx, 'f) conn \<Rightarrow> restRequest \<Rightarrow> string \<Rightarrow> string \<Rightarrow> Table \<Rightarrow> ('f jvalue) gmap list \<Rightarrow>
       'tx \<Rightarrow> ('tx, 'f) ending" where
  "createWork dc cn rq prefer tableName table records tx =
     (let returnMode = parseReturnPrefer prefer; resolution = parseResolutionPrefer prefer; returning = (returnMode = ''representation'') in
      case conflictTarget resolution (queryValue (rq_query rq) ''on_conflict'') table of
        Inl r \<Rightarrow> Abandon r
      | Inr (pkCols0, defaultTarget) \<Rightarrow>
          (case (if defaultTarget then livePrimaryKeyOr cn tableName pkCols0 tx else (Inr pkCols0, tx)) of
             (Inl e, tx') \<Rightarrow> Abandon (dbErrorReply e)
           | (Inr pkCols, tx') \<Rightarrow>
               let query = (if resolution \<noteq> [] then BuildBulkUpsertQuery tableName records pkCols resolution returning
                            else BuildBulkInsertQuery tableName records returning) in
               finishMutation dc rq prefer 201 returnMode (runMutation cn returning (fst query) (snd query) tx')))"

definition handleCreate ::
    "('f::linorder) decoders \<Rightarrow> ('db, 'tx, 'f) conn \<Rightarrow> string \<Rightarrow> string option \<Rightarrow> restRequest \<Rightarrow> string \<Rightarrow> Table \<Rightarrow> 'db \<Rightarrow> 'f reply \<times> 'db" where
  "handleCreate dc cn setup schema rq tableName table db =
     (let prefer = joinPrefer (rq_prefer rq) in
      case enforceStrictPrefer prefer of Some part \<Rightarrow> (strictReply part, db)
      | None \<Rightarrow>
      case parseRequestBody dc rq table of Inl r \<Rightarrow> (r, db)
      | Inr records0 \<Rightarrow>
      case ParseColumnsParam (queryValue (rq_query rq) ''columns'') table of Inl e \<Rightarrow> (badRequest e, db)
      | Inr allowedCols \<Rightarrow>
        let records = FilterRecordsByColumns records0 allowedCols in
        if RecordsAllEmpty records then
          (problemJSON 400 ''bad_request'' (plain ''No insertable columns after applying columns= filter''), db)
        else
          case unknownFields table records of Some unknowns \<Rightarrow> (unknownReply unknowns, db)
          | None \<Rightarrow> withTx cn setup schema (createWork dc cn rq prefer tableName table records) db)"

definition missingKey :: "string list \<Rightarrow> ('f jvalue) gmap \<Rightarrow> string option" where
  "missingKey pkCols rec = find (\<lambda>pk. \<not> mapHas rec pk) pkCols"

text \<open>The records are checked one after the other.\<close>

fun upsertRecordError :: "Table \<Rightarrow> string list \<Rightarrow> ('f jvalue) gmap list \<Rightarrow> 'f reply option" where
  "upsertRecordError table pkCols [] = None"
| "upsertRecordError table pkCols (rec # recs) =
     (let unknowns = FindUnknownFields rec (FieldMap table) in
      if unknowns \<noteq> [] then Some (unknownReply unknowns)
      else case missingKey pkCols rec of
             Some pk \<Rightarrow> Some (problemJSON 400 ''bad_request'' (''PUT body missing primary key column %q'', [pk]))
           | None \<Rightarrow> upsertRecordError table pkCols recs)"

definition upsertWork ::
    "('f::linorder) decoders \<Rightarrow> ('db, 'tx, 'f) conn \<Rightarrow> restRequest \<Rightarrow> string \<Rightarrow> string \<Rightarrow> string list \<Rightarrow> ('f jvalue) gmap list \<Rightarrow>
       'tx \<Rightarrow> ('tx, 'f) ending" where
  "upsertWork dc cn rq prefer tableName pkCols0 records tx =
     (let returnMode = parseReturnPrefer prefer; returning = (returnMode = ''representation'') in
      case livePrimaryKeyOr cn tableName pkCols0 tx of
        (Inl e, tx') \<Rightarrow> Abandon (dbErrorReply e)
      | (Inr pkCols, tx') \<Rightarrow>
          let query = BuildBulkUpsertQuery tableName records pkCols ''merge'' returning in
          finishMutation dc rq prefer 200 returnMode (runMutation cn returning (fst query) (snd query) tx'))"

definition handleUpsert ::
    "('f::linorder) decoders \<Rightarrow> ('db, 'tx, 'f) conn \<Rightarrow> string \<Rightarrow> string option \<Rightarrow> restRequest \<Rightarrow> string \<Rightarrow> Table \<Rightarrow> 'db \<Rightarrow> 'f reply \<times> 'db" where
  "handleUpsert dc cn setup schema rq tableName table db =
     (let prefer = joinPrefer (rq_prefer rq) in
      case enforceStrictPrefer prefer of Some part \<Rightarrow> (strictReply part, db)
      | None \<Rightarrow>
      case parseRequestBody dc rq table of Inl r \<Rightarrow> (r, db)
      | Inr records \<Rightarrow>
        let pkCols = PrimaryKeyColumns table in
        if pkCols = [] then (problemJSON 400 ''bad_request'' (plain ''Cannot upsert: table has no primary key''), db)
        else
          case upsertRecordError table pkCols records of Some r \<Rightarrow> (r, db)
          | None \<Rightarrow> withTx cn setup schema (upsertWork dc cn rq prefer tableName pkCols records) db)"

text \<open>The end of an update and of a delete.\<close>

definition finishBounded ::
    "('f::linorder) decoders \<Rightarrow> restRequest \<Rightarrow> string \<Rightarrow> (dbError + (int \<times> string list \<times> 'tx)) \<Rightarrow> ('tx, 'f) ending" where
  "finishBounded dc rq prefer outcome =
     (let returnMode = parseReturnPrefer prefer in
      case outcome of
        Inl e \<Rightarrow> Abandon (dbErrorReply e)
      | Inr (affected, results, tx) \<Rightarrow>
          (case (case parseMaxAffectedPrefer prefer of
               Some maxAffected \<Rightarrow> if maxAffected < affected then Some (maxAffectedError affected maxAffected) else rejectNonSingular dc rq affected
             | None \<Rightarrow> rejectNonSingular dc rq affected) of
             Some r \<Rightarrow> Abandon r
           | None \<Rightarrow>
               finishTx (parseTxPrefer prefer) tx
                 (if returnMode = ''representation'' then writeMutationResponse dc rq 200 returnMode results
                  else if returnMode = ''headers-only'' then (okReply 200 NoBody)\<lparr>rp_applied := Some ''return=headers-only''\<rparr>
                  else okReply 204 NoBody)))"

definition updateWork ::
    "('f::linorder) decoders \<Rightarrow> ('db, 'tx, 'f) conn \<Rightarrow> restRequest \<Rightarrow> string \<Rightarrow> string \<Rightarrow> ('f jvalue) gmap \<Rightarrow> WhereNode option \<Rightarrow>
       'tx \<Rightarrow> ('tx, 'f) ending" where
  "updateWork dc cn rq prefer tableName updates wh tx =
     (let returning = (parseReturnPrefer prefer = ''representation''); query = BuildUpdateQuery tableName updates wh returning in
      finishBounded dc rq prefer
        (runMutation cn returning (fst query) (map (\<lambda>a. case a of Inl v \<Rightarrow> v | Inr s \<Rightarrow> JText s) (snd query)) tx))"

definition handleUpdate ::
    "('f::linorder) decoders \<Rightarrow> ('db, 'tx, 'f) conn \<Rightarrow> string \<Rightarrow> string option \<Rightarrow> restRequest \<Rightarrow> string \<Rightarrow> Table \<Rightarrow> 'db \<Rightarrow> 'f reply \<times> 'db" where
  "handleUpdate dc cn setup schema rq tableName table db =
     (let prefer = joinPrefer (rq_prefer rq) in
      case enforceStrictPrefer prefer of Some part \<Rightarrow> (strictReply part, db)
      | None \<Rightarrow>
      case Option.bind (rq_body rq) (dc_bind dc) of None \<Rightarrow> (problemJSON 400 ''bad_request'' (plain ''Invalid JSON body''), db)
      | Some updates \<Rightarrow>
        if updates = [] then (problemJSON 400 ''bad_request'' (plain ''Empty update body''), db)
        else if FindUnknownFields updates (FieldMap table) \<noteq> [] then (unknownReply (FindUnknownFields updates (FieldMap table)), db)
        else
          case ParseWhere (rq_query rq) table of Inl e \<Rightarrow> (badRequest e, db)
          | Inr wh \<Rightarrow> withTx cn setup schema (updateWork dc cn rq prefer tableName updates wh) db)"

definition deleteWork ::
    "('f::linorder) decoders \<Rightarrow> ('db, 'tx, 'f) conn \<Rightarrow> restRequest \<Rightarrow> string \<Rightarrow> string \<Rightarrow> WhereNode option \<Rightarrow> 'tx \<Rightarrow> ('tx, 'f) ending" where
  "deleteWork dc cn rq prefer tableName wh tx =
     (let returning = (parseReturnPrefer prefer = ''representation''); query = BuildDeleteQuery tableName wh returning in
      finishBounded dc rq prefer (runMutation cn returning (fst query) (map JText (snd query)) tx))"

definition handleDelete ::
    "('f::linorder) decoders \<Rightarrow> ('db, 'tx, 'f) conn \<Rightarrow> string \<Rightarrow> string option \<Rightarrow> restRequest \<Rightarrow> string \<Rightarrow> Table \<Rightarrow> 'db \<Rightarrow> 'f reply \<times> 'db" where
  "handleDelete dc cn setup schema rq tableName table db =
     (let prefer = joinPrefer (rq_prefer rq) in
      case enforceStrictPrefer prefer of Some part \<Rightarrow> (strictReply part, db)
      | None \<Rightarrow>
      case ParseWhere (rq_query rq) table of Inl e \<Rightarrow> (badRequest e, db)
      | Inr wh \<Rightarrow> withTx cn setup schema (deleteWork dc cn rq prefer tableName wh) db)"

end
