(* ===== verification/Rest_List.thy ===== *)
theory Rest_List
  imports Rest_Crud
begin

text \<open>
  Reading a table and the routes of \<open>/rest/v1/<table>\<close> (\<open>handleList\<close>, \<open>Mount\<close> and \<open>dispatch\<close> in
  \<open>internal/adapter/http/crud_handler.go\<close>).
\<close>

section \<open>Counting\<close>

definition plainScan :: "QueryParams \<Rightarrow> bool" where
  "plainScan qp =
     (qp_Where qp = None \<and> qp_Having qp = None \<and> qp_Embeds qp = [] \<and> \<not> list_ex IsAggSelectEntry (qp_Select qp))"

definition queryCount ::
    "'f decoders \<Rightarrow> ('db, 'tx, 'f) conn \<Rightarrow> string \<Rightarrow> 'f jvalue list \<Rightarrow> 'tx \<Rightarrow> (dbError + int) \<times> 'tx" where
  "queryCount dc cn sql args tx =
     (case cn_query cn sql args tx of
        (Inl e, tx') \<Rightarrow> (Inl e, tx')
      | (Inr rows, tx') \<Rightarrow>
          (Inr (case rows of [] \<Rightarrow> - 1
             | row # _ \<Rightarrow> (case map_of row ''count'' of Some (JInt n) \<Rightarrow> n | Some (JFloat f) \<Rightarrow> dc_trunc dc f | _ \<Rightarrow> - 1)), tx'))"

text \<open>The row estimate in one line of a plan.\<close>

definition planLine :: "string \<Rightarrow> int option" where
  "planLine plan =
     (case strIndex plan ''rows='' of
        None \<Rightarrow> None
      | Some i \<Rightarrow> atoi (takeWhile (\<lambda>c. c \<noteq> CHR '' '' \<and> c \<noteq> CHR '')'') (drop (i + 5) plan)))"

definition planRows :: "(('f jvalue) gmap) list \<Rightarrow> int" where
  "planRows rows =
     (case rows of
        [] \<Rightarrow> - 1
      | row # _ \<Rightarrow>
          (case List.map_filter (\<lambda>(k, v). case v of JText plan \<Rightarrow> planLine plan | _ \<Rightarrow> None) row of [] \<Rightarrow> - 1 | n # _ \<Rightarrow> n))"

text \<open>The query that is counted: without page and order, and without grouping.\<close>

definition countedParams :: "QueryParams \<Rightarrow> QueryParams" where
  "countedParams qp =
     (let unpaged = qp\<lparr>qp_Limit := NoLimit, qp_Offset := 0, qp_Order := []\<rparr> in
      if list_ex IsAggSelectEntry (qp_Select qp) then unpaged\<lparr>qp_Select := [], qp_Having := None\<rparr> else unpaged)"

definition executeCount ::
    "'f decoders \<Rightarrow> ('db, 'tx, 'f) conn \<Rightarrow> string \<Rightarrow> Table \<Rightarrow> QueryParams \<Rightarrow> Table gmap \<Rightarrow> string \<Rightarrow> 'tx \<Rightarrow> (dbError + int) \<times> 'tx" where
  "executeCount dc cn tableName table qp allTbls mode tx =
     (if mode = ''estimated'' \<and> plainScan qp then
        queryCount dc cn ''SELECT reltuples::bigint AS count FROM pg_class WHERE oid = to_regclass($1)''
          [JText (EffectiveSchema table @ ''.'' @ tableName)] tx
      else
        let query = BuildSelectQueryFull tableName (countedParams qp) table allTbls; args = map JText (snd query) in
        if mode = ''exact'' then queryCount dc cn (''SELECT COUNT(*) AS count FROM ('' @ fst query @ '') AS _count'') args tx
        else if mode = ''planned'' \<or> mode = ''estimated'' then
          (case cn_query cn (''EXPLAIN '' @ fst query) args tx of
             (Inl e, tx') \<Rightarrow> (Inl e, tx') | (Inr rows, tx') \<Rightarrow> (Inr (planRows rows), tx'))
        else (Inr (- 1), tx))"

section \<open>handleList\<close>

datatype listError = ListParam pg_error | ListRange rangeError

fun ambiguousIn :: "pg_error \<Rightarrow> pg_error option" where
  "ambiguousIn (Errorf fmt args) = None"
| "ambiguousIn (Errorw fmt args e) = ambiguousIn e"
| "ambiguousIn (AmbiguousEmbedError p t d h) = Some (AmbiguousEmbedError p t d h)"

definition rangeErrorText :: "rangeError \<Rightarrow> string" where
  "rangeErrorText e =
     (case e of
        errNegativeLimit \<Rightarrow> ''Limit should be greater than or equal to zero.''
      | errLowerGTUpper \<Rightarrow> ''The lower boundary must be lower than or equal to the upper boundary in the Range header.'')"

definition writeRangeError :: "listError \<Rightarrow> 'f reply" where
  "writeRangeError err =
     (case err of
        ListRange e \<Rightarrow> errorReply (ApiError 416 ''PGRST103'' (plain ''Requested range not satisfiable'') (plain (rangeErrorText e)) noText)
      | ListParam e \<Rightarrow> (case ambiguousIn e of Some amb \<Rightarrow> okReply 300 (AmbiguousBody amb) | None \<Rightarrow> badRequest e))"

definition rangeNotSatisfiable :: "int \<Rightarrow> int \<Rightarrow> 'f reply" where
  "rangeNotSatisfiable offset tot = errorReply (ApiError 416 ''PGRST103'' (plain ''Requested range not satisfiable'')
     (''An offset of %d was requested, but there are only %d rows.'', [itoaInt offset, itoaInt tot]) noText)"

definition findGeometryColumn :: "Table \<Rightarrow> string" where
  "findGeometryColumn table =
     (case find (\<lambda>f. let t = toLower (fld_Type f) in
           t = ''geometry'' \<or> t = ''geography'' \<or> hasPrefix t ''geometry('' \<or> hasPrefix t ''geography('') (tbl_Fields table) of
        None \<Rightarrow> [] | Some f \<Rightarrow> fld_Name f)"

text \<open>The parameters of the query with its page and the row limits of the server.\<close>

definition listParams :: "Config \<Rightarrow> restRequest \<Rightarrow> string \<Rightarrow> Table \<Rightarrow> listError + QueryParams" where
  "listParams cfg rq tableName table =
     (case parseQueryParams (rq_query rq) tableName table (Some (allTables cfg)) of
        Inl e \<Rightarrow> Inl (ListParam e)
      | Inr qp \<Rightarrow>
          (case intersectRange (rq_method rq = ''GET'') (rq_range rq) (qp_Offset qp) (qp_Limit qp) (queryValue (rq_query rq) ''limit'' \<noteq> []) of
             Inl e \<Rightarrow> Inl (ListRange e)
           | Inr (offset, limit) \<Rightarrow>
               Inr (capParams (srv_MaxLimit (cfg_Server cfg)) (qp\<lparr>qp_Offset := offset, qp_Limit := limit\<rparr>))))"

definition planReply :: "planRequest \<Rightarrow> (('f jvalue) gmap) list \<Rightarrow> 'f reply" where
  "planReply plan rows =
     okReply 200
       (if pr_format plan = ''text'' then
          PlanText (planContentType plan) (map (\<lambda>r. case map_of r ''QUERY PLAN'' of Some (JText s) \<Rightarrow> s | _ \<Rightarrow> ''<nil>'') rows)
        else
          PlanJson (planContentType plan)
            (case rows of [] \<Rightarrow> JArray [] | r # _ \<Rightarrow> (case map_of r ''QUERY PLAN'' of Some v \<Rightarrow> v | None \<Rightarrow> JNull)))"

text \<open>The answer to a list request whose rows are read, in the order of the checks.\<close>

definition listReply ::
    "('f::linorder) decoders \<Rightarrow> bool \<Rightarrow> restRequest \<Rightarrow> Table \<Rightarrow> int \<Rightarrow> string list \<Rightarrow> (('f jvalue) gmap) list \<Rightarrow> int \<Rightarrow> 'f reply" where
  "listReply dc postgis rq table offset rows decoded tot =
     (let geo = (rq_accept rq = ''application/geo+json''); geomCol = findGeometryColumn table; n = length rows;
          status = rangeStatus offset n tot;
          r = (case rejectNonSingular dc rq (int n) of
             Some r \<Rightarrow> r
           | None \<Rightarrow>
               if geo \<and> geomCol = [] \<and> \<not> postgis then
                 errorReply (ApiError 404 ''42883'' (plain ''function st_asgeojson(record) does not exist'') noText
                   (plain ''No function matches the given name and argument types. You might need to add explicit type casts.''))
               else if geo \<and> geomCol = [] \<and> rows \<noteq> [] then
                 errorReply (ApiError 400 ''22023'' (plain ''geometry column is missing'') noText noText)
               else if status = 416 then rangeNotSatisfiable offset tot
               else if geo then
                 okReply status (FeatureBody (map (\<lambda>m. (case map_of m geomCol of Some g \<Rightarrow> g | None \<Rightarrow> JNull,
                   filter (\<lambda>(k, v). k \<noteq> geomCol) m)) decoded))
               else if singularAsked dc rq then okReply status (RowBody (hd rows))
               else if acceptsCSV (rq_accept rq) then okReply status (CsvBody decoded)
               else okReply status (RowsBody rows)) in
      r\<lparr>rp_range := Some (contentRange offset n tot)\<rparr>)"

definition explainList ::
    "('db, 'tx, 'f) conn \<Rightarrow> planRequest \<Rightarrow> string \<times> string list \<Rightarrow> 'tx \<Rightarrow> ('tx, 'f) ending" where
  "explainList cn plan query tx =
     (case fst (cn_query cn (explainSQL plan (fst query)) (map JText (snd query)) tx) of
        Inl e \<Rightarrow> Abandon (dbErrorReply e) | Inr rows \<Rightarrow> Abandon (planReply plan rows))"

definition readList ::
    "('f::linorder) decoders \<Rightarrow> ('db, 'tx, 'f) conn \<Rightarrow> bool \<Rightarrow> Config \<Rightarrow> restRequest \<Rightarrow> string \<Rightarrow> Table \<Rightarrow> QueryParams \<Rightarrow>
       string \<times> string list \<Rightarrow> 'tx \<Rightarrow> ('tx, 'f) ending" where
  "readList dc cn postgis cfg rq tableName table qp query tx =
     (case queryWireRaw cn (fst query) (map JText (snd query)) tx of
        (Inl e, tx1) \<Rightarrow> Abandon (dbErrorReply e)
      | (Inr rows, tx1) \<Rightarrow>
          (case (if rq_accept rq = ''application/geo+json'' \<or> acceptsCSV (rq_accept rq) then decodeWireRows dc rows else Inr []) of
             Inl e \<Rightarrow> Abandon (dbErrorReply e)
           | Inr decoded \<Rightarrow>
               (case (let mode = parseCountPrefer (joinPrefer (rq_prefer rq)) in
                      if mode = [] then (Inr (- 1), tx1) else executeCount dc cn tableName table qp (allTables cfg) mode tx1) of
                  (Inl e, tx2) \<Rightarrow> Abandon (dbErrorReply e)
                | (Inr tot, tx2) \<Rightarrow> Finish tx2 (listReply dc postgis rq table (qp_Offset qp) rows decoded tot))))"

definition notAcceptable :: "string \<Rightarrow> 'f reply" where
  "notAcceptable accept = errorReply (ApiError 406 ''PGRST107'' (plain (''None of these media types are available: '' @ accept)) noText noText)"

definition handleList ::
    "('f::linorder) decoders \<Rightarrow> ('db, 'tx, 'f) conn \<Rightarrow> bool \<Rightarrow> Config \<Rightarrow> bool \<Rightarrow> string \<Rightarrow> string option \<Rightarrow> restRequest \<Rightarrow> string \<Rightarrow> Table \<Rightarrow>
       'db \<Rightarrow> 'f reply \<times> 'db" where
  "handleList dc cn postgis cfg isAdmin setup schema rq tableName table db =
     (case enforceStrictPrefer (joinPrefer (rq_prefer rq)) of Some part \<Rightarrow> (strictReply part, db)
      | None \<Rightarrow>
        let plan = negotiatePlan (dc_floats dc) (rq_accept rq) in
        case (case plan of None \<Rightarrow> None
              | Some (p, planErr) \<Rightarrow>
                  if \<not> isAdmin \<or> planErr \<noteq> None then Some (notAcceptable (rq_accept rq))
                  else (case validatePlan p of
                    None \<Rightarrow> None
                  | Some e \<Rightarrow> Some (errorReply (ApiError 400 ''22023'' (plain ''EXPLAIN option WAL requires ANALYZE'') noText noText)))) of
          Some r \<Rightarrow> (r, db)
        | None \<Rightarrow>
            (case listParams cfg rq tableName table of
               Inl e \<Rightarrow> (writeRangeError e, db)
             | Inr qp \<Rightarrow>
                 let query = BuildSelectQueryFull tableName qp table (allTables cfg) in
                 withTx cn setup schema (\<lambda>tx.
                   case plan of
                     Some (p, planErr) \<Rightarrow> explainList cn p query tx
                   | None \<Rightarrow> readList dc cn postgis cfg rq tableName table qp query tx) db))"

section \<open>Routes\<close>

definition schemasOf :: "Config \<Rightarrow> string list" where
  "schemasOf cfg = filter (\<lambda>s. s \<noteq> ''public'') (map (\<lambda>(n, t). EffectiveSchema t) (cfg_Tables cfg))"

text \<open>The answer of \<open>apiKeyGuard\<close>.\<close>

definition apiKeyReply :: "nat \<times> string \<Rightarrow> 'f reply" where
  "apiKeyReply sc = errorReply (ApiError (fst sc) (snd sc)
     (plain (if snd sc = ''no_api_key'' then ''No API key found in request'' else ''Invalid API key'')) noText noText)"

definition profileReply :: "Config \<Rightarrow> string \<Rightarrow> 'f reply" where
  "profileReply cfg header = errorReply (ApiError 406 ''PGRST106''
     (plain (''The schema must be one of the following: '' @ strJoin (sort (remdups (''public'' # schemasOf cfg))) '', ''))
     (''Requested schema %q is not exposed'', [header]) noText)"

definition guardReply :: "guardError \<Rightarrow> 'f reply" where
  "guardReply g =
     (case g of
        GuardRange e \<Rightarrow> writeRangeError (ListRange e)
      | GuardPut \<Rightarrow> errorReply (ApiError 400 ''PGRST114'' (plain ''limit/offset querystring parameters are not allowed for PUT'') noText noText))"

text \<open>The setup text of the transactions of a request, with the timeout of \<open>statementTimeout\<close>.\<close>

definition requestSetup :: "('db, 'tx, 'f) restServer \<Rightarrow> restRequest \<Rightarrow> Session \<Rightarrow> string" where
  "requestSetup srv rq s =
     buildSessionSetup (Some s) (Some (rs_roles srv))
       (dbTimeout (to_DBQuery (srv_Timeouts (cfg_Server (rs_cfg srv)))) (joinPrefer (rq_prefer rq))) (rq_requestId rq)"

definition reading :: "restRequest \<Rightarrow> bool" where
  "reading rq \<longleftrightarrow> rq_method rq = ''GET'' \<or> rq_method rq = ''HEAD''"

definition serveTable :: "('db, 'tx, 'f::linorder) restServer \<Rightarrow> restRequest \<Rightarrow> 'db \<Rightarrow> 'f reply \<times> 'db" where
  "serveTable srv rq db =
     (let dc = rs_dec srv; cn = rs_conn srv; cfg = rs_cfg srv in
      case profileHeaderGuard (schemasOf cfg) (rq_method rq) (rq_acceptProfile rq) (rq_contentProfile rq) of
        None \<Rightarrow> (profileReply cfg (if reading rq then rq_acceptProfile rq else rq_contentProfile rq), db)
      | Some schema \<Rightarrow>
      case apiKeyGuard (rs_keys srv) (rq_apikey rq) of Some sc \<Rightarrow> (apiKeyReply sc, db)
      | None \<Rightarrow>
      case (if reading rq then None else rejectPlan (rq_accept rq)) of Some e \<Rightarrow> (errorReply e, db)
      | None \<Rightarrow>
      case jwtAuth (rs_verify srv) (rs_keys srv) False (rq_apikey rq) (rq_authorization rq) of
        Refused st kind msg \<Rightarrow> (problemJSON st kind (plain msg), db)
      | Admitted s isAdmin \<Rightarrow>
      case (if reading rq then None
            else rangeGuard (rq_method rq) (rq_range rq) (queryValue (rq_query rq) ''limit'') (queryValue (rq_query rq) ''offset'')) of
        Some g \<Rightarrow> (guardReply g, db)
      | None \<Rightarrow>
      case map_of (cfg_Tables cfg) (rq_table rq) of None \<Rightarrow> (okReply 404 (TextBody ''404 page not found''), db)
      | Some table \<Rightarrow>
          let setup = requestSetup srv rq s; m = rq_method rq in
          if reading rq then handleList dc cn (rs_postgis srv) cfg isAdmin setup schema rq (rq_table rq) table db
          else if m = ''POST'' then handleCreate dc cn setup schema rq (rq_table rq) table db
          else if m = ''PUT'' then handleUpsert dc cn setup schema rq (rq_table rq) table db
          else if m = ''PATCH'' then handleUpdate dc cn setup schema rq (rq_table rq) table db
          else if m = ''DELETE'' then handleDelete dc cn setup schema rq (rq_table rq) table db
          else (okReply 404 (TextBody ''404 page not found''), db))"

end
