(* ===== verification/Rpc_Call.thy ===== *)
theory Rpc_Call
  imports Config_Validate Rest_List
begin

text \<open>
  Calls of SQL functions (\<open>internal/adapter/http/rpc_handler.go\<close>): the arguments, the call with its placeholders, and the chain of
  filters, embeds, order and page that is applied to a set of rows.
\<close>

section \<open>Arguments\<close>

datatype rpcArgsError = MissingArgs "string list" | BadArgs string "string list"

definition missingText :: "string list \<Rightarrow> message" where
  "missingText names =
     (if length names = 1 then ''missing required argument %q'' else ''missing required arguments: '' @ strJoin (map (\<lambda>n. ''%q'') names) '', '', names)"

definition missingHint :: "string list \<Rightarrow> message" where
  "missingHint names =
     (if length names = 1 then (''argument %s has no default'', names)
      else (''arguments %s have no default'', [strJoin names '', '']))"

text \<open>\<open>c.GetHeader("Prefer")\<close> is the first of several header lines. The texts of library errors are left out of the messages.\<close>

definition rpcNumber :: "'f decoders \<Rightarrow> 'f jvalue \<Rightarrow> 'f jvalue" where
  "rpcNumber dc v = (case v of JFloat f \<Rightarrow> (case dc_whole dc f of Some n \<Rightarrow> JInt n | None \<Rightarrow> v) | _ \<Rightarrow> v)"

definition rpcRawArgs :: "'f decoders \<Rightarrow> restRequest \<Rightarrow> Function \<Rightarrow> rpcArgsError + ('f jvalue) gmap" where
  "rpcRawArgs dc rq fn =
     (if reading rq then
        Inr (List.map_filter (\<lambda>a. case map_of (rq_query rq) (arg_Name a) of
            Some (v # vs) \<Rightarrow> Some (arg_Name a, JText v) | _ \<Rightarrow> None) (fn_Args fn))
      else case rq_body rq of
        None \<Rightarrow> Inl (BadArgs ''reading body'' [])
      | Some body \<Rightarrow>
          if body = [] then Inr []
          else (case dc_record dc body of None \<Rightarrow> Inl (BadArgs ''invalid JSON body'' []) | Some m \<Rightarrow> Inr m))"

definition collectRPCArgs ::
    "'f decoders \<Rightarrow> restRequest \<Rightarrow> string \<Rightarrow> Function \<Rightarrow> rpcArgsError + ('f jvalue) gmap" where
  "collectRPCArgs dc rq fnName fn =
     (if strContains (case rq_prefer rq of [] \<Rightarrow> [] | p # _ \<Rightarrow> p) ''params=single-object'' then
        (case fn_Args fn of
           [a] \<Rightarrow>
             if rq_method rq \<noteq> ''POST'' then Inl (BadArgs ''params=single-object requires POST'' [])
             else (case rq_body rq of None \<Rightarrow> Inl (BadArgs ''reading body'' []) | Some body \<Rightarrow> Inr [(arg_Name a, JText body)])
         | _ \<Rightarrow> Inl (BadArgs ''params=single-object requires the function to have exactly one argument'' []))
      else case rpcRawArgs dc rq fn of
        Inl e \<Rightarrow> Inl e
      | Inr raw \<Rightarrow>
          (case find (\<lambda>(k, v). k \<notin> arg_Name ` set (fn_Args fn)) raw of
             Some (k, v) \<Rightarrow> Inl (BadArgs ''unknown argument %q for function %s'' [k, fnName])
           | None \<Rightarrow>
               let out = map (\<lambda>(k, v). (k, rpcNumber dc v)) raw;
                   missing = map arg_Name (filter (\<lambda>a. arg_Required a \<and> \<not> mapHas out (arg_Name a)) (fn_Args fn)) in
               if missing \<noteq> [] then Inl (MissingArgs missing) else Inr out))"

section \<open>The call\<close>

fun rpcParts :: "FuncArg list \<Rightarrow> 'v gmap \<Rightarrow> nat \<Rightarrow> string list \<times> 'v list" where
  "rpcParts [] callArgs idx = ([], [])"
| "rpcParts (a # as) callArgs idx =
     (case map_of callArgs (arg_Name a) of
        None \<Rightarrow> rpcParts as callArgs idx
      | Some v \<Rightarrow>
          (let (parts, args) = rpcParts as callArgs (idx + 1) in
           (([CHR 0x22] @ arg_Name a @ [CHR 0x22] @ '' => '' @ ph idx) # parts, v # args)))"

definition buildRPCCall :: "string \<Rightarrow> Function \<Rightarrow> 'v gmap \<Rightarrow> string \<times> 'v list" where
  "buildRPCCall name fn callArgs =
     (let (parts, args) = rpcParts (fn_Args fn) callArgs 1; q = [CHR 0x22]; inner = strJoin parts '', '' in
      (if fn_ReturnCategory fn = ''setof'' then ''SELECT * FROM public.'' @ q @ name @ q @ ''('' @ inner @ '')''
       else ''SELECT public.'' @ q @ name @ q @ ''('' @ inner @ '') AS '' @ q @ name @ q, args))"

section \<open>The type of the rows\<close>

definition parseSetofTarget :: "string \<Rightarrow> string" where
  "parseSetofTarget raw =
     (let t0 = trimSpace (toLower raw) in
      if \<not> hasPrefix t0 ''setof '' then []
      else let t = trimQuotes (trimPrefix (trimSpace (trimPrefix t0 ''setof '')) ''public.'') in
        if t = [] \<or> list_ex (\<lambda>c. c \<in> set ''() ,'') t then [] else t)"

definition resolveRPCTargetTable :: "Config \<Rightarrow> Function \<Rightarrow> Table option" where
  "resolveRPCTargetTable cfg fn =
     (let target = parseSetofTarget (fr_Type (fn_Returns fn)) in
      if target = [] then None
      else case map_of (cfg_Tables cfg) target of Some t \<Rightarrow> Some t | None \<Rightarrow> map_of (allTables cfg) target)"

text \<open>The columns of \<open>table(col type, ...)\<close>; \<open>None\<close> when the text is none.\<close>

definition rpcColumn :: "string \<Rightarrow> Field option" where
  "rpcColumn col =
     (case strFields [] col of
        n # t # ts \<Rightarrow> if identRe n then Some (zeroField\<lparr>fld_Name := toLower n, fld_Type := strJoin (t # ts) '' ''\<rparr>) else None
      | _ \<Rightarrow> None)"

definition rpcTableShape :: "string \<Rightarrow> Table option" where
  "rpcTableShape raw =
     (let t = trimSpace raw; lower = toLower t in
      if \<not> hasPrefix lower ''table'' \<or> \<not> hasSuffix t '')'' then None
      else case strIndex t ''('' of
        None \<Rightarrow> None
      | Some i \<Rightarrow>
          if trimSpace (take (i - 5) (drop 5 lower)) \<noteq> [] then None
          else (case splitTopLevel (butlast (drop (i + 1) t)) (CHR '','') of
              Inl e \<Rightarrow> None
            | Inr cols \<Rightarrow>
                if list_ex (\<lambda>c. rpcColumn c = None) cols then None
                else Some (zeroTable\<lparr>tbl_Fields := List.map_filter rpcColumn cols\<rparr>)))"

section \<open>The chain\<close>

record rpcChain =
  rc_where :: "WhereNode option"
  rc_having :: "WhereNode option"
  rc_groupBy :: "string list"
  rc_items :: "SelectItem list"
  rc_embeds :: "Embed list"
  rc_order :: "OrderClause list"
  rc_hasLimit :: bool
  rc_limit :: int
  rc_hasOffset :: bool
  rc_offset :: int
  rc_extraCols :: string

definition rpcItemError :: "Table option \<Rightarrow> ColValidator \<Rightarrow> SelectItem \<Rightarrow> pg_error option" where
  "rpcItemError declared valid item =
     (case declared of
        Some table \<Rightarrow> map_option (Errorw ''invalid select item: %w'' []) (ValidateSelectItem table item)
      | None \<Rightarrow>
          (case (if si_Col item \<noteq> [] then map_option (Errorw ''invalid select item: %w'' []) (valid (si_Col item))
                 else if si_Agg item \<noteq> ''count'' then Some (Errorf ''aggregate %q requires a column'' [si_Agg item]) else None) of
             Some e \<Rightarrow> Some e
           | None \<Rightarrow>
               if si_Alias item \<noteq> [] \<and> \<not> identRe (si_Alias item) then Some (Errorf ''invalid alias %q'' [si_Alias item])
               else if si_Cast item \<noteq> [] \<and> \<not> identRe (si_Cast item) then Some (Errorf ''invalid cast %q'' [si_Cast item])
               else None))"

text \<open>The loop over the entries of the select list, with the items and the embeds so far. A star ends it.\<close>

fun rpcSelect :: "Table option \<Rightarrow> bool \<Rightarrow> ColValidator \<Rightarrow> string list \<Rightarrow> SelectItem list \<Rightarrow> string list \<Rightarrow>
    pg_error + (SelectItem list \<times> string list)" where
  "rpcSelect declared targetFound valid [] items embeds = Inr (items, embeds)"
| "rpcSelect declared targetFound valid (raw # entries) items embeds =
     (if raw = [] then rpcSelect declared targetFound valid entries items embeds
      else if isEmbedEntry raw then
        (if \<not> targetFound then Inl (Errorf ''embeds are not supported on RPC results returning unknown tables'' [])
         else rpcSelect declared targetFound valid entries items (embeds @ [raw]))
      else if si_Col (ParseSelectItem raw) = ''*'' then Inr ([], embeds)
      else case rpcItemError declared valid (ParseSelectItem raw) of
        Some e \<Rightarrow> Inl e
      | None \<Rightarrow> rpcSelect declared targetFound valid entries (items @ [ParseSelectItem raw]) embeds)"

definition aggregated :: "SelectItem list \<Rightarrow> bool" where
  "aggregated items = list_ex (\<lambda>it. si_Agg it \<noteq> []) items"

definition rpcGroupBy :: "SelectItem list \<Rightarrow> nat \<Rightarrow> string list" where
  "rpcGroupBy items embeds =
     (if aggregated items then
        map (RenderSelectItemGroupByExpr ''_rpc'') (filter (\<lambda>it. si_Agg it = []) items) @
        map (\<lambda>k. itoa (length items + k + 1)) [0..<embeds]
      else [])"

text \<open>The aggregates of the select list, as texts again, for the aliases of HAVING.\<close>

definition havingSelect :: "SelectItem list \<Rightarrow> string list" where
  "havingSelect items =
     map (\<lambda>it. (if si_Alias it \<noteq> [] then si_Alias it @ '':'' else []) @
         (if si_Col it \<noteq> [] then si_Col it @ ''.'' else []) @ si_Agg it @ ''()'')
       (filter (\<lambda>it. si_Agg it \<noteq> []) items)"

definition paramE :: "pg_error + 'a \<Rightarrow> listError + 'a" where
  "paramE r = (case r of Inl e \<Rightarrow> Inl (ListParam e) | Inr x \<Rightarrow> Inr x)"

definition parseRPCChain :: "Config \<Rightarrow> restRequest \<Rightarrow> Function \<Rightarrow> listError + rpcChain" where
  "parseRPCChain cfg rq fn =
     (let typ = fr_Type (fn_Returns fn); target = parseSetofTarget typ; found = resolveRPCTargetTable cfg fn;
          declared = (case found of Some t \<Rightarrow> Some t | None \<Rightarrow> rpcTableShape typ);
          table = (case declared of Some t \<Rightarrow> t | None \<Rightarrow> zeroTable);
          valid = (case declared of Some t \<Rightarrow> ValidateColumn t | None \<Rightarrow> ValidateIdentPath);
          q = queryValue (rq_query rq);
          entries = (if q ''select'' = [] then [] else ParseSelectParam (q ''select'')) in
      bindE (paramE (case CheckStarWithAggregate entries of Some e \<Rightarrow> Inl e | None \<Rightarrow> rpcSelect declared (found \<noteq> None) valid entries [] []))
        (\<lambda>(items, embedParams).
      bindE (paramE (if embedParams = [] then Inr []
               else case ResolveEmbeds target table embedParams (allTables cfg) of
                      Inl e \<Rightarrow> Inl (Errorw ''invalid embed: %w'' [] e) | Inr es \<Rightarrow> Inr es)) (\<lambda>embeds.
      bindE (paramE (ParseWhereWith (rq_query rq) valid [] (map arg_Name (fn_Args fn)))) (\<lambda>wh.
      bindE (paramE (if q ''having'' = [] then Inr None
               else case ParseHavingParam (q ''having'') ''_rpc'' table (havingSelect items) of
                      Inl e \<Rightarrow> Inl (Errorw ''invalid having: %w'' [] e) | Inr h \<Rightarrow> Inr h)) (\<lambda>having.
      bindE (paramE (if q ''order'' = [] then Inr []
               else case ParseOrderValueWith (q ''order'') valid of
                      Inl e \<Rightarrow> Inl (Errorw ''invalid order: %w'' [] e) | Inr ocs \<Rightarrow> Inr ocs)) (\<lambda>order.
      bindE (paramE (parseInt ''limit'' (q ''limit'') 0)) (\<lambda>limit0.
      bindE (paramE (parseInt ''offset'' (q ''offset'') 0)) (\<lambda>offset0.
      bindE (case intersectRange (rq_method rq = ''GET'') (rq_range rq) offset0 limit0 (q ''limit'' \<noteq> []) of
               Inl e \<Rightarrow> Inl (ListRange e) | Inr p \<Rightarrow> Inr p) (\<lambda>(offset, limit).
      let maxRows = srv_MaxLimit (cfg_Server cfg); capped = (0 < maxRows \<and> (limit < 0 \<or> maxRows < limit)) in
      Inr \<lparr>rc_where = wh, rc_having = having, rc_groupBy = rpcGroupBy items (length embeds), rc_items = items, rc_embeds = embeds,
           rc_order = order, rc_hasLimit = (0 \<le> limit \<or> capped), rc_limit = (if capped then maxRows else limit),
           rc_hasOffset = (q ''offset'' \<noteq> [] \<or> 0 < offset), rc_offset = offset, rc_extraCols = []\<rparr>)))))))))"

section \<open>The SQL of a chain\<close>

text \<open>A WHERE or HAVING clause that renders to nothing leaves no trace.\<close>

definition clauseSQL :: "WhereNode option \<Rightarrow> nat \<Rightarrow> string list \<times> string list \<times> nat" where
  "clauseSQL n i = (let (sql, args, next) = BuildSQL n i in if sql = [] then ([], [], i) else ([sql], args, next))"

definition renderRPCChain :: "rpcChain \<Rightarrow> nat \<Rightarrow> string \<times> 'f jvalue list" where
  "renderRPCChain chain argIdx =
     (let (conds, whereArgs, n1) = clauseSQL (rc_where chain) argIdx;
          (existsParts, existsArgs, n2) = InnerExistsClauses (rc_embeds chain) ''_rpc'' n1;
          (having, havingArgs, n3) = clauseSQL (rc_having chain) n2;
          n4 = (if rc_hasLimit chain then n3 + 1 else n3) in
      ((if conds @ existsParts \<noteq> [] then '' WHERE '' @ strJoin (conds @ existsParts) '' AND '' else []) @
       (if rc_groupBy chain \<noteq> [] then '' GROUP BY '' @ strJoin (rc_groupBy chain) '', '' else []) @
       (if having \<noteq> [] then '' HAVING '' @ hd having else []) @
       (if rc_order chain \<noteq> [] then '' ORDER BY '' @ RenderOrderBy (rc_order chain) else []) @
       (if rc_hasLimit chain then '' LIMIT '' @ ph n3 else []) @
       (if rc_hasOffset chain then '' OFFSET '' @ ph n4 else []),
       map JText (whereArgs @ existsArgs @ havingArgs) @
       (if rc_hasLimit chain then [JInt (rc_limit chain)] else []) @ (if rc_hasOffset chain then [JInt (rc_offset chain)] else [])))"

definition jsonbIfAgg :: "bool \<Rightarrow> string \<Rightarrow> string" where
  "jsonbIfAgg agg expr = (if agg then ''('' @ expr @ '')::jsonb'' else expr)"

text \<open>A to-many embed of a call; the tables are not passed on.\<close>

definition rpcToMany :: "bool \<Rightarrow> Embed \<Rightarrow> nat \<Rightarrow> string \<times> string list \<times> nat" where
  "rpcToMany agg e idx =
     (let i = em_info e; (rowExpr, rowArgs, n1) = BuildEmbedRowExpr e (em_RefTable i) [] idx; (wh, order) = ToManyScope i;
          (clause, clauseArgs, n2) = andClause (BuildSQL wh) n1 in
      (jsonbIfAgg agg (''(SELECT coalesce(json_agg('' @ rowExpr @ orderSuffix order @ ''), '' @ quote1 ''[]'' @ ''::json) FROM '' @
         ToManyFrom i ''_rpc'' @ clause @ numSuffix '' LIMIT '' (em_Limit i) @ numSuffix '' OFFSET '' (em_Offset i) @ '')'') @
         '' AS '' @ OutputKey i, rowArgs @ clauseArgs, n2))"

definition rpcToOne :: "bool \<Rightarrow> Embed \<Rightarrow> string" where
  "rpcToOne agg e =
     (let i = em_info e; alias = embedAlias i in
      jsonbIfAgg agg
        (if em_Columns i = [] then ''row_to_json('' @ alias @ ''.*)''
         else NullIfNoMatch alias (em_RefColumn i) (''json_build_object('' @ strJoin (map (colEntry alias) (em_Columns i)) '', '' @ '')'')) @
      '' AS '' @ OutputKey i)"

definition rpcEmbedPart :: "bool \<Rightarrow> Embed \<Rightarrow> nat \<Rightarrow> string \<times> string list \<times> nat" where
  "rpcEmbedPart agg e idx = (if em_IsReverse (em_info e) then rpcToMany agg e idx else (rpcToOne agg e, [], idx))"

definition rpcJoin :: "Embed \<Rightarrow> string" where
  "rpcJoin e =
     (let i = em_info e in
      (if em_Inner i then ''INNER JOIN'' else ''LEFT JOIN'') @ '' '' @ em_RefTable i @ '' AS '' @ embedAlias i @ '' ON _rpc.'' @
      em_FKColumn i @ '' = '' @ embedAlias i @ ''.'' @ em_RefColumn i)"

definition aliasChain :: "rpcChain \<Rightarrow> rpcChain" where
  "aliasChain chain =
     (if HasBelongsToJoin (rc_embeds chain) then chain\<lparr>rc_where := AliasWhereColumns (rc_where chain) ''_rpc''\<rparr> else chain)"

definition wrapRPCCallForChain :: "string \<Rightarrow> rpcChain \<Rightarrow> nat \<Rightarrow> string \<times> 'f jvalue list" where
  "wrapRPCCallForChain callSQL chain baseArgIdx =
     (let (suffix, suffixArgs) = (renderRPCChain (aliasChain chain) baseArgIdx :: string \<times> 'f jvalue list);
          embeds = rc_embeds chain; agg = aggregated (rc_items chain);
          projection = (if rc_items chain \<noteq> [] then strJoin (map (RenderSelectItem ''_rpc'') (rc_items chain)) '', '' else ''*'') in
      if suffix = [] \<and> projection = ''*'' \<and> embeds = [] \<and> rc_extraCols chain = [] then (callSQL, [])
      else
        let (parts, embedArgs, n) = threadArgs (rpcEmbedPart agg) embeds (baseArgIdx + length suffixArgs);
            star = (if projection = ''*'' \<and> (parts \<noteq> [] \<or> rc_extraCols chain \<noteq> []) then ''_rpc.*'' else projection);
            cols = star @ concat (map (\<lambda>p. '', '' @ p) parts) @ (if rc_extraCols chain \<noteq> [] then '', '' @ rc_extraCols chain else []) in
        (''SELECT '' @ cols @ '' FROM ('' @ callSQL @ '') AS _rpc'' @
         concat (map (\<lambda>e. '' '' @ rpcJoin e) (filter (\<lambda>e. \<not> em_IsReverse (em_info e)) embeds)) @ suffix, map JText embedArgs))"

end
