(* ===== verification/Rpc_Handler.thy ===== *)
theory Rpc_Handler
  imports Rpc_Call
begin

text \<open>
  The handler of calls (\<open>handleRPC\<close> in \<open>internal/adapter/http/rpc_handler.go\<close>): what is refused before the database is
  asked, the transaction of a call by the kind of its result, the total of a set of rows, and the routes.
\<close>

section \<open>The total of a set\<close>

text \<open>The source a count runs over: the joins and filters of the page, without grouping, order and page.\<close>

definition countChain :: "rpcChain \<Rightarrow> WhereNode option \<Rightarrow> rpcChain" where
  "countChain chain wh =
     \<lparr>rc_where = wh, rc_having = None, rc_groupBy = [], rc_items = [], rc_embeds = rc_embeds chain, rc_order = [], rc_hasLimit = False,
      rc_limit = 0, rc_hasOffset = False, rc_offset = 0, rc_extraCols = []\<rparr>"

definition rpcCountFrom :: "string \<Rightarrow> rpcChain \<Rightarrow> nat \<Rightarrow> string \<times> 'f jvalue list" where
  "rpcCountFrom source chain argIdx =
     (let joins = concat (map (\<lambda>e. '' '' @ rpcJoin e) (filter (\<lambda>e. \<not> em_IsReverse (em_info e) \<and> em_Inner (em_info e)) (rc_embeds chain)));
          wh = (if joins \<noteq> [] then AliasWhereColumns (rc_where chain) ''_rpc'' else rc_where chain);
          (suffix, args) = renderRPCChain (countChain chain wh) argIdx in
      ('' FROM '' @ source @ '' AS _rpc'' @ joins @ suffix, args))"

definition rpcWindow :: "OrderClause list \<Rightarrow> string" where
  "rpcWindow order =
     (if order \<noteq> [] \<and> \<not> list_ex oc_IsAlias order
      then ''row_number() OVER (ORDER BY '' @ RenderOrderBy (QualifyOrderColumns order ''_rpc'') @ '')'' else ''row_number() OVER ()'')"

definition buildRPCCountedQuery :: "string \<Rightarrow> rpcChain \<Rightarrow> nat \<Rightarrow> string" where
  "buildRPCCountedQuery callSQL chain baseArgIdx =
     (let paged = chain\<lparr>rc_extraCols := ''true AS __inz_row, '' @ rpcWindow (rc_order chain) @ '' AS __inz_rn''\<rparr>;
          data = fst (wrapRPCCallForChain ''SELECT * FROM __inz_src'' paged baseArgIdx :: string \<times> unit jvalue list);
          source = fst (rpcCountFrom ''__inz_src'' chain baseArgIdx :: string \<times> unit jvalue list) in
      ''WITH __inz_src AS MATERIALIZED ('' @ callSQL @ '') '' @
      ''SELECT _p.*, _t.__inz_total FROM (SELECT count(*) AS __inz_total'' @ source @ '') _t '' @
      ''LEFT JOIN ('' @ data @ '') _p ON true ORDER BY _p.__inz_rn'')"

definition rpcHelperColumns :: "string list" where
  "rpcHelperColumns = [''__inz_total'', ''__inz_row'', ''__inz_rn'']"

definition splitRPCTotal :: "(('f jvalue) gmap) list \<Rightarrow> (('f jvalue) gmap) list \<times> int" where
  "splitRPCTotal rows =
     (map (filter (\<lambda>(k, v). k \<notin> set rpcHelperColumns))
        (filter (\<lambda>r. case map_of r ''__inz_row'' of None \<Rightarrow> False | Some JNull \<Rightarrow> False | Some v \<Rightarrow> True) rows),
      fold (\<lambda>r tot. case map_of r ''__inz_total'' of
          Some (JInt n) \<Rightarrow> if minInt \<le> n \<and> n \<le> maxInt then n else tot | _ \<Rightarrow> tot) rows (- 1))"

definition executeRPCPlannedCount ::
    "('db, 'tx, 'f) conn \<Rightarrow> string \<Rightarrow> 'f jvalue list \<Rightarrow> rpcChain \<Rightarrow> 'tx \<Rightarrow> (dbError + int) \<times> 'tx" where
  "executeRPCPlannedCount cn callSQL callVals chain tx =
     (let (source, whereArgs) = rpcCountFrom (''('' @ callSQL @ '')'') chain (length callVals + 1) in
      case cn_query cn (''EXPLAIN SELECT 1'' @ source) (callVals @ whereArgs) tx of
        (Inl e, tx') \<Rightarrow> (Inl e, tx')
      | (Inr rows, tx') \<Rightarrow> (Inr (planRows rows), tx'))"

section \<open>Results\<close>

text \<open>The rows of a set as the wire has them, or decoded and without the helper columns of a count.\<close>

datatype 'f rpcRows = WireRows "string list" | CountedRows "(('f jvalue) gmap) list"

fun rowCount :: "'f rpcRows \<Rightarrow> nat" where
  "rowCount (WireRows rows) = length rows"
| "rowCount (CountedRows rows) = length rows"

fun rowsBody :: "'f rpcRows \<Rightarrow> 'f body" where
  "rowsBody (WireRows rows) = RowsBody rows"
| "rowsBody (CountedRows rows) = ValueBody (JArray (map JObject rows))"

fun firstBody :: "'f rpcRows \<Rightarrow> 'f body" where
  "firstBody (WireRows rows) = RowBody (hd rows)"
| "firstBody (CountedRows rows) = ValueBody (JObject (hd rows))"

definition setofReply :: "('f::linorder) decoders \<Rightarrow> restRequest \<Rightarrow> int \<Rightarrow> 'f rpcRows \<Rightarrow> int \<Rightarrow> 'f reply" where
  "setofReply dc rq offset rows tot =
     (let n = rowCount rows; status = rangeStatus offset n tot;
          r = (case rejectNonSingular dc rq (int n) of
             Some r \<Rightarrow> r
           | None \<Rightarrow>
               if status = 416 then rangeNotSatisfiable offset tot
               else okReply status (if singularAsked dc rq then firstBody rows else rowsBody rows)) in
      r\<lparr>rp_range := Some (contentRange offset n tot)\<rparr>)"

definition scalarReply :: "string \<Rightarrow> (('f jvalue) gmap) list \<Rightarrow> 'f reply" where
  "scalarReply name rows =
     okReply 200 (ValueBody (case rows of
         [] \<Rightarrow> JNull
       | row # _ \<Rightarrow> (case map_of row name of Some v \<Rightarrow> (if length row = 1 then v else JObject row) | None \<Rightarrow> JObject row)))"

section \<open>The transaction of a call\<close>

definition isVolatile :: "Function \<Rightarrow> bool" where
  "isVolatile fn = equalFold (fn_Volatility fn) ''volatile''"

definition readOnlyPin :: string where
  "readOnlyPin = ''SET LOCAL transaction_read_only = on''"

definition voidWork :: "('db, 'tx, 'f) conn \<Rightarrow> string \<Rightarrow> 'f jvalue list \<Rightarrow> 'tx \<Rightarrow> ('tx, 'f) ending" where
  "voidWork cn sql args tx =
     (case cn_exec cn sql args tx of (Inl e, tx') \<Rightarrow> Abandon (dbErrorReply e) | (Inr n, tx') \<Rightarrow> Finish tx' (okReply 204 NoBody))"

definition scalarWork ::
    "'f decoders \<Rightarrow> ('db, 'tx, 'f) conn \<Rightarrow> string \<Rightarrow> string \<Rightarrow> 'f jvalue list \<Rightarrow> 'tx \<Rightarrow> ('tx, 'f) ending" where
  "scalarWork dc cn name sql args tx =
     (case queryWireRaw cn sql args tx of
        (Inl e, tx') \<Rightarrow> Abandon (dbErrorReply e)
      | (Inr raw, tx') \<Rightarrow>
          (case decodeWireRows dc raw of Inl e \<Rightarrow> Abandon (dbErrorReply e) | Inr rows \<Rightarrow> Finish tx' (scalarReply name rows)))"

text \<open>The rows of a set with their total, negative when none was asked for.\<close>

definition rpcTotal ::
    "'f decoders \<Rightarrow> ('db, 'tx, 'f) conn \<Rightarrow> string \<Rightarrow> string \<Rightarrow> 'f jvalue list \<Rightarrow> rpcChain \<Rightarrow> string list \<Rightarrow> 'tx \<Rightarrow>
       (dbError + ('f rpcRows \<times> int)) \<times> 'tx" where
  "rpcTotal dc cn mode callSQL callVals chain raw tx =
     (if mode = ''exact'' then
        ((case decodeWireRows dc raw of
            Inl e \<Rightarrow> Inl e | Inr decoded \<Rightarrow> (let (kept, tot) = splitRPCTotal decoded in Inr (CountedRows kept, tot))), tx)
      else if mode = ''planned'' \<or> mode = ''estimated'' then
        (case executeRPCPlannedCount cn callSQL callVals chain tx of
           (Inl e, tx') \<Rightarrow> (Inl e, tx') | (Inr tot, tx') \<Rightarrow> (Inr (WireRows raw, tot), tx'))
      else (Inr (WireRows raw, - 1), tx))"

definition setofQuery :: "string \<Rightarrow> string \<Rightarrow> 'f jvalue list \<Rightarrow> rpcChain \<Rightarrow> string \<times> 'f jvalue list" where
  "setofQuery mode callSQL callVals chain =
     (let base = length callVals + 1; (sql, embedArgs) = wrapRPCCallForChain callSQL chain base in
      (if mode = ''exact'' then buildRPCCountedQuery callSQL chain base else sql,
       callVals @ snd (renderRPCChain chain base) @ embedArgs))"

definition setofWork ::
    "('f::linorder) decoders \<Rightarrow> ('db, 'tx, 'f) conn \<Rightarrow> restRequest \<Rightarrow> string \<Rightarrow> 'f jvalue list \<Rightarrow> rpcChain \<Rightarrow> 'tx \<Rightarrow> ('tx, 'f) ending" where
  "setofWork dc cn rq callSQL callVals chain tx =
     (let mode = parseCountPrefer (joinPrefer (rq_prefer rq)); (sql, args) = setofQuery mode callSQL callVals chain in
      case queryWireRaw cn sql args tx of
        (Inl e, tx1) \<Rightarrow> Abandon (dbErrorReply e)
      | (Inr raw, tx1) \<Rightarrow>
          (case rpcTotal dc cn mode callSQL callVals chain raw tx1 of
             (Inl e, tx2) \<Rightarrow> Abandon (dbErrorReply e)
           | (Inr (rows, tot), tx2) \<Rightarrow> Finish tx2 (setofReply dc rq (rc_offset chain) rows tot)))"

text \<open>A call of a function that is not volatile runs in a transaction that is made read-only first.\<close>

definition callWork ::
    "('f::linorder) decoders \<Rightarrow> ('db, 'tx, 'f) conn \<Rightarrow> restRequest \<Rightarrow> string \<Rightarrow> Function \<Rightarrow> string \<Rightarrow> 'f jvalue list \<Rightarrow> rpcChain option \<Rightarrow>
       'tx \<Rightarrow> ('tx, 'f) ending" where
  "callWork dc cn rq name fn callSQL callVals chain tx =
     (let work = (case chain of
          Some ch \<Rightarrow> setofWork dc cn rq callSQL callVals ch
        | None \<Rightarrow> if fn_ReturnCategory fn = ''void'' then voidWork cn callSQL callVals else scalarWork dc cn name callSQL callVals) in
      if isVolatile fn then work tx
      else case cn_exec cn readOnlyPin [] tx of
        (Inl e, tx') \<Rightarrow> Abandon (problemJSON 500 ''internal'' (plain ''Failed to enter read-only mode''))
      | (Inr n, tx') \<Rightarrow> work tx')"

section \<open>handleRPC\<close>

definition unknownFunction :: "string \<Rightarrow> message \<Rightarrow> message \<Rightarrow> 'f reply" where
  "unknownFunction name detail hint =
     errorReply (ApiError 404 ''PGRST202'' (''Could not find the function public.%s in the schema cache'', [name]) detail hint)"

definition handleRPC ::
    "('f::linorder) decoders \<Rightarrow> ('db, 'tx, 'f) conn \<Rightarrow> Config \<Rightarrow> Session \<Rightarrow> bool \<Rightarrow> string \<Rightarrow> restRequest \<Rightarrow> string \<Rightarrow> 'db \<Rightarrow> 'f reply \<times> 'db" where
  "handleRPC dc cn cfg s isAdmin setup rq name db =
     (case map_of (cfg_RPC cfg) name of None \<Rightarrow> (unknownFunction name noText noText, db)
      | Some fn \<Rightarrow>
      if reading rq \<and> isVolatile fn then
        (errorReply (ApiError 405 ''PGRST102'' (plain ''Volatile functions must be called with POST'') noText noText), db)
      else if fn_AuthRequired fn \<and> \<not> ses_IsAuthenticated s \<and> \<not> isAdmin then
        (problemJSON 401 ''unauthorized'' (plain ''This function requires authentication''), db)
      else case collectRPCArgs dc rq name fn of
        Inl (MissingArgs names) \<Rightarrow> (unknownFunction name (missingText names) (missingHint names), db)
      | Inl (BadArgs msg args) \<Rightarrow> (problemJSON 400 ''bad_request'' (msg, args), db)
      | Inr callArgs \<Rightarrow>
          let (callSQL, callVals) = buildRPCCall name fn callArgs in
          (case (if fn_ReturnCategory fn = ''setof'' then (case parseRPCChain cfg rq fn of Inl e \<Rightarrow> Inl e | Inr ch \<Rightarrow> Inr (Some ch)) else Inr None) of
             Inl e \<Rightarrow> (writeRangeError e, db)
           | Inr chain \<Rightarrow> withTx cn setup None (callWork dc cn rq name fn callSQL callVals chain) db))"

text \<open>The routes \<open>/rest/v1/rpc/:name\<close>; \<open>rq_table\<close> is the name in the path.\<close>

definition serveRPC :: "('db, 'tx, 'f::linorder) restServer \<Rightarrow> restRequest \<Rightarrow> 'db \<Rightarrow> 'f reply \<times> 'db" where
  "serveRPC srv rq db =
     (let cfg = rs_cfg srv in
      if \<not> reading rq \<and> rq_method rq \<noteq> ''POST'' then (okReply 404 (TextBody ''404 page not found''), db)
      else case profileHeaderGuard (schemasOf cfg) (rq_method rq) (rq_acceptProfile rq) (rq_contentProfile rq) of
        None \<Rightarrow> (profileReply cfg (if reading rq then rq_acceptProfile rq else rq_contentProfile rq), db)
      | Some schema \<Rightarrow>
      case apiKeyGuard (rs_keys srv) (rq_apikey rq) of Some sc \<Rightarrow> (apiKeyReply sc, db)
      | None \<Rightarrow>
      case rejectPlan (rq_accept rq) of Some e \<Rightarrow> (errorReply e, db)
      | None \<Rightarrow>
      case jwtAuth (rs_verify srv) (rs_keys srv) False (rq_apikey rq) (rq_authorization rq) of
        Refused st kind msg \<Rightarrow> (problemJSON st kind (plain msg), db)
      | Admitted s isAdmin \<Rightarrow>
      case rangeGuard (rq_method rq) (rq_range rq) (queryValue (rq_query rq) ''limit'') (queryValue (rq_query rq) ''offset'') of
        Some g \<Rightarrow> (guardReply g, db)
      | None \<Rightarrow> handleRPC (rs_dec srv) (rs_conn srv) cfg s isAdmin (requestSetup srv rq s) rq (rq_table rq) db)"

end
