(* ===== verification/Rpc_Query.thy ===== *)
theory Rpc_Query
  imports Rpc_Handler
begin

text \<open>
  The statements of a call number their placeholders: those of the call come first, those of the chain and of the embeds
  after them, although they stand in another order in the text, and an exact count repeats those of the filters with the same
  numbers.
\<close>

section \<open>Aliased filters\<close>

lemma buildChildren_ne: "buildChildren cs i = (ss, a, j) \<Longrightarrow> [] \<notin> set ss"
  by (induction cs arbitrary: i ss a j) (fastforce split: prod.splits if_splits)+

lemma buildNode_empty: "fst (buildNode (WNode op neg cs) i) = [] \<longleftrightarrow> fst (buildChildren cs i) = []"
proof (cases "buildChildren cs i")
  case (fields ss a j)
  have "strJoin ss sep \<noteq> []" if "ss \<noteq> []" for sep
    using that buildChildren_ne [OF fields] by (cases ss; cases "tl ss") (auto simp: strJoin_Cons)
  then show ?thesis by (auto simp: fields Let_def)
qed

lemma alias_args:
  "(fst (buildNode (aliasNode t n) i) = [] \<longleftrightarrow> fst (buildNode n i) = []) \<and> snd (buildNode (aliasNode t n) i) = snd (buildNode n i)"
  "length (fst (buildChildren (map (aliasNode t) cs) i)) = length (fst (buildChildren cs i)) \<and>
     snd (buildChildren (map (aliasNode t) cs) i) = snd (buildChildren cs i)"
proof (induction n i and cs i rule: buildNode_buildChildren.induct)
  case (1 neg f i)
  have "snd (buildFilterCondition (f\<lparr>flt_Column := t @ ''.'' @ flt_Column f\<rparr>) i) = snd (buildFilterCondition f i)"
    by (rule aliasFilter_args)
  moreover have "fst (buildFilterCondition g i) \<noteq> []" for g by (rule buildFilterCondition_ne)
  ultimately show ?case by (simp add: case_prod_beta)
next
  case (2 op neg children i)
  then have "fst (buildChildren (map (aliasNode t) children) i) = [] \<longleftrightarrow> fst (buildChildren children i) = []"
    by (metis length_0_conv)
  moreover from this 2 have "snd (buildNode (aliasNode t (WNode op neg children)) i) = snd (buildNode (WNode op neg children) i)"
    by (simp add: case_prod_beta Let_def)
  ultimately show ?case by (simp only: aliasNode.simps buildNode_empty simp_thms)
next
  case (4 c cs i)
  obtain s a j where b: "buildNode c i = (s, a, j)" by (cases "buildNode c i") auto
  obtain s' where b': "buildNode (aliasNode t c) i = (s', a, j)" "s' = [] \<longleftrightarrow> s = []"
    using 4(1) b by (cases "buildNode (aliasNode t c) i") auto
  show ?case
  proof (cases "s = []")
    case True
    with 4(2) b b' show ?thesis by simp
  next
    case False
    with 4(3) b b' show ?thesis by (simp add: case_prod_beta)
  qed
qed simp

lemma clause_alias:
  "length (fst (clauseSQL (AliasWhereColumns w t) i)) = length (fst (clauseSQL w i))"
  "snd (clauseSQL (AliasWhereColumns w t) i) = snd (clauseSQL w i)"
proof -
  have "length (fst (clauseSQL (AliasWhereColumns w t) i)) = length (fst (clauseSQL w i)) \<and>
      snd (clauseSQL (AliasWhereColumns w t) i) = snd (clauseSQL w i)"
  proof (cases w)
    case (Some n)
    with alias_args(1) [of t n i] show ?thesis
      by (auto simp: clauseSQL_def AliasWhereColumns_def BuildSQL_def case_prod_beta)
  qed (simp add: AliasWhereColumns_def)
  then show "length (fst (clauseSQL (AliasWhereColumns w t) i)) = length (fst (clauseSQL w i))"
    "snd (clauseSQL (AliasWhereColumns w t) i) = snd (clauseSQL w i)" by simp_all
qed

text \<open>Aliasing the columns leaves the arguments as they are.\<close>

lemma aliasChain_args: "snd (renderRPCChain (aliasChain chain) i) = (snd (renderRPCChain chain i) :: 'f jvalue list)"
  using clause_alias(2) [of "rc_where chain" "''_rpc''" i]
  by (simp add: aliasChain_def renderRPCChain_def case_prod_beta Let_def)

section \<open>Items\<close>

definition freeItem :: "SelectItem \<Rightarrow> bool" where
  "freeItem item = (dollarFree (si_Alias item) \<and> dollarFree (si_Cast item) \<and> dollarFree (si_Col item) \<and>
     dollarFree (si_Agg item) \<and> dollarFree (toUpper (si_Agg item)))"

lemma parsedItem_free:
  "dollarFree (si_Alias (ParseSelectItem s)) \<Longrightarrow> dollarFree (si_Cast (ParseSelectItem s)) \<Longrightarrow> dollarFree (si_Col (ParseSelectItem s)) \<Longrightarrow>
     freeItem (ParseSelectItem s)"
  using parsed_agg [of s] dollarFree_aggName by (auto simp: freeItem_def)

lemma item_of_free_text: "dollarFree s \<Longrightarrow> freeItem (ParseSelectItem s)"
  using ParseSelectItem_chars [of s] by (intro parsedItem_free) (auto simp: dollarFree_def)

lemma freeItem_render:
  assumes "freeItem item" "dollarFree t"
  shows "dollarFree (RenderSelectItem t item)" "dollarFree (RenderSelectItemGroupByExpr t item)" "dollarFree (aggExpr t item)"
proof -
  have col: "dollarFree (columnExpr (si_Col item))" using assms by (intro dollarFree_columnExpr) (simp add: freeItem_def)
  show "dollarFree (RenderSelectItem t item)" "dollarFree (RenderSelectItemGroupByExpr t item)"
    using assms col by (simp_all add: RenderSelectItem_def RenderSelectItemGroupByExpr_def freeItem_def qualifiedPath_columnExpr castWrap_def Let_def)
  have "aggExpr t item =
      castWrap (si_Cast item) (if si_Agg item \<noteq> [] \<and> si_Col item = [] then ''COUNT(*)''
        else toUpper (si_Agg item) @ ''('' @ qualifiedPath t (si_Col item) @ '')'')"
    by (auto simp: aggExpr_def castWrap_def qualifiedPath_def Let_def split: prod.split)
  then show "dollarFree (aggExpr t item)" using assms col by (simp add: freeItem_def qualifiedPath_columnExpr castWrap_def)
qed

lemma safeItem_free: "safeItem table item \<Longrightarrow> freeItem item"
  using dollarFree_aggName [of "si_Agg item"]
  by (cases "si_Agg item = []") (auto simp: safeItem_def freeItem_def dollarFree_ident dest: ValidateColumn_path dollarFree_path)

lemma validPath_free: "ValidateIdentPath col = None \<Longrightarrow> dollarFree col"
  by (auto simp: ValidateIdentPath_def dollar dest: checkIdentPath_chars split: sum.splits)

definition rpcValidator :: "Table option \<Rightarrow> ColValidator" where
  "rpcValidator declared = (case declared of Some t \<Rightarrow> ValidateColumn t | None \<Rightarrow> ValidateIdentPath)"

lemma rpcValidator_free: "rpcValidator declared col = None \<Longrightarrow> dollarFree col"
  by (auto simp: rpcValidator_def validPath_free dest: ValidateColumn_path dollarFree_path split: option.splits)

interpretation rpc_columns: col_validator "rpcValidator declared" dollarFree for declared
  by unfold_locales (rule rpcValidator_free)

lemma rpcItem_free:
  assumes "rpcItemError declared (rpcValidator declared) (ParseSelectItem raw) = None"
  shows "freeItem (ParseSelectItem raw)"
proof (cases declared)
  case None
  define item where "item = ParseSelectItem raw"
  have "dollarFree (si_Alias item)" "dollarFree (si_Cast item)"
    using assms by (auto simp: None rpcItemError_def item_def dollarFree_ident split: if_splits option.splits)
  moreover have "dollarFree (si_Col item)"
    using assms rpcValidator_free by (cases "si_Col item = []") (auto simp: None rpcItemError_def item_def split: if_splits option.splits)
  ultimately show ?thesis by (simp add: item_def parsedItem_free)
next
  case (Some t)
  with assms show ?thesis by (auto simp: rpcItemError_def intro: ValidateSelectItem_safe safeItem_free)
qed

lemma rpcSelect_free:
  "rpcSelect declared found (rpcValidator declared) entries items embeds = Inr (items', embeds') \<Longrightarrow> list_all freeItem items \<Longrightarrow>
     list_all freeItem items' \<and> (embeds' = embeds \<or> found)"
  by (induction declared found "rpcValidator declared" entries items embeds rule: rpcSelect.induct)
    (auto intro: rpcItem_free split: if_splits option.splits)

section \<open>Chains\<close>

definition chainOk :: "rpcChain \<Rightarrow> bool" where
  "chainOk chain =
     (allLeaves leafOk (rc_where chain) \<and> allLeaves leafOk (rc_having chain) \<and> list_all dollarFree (rc_groupBy chain) \<and>
      list_all freeItem (rc_items chain) \<and> list_all embedSafe (rc_embeds chain) \<and>
      list_all (\<lambda>oc. dollarFree (oc_Column oc)) (rc_order chain) \<and> dollarFree (rc_extraCols chain))"

lemma allTables_free: "tablesFree (cfg_Tables cfg) \<Longrightarrow> tablesFree (allTables cfg)"
  by (auto simp: allTables_def tablesFree_def list_all_iff dest!: set_update_subset)
    (auto simp: tableFree_def zeroTable_def zeroField_def fieldRefs_def)

lemma target_free: "tablesFree (cfg_Tables cfg) \<Longrightarrow> resolveRPCTargetTable cfg fn = Some t \<Longrightarrow> tableFree t"
  using allTables_free by (auto simp: resolveRPCTargetTable_def Let_def split: if_splits option.splits dest: tablesFree_map)

lemma havingSelect_free: "list_all freeItem items \<Longrightarrow> s \<in> set (havingSelect items) \<Longrightarrow> dollarFree s"
  by (auto simp: havingSelect_def list_all_iff freeItem_def)

lemma rpcGroupBy_free: "list_all freeItem items \<Longrightarrow> list_all dollarFree (rpcGroupBy items n)"
  by (auto simp: rpcGroupBy_def list_all_iff freeItem_render)

lemma having_select_free:
  assumes "list_all freeItem items"
  shows "aggFree ''_rpc'' (havingSelect items)"
  using havingSelect_free [OF assms] by (auto simp: aggFree_def list_all_iff intro!: freeItem_render(3) item_of_free_text)

text \<open>A chain that is accepted for a configuration with plain names is safe to render.\<close>

lemma parseRPCChain_ok:
  assumes p: "parseRPCChain cfg rq fn = Inr chain" and free: "tablesFree (cfg_Tables cfg)"
  shows "chainOk chain \<and> rc_extraCols chain = []"
proof -
  define found where "found = resolveRPCTargetTable cfg fn"
  define declared where "declared = (case found of Some t \<Rightarrow> Some t | None \<Rightarrow> rpcTableShape (fr_Type (fn_Returns fn)))"
  define table where "table = (case declared of Some t \<Rightarrow> t | None \<Rightarrow> zeroTable)"
  define q where "q = queryValue (rq_query rq)"
  define entries where "entries = (if q ''select'' = [] then [] else ParseSelectParam (q ''select''))"
  have valid: "(case declared of Some t \<Rightarrow> ValidateColumn t | None \<Rightarrow> ValidateIdentPath) = rpcValidator declared"
    by (simp add: rpcValidator_def)
  note defs = found_def [symmetric] declared_def [symmetric] table_def [symmetric] q_def [symmetric] entries_def [symmetric] valid
  from p obtain items embedParams embeds wh having order offset limit where
    sel: "rpcSelect declared (found \<noteq> None) (rpcValidator declared) entries [] [] = Inr (items, embedParams)" and
    emb: "(if embedParams = [] then Inr []
       else case ResolveEmbeds (parseSetofTarget (fr_Type (fn_Returns fn))) table embedParams (allTables cfg) of
              Inl e \<Rightarrow> Inl (Errorw ''invalid embed: %w'' [] e) | Inr es \<Rightarrow> Inr es) = Inr embeds" and
    wh: "ParseWhereWith (rq_query rq) (rpcValidator declared) [] (map arg_Name (fn_Args fn)) = Inr wh" and
    hav: "(if q ''having'' = [] then Inr None
       else case ParseHavingParam (q ''having'') ''_rpc'' table (havingSelect items) of
              Inl e \<Rightarrow> Inl (Errorw ''invalid having: %w'' [] e) | Inr h \<Rightarrow> Inr h) = Inr having" and
    ord: "(if q ''order'' = [] then Inr []
       else case ParseOrderValueWith (q ''order'') (rpcValidator declared) of
              Inl e \<Rightarrow> Inl (Errorw ''invalid order: %w'' [] e) | Inr ocs \<Rightarrow> Inr ocs) = Inr order" and
    chain: "rc_where chain = wh" "rc_having chain = having" "rc_groupBy chain = rpcGroupBy items (length embeds)"
      "rc_items chain = items" "rc_embeds chain = embeds" "rc_order chain = order" "rc_extraCols chain = []"
    unfolding parseRPCChain_def Let_def defs
    by (auto simp: bindE_Inr paramE_def split: option.splits sum.splits prod.splits if_splits)
  from rpcSelect_free [OF sel] have items: "list_all freeItem items" and has: "embedParams = [] \<or> found \<noteq> None" by auto
  have "list_all embedSafe embeds"
  proof (cases "embedParams = []")
    case False
    with has obtain t where t: "found = Some t" by auto
    then have "table = t" "tableFree t" using target_free [OF free] by (auto simp: found_def declared_def table_def)
    moreover from False emb have "ResolveEmbeds (parseSetofTarget (fr_Type (fn_Returns fn))) table embedParams (allTables cfg) = Inr embeds"
      by (auto split: sum.splits)
    note ResolveEmbeds_wf [OF this]
    ultimately show ?thesis using allTables_free [OF free] by (auto simp: list_all_iff intro: wfEmbed_safe)
  qed (use emb in simp)
  moreover have "allLeaves leafOk wh"
    by (rule allLeaves_mono [OF rpc_columns.parse_where [OF wh]]) (erule parsedLeaf_ok, simp)
  moreover have "allLeaves leafOk having"
    using hav having_free [OF _ _ having_select_free [OF items]] by (auto simp: allLeaves_def split: if_splits sum.splits)
  moreover have "list_all (\<lambda>oc. dollarFree (oc_Column oc)) order"
    using ord by (auto simp: list_all_iff split: if_splits sum.splits dest: ParseOrderValueWith_valid rpcValidator_free)
  ultimately show ?thesis using items rpcGroupBy_free by (simp add: chainOk_def chain)
qed

section \<open>Numbering\<close>

lemma clauseSQL_numbered: "allLeaves leafOk w \<Longrightarrow> numberedList k (clauseSQL w k)"
  using where_sql.build_numbered [of w k] numberedList_Cons [OF _ numberedList_Nil, of k _ _ _]
  by (auto simp: clauseSQL_def split: prod.splits)

lemma clauseSQL_cases: "fst (clauseSQL w k) = [] \<or> (\<exists>s. fst (clauseSQL w k) = [s])"
  by (auto simp: clauseSQL_def case_prod_beta)

lemma alias_chainOk: "chainOk chain \<Longrightarrow> chainOk (aliasChain chain)"
  by (auto simp: chainOk_def aliasChain_def AliasWhere_ok)

text \<open>The clauses of a chain number their placeholders from the first one they are given.\<close>

lemma render_numbered:
  assumes ok: "chainOk chain" and r: "renderRPCChain chain k = (sql, args)"
  shows "placeholders sql = [k..<k + length args] \<and> closes sql"
proof -
  obtain cs a n1 where c: "clauseSQL (rc_where chain) k = (cs, a, n1)" by (rule prod_cases3)
  obtain es b n2 where e: "InnerExistsClauses (rc_embeds chain) ''_rpc'' n1 = (es, b, n2)" by (rule prod_cases3)
  obtain hs h n3 where h: "clauseSQL (rc_having chain) n2 = (hs, h, n3)" by (rule prod_cases3)
  have cn: "numberedList k (cs, a, n1)" using clauseSQL_numbered [of "rc_where chain" k] ok c by (simp add: chainOk_def)
  have "numberedList n1 (InnerExistsClauses (rc_embeds chain) ''_rpc'' n1)"
    unfolding InnerExistsClauses_def by (rule exists_sql.thread_numbered) (use ok in \<open>auto simp: chainOk_def list_all_iff\<close>)
  then have "numberedList k (cs @ es, a @ b, n2)" using numberedList_append [OF cn] e by simp
  then have wn: "numbered k (strJoin (cs @ es) '' AND '', a @ b, n2)" by (rule numberedList_join) (simp_all add: isDigit_def)
  have hn: "numberedList n2 (hs, h, n3)" using clauseSQL_numbered [of "rc_having chain" n2] ok h by (simp add: chainOk_def)
  define n4 where "n4 = (if rc_hasLimit chain then n3 + 1 else n3)"
  define whr where "whr = (if cs @ es \<noteq> [] then '' WHERE '' @ strJoin (cs @ es) '' AND '' else [])"
  define grp where "grp = (if rc_groupBy chain \<noteq> [] then '' GROUP BY '' @ strJoin (rc_groupBy chain) '', '' else [])"
  define hav where "hav = (if hs \<noteq> [] then '' HAVING '' @ hd hs else [])"
  define ord where "ord = (if rc_order chain \<noteq> [] then '' ORDER BY '' @ RenderOrderBy (rc_order chain) else [])"
  define lim where "lim = (if rc_hasLimit chain then '' LIMIT '' @ ph n3 else [])"
  define off where "off = (if rc_hasOffset chain then '' OFFSET '' @ ph n4 else [])"
  have sql: "sql = whr @ grp @ hav @ ord @ lim @ off" and args: "length args = length a + length b + length h +
      (if rc_hasLimit chain then 1 else 0) + (if rc_hasOffset chain then 1 else 0)"
    using r by (auto simp: renderRPCChain_def c e h whr_def grp_def hav_def ord_def lim_def off_def n4_def)
  have w: "placeholders whr = [k..<n2]" "closes whr" "n2 = k + length a + length b"
    using wn by (auto simp: whr_def numbered_def isDigit_def)
  have g: "dollarFree grp" "closes grp"
    using ok by (auto simp: grp_def chainOk_def list_all_iff isDigit_def intro!: dollarFree_strJoin)
  have hv: "placeholders hav = [n2..<n3]" "closes hav" "n3 = n2 + length h"
    using hn clauseSQL_cases [of "rc_having chain" n2] by (auto simp: hav_def numberedList_def isDigit_def h)
  have o: "dollarFree ord" "closes ord"
    using dollarFree_orderSuffix [of "rc_order chain"] ok by (auto simp: ord_def orderSuffix_def chainOk_def isDigit_def)
  have l: "placeholders lim = [n3..<n4]" "closes lim" by (auto simp: lim_def n4_def isDigit_def)
  have f: "placeholders off = [n4..<k + length args]" "closes off"
    using w(3) hv(3) by (auto simp: off_def n4_def isDigit_def args)
  have "closes (lim @ off)" "closes (ord @ lim @ off)" "closes (hav @ ord @ lim @ off)" "closes (grp @ hav @ ord @ lim @ off)"
    "closes sql"
    using w(2) g(2) hv(2) o(2) l(2) f(2) by (auto simp: sql intro!: closes_append)
  then have "placeholders sql = [k..<n2] @ [n2..<n3] @ [n3..<n4] @ [n4..<k + length args]"
    using w g hv o l f by (simp add: sql placeholders_append placeholders_free)
  then show ?thesis
    using upt_chain [of k n2 n3 n4 "k + length args"] w(3) hv(3) \<open>closes sql\<close> by (simp add: n4_def args)
qed

lemma rpcToMany_numbered:
  assumes safe: "embedSafe e"
  shows "numbered k (rpcToMany agg e k)"
proof -
  define i where "i = em_info e"
  have i: "embedFree i" "scopeOk i" using safe by (cases e; simp add: i_def)+
  have d: "dollarFree (em_RefTable i)" using i by (simp add: embedFree_def)
  obtain s a n where r: "BuildEmbedRowExpr e (em_RefTable i) [] k = (s, a, n)" by (rule prod_cases3)
  have "tablesFree []" by (simp add: tablesFree_def)
  from embed_numbered(1) [OF this safe d, of k] r have rn: "numbered k (s, a, n)" by simp
  obtain wh order where sc: "ToManyScope i = (wh, order)" by (cases "ToManyScope i")
  then have w: "allLeaves leafOk wh" and o: "dollarFree (orderSuffix order)"
    using ToManyScope_ok [OF i(2,1)] by simp_all
  from and_where [OF w, of n] obtain c b j where c: "andClause (BuildSQL wh) n = (c, b, j)"
    "numbered n (c, b, j)" "closes c" by blast
  define tail where "tail = numSuffix '' LIMIT '' (em_Limit i) @ numSuffix '' OFFSET '' (em_Offset i) @ '')'' @
    (if agg then '')::jsonb'' else []) @ '' AS '' @ OutputKey i"
  have tail: "dollarFree tail" "closes tail"
    using OutputKey_free [OF i(1)] by (auto simp: tail_def dollarFree_numSuffix isDigit_def intro!: closes_append closes_numSuffix)
  have "numbered k (((if agg then ''('' else []) @ ''(SELECT coalesce(json_agg('') @ s @ (orderSuffix order @ ''), '' @ quote1 ''[]'' @
      ''::json) FROM '' @ ToManyFrom i ''_rpc'') @ c @ tail, a @ b, j)"
    by (rule numbered_two [OF rn c(2)]) (use c(3) o tail ToManyFrom_free [OF i(1), of "''_rpc''"] in
      \<open>simp_all add: closes_append isDigit_def\<close>)
  then show ?thesis using r sc c(1)
    by (simp add: rpcToMany_def i_def [symmetric] jsonbIfAgg_def tail_def split: if_splits)
qed

lemma rpcToOne_free:
  assumes safe: "embedSafe e"
  shows "dollarFree (rpcToOne agg e)" "dollarFree (rpcJoin e)"
proof -
  define i where "i = em_info e"
  have i: "embedFree i" using safe by (cases e) (simp add: i_def)
  have al: "dollarFree (embedAlias i)" and key: "dollarFree (OutputKey i)" using i by (simp_all add: embedAlias_free OutputKey_free)
  have cols: "dollarFree (strJoin (map (colEntry (embedAlias i)) (em_Columns i)) '', '')"
    using i al by (intro dollarFree_strJoin) (auto simp: embedFree_def list_all_iff intro: colEntry_free)
  show "dollarFree (rpcToOne agg e)" "dollarFree (rpcJoin e)"
    using i al key cols
    by (simp_all add: rpcToOne_def rpcJoin_def i_def [symmetric] jsonbIfAgg_def NullIfNoMatch_def embedFree_def Let_def)
qed

interpretation rpc_embed_sql: sql_fragment "rpcEmbedPart agg" embedSafe for agg
  by unfold_locales (simp add: rpcEmbedPart_def rpcToMany_numbered rpcToOne_free numbered_free)

section \<open>Statements\<close>

lemma rpcJoins_free:
  "\<forall>e \<in> set es. embedSafe e \<Longrightarrow> dollarFree (concat (map (\<lambda>e. '' '' @ rpcJoin e) es)) \<and> closes (concat (map (\<lambda>e. '' '' @ rpcJoin e) es))"
  by (induction es) (auto simp: rpcToOne_free isDigit_def)

text \<open>How many arguments a chain has does not depend on what floats are.\<close>

lemma render_length: "length (snd (renderRPCChain chain k :: string \<times> 'f jvalue list)) = length (snd (renderRPCChain chain k :: string \<times> 'g jvalue list))"
  by (simp add: renderRPCChain_def case_prod_beta Let_def)

lemma render_text: "fst (renderRPCChain chain k :: string \<times> 'f jvalue list) = fst (renderRPCChain chain k :: string \<times> 'g jvalue list)"
  by (simp add: renderRPCChain_def case_prod_beta Let_def)

abbreviation embedArgsOf :: "rpcChain \<Rightarrow> nat \<Rightarrow> string list" where
  "embedArgsOf chain m \<equiv> fst (snd (threadArgs (rpcEmbedPart (aggregated (rc_items chain))) (rc_embeds chain) m))"

lemma aliasChain_render_length:
  "length (snd (renderRPCChain (aliasChain chain) base :: string \<times> 'f jvalue list)) = length (snd (renderRPCChain chain base :: string \<times> 'f jvalue list))"
  by (simp add: aliasChain_args)

lemma wrap_placeholders:
  assumes ok: "chainOk chain" and m: "m = base + length (snd (renderRPCChain chain base :: string \<times> 'f jvalue list))"
    and w: "wrapRPCCallForChain call chain base = (sql, eargs :: 'f jvalue list)"
  shows "placeholders sql = [m..<m + length eargs] @ placeholders call @ [base..<m] \<and> length eargs = length (embedArgsOf chain m)"
proof -
  obtain suffix sargs where r: "renderRPCChain (aliasChain chain) base = (suffix, sargs :: 'f jvalue list)" by fastforce
  have m': "m = base + length sargs" using aliasChain_render_length [where 'f = 'f, of chain base] r m by simp
  from render_numbered [OF alias_chainOk [OF ok] r] have suf: "placeholders suffix = [base..<m]" "closes suffix" by (simp_all add: m')
  obtain parts eas n where t: "threadArgs (rpcEmbedPart (aggregated (rc_items chain))) (rc_embeds chain) m = (parts, eas, n)"
    by (rule prod_cases3)
  have "numberedList m (threadArgs (rpcEmbedPart (aggregated (rc_items chain))) (rc_embeds chain) m)"
    by (rule rpc_embed_sql.thread_numbered) (use ok in \<open>simp add: chainOk_def list_all_iff\<close>)
  then have pn: "numberedList m (parts, eas, n)" using t by simp
  define projection where "projection = (if rc_items chain \<noteq> [] then strJoin (map (RenderSelectItem ''_rpc'') (rc_items chain)) '', '' else ''*'')"
  have pf: "dollarFree projection"
    using ok by (auto simp: projection_def chainOk_def list_all_iff freeItem_render intro!: dollarFree_strJoin)
  show ?thesis
  proof (cases "suffix = [] \<and> projection = ''*'' \<and> rc_embeds chain = [] \<and> rc_extraCols chain = []")
    case True
    with w r have "sql = call" "eargs = []" by (auto simp: wrapRPCCallForChain_def projection_def)
    moreover have "m = base" using suf(1) True m' by (auto dest: arg_cong [of _ _ length])
    moreover have "eas = []" using True t by simp
    ultimately show ?thesis using t by simp
  next
    case False
    define star where "star = (if projection = ''*'' \<and> (parts \<noteq> [] \<or> rc_extraCols chain \<noteq> []) then ''_rpc.*'' else projection)"
    define extra where "extra = (if rc_extraCols chain \<noteq> [] then '', '' @ rc_extraCols chain else [])"
    define joins where "joins = concat (map (\<lambda>e. '' '' @ rpcJoin e) (filter (\<lambda>e. \<not> em_IsReverse (em_info e)) (rc_embeds chain)))"
    have free: "dollarFree star" "dollarFree extra" "closes extra"
      using ok pf by (simp_all add: star_def extra_def chainOk_def isDigit_def)
    have joins: "dollarFree joins" "closes joins"
      using ok rpcJoins_free [of "filter (\<lambda>e. \<not> em_IsReverse (em_info e)) (rc_embeds chain)"]
      by (auto simp: joins_def chainOk_def list_all_iff)
    have "wrapRPCCallForChain call chain base = (''SELECT '' @ (star @ concat (map (\<lambda>p. '', '' @ p) parts) @ extra) @ '' FROM ('' @ call @
        '') AS _rpc'' @ joins @ suffix, map JText eas :: 'f jvalue list)"
      unfolding wrapRPCCallForChain_def Let_def r prod.case projection_def [symmetric] m' [symmetric] t star_def extra_def joins_def
      by (simp only: False if_False append_assoc)
    with w have sql: "sql = ''SELECT '' @ (star @ concat (map (\<lambda>p. '', '' @ p) parts) @ extra) @ '' FROM ('' @ call @ '') AS _rpc'' @ joins @ suffix"
      and args: "eargs = map JText eas"
      by simp_all
    have cp: "placeholders (concat (map (\<lambda>p. '', '' @ p) parts)) = concat (map placeholders parts) \<and>
        closes (concat (map (\<lambda>p. '', '' @ p) parts))" for parts :: "string list"
      by (induction parts) (auto simp: placeholders_append isDigit_def)
    have "closes (joins @ suffix)" using joins suf closes_append by blast
    then show ?thesis
      using free joins suf pn cp [of parts]
      by (simp add: sql args t placeholders_append placeholders_free numberedList_def isDigit_def closes_append)
  qed
qed

lemma wrap_args_length:
  assumes "chainOk chain"
  shows "length (snd (wrapRPCCallForChain call chain base :: string \<times> 'f jvalue list)) =
    length (embedArgsOf chain (base + length (snd (renderRPCChain chain base :: string \<times> 'g jvalue list))))"
  using wrap_placeholders [where 'f = 'f and call = call and base = base, OF assms refl prod.collapse [symmetric]]
    render_length [where 'f = 'f and 'g = 'g, of chain base]
  by simp

text \<open>The source of a count numbers the placeholders of the filters alone.\<close>

lemma count_numbered:
  assumes ok: "chainOk chain" and c: "rpcCountFrom src chain k = (sql, args :: 'f jvalue list)"
  shows "placeholders sql = placeholders src @ [k..<k + length args] \<and>
    length args \<le> length (snd (renderRPCChain chain k :: string \<times> 'f jvalue list))"
proof -
  define joins where "joins = concat (map (\<lambda>e. '' '' @ rpcJoin e) (filter (\<lambda>e. \<not> em_IsReverse (em_info e) \<and> em_Inner (em_info e)) (rc_embeds chain)))"
  define wh where "wh = (if joins \<noteq> [] then AliasWhereColumns (rc_where chain) ''_rpc'' else rc_where chain)"
  obtain suffix args' where r': "renderRPCChain (countChain chain wh) k = (suffix, args' :: 'f jvalue list)" by fastforce
  have "rpcCountFrom src chain k = ('' FROM '' @ src @ '' AS _rpc'' @ joins @ suffix, args')"
    unfolding rpcCountFrom_def Let_def joins_def [symmetric] wh_def [symmetric] r' prod.case ..
  with c r' have r: "renderRPCChain (countChain chain wh) k = (suffix, args)" and
    sql: "sql = '' FROM '' @ src @ '' AS _rpc'' @ joins @ suffix" by simp_all
  have "allLeaves leafOk wh" using ok AliasWhere_ok [of "rc_where chain" "''_rpc''"] by (simp add: chainOk_def wh_def)
  then have "chainOk (countChain chain wh)" using ok by (simp add: chainOk_def countChain_def allLeaves_def)
  from render_numbered [OF this r] have s: "placeholders suffix = [k..<k + length args]" "closes suffix" by simp_all
  have j: "dollarFree joins" "closes joins"
    using ok rpcJoins_free [of "filter (\<lambda>e. \<not> em_IsReverse (em_info e) \<and> em_Inner (em_info e)) (rc_embeds chain)"]
    by (auto simp: joins_def chainOk_def list_all_iff)
  have "snd (clauseSQL wh k) = snd (clauseSQL (rc_where chain) k)" by (simp add: wh_def clause_alias(2))
  then have "length args \<le> length (snd (renderRPCChain chain k :: string \<times> 'f jvalue list))"
    using r by (auto simp: renderRPCChain_def countChain_def case_prod_beta Let_def clauseSQL_def BuildSQL_def)
  moreover have "closes (joins @ suffix)" using j s closes_append by blast
  ultimately show ?thesis using s j by (simp add: sql placeholders_append placeholders_free isDigit_def)
qed

lemma rpcWindow_free: "list_all (\<lambda>oc. dollarFree (oc_Column oc)) order \<Longrightarrow> dollarFree (rpcWindow order)"
  using dollarFree_orderSuffix [of "QualifyOrderColumns order ''_rpc''"] QualifyOrder_ok [of order "''_rpc''"]
  by (auto simp: rpcWindow_def orderSuffix_def RenderOrderBy_def split: if_splits)

lemma spans:
  fixes base :: nat
  shows "1 \<le> base \<Longrightarrow> base \<le> m \<Longrightarrow> base + c \<le> m \<Longrightarrow> base + n = m + e \<Longrightarrow>
    {1..<base} \<union> {base..<base + c} \<union> {m..<m + e} \<union> {base..<m} = {1..<base + n}"
  by auto

text \<open>An exact count repeats the placeholders of the filters; all others stand once.\<close>

lemma counted_placeholders:
  assumes ok: "chainOk chain" and base: "base = 1 + length vals" and call: "placeholders call = [1..<base]"
    and args: "args = snd (renderRPCChain chain base) @ snd (wrapRPCCallForChain call chain base :: string \<times> 'f jvalue list)"
  shows "set (placeholders (buildRPCCountedQuery call chain base)) = {1..<base + length args}"
proof -
  define paged where "paged = chain\<lparr>rc_extraCols := ''true AS __inz_row, '' @ rpcWindow (rc_order chain) @ '' AS __inz_rn''\<rparr>"
  have pok: "chainOk paged" using ok rpcWindow_free by (auto simp: chainOk_def paged_def)
  define m where "m = base + length (snd (renderRPCChain chain base :: string \<times> unit jvalue list))"
  have pm: "m = base + length (snd (renderRPCChain paged base :: string \<times> unit jvalue list))"
    by (simp add: m_def paged_def renderRPCChain_def)
  obtain data eargs where d: "wrapRPCCallForChain ''SELECT * FROM __inz_src'' paged base = (data, eargs :: unit jvalue list)" by fastforce
  from wrap_placeholders [OF pok pm d] have dp: "placeholders data = [m..<m + length eargs] @ [base..<m]"
    "length eargs = length (embedArgsOf chain m)" by (simp_all add: placeholders_free dollarFree_def paged_def)
  obtain source cargs where c: "rpcCountFrom ''__inz_src'' chain base = (source, cargs :: unit jvalue list)" by fastforce
  from count_numbered [OF ok c] have cp: "placeholders source = [base..<base + length cargs]" "base + length cargs \<le> m"
    by (simp_all add: placeholders_free dollarFree_def m_def)
  have total: "base + length args = m + length eargs"
    using wrap_args_length [where 'f = 'f and 'g = unit, OF ok, of call base] render_length [where 'f = 'f and 'g = unit, of chain base]
    by (simp add: args dp(2) m_def)
  have "buildRPCCountedQuery call chain base = ''WITH __inz_src AS MATERIALIZED ('' @ call @
      '') SELECT _p.*, _t.__inz_total FROM (SELECT count(*) AS __inz_total'' @ source @ '') _t LEFT JOIN ('' @ data @
      '') _p ON true ORDER BY _p.__inz_rn''"
    unfolding buildRPCCountedQuery_def Let_def paged_def [symmetric] c d fst_conv by simp
  moreover have "closes source" using c by (auto simp: rpcCountFrom_def case_prod_beta isDigit_def Let_def)
  ultimately have "placeholders (buildRPCCountedQuery call chain base) = [1..<base] @ [base..<base + length cargs] @ [m..<m + length eargs] @ [base..<m]"
    by (simp add: placeholders_append placeholders_free call dp(1) cp(1) isDigit_def closes_append)
  then have "set (placeholders (buildRPCCountedQuery call chain base)) =
      {1..<base} \<union> {base..<base + length cargs} \<union> {m..<m + length eargs} \<union> {base..<m}"
    by (simp only: set_append set_upt Un_assoc)
  moreover have "base \<le> m" "1 \<le> base" by (simp_all add: m_def base)
  ultimately show ?thesis using spans [OF _ _ cp(2) total] by simp
qed

lemma rpcParts_free:
  "list_all (\<lambda>a. dollarFree (arg_Name a)) args \<Longrightarrow> rpcParts args callArgs k = (parts, vals) \<Longrightarrow> numberedList k (parts, vals, k + length vals)"
proof (induction args arbitrary: k parts vals)
  case (Cons a args)
  show ?case
  proof (cases "map_of callArgs (arg_Name a)")
    case (Some v)
    obtain ps vs where r: "rpcParts args callArgs (k + 1) = (ps, vs)" by fastforce
    from Cons.prems(1) have "list_all (\<lambda>a. dollarFree (arg_Name a)) args" by simp
    from Cons.IH [OF this r] have "numberedList (k + 1) (ps, vs, k + 1 + length vs)" .
    moreover have "numbered k ([CHR 0x22] @ arg_Name a @ [CHR 0x22] @ '' => '' @ ph k, [v], k + 1)"
      using Cons.prems(1) by (simp add: numbered_def)
    ultimately show ?thesis using numberedList_Cons Cons.prems(2) Some r by fastforce
  qed (use Cons in simp)
qed simp

lemma call_placeholders:
  assumes "dollarFree name" "list_all (\<lambda>a. dollarFree (arg_Name a)) (fn_Args fn)" "buildRPCCall name fn callArgs = (call, vals)"
  shows "placeholders call = [1..<1 + length vals]"
proof -
  obtain parts where p: "rpcParts (fn_Args fn) callArgs 1 = (parts, vals)"
    and call: "call = (if fn_ReturnCategory fn = ''setof'' then ''SELECT * FROM public.'' @ [CHR 0x22] @ name @ [CHR 0x22] @ ''('' @ strJoin parts '', '' @ '')''
       else ''SELECT public.'' @ [CHR 0x22] @ name @ [CHR 0x22] @ ''('' @ strJoin parts '', '' @ '') AS '' @ [CHR 0x22] @ name @ [CHR 0x22])"
    using assms(3) by (auto simp: buildRPCCall_def Let_def split: prod.splits)
  have "numbered 1 (strJoin parts '', '', vals, 1 + length vals)"
    by (rule numberedList_join [OF rpcParts_free [OF assms(2) p]]) (simp_all add: isDigit_def)
  then show ?thesis
    using assms(1) by (simp add: call numbered_def placeholders_append placeholders_free isDigit_def)
qed

text \<open>C13: The statement of a call that returns a set, with the arguments of the call, the filters, embeds, order and page of the
  request, and with or without an exact count, mentions exactly the placeholders of its arguments, each of them once
  unless an exact count repeats the filters; and the statement of an estimated count numbers its own arguments likewise.\<close>

theorem rpc_query_numbered:
  assumes "parseRPCChain cfg rq fn = Inr chain" and "tablesFree (cfg_Tables cfg)"
    and "dollarFree name" "list_all (\<lambda>a. dollarFree (arg_Name a)) (fn_Args fn)"
    and "buildRPCCall name fn callArgs = (call, vals)" "setofQuery mode call vals chain = (sql, args :: 'f jvalue list)"
    and "rpcCountFrom (''('' @ call @ '')'') chain (length vals + 1) = (source, countArgs :: 'f jvalue list)"
  shows "set (placeholders sql) = {1..length args} \<and> (mode \<noteq> ''exact'' \<longrightarrow> distinct (placeholders sql)) \<and>
    placeholders (''EXPLAIN SELECT 1'' @ source) = [1..<1 + length (vals @ countArgs)]"
proof -
  define base where "base = 1 + length vals"
  have ok: "chainOk chain" using parseRPCChain_ok [OF assms(1,2)] by simp
  have call: "placeholders call = [1..<base]" unfolding base_def by (rule call_placeholders [OF assms(3-5)])
  define cargs :: "'f jvalue list" where "cargs = snd (renderRPCChain chain base)"
  define m where "m = base + length cargs"
  obtain wsql eargs where w: "wrapRPCCallForChain call chain base = (wsql, eargs :: 'f jvalue list)" by fastforce
  have q: "sql = (if mode = ''exact'' then buildRPCCountedQuery call chain base else wsql)" "args = vals @ cargs @ eargs"
    using assms(6) w by (auto simp: setofQuery_def base_def cargs_def Let_def)
  from wrap_placeholders [OF ok m_def [unfolded cargs_def] w]
  have wp: "placeholders wsql = [m..<m + length eargs] @ [1..<base] @ [base..<m]" by (simp add: call)
  have exact: "set (placeholders (buildRPCCountedQuery call chain base)) = {1..<base + length (cargs @ eargs)}"
    by (rule counted_placeholders [OF ok base_def call]) (simp add: cargs_def w)
  have "placeholders source = [1..<base] @ [base..<base + length countArgs]"
    using count_numbered [OF ok assms(7)] call by (simp add: base_def placeholders_append isDigit_def)
  then have "placeholders (''EXPLAIN SELECT 1'' @ source) = [1..<1 + length (vals @ countArgs)]"
    using upt_split [of 1 base "base + length countArgs"] by (simp add: base_def)
  moreover have le: "1 \<le> base" "base \<le> m" "base + 0 \<le> m" "base + length (cargs @ eargs) = m + length eargs"
    by (simp_all add: m_def base_def)
  have "{1..length args} = {1..<base + length (cargs @ eargs)}" by (simp add: q(2) base_def atLeastLessThanSuc_atLeastAtMost)
  moreover have "set (placeholders wsql) = {1..<base + length (cargs @ eargs)}"
    unfolding wp using spans [OF le] by (simp add: Un_ac)
  moreover have "distinct (placeholders wsql)" unfolding wp using le(1,2) by auto
  ultimately have "set (placeholders sql) = {1..length args}" "mode \<noteq> ''exact'' \<longrightarrow> distinct (placeholders sql)"
    and "placeholders (''EXPLAIN SELECT 1'' @ source) = [1..<1 + length (vals @ countArgs)]"
    using exact by (simp_all add: q(1))
  then show ?thesis by blast
qed

end
