(* ===== verification/Rest_Auth_Laws.thy ===== *)
theory Rest_Auth_Laws
  imports Rest_Auth
begin

text \<open>
  The identity of a request reaches the database unchanged: the setup text reads as the intended settings
  (\<open>setup_exact\<close>), and the role and user a transaction runs under follow from the credential of the request
  (\<open>request_role_exact\<close>).
\<close>

section \<open>Reading a setup text\<close>

text \<open>Statements end at a semicolon outside a literal. In a literal a quote is doubled.\<close>

fun sqlStatements :: "bool \<Rightarrow> string \<Rightarrow> string \<Rightarrow> string list option" where
  "sqlStatements quoted acc [] = (if quoted then None else if acc = [] then Some [] else Some [rev acc])"
| "sqlStatements quoted acc (c # s) =
     (if \<not> quoted \<and> c = CHR '';'' then map_option ((#) (rev acc)) (sqlStatements False [] s)
      else sqlStatements (quoted \<noteq> (c = CHR 0x27)) (c # acc) s)"

fun litBody :: "string \<Rightarrow> string option" where
  "litBody [] = None"
| "litBody (c # s) =
     (if c \<noteq> CHR 0x27 then map_option ((#) c) (litBody s)
      else case s of [] \<Rightarrow> Some [] | d # s' \<Rightarrow> if d = CHR 0x27 then map_option ((#) c) (litBody s') else None)"

definition literalValue :: "string \<Rightarrow> string option" where
  "literalValue s = (case s of [] \<Rightarrow> None | c # t \<Rightarrow> if c = CHR 0x27 then litBody t else None)"

datatype setting = Guc string string | SetRole string | StatementTimeout string

definition readSetting :: "string \<Rightarrow> setting option" where
  "readSetting st =
     (if hasPrefix st ''SET LOCAL ROLE '' then Some (SetRole (drop 15 st))
      else if hasPrefix st ''SET LOCAL statement_timeout = '' then Some (StatementTimeout (drop 30 st))
      else if hasPrefix st ''SET LOCAL '' then
        (let rest = drop 10 st; name = takeWhile (\<lambda>c. c \<noteq> CHR '' '') rest; body = drop (length name) rest in
         if hasPrefix body '' = '' then map_option (Guc name) (literalValue (drop 3 body)) else None)
      else None)"

definition readSetup :: "string \<Rightarrow> setting list option" where
  "readSetup text = Option.bind (sqlStatements False [] text) (\<lambda>sts. those (map readSetting sts))"

section \<open>What the setup says\<close>

lemma litBody_quote: "litBody (replaceAll s (CHR 0x27) [CHR 0x27, CHR 0x27] @ [CHR 0x27]) = Some s"
  by (induction s) (auto simp: replaceAll_def)

lemma literalValue_quote: "literalValue (quote s) = Some s"
  using litBody_quote by (simp add: literalValue_def quote_def)

text \<open>A literal is skipped as a whole, and so is text without quotes and semicolons.\<close>

lemma statements_doubled:
  "sqlStatements True acc (replaceAll s (CHR 0x27) [CHR 0x27, CHR 0x27] @ t) =
     sqlStatements True (rev (replaceAll s (CHR 0x27) [CHR 0x27, CHR 0x27]) @ acc) t"
  by (induction s arbitrary: acc) (auto simp: replaceAll_def)

lemma statements_quote: "sqlStatements False acc (quote s @ t) = sqlStatements False (rev (quote s) @ acc) t"
  by (simp add: quote_def statements_doubled)

lemma statements_plain:
  "list_all (\<lambda>c. c \<noteq> CHR '';'' \<and> c \<noteq> CHR 0x27) s \<Longrightarrow> sqlStatements False acc (s @ t) = sqlStatements False (rev s @ acc) t"
  by (induction s arbitrary: acc) auto

lemma statements_end: "sqlStatements False acc ('';'' @ t) = map_option ((#) (rev acc)) (sqlStatements False [] t)"
  by simp

text \<open>A name for settings: no space, quote or semicolon.\<close>

definition gucName :: "string \<Rightarrow> bool" where
  "gucName n = list_all (\<lambda>c. c \<noteq> CHR '' '' \<and> c \<noteq> CHR '';'' \<and> c \<noteq> CHR 0x27) n"

lemma gucName_plain: "gucName n \<Longrightarrow> list_all (\<lambda>c. c \<noteq> CHR '';'' \<and> c \<noteq> CHR 0x27) n"
  by (auto simp: gucName_def list_all_iff)

lemma statements_guc:
  assumes "gucName n"
  shows "sqlStatements False [] (setGuc n v @ t) = map_option ((#) (''SET LOCAL '' @ n @ '' = '' @ quote v)) (sqlStatements False [] t)"
proof -
  have "sqlStatements False [] (setGuc n v @ t) =
      sqlStatements False [] ((''SET LOCAL '' @ n @ '' = '') @ (quote v @ ('';'' @ t)))"
    by (simp add: setGuc_def)
  also have "\<dots> = sqlStatements False (rev (''SET LOCAL '' @ n @ '' = '')) (quote v @ ('';'' @ t))"
    using gucName_plain [OF assms] by (subst statements_plain) simp_all
  also have "\<dots> = map_option ((#) (''SET LOCAL '' @ n @ '' = '' @ quote v)) (sqlStatements False [] t)"
    by (subst statements_quote, subst statements_end) (simp add: rev_map)
  finally show ?thesis .
qed

lemma statements_text:
  "list_all (\<lambda>c. c \<noteq> CHR '';'' \<and> c \<noteq> CHR 0x27) s \<Longrightarrow>
     sqlStatements False [] (s @ '';'' @ t) = map_option ((#) s) (sqlStatements False [] t)"
  by (subst statements_plain) simp_all

definition gucNames :: "string list" where
  "gucNames = [''app.user_id'', ''app.role'', ''app.email'', ''app.jwt'', ''app.is_authenticated'', ''request.request_id'']"

lemma gucNames_plain: "n \<in> set gucNames \<Longrightarrow> gucName n"
  by (auto simp: gucNames_def gucName_def)

lemma readSetting_guc:
  assumes "n \<in> set gucNames"
  shows "readSetting (''SET LOCAL '' @ n @ '' = '' @ quote v) = Some (Guc n v)"
proof -
  have t: "takeWhile (\<lambda>c. c \<noteq> CHR '' '') (n @ '' = '' @ quote v) = n"
    using gucNames_plain [OF assms] by (subst takeWhile_append2) (auto simp: gucName_def list_all_iff)
  have "\<not> hasPrefix (n @ '' = '' @ quote v) ''ROLE ''" "\<not> hasPrefix (n @ '' = '' @ quote v) ''statement_timeout = ''"
    using assms by (auto simp: gucNames_def)
  with t literalValue_quote show ?thesis by (simp add: readSetting_def Let_def)
qed

lemma readSetup_Nil: "readSetup [] = Some []"
  by (simp add: readSetup_def)

lemma readSetup_cons:
  "sqlStatements False [] (s @ t) = map_option ((#) st) (sqlStatements False [] t) \<Longrightarrow> readSetting st = Some x \<Longrightarrow>
     readSetup (s @ t) = map_option ((#) x) (readSetup t)"
  by (cases "sqlStatements False [] t") (simp_all add: readSetup_def)

lemma readSetup_guc: "n \<in> set gucNames \<Longrightarrow> readSetup (setGuc n v @ t) = map_option ((#) (Guc n v)) (readSetup t)"
  by (rule readSetup_cons [OF statements_guc [OF gucNames_plain] readSetting_guc])

lemma readSetup_text:
  "list_all (\<lambda>c. c \<noteq> CHR '';'' \<and> c \<noteq> CHR 0x27) s \<Longrightarrow> readSetting s = Some x \<Longrightarrow>
     readSetup (s @ '';'' @ t) = map_option ((#) x) (readSetup t)"
  using readSetup_cons [of "s @ '';''" t s x] statements_text [of s t] by simp

lemma readSetup_gucs:
  "readSetup (setGuc ''app.user_id'' v @ t) = map_option ((#) (Guc ''app.user_id'' v)) (readSetup t)"
  "readSetup (setGuc ''app.role'' v @ t) = map_option ((#) (Guc ''app.role'' v)) (readSetup t)"
  "readSetup (setGuc ''app.email'' v @ t) = map_option ((#) (Guc ''app.email'' v)) (readSetup t)"
  "readSetup (setGuc ''app.jwt'' v @ t) = map_option ((#) (Guc ''app.jwt'' v)) (readSetup t)"
  "readSetup (setGuc ''app.is_authenticated'' v @ t) = map_option ((#) (Guc ''app.is_authenticated'' v)) (readSetup t)"
  by (simp_all add: readSetup_guc gucNames_def)

text \<open>The settings that are meant.\<close>

definition settingsOf :: "Session \<Rightarrow> Roles \<Rightarrow> int \<Rightarrow> string \<Rightarrow> setting list" where
  "settingsOf s r timeout rid =
     (let role = (if ses_Role s = [] then (if ses_IsAuthenticated s then ''authenticated'' else ''anon'') else ses_Role s) in
      [Guc ''app.user_id'' (if role = ''service_role'' then [] else ses_UserID s), Guc ''app.role'' role,
       Guc ''app.email'' (ses_Email s), Guc ''app.jwt'' (ses_JWT s),
       Guc ''app.is_authenticated'' (if ses_IsAuthenticated s then ''true'' else ''false''),
       SetRole (AssumableFromSession r (ses_Role s) (ses_IsAuthenticated s))] @
      (if 0 < timeout then [StatementTimeout (itoaInt (max (timeout div 1000000) 1))] else []) @
      (if rid \<noteq> [] then [Guc ''request.request_id'' rid] else []))"

lemma assumable_named: "AssumableFromSession r role auth \<in> {rl_Service r, rl_Authenticated r, rl_Anon r}"
  by (simp add: AssumableFromSession_def)

lemma isWord_plain: "isWord c \<Longrightarrow> c \<noteq> CHR '';'' \<and> c \<noteq> CHR 0x27"
  by (auto simp: isWord_def isAlpha_def isDigit_def)

lemma role_plain: "RolesValidate r = None \<Longrightarrow> list_all (\<lambda>c. c \<noteq> CHR '';'' \<and> c \<noteq> CHR 0x27) (AssumableFromSession r role auth)"
proof -
  assume "RolesValidate r = None"
  then have "identRe (AssumableFromSession r role auth)"
    using assumable_named [of r role auth] by (auto simp: RolesValidate_None rolePairs_def roleIdentRE_def)
  from identRe_word [OF this] show ?thesis by (auto simp: list_all_iff dest: isWord_plain)
qed

lemma itoaInt_plain: "list_all (\<lambda>c. c \<noteq> CHR '';'' \<and> c \<noteq> CHR 0x27) (itoaInt n)"
  proof -
  have "isDigit c \<Longrightarrow> c \<noteq> CHR '';'' \<and> c \<noteq> CHR 0x27" for c by (auto simp: isDigit_def)
  with itoa_digits show ?thesis unfolding itoaInt_def list_all_iff by auto
qed

text \<open>Whatever the claims of a token and the id of a request contain, the setup text of a transaction is read by the
  database as exactly the intended settings, with the intended values.\<close>

lemma setup_exact:
  assumes "RolesValidate r = None"
  shows "readSetup (buildSessionSetup (Some s) (Some r) timeout rid) = Some (settingsOf s r timeout rid)"
proof -
  let ?role = "AssumableFromSession r (ses_Role s) (ses_IsAuthenticated s)"
  let ?t = "itoaInt (max (timeout div 1000000) 1)"
  have role: "readSetup (''SET LOCAL ROLE '' @ ?role @ '';'' @ t) = map_option ((#) (SetRole ?role)) (readSetup t)" for t
    using readSetup_text [of "''SET LOCAL ROLE '' @ ?role" "SetRole ?role" t] role_plain [OF assms]
    by (simp add: readSetting_def)
  have time: "readSetup (''SET LOCAL statement_timeout = '' @ ?t @ '';'' @ t) = map_option ((#) (StatementTimeout ?t)) (readSetup t)" for t
    using readSetup_text [of "''SET LOCAL statement_timeout = '' @ ?t" "StatementTimeout ?t" t] itoaInt_plain
    by (simp add: readSetting_def)
  have last: "readSetup (if rid \<noteq> [] then setGuc ''request.request_id'' rid else []) =
      Some (if rid \<noteq> [] then [Guc ''request.request_id'' rid] else [])"
    using readSetup_guc [of "''request.request_id''" rid "[]"] by (simp add: gucNames_def readSetup_Nil)
  let ?T = "if 0 < timeout then ''SET LOCAL statement_timeout = '' @ ?t @ '';'' else []"
  let ?L = "if rid \<noteq> [] then setGuc ''request.request_id'' rid else []"
  define name where "name = (if ses_Role s = [] then (if ses_IsAuthenticated s then ''authenticated'' else ''anon'') else ses_Role s)"
  have tail: "readSetup (?T @ ?L) = Some ((if 0 < timeout then [StatementTimeout ?t] else []) @
      (if rid \<noteq> [] then [Guc ''request.request_id'' rid] else []))"
  proof (cases "0 < timeout")
    case True
    have "readSetup ((''SET LOCAL statement_timeout = '' @ ?t @ '';'') @ ?L) = map_option ((#) (StatementTimeout ?t)) (readSetup ?L)"
      using time [of ?L] by (simp only: append_assoc)
    with last True show ?thesis by simp
  qed (use last in simp)
  have "buildSessionSetup (Some s) (Some r) timeout rid =
      setGuc ''app.user_id'' (if name = ''service_role'' then [] else ses_UserID s) @ setGuc ''app.role'' name @
      setGuc ''app.email'' (ses_Email s) @ setGuc ''app.jwt'' (ses_JWT s) @
      setGuc ''app.is_authenticated'' (if ses_IsAuthenticated s then ''true'' else ''false'') @
      (''SET LOCAL ROLE '' @ ?role @ '';'' @ (?T @ ?L))"
    unfolding buildSessionSetup_def Let_def name_def by simp
  then show ?thesis
    unfolding settingsOf_def name_def [symmetric] Let_def by (simp only: readSetup_gucs role tail) simp
qed


section \<open>From the credential to the role\<close>

text \<open>The configured names do not clash with the names tokens carry for other roles.\<close>

definition wireApart :: "Roles \<Rightarrow> bool" where
  "wireApart r \<longleftrightarrow> rl_Service r \<noteq> ''anon'' \<and> rl_Service r \<noteq> ''authenticated'' \<and> rl_Authenticated r \<noteq> ''anon''"

lemma jwtAuth_admitted:
  assumes "jwtAuth verify env required apikey header = Admitted s admin"
  obtains (service) "keyTier env apikey = tierSecret" "ses_Role s = ''service_role''" "ses_UserID s = []" "admin"
  | (anon) "keyTier env apikey \<noteq> tierSecret" "s = anonSession" "\<not> required" "\<not> admin"
  | (user) cl token where "keyTier env apikey \<noteq> tierSecret" "header = ''Bearer '' @ token" "verify token = Some cl"
      "ses_UserID s = cl_sub cl" "cl_sub cl \<noteq> []" "ses_Role s = (if cl_role cl = [] then ''anon'' else cl_role cl)"
      "ses_Role s \<in> {''anon'', ''authenticated''}" "ses_IsAuthenticated s \<longleftrightarrow> ses_Role s = ''authenticated''" "\<not> admin"
proof (cases "keyTier env apikey = tierSecret")
  case True
  with assms show ?thesis by (intro service) (auto simp: jwtAuth_def)
next
  case False
  note ns = False
  show ?thesis
  proof (cases "hasPrefix header ''Bearer ''")
    case False
    with assms ns show ?thesis by (intro anon) (auto simp: jwtAuth_def split: if_splits)
  next
    case True
    then obtain token where h: "header = ''Bearer '' @ token" by (auto simp: hasPrefix_iff)
    have t: "trimPrefix header ''Bearer '' = token" unfolding h by (simp add: trimPrefix_def)
    show ?thesis
    proof (cases "keyTier env token = tierPublishable")
      case True
      with assms ns h t show ?thesis by (intro anon) (auto simp: jwtAuth_def split: if_splits)
    next
      case False
      with assms ns h t obtain cl where cl: "verify token = Some cl"
        by (auto simp: jwtAuth_def split: if_splits option.splits)
      show ?thesis
      proof (cases "cl_sub cl = []")
        case True
        with assms ns h t False cl show ?thesis by (intro anon) (auto simp: jwtAuth_def split: if_splits)
      next
        case sub: False
        with assms ns h t False cl show ?thesis
          by (intro user [OF ns h cl]) (auto simp: jwtAuth_def Let_def split: if_splits)
      qed
    qed
  qed
qed

text \<open>What a request may do in the database follows from its credential. The setup of its transaction is read as one
  choice of role among the three; the service role, which bypasses row-level security, is chosen exactly for the secret
  key; the role of signed-in users only for a verified token that carries it and names a user; and a user id that the
  policies see is the subject of a verified token.\<close>

lemma request_role_exact:
  assumes "RolesValidate r = None" "wireApart r" "jwtAuth verify env required apikey header = Admitted s admin"
  shows "\<exists>sets. readSetup (buildSessionSetup (Some s) (Some r) timeout rid) = Some sets \<and>
    (\<exists>role \<in> {rl_Service r, rl_Authenticated r, rl_Anon r}. {x. SetRole x \<in> set sets} = {role}) \<and>
    (SetRole (rl_Service r) \<in> set sets \<longleftrightarrow> keyTier env apikey = tierSecret) \<and>
    (SetRole (rl_Authenticated r) \<in> set sets \<longrightarrow>
       (\<exists>token cl. header = ''Bearer '' @ token \<and> verify token = Some cl \<and> cl_role cl = ''authenticated'' \<and> cl_sub cl \<noteq> [])) \<and>
    (\<forall>uid. Guc ''app.user_id'' uid \<in> set sets \<longrightarrow> uid \<noteq> [] \<longrightarrow>
       (\<exists>token cl. header = ''Bearer '' @ token \<and> verify token = Some cl \<and> cl_sub cl = uid))"
proof (intro exI conjI)
  let ?sets = "settingsOf s r timeout rid"
  let ?role = "AssumableFromSession r (ses_Role s) (ses_IsAuthenticated s)"
  show "readSetup (buildSessionSetup (Some s) (Some r) timeout rid) = Some ?sets" by (rule setup_exact [OF assms(1)])
  have roles: "SetRole x \<in> set ?sets \<longleftrightarrow> x = ?role" for x by (auto simp: settingsOf_def Let_def)
  have uid: "Guc ''app.user_id'' u \<in> set ?sets \<Longrightarrow> u = [] \<or> u = ses_UserID s \<and> ses_Role s \<noteq> ''service_role''" for u
    by (auto simp: settingsOf_def Let_def split: if_splits)
  have apart: "distinct [rl_Service r, rl_Authenticated r, rl_Anon r]"
    using assms(1) by (auto simp: RolesValidate_None rolePairs_def)
  show "\<exists>role \<in> {rl_Service r, rl_Authenticated r, rl_Anon r}. {x. SetRole x \<in> set ?sets} = {role}"
    using assumable_named [of r "ses_Role s" "ses_IsAuthenticated s"] by (intro bexI [of _ ?role]) (auto simp: roles)
  note as = AssumableFromSession_def JWTRoleService_def JWTRoleAuthenticated_def JWTRoleAnon_def
  from assms(3) show "SetRole (rl_Service r) \<in> set ?sets \<longleftrightarrow> keyTier env apikey = tierSecret"
    unfolding roles by (cases rule: jwtAuth_admitted) (use apart assms(2) in \<open>auto simp: as wireApart_def anonSession_def\<close>)
  from assms(3) show "SetRole (rl_Authenticated r) \<in> set ?sets \<longrightarrow>
       (\<exists>token cl. header = ''Bearer '' @ token \<and> verify token = Some cl \<and> cl_role cl = ''authenticated'' \<and> cl_sub cl \<noteq> [])"
    unfolding roles by (cases rule: jwtAuth_admitted) (use apart assms(2) in \<open>auto simp: as wireApart_def anonSession_def split: if_splits\<close>)
  from assms(3) show "\<forall>uid. Guc ''app.user_id'' uid \<in> set ?sets \<longrightarrow> uid \<noteq> [] \<longrightarrow>
       (\<exists>token cl. header = ''Bearer '' @ token \<and> verify token = Some cl \<and> cl_sub cl = uid)"
    by (cases rule: jwtAuth_admitted) (use uid in \<open>force simp: anonSession_def\<close>)+
qed

section \<open>Examples\<close>

text \<open>A signed-in user whose name tries to end the statement.\<close>

definition exampleSession :: Session where
  "exampleSession = \<lparr>ses_UserID = ''u1'', ses_Role = ''authenticated'', ses_Email = CHR 0x27 # ''; RESET ROLE; --'', ses_JWT = ''t'',
     ses_IsAuthenticated = True\<rparr>"

lemma defaultRoles_valid: "RolesValidate DefaultRoles = None" "wireApart DefaultRoles"
  by code_simp+

lemma setup_exact_example:
  "readSetup (buildSessionSetup (Some exampleSession) (Some DefaultRoles) 5000000000 ''r1'') =
     Some (settingsOf exampleSession DefaultRoles 5000000000 ''r1'')"
  by (rule setup_exact [OF defaultRoles_valid(1)])

definition exampleVerify :: "string \<Rightarrow> claims option" where
  "exampleVerify t = (if t = ''t'' then Some \<lparr>cl_sub = ''u1'', cl_role = ''authenticated'', cl_email = CHR 0x27 # ''; RESET ROLE; --''\<rparr> else None)"

definition exampleKeys :: apiKeys where
  "exampleKeys = \<lparr>ak_Secret = ''sk'', ak_Publishable = ''pk''\<rparr>"

lemma example_admitted: "jwtAuth exampleVerify exampleKeys True ''pk'' ''Bearer t'' = Admitted exampleSession False"
  by code_simp

end
