(* ===== verification/Rest_Laws.thy ===== *)
theory Rest_Laws
  imports Rest_List Rest_Auth_Laws
begin

text \<open>
  What a request of the table endpoints can do to the database. Every handler ends in one of two ways: its transaction is
  dropped, or it is committed after the statements that belong to the method of the request; the transaction begins with the
  setup text of the session that the credential of the request gives.
\<close>

section \<open>The statements of a transaction\<close>

inductive ran :: "('db, 'tx, 'f) conn \<Rightarrow> 'tx \<Rightarrow> string list \<Rightarrow> 'tx \<Rightarrow> bool" for cn where
  ran_Nil: "ran cn tx [] tx"
| ran_query: "ran cn tx ss tx1 \<Longrightarrow> ran cn tx (ss @ [sql]) (snd (cn_query cn sql args tx1))"
| ran_exec: "ran cn tx ss tx1 \<Longrightarrow> ran cn tx (ss @ [sql]) (snd (cn_exec cn sql args tx1))"

lemma ran_trans: "ran cn tx1 ts tx2 \<Longrightarrow> ran cn tx ss tx1 \<Longrightarrow> ran cn tx (ss @ ts) tx2"
  by (induction rule: ran.induct) (auto simp flip: append_assoc intro: ran.intros)

lemma ran_one:
  "cn_query cn sql args tx = (res, tx') \<Longrightarrow> ran cn tx [sql] tx'"
  "cn_exec cn sql args tx = (res', tx') \<Longrightarrow> ran cn tx [sql] tx'"
  using ran_query [OF ran_Nil, of cn tx sql args] ran_exec [OF ran_Nil, of cn tx sql args] by auto

lemma ran_wire: "queryWireRaw cn sql args tx = (res, tx') \<Longrightarrow> ran cn tx [wireRowsSQL sql] tx'"
  by (auto simp: queryWireRaw_def split: prod.splits sum.splits dest: ran_one)

text \<open>\<open>reaches\<close>: by statements that satisfy a predicate.\<close>

definition reaches :: "('db, 'tx, 'f) conn \<Rightarrow> (string \<Rightarrow> bool) \<Rightarrow> 'tx \<Rightarrow> 'tx \<Rightarrow> bool" where
  "reaches cn P tx tx' \<longleftrightarrow> (\<exists>ss. ran cn tx ss tx' \<and> list_all P ss)"

lemma reaches_refl [simp, intro]: "reaches cn P tx tx"
  by (auto simp: reaches_def intro!: exI [of _ "[]"] ran_Nil)

lemma reaches_trans: "reaches cn P tx tx1 \<Longrightarrow> reaches cn P tx1 tx2 \<Longrightarrow> reaches cn P tx tx2"
  unfolding reaches_def by (meson ran_trans list_all_append)

lemma reaches_one: "ran cn tx [sql] tx' \<Longrightarrow> P sql \<Longrightarrow> reaches cn P tx tx'"
  by (auto simp: reaches_def)

section \<open>How a handler ends\<close>

text \<open>\<open>A\<close> holds of the answer when the transaction is dropped, \<open>F\<close> when it is to be committed.\<close>

definition endsWell ::
    "('db, 'tx, 'f) conn \<Rightarrow> (string \<Rightarrow> bool) \<Rightarrow> ('f reply \<Rightarrow> bool) \<Rightarrow> ('f reply \<Rightarrow> bool) \<Rightarrow> 'tx \<Rightarrow> ('tx, 'f) ending \<Rightarrow> bool" where
  "endsWell cn P A F tx e = (case e of Abandon r \<Rightarrow> A r | Finish tx' r \<Rightarrow> F r \<and> reaches cn P tx tx')"

lemma endsWell_simps [simp]:
  "endsWell cn P A F tx (Abandon r) = A r"
  "endsWell cn P A F tx (Finish tx' r) = (F r \<and> reaches cn P tx tx')"
  by (simp_all add: endsWell_def)

lemma endsWell_from: "endsWell cn P A F tx1 e \<Longrightarrow> reaches cn P tx tx1 \<Longrightarrow> endsWell cn P A F tx e"
  by (auto simp: endsWell_def split: ending.splits intro: reaches_trans)

text \<open>What a handler does to the database: nothing, or one commit.\<close>

definition outcome ::
    "('db, 'tx, 'f) conn \<Rightarrow> (string \<Rightarrow> bool) \<Rightarrow> ('f reply \<Rightarrow> bool) \<Rightarrow> ('f reply \<Rightarrow> bool) \<Rightarrow> string \<Rightarrow> 'db \<Rightarrow> 'f reply \<times> 'db \<Rightarrow> bool" where
  "outcome cn P A F setup db res \<longleftrightarrow>
     snd res = db \<and> A (fst res) \<or>
     F (fst res) \<and> (\<exists>tx0 tx. cn_begin cn setup db = Some tx0 \<and> reaches cn P tx0 tx \<and> cn_commit cn tx db = Some (snd res))"

definition searchPath :: "string \<Rightarrow> bool" where
  "searchPath sql = hasPrefix sql ''SET LOCAL search_path TO ''"

lemma search_path_reaches: "(\<And>sql. searchPath sql \<Longrightarrow> P sql) \<Longrightarrow> reaches cn P tx (applySchemaSearchPath cn schema tx)"
  by (auto simp: applySchemaSearchPath_def searchPath_def split: option.splits
      intro!: reaches_one [OF ran_exec [OF ran_Nil, of cn tx _ "[]", simplified]])

lemma withTx_outcome:
  assumes "\<And>tx. endsWell cn P A F tx (work tx)" "\<And>sql. searchPath sql \<Longrightarrow> P sql"
    and "\<And>detail. A (problemJSON 500 ''internal'' (plain detail))"
  shows "outcome cn P A F setup db (withTx cn setup schema work db)"
proof (cases "cn_begin cn setup db")
  case (Some tx0)
  let ?tx = "applySchemaSearchPath cn schema tx0"
  have e: "endsWell cn P A F tx0 (work ?tx)"
    using assms(1) search_path_reaches [of P cn tx0 schema, OF assms(2)] by (rule endsWell_from)
  show ?thesis
  proof (cases "work ?tx")
    case (Abandon r)
    with e Some assms(3) show ?thesis by (simp add: outcome_def withTx_def)
  next
    case (Finish tx r)
    with e Some assms(3) show ?thesis by (auto simp: outcome_def withTx_def split: option.splits)
  qed
qed (use assms(3) in \<open>simp add: outcome_def withTx_def\<close>)

lemma outcome_same: "A (fst res) \<Longrightarrow> snd res = db \<Longrightarrow> outcome cn P A F setup db res"
  by (simp add: outcome_def)

section \<open>Writes\<close>

text \<open>An answer of a write that reports success.\<close>

definition succeeded :: "'f reply \<Rightarrow> bool" where
  "succeeded r = (case rp_body r of NoBody \<Rightarrow> True | RowsBody rows \<Rightarrow> True | RowBody row \<Rightarrow> True | _ \<Rightarrow> False)"

definition dropped :: "restRequest \<Rightarrow> 'f reply \<Rightarrow> bool" where
  "dropped rq r \<longleftrightarrow> (succeeded r \<longrightarrow> parseTxPrefer (joinPrefer (rq_prefer rq)) = ''rollback'')"

definition effective :: "restRequest \<Rightarrow> 'f reply \<Rightarrow> bool" where
  "effective rq r \<longleftrightarrow> succeeded r \<and> parseTxPrefer (joinPrefer (rq_prefer rq)) \<noteq> ''rollback''"

lemma refusals_dropped [simp]:
  "dropped rq (errorReply e)" "dropped rq (problemJSON st k m)" "dropped rq (badRequest pe)" "dropped rq (strictReply p)"
  "dropped rq (dbErrorReply d)" "dropped rq (maxAffectedError a l)" "dropped rq (unknownReply u)"
  by (simp_all add: dropped_def succeeded_def errorReply_def problemJSON_def badRequest_def strictReply_def dbErrorReply_def
      maxAffectedError_def unknownReply_def split: apiError.splits)

lemma rejected_dropped: "rejectNonSingular dc rq n = Some r \<Longrightarrow> dropped rq r"
  by (auto simp: rejectNonSingular_def split: if_splits)

lemma parsed_dropped: "parseRequestBody dc rq table = Inl r \<Longrightarrow> dropped rq r"
  by (auto simp: parseRequestBody_def Let_def split: option.splits if_splits sum.splits)

lemma finishTx_ends:
  "succeeded r \<Longrightarrow> mode = parseTxPrefer (joinPrefer (rq_prefer rq)) \<Longrightarrow>
     reaches cn P tx tx' \<Longrightarrow> endsWell cn P (dropped rq) (effective rq) tx (finishTx mode tx' r)"
  by (simp add: finishTx_def dropped_def effective_def)

lemma writeMutationResponse_succeeded: "succeeded (writeMutationResponse dc rq st mode rows)"
  by (simp add: writeMutationResponse_def succeeded_def okReply_def)

text \<open>The statements of a write: the search path, a look at the key, and the statement itself, alone or wrapped.\<close>

definition mutationOf :: "string \<Rightarrow> string \<Rightarrow> bool" where
  "mutationOf verb sql \<longleftrightarrow> searchPath sql \<or> sql = livePrimaryKeySQL \<or> hasPrefix sql verb \<or> hasPrefix sql (''WITH _inz_r AS ('' @ verb)"

lemma runMutation_reaches:
  assumes "runMutation cn returning query args tx = Inr (n, rows, tx')" "hasPrefix query verb"
  shows "reaches cn (mutationOf verb) tx tx'"
proof (cases returning)
  case True
  then have "ran cn tx [wireRowsSQL query] tx'"
    using assms(1) by (auto simp: runMutation_def split: prod.splits sum.splits dest: ran_wire)
  then show ?thesis
    using assms(2) by (auto simp: mutationOf_def wireRowsSQL_def hasPrefix_iff intro: reaches_one)
next
  case False
  then have "ran cn tx [query] tx'"
    using assms(1) by (auto simp: runMutation_def split: prod.splits sum.splits dest: ran_one)
  then show ?thesis using assms(2) by (auto simp: mutationOf_def intro: reaches_one)
qed

lemma finishMutation_ends:
  assumes "hasPrefix query verb"
  shows "endsWell cn (mutationOf verb) (dropped rq) (effective rq) tx
    (finishMutation dc rq (joinPrefer (rq_prefer rq)) st mode (runMutation cn returning query args tx))"
proof (cases "runMutation cn returning query args tx")
  case (Inr res)
  obtain n rows tx' where r: "res = (n, rows, tx')" by (cases res)
  show ?thesis
  proof (cases "rejectNonSingular dc rq n")
    case None
    have "succeeded (r\<lparr>rp_applied := a\<rparr>) = succeeded r" for r :: "'c reply" and a by (simp add: succeeded_def)
    then show ?thesis
      using runMutation_reaches [OF Inr [unfolded r] assms]
      by (auto simp: finishMutation_def Inr r None Let_def writeMutationResponse_succeeded intro!: finishTx_ends)
  qed (use Inr r rejected_dropped in \<open>auto simp: finishMutation_def\<close>)
qed (simp add: finishMutation_def)

lemma livePrimaryKey_reaches:
  "livePrimaryKeyOr cn name fallback tx = (res, tx') \<Longrightarrow> reaches cn (mutationOf verb) tx tx'"
  by (auto simp: livePrimaryKeyOr_def Let_def mutationOf_def split: prod.splits sum.splits intro!: reaches_one dest: ran_one)

lemma finishBounded_ends:
  assumes "hasPrefix query verb"
  shows "endsWell cn (mutationOf verb) (dropped rq) (effective rq) tx
    (finishBounded dc rq (joinPrefer (rq_prefer rq)) (runMutation cn returning query args tx))"
proof (cases "runMutation cn returning query args tx")
  case (Inr res)
  obtain n rows tx' where r: "res = (n, rows, tx')" by (cases res)
  note reach = runMutation_reaches [OF Inr [unfolded r] assms]
  have "succeeded ((okReply st NoBody)\<lparr>rp_applied := a\<rparr> :: 'c reply)" "succeeded (okReply st NoBody :: 'c reply)" for st a
    by (simp_all add: succeeded_def okReply_def)
  with reach rejected_dropped show ?thesis
    by (auto simp: finishBounded_def Inr r Let_def writeMutationResponse_succeeded intro!: finishTx_ends split: option.splits if_splits)
qed (simp add: finishBounded_def)

lemma searchPath_mutation: "searchPath sql \<Longrightarrow> mutationOf verb sql"
  by (simp add: mutationOf_def)

definition insertInto :: "string \<Rightarrow> string" where "insertInto name = ''INSERT INTO '' @ name @ '' (''"
definition updateOf :: "string \<Rightarrow> string" where "updateOf name = ''UPDATE '' @ name @ '' SET ''"
definition deleteFrom :: "string \<Rightarrow> string" where "deleteFrom name = ''DELETE FROM '' @ name"

lemma verbs:
  "hasPrefix (fst (BuildBulkInsertQuery name records returning)) (insertInto name)"
  "hasPrefix (fst (BuildBulkUpsertQuery name records cols res returning)) (insertInto name)"
  "hasPrefix (fst (BuildUpdateQuery name updates wh returning)) (updateOf name)"
  "hasPrefix (fst (BuildDeleteQuery name wh returning)) (deleteFrom name)"
  by (simp_all add: BuildBulkInsertQuery_def BuildBulkUpsertQuery_def BuildUpdateQuery_def BuildDeleteQuery_def
      insertInto_def updateOf_def deleteFrom_def Let_def case_prod_beta hasPrefix_iff)

lemma conflictTarget_dropped: "conflictTarget res oc table = Inl r \<Longrightarrow> dropped rq r"
  by (auto simp: conflictTarget_def Let_def split: sum.splits if_splits)

lemma upsertRecordError_dropped: "upsertRecordError table pk recs = Some r \<Longrightarrow> dropped rq r"
  by (induction recs) (auto simp: Let_def split: if_splits option.splits)

abbreviation writeEnds :: "('db, 'tx, 'f) conn \<Rightarrow> string \<Rightarrow> restRequest \<Rightarrow> 'tx \<Rightarrow> ('tx, 'f) ending \<Rightarrow> bool" where
  "writeEnds cn verb rq \<equiv> endsWell cn (mutationOf verb) (dropped rq) (effective rq)"

abbreviation writeOutcome :: "('db, 'tx, 'f) conn \<Rightarrow> string \<Rightarrow> restRequest \<Rightarrow> string \<Rightarrow> 'db \<Rightarrow> 'f reply \<times> 'db \<Rightarrow> bool" where
  "writeOutcome cn verb rq \<equiv> outcome cn (mutationOf verb) (dropped rq) (effective rq)"

lemma keyed_ends:
  "livePrimaryKeyOr cn name pk tx = (res, tx1) \<Longrightarrow> hasPrefix query verb \<Longrightarrow>
     writeEnds cn verb rq tx (finishMutation dc rq (joinPrefer (rq_prefer rq)) st mode (runMutation cn returning query args tx1))"
  using finishMutation_ends livePrimaryKey_reaches by (rule endsWell_from)

lemma createWork_ends: "writeEnds cn (insertInto name) rq tx (createWork dc cn rq (joinPrefer (rq_prefer rq)) name table records tx)"
  by (auto simp: createWork_def Let_def verbs intro: finishMutation_ends conflictTarget_dropped keyed_ends
      split: sum.splits prod.splits if_splits)

lemma upsertWork_ends: "writeEnds cn (insertInto name) rq tx (upsertWork dc cn rq (joinPrefer (rq_prefer rq)) name pk records tx)"
  by (auto simp: upsertWork_def Let_def verbs intro: keyed_ends split: sum.splits prod.splits)

lemma updateWork_ends: "writeEnds cn (updateOf name) rq tx (updateWork dc cn rq (joinPrefer (rq_prefer rq)) name updates wh tx)"
  by (simp add: updateWork_def Let_def verbs finishBounded_ends)

lemma deleteWork_ends: "writeEnds cn (deleteFrom name) rq tx (deleteWork dc cn rq (joinPrefer (rq_prefer rq)) name wh tx)"
  by (simp add: deleteWork_def Let_def verbs finishBounded_ends)

lemma write_withTx:
  "(\<And>tx. writeEnds cn verb rq tx (work tx)) \<Longrightarrow> writeOutcome cn verb rq setup db (withTx cn setup schema work db)"
  by (rule withTx_outcome) (simp_all add: searchPath_mutation)

lemma write_refused: "dropped rq r \<Longrightarrow> writeOutcome cn verb rq setup db (r, db)"
  by (rule outcome_same) simp_all

lemmas write_rules = write_withTx createWork_ends upsertWork_ends updateWork_ends deleteWork_ends write_refused
  parsed_dropped upsertRecordError_dropped refusals_dropped

lemma handleCreate_outcome: "writeOutcome cn (insertInto name) rq setup db (handleCreate dc cn setup schema rq name table db)"
  unfolding handleCreate_def Let_def by (auto split: option.splits sum.splits intro: write_rules)

lemma handleUpsert_outcome: "writeOutcome cn (insertInto name) rq setup db (handleUpsert dc cn setup schema rq name table db)"
  unfolding handleUpsert_def Let_def by (auto split: option.splits sum.splits intro: write_rules)

lemma handleUpdate_outcome: "writeOutcome cn (updateOf name) rq setup db (handleUpdate dc cn setup schema rq name table db)"
  unfolding handleUpdate_def Let_def by (auto split: option.splits sum.splits intro: write_rules)

lemma handleDelete_outcome: "writeOutcome cn (deleteFrom name) rq setup db (handleDelete dc cn setup schema rq name table db)"
  unfolding handleDelete_def Let_def by (auto split: option.splits sum.splits intro: write_rules)

section \<open>Reads\<close>

text \<open>The statements of a read.\<close>

definition readStatement :: "string \<Rightarrow> bool" where
  "readStatement sql \<longleftrightarrow> searchPath sql \<or> hasPrefix sql ''SELECT '' \<or> hasPrefix sql ''EXPLAIN SELECT '' \<or>
     hasPrefix sql ''WITH _inz_r AS (SELECT ''"

lemma select_verb: "hasPrefix (fst (BuildSelectQueryFull name qp table m)) ''SELECT ''"
  by (simp add: BuildSelectQueryFull_def Let_def case_prod_beta hasPrefix_iff)

lemma select_readStatement:
  "hasPrefix sql ''SELECT '' \<Longrightarrow> readStatement sql"
  "hasPrefix sql ''SELECT '' \<Longrightarrow> readStatement (''EXPLAIN '' @ sql)"
  "hasPrefix sql ''SELECT '' \<Longrightarrow> readStatement (wireRowsSQL sql)"
  by (auto simp: readStatement_def wireRowsSQL_def hasPrefix_iff)

lemma queryCount_reaches: "queryCount dc cn sql args tx = (res, tx') \<Longrightarrow> hasPrefix sql ''SELECT '' \<Longrightarrow> reaches cn readStatement tx tx'"
  by (auto simp: queryCount_def select_readStatement split: prod.splits sum.splits intro!: reaches_one dest: ran_one)

lemma executeCount_reaches:
  assumes "executeCount dc cn name table qp m mode tx = (res, tx')"
  shows "reaches cn readStatement tx tx'"
proof -
  have count: "hasPrefix (''SELECT COUNT(*) AS count FROM ('' @ t) ''SELECT ''" for t by (simp add: hasPrefix_iff)
  have planned: "reaches cn readStatement tx (snd (cn_query cn (''EXPLAIN '' @ fst (BuildSelectQueryFull name qp0 table m)) args tx))" for qp0 args
    using reaches_one [of cn tx _ _ readStatement, OF ran_query [OF ran_Nil, simplified] select_readStatement(2) [OF select_verb]] .
  let ?q = "BuildSelectQueryFull name (countedParams qp) table m"
  let ?args = "map JText (snd ?q)"
  consider (scan) "queryCount dc cn ''SELECT reltuples::bigint AS count FROM pg_class WHERE oid = to_regclass($1)''
        [JText (EffectiveSchema table @ ''.'' @ name)] tx = (res, tx')"
    | (exact) "queryCount dc cn (''SELECT COUNT(*) AS count FROM ('' @ fst ?q @ '') AS _count'') ?args tx = (res, tx')"
    | (plan) "tx' = snd (cn_query cn (''EXPLAIN '' @ fst ?q) ?args tx)"
    | (other) "tx' = tx"
    using assms unfolding executeCount_def Let_def case_prod_beta by (force split: if_splits sum.splits)
  then show ?thesis
  proof cases
    case scan
    then show ?thesis by (rule queryCount_reaches) (simp add: hasPrefix_def)
  next
    case exact
    then show ?thesis using count by (rule queryCount_reaches)
  qed (simp_all only: planned reaches_refl)
qed

abbreviation readEnds :: "('db, 'tx, 'f) conn \<Rightarrow> 'tx \<Rightarrow> ('tx, 'f) ending \<Rightarrow> bool" where
  "readEnds cn \<equiv> endsWell cn readStatement (\<lambda>r. True) (\<lambda>r. True)"

lemma readList_ends:
  assumes "hasPrefix (fst query) ''SELECT ''"
  shows "readEnds cn tx (readList dc cn postgis cfg rq name table qp query tx)"
proof -
  have first: "reaches cn readStatement tx tx1" if "queryWireRaw cn (fst query) args tx = (res, tx1)" for args res tx1
    using reaches_one [of cn tx _ tx1 readStatement, OF ran_wire [OF that] select_readStatement(3) [OF assms]] .
  show ?thesis
    by (auto simp: readList_def Let_def split: prod.splits sum.splits if_splits
        intro: first reaches_trans [OF first executeCount_reaches])
qed

lemma explainList_ends: "endsWell cn P (\<lambda>r. True) F tx (explainList cn p query tx)"
  by (auto simp: explainList_def split: sum.splits)

lemma handleList_outcome:
  "outcome cn readStatement (\<lambda>r. True) (\<lambda>r. True) setup db (handleList dc cn postgis cfg isAdmin setup schema rq name table db)"
proof -
  have same: "outcome cn readStatement (\<lambda>r. True) (\<lambda>r. True) setup db (r, db)" for r by (simp add: outcome_def)
  have read: "readEnds cn tx (case plan of Some (p, planErr) \<Rightarrow> explainList cn p query tx
      | None \<Rightarrow> readList dc cn postgis cfg rq name table qp query tx)"
    if "hasPrefix (fst query) ''SELECT ''" for plan query qp tx
    using readList_ends [OF that] by (cases plan) (simp_all add: explainList_ends case_prod_beta)
  have tx: "outcome cn readStatement (\<lambda>r. True) (\<lambda>r. True) setup db (withTx cn setup schema work db)"
    if "\<And>tx. readEnds cn tx (work tx)" for work
    using that by (rule withTx_outcome) (simp_all add: readStatement_def)
  show ?thesis
    unfolding handleList_def Let_def
    by (auto split: option.splits sum.splits intro!: same tx readList_ends [OF select_verb] explainList_ends)
qed

section \<open>Requests\<close>

definition verbOf :: "restRequest \<Rightarrow> string" where
  "verbOf rq =
     (if rq_method rq = ''PATCH'' then updateOf (rq_table rq)
      else if rq_method rq = ''DELETE'' then deleteFrom (rq_table rq) else insertInto (rq_table rq))"

definition methodStatement :: "restRequest \<Rightarrow> string \<Rightarrow> bool" where
  "methodStatement rq sql = (if reading rq then readStatement sql else mutationOf (verbOf rq) sql)"

definition admittedAs :: "('db, 'tx, 'f) restServer \<Rightarrow> restRequest \<Rightarrow> Session \<Rightarrow> bool" where
  "admittedAs srv rq s \<longleftrightarrow> keyTier (rs_keys srv) (rq_apikey rq) \<noteq> tierNone \<and>
     (\<exists>admin. jwtAuth (rs_verify srv) (rs_keys srv) False (rq_apikey rq) (rq_authorization rq) = Admitted s admin)"

lemma guards_dropped:
  "dropped rq (apiKeyReply sc)" "dropped rq (profileReply cfg h)" "dropped rq (guardReply g)" "dropped rq (okReply st (TextBody t))"
  by (auto simp: apiKeyReply_def profileReply_def guardReply_def writeRangeError_def split: guardError.splits)
    (simp add: dropped_def succeeded_def okReply_def)

lemma serveTable_routes:
  assumes "serveTable srv rq db = (r, db')"
  obtains (refused) "db' = db" "dropped rq r"
  | (served) s admin schema table where "admittedAs srv rq s"
      "(r, db') =
        (if reading rq then handleList (rs_dec srv) (rs_conn srv) (rs_postgis srv) (rs_cfg srv) admin (requestSetup srv rq s) schema rq (rq_table rq) table db
         else if rq_method rq = ''POST'' then handleCreate (rs_dec srv) (rs_conn srv) (requestSetup srv rq s) schema rq (rq_table rq) table db
         else if rq_method rq = ''PUT'' then handleUpsert (rs_dec srv) (rs_conn srv) (requestSetup srv rq s) schema rq (rq_table rq) table db
         else if rq_method rq = ''PATCH'' then handleUpdate (rs_dec srv) (rs_conn srv) (requestSetup srv rq s) schema rq (rq_table rq) table db
         else if rq_method rq = ''DELETE'' then handleDelete (rs_dec srv) (rs_conn srv) (requestSetup srv rq s) schema rq (rq_table rq) table db
         else (okReply 404 (TextBody ''404 page not found''), db))"
proof (cases "profileHeaderGuard (schemasOf (rs_cfg srv)) (rq_method rq) (rq_acceptProfile rq) (rq_contentProfile rq)")
  case None
  with assms show ?thesis by (intro refused) (auto simp: serveTable_def guards_dropped)
next
  case schema: (Some schema)
  show ?thesis
  proof (cases "apiKeyGuard (rs_keys srv) (rq_apikey rq)")
    case (Some sc)
    with assms schema show ?thesis by (intro refused) (auto simp: serveTable_def guards_dropped)
  next
    case key: None
    then have tier: "keyTier (rs_keys srv) (rq_apikey rq) \<noteq> tierNone" by (auto simp: apiKeyGuard_def split: if_splits)
    show ?thesis
    proof (cases "jwtAuth (rs_verify srv) (rs_keys srv) False (rq_apikey rq) (rq_authorization rq)")
      case (Refused st kind msg)
      with assms schema key show ?thesis by (intro refused) (auto simp: serveTable_def Let_def split: option.splits if_splits)
    next
      case (Admitted s admin)
      show ?thesis
      proof (cases "map_of (cfg_Tables (rs_cfg srv)) (rq_table rq)")
        case None
        with assms schema key Admitted show ?thesis
          by (intro refused) (auto simp: serveTable_def Let_def guards_dropped split: option.splits if_splits)
      next
        case (Some table)
        let ?plan = "if reading rq then None else rejectPlan (rq_accept rq)"
        let ?guard = "if reading rq then None else rangeGuard (rq_method rq) (rq_range rq) (queryValue (rq_query rq) ''limit'')
          (queryValue (rq_query rq) ''offset'')"
        show ?thesis
        proof (cases "?plan = None \<and> ?guard = None")
          case True
          with assms schema key Admitted Some tier show ?thesis
            by (intro served [of s admin schema table]) (simp_all add: serveTable_def Let_def admittedAs_def)
        next
          case False
          with assms schema key Admitted Some show ?thesis
            by (intro refused) (auto simp: serveTable_def Let_def guards_dropped split: option.splits if_splits)
        qed
      qed
    qed
  qed
qed

text \<open>A request does nothing to the database, or it commits one transaction of its session with statements of its method.\<close>

lemma serveTable_write:
  assumes "serveTable srv rq db = (r, db')" "\<not> reading rq"
  obtains (refused) "db' = db" "dropped rq r"
  | (served) s where "admittedAs srv rq s"
      "outcome (rs_conn srv) (methodStatement rq) (dropped rq) (effective rq) (requestSetup srv rq s) db (r, db')"
  using assms(1)
proof (cases rule: serveTable_routes)
  case (served s admin schema table)
  have eq: "methodStatement rq = mutationOf (verbOf rq)" using assms(2) by (intro ext) (simp add: methodStatement_def)
  have "writeOutcome (rs_conn srv) (verbOf rq) rq (requestSetup srv rq s) db (r, db')"
    unfolding served(2) using assms(2)
    by (auto simp: verbOf_def guards_dropped intro: write_refused handleCreate_outcome handleUpsert_outcome handleUpdate_outcome handleDelete_outcome)
  with served(1) show ?thesis unfolding eq [symmetric] by (rule that(2))
qed (rule refused)

lemma serveTable_read:
  assumes "serveTable srv rq db = (r, db')" "reading rq"
  obtains (refused) "db' = db"
  | (served) s where "admittedAs srv rq s"
      "outcome (rs_conn srv) (methodStatement rq) (\<lambda>r. True) (\<lambda>r. True) (requestSetup srv rq s) db (r, db')"
  using assms(1)
proof (cases rule: serveTable_routes)
  case (served s admin schema table)
  have eq: "methodStatement rq = readStatement" using assms(2) by (intro ext) (simp add: methodStatement_def)
  have "outcome (rs_conn srv) readStatement (\<lambda>r. True) (\<lambda>r. True) (requestSetup srv rq s) db (r, db')"
    unfolding served(2) using assms(2) by (simp add: handleList_outcome)
  with served(1) show ?thesis unfolding eq [symmetric] by (rule that(2))
qed (rule refused)

end
