(* ===== verification/Rest_Safety.thy ===== *)
theory Rest_Safety
  imports Rest_Laws
begin

text \<open>
  The properties of the table endpoints: changes are scoped to the credential and the method of a request
  (\<open>rest_changes_scoped\<close>), writes are atomic (\<open>writes_atomic\<close>), and a bound on the affected rows holds
  (\<open>affected_bounded\<close>).
\<close>

text \<open>C9: A request of the table endpoints that changes the database carries an API key and commits exactly one transaction.
  This transaction began with a setup that is read as the settings of the credential: it runs as the service role, which
  bypasses row-level security, exactly if the key is the secret key, it runs as a signed-in user only with a verified token that says so, and the user id that policies see is the
  subject of the token. All its statements are those of the method: a read only sends SELECT, EXPLAIN and the search path,
  a write the INSERT, UPDATE or DELETE of its own table.\<close>

theorem rest_changes_scoped:
  assumes "RolesValidate (rs_roles srv) = None" "wireApart (rs_roles srv)"
    and "serveTable srv rq db = (r, db')" "db' \<noteq> db"
  shows "keyTier (rs_keys srv) (rq_apikey rq) \<noteq> tierNone \<and>
    (\<exists>setup sets tx0 tx. cn_begin (rs_conn srv) setup db = Some tx0 \<and> reaches (rs_conn srv) (methodStatement rq) tx0 tx \<and>
      cn_commit (rs_conn srv) tx db = Some db' \<and> readSetup setup = Some sets \<and>
      (SetRole (rl_Service (rs_roles srv)) \<in> set sets \<longleftrightarrow> keyTier (rs_keys srv) (rq_apikey rq) = tierSecret) \<and>
      (SetRole (rl_Authenticated (rs_roles srv)) \<in> set sets \<longrightarrow>
         (\<exists>token cl. rq_authorization rq = ''Bearer '' @ token \<and> rs_verify srv token = Some cl \<and> cl_role cl = ''authenticated'')) \<and>
      (\<forall>uid. Guc ''app.user_id'' uid \<in> set sets \<longrightarrow> uid \<noteq> [] \<longrightarrow>
         (\<exists>token cl. rq_authorization rq = ''Bearer '' @ token \<and> rs_verify srv token = Some cl \<and> cl_sub cl = uid)))"
proof -
  obtain s where s: "admittedAs srv rq s" and
    o: "\<exists>tx0 tx. cn_begin (rs_conn srv) (requestSetup srv rq s) db = Some tx0 \<and> reaches (rs_conn srv) (methodStatement rq) tx0 tx \<and>
      cn_commit (rs_conn srv) tx db = Some db'"
  proof (cases "reading rq")
    case True
    from assms(3) this show ?thesis by (cases rule: serveTable_read) (use assms(4) in \<open>auto simp: outcome_def intro: that\<close>)
  next
    case False
    from assms(3) this show ?thesis by (cases rule: serveTable_write) (use assms(4) in \<open>auto simp: outcome_def intro: that\<close>)
  qed
  from s obtain admin where
    "jwtAuth (rs_verify srv) (rs_keys srv) False (rq_apikey rq) (rq_authorization rq) = Admitted s admin"
    "keyTier (rs_keys srv) (rq_apikey rq) \<noteq> tierNone"
    by (auto simp: admittedAs_def)
  note role = request_role_exact [OF assms(1,2) this(1), of "dbTimeout (to_DBQuery (srv_Timeouts (cfg_Server (rs_cfg srv)))) (joinPrefer (rq_prefer rq))" "rq_requestId rq",
      folded requestSetup_def] and key = this(2)
  from o obtain tx0 tx where tx: "cn_begin (rs_conn srv) (requestSetup srv rq s) db = Some tx0"
    "reaches (rs_conn srv) (methodStatement rq) tx0 tx" "cn_commit (rs_conn srv) tx db = Some db'" by blast
  from role obtain sets where sets: "readSetup (requestSetup srv rq s) = Some sets"
    "SetRole (rl_Service (rs_roles srv)) \<in> set sets \<longleftrightarrow> keyTier (rs_keys srv) (rq_apikey rq) = tierSecret"
    "SetRole (rl_Authenticated (rs_roles srv)) \<in> set sets \<longrightarrow>
       (\<exists>token cl. rq_authorization rq = ''Bearer '' @ token \<and> rs_verify srv token = Some cl \<and> cl_role cl = ''authenticated'')"
    "\<forall>uid. Guc ''app.user_id'' uid \<in> set sets \<longrightarrow> uid \<noteq> [] \<longrightarrow>
       (\<exists>token cl. rq_authorization rq = ''Bearer '' @ token \<and> rs_verify srv token = Some cl \<and> cl_sub cl = uid)"
    by (elim exE conjE) (rule that; (assumption | metis))
  show ?thesis by (intro conjI exI [of _ "requestSetup srv rq s"] exI [of _ sets] exI [of _ tx0] exI [of _ tx] key tx sets)
qed

text \<open>C10: A write is atomic. Either its answer reports success and, unless the client asked for a rollback, the database is the
  commit of one transaction of statements of the method; or the database is unchanged, and the answer is a refusal or
  the client asked for a rollback.\<close>

theorem writes_atomic:
  assumes "serveTable srv rq db = (r, db')" "\<not> reading rq"
  shows "if succeeded r \<and> parseTxPrefer (joinPrefer (rq_prefer rq)) \<noteq> ''rollback''
    then \<exists>setup tx0 tx. cn_begin (rs_conn srv) setup db = Some tx0 \<and> reaches (rs_conn srv) (methodStatement rq) tx0 tx \<and>
      cn_commit (rs_conn srv) tx db = Some db'
    else db' = db"
  using assms
  by (cases rule: serveTable_write) (auto simp: outcome_def dropped_def effective_def)

lemma withTx_commit:
  assumes "withTx cn setup schema work db = (r, db')" "db' \<noteq> db"
  obtains tx0 tx where "work tx0 = Finish tx r" "cn_commit cn tx db = Some db'"
  using assms by (auto simp: withTx_def split: if_splits option.splits ending.splits)

lemma finishTx_Finish: "finishTx mode tx0 r0 = Finish tx r \<longleftrightarrow> mode \<noteq> ''rollback'' \<and> tx = tx0 \<and> r = r0"
  by (auto simp: finishTx_def)

lemma finishBounded_Finish:
  assumes "finishBounded dc rq prefer res = Finish tx r"
  obtains n rows where "res = Inr (n, rows, tx)" "\<forall>m. parseMaxAffectedPrefer prefer = Some m \<longrightarrow> n \<le> m" "singularAsked dc rq \<longrightarrow> n = 1"
  using assms
  by (auto simp: finishBounded_def Let_def finishTx_Finish rejectNonSingular_def split: sum.splits prod.splits option.splits if_splits)

text \<open>C11: A PATCH or DELETE that changes the database has affected no more rows than the client allowed with max-affected, and exactly
  one row when the client asked for a single object: the number that the committed statement reported is checked before
  the commit.\<close>

theorem affected_bounded:
  assumes "serveTable srv rq db = (r, db')" "db' \<noteq> db" "rq_method rq = ''PATCH'' \<or> rq_method rq = ''DELETE''"
  shows "\<exists>returning query args tx0 n rows tx. runMutation (rs_conn srv) returning query args tx0 = Inr (n, rows, tx) \<and>
    cn_commit (rs_conn srv) tx db = Some db' \<and>
    (\<forall>m. parseMaxAffectedPrefer (joinPrefer (rq_prefer rq)) = Some m \<longrightarrow> n \<le> m) \<and> (singularAsked (rs_dec srv) rq \<longrightarrow> n = 1)"
proof -
  have bounded: ?thesis
    if "withTx (rs_conn srv) su schema work db = (r, db')"
      and "\<And>tx. work tx = finishBounded (rs_dec srv) rq (joinPrefer (rq_prefer rq)) (runMutation (rs_conn srv) returning query args tx)"
    for su schema work returning query args
    using that(1) assms(2)
  proof (rule withTx_commit)
    fix tx0 tx assume "work tx0 = Finish tx r" "cn_commit (rs_conn srv) tx db = Some db'"
    then show ?thesis unfolding that(2) by (elim finishBounded_Finish) blast
  qed
  note upd = bounded [OF _ updateWork_def [unfolded Let_def]] and del = bounded [OF _ deleteWork_def [unfolded Let_def]]
  from assms(1) show ?thesis
  proof (cases rule: serveTable_routes)
    case (served s admin schema table)
    from assms(3) show ?thesis
    proof
      assume m: "rq_method rq = ''PATCH''"
      from served(2) assms(2) show ?thesis
        by (auto simp: m reading_def handleUpdate_def Let_def split: option.splits sum.splits if_splits intro: upd)
    next
      assume m: "rq_method rq = ''DELETE''"
      from served(2) assms(2) show ?thesis
        by (auto simp: m reading_def handleDelete_def Let_def split: option.splits sum.splits if_splits intro: del)
    qed
  qed (use assms(2) in simp)
qed

end
