(* ===== verification/Rpc_Safety.thy ===== *)
theory Rpc_Safety
  imports Rpc_Query Rest_Safety
begin

text \<open>
  The properties of calls: the arguments of a request are bound to the declared arguments of the function (\<open>rpc_args_bound\<close>),
  and a call that changes the database is a POST to a declared, volatile function by someone the function admits
  (\<open>rpc_changes_gated\<close>).
\<close>

section \<open>Arguments\<close>

definition namedArg :: "FuncArg \<Rightarrow> nat \<Rightarrow> string" where
  "namedArg a k = [CHR 0x22] @ arg_Name a @ [CHR 0x22] @ '' => '' @ ph k"

lemma rpcParts_spec:
  "rpcParts args callArgs k =
     (let given = filter (\<lambda>a. mapHas callArgs (arg_Name a)) args in
      (map (\<lambda>(a, i). namedArg a i) (zip given [k..<k + length given]), map (\<lambda>a. the (map_of callArgs (arg_Name a))) given))"
proof (induction args arbitrary: k)
  case (Cons a args)
  show ?case
  proof (cases "map_of callArgs (arg_Name a)")
    case (Some v)
    then show ?thesis using Cons [of "k + 1"] by (simp add: mapHas_def Let_def namedArg_def upt_rec)
  qed (use Cons in \<open>simp add: mapHas_def\<close>)
qed simp

lemma collectRPCArgs_ok:
  assumes "collectRPCArgs dc rq name fn = Inr out"
  shows "fst ` set out \<subseteq> arg_Name ` set (fn_Args fn) \<and> (\<forall>a \<in> set (fn_Args fn). arg_Required a \<longrightarrow> mapHas out (arg_Name a))"
proof (cases "strContains (case rq_prefer rq of [] \<Rightarrow> [] | p # _ \<Rightarrow> p) ''params=single-object''")
  case True
  then obtain a body where "fn_Args fn = [a]" "out = [(arg_Name a, JText body)]"
    using assms by (auto simp: collectRPCArgs_def split: list.splits if_splits option.splits)
  then show ?thesis by (simp add: mapHas_def)
next
  case False
  then obtain raw where r: "find (\<lambda>(k, v). k \<notin> arg_Name ` set (fn_Args fn)) raw = None"
    "out = map (\<lambda>(k, v). (k, rpcNumber dc v)) raw"
    "filter (\<lambda>a. arg_Required a \<and> \<not> mapHas out (arg_Name a)) (fn_Args fn) = []"
    using assms by (auto simp: collectRPCArgs_def Let_def split: sum.splits option.splits prod.splits if_splits)
  have "fst ` set out = fst ` set raw" by (force simp: r(2))
  with r(1,3) show ?thesis by (auto simp: find_None_iff filter_empty_conv)
qed

text \<open>C14: The statement of an accepted call names exactly the arguments of the request, all of them declared, in the order of
  their declaration, each with the placeholder of its own value; no argument that the function requires is missing, and
  nothing of the request but these names gets into the text of the call.\<close>

theorem rpc_args_bound:
  assumes "collectRPCArgs dc rq name fn = Inr out" "buildRPCCall name fn out = (sql, vals)"
  shows "let given = filter (\<lambda>a. arg_Name a \<in> fst ` set out) (fn_Args fn); quoted = [CHR 0x22] @ name @ [CHR 0x22];
      call = quoted @ ''('' @ strJoin (map (\<lambda>(a, k). namedArg a k) (zip given [1..<1 + length given])) '', '' @ '')'' in
    arg_Name ` set given = fst ` set out \<and> (\<forall>a \<in> set (fn_Args fn). arg_Required a \<longrightarrow> a \<in> set given) \<and>
    vals = map (\<lambda>a. the (map_of out (arg_Name a))) given \<and>
    sql = (if fn_ReturnCategory fn = ''setof'' then ''SELECT * FROM public.'' @ call else ''SELECT public.'' @ call @ '' AS '' @ quoted)"
proof -
  define given where "given = filter (\<lambda>a. arg_Name a \<in> fst ` set out) (fn_Args fn)"
  note ok = collectRPCArgs_ok [OF assms(1), unfolded mapHas_iff]
  have "given = filter (\<lambda>a. mapHas out (arg_Name a)) (fn_Args fn)" by (simp add: given_def mapHas_iff)
  then have p: "rpcParts (fn_Args fn) out 1 =
      (map (\<lambda>(a, i). namedArg a i) (zip given [1..<1 + length given]), map (\<lambda>a. the (map_of out (arg_Name a))) given)"
    by (simp add: rpcParts_spec Let_def)
  have "arg_Name ` set given = fst ` set out" "\<forall>a \<in> set (fn_Args fn). arg_Required a \<longrightarrow> a \<in> set given"
    using ok by (force simp: given_def)+
  then show ?thesis
    using assms(2) p by (simp add: given_def [symmetric] buildRPCCall_def Let_def split: if_splits)
qed

section \<open>The transaction of a call\<close>

text \<open>The statement that carries a call: the call itself, wrapped or counted, as rows of JSON text or not.\<close>

definition carries :: "string \<Rightarrow> string \<Rightarrow> bool" where
  "carries call sql \<longleftrightarrow> (\<exists>before after. sql = before @ call @ after) \<and> (hasPrefix sql ''SELECT '' \<or> hasPrefix sql ''WITH '')"

text \<open>The statements of a call: the one that carries it, after which a set may only be explained.\<close>

definition callStatements :: "string \<Rightarrow> string list \<Rightarrow> bool" where
  "callStatements call ss \<longleftrightarrow> (\<exists>sql rest. ss = sql # rest \<and> carries call sql \<and> (rest = [] \<or> (\<exists>plan. rest = [''EXPLAIN SELECT 1'' @ plan])))"

lemma carriesI: "sql = before @ call @ after \<Longrightarrow> hasPrefix sql ''SELECT '' \<or> hasPrefix sql ''WITH '' \<Longrightarrow> carries call sql"
  by (auto simp: carries_def)

lemma carries_wire:
  assumes "carries call sql"
  shows "carries call (wireRowsSQL sql)"
proof -
  from assms obtain before after where "sql = before @ call @ after" by (auto simp: carries_def)
  then show ?thesis
    by (intro carriesI [of _ "''WITH _inz_r AS ('' @ before" _ "after @ '') SELECT row_to_json(_inz_r.*)::text AS _inz_row FROM _inz_r''"])
      (simp_all add: wireRowsSQL_def hasPrefix_iff)
qed

lemma call_carries: "buildRPCCall name fn callArgs = (call, vals) \<Longrightarrow> carries call call"
  by (rule carriesI [of _ "[]" _ "[]"]) (auto simp: buildRPCCall_def Let_def hasPrefix_iff split: prod.splits if_splits)

lemma carries_if: "carries call a \<Longrightarrow> carries call b \<Longrightarrow> carries call (if c then a else b)"
  by simp

lemma carries_select: "carries call (''SELECT '' @ cols @ '' FROM ('' @ call @ after)"
  by (rule carriesI [of _ "''SELECT '' @ cols @ '' FROM (''"]) (simp_all add: hasPrefix_iff)

lemma wrap_carries:
  assumes "carries call call"
  shows "carries call (fst (wrapRPCCallForChain call chain base))"
  unfolding wrapRPCCallForChain_def Let_def case_prod_beta if_distrib [of fst] fst_conv by (intro carries_if assms carries_select)

lemma counted_carries: "carries call (buildRPCCountedQuery call chain base)"
  unfolding buildRPCCountedQuery_def Let_def append_assoc
  by (rule carriesI [of _ "''WITH __inz_src AS MATERIALIZED (''"]) (simp_all add: hasPrefix_iff)

lemma setof_carries:
  assumes "carries call call" "setofQuery mode call vals chain = (sql, args :: 'f jvalue list)"
  shows "carries call sql"
proof -
  obtain w e where w: "wrapRPCCallForChain call chain (length vals + 1) = (w, e :: 'f jvalue list)" by fastforce
  with wrap_carries [OF assms(1), of chain "length vals + 1"] have "carries call w" by (metis fst_conv)
  with assms(2) w counted_carries show ?thesis by (auto simp: setofQuery_def Let_def split: if_splits)
qed

lemma ran_wire_call: "queryWireRaw cn sql args tx = (res, tx') \<Longrightarrow> carries call sql \<Longrightarrow> \<exists>ss. ran cn tx ss tx' \<and> callStatements call ss"
  using ran_wire carries_wire by (fastforce simp: callStatements_def)

text \<open>What ends in a commit has run the statements of the call, after the pin if the function is not volatile.\<close>

lemma setofWork_Finish:
  assumes "carries call call" "setofWork dc cn rq call vals chain tx0 = Finish tx r"
  shows "\<exists>ss. ran cn tx0 ss tx \<and> callStatements call ss"
proof -
  define mode where "mode = parseCountPrefer (joinPrefer (rq_prefer rq))"
  obtain sql args where q: "setofQuery mode call vals chain = (sql, args)" by fastforce
  obtain raw tx1 where w: "queryWireRaw cn sql args tx0 = (Inr raw, tx1)"
    using assms(2) by (auto simp: setofWork_def mode_def [symmetric] q split: prod.splits sum.splits)
  from ran_wire [OF w] have first: "ran cn tx0 [wireRowsSQL sql] tx1" .
  have c: "carries call (wireRowsSQL sql)" by (rule carries_wire [OF setof_carries [OF assms(1) q]])
  from assms(2) obtain rows tot where t: "rpcTotal dc cn mode call vals chain raw tx1 = (Inr (rows, tot), tx)"
    by (auto simp: setofWork_def mode_def [symmetric] q w split: prod.splits sum.splits)
  have "tx = tx1 \<or> (\<exists>plan. ran cn tx1 [''EXPLAIN SELECT 1'' @ plan] tx)"
    using t by (auto simp: rpcTotal_def executeRPCPlannedCount_def split: prod.splits sum.splits if_splits dest: ran_one)
  then show ?thesis
  proof (elim disjE exE)
    fix plan assume "ran cn tx1 [''EXPLAIN SELECT 1'' @ plan] tx"
    from ran_trans [OF this first] c show ?thesis by (auto simp: callStatements_def)
  qed (use first c in \<open>auto simp: callStatements_def\<close>)
qed

lemma callWork_Finish:
  assumes call: "carries call call" and f: "callWork dc cn rq name fn call vals chain tx0 = Finish tx r"
  shows "\<exists>ss. ran cn tx0 ((if isVolatile fn then [] else [readOnlyPin]) @ ss) tx \<and> callStatements call ss"
proof -
  define work where "work = (case chain of
          Some ch \<Rightarrow> setofWork dc cn rq call vals ch
        | None \<Rightarrow> if fn_ReturnCategory fn = ''void'' then voidWork cn call vals else scalarWork dc cn name call vals)"
  have work: "\<exists>ss. ran cn tx1 ss tx \<and> callStatements call ss" if "work tx1 = Finish tx r" for tx1
  proof (cases chain)
    case (Some ch)
    with that show ?thesis by (simp add: work_def setofWork_Finish [OF call])
  next
    case None
    show ?thesis
    proof (cases "fn_ReturnCategory fn = ''void''")
      case True
      with that None have "ran cn tx1 [call] tx" by (auto simp: work_def voidWork_def split: prod.splits sum.splits dest: ran_one)
      with call show ?thesis by (auto simp: callStatements_def)
    next
      case False
      with that None obtain res where "queryWireRaw cn call vals tx1 = (res, tx)"
        by (auto simp: work_def scalarWork_def split: prod.splits sum.splits)
      then show ?thesis using call by (rule ran_wire_call)
    qed
  qed
  show ?thesis
  proof (cases "isVolatile fn")
    case True
    with f work show ?thesis by (simp add: callWork_def work_def [symmetric])
  next
    case False
    with f obtain n tx1 where pin: "cn_exec cn readOnlyPin [] tx0 = (Inr n, tx1)" and "work tx1 = Finish tx r"
      by (auto simp: callWork_def work_def [symmetric] split: prod.splits sum.splits)
    from work [OF this(2)] obtain ss where ss: "ran cn tx1 ss tx" "callStatements call ss" by blast
    from ran_trans [OF ss(1) ran_one(2) [OF pin]] ss(2) False show ?thesis by auto
  qed
qed

lemma withTx_ran:
  assumes "withTx cn setup None work db = (r, db')" "db' \<noteq> db"
  obtains tx0 tx where "cn_begin cn setup db = Some tx0" "work tx0 = Finish tx r" "cn_commit cn tx db = Some db'"
  using assms by (auto simp: withTx_def applySchemaSearchPath_def split: if_splits option.splits ending.splits)

section \<open>Calls that change the database\<close>

lemma handleRPC_changes:
  assumes "handleRPC dc cn cfg s isAdmin setup rq name db = (r, db')" "db' \<noteq> db"
  obtains fn out tx0 tx ss where "map_of (cfg_RPC cfg) name = Some fn" "\<not> (reading rq \<and> isVolatile fn)"
    "fn_AuthRequired fn \<longrightarrow> ses_IsAuthenticated s \<or> isAdmin" "collectRPCArgs dc rq name fn = Inr out"
    "cn_begin cn setup db = Some tx0" "ran cn tx0 ((if isVolatile fn then [] else [readOnlyPin]) @ ss) tx"
    "callStatements (fst (buildRPCCall name fn out)) ss" "cn_commit cn tx db = Some db'"
proof -
  from assms obtain fn out where f: "map_of (cfg_RPC cfg) name = Some fn" "\<not> (reading rq \<and> isVolatile fn)"
    "fn_AuthRequired fn \<longrightarrow> ses_IsAuthenticated s \<or> isAdmin" "collectRPCArgs dc rq name fn = Inr out"
    by (auto simp: handleRPC_def split: option.splits if_splits sum.splits rpcArgsError.splits)
  obtain call vals where b: "buildRPCCall name fn out = (call, vals)" by fastforce
  from assms f b obtain chain where "withTx cn setup None (callWork dc cn rq name fn call vals chain) db = (r, db')"
    by (auto simp: handleRPC_def split: if_splits sum.splits)
  then obtain tx0 tx where t: "cn_begin cn setup db = Some tx0" "callWork dc cn rq name fn call vals chain tx0 = Finish tx r"
    "cn_commit cn tx db = Some db'" using assms(2) by (rule withTx_ran)
  from callWork_Finish [OF call_carries [OF b] t(2)] obtain ss where
    "ran cn tx0 ((if isVolatile fn then [] else [readOnlyPin]) @ ss) tx" "callStatements call ss" by blast
  then show thesis using that [OF f t(1) _ _ t(3)] b by simp
qed

text \<open>Who a request speaks for.\<close>

definition signedIn :: "('db, 'tx, 'f) restServer \<Rightarrow> restRequest \<Rightarrow> bool" where
  "signedIn srv rq \<longleftrightarrow> keyTier (rs_keys srv) (rq_apikey rq) = tierSecret \<or>
     (\<exists>token cl. rq_authorization rq = ''Bearer '' @ token \<and> rs_verify srv token = Some cl \<and> cl_role cl = ''authenticated'')"

lemma admitted_signedIn:
  assumes "jwtAuth (rs_verify srv) (rs_keys srv) False (rq_apikey rq) (rq_authorization rq) = Admitted s isAdmin"
    and "ses_IsAuthenticated s \<or> isAdmin"
  shows "signedIn srv rq"
  using assms(1)
proof (cases rule: jwtAuth_admitted)
  case service
  then show ?thesis by (simp add: signedIn_def)
next
  case anon
  with assms(2) show ?thesis by (simp add: anonSession_def)
next
  case (user cl token)
  with assms(2) show ?thesis by (auto simp: signedIn_def split: if_splits)
qed

lemma serveRPC_changes:
  assumes "serveRPC srv rq db = (r, db')" "db' \<noteq> db"
  obtains s isAdmin where "reading rq \<or> rq_method rq = ''POST''" "keyTier (rs_keys srv) (rq_apikey rq) \<noteq> tierNone"
    "jwtAuth (rs_verify srv) (rs_keys srv) False (rq_apikey rq) (rq_authorization rq) = Admitted s isAdmin"
    "handleRPC (rs_dec srv) (rs_conn srv) (rs_cfg srv) s isAdmin (requestSetup srv rq s) rq (rq_table rq) db = (r, db')"
  using assms by (auto simp: serveRPC_def Let_def apiKeyGuard_def split: option.splits admission.splits if_splits)

text \<open>A statement that does not set anything; and what Postgres promises of a transaction that is made read-only before its
  first query: its commit leaves the database as it was, whatever such statements do.\<close>

definition queryText :: "string \<Rightarrow> bool" where
  "queryText sql = (hasPrefix sql ''SELECT '' \<or> hasPrefix sql ''WITH '' \<or> hasPrefix sql ''EXPLAIN '')"

definition readOnlyKept :: "('db, 'tx, 'f) conn \<Rightarrow> bool" where
  "readOnlyKept cn \<longleftrightarrow> (\<forall>setup db tx0 ss tx db'. cn_begin cn setup db = Some tx0 \<longrightarrow> list_all queryText ss \<longrightarrow>
     ran cn tx0 (readOnlyPin # ss) tx \<longrightarrow> cn_commit cn tx db = Some db' \<longrightarrow> db' = db)"

lemma callStatements_query: "callStatements call ss \<Longrightarrow> list_all queryText ss"
  by (auto simp: callStatements_def carries_def queryText_def hasPrefix_iff)

text \<open>C12: Over a database that keeps read-only transactions, a call that changes the database carries an API key, is a POST, and
  names a declared function that is volatile; if the function requires authentication, the request has the secret key or
  a verified token of a signed-in user. It commits one transaction, which begins with the settings of its credential
  (the service role exactly for the secret key) and runs a single statement that carries the call with the arguments of the
  request, after which nothing but an EXPLAIN is sent. So neither a GET or HEAD nor a call of a stable or immutable
  function ever changes anything.\<close>

theorem rpc_changes_gated:
  assumes "RolesValidate (rs_roles srv) = None" "wireApart (rs_roles srv)" "readOnlyKept (rs_conn srv)"
    and "serveRPC srv rq db = (r, db')" "db' \<noteq> db"
  shows "\<exists>fn out setup sets tx0 ss tx. map_of (cfg_RPC (rs_cfg srv)) (rq_table rq) = Some fn \<and> isVolatile fn \<and>
    rq_method rq = ''POST'' \<and> keyTier (rs_keys srv) (rq_apikey rq) \<noteq> tierNone \<and> (fn_AuthRequired fn \<longrightarrow> signedIn srv rq) \<and>
    collectRPCArgs (rs_dec srv) rq (rq_table rq) fn = Inr out \<and>
    cn_begin (rs_conn srv) setup db = Some tx0 \<and> readSetup setup = Some sets \<and>
    (SetRole (rl_Service (rs_roles srv)) \<in> set sets \<longleftrightarrow> keyTier (rs_keys srv) (rq_apikey rq) = tierSecret) \<and>
    ran (rs_conn srv) tx0 ss tx \<and> callStatements (fst (buildRPCCall (rq_table rq) fn out)) ss \<and>
    cn_commit (rs_conn srv) tx db = Some db'"
proof -
  from assms(4,5) obtain s isAdmin where
    m: "reading rq \<or> rq_method rq = ''POST''" "keyTier (rs_keys srv) (rq_apikey rq) \<noteq> tierNone" and
    adm: "jwtAuth (rs_verify srv) (rs_keys srv) False (rq_apikey rq) (rq_authorization rq) = Admitted s isAdmin" and
    h: "handleRPC (rs_dec srv) (rs_conn srv) (rs_cfg srv) s isAdmin (requestSetup srv rq s) rq (rq_table rq) db = (r, db')"
    by (rule serveRPC_changes)
  from h assms(5) obtain fn out tx0 tx ss where
    f: "map_of (cfg_RPC (rs_cfg srv)) (rq_table rq) = Some fn" "\<not> (reading rq \<and> isVolatile fn)"
      "fn_AuthRequired fn \<longrightarrow> ses_IsAuthenticated s \<or> isAdmin" "collectRPCArgs (rs_dec srv) rq (rq_table rq) fn = Inr out" and
    t: "cn_begin (rs_conn srv) (requestSetup srv rq s) db = Some tx0"
      "ran (rs_conn srv) tx0 ((if isVolatile fn then [] else [readOnlyPin]) @ ss) tx"
      "callStatements (fst (buildRPCCall (rq_table rq) fn out)) ss" "cn_commit (rs_conn srv) tx db = Some db'"
    by (rule handleRPC_changes)
  have v: "isVolatile fn"
  proof (rule ccontr)
    assume "\<not> isVolatile fn"
    with t(1,2,4) callStatements_query [OF t(3)] assms(3) have "db' = db" by (simp add: readOnlyKept_def)
    with assms(5) show False ..
  qed
  have role: "\<exists>sets. readSetup (requestSetup srv rq s) = Some sets \<and>
      (SetRole (rl_Service (rs_roles srv)) \<in> set sets \<longleftrightarrow> keyTier (rs_keys srv) (rq_apikey rq) = tierSecret)"
    using request_role_exact [OF assms(1,2) adm] unfolding requestSetup_def by blast
  then obtain sets where sets: "readSetup (requestSetup srv rq s) = Some sets"
    "SetRole (rl_Service (rs_roles srv)) \<in> set sets \<longleftrightarrow> keyTier (rs_keys srv) (rq_apikey rq) = tierSecret" by blast
  have post: "rq_method rq = ''POST''" using m(1) f(2) v by blast
  have auth: "fn_AuthRequired fn \<longrightarrow> signedIn srv rq" using f(3) admitted_signedIn [OF adm] by blast
  have stmts: "ran (rs_conn srv) tx0 ss tx" using t(2) v by simp
  show ?thesis
    by (intro exI [of _ fn] exI [of _ out] exI [of _ "requestSetup srv rq s"] exI [of _ sets] exI [of _ tx0] exI [of _ ss] exI [of _ tx]
        conjI f(1,4) m(2) t(1,3,4) v sets post auth stmts)
qed

end
