(* ===== verification/Rest_Examples.thy ===== *)
theory Rest_Examples
  imports Rest_Safety Migrate_Examples
begin

text \<open>Concrete requests to which the properties of the table endpoints apply.\<close>

text \<open>The database is the number of rows of one table; a transaction is the number it sees.\<close>

definition exampleConn :: "(nat, nat, nat) conn" where
  "exampleConn = \<lparr>cn_rls = True, cn_begin = (\<lambda>setup db. Some db), cn_query = (\<lambda>sql args tx. (Inr [], tx)),
     cn_exec = (\<lambda>sql args tx. if hasPrefix sql ''DELETE FROM notes'' then (Inr (int tx), 0) else (Inr 0, tx)),
     cn_commit = (\<lambda>tx db. Some tx)\<rparr>"

definition exampleDecoders :: "nat decoders" where
  "exampleDecoders = \<lparr>dc_floats = \<lparr>fl_parse = (\<lambda>s. None), fl_one = 1, fl_zero = 0, fl_isNaN = (\<lambda>f. False)\<rparr>,
     dc_float32 = (\<lambda>s. None), dc_trunc = int, dc_whole = (\<lambda>f. Some (int f)), dc_media = (\<lambda>s. None), dc_csv = (\<lambda>s. ([], None)),
     dc_records = (\<lambda>s. None), dc_record = (\<lambda>s. None), dc_bind = (\<lambda>s. None), dc_row = (\<lambda>s. None)\<rparr>"

definition exampleServer :: "(nat, nat, nat) restServer" where
  "exampleServer = \<lparr>rs_cfg = notes1, rs_roles = DefaultRoles, rs_keys = exampleKeys, rs_verify = exampleVerify,
     rs_conn = exampleConn, rs_dec = exampleDecoders, rs_postgis = False\<rparr>"

definition exampleDelete :: restRequest where
  "exampleDelete = \<lparr>rq_method = ''DELETE'', rq_table = ''notes'', rq_query = [], rq_prefer = [''max-affected=5''],
     rq_accept = ''*/*'', rq_contentType = [], rq_range = [], rq_acceptProfile = [], rq_contentProfile = [],
     rq_apikey = ''pk'', rq_authorization = ''Bearer t'', rq_requestId = [], rq_body = None\<rparr>"

lemma example_deleted: "serveTable exampleServer exampleDelete 3 = (okReply 204 NoBody, 0)"
  by code_simp

lemma example_bounded: "rp_status (fst (serveTable exampleServer exampleDelete 6)) = 400" "snd (serveTable exampleServer exampleDelete 6) = 6"
  by code_simp+

theorem rest_changes_scoped_witness:
  "keyTier exampleKeys ''pk'' \<noteq> tierNone \<and>
   (\<exists>tx0 tx. reaches exampleConn (methodStatement exampleDelete) tx0 tx \<and> cn_commit exampleConn tx 3 = Some 0)"
  using rest_changes_scoped [of exampleServer exampleDelete 3 _ 0, OF _ _ example_deleted] defaultRoles_valid
  by (auto simp: exampleServer_def exampleDelete_def)

theorem writes_atomic_witness:
  "\<exists>tx0 tx. reaches exampleConn (methodStatement exampleDelete) tx0 tx \<and> cn_commit exampleConn tx 3 = Some 0"
proof -
  have "\<not> reading exampleDelete" "parseTxPrefer (joinPrefer (rq_prefer exampleDelete)) \<noteq> ''rollback''"
    "succeeded (okReply 204 NoBody :: nat reply)" by code_simp+
  with writes_atomic [OF example_deleted] show ?thesis by (auto simp: exampleServer_def)
qed

theorem affected_bounded_witness:
  "\<exists>returning query args tx0 n rows tx. runMutation exampleConn returning query args tx0 = Inr (n, rows, tx) \<and>
     cn_commit exampleConn tx 3 = Some 0 \<and> n \<le> 5"
proof -
  have "parseMaxAffectedPrefer (joinPrefer (rq_prefer exampleDelete)) = Some 5" by code_simp
  with affected_bounded [OF example_deleted] show ?thesis by (fastforce simp: exampleServer_def exampleDelete_def)
qed

end
