(* ===== verification/Rpc_Examples.thy ===== *)
theory Rpc_Examples
  imports Rpc_Safety Rest_Examples
begin

text \<open>Concrete calls to which the properties of functions apply.\<close>

section \<open>A database with functions\<close>

definition trimFunction :: Function where
  "trimFunction = \<lparr>fn_Description = [], fn_AuthRequired = True, fn_Language = ''sql'', fn_Volatility = ''VOLATILE'',
     fn_Security = ''invoker'', fn_Set = [],
     fn_Args = [\<lparr>arg_Name = ''keep'', arg_Type = ''bigint'', arg_Default = None, arg_Required = True\<rparr>,
       \<lparr>arg_Name = ''why'', arg_Type = ''text'', arg_Default = None, arg_Required = False\<rparr>],
     fn_Body = [], fn_Returns = \<lparr>fr_Type = ''void''\<rparr>, fn_ReturnCategory = ''void''\<rparr>"

definition recentFunction :: Function where
  "recentFunction = trimFunction\<lparr>fn_Volatility := ''stable'', fn_Returns := \<lparr>fr_Type = ''SETOF public.notes''\<rparr>, fn_ReturnCategory := ''setof''\<rparr>"

definition callConfig :: Config where
  "callConfig = notes1\<lparr>cfg_RPC := [(''trim'', trimFunction), (''recent'', recentFunction)]\<rparr>"

text \<open>The database is the number of rows; a transaction is the number it sees and whether it is read-only.\<close>

definition callConn :: "(nat, nat \<times> bool, nat) conn" where
  "callConn = \<lparr>cn_rls = True, cn_begin = (\<lambda>setup db. Some (db, False)),
     cn_query = (\<lambda>sql args (n, ro). (Inr [], n, ro \<or> sql = readOnlyPin)),
     cn_exec = (\<lambda>sql args (n, ro).
       if sql = readOnlyPin then (Inr 0, n, True)
       else if ro then (Inl (DriverErr ''cannot execute in a read-only transaction''), n, ro)
       else (case args of JInt k # _ \<Rightarrow> (Inr 1, min n (nat k), ro) | _ \<Rightarrow> (Inr 0, n, ro))),
     cn_commit = (\<lambda>(n, ro) db. Some n)\<rparr>"

definition callServer :: "(nat, nat \<times> bool, nat) restServer" where
  "callServer = \<lparr>rs_cfg = callConfig, rs_roles = DefaultRoles, rs_keys = exampleKeys, rs_verify = exampleVerify,
     rs_conn = callConn, rs_dec = exampleDecoders\<lparr>dc_record := (\<lambda>s. Some [(''keep'', JFloat 3)])\<rparr>, rs_postgis = False\<rparr>"

definition trimCall :: restRequest where
  "trimCall = exampleDelete\<lparr>rq_method := ''POST'', rq_table := ''trim'', rq_prefer := [], rq_body := Some ''{keep: 3}''\<rparr>"

lemma callConn_simps:
  "cn_begin callConn su db = Some (db, False)" "cn_commit callConn tx db = Some (fst tx)"
  by (simp_all add: callConn_def split: prod.splits)

lemma pinned:
  "ran callConn tx0 ss tx \<Longrightarrow> (ss = [] \<longrightarrow> tx = tx0) \<and> (ss \<noteq> [] \<longrightarrow> hd ss = readOnlyPin \<longrightarrow> fst tx = fst tx0 \<and> snd tx)"
  by (induction rule: ran.induct) (auto simp: callConn_def hd_append split: prod.splits if_splits)

lemma callConn_keeps: "readOnlyKept callConn"
  using pinned [of _ "readOnlyPin # _"] by (fastforce simp: readOnlyKept_def callConn_simps)

lemma trim_called: "serveRPC callServer trimCall 5 = (okReply 204 NoBody, 3)"
  by code_simp

theorem rpc_changes_gated_witness:
  "\<exists>fn (out :: (nat jvalue) gmap) tx0 ss tx. map_of (cfg_RPC callConfig) ''trim'' = Some fn \<and> isVolatile fn \<and> signedIn callServer trimCall \<and>
     ran callConn tx0 ss tx \<and> callStatements (fst (buildRPCCall ''trim'' fn out)) ss \<and> cn_commit callConn tx 5 = Some 3"
proof -
  have valid: "RolesValidate (rs_roles callServer) = None" "wireApart (rs_roles callServer)" "readOnlyKept (rs_conn callServer)"
    using defaultRoles_valid callConn_keeps by (simp_all add: callServer_def)
  have eqs: "rs_cfg callServer = callConfig" "rs_conn callServer = callConn" "rq_table trimCall = ''trim''"
    by (simp_all add: callServer_def trimCall_def)
  have "(3::nat) \<noteq> 5" by simp
  from rpc_changes_gated [OF valid trim_called this, unfolded eqs] obtain fn and out :: "(nat jvalue) gmap" and tx0 ss tx where
    "map_of (cfg_RPC callConfig) ''trim'' = Some fn" "isVolatile fn" "fn_AuthRequired fn \<longrightarrow> signedIn callServer trimCall"
    "ran callConn tx0 ss tx" "callStatements (fst (buildRPCCall ''trim'' fn out)) ss" "cn_commit callConn tx 5 = Some 3"
    by (elim exE conjE) (rule that; assumption)
  moreover from this(1) have "fn_AuthRequired fn" by (auto simp: callConfig_def trimFunction_def)
  ultimately show ?thesis by blast
qed

theorem rpc_args_bound_witness:
  "\<exists>sql. buildRPCCall ''trim'' trimFunction [(''keep'', JInt 3 :: nat jvalue)] = (sql, [JInt 3]) \<and>
     sql = ''SELECT public.'' @ [CHR 0x22] @ ''trim'' @ [CHR 0x22] @ ''('' @ namedArg (hd (fn_Args trimFunction)) 1 @ '') AS '' @ [CHR 0x22] @ ''trim'' @ [CHR 0x22]"
proof -
  have c: "collectRPCArgs (rs_dec callServer) trimCall ''trim'' trimFunction = Inr [(''keep'', JInt 3)]" by code_simp
  obtain sql vals where b: "buildRPCCall ''trim'' trimFunction [(''keep'', JInt 3 :: nat jvalue)] = (sql, vals)" by fastforce
  from rpc_args_bound [OF c b] b show ?thesis by (simp add: trimFunction_def Let_def)
qed

text \<open>A set with a filter, a to-one embed, an order and a page, counted exactly.\<close>

definition recentCall :: restRequest where
  "recentCall = exampleDelete\<lparr>rq_method := ''GET'', rq_table := ''recent'', rq_prefer := [''count=exact''],
     rq_query := [(''keep'', [''9'']), (''select'', [''body,author(name)'']), (''body'', [''eq.x'']), (''order'', [''id.desc'']), (''limit'', [''2'']), (''offset'', [''4''])]\<rparr>"

definition recentArgs :: "(nat jvalue) gmap" where
  "recentArgs = [(''keep'', JText ''9'')]"

lemma recent_chain: "\<not> isl (parseRPCChain callConfig recentCall recentFunction)"
  by code_simp

lemma recent_length:
  "length (snd (setofQuery ''exact'' (fst (buildRPCCall ''recent'' recentFunction recentArgs)) (snd (buildRPCCall ''recent'' recentFunction recentArgs))
     (projr (parseRPCChain callConfig recentCall recentFunction)))) = 4"
  by code_simp

theorem rpc_query_numbered_witness:
  "set (placeholders (fst (setofQuery ''exact'' (fst (buildRPCCall ''recent'' recentFunction recentArgs))
     (snd (buildRPCCall ''recent'' recentFunction recentArgs)) (projr (parseRPCChain callConfig recentCall recentFunction))))) = {1..4}"
proof -
  have "tablesFree (cfg_Tables callConfig)" "dollarFree ''recent''" "list_all (\<lambda>a. dollarFree (arg_Name a)) (fn_Args recentFunction)"
    by code_simp+
  moreover have "parseRPCChain callConfig recentCall recentFunction = Inr (projr (parseRPCChain callConfig recentCall recentFunction))"
    using recent_chain by (rule sum.collapse(2) [symmetric])
  ultimately show ?thesis
    using rpc_query_numbered [OF _ _ _ _ prod.collapse [symmetric] prod.collapse [symmetric] prod.collapse [symmetric]] recent_length by metis
qed

end
