(* ===== verification/Spec2Isabelle.thy ===== *)
theory Spec2Isabelle
  imports Examples Config_Examples Auth_Access_Examples Rpc_Examples
begin

text \<open>
  A verification library for instancez (Go, \<open>src/\<close>), a server that turns one YAML config into a Postgres schema with
  row-level security and serves a PostgREST-compatible API over it.

  \<^bold>\<open>The program.\<close> A config (tables, fields, foreign keys, policies, buckets, functions) is loaded into the records of
  \<open>internal/domain\<close>, checked by \<open>internal/config\<close>, and migrated by \<open>internal/app\<close>: the migrator compares it with the
  config of the last migration, plans the DDL, refuses destructive plans, and runs the plan and its history row in one
  transaction under an advisory lock. At run time \<open>internal/adapter/http\<close> parses the query string of a request into
  filters, select lists, embeds and orders, validates every name in them against the declared tables, and builds one
  parameterised SQL statement, which runs with the database role of the caller. The auth service keeps users, sessions,
  mailed tokens, second factors and external identities in the \<open>auth\<close> schema and issues the access tokens whose claims
  choose that role.

  \<^bold>\<open>The theories.\<close> Strings are lists of bytes; a Go map is an association list, read with \<open>map_of\<close>, and where the source
  sorts the keys so does the model. A Go error is the left side of a sum, or a constructor of an error datatype.

  \<^item> \<open>Go_Strings\<close>, \<open>Sql_Text\<close>, \<open>Go_Regexp\<close>, \<open>Go_Duration\<close>, \<open>Sha256\<close>: the parts of the Go library the sources use
    (splitting, trimming, case, decimal numbers with the 64-bit range, quoting, regular expressions by derivatives,
    durations, the hash), with the collection of simplification rules the other theories share.
  \<^item> \<open>Domain_Schema\<close> (\<open>internal/domain/schema.go\<close>): the config records; \<open>ParseFKReference\<close>, \<open>EffectiveType\<close> (a chain
    of references followed with the set of those seen), \<open>FKCompatible\<close>, \<open>EffectiveRLSEnabled\<close>, \<open>PrimaryKeyColumns\<close>.
    \<open>Domain_Database\<close> (\<open>domain/database.go\<close>): roles and the session role of a claim.
  \<^item> \<open>Postgrest_Where\<close> (\<open>http/postgrest/where.go\<close>), \<open>Postgrest_Select\<close> (\<open>select.go\<close>), \<open>Postgrest_Embed\<close> and
    \<open>Postgrest_Query\<close> (\<open>builders.go\<close>, \<open>params.go\<close>), \<open>Request_Params\<close> (\<open>parseQueryParams\<close> and the caps of
    \<open>crud_handler.go\<close>): the filter language, select lists, embeds, and the SQL builders.
  \<^item> \<open>Where_Laws\<close>, \<open>Where_RoundTrip\<close>, \<open>Embed_Laws\<close>, \<open>Query_Laws\<close>, \<open>Dml_Laws\<close>: what is true of them. Text and
    arguments are separated (\<open>values_never_in_sql\<close>), placeholders are consecutive with one argument each
    (\<open>accepted_request_numbered\<close>), accepted columns are declared ones, embeds follow declared foreign keys, the
    surface syntax round-trips, and the row caps bind.
  \<^item> \<open>Migrate_Ddl\<close> (statements as data with their text), \<open>Migrate_Static\<close>, \<open>Migrate_Gen\<close>, \<open>Table_Order\<close>,
    \<open>Policy_Text\<close>, \<open>Migrate_Plan\<close> (\<open>app/migrate.go\<close>, \<open>migrate_dryrun.go\<close>), \<open>Migrate_Diff\<close>
    (\<open>migrate_config_diff.go\<close>): generation, diff, plans, gates and \<open>Apply\<close> as a function of the database state.
  \<^item> \<open>Catalog\<close>: an abstract catalog, the locales of a database that executes statements, and their interpretations for
    the columns of all tables (\<open>execT\<close>) and for the row security of one table (\<open>execP\<close>). \<open>Migrate_Refinement\<close> shows
    that plans reach the schema of the config, \<open>Migrate_RLS\<close> that they reach its policies, \<open>Migrate_Gate\<close> that the
    destructive gate is exact, \<open>Migrate_History\<close> that \<open>Apply\<close> is atomic and idempotent and that a fleet of servers
    behind the lock stays in step (an inductive step relation with an invariant of the reachable states).
  \<^item> \<open>Config_Suggest\<close>, \<open>Sql_Check\<close>, \<open>Config_Validate\<close> (\<open>config/suggest.go\<close>, \<open>sqlcheck.go\<close>, \<open>validate.go\<close>): the
    validator. \<open>Config_Laws\<close> and \<open>Config_Refs\<close> connect it with the parts that rely on it: accepted configs satisfy
    the hypotheses of the migration theorems, their policies are single statements that keep their parentheses, their
    foreign keys have a target that holds up.
  \<^item> \<open>Auth_Store\<close> (the tables of the \<open>auth\<close> schema), \<open>Auth_Sessions\<close>, \<open>Auth_OTP\<close>, \<open>Auth_Users\<close>, \<open>Auth_Flows\<close>
    (\<open>adapter/auth/service.go\<close>, \<open>domain/auth.go\<close>) and \<open>Auth_MFA\<close> (with \<open>http/mfa_handler.go\<close>): each query of the
    service as a function of the tables. What lies outside a call is its \<open>env\<close>: the database clock, the clock of the
    server, the next random UUID, and the statements that fail. \<open>Auth_Session_Laws\<close>, \<open>Auth_MFA_Laws\<close> and
    \<open>Auth_MFA_Guesses\<close> show over all runs that refresh tokens rotate once and stay with their owner, that a replay ends
    the session, that mailed tokens are used once and guesses at them are bounded, and what raises a session to \<open>aal2\<close>.
  \<^item> \<open>Go_Url\<close>, \<open>Auth_Redirect\<close> (\<open>IsRedirectAllowed\<close> in \<open>domain/schema.go\<close>): an accepted redirect target leads a
    browser to the server or to an origin of the allowlist.
  \<^item> \<open>Auth_Handlers\<close>, \<open>Auth_Mail_Handlers\<close>, \<open>Auth_OAuth_Handlers\<close>, \<open>Auth_Router\<close> (\<open>http/auth_handler.go\<close>,
    \<open>adapter/auth/oauthprovider.go\<close>): the handlers under \<open>/auth/v1\<close> and their routes (\<open>serve\<close>), from the decoded
    request to the answer, the mails and the tables. \<open>Auth_Frames\<close> collects what each operation leaves alone, and
    \<open>Auth_Access\<close> shows for all routes together what opens a session and, over all runs of requests, what raises it.
  \<^item> \<open>Rest_Auth\<close> (\<open>http/middleware.go\<close>, the transaction setup of \<open>postgres/pool.go\<close>), \<open>Rest_Prefer\<close> and
    \<open>Rest_Accept\<close> (the headers of a request; \<open>crud_handler.go\<close>, \<open>plan.go\<close>), \<open>Rest_Body\<close> (records and CSV values),
    \<open>Rest_Crud\<close> and \<open>Rest_List\<close> (the handlers of \<open>/rest/v1/<table>\<close> and its routes, \<open>serveTable\<close>). The connection to
    the database is a parameter (\<open>conn\<close>): it begins a transaction with a setup text, runs statements, commits.
    \<open>Rest_Auth_Laws\<close> reads the setup text the way Postgres does, \<open>Rest_Page\<close> computes pages as sets of rows, and
    \<open>Rest_Laws\<close> and \<open>Rest_Safety\<close> show what a request can do: its changes are one transaction, under the role that its
    credential gives, with the statements of its method.
  \<^item> \<open>Rpc_Call\<close>, \<open>Rpc_Handler\<close> (\<open>http/rpc_handler.go\<close>): calls of declared functions, from the arguments of the request
    to the statement, the counts and the answer (\<open>serveRPC\<close>). \<open>Rpc_Query\<close> shows that its statements number their
    placeholders, \<open>Rpc_Safety\<close> that only a POST to a volatile function by an admitted caller changes anything.
  \<^item> \<open>Runs\<close>: a locale for step relations with an invariant, interpreted for the fleet of migrators, sessions,
    one-time tokens, factors and requests.
  \<^item> \<open>Examples\<close>, \<open>Migrate_Examples\<close>, \<open>Config_Examples\<close>, \<open>Auth_Examples\<close>, \<open>Auth_Access_Examples\<close>, \<open>Rest_Examples\<close>,
    \<open>Rpc_Examples\<close>: concrete configs and requests on which the theorems are applied, and inputs the code accepts although it should not.

  \<^bold>\<open>Parameters.\<close> The Postgres server is a parameter of \<open>Apply\<close> (\<open>Database\<close>: executing a statement, reading a primary
  key, faults at the named calls); JSON marshalling of a config is the pair \<open>Codec\<close>, with the law that reading gives back
  what was written; reading a JWT is a parameter of the validator. Of the auth service, password hashing, the code of a TOTP time step
  (\<open>totp\<close>), \<open>lower(text)\<close>, \<open>jsonb\<close> concatenation, casts to intervals, the check of an ID token and the exchange of a
  code with a provider are parameters (record \<open>server\<close>, \<open>given\<close>). Of the REST handlers, the connection (\<open>conn\<close>), the verification of a token and the
  decoders of JSON, CSV lines, media types and floats (\<open>decoders\<close>) are parameters. The transactions of the auth service are taken as serialised, and the times of
  the database clock do not decrease along a run. All loops end: they recurse on the input or on a
  decreasing measure, and no fuel is used.

  \<^bold>\<open>Not modelled.\<close> HTTP decoding and encoding, the YAML loader and its node trees, the Postgres driver, object storage
  and the text of mails, processes of the functions runtime, the command line, telemetry, the clients of remote services. Of the
  migrator: joining a plan into one text for display, the repair of the storage list index and the wording of dry-run
  hints. Line and column of validation errors come from the YAML tree and are left at zero.
\<close>

end
